(* ===== verification/Prelude.thy ===== *)
theory Prelude
  imports Main "HOL-Library.List_Lexorder" "HOL-Library.Char_ord" "HOL-Library.Multiset"
begin

text \<open>
  Shared vocabulary of the development.
  \<^item> Go strings are byte strings: \<open>string\<close> (a list of \<open>char\<close>), compared bytewise as Go's
    \<open><\<close> does (the lexicographic order of \<open>List_Lexorder\<close> over \<open>Char_ord\<close>).
  \<^item> The functions of Go's \<open>strings\<close>, \<open>strconv\<close> and \<open>sort\<close> packages that the code calls.
    \<open>sort.Slice\<close> is not stable and its algorithm is unspecified; \<open>sort_slice\<close> is an
    insertion sort, and the locale \<open>slice_order\<close> shows that for a strict total order every
    sorted rearrangement of the input equals it, so the choice of algorithm is immaterial.
  \<^item> The outcome of an API read (\<open>get_res\<close>) and of a nested-field read (\<open>nested\<close>).
\<close>

named_theorems go_defs "definitions of the Go library functions used by the model"

section \<open>Strings\<close>

fun strip_prefix :: "string \<Rightarrow> string \<Rightarrow> string option" where
  "strip_prefix [] s = Some s"
| "strip_prefix (p # ps) [] = None"
| "strip_prefix (p # ps) (c # s) = (if p = c then strip_prefix ps s else None)"

definition has_prefix :: "string \<Rightarrow> string \<Rightarrow> bool" where
  "has_prefix s p = (strip_prefix p s \<noteq> None)"

definition has_suffix :: "string \<Rightarrow> string \<Rightarrow> bool" where
  "has_suffix s p = (strip_prefix (rev p) (rev s) \<noteq> None)"

definition trim_suffix :: "string \<Rightarrow> string \<Rightarrow> string" where
  "trim_suffix s p = (case strip_prefix (rev p) (rev s) of None \<Rightarrow> s | Some r \<Rightarrow> rev r)"

fun str_contains :: "string \<Rightarrow> string \<Rightarrow> bool" where
  "str_contains [] p = (p = [])"
| "str_contains (c # s) p = (has_prefix (c # s) p \<or> str_contains s p)"

fun str_join :: "string \<Rightarrow> string list \<Rightarrow> string" where
  "str_join sep [] = []"
| "str_join sep [x] = x"
| "str_join sep (x # y # xs) = x @ sep @ str_join sep (y # xs)"

text \<open>\<open>unicode.IsSpace\<close> on ASCII bytes, as \<open>strings.TrimSpace\<close> uses it.\<close>

definition is_space :: "char \<Rightarrow> bool" where
  "is_space c = (c \<in> {CHR '' '', CHR 0x09, CHR 0x0A, CHR 0x0B, CHR 0x0C, CHR 0x0D})"

definition trim_space :: "string \<Rightarrow> string" where
  "trim_space s = rev (dropWhile is_space (rev (dropWhile is_space s)))"

text \<open>\<open>%d\<close> and \<open>strconv.Itoa\<close> on a non-negative integer.\<close>

fun show_nat :: "nat \<Rightarrow> string" where
  "show_nat n = (if n < 10 then [char_of (48 + n)]
                 else show_nat (n div 10) @ [char_of (48 + n mod 10)])"

declare show_nat.simps [simp del]

lemma strip_prefix_append [simp]: "strip_prefix p (p @ s) = Some s"
  by (induction p) auto

lemma strip_prefix_eq_Some: "strip_prefix p s = Some r \<longleftrightarrow> s = p @ r"
  by (induction p s rule: strip_prefix.induct) auto

lemma strip_prefix_eq_None: "strip_prefix p s = None \<longleftrightarrow> (\<forall>r. s \<noteq> p @ r)"
  by (induction p s rule: strip_prefix.induct) auto

lemma has_prefix_iff: "has_prefix s p \<longleftrightarrow> (\<exists>r. s = p @ r)"
  by (auto simp: has_prefix_def strip_prefix_eq_Some)

lemma has_suffix_iff: "has_suffix s p \<longleftrightarrow> (\<exists>r. s = r @ p)"
proof -
  have "(\<exists>r. rev s = rev p @ r) \<longleftrightarrow> (\<exists>r. s = r @ p)"
    by (metis rev_append rev_rev_ident)
  then show ?thesis by (auto simp: has_suffix_def strip_prefix_eq_Some)
qed

lemma trim_suffix_append [simp]: "trim_suffix (s @ p) p = s"
  by (simp add: trim_suffix_def)

lemma has_suffix_append [simp]: "has_suffix (s @ p) p"
  by (auto simp: has_suffix_iff)

lemma trim_suffix_restore: "has_suffix s p \<Longrightarrow> trim_suffix s p @ p = s"
  by (auto simp: has_suffix_iff)

text \<open>Fields joined with a separator that the earlier fields do not contain can be told apart.\<close>

lemma append_sep_eq:
  "c \<notin> set a \<Longrightarrow> c \<notin> set b \<Longrightarrow> a @ c # x = b @ c # y \<longleftrightarrow> a = b \<and> x = y"
proof (induction a arbitrary: b)
  case Nil
  then show ?case by (cases b) auto
next
  case (Cons d a)
  then show ?case by (cases b) auto
qed

section \<open>Sorting a slice\<close>

fun insert_slice :: "('a \<Rightarrow> 'a \<Rightarrow> bool) \<Rightarrow> 'a \<Rightarrow> 'a list \<Rightarrow> 'a list" where
  "insert_slice lt x [] = [x]"
| "insert_slice lt x (y # ys) = (if lt y x then y # insert_slice lt x ys else x # y # ys)"

definition sort_slice :: "('a \<Rightarrow> 'a \<Rightarrow> bool) \<Rightarrow> 'a list \<Rightarrow> 'a list" where
  "sort_slice lt xs = foldr (insert_slice lt) xs []"

lemma mset_insert_slice [simp]: "mset (insert_slice lt x ys) = add_mset x (mset ys)"
  by (induction ys) auto

lemma mset_sort_slice [simp]: "mset (sort_slice lt xs) = mset xs"
  by (induction xs) (auto simp: sort_slice_def)

lemma set_insert_slice [simp]: "set (insert_slice lt x ys) = insert x (set ys)"
  by (induction ys) auto

lemma set_sort_slice [simp]: "set (sort_slice lt xs) = set xs"
  by (metis mset_sort_slice set_mset_mset)

lemma length_sort_slice [simp]: "length (sort_slice lt xs) = length xs"
  by (metis mset_sort_slice size_mset)

lemma sort_slice_Nil [simp]: "sort_slice lt [] = []"
  by (simp add: sort_slice_def)

lemma sort_slice_Cons: "sort_slice lt (x # xs) = insert_slice lt x (sort_slice lt xs)"
  by (simp add: sort_slice_def)

text \<open>The slice is in order: no element is strictly less than an earlier one.\<close>

abbreviation in_order :: "('a \<Rightarrow> 'a \<Rightarrow> bool) \<Rightarrow> 'a list \<Rightarrow> bool" where
  "in_order lt \<equiv> sorted_wrt (\<lambda>a b. \<not> lt b a)"

locale slice_weak_order =
  fixes lt :: "'a \<Rightarrow> 'a \<Rightarrow> bool"
  assumes lt_asym: "lt a b \<Longrightarrow> \<not> lt b a"
    and lt_neg_trans: "\<not> lt b a \<Longrightarrow> \<not> lt c b \<Longrightarrow> \<not> lt c a"
begin

lemma insert_slice_in_order: "in_order lt ys \<Longrightarrow> in_order lt (insert_slice lt x ys)"
  by (induction ys) (auto dest: lt_asym lt_neg_trans)

lemma sort_slice_in_order: "in_order lt (sort_slice lt xs)"
  by (induction xs) (auto simp: sort_slice_Cons insert_slice_in_order)

text \<open>
  Where the order tells any two different elements of the slice apart, the sorted slice is
  unique: any algorithm that sorts in place returns exactly \<open>sort_slice\<close>.
\<close>

lemma in_order_unique_on:
  "in_order lt xs \<Longrightarrow> in_order lt ys \<Longrightarrow> mset xs = mset ys \<Longrightarrow>
   \<forall>a\<in>set xs. \<forall>b\<in>set xs. a \<noteq> b \<longrightarrow> lt a b \<or> lt b a \<Longrightarrow> xs = ys"
proof (induction xs arbitrary: ys)
  case Nil
  then show ?case by simp
next
  case (Cons x xs)
  then obtain y ys' where ys: "ys = y # ys'" by (cases ys) auto
  have "x \<in> set ys" and y: "y \<in> set (x # xs)"
    using Cons.prems(3) ys by (metis list.set_intros(1) set_mset_mset)+
  then have "x = y"
    using Cons.prems(1,2,4) ys by (metis list.set_intros(1) set_ConsD sorted_wrt.simps(2))
  then show ?case using Cons ys by simp
qed

lemma sort_slice_canonical_on:
  "mset ys = mset xs \<Longrightarrow> in_order lt ys \<Longrightarrow>
   \<forall>a\<in>set xs. \<forall>b\<in>set xs. a \<noteq> b \<longrightarrow> lt a b \<or> lt b a \<Longrightarrow> ys = sort_slice lt xs"
  by (metis in_order_unique_on mset_sort_slice set_mset_mset sort_slice_in_order)

end

locale slice_order = slice_weak_order +
  assumes lt_total: "a \<noteq> b \<Longrightarrow> lt a b \<or> lt b a"
begin

lemma sort_slice_canonical:
  "mset ys = mset xs \<Longrightarrow> in_order lt ys \<Longrightarrow> ys = sort_slice lt xs"
  using lt_total by (auto intro: sort_slice_canonical_on)

lemma sort_slice_cong_mset: "mset xs = mset ys \<Longrightarrow> sort_slice lt xs = sort_slice lt ys"
  by (simp add: sort_slice_canonical sort_slice_in_order)

lemma sort_slice_id: "in_order lt xs \<Longrightarrow> sort_slice lt xs = xs"
  using sort_slice_canonical by metis

end

text \<open>\<open>sort.Strings\<close>: the bytewise order on strings.\<close>

abbreviation str_less :: "string \<Rightarrow> string \<Rightarrow> bool" where
  "str_less a b \<equiv> a < b"

abbreviation sort_strings :: "string list \<Rightarrow> string list" where
  "sort_strings \<equiv> sort_slice str_less"

interpretation strs: slice_order str_less
  by unfold_locales auto

text \<open>A comparison by several string fields, the first difference deciding.\<close>

definition keys_less :: "('a \<Rightarrow> string list) \<Rightarrow> 'a \<Rightarrow> 'a \<Rightarrow> bool" where
  "keys_less k a b = (k a < k b)"

lemma keys_less_weak: "slice_weak_order (keys_less k)"
  by unfold_locales (auto simp: keys_less_def)

lemma keys_less_order: "inj k \<Longrightarrow> slice_order (keys_less k)"
  by (intro slice_order.intro keys_less_weak slice_order_axioms.intro)
    (metis injD keys_less_def not_less_iff_gr_or_eq)

section \<open>Collecting problems\<close>

text \<open>A loop that appends problems finds none exactly when no element yields one.\<close>

lemma concat_map_Nil: "concat (map f xs) = [] \<longleftrightarrow> (\<forall>x\<in>set xs. f x = [])"
  by auto

lemma concat_keys_Nil:
  "concat (map (\<lambda>(k, _). if k \<in> A then [] else [g k]) m) = [] \<longleftrightarrow> fst ` set m \<subseteq> A"
  by (induction m) (auto split: if_splits)

lemma mset_concat_map_cong:
  "image_mset h (mset xs) = image_mset h (mset ys) \<Longrightarrow>
   (\<And>x y. x \<in> set xs \<Longrightarrow> y \<in> set ys \<Longrightarrow> h x = h y \<Longrightarrow> mset (f x) = mset (g y)) \<Longrightarrow>
   mset (concat (map f xs)) = mset (concat (map g ys))"
proof (induction xs arbitrary: ys)
  case Nil
  then show ?case by simp
next
  case (Cons x xs)
  then have "h x \<in># image_mset h (mset ys)"
    by (metis image_mset_add_mset mset.simps(2) union_single_eq_member)
  then obtain y where y: "y \<in> set ys" "h x = h y" by auto
  then obtain ys1 ys2 where ys: "ys = ys1 @ y # ys2" by (meson split_list)
  have "mset (concat (map f xs)) = mset (concat (map g (ys1 @ ys2)))"
    using Cons.prems y ys by (intro Cons.IH) auto
  moreover have "mset (f x) = mset (g y)" using Cons.prems(2) y by auto
  ultimately show ?case using ys by simp
qed

lemma map_of_all_keys: "(\<forall>x\<in>A. map_of m (h x) \<noteq> None) \<longleftrightarrow> h ` A \<subseteq> fst ` set m"
  by (auto simp: map_of_eq_None_iff)

section \<open>Reads of the API server and of nested fields\<close>

text \<open>
  A \<open>Get\<close> of the Kubernetes client returns an object, a NotFound error or another error;
  the client is not part of this repository, so every function that reads takes the read
  functions as arguments.
\<close>

datatype 'a get_res = Found 'a | NotFound | GetErr string

text \<open>
  \<open>unstructured.NestedString\<close> and its kin return the value, nothing (absent), or an error
  (present with another type); \<open>nval\<close> is the value when the code ignores the other results.
\<close>

datatype 'a nested = NAbsent | NBadType | NVal 'a

definition nval :: "'a \<Rightarrow> 'a nested \<Rightarrow> 'a" where
  "nval d n = (case n of NVal v \<Rightarrow> v | _ \<Rightarrow> d)"

lemma nval_simps [simp]:
  "nval d NAbsent = d" "nval d NBadType = d" "nval d (NVal v) = v"
  by (simp_all add: nval_def)

section \<open>Maps as association lists\<close>

text \<open>
  A Go map that the code iterates over is an association list (the iteration order is the
  list order, which Go leaves unspecified); one that it only looks up is a function.
\<close>

definition distinct_keys :: "('k \<times> 'v) list \<Rightarrow> bool" where
  "distinct_keys m = distinct (map fst m)"

lemma map_of_perm:
  "distinct_keys m \<Longrightarrow> mset m = mset m' \<Longrightarrow> map_of m = map_of m'"
proof -
  assume d: "distinct_keys m" and e: "mset m = mset m'"
  have "set m = set m'" using e by (metis set_mset_mset)
  moreover have "distinct (map fst m')"
    using d e unfolding distinct_keys_def by (metis mset_eq_imp_distinct_iff mset_map)
  ultimately show ?thesis
    using d by (intro map_of_inject_set [THEN iffD2]) (auto simp: distinct_keys_def)
qed

end
