(* ===== verification/Api_Types.thy ===== *)
theory Api_Types
  imports Prelude
begin

text \<open>
  The types of \<open>api/storage/v1alpha1\<close> that the rest of the model uses (the references of the
  snapshot graph, the data binding of a SnapshotContent, the capture phases), the reasons of the
  Ready condition, and the two canonical classifiers of a reason: terminal and degraded.
\<close>

section \<open>References and bindings\<close>

record subject_ref =
  sr_apiVersion :: string
  sr_kind :: string
  sr_name :: string
  sr_namespace :: string
  sr_uid :: string

record artifact_ref =
  ar_apiVersion :: string
  ar_kind :: string
  ar_name :: string
  ar_uid :: string

record data_binding =
  SourceRef :: subject_ref
  ArtifactRef :: artifact_ref
  VolumeMode :: string
  FsType :: string
  StorageClassName :: string
  Size :: string

record snapshot_child_ref =
  cr_apiVersion :: string
  cr_kind :: string
  cr_name :: string

record excluded_ref =
  er_apiVersion :: string
  er_kind :: string
  er_name :: string

definition zero_subject_ref :: subject_ref where
  "zero_subject_ref = \<lparr>sr_apiVersion = '''', sr_kind = '''', sr_name = '''', sr_namespace = '''', sr_uid = ''''\<rparr>"

definition zero_artifact_ref :: artifact_ref where
  "zero_artifact_ref = \<lparr>ar_apiVersion = '''', ar_kind = '''', ar_name = '''', ar_uid = ''''\<rparr>"

section \<open>Conditions\<close>

abbreviation "ConditionTrue \<equiv> ''True''"
abbreviation "ConditionFalse \<equiv> ''False''"
abbreviation "ConditionUnknown \<equiv> ''Unknown''"

record condition =
  co_type :: string
  co_status :: string
  co_reason :: string
  co_message :: string
  co_gen :: int
  co_time :: string

abbreviation "ConditionReady \<equiv> ''Ready''"
abbreviation "ConditionManifestsReady \<equiv> ''ManifestsReady''"
abbreviation "ConditionDataReady \<equiv> ''DataReady''"
abbreviation "ConditionChildrenReady \<equiv> ''ChildrenReady''"

section \<open>Capture phases\<close>

abbreviation "PhasePlanning \<equiv> ''Planning''"
abbreviation "PhasePlanned \<equiv> ''Planned''"
abbreviation "PhaseFinished \<equiv> ''Finished''"
abbreviation "PhaseFailed \<equiv> ''Failed''"

section \<open>Reasons\<close>

abbreviation "ReasonArtifactMissing \<equiv> ''ArtifactMissing''"
abbreviation "ReasonCompleted \<equiv> ''Completed''"
abbreviation "ReasonCreateChildFailed \<equiv> ''CreateChildFailed''"
abbreviation "ReasonGraphPlanningFailed \<equiv> ''GraphPlanningFailed''"
abbreviation "ReasonChildrenLinkPending \<equiv> ''ChildrenLinkPending''"
abbreviation "ReasonChildSnapshotDeleted \<equiv> ''ChildSnapshotDeleted''"
abbreviation "ReasonChildSnapshotLost \<equiv> ''ChildSnapshotLost''"
abbreviation "ReasonContentMissing \<equiv> ''ContentMissing''"
abbreviation "ReasonArtifactNotReady \<equiv> ''ArtifactNotReady''"
abbreviation "ReasonDataCapturePending \<equiv> ''DataCapturePending''"
abbreviation "ReasonDataArtifactInvalid \<equiv> ''DataArtifactInvalid''"
abbreviation "ReasonDataArtifactNotSupported \<equiv> ''DataArtifactNotSupported''"
abbreviation "ReasonDataImportAmbiguous \<equiv> ''DataImportAmbiguous''"
abbreviation "ReasonVolumeCaptureFailed \<equiv> ''VolumeCaptureFailed''"
abbreviation "ReasonDomainCaptureFailed \<equiv> ''DomainCaptureFailed''"
abbreviation "ReasonManifestCheckpointFailed \<equiv> ''ManifestCheckpointFailed''"
abbreviation "ReasonContentBindingPending \<equiv> ''ContentBindingPending''"
abbreviation "ReasonImportPending \<equiv> ''ImportPending''"
abbreviation "ReasonChildrenPending \<equiv> ''ChildrenPending''"
abbreviation "ReasonSubtreeManifestCapturePending \<equiv> ''SubtreeManifestCapturePending''"
abbreviation "ReasonManifestCapturePending \<equiv> ''ManifestCapturePending''"
abbreviation "ReasonChildrenFailed \<equiv> ''ChildrenFailed''"
abbreviation "ReasonListFailed \<equiv> ''ListFailed''"
abbreviation "ReasonSourceListForbidden \<equiv> ''SourceListForbidden''"

definition TerminalReadyReasons :: "string list" where
  "TerminalReadyReasons =
    [''ListFailed'', ''ManifestCheckpointFailed'', ''NamespaceNotFound'', ''VolumeCaptureFailed'',
     ''DuplicateCoveredPVCUID'', ''ChildrenFailed'', ReasonArtifactMissing, ''DomainCaptureFailed'',
     ReasonGraphPlanningFailed, ReasonCreateChildFailed, ReasonChildSnapshotLost]"

definition IsReasonTerminal :: "string \<Rightarrow> bool" where
  "IsReasonTerminal reason = (reason \<in> set TerminalReadyReasons)"

definition DegradedReadyReasons :: "string list" where
  "DegradedReadyReasons = [ReasonChildSnapshotDeleted]"

definition IsReasonDegraded :: "string \<Rightarrow> bool" where
  "IsReasonDegraded reason = (reason \<in> set DegradedReadyReasons)"

lemmas reason_defs = IsReasonTerminal_def TerminalReadyReasons_def
  IsReasonDegraded_def DegradedReadyReasons_def

text \<open>A reason is recoverable-degraded or terminal, never both.\<close>

lemma terminal_degraded_disjoint: "\<not> (IsReasonTerminal r \<and> IsReasonDegraded r)"
  by (auto simp: reason_defs)

end
