(* ===== verification/Dataleg.thy ===== *)
theory Dataleg
  imports Api_Types
begin

text \<open>
  The completeness contract of \<open>SnapshotContent.status.data\<close>
  (\<open>api/storage/v1alpha1/dataleg/scenario.go\<close> and \<open>completeness.go\<close>): the scenario axis and
  the classifier of the router, the scenario-by-field matrix, the validation of a contract and
  the judgement of one published binding.

  Messages are kept as values: a \<open>problem\<close> or a \<open>violation\<close> carries the arguments of the
  \<open>fmt\<close> call. \<open>validate\<close> sorts the rendered problems, so it takes the rendering as an argument.
  The two levels of the rules map are association lists with distinct keys; their order is Go's
  unspecified iteration order.
\<close>

section \<open>The scenario axis\<close>

type_synonym scenario = string

abbreviation "NativeCapture \<equiv> ''native capture''"
abbreviation "NativeImport \<equiv> ''native import''"
abbreviation "DomainCapture \<equiv> ''domain capture''"
abbreviation "DomainImport \<equiv> ''domain import''"

definition Scenarios :: "scenario list" where
  "Scenarios = [NativeCapture, NativeImport, DomainCapture, DomainImport]"

definition Classify :: "bool \<Rightarrow> bool \<Rightarrow> scenario" where
  "Classify nativeCSI importMode =
     (if nativeCSI then (if importMode then NativeImport else NativeCapture)
      else if importMode then DomainImport else DomainCapture)"

definition discriminatorCombinations :: "(bool \<times> bool) list" where
  "discriminatorCombinations = [(False, False), (False, True), (True, False), (True, True)]"

section \<open>Rules, fields and the matrix\<close>

type_synonym expectation = string

abbreviation "MustBeSet \<equiv> ''MustBeSet''"
abbreviation "MayBeEmpty \<equiv> ''MayBeEmpty''"
abbreviation "MustBeEmpty \<equiv> ''MustBeEmpty''"
abbreviation "MustBeSetUnlessBlock \<equiv> ''MustBeSetUnlessBlock''"

record rule =
  r_expect :: expectation
  r_source :: string
  r_reason :: string

definition zero_rule :: rule where
  "zero_rule = \<lparr>r_expect = '''', r_source = '''', r_reason = ''''\<rparr>"

abbreviation "volumeModeField \<equiv> ''VolumeMode''"
abbreviation "blockVolumeMode \<equiv> ''Block''"

record field =
  f_name :: string
  f_json :: string
  f_index :: nat

text \<open>
  The walk over \<open>SnapshotDataBinding\<close> by reflection: its fields in declaration order with the
  names of their json tags.
\<close>

definition sdb_fields :: "field list" where
  "sdb_fields =
    [\<lparr>f_name = ''SourceRef'', f_json = ''sourceRef'', f_index = 0\<rparr>,
     \<lparr>f_name = ''ArtifactRef'', f_json = ''artifactRef'', f_index = 1\<rparr>,
     \<lparr>f_name = ''VolumeMode'', f_json = ''volumeMode'', f_index = 2\<rparr>,
     \<lparr>f_name = ''FsType'', f_json = ''fsType'', f_index = 3\<rparr>,
     \<lparr>f_name = ''StorageClassName'', f_json = ''storageClassName'', f_index = 4\<rparr>,
     \<lparr>f_name = ''Size'', f_json = ''size'', f_index = 5\<rparr>]"

definition FieldNames :: "string list" where
  "FieldNames = map f_name sdb_fields"

definition Cells :: nat where
  "Cells = length Scenarios * length sdb_fields"

text \<open>\<open>reflect.Value.Field(i).IsZero()\<close>; an index outside the struct panics.\<close>

definition field_is_zero :: "data_binding \<Rightarrow> nat \<Rightarrow> bool option" where
  "field_is_zero b i =
     (if i = 0 then Some (SourceRef b = zero_subject_ref)
      else if i = 1 then Some (ArtifactRef b = zero_artifact_ref)
      else if i = 2 then Some (VolumeMode b = [])
      else if i = 3 then Some (FsType b = [])
      else if i = 4 then Some (StorageClassName b = [])
      else if i = 5 then Some (Size b = [])
      else None)"

text \<open>The em dash of the source texts, as its UTF-8 bytes.\<close>

definition em_dash :: string where
  "em_dash = [CHR 0xE2, CHR 0x80, CHR 0x94]"

definition matrix_native_capture :: "(string \<times> rule) list" where
  "matrix_native_capture = [
   (''SourceRef'', \<lparr>r_expect = MustBeSet, r_source = (''owner.status.sourceRef '' @ em_dash @ '' the captured PVC, published by the foundation domain reconciler at adoption''), r_reason = ''''\<rparr>),
   (''ArtifactRef'', \<lparr>r_expect = MustBeSet, r_source = ''owner.status.boundVolumeSnapshotContentName (the VSC the fork bound); uid backfilled from the live VSC'', r_reason = ''''\<rparr>),
   (''VolumeMode'', \<lparr>r_expect = MustBeSet, r_source = ''EnrichDataBindingsWithVolumeMetadata from the live source PVC.spec.volumeMode (nil means the Kubernetes default, Filesystem)'', r_reason = ''''\<rparr>),
   (''FsType'', \<lparr>r_expect = MustBeSetUnlessBlock, r_source = ''EnrichDataBindingsWithVolumeMetadata from the bound PV.spec.csi.fsType, read only for a Filesystem volume'', r_reason = ''a raw block volume carries no filesystem: the enricher skips the PV read entirely for volumeMode Block, so a value here could only have come from a different volume''\<rparr>),
   (''StorageClassName'', \<lparr>r_expect = MustBeSet, r_source = ''EnrichDataBindingsWithVolumeMetadata from the live source PVC.spec.storageClassName'', r_reason = ''''\<rparr>),
   (''Size'', \<lparr>r_expect = MustBeSet, r_source = ''VolumeSnapshotContent.status.restoreSize of the durable artifact'', r_reason = ''''\<rparr>)]"

definition matrix_native_import :: "(string \<times> rule) list" where
  "matrix_native_import = [
   (''SourceRef'', \<lparr>r_expect = MustBeSet, r_source = ''owner.status.sourceRef, rebuilt by the import binder from the checkpoint manifest (the PVC it names does not exist in this cluster)'', r_reason = ''''\<rparr>),
   (''ArtifactRef'', \<lparr>r_expect = MustBeSet, r_source = ''owner.status.boundVolumeSnapshotContentName, published by the import binder for the imported VSC'', r_reason = ''''\<rparr>),
   (''VolumeMode'', \<lparr>r_expect = MustBeSet, r_source = (''DataImport.status.volumeMode (storage-foundation republishes the scratch PVC'' @ [CHR 0x27] @ ''s mode), stamped onto the binding after enrichment''), r_reason = ''''\<rparr>),
   (''FsType'', \<lparr>r_expect = MustBeSetUnlessBlock, r_source = (''DataImport.status.data.fsType '' @ em_dash @ '' observed by storage-foundation on the scratch volume'' @ [CHR 0x27] @ ''s PV while it still existed''), r_reason = ''a raw block import has no filesystem, and storage-foundation publishes none for volumeMode Block''\<rparr>),
   (''StorageClassName'', \<lparr>r_expect = MustBeSet, r_source = (''DataImport.spec.storageParams.storageClassName '' @ em_dash @ '' the class the bytes were staged into, stamped after enrichment''), r_reason = ''''\<rparr>),
   (''Size'', \<lparr>r_expect = MustBeSet, r_source = ''VolumeSnapshotContent.status.restoreSize of the imported artifact'', r_reason = ''''\<rparr>)]"

definition matrix_domain_capture :: "(string \<times> rule) list" where
  "matrix_domain_capture = [
   (''SourceRef'', \<lparr>r_expect = MustBeSet, r_source = (''the VolumeCaptureRequest'' @ [CHR 0x27] @ ''s captured target (status.data dataRefs of the VCR)''), r_reason = ''''\<rparr>),
   (''ArtifactRef'', \<lparr>r_expect = MustBeSet, r_source = (''the VolumeCaptureRequest'' @ [CHR 0x27] @ ''s produced artifact (status.data.artifactRef of the VCR)''), r_reason = ''''\<rparr>),
   (''VolumeMode'', \<lparr>r_expect = MustBeSet, r_source = ''EnrichDataBindingsWithVolumeMetadata from the live source PVC.spec.volumeMode'', r_reason = ''''\<rparr>),
   (''FsType'', \<lparr>r_expect = MustBeSetUnlessBlock, r_source = ''EnrichDataBindingsWithVolumeMetadata from the bound PV.spec.csi.fsType, read only for a Filesystem volume'', r_reason = ''a raw block volume carries no filesystem; the enricher skips the PV read for volumeMode Block''\<rparr>),
   (''StorageClassName'', \<lparr>r_expect = MustBeSet, r_source = ''EnrichDataBindingsWithVolumeMetadata from the live source PVC.spec.storageClassName'', r_reason = ''''\<rparr>),
   (''Size'', \<lparr>r_expect = MustBeSet, r_source = ''VolumeSnapshotContent.status.restoreSize of the durable artifact'', r_reason = ''''\<rparr>)]"

definition matrix_domain_import :: "(string \<times> rule) list" where
  "matrix_domain_import = [
   (''SourceRef'', \<lparr>r_expect = MustBeSet, r_source = (''the imported leaf'' @ [CHR 0x27] @ ''s own identity (apiVersion/kind/namespace/name/uid) '' @ em_dash @ '' it has no source PVC in this cluster''), r_reason = ''''\<rparr>),
   (''ArtifactRef'', \<lparr>r_expect = MustBeSet, r_source = ''DataImport.status.data.artifactRef of the reverse-looked-up DataImport'', r_reason = ''''\<rparr>),
   (''VolumeMode'', \<lparr>r_expect = MustBeSet, r_source = ''DataImport.status.volumeMode, set on the binding by BuildImportDataBinding'', r_reason = ''''\<rparr>),
   (''FsType'', \<lparr>r_expect = MustBeSetUnlessBlock, r_source = ''DataImport.status.data.fsType, set on the binding by BuildImportDataBinding'', r_reason = ''a raw block import has no filesystem, and storage-foundation publishes none for volumeMode Block''\<rparr>),
   (''StorageClassName'', \<lparr>r_expect = MustBeSet, r_source = ''DataImport.spec.storageParams.storageClassName, stamped after enrichment (it lives in the spec, not the status, so BuildImportDataBinding does not carry it)'', r_reason = ''''\<rparr>),
   (''Size'', \<lparr>r_expect = MustBeSet, r_source = ''VolumeSnapshotContent.status.restoreSize of the artifact the DataImport produced'', r_reason = ''''\<rparr>)]"

definition matrix :: "(scenario \<times> (string \<times> rule) list) list" where
  "matrix = [(NativeCapture, matrix_native_capture), (NativeImport, matrix_native_import), (DomainCapture, matrix_domain_capture), (DomainImport, matrix_domain_import)]"

section \<open>Contracts and their validation\<close>

record contract =
  k_fields :: "field list"
  k_axis :: "scenario list"
  k_classify :: "bool \<Rightarrow> bool \<Rightarrow> scenario"
  k_rules :: "(scenario \<times> (string \<times> rule) list) list"

definition liveContract :: contract where
  "liveContract = \<lparr>k_fields = sdb_fields, k_axis = Scenarios, k_classify = Classify, k_rules = matrix\<rparr>"

datatype problem =
    NoFields
  | AxisTwice scenario
  | OffAxis bool bool scenario
  | SharedCell scenario "(bool \<times> bool) list"
  | NotRouted scenario
  | NoColumn scenario
  | ColumnOffAxis scenario
  | NoRule scenario string string
  | StaleRule scenario string
  | NoModeField string
  | UnknownExpectation scenario string expectation
  | NoSource scenario string
  | NoReason scenario string expectation

definition ruleProblems :: "scenario \<Rightarrow> field \<Rightarrow> rule \<Rightarrow> problem list" where
  "ruleProblems s f r =
     (if r_expect r \<in> {MustBeSet, MayBeEmpty, MustBeEmpty, MustBeSetUnlessBlock} then []
      else [UnknownExpectation s (f_name f) (r_expect r)]) @
     (if trim_space (r_source r) = [] then [NoSource s (f_name f)] else []) @
     (if r_expect r \<noteq> MustBeSet \<and> trim_space (r_reason r) = []
      then [NoReason s (f_name f) (r_expect r)] else [])"

text \<open>The loop that marks the scenarios seen on the axis and reports the repeated ones.\<close>

fun axis_problems :: "scenario set \<Rightarrow> scenario list \<Rightarrow> problem list" where
  "axis_problems seen [] = []"
| "axis_problems seen (s # ss) =
     (if s \<in> seen then [AxisTwice s] else []) @ axis_problems (insert s seen) ss"

definition by_cell :: "(bool \<Rightarrow> bool \<Rightarrow> scenario) \<Rightarrow> scenario \<Rightarrow> (bool \<times> bool) list" where
  "by_cell classify cell = filter (\<lambda>(n, i). classify n i = cell) discriminatorCombinations"

definition routing_problems :: "contract \<Rightarrow> problem list" where
  "routing_problems c =
     (let axis = k_axis c; classify = k_classify c;
          cells = remdups (map (\<lambda>(n, i). classify n i) discriminatorCombinations)
      in concat (map (\<lambda>(n, i). if classify n i \<in> set axis then []
                               else [OffAxis n i (classify n i)]) discriminatorCombinations) @
         concat (map (\<lambda>cell. if length (by_cell classify cell) > 1
                             then [SharedCell cell (by_cell classify cell)] else []) cells) @
         concat (map (\<lambda>s. if length (by_cell classify s) = 0 then [NotRouted s] else []) axis))"

definition shape_problems :: "contract \<Rightarrow> problem list" where
  "shape_problems c =
     concat (map (\<lambda>s. case map_of (k_rules c) s of None \<Rightarrow> [NoColumn s] | Some _ \<Rightarrow> []) (k_axis c)) @
     concat (map (\<lambda>(s, _). if s \<in> set (k_axis c) then [] else [ColumnOffAxis s]) (k_rules c))"

definition column_problems :: "contract \<Rightarrow> scenario \<Rightarrow> (string \<times> rule) list \<Rightarrow> problem list" where
  "column_problems c s rules =
     concat (map (\<lambda>f. case map_of rules (f_name f) of
                        None \<Rightarrow> [NoRule s (f_name f) (f_json f)]
                      | Some r \<Rightarrow> ruleProblems s f r) (k_fields c)) @
     concat (map (\<lambda>(name, _). if name \<in> f_name ` set (k_fields c) then [] else [StaleRule s name]) rules)"

definition usesModeConditional :: "contract \<Rightarrow> bool" where
  "usesModeConditional c =
     list_ex (\<lambda>s. case map_of (k_rules c) s of None \<Rightarrow> False
                 | Some rules \<Rightarrow> list_ex (\<lambda>f. case map_of rules (f_name f) of None \<Rightarrow> False
                      | Some r \<Rightarrow> r_expect r = MustBeSetUnlessBlock) (k_fields c)) (k_axis c)"

definition contract_problems :: "contract \<Rightarrow> problem list" where
  "contract_problems c =
     (if k_fields c = [] then [NoFields] else []) @
     axis_problems {} (k_axis c) @
     routing_problems c @
     shape_problems c @
     concat (map (\<lambda>s. case map_of (k_rules c) s of None \<Rightarrow> []
                      | Some rules \<Rightarrow> column_problems c s rules) (k_axis c)) @
     (if usesModeConditional c \<and> volumeModeField \<notin> f_name ` set (k_fields c)
      then [NoModeField volumeModeField] else [])"

text \<open>The joined error: the rendered problems in sorted order; no problem is a nil error.\<close>

definition validate :: "(problem \<Rightarrow> string) \<Rightarrow> contract \<Rightarrow> string list" where
  "validate msg c = sort_strings (map msg (contract_problems c))"

section \<open>Judging one binding\<close>

datatype detail = EmptyButRequired string | SetButInapplicable nat string

record violation =
  v_scenario :: scenario
  v_field :: string
  v_json :: string
  v_expect :: expectation
  v_detail :: detail

record skip =
  s_scenario :: scenario
  s_field :: string
  s_json :: string
  s_reason :: string

record result =
  res_scenario :: scenario
  res_checked :: nat
  res_violations :: "violation list"
  res_skipped :: "skip list"

definition OK :: "result \<Rightarrow> bool" where
  "OK r = (length (res_violations r) = 0)"

datatype check_error =
    MatrixInvalid "string list"
  | NoBinding scenario
  | UnknownScenario scenario "scenario list"
  | ReflectPanic nat

definition undecidable_reason :: string where
  "undecidable_reason =
     ''volumeMode is empty, so it cannot be decided whether a filesystem applies (see the volumeMode cell)''"

definition resolveExpectation :: "rule \<Rightarrow> data_binding \<Rightarrow> expectation \<times> string \<times> bool" where
  "resolveExpectation r b =
     (if r_expect r \<noteq> MustBeSetUnlessBlock then (r_expect r, r_reason r, True)
      else if VolumeMode b = '''' then ('''', undecidable_reason, False)
      else if VolumeMode b = blockVolumeMode then (MustBeEmpty, r_reason r, True)
      else (MustBeSet, r_reason r, True))"

definition check_field ::
  "scenario \<Rightarrow> (string \<times> rule) list \<Rightarrow> data_binding \<Rightarrow> field \<Rightarrow> result \<Rightarrow> check_error + result" where
  "check_field scenario rules b f res =
     (let r = (case map_of rules (f_name f) of None \<Rightarrow> zero_rule | Some r \<Rightarrow> r);
          (expect, reason, decidable) = resolveExpectation r b
      in if \<not> decidable
         then Inr (res\<lparr>res_skipped := res_skipped res @
                [\<lparr>s_scenario = scenario, s_field = f_name f, s_json = f_json f, s_reason = reason\<rparr>]\<rparr>)
         else case field_is_zero b (f_index f) of
             None \<Rightarrow> Inl (ReflectPanic (f_index f))
           | Some is_zero \<Rightarrow>
             (let res = res\<lparr>res_checked := Suc (res_checked res)\<rparr>;
                  violate = (\<lambda>d. res\<lparr>res_violations := res_violations res @
                     [\<lparr>v_scenario = scenario, v_field = f_name f, v_json = f_json f,
                       v_expect = expect, v_detail = d\<rparr>]\<rparr>)
              in Inr (if expect = MustBeSet
                      then (if is_zero then violate (EmptyButRequired (r_source r)) else res)
                      else if expect = MustBeEmpty
                      then (if is_zero then res else violate (SetButInapplicable (f_index f) reason))
                      else res)))"

fun check_loop ::
  "scenario \<Rightarrow> (string \<times> rule) list \<Rightarrow> data_binding \<Rightarrow> field list \<Rightarrow> result \<Rightarrow> check_error + result" where
  "check_loop scenario rules b [] res = Inr res"
| "check_loop scenario rules b (f # fs) res =
     (case check_field scenario rules b f res of
        Inl e \<Rightarrow> Inl e
      | Inr res' \<Rightarrow> check_loop scenario rules b fs res')"

definition check ::
  "(problem \<Rightarrow> string) \<Rightarrow> contract \<Rightarrow> scenario \<Rightarrow> data_binding option \<Rightarrow> check_error + result" where
  "check msg c scenario binding =
     (if validate msg c \<noteq> [] then Inl (MatrixInvalid (validate msg c))
      else case binding of None \<Rightarrow> Inl (NoBinding scenario)
      | Some b \<Rightarrow>
        (case map_of (k_rules c) scenario of
           None \<Rightarrow> Inl (UnknownScenario scenario (k_axis c))
         | Some rules \<Rightarrow> check_loop scenario rules b (k_fields c)
             \<lparr>res_scenario = scenario, res_checked = 0, res_violations = [], res_skipped = []\<rparr>))"

definition Check :: "(problem \<Rightarrow> string) \<Rightarrow> scenario \<Rightarrow> data_binding option \<Rightarrow> check_error + result" where
  "Check msg scenario binding = check msg liveContract scenario binding"

section \<open>What a valid contract is\<close>

definition rule_ok :: "rule \<Rightarrow> bool" where
  "rule_ok r \<longleftrightarrow> r_expect r \<in> {MustBeSet, MayBeEmpty, MustBeEmpty, MustBeSetUnlessBlock} \<and>
     trim_space (r_source r) \<noteq> [] \<and> (r_expect r \<noteq> MustBeSet \<longrightarrow> trim_space (r_reason r) \<noteq> [])"

definition well_formed_contract :: "contract \<Rightarrow> bool" where
  "well_formed_contract c \<longleftrightarrow>
     k_fields c \<noteq> [] \<and> distinct (k_axis c) \<and>
     (\<forall>n i. k_classify c n i \<in> set (k_axis c)) \<and>
     (\<forall>n i n' i'. k_classify c n i = k_classify c n' i' \<longrightarrow> n = n' \<and> i = i') \<and>
     (\<forall>s\<in>set (k_axis c). \<exists>n i. k_classify c n i = s) \<and>
     fst ` set (k_rules c) = set (k_axis c) \<and>
     (\<forall>s\<in>set (k_axis c). \<forall>rules. map_of (k_rules c) s = Some rules \<longrightarrow>
        fst ` set rules = f_name ` set (k_fields c) \<and>
        (\<forall>f\<in>set (k_fields c). \<forall>r. map_of rules (f_name f) = Some r \<longrightarrow> rule_ok r)) \<and>
     (usesModeConditional c \<longrightarrow> volumeModeField \<in> f_name ` set (k_fields c))"

lemma ruleProblems_Nil: "ruleProblems s f r = [] \<longleftrightarrow> rule_ok r"
  by (auto simp: ruleProblems_def rule_ok_def)

lemma axis_problems_Nil: "axis_problems seen ss = [] \<longleftrightarrow> distinct ss \<and> set ss \<inter> seen = {}"
  by (induction seen ss rule: axis_problems.induct) auto

lemma set_combos: "set discriminatorCombinations = UNIV"
proof -
  have "(a, b) \<in> set discriminatorCombinations" for a b
    by (cases a; cases b) (simp_all add: discriminatorCombinations_def)
  then show ?thesis by auto
qed

lemma by_cell_empty: "by_cell classify s = [] \<longleftrightarrow> (\<nexists>n i. classify n i = s)"
proof -
  have "by_cell classify s = [] \<longleftrightarrow> (\<forall>p\<in>UNIV. \<not> (case p of (n, i) \<Rightarrow> classify n i = s))"
    unfolding by_cell_def filter_empty_conv set_combos ..
  then show ?thesis by auto
qed

text \<open>Two routes share a cell exactly when some cell lists more than one combination.\<close>

lemma by_cell_shared:
  "(\<forall>n i. length (by_cell classify (classify n i)) \<le> 1) \<longleftrightarrow>
   (\<forall>n i n' i'. classify n i = classify n' i' \<longrightarrow> n = n' \<and> i = i')"
  by (simp add: by_cell_def discriminatorCombinations_def all_bool_eq)

lemma routing_problems_Nil:
  "routing_problems c = [] \<longleftrightarrow>
     (\<forall>n i. k_classify c n i \<in> set (k_axis c)) \<and>
     (\<forall>n i n' i'. k_classify c n i = k_classify c n' i' \<longrightarrow> n = n' \<and> i = i') \<and>
     (\<forall>s\<in>set (k_axis c). \<exists>n i. k_classify c n i = s)"
proof -
  let ?cell = "\<lambda>(n, i). k_classify c n i" and ?by = "by_cell (k_classify c)"
  have "concat (map (\<lambda>(n, i). if k_classify c n i \<in> set (k_axis c) then []
          else [OffAxis n i (k_classify c n i)]) discriminatorCombinations) = [] \<longleftrightarrow>
        (\<forall>n i. k_classify c n i \<in> set (k_axis c))"
    unfolding concat_map_Nil set_combos by auto
  moreover have "concat (map (\<lambda>cell. if length (?by cell) > 1 then [SharedCell cell (?by cell)] else [])
          (remdups (map ?cell discriminatorCombinations))) = [] \<longleftrightarrow>
        (\<forall>n i. length (?by (k_classify c n i)) \<le> 1)"
    unfolding concat_map_Nil set_remdups set_map set_combos ball_simps
    by (auto simp: not_less split: if_splits)
  moreover have "concat (map (\<lambda>s. if length (?by s) = 0 then [NotRouted s] else []) (k_axis c)) = [] \<longleftrightarrow>
        (\<forall>s\<in>set (k_axis c). \<exists>n i. k_classify c n i = s)"
    unfolding concat_map_Nil by (simp add: by_cell_empty)
  ultimately show ?thesis
    unfolding routing_problems_def Let_def append_is_Nil_conv by_cell_shared by simp
qed

lemma shape_problems_Nil:
  "shape_problems c = [] \<longleftrightarrow> fst ` set (k_rules c) = set (k_axis c)"
proof -
  have "concat (map (\<lambda>s. case map_of (k_rules c) s of None \<Rightarrow> [NoColumn s] | Some _ \<Rightarrow> []) (k_axis c)) = []
      \<longleftrightarrow> set (k_axis c) \<subseteq> fst ` set (k_rules c)"
    using map_of_all_keys [of "set (k_axis c)" "k_rules c" id]
    unfolding concat_map_Nil by (auto split: option.splits)
  then show ?thesis
    unfolding shape_problems_def append_is_Nil_conv concat_keys_Nil by auto
qed

lemma column_problems_Nil:
  "column_problems c s rules = [] \<longleftrightarrow>
     fst ` set rules = f_name ` set (k_fields c) \<and>
     (\<forall>f\<in>set (k_fields c). \<forall>r. map_of rules (f_name f) = Some r \<longrightarrow> rule_ok r)"
proof -
  have "concat (map (\<lambda>f. case map_of rules (f_name f) of None \<Rightarrow> [NoRule s (f_name f) (f_json f)]
          | Some r \<Rightarrow> ruleProblems s f r) (k_fields c)) = [] \<longleftrightarrow>
      f_name ` set (k_fields c) \<subseteq> fst ` set rules \<and>
      (\<forall>f\<in>set (k_fields c). \<forall>r. map_of rules (f_name f) = Some r \<longrightarrow> rule_ok r)"
    unfolding map_of_all_keys [symmetric] concat_map_Nil
    by (auto simp: ruleProblems_Nil split: option.splits)
  then show ?thesis
    unfolding column_problems_def append_is_Nil_conv concat_keys_Nil by auto
qed

lemma contract_problems_Nil: "contract_problems c = [] \<longleftrightarrow> well_formed_contract c"
  unfolding contract_problems_def well_formed_contract_def append_is_Nil_conv concat_map_Nil
    axis_problems_Nil routing_problems_Nil shape_problems_Nil
  by (auto simp: column_problems_Nil split: option.splits)

lemma validate_Nil: "validate msg c = [] \<longleftrightarrow> contract_problems c = []"
  by (metis length_0_conv length_map length_sort_slice validate_def)


section \<open>The order of the rules map is immaterial\<close>

text \<open>
  Two iteration orders of one rules map: the columns are permuted, and so are the rules inside
  each column.
\<close>

definition same_column :: "scenario \<times> (string \<times> rule) list \<Rightarrow> scenario \<times> (string \<times> rule) list \<Rightarrow> bool" where
  "same_column p q \<longleftrightarrow> fst p = fst q \<and> mset (snd p) = mset (snd q) \<and> distinct_keys (snd p)"

definition same_rules ::
  "(scenario \<times> (string \<times> rule) list) list \<Rightarrow> (scenario \<times> (string \<times> rule) list) list \<Rightarrow> bool" where
  "same_rules m m' \<longleftrightarrow> distinct_keys m \<and> (\<exists>m''. list_all2 same_column m m'' \<and> mset m'' = mset m')"

lemma same_column_lookup:
  "list_all2 same_column m m'' \<Longrightarrow>
   rel_option (\<lambda>rs rs'. mset rs = mset rs' \<and> map_of rs = map_of rs') (map_of m s) (map_of m'' s)"
  by (induction rule: list_all2_induct) (auto simp: same_column_def map_of_perm)

lemma same_column_keys: "list_all2 same_column m m'' \<Longrightarrow> map fst m = map fst m''"
  by (induction rule: list_all2_induct) (auto simp: same_column_def)

lemma column_problems_perm:
  assumes "mset rs = mset rs'" "map_of rs = map_of rs'" "k_fields c = k_fields c'"
  shows "mset (column_problems c s rs) = mset (column_problems c' s rs')"
  unfolding column_problems_def mset_append assms(2,3)
  by (intro arg_cong2 [where f = "(+)"] refl mset_concat_map_cong [where h = id]) (auto simp: assms(1))

lemma contract_problems_cong:
  assumes look: "\<And>s. rel_option (\<lambda>rs rs'. mset rs = mset rs' \<and> map_of rs = map_of rs')
      (map_of (k_rules c) s) (map_of m s)"
    and keys: "mset (map fst (k_rules c)) = mset (map fst m)"
  shows "mset (contract_problems c) = mset (contract_problems (c\<lparr>k_rules := m\<rparr>))"
proof -
  let ?c = "c\<lparr>k_rules := m\<rparr>"
  have none: "map_of (k_rules c) s = None \<longleftrightarrow> map_of m s = None" for s
    using look [of s] by (cases "map_of m s"; cases "map_of (k_rules c) s") auto
  have "usesModeConditional c = usesModeConditional ?c"
    unfolding usesModeConditional_def
  proof (rule list_ex_cong)
    fix s
    show "(case map_of (k_rules c) s of None \<Rightarrow> False | Some rules \<Rightarrow> list_ex (\<lambda>f. case map_of rules (f_name f) of
             None \<Rightarrow> False | Some r \<Rightarrow> r_expect r = MustBeSetUnlessBlock) (k_fields c)) =
          (case map_of (k_rules ?c) s of None \<Rightarrow> False | Some rules \<Rightarrow> list_ex (\<lambda>f. case map_of rules (f_name f) of
             None \<Rightarrow> False | Some r \<Rightarrow> r_expect r = MustBeSetUnlessBlock) (k_fields ?c))"
      using look [of s] by (cases "map_of m s"; cases "map_of (k_rules c) s") auto
  qed simp
  moreover have "mset (concat (map (\<lambda>s. case map_of (k_rules c) s of None \<Rightarrow> []
        | Some rules \<Rightarrow> column_problems c s rules) (k_axis c))) =
      mset (concat (map (\<lambda>s. case map_of m s of None \<Rightarrow> []
        | Some rules \<Rightarrow> column_problems ?c s rules) (k_axis c)))"
  proof (rule mset_concat_map_cong [where h = id])
    fix x y :: scenario assume "id x = id y"
    then show "mset (case map_of (k_rules c) x of None \<Rightarrow> [] | Some rules \<Rightarrow> column_problems c x rules) =
        mset (case map_of m y of None \<Rightarrow> [] | Some rules \<Rightarrow> column_problems ?c y rules)"
      using look [of y] by (cases "map_of m y"; cases "map_of (k_rules c) y") (auto intro: column_problems_perm)
  qed simp
  moreover have "mset (shape_problems c) = mset (shape_problems ?c)"
  proof -
    let ?g = "\<lambda>s. if s \<in> set (k_axis c) then [] else [ColumnOffAxis s]"
    have "mset (concat (map ?g (map fst (k_rules c)))) = mset (concat (map ?g (map fst m)))"
      by (rule mset_concat_map_cong [where h = id]) (use keys in auto)
    moreover have "concat (map (\<lambda>s. case map_of (k_rules c) s of None \<Rightarrow> [NoColumn s] | Some _ \<Rightarrow> []) (k_axis c)) =
        concat (map (\<lambda>s. case map_of m s of None \<Rightarrow> [NoColumn s] | Some _ \<Rightarrow> []) (k_axis c))"
      by (simp add: option.case_eq_if none)
    ultimately show ?thesis by (simp add: shape_problems_def case_prod_unfold comp_def)
  qed
  moreover have "routing_problems c = routing_problems ?c" by (simp add: routing_problems_def)
  ultimately show ?thesis by (simp add: contract_problems_def)
qed

lemma contract_problems_same_rules:
  assumes "same_rules (k_rules c) m"
  shows "mset (contract_problems c) = mset (contract_problems (c\<lparr>k_rules := m\<rparr>))"
proof -
  obtain m'' where m'': "list_all2 same_column (k_rules c) m''" "mset m'' = mset m"
    and d: "distinct_keys (k_rules c)"
    using assms by (auto simp: same_rules_def)
  have keys: "map fst (k_rules c) = map fst m''" using m''(1) by (rule same_column_keys)
  have "distinct_keys m''" using d keys by (simp add: distinct_keys_def)
  then have "map_of m'' = map_of m" using m''(2) by (rule map_of_perm)
  moreover have "mset (map fst m'') = mset (map fst m)" using m''(2) by simp
  ultimately show ?thesis
    using same_column_lookup [OF m''(1)] keys by (intro contract_problems_cong) auto
qed

section \<open>The live contract\<close>

lemma trim_space_Cons: "\<not> is_space c \<Longrightarrow> trim_space (c # s) \<noteq> []"
  by (simp add: trim_space_def dropWhile_append)

text \<open>A settled binding, field by field, as the documentation of the fields words it.\<close>

definition complete_binding :: "data_binding \<Rightarrow> bool" where
  "complete_binding b \<longleftrightarrow>
     SourceRef b \<noteq> zero_subject_ref \<and> ArtifactRef b \<noteq> zero_artifact_ref \<and>
     VolumeMode b \<noteq> [] \<and> StorageClassName b \<noteq> [] \<and> Size b \<noteq> [] \<and>
     (if VolumeMode b = blockVolumeMode then FsType b = [] else FsType b \<noteq> [])"

lemma check_field_total:
  "f_index f < 6 \<Longrightarrow> \<exists>r. check_field s rules b f res = Inr r"
  by (auto simp: check_field_def field_is_zero_def Let_def split: prod.splits)

lemma check_loop_total:
  "\<forall>f\<in>set fs. f_index f < 6 \<Longrightarrow> \<exists>r. check_loop s rules b fs res = Inr r"
proof (induction fs arbitrary: res)
  case Nil
  then show ?case by simp
next
  case (Cons f fs)
  then obtain r where "check_field s rules b f res = Inr r" using check_field_total by (meson list.set_intros(1))
  then show ?case using Cons by simp
qed

lemma check_field_count:
  "check_field s rules b f res = Inr r \<Longrightarrow>
   res_checked r + length (res_skipped r) = Suc (res_checked res + length (res_skipped res))"
  by (auto simp: check_field_def Let_def split: prod.splits if_splits option.splits)

lemma check_loop_count:
  "check_loop s rules b fs res = Inr r \<Longrightarrow>
   res_checked r + length (res_skipped r) = res_checked res + length (res_skipped res) + length fs"
  by (induction fs arbitrary: res) (auto split: sum.splits dest: check_field_count)

text \<open>A cell is skipped only for a rule that depends on a mode the binding does not carry.\<close>

lemma check_field_skipped:
  "check_field s rules b f res = Inr r \<Longrightarrow> VolumeMode b \<noteq> [] \<Longrightarrow> res_skipped r = res_skipped res"
  by (auto simp: check_field_def resolveExpectation_def Let_def split: prod.splits if_splits option.splits)

lemma check_loop_skipped:
  "check_loop s rules b fs res = Inr r \<Longrightarrow> VolumeMode b \<noteq> [] \<Longrightarrow> res_skipped r = res_skipped res"
  by (induction fs arbitrary: res) (auto split: sum.splits dest: check_field_skipped)

text \<open>All four columns of the live matrix carry the same expectations.\<close>

definition standard_column :: "(string \<times> rule) list \<Rightarrow> bool" where
  "standard_column rules \<longleftrightarrow>
     map (\<lambda>(name, r). (name, r_expect r)) rules =
     map (\<lambda>name. (name, if name = ''FsType'' then MustBeSetUnlessBlock else MustBeSet)) FieldNames"

lemmas matrix_defs = matrix_native_capture_def matrix_native_import_def
  matrix_domain_capture_def matrix_domain_import_def

lemma standard_native_capture: "standard_column matrix_native_capture"
  by (simp add: standard_column_def FieldNames_def sdb_fields_def matrix_native_capture_def)

lemma standard_native_import: "standard_column matrix_native_import"
  by (simp add: standard_column_def FieldNames_def sdb_fields_def matrix_native_import_def)

lemma standard_domain_capture: "standard_column matrix_domain_capture"
  by (simp add: standard_column_def FieldNames_def sdb_fields_def matrix_domain_capture_def)

lemma standard_domain_import: "standard_column matrix_domain_import"
  by (simp add: standard_column_def FieldNames_def sdb_fields_def matrix_domain_import_def)

lemmas matrix_standard = standard_native_capture standard_native_import
  standard_domain_capture standard_domain_import

lemma standard_keys: "standard_column rules \<Longrightarrow> fst ` set rules = f_name ` set sdb_fields"
proof -
  assume "standard_column rules"
  then have "map fst rules = FieldNames"
    unfolding standard_column_def by (drule_tac arg_cong [where f = "map fst"]) (simp add: comp_def case_prod_unfold)
  then have "set (map fst rules) = set FieldNames" by simp
  then show ?thesis by (simp add: FieldNames_def)
qed

lemma standard_expect:
  assumes "standard_column rules" "name \<in> set FieldNames"
  shows "r_expect (case map_of rules name of None \<Rightarrow> zero_rule | Some r \<Rightarrow> r) =
     (if name = ''FsType'' then MustBeSetUnlessBlock else MustBeSet)"
proof -
  have "map_option r_expect (map_of rules name) = map_of (map (\<lambda>(k, r). (k, r_expect r)) rules) name"
    by (simp add: map_of_map)
  also have "\<dots> = map_of (map (\<lambda>name. (name, if name = ''FsType'' then MustBeSetUnlessBlock else MustBeSet)) FieldNames) name"
    using assms(1) unfolding standard_column_def by (rule arg_cong)
  also have "\<dots> = Some (if name = ''FsType'' then MustBeSetUnlessBlock else MustBeSet)"
    using assms(2) by (simp add: map_of_map_restrict)
  finally show ?thesis by (auto split: option.splits)
qed

lemma matrix_rules_ok_all: "list_all (\<lambda>(_, rules). list_all (\<lambda>(_, r). rule_ok r) rules) matrix"
  by (simp add: matrix_def matrix_defs rule_ok_def trim_space_Cons is_space_def)

lemma matrix_rules_ok: "(s, rules) \<in> set matrix \<Longrightarrow> (f, r) \<in> set rules \<Longrightarrow> rule_ok r"
  using matrix_rules_ok_all by (auto simp: list_all_iff)

text \<open>The verdict on one cell, as a predicate: what a clean run requires of every field.\<close>

definition cell_ok :: "(string \<times> rule) list \<Rightarrow> data_binding \<Rightarrow> field \<Rightarrow> bool" where
  "cell_ok rules b f \<longleftrightarrow>
     (let (e, _, d) = resolveExpectation (case map_of rules (f_name f) of None \<Rightarrow> zero_rule | Some r \<Rightarrow> r) b
      in d \<longrightarrow> (e = MustBeSet \<longrightarrow> field_is_zero b (f_index f) = Some False) \<and>
              (e = MustBeEmpty \<longrightarrow> field_is_zero b (f_index f) = Some True))"

lemma check_field_OK:
  "check_field s rules b f res = Inr r \<Longrightarrow> OK r \<longleftrightarrow> OK res \<and> cell_ok rules b f"
  by (auto simp: check_field_def cell_ok_def OK_def Let_def split: prod.splits if_splits option.split_asm)

lemma check_loop_OK:
  "check_loop s rules b fs res = Inr r \<Longrightarrow> OK r \<longleftrightarrow> OK res \<and> (\<forall>f\<in>set fs. cell_ok rules b f)"
  by (induction fs arbitrary: res) (auto split: sum.splits dest: check_field_OK)

lemma standard_cells:
  assumes "standard_column rules"
  shows "(\<forall>f\<in>set sdb_fields. cell_ok rules b f) \<longleftrightarrow> complete_binding b"
proof -
  note expect = standard_expect [OF assms]
  have "cell_ok rules b f \<longleftrightarrow> (if f_name f = ''FsType''
        then VolumeMode b = [] \<or> field_is_zero b (f_index f) = Some (VolumeMode b = blockVolumeMode)
        else field_is_zero b (f_index f) = Some False)" if "f \<in> set sdb_fields" for f
    using expect [of "f_name f"] that by (simp add: FieldNames_def cell_ok_def resolveExpectation_def)
  then have "(\<forall>f\<in>set sdb_fields. cell_ok rules b f) \<longleftrightarrow> (\<forall>f\<in>set sdb_fields. if f_name f = ''FsType''
        then VolumeMode b = [] \<or> field_is_zero b (f_index f) = Some (VolumeMode b = blockVolumeMode)
        else field_is_zero b (f_index f) = Some False)" by simp
  also have "\<dots> \<longleftrightarrow> complete_binding b"
    by (simp add: sdb_fields_def field_is_zero_def complete_binding_def) auto
  finally show ?thesis .
qed

lemma live_columns: "s \<in> set Scenarios \<Longrightarrow>
    \<exists>rules. map_of matrix s = Some rules \<and> standard_column rules \<and> (s, rules) \<in> set matrix \<and>
      fst ` set rules = f_name ` set sdb_fields"
  using matrix_standard matrix_standard [THEN standard_keys]
  by (auto simp: Scenarios_def matrix_def)

lemma live_contract_well_formed: "well_formed_contract liveContract"
proof -
  have "fst ` set rules = f_name ` set sdb_fields \<and>
      (\<forall>f\<in>set sdb_fields. \<forall>r. map_of rules (f_name f) = Some r \<longrightarrow> rule_ok r)"
    if "s \<in> set Scenarios" "map_of matrix s = Some rules" for s rules
    using live_columns [OF that(1)] that(2) by (auto intro: matrix_rules_ok dest: map_of_SomeD)
  moreover have "fst ` set matrix = set Scenarios" by (simp add: matrix_def Scenarios_def)
  moreover have "distinct Scenarios" by (simp add: Scenarios_def)
  moreover have "Classify n i \<in> set Scenarios" for n i by (simp add: Classify_def Scenarios_def)
  moreover have "Classify n i = Classify n' i' \<longrightarrow> n = n' \<and> i = i'" for n i n' i'
    by (simp add: Classify_def)
  moreover have "\<exists>n i. Classify n i = s" if "s \<in> set Scenarios" for s
    using that by (auto simp: Classify_def Scenarios_def ex_bool_eq)
  moreover have "volumeModeField \<in> f_name ` set sdb_fields" "sdb_fields \<noteq> []"
    by (simp_all add: sdb_fields_def)
  ultimately show ?thesis by (simp add: well_formed_contract_def liveContract_def)
qed

section \<open>Properties\<close>

text \<open>
  \<open>Validate\<close> decides the shape of a contract: it reports no problem exactly when the axis
  lists each scenario once, the four discriminator combinations go to four distinct scenarios that
  make up the axis, the matrix has exactly the axis as columns and exactly the reflected fields as
  rows, every rule has a known expectation, a source and (unless MustBeSet) a reason, and the
  field that the mode-dependent expectation reads exists.
\<close>

theorem validate_decides: "validate msg c = [] \<longleftrightarrow> well_formed_contract c"
  by (simp add: validate_Nil contract_problems_Nil)

text \<open>
  The validation error is the same text whatever order Go iterates the rules map in, for the
  columns and for the rules inside a column.
\<close>

theorem validate_deterministic:
  assumes "same_rules (k_rules c) m"
  shows "validate msg c = validate msg (c\<lparr>k_rules := m\<rparr>)"
  unfolding validate_def
  by (rule strs.sort_slice_cong_mset) (simp add: contract_problems_same_rules [OF assms])

definition two_column_contract :: contract where
  "two_column_contract = \<lparr>k_fields = [\<lparr>f_name = ''Size'', f_json = ''size'', f_index = 5\<rparr>],
     k_axis = [''a'', ''b''], k_classify = (\<lambda>n i. if n then ''a'' else ''b''),
     k_rules = [(''a'', [(''Size'', zero_rule), (''Gone'', zero_rule)]), (''b'', [])]\<rparr>"

lemma validate_deterministic_witness:
  "validate (\<lambda>p. case p of StaleRule s n \<Rightarrow> s @ n | _ \<Rightarrow> ''other'') two_column_contract =
   validate (\<lambda>p. case p of StaleRule s n \<Rightarrow> s @ n | _ \<Rightarrow> ''other'') (two_column_contract\<lparr>k_rules :=
     [(''b'', []), (''a'', [(''Gone'', zero_rule), (''Size'', zero_rule)])]\<rparr>)"
proof (rule validate_deterministic)
  have "list_all2 same_column (k_rules two_column_contract)
      [(''a'', [(''Gone'', zero_rule), (''Size'', zero_rule)]), (''b'', [])]"
    by (simp add: two_column_contract_def same_column_def distinct_keys_def)
  then show "same_rules (k_rules two_column_contract)
      [(''b'', []), (''a'', [(''Gone'', zero_rule), (''Size'', zero_rule)])]"
    unfolding same_rules_def by (intro conjI exI)
      (auto simp: two_column_contract_def distinct_keys_def)
qed

text \<open>
  \<open>Check\<close> on the live matrix always returns a verdict for a published binding of a scenario
  on the axis, and the verdict is right: it is clean exactly for a complete binding (source,
  artifact, mode, class and size set; a filesystem type set exactly on a volume that is not Block).
  It inspects or counts as skipped every reflected field, and it skips a field only when the
  binding carries no volume mode, in which case the verdict is not clean.
\<close>

theorem Check_judges_completeness:
  assumes "s \<in> set Scenarios"
  shows "\<exists>r. Check msg s (Some b) = Inr r \<and> (OK r \<longleftrightarrow> complete_binding b) \<and>
     res_checked r + length (res_skipped r) = length FieldNames \<and>
     (VolumeMode b \<noteq> [] \<longrightarrow> res_skipped r = [])"
proof -
  obtain rules where rules: "map_of matrix s = Some rules" "standard_column rules"
    using live_columns [OF assms] by blast
  let ?res = "\<lparr>res_scenario = s, res_checked = 0, res_violations = [], res_skipped = []\<rparr>"
  obtain r where r: "check_loop s rules b sdb_fields ?res = Inr r"
    using check_loop_total [of sdb_fields s rules b ?res] by (auto simp: sdb_fields_def)
  have "validate msg liveContract = []"
    by (simp add: validate_Nil contract_problems_Nil live_contract_well_formed)
  then have "Check msg s (Some b) = Inr r"
    using r rules(1) by (simp add: Check_def check_def liveContract_def)
  moreover have "OK r \<longleftrightarrow> complete_binding b"
    using check_loop_OK [OF r] standard_cells [OF rules(2)] by (simp add: OK_def)
  ultimately show ?thesis
    using check_loop_count [OF r] check_loop_skipped [OF r] by (simp add: FieldNames_def)
qed

lemma Check_judges_completeness_witness:
  "\<exists>r. Check (\<lambda>_. ''p'') NativeImport (Some \<lparr>SourceRef = zero_subject_ref\<lparr>sr_name := ''pvc''\<rparr>,
      ArtifactRef = zero_artifact_ref\<lparr>ar_name := ''vsc''\<rparr>, VolumeMode = ''Block'', FsType = [],
      StorageClassName = ''fast'', Size = ''1Gi''\<rparr>) = Inr r \<and> OK r \<and> res_checked r = 6"
  using Check_judges_completeness [of NativeImport "\<lambda>_. ''p''"
      "\<lparr>SourceRef = zero_subject_ref\<lparr>sr_name := ''pvc''\<rparr>,
        ArtifactRef = zero_artifact_ref\<lparr>ar_name := ''vsc''\<rparr>, VolumeMode = ''Block'', FsType = [],
        StorageClassName = ''fast'', Size = ''1Gi''\<rparr>"]
  by (fastforce simp: Scenarios_def complete_binding_def zero_subject_ref_def zero_artifact_ref_def
      FieldNames_def sdb_fields_def)
end
