(* ===== verification/GVK_Registry.thy ===== *)
theory GVK_Registry
  imports Prelude "HOL-Library.AList"
begin

text \<open>
  The registry of snapshot and content kinds (\<open>pkg/snapshot/gvk_registry.go\<close>).

  The five Go maps are association lists with distinct keys, so that the two listing operations
  can iterate over them; \<open>AList.update\<close> and \<open>AList.delete\<close> are the map writes. An operation that
  can fail returns the registry it leaves behind together with its error, because a failing
  registration may already have written. \<open>GroupVersion.String\<close> belongs to apimachinery and is the
  argument \<open>gvs\<close>.
\<close>

record gvk =
  g_group :: string
  g_version :: string
  g_kind :: string

record registry =
  snapshotGVKs :: "(string \<times> gvk) list"
  contentGVKs :: "(string \<times> gvk) list"
  snapshotKindByContentGroupKind :: "(string \<times> string) list"
  contentGVKBySnapshotKind :: "(string \<times> gvk) list"
  requiresDataArtifactBySnapshotKind :: "(string \<times> bool) list"

datatype registry_error =
    DuplicateSnapshotKind string gvk gvk
  | ContentKindConflict string gvk gvk
  | MappingConflict string gvk gvk
  | SnapshotGVKNotFound string
  | SnapshotGVKNotRegistered gvk
  | ContentSnapshotNotRegistered gvk
  | ContentGroupMismatch string string string
  | ContentSnapshotNotFound gvk
  | LengthMismatch nat nat
  | RegisterPair gvk gvk registry_error

type_synonym gv_string = "string \<Rightarrow> string \<Rightarrow> string"

definition NewGVKRegistry :: registry where
  "NewGVKRegistry = \<lparr>snapshotGVKs = [], contentGVKs = [], snapshotKindByContentGroupKind = [],
     contentGVKBySnapshotKind = [], requiresDataArtifactBySnapshotKind = []\<rparr>"

definition parseGVK :: "string \<Rightarrow> string \<Rightarrow> gvk" where
  "parseGVK kind apiVersion =
     (if CHR ''/'' \<in> set apiVersion
      then \<lparr>g_group = takeWhile (\<lambda>c. c \<noteq> CHR ''/'') apiVersion,
            g_version = tl (dropWhile (\<lambda>c. c \<noteq> CHR ''/'') apiVersion), g_kind = kind\<rparr>
      else \<lparr>g_group = '''', g_version = apiVersion, g_kind = kind\<rparr>)"

definition groupKindKey :: "gvk \<Rightarrow> string" where
  "groupKindKey g = g_group g @ ''/'' @ g_kind g"

section \<open>Registration\<close>

definition RegisterSnapshotGVK :: "string \<Rightarrow> string \<Rightarrow> registry \<Rightarrow> registry \<times> registry_error option" where
  "RegisterSnapshotGVK kind apiVersion r =
     (let gvk = parseGVK kind apiVersion
      in case map_of (snapshotGVKs r) kind of
           Some existing \<Rightarrow>
             if existing \<noteq> gvk then (r, Some (DuplicateSnapshotKind (g_kind gvk) existing gvk))
             else (r, None)
         | None \<Rightarrow> (r\<lparr>snapshotGVKs := AList.update kind gvk (snapshotGVKs r)\<rparr>, None))"

definition registerDefaultContentMapping :: "gvk \<Rightarrow> registry \<Rightarrow> registry" where
  "registerDefaultContentMapping contentGVK r =
     (if \<not> has_suffix (g_kind contentGVK) ''Content'' then r
      else let snapshotKind = trim_suffix (g_kind contentGVK) ''Content'' in
        if snapshotKind = '''' then r
        else let groupKind = groupKindKey contentGVK;
                 write = r\<lparr>snapshotKindByContentGroupKind :=
                   AList.update groupKind snapshotKind (snapshotKindByContentGroupKind r)\<rparr> in
          case map_of (snapshotKindByContentGroupKind r) groupKind of
            Some existing \<Rightarrow> if existing \<noteq> snapshotKind then r else write
          | None \<Rightarrow> write)"

definition RegisterSnapshotContentGVK ::
  "gv_string \<Rightarrow> string \<Rightarrow> string \<Rightarrow> registry \<Rightarrow> registry \<times> registry_error option" where
  "RegisterSnapshotContentGVK gvs kind apiVersion r =
     (let gvk = parseGVK kind apiVersion
      in case map_of (contentGVKs r) kind of
           Some existing \<Rightarrow>
             if gvs (g_group existing) (g_version existing) \<noteq> gvs (g_group gvk) (g_version gvk)
             then (r, Some (ContentKindConflict kind existing gvk))
             else (r, None)
         | None \<Rightarrow> (registerDefaultContentMapping gvk
                      (r\<lparr>contentGVKs := AList.update kind gvk (contentGVKs r)\<rparr>), None))"

definition RegisterSnapshotContentMapping ::
  "gv_string \<Rightarrow> string \<Rightarrow> string \<Rightarrow> string \<Rightarrow> string \<Rightarrow> registry \<Rightarrow> registry \<times> registry_error option" where
  "RegisterSnapshotContentMapping gvs snapshotKind snapshotAPIVersion contentKind contentAPIVersion r =
     (case RegisterSnapshotGVK snapshotKind snapshotAPIVersion r of
        (r1, Some e) \<Rightarrow> (r1, Some e)
      | (r1, None) \<Rightarrow>
     (case RegisterSnapshotContentGVK gvs contentKind contentAPIVersion r1 of
        (r2, Some e) \<Rightarrow> (r2, Some e)
      | (r2, None) \<Rightarrow>
     (let contentGVK = parseGVK contentKind contentAPIVersion;
          finish = (\<lambda>r3. (r3\<lparr>snapshotKindByContentGroupKind :=
             AList.update (groupKindKey contentGVK) snapshotKind (snapshotKindByContentGroupKind r3)\<rparr>, None))
      in case map_of (contentGVKBySnapshotKind r2) snapshotKind of
           Some existing \<Rightarrow>
             if existing \<noteq> contentGVK then (r2, Some (MappingConflict snapshotKind existing contentGVK))
             else finish r2
         | None \<Rightarrow> finish (r2\<lparr>contentGVKBySnapshotKind :=
             AList.update snapshotKind contentGVK (contentGVKBySnapshotKind r2)\<rparr>))))"

definition RevertSnapshotRegistrationIfExact :: "string \<Rightarrow> gvk \<Rightarrow> gvk \<Rightarrow> registry \<Rightarrow> registry" where
  "RevertSnapshotRegistrationIfExact snapshotKind snapshotGVK contentGVK r =
     (if map_of (contentGVKBySnapshotKind r) snapshotKind \<noteq> Some contentGVK then r
      else if map_of (snapshotGVKs r) snapshotKind \<noteq> Some snapshotGVK then r
      else if map_of (contentGVKs r) (g_kind contentGVK) \<noteq> Some contentGVK then r
      else if map_of (snapshotKindByContentGroupKind r) (groupKindKey contentGVK) \<noteq> Some snapshotKind then r
      else r\<lparr>contentGVKBySnapshotKind := AList.delete snapshotKind (contentGVKBySnapshotKind r),
             snapshotKindByContentGroupKind :=
               AList.delete (groupKindKey contentGVK) (snapshotKindByContentGroupKind r),
             snapshotGVKs := AList.delete snapshotKind (snapshotGVKs r),
             contentGVKs := AList.delete (g_kind contentGVK) (contentGVKs r)\<rparr>)"

definition MarkRequiresDataArtifact :: "string \<Rightarrow> bool \<Rightarrow> registry \<Rightarrow> registry" where
  "MarkRequiresDataArtifact kind flag r = r\<lparr>requiresDataArtifactBySnapshotKind :=
     AList.update kind flag (requiresDataArtifactBySnapshotKind r)\<rparr>"

section \<open>Resolution\<close>

definition RequiresDataArtifact :: "string \<Rightarrow> registry \<Rightarrow> bool" where
  "RequiresDataArtifact kind r =
     (case map_of (requiresDataArtifactBySnapshotKind r) kind of None \<Rightarrow> False | Some b \<Rightarrow> b)"

definition ResolveSnapshotGVK :: "string \<Rightarrow> registry \<Rightarrow> registry_error + gvk" where
  "ResolveSnapshotGVK kind r =
     (case map_of (snapshotGVKs r) kind of None \<Rightarrow> Inl (SnapshotGVKNotFound kind) | Some g \<Rightarrow> Inr g)"

definition HasSnapshotGVK :: "gvk \<Rightarrow> registry \<Rightarrow> bool" where
  "HasSnapshotGVK g r = (map_of (snapshotGVKs r) (g_kind g) = Some g)"

definition ResolveSnapshotContentGVK :: "string \<Rightarrow> registry \<Rightarrow> registry_error + gvk" where
  "ResolveSnapshotContentGVK snapshotKind r =
     (case map_of (contentGVKBySnapshotKind r) snapshotKind of Some mapped \<Rightarrow> Inr mapped
      | None \<Rightarrow>
     (case ResolveSnapshotGVK snapshotKind r of Inl e \<Rightarrow> Inl e
      | Inr snapshotGVK \<Rightarrow>
     (let contentKind = snapshotKind @ ''Content'' in
      case map_of (contentGVKs r) contentKind of Some contentGVK \<Rightarrow> Inr contentGVK
      | None \<Rightarrow> Inr \<lparr>g_group = g_group snapshotGVK, g_version = g_version snapshotGVK,
                     g_kind = contentKind\<rparr>)))"

definition ResolveSnapshotContentGVKBySnapshotGVK :: "gvk \<Rightarrow> registry \<Rightarrow> registry_error + gvk" where
  "ResolveSnapshotContentGVKBySnapshotGVK g r =
     (if \<not> HasSnapshotGVK g r then Inl (SnapshotGVKNotRegistered g)
      else ResolveSnapshotContentGVK (g_kind g) r)"

definition ResolveSnapshotKindByContentGVK :: "gvk \<Rightarrow> registry \<Rightarrow> registry_error + string" where
  "ResolveSnapshotKindByContentGVK contentGVK r =
     (case map_of (snapshotKindByContentGroupKind r) (groupKindKey contentGVK) of Some kind \<Rightarrow> Inr kind
      | None \<Rightarrow>
        if has_suffix (g_kind contentGVK) ''Content'' then
          let snapshotKind = trim_suffix (g_kind contentGVK) ''Content'' in
          (case ResolveSnapshotGVK snapshotKind r of
             Inl e \<Rightarrow> Inl (ContentSnapshotNotRegistered contentGVK)
           | Inr snapshotGVK \<Rightarrow>
               if g_group snapshotGVK \<noteq> g_group contentGVK
               then Inl (ContentGroupMismatch snapshotKind (g_group snapshotGVK) (g_group contentGVK))
               else Inr snapshotKind)
        else Inl (ContentSnapshotNotFound contentGVK))"

fun register_pairs :: "gv_string \<Rightarrow> (gvk \<times> gvk) list \<Rightarrow> registry \<Rightarrow> registry_error + registry" where
  "register_pairs gvs [] r = Inr r"
| "register_pairs gvs ((sk, ck) # ps) r =
     (case RegisterSnapshotContentMapping gvs (g_kind sk) (gvs (g_group sk) (g_version sk))
             (g_kind ck) (gvs (g_group ck) (g_version ck)) r of
        (_, Some e) \<Rightarrow> Inl (RegisterPair sk ck e)
      | (r', None) \<Rightarrow> register_pairs gvs ps r')"

definition NewGVKRegistryFromParallelSnapshotContentPairs ::
  "gv_string \<Rightarrow> gvk list \<Rightarrow> gvk list \<Rightarrow> registry_error + registry" where
  "NewGVKRegistryFromParallelSnapshotContentPairs gvs sks cks =
     (if length sks \<noteq> length cks then Inl (LengthMismatch (length sks) (length cks))
      else if length sks = 0 then Inr NewGVKRegistry
      else register_pairs gvs (zip sks cks) NewGVKRegistry)"

definition content_gvk_less :: "gvk \<Rightarrow> gvk \<Rightarrow> bool" where
  "content_gvk_less a b =
     (if g_kind a \<noteq> g_kind b then g_kind a < g_kind b else g_group a < g_group b)"

definition RegisteredContentGVKs :: "registry \<Rightarrow> gvk list" where
  "RegisteredContentGVKs r = sort_slice content_gvk_less (map snd (contentGVKs r))"

definition RegisteredSnapshotKinds :: "registry \<Rightarrow> string list" where
  "RegisteredSnapshotKinds r = sort_strings (map fst (snapshotGVKs r))"

section \<open>Invariant of the reachable registries\<close>

definition keyed_by_kind :: "(string \<times> gvk) list \<Rightarrow> bool" where
  "keyed_by_kind m \<longleftrightarrow> distinct_keys m \<and> (\<forall>(k, g)\<in>set m. g_kind g = k)"

definition registry_wf :: "registry \<Rightarrow> bool" where
  "registry_wf r \<longleftrightarrow> keyed_by_kind (snapshotGVKs r) \<and> keyed_by_kind (contentGVKs r) \<and>
     distinct_keys (snapshotKindByContentGroupKind r) \<and> distinct_keys (contentGVKBySnapshotKind r) \<and>
     distinct_keys (requiresDataArtifactBySnapshotKind r) \<and>
     (\<forall>(k, c)\<in>set (contentGVKBySnapshotKind r). map_of (snapshotGVKs r) k \<noteq> None)"

lemma set_update_distinct:
  "distinct_keys m \<Longrightarrow> set (AList.update k v m) = insert (k, v) {(k', v') \<in> set m. k' \<noteq> k}"
  by (induction m) (auto simp: distinct_keys_def rev_image_eqI)

lemma set_delete: "set (AList.delete k m) = {(k', v') \<in> set m. k' \<noteq> k}"
  by (auto simp: AList.delete_eq)

lemma distinct_keys_update [simp]: "distinct_keys m \<Longrightarrow> distinct_keys (AList.update k v m)"
  by (simp add: distinct_keys_def distinct_update)

lemma distinct_keys_delete [simp]: "distinct_keys m \<Longrightarrow> distinct_keys (AList.delete k m)"
  by (simp add: distinct_keys_def distinct_delete)

lemma keyed_by_kind_update: "keyed_by_kind m \<Longrightarrow> g_kind g = k \<Longrightarrow> keyed_by_kind (AList.update k g m)"
  by (auto simp: keyed_by_kind_def set_update_distinct)

lemma keyed_by_kind_delete: "keyed_by_kind m \<Longrightarrow> keyed_by_kind (AList.delete k m)"
  by (auto simp: keyed_by_kind_def set_delete)

lemma keyed_by_kind_lookup: "keyed_by_kind m \<Longrightarrow> map_of m k = Some g \<Longrightarrow> g_kind g = k"
  by (auto simp: keyed_by_kind_def dest: map_of_SomeD)

lemma g_kind_parseGVK [simp]: "g_kind (parseGVK k v) = k"
  by (simp add: parseGVK_def)

lemma keys_update [simp]: "fst ` set (AList.update k v m) = insert k (fst ` set m)"
  by (induction m) auto

lemma keys_delete [simp]: "fst ` set (AList.delete k m) = fst ` set m - {k}"
  by (auto simp: AList.delete_eq)

lemma RegisterSnapshotGVK_wf:
  "RegisterSnapshotGVK k v r = (r', e) \<Longrightarrow> registry_wf r \<Longrightarrow> registry_wf r'"
  by (auto simp: RegisterSnapshotGVK_def Let_def registry_wf_def keyed_by_kind_update update_conv'
      split: option.splits if_splits)

lemma registerDefaultContentMapping_wf:
  "registry_wf r \<Longrightarrow> registry_wf (registerDefaultContentMapping c r)"
  by (auto simp: registerDefaultContentMapping_def Let_def registry_wf_def split: option.splits)

lemma RegisterSnapshotContentGVK_wf:
  "RegisterSnapshotContentGVK gvs k v r = (r', e) \<Longrightarrow> registry_wf r \<Longrightarrow> registry_wf r'"
  by (auto simp: RegisterSnapshotContentGVK_def Let_def split: option.splits if_splits
      intro!: registerDefaultContentMapping_wf)
    (auto simp: registry_wf_def keyed_by_kind_update)

lemma RegisterSnapshotGVK_known:
  "RegisterSnapshotGVK k v r = (r', None) \<Longrightarrow> map_of (snapshotGVKs r') k = Some (parseGVK k v)"
  by (auto simp: RegisterSnapshotGVK_def Let_def update_conv' split: option.splits if_splits)

lemma registerDefaultContentMapping_frame [simp]:
  "snapshotGVKs (registerDefaultContentMapping c r) = snapshotGVKs r"
  "contentGVKs (registerDefaultContentMapping c r) = contentGVKs r"
  "contentGVKBySnapshotKind (registerDefaultContentMapping c r) = contentGVKBySnapshotKind r"
  "requiresDataArtifactBySnapshotKind (registerDefaultContentMapping c r) =
     requiresDataArtifactBySnapshotKind r"
  by (auto simp: registerDefaultContentMapping_def Let_def split: option.splits)

lemma RegisterSnapshotContentGVK_frame:
  "RegisterSnapshotContentGVK gvs k v r = (r', e) \<Longrightarrow>
   snapshotGVKs r' = snapshotGVKs r \<and> contentGVKBySnapshotKind r' = contentGVKBySnapshotKind r \<and>
   requiresDataArtifactBySnapshotKind r' = requiresDataArtifactBySnapshotKind r"
  by (auto simp: RegisterSnapshotContentGVK_def Let_def split: option.splits if_splits)

lemma RegisterSnapshotContentMapping_wf:
  assumes "RegisterSnapshotContentMapping gvs sk sav ck cav r = (r', e)" "registry_wf r"
  shows "registry_wf r'"
proof -
  obtain r1 e1 where 1: "RegisterSnapshotGVK sk sav r = (r1, e1)" by fastforce
  obtain r2 e2 where 2: "RegisterSnapshotContentGVK gvs ck cav r1 = (r2, e2)" by fastforce
  have wf1: "registry_wf r1" using 1 assms(2) by (rule RegisterSnapshotGVK_wf)
  have wf2: "registry_wf r2" using 2 wf1 by (rule RegisterSnapshotContentGVK_wf)
  have "map_of (snapshotGVKs r2) sk \<noteq> None" if "e1 = None"
    using RegisterSnapshotGVK_known 1 RegisterSnapshotContentGVK_frame [OF 2] that by force
  with 1 2 wf1 wf2 assms(1) show ?thesis
    by (auto simp: RegisterSnapshotContentMapping_def Let_def registry_wf_def set_update_distinct
        split: option.splits if_splits)
qed

lemma RevertSnapshotRegistrationIfExact_wf:
  "registry_wf r \<Longrightarrow> registry_wf (RevertSnapshotRegistrationIfExact sk sg cg r)"
  by (auto simp: RevertSnapshotRegistrationIfExact_def registry_wf_def keyed_by_kind_delete
      set_delete [of _ "contentGVKBySnapshotKind r"] delete_conv')

lemma MarkRequiresDataArtifact_wf: "registry_wf r \<Longrightarrow> registry_wf (MarkRequiresDataArtifact k b r)"
  by (simp add: MarkRequiresDataArtifact_def registry_wf_def)

lemmas registry_op_wf = RegisterSnapshotGVK_wf RegisterSnapshotContentGVK_wf
  RegisterSnapshotContentMapping_wf RevertSnapshotRegistrationIfExact_wf MarkRequiresDataArtifact_wf

text \<open>The registries a controller can hold: any sequence of calls, failing ones included.\<close>

inductive registry_reachable :: "gv_string \<Rightarrow> registry \<Rightarrow> bool" for gvs where
  new: "registry_reachable gvs NewGVKRegistry"
| snapshot: "registry_reachable gvs r \<Longrightarrow> RegisterSnapshotGVK k v r = (r', e) \<Longrightarrow> registry_reachable gvs r'"
| content: "registry_reachable gvs r \<Longrightarrow> RegisterSnapshotContentGVK gvs k v r = (r', e) \<Longrightarrow>
    registry_reachable gvs r'"
| mapping: "registry_reachable gvs r \<Longrightarrow>
    RegisterSnapshotContentMapping gvs sk sav ck cav r = (r', e) \<Longrightarrow> registry_reachable gvs r'"
| revert: "registry_reachable gvs r \<Longrightarrow>
    registry_reachable gvs (RevertSnapshotRegistrationIfExact sk sg cg r)"
| mark: "registry_reachable gvs r \<Longrightarrow> registry_reachable gvs (MarkRequiresDataArtifact k b r)"

lemma registry_reachable_wf: "registry_reachable gvs r \<Longrightarrow> registry_wf r"
proof (induction rule: registry_reachable.induct)
  case new
  show ?case by (simp add: NewGVKRegistry_def registry_wf_def keyed_by_kind_def distinct_keys_def)
qed (blast intro: registry_op_wf)+

interpretation content_order: slice_weak_order content_gvk_less
  by unfold_locales (auto simp: content_gvk_less_def split: if_splits)

lemma content_gvk_less_by_kind: "g_kind a \<noteq> g_kind b \<Longrightarrow> content_gvk_less a b \<or> content_gvk_less b a"
  by (auto simp: content_gvk_less_def)

lemma registered_content_kinds:
  "registry_wf r \<Longrightarrow> a \<in> set (map snd (contentGVKs r)) \<Longrightarrow> b \<in> set (map snd (contentGVKs r)) \<Longrightarrow>
   a \<noteq> b \<Longrightarrow> g_kind a \<noteq> g_kind b"
proof -
  assume "registry_wf r" "a \<in> set (map snd (contentGVKs r))" "b \<in> set (map snd (contentGVKs r))" "a \<noteq> b"
  moreover from this have "(g_kind a, a) \<in> set (contentGVKs r)" "(g_kind b, b) \<in> set (contentGVKs r)"
    by (auto simp: registry_wf_def keyed_by_kind_def)
  ultimately show ?thesis
    by (metis distinct_keys_def eq_key_imp_eq_value keyed_by_kind_def registry_wf_def)
qed

section \<open>Registering, resolving, rolling back\<close>

lemma update_known: "map_of m k = Some v \<Longrightarrow> AList.update k v m = m"
  by (induction m) (auto split: if_splits)

lemma update_absent: "map_of m k = None \<Longrightarrow> AList.update k v m = m @ [(k, v)]"
  by (induction m) (auto split: if_splits)

lemma delete_absent: "map_of m k = None \<Longrightarrow> AList.delete k m = m"
  by (induction m) (auto split: if_splits)

lemma delete_append: "AList.delete k (m @ m') = AList.delete k m @ AList.delete k m'"
  by (simp add: AList.delete_eq)

lemma delete_fresh_update: "map_of m k = None \<Longrightarrow> AList.delete k (AList.update k v m) = m"
  by (simp add: update_absent delete_append delete_absent)

lemma update_update_same: "AList.update k v (AList.update k w m) = AList.update k v m"
  by (induction m) auto

text \<open>What one successful registration leaves behind.\<close>

lemma RegisterSnapshotGVK_lookup:
  "RegisterSnapshotGVK k v r = (r', None) \<Longrightarrow>
   map_of (snapshotGVKs r') = (map_of (snapshotGVKs r))(k \<mapsto> parseGVK k v) \<and>
   contentGVKs r' = contentGVKs r \<and> contentGVKBySnapshotKind r' = contentGVKBySnapshotKind r \<and>
   snapshotKindByContentGroupKind r' = snapshotKindByContentGroupKind r \<and>
   requiresDataArtifactBySnapshotKind r' = requiresDataArtifactBySnapshotKind r"
  by (auto simp: RegisterSnapshotGVK_def Let_def update_conv' split: option.splits if_splits)

lemma RegisterSnapshotContentMapping_lookup:
  assumes "RegisterSnapshotContentMapping gvs sk sav ck cav r = (r', None)"
  shows "map_of (snapshotGVKs r') = (map_of (snapshotGVKs r))(sk \<mapsto> parseGVK sk sav)"
    and "map_of (contentGVKBySnapshotKind r') = (map_of (contentGVKBySnapshotKind r))(sk \<mapsto> parseGVK ck cav)"
    and "map_of (snapshotKindByContentGroupKind r') (groupKindKey (parseGVK ck cav)) = Some sk"
proof -
  obtain r1 where 1: "RegisterSnapshotGVK sk sav r = (r1, None)"
    using assms by (auto simp: RegisterSnapshotContentMapping_def split: prod.splits option.splits)
  obtain r2 where 2: "RegisterSnapshotContentGVK gvs ck cav r1 = (r2, None)"
    using assms 1 by (auto simp: RegisterSnapshotContentMapping_def split: prod.splits option.splits)
  note frame = RegisterSnapshotGVK_lookup [OF 1] RegisterSnapshotContentGVK_frame [OF 2]
  from assms 1 2 frame show
    "map_of (snapshotGVKs r') = (map_of (snapshotGVKs r))(sk \<mapsto> parseGVK sk sav)"
    "map_of (contentGVKBySnapshotKind r') = (map_of (contentGVKBySnapshotKind r))(sk \<mapsto> parseGVK ck cav)"
    "map_of (snapshotKindByContentGroupKind r') (groupKindKey (parseGVK ck cav)) = Some sk"
    by (auto simp: RegisterSnapshotContentMapping_def Let_def update_conv' split: option.splits if_splits)
qed

lemma RegisterSnapshotContentMapping_fresh:
  assumes "map_of (snapshotGVKs r) sk = None" "map_of (contentGVKs r) ck = None"
    and "map_of (contentGVKBySnapshotKind r) sk = None"
    and "map_of (snapshotKindByContentGroupKind r) (groupKindKey (parseGVK ck cav)) = None"
  shows "RegisterSnapshotContentMapping gvs sk sav ck cav r =
     (r\<lparr>snapshotGVKs := AList.update sk (parseGVK sk sav) (snapshotGVKs r),
        contentGVKs := AList.update ck (parseGVK ck cav) (contentGVKs r),
        contentGVKBySnapshotKind := AList.update sk (parseGVK ck cav) (contentGVKBySnapshotKind r),
        snapshotKindByContentGroupKind := AList.update (groupKindKey (parseGVK ck cav)) sk
          (snapshotKindByContentGroupKind r)\<rparr>, None)"
  using assms
  by (simp add: RegisterSnapshotContentMapping_def RegisterSnapshotGVK_def RegisterSnapshotContentGVK_def
      registerDefaultContentMapping_def Let_def update_update_same)

section \<open>Properties\<close>

text \<open>
  In every registry a sequence of registrations, failed registrations, rollbacks and marks can
  produce, the maps have distinct keys, every entry is stored under its own kind and every explicit
  mapping belongs to a registered snapshot kind; hence the listing of content kinds is the same
  whatever order Go iterates the map in.
\<close>

theorem registry_reachable_listing:
  assumes "registry_reachable gvs r" and "mset gvks = mset (map snd (contentGVKs r))"
  shows "registry_wf r \<and> sort_slice content_gvk_less gvks = RegisteredContentGVKs r"
proof
  show wf: "registry_wf r" using assms(1) by (rule registry_reachable_wf)
  have "\<forall>a\<in>set (map snd (contentGVKs r)). \<forall>b\<in>set (map snd (contentGVKs r)).
      a \<noteq> b \<longrightarrow> content_gvk_less a b \<or> content_gvk_less b a"
    using registered_content_kinds [OF wf] content_gvk_less_by_kind by blast
  then show "sort_slice content_gvk_less gvks = RegisteredContentGVKs r"
    unfolding RegisteredContentGVKs_def
    by (intro content_order.sort_slice_canonical_on) (simp_all add: assms(2) content_order.sort_slice_in_order)
qed

lemma registry_reachable_listing_witness:
  "registry_wf (fst (RegisterSnapshotGVK ''A'' ''g/v'' NewGVKRegistry)) \<and>
   sort_slice content_gvk_less [] = RegisteredContentGVKs (fst (RegisterSnapshotGVK ''A'' ''g/v'' NewGVKRegistry))"
proof (rule registry_reachable_listing)
  show "registry_reachable (\<lambda>g v. g @ v) (fst (RegisterSnapshotGVK ''A'' ''g/v'' NewGVKRegistry))"
    by (metis registry_reachable.new registry_reachable.snapshot prod.collapse)
qed (simp add: RegisterSnapshotGVK_def NewGVKRegistry_def Let_def)

text \<open>
  After a successful registration of a pair, the snapshot kind resolves to its group and version,
  to exactly the registered content kind, and the content kind resolves back to it; every other
  snapshot kind resolves as before; registering the same pair again succeeds and changes nothing.
\<close>

theorem mapping_resolves:
  assumes "RegisterSnapshotContentMapping gvs sk sav ck cav r = (r', None)"
  shows "ResolveSnapshotGVK sk r' = Inr (parseGVK sk sav) \<and> HasSnapshotGVK (parseGVK sk sav) r' \<and>
     ResolveSnapshotContentGVKBySnapshotGVK (parseGVK sk sav) r' = Inr (parseGVK ck cav) \<and>
     ResolveSnapshotKindByContentGVK (parseGVK ck cav) r' = Inr sk \<and>
     (\<forall>k. k \<noteq> sk \<longrightarrow> ResolveSnapshotGVK k r' = ResolveSnapshotGVK k r) \<and>
     RegisterSnapshotContentMapping gvs sk sav ck cav r' = (r', None)"
proof -
  note look = RegisterSnapshotContentMapping_lookup [OF assms]
  have content: "\<exists>g. map_of (contentGVKs r') ck = Some g \<and>
      gvs (g_group g) (g_version g) = gvs (g_group (parseGVK ck cav)) (g_version (parseGVK ck cav))"
    using assms
    by (auto simp: RegisterSnapshotContentMapping_def RegisterSnapshotContentGVK_def Let_def update_conv'
        split: prod.splits option.splits if_splits)
  have "RegisterSnapshotGVK sk sav r' = (r', None)"
    by (simp add: RegisterSnapshotGVK_def look(1))
  moreover have "RegisterSnapshotContentGVK gvs ck cav r' = (r', None)"
    using content by (auto simp: RegisterSnapshotContentGVK_def Let_def)
  ultimately have "RegisterSnapshotContentMapping gvs sk sav ck cav r' = (r', None)"
    by (simp add: RegisterSnapshotContentMapping_def Let_def look(2,3) update_known)
  then show ?thesis
    by (simp add: ResolveSnapshotGVK_def HasSnapshotGVK_def ResolveSnapshotContentGVKBySnapshotGVK_def
        ResolveSnapshotContentGVK_def ResolveSnapshotKindByContentGVK_def look)
qed

definition slash_gv :: gv_string where
  "slash_gv g v = (if g = [] then v else g @ ''/'' @ v)"

lemma mapping_resolves_witness:
  "\<exists>r'. RegisterSnapshotContentMapping slash_gv ''DiskSnapshot'' ''demo/v1'' ''SnapshotContent'' ''ss/v1''
      NewGVKRegistry = (r', None) \<and> ResolveSnapshotKindByContentGVK (parseGVK ''SnapshotContent'' ''ss/v1'') r' =
      Inr ''DiskSnapshot''"
proof -
  obtain r' where r': "RegisterSnapshotContentMapping slash_gv ''DiskSnapshot'' ''demo/v1'' ''SnapshotContent''
      ''ss/v1'' NewGVKRegistry = (r', None)"
    by (simp add: RegisterSnapshotContentMapping_fresh NewGVKRegistry_def)
  with mapping_resolves [OF r'] show ?thesis by blast
qed

text \<open>
  Rolling back a registration undoes it exactly when nothing of the pair was registered before:
  the registry is the one from before the registration.
\<close>

theorem revert_undoes_fresh_registration:
  assumes "map_of (snapshotGVKs r) sk = None" "map_of (contentGVKs r) ck = None"
    and "map_of (contentGVKBySnapshotKind r) sk = None"
    and "map_of (snapshotKindByContentGroupKind r) (groupKindKey (parseGVK ck cav)) = None"
  shows "RevertSnapshotRegistrationIfExact sk (parseGVK sk sav) (parseGVK ck cav)
     (fst (RegisterSnapshotContentMapping gvs sk sav ck cav r)) = r"
  using assms
  by (simp add: RegisterSnapshotContentMapping_fresh RevertSnapshotRegistrationIfExact_def update_conv'
      delete_fresh_update)

lemma revert_undoes_fresh_registration_witness:
  "RevertSnapshotRegistrationIfExact ''DiskSnapshot'' (parseGVK ''DiskSnapshot'' ''demo/v1'')
     (parseGVK ''SnapshotContent'' ''ss/v1'') (fst (RegisterSnapshotContentMapping slash_gv ''DiskSnapshot''
       ''demo/v1'' ''SnapshotContent'' ''ss/v1'' NewGVKRegistry)) = NewGVKRegistry"
  by (rule revert_undoes_fresh_registration) (simp_all add: NewGVKRegistry_def)

text \<open>
  The rollback is not local when a content kind is shared, as the common SnapshotContent is by
  every snapshot kind: after two snapshot kinds were mapped to one content kind, rolling back the
  second removes the content kind from the registry although the first still resolves to it, and
  rolling back the first does nothing at all.
\<close>

theorem revert_of_shared_content:
  assumes "RegisterSnapshotContentMapping gvs s1 av1 ck cav r = (r1, None)"
    and "RegisterSnapshotContentMapping gvs s2 av2 ck cav r1 = (r2, None)" and "s1 \<noteq> s2"
    and "map_of (contentGVKs r2) ck = Some (parseGVK ck cav)"
    and "r3 = RevertSnapshotRegistrationIfExact s2 (parseGVK s2 av2) (parseGVK ck cav) r2"
  shows "ResolveSnapshotContentGVK s1 r3 = Inr (parseGVK ck cav) \<and> map_of (contentGVKs r3) ck = None \<and>
     RevertSnapshotRegistrationIfExact s1 (parseGVK s1 av1) (parseGVK ck cav) r2 = r2"
  using RegisterSnapshotContentMapping_lookup [OF assms(1)] RegisterSnapshotContentMapping_lookup [OF assms(2)]
    assms(3-5)
  by (simp add: RevertSnapshotRegistrationIfExact_def ResolveSnapshotContentGVK_def delete_conv')

lemma revert_of_shared_content_witness:
  "\<exists>r1 r2. RegisterSnapshotContentMapping slash_gv ''Snapshot'' ''ss/v1'' ''SnapshotContent'' ''ss/v1''
        NewGVKRegistry = (r1, None) \<and>
     RegisterSnapshotContentMapping slash_gv ''DiskSnapshot'' ''demo/v1'' ''SnapshotContent'' ''ss/v1'' r1 =
        (r2, None) \<and>
     map_of (contentGVKs (RevertSnapshotRegistrationIfExact ''DiskSnapshot'' (parseGVK ''DiskSnapshot'' ''demo/v1'')
        (parseGVK ''SnapshotContent'' ''ss/v1'') r2)) ''SnapshotContent'' = None"
proof -
  obtain r1 where r1: "RegisterSnapshotContentMapping slash_gv ''Snapshot'' ''ss/v1'' ''SnapshotContent'' ''ss/v1''
      NewGVKRegistry = (r1, None)" and look: "contentGVKs r1 = [(''SnapshotContent'', parseGVK ''SnapshotContent'' ''ss/v1'')]"
      "map_of (snapshotGVKs r1) ''DiskSnapshot'' = None" "map_of (contentGVKBySnapshotKind r1) ''DiskSnapshot'' = None"
    by (simp add: RegisterSnapshotContentMapping_fresh NewGVKRegistry_def)
  obtain r2 where r2: "RegisterSnapshotContentMapping slash_gv ''DiskSnapshot'' ''demo/v1'' ''SnapshotContent'' ''ss/v1'' r1 =
      (r2, None)" and known: "map_of (contentGVKs r2) ''SnapshotContent'' = Some (parseGVK ''SnapshotContent'' ''ss/v1'')"
    using look by (simp add: RegisterSnapshotContentMapping_def RegisterSnapshotGVK_def
        RegisterSnapshotContentGVK_def Let_def)
  show ?thesis
    using revert_of_shared_content [OF r1 r2 _ known refl] r1 r2 by auto
qed

end
