(* ===== verification/Manifest_Targets.thy ===== *)
theory Manifest_Targets
  imports GVK_Registry
begin

text \<open>
  Which objects of a namespace a snapshot captures (\<open>pkg/namespacemanifest\<close>): the inclusion rule,
  the enumeration of the listable resource types, the concurrent list sweep, the filter by dedup
  key and the conversion of PVC volume targets.

  An object is the record of what the accessors of an unstructured object return. The API client
  and the discovery client are arguments. The goroutines of the sweep each hold the mutex for
  their whole effect, so an execution is a sequence of whole list results in some order; the
  order is an argument and the properties quantify over it.
\<close>

record kobj =
  o_apiVersion :: string
  o_gvk :: gvk
  o_namespace :: string
  o_name :: string
  o_labels :: "string \<rightharpoonup> string"
  o_owner_controllers :: "bool option list"
  o_type :: string

abbreviation "o_kind x \<equiv> g_kind (o_gvk x)"

record gvr =
  r_group :: string
  r_version :: string
  r_resource :: string

record manifest_target =
  mt_apiVersion :: string
  mt_kind :: string
  mt_name :: string

section \<open>The inclusion rule\<close>

abbreviation "ownMachineryGroupStateSnapshotter \<equiv> ''state-snapshotter.deckhouse.io''"
abbreviation "ownMachineryGroupStorage \<equiv> ''state-snapshotter.deckhouse.io''"
abbreviation "csiSnapshotGroup \<equiv> ''snapshot.storage.k8s.io''"
abbreviation "kindVolumeSnapshot \<equiv> ''VolumeSnapshot''"
abbreviation "heritageLabelKey \<equiv> ''heritage''"
abbreviation "heritageLabelDeckhouse \<equiv> ''deckhouse''"

definition storageMachineryKinds :: "string set" where
  "storageMachineryKinds =
     {''VolumeCaptureRequest'', ''VolumeRestoreRequest'', ''DataExport'', ''DataImport''}"

definition containsGroupKind :: "gvk list \<Rightarrow> gvk \<Rightarrow> bool" where
  "containsGroupKind s g = list_ex (\<lambda>x. g_group x = g_group g \<and> g_kind x = g_kind g) s"

definition isDeckhouseManagedObject :: "kobj \<Rightarrow> bool" where
  "isDeckhouseManagedObject u = (o_labels u heritageLabelKey = Some heritageLabelDeckhouse)"

definition isControlPlaneNoise :: "kobj \<Rightarrow> gvk \<Rightarrow> bool" where
  "isControlPlaneNoise u gvk =
     (if g_group gvk = '''' then
        (if g_kind gvk = ''Event'' then True
         else if g_kind gvk = ''Endpoints'' then True
         else if g_kind gvk = ''ConfigMap'' then o_name u = ''kube-root-ca.crt''
         else if g_kind gvk = ''ServiceAccount'' then o_name u = ''default''
         else if g_kind gvk = ''Secret'' then o_type u = ''kubernetes.io/service-account-token''
         else False)
      else if g_group gvk = ''events.k8s.io'' then g_kind gvk = ''Event''
      else if g_group gvk = ''coordination.k8s.io'' then g_kind gvk = ''Lease''
      else if g_group gvk = ''cilium.io'' then g_kind gvk = ''CiliumEndpoint''
      else False)"

definition isSnapshotMachineryKind :: "gvk \<Rightarrow> gvk list \<Rightarrow> bool" where
  "isSnapshotMachineryKind gvk snapshotKinds =
     (if g_group gvk = csiSnapshotGroup \<and> g_kind gvk = kindVolumeSnapshot then True
      else containsGroupKind snapshotKinds gvk)"

definition isOwnMachineryKind :: "gvk \<Rightarrow> bool" where
  "isOwnMachineryKind gvk =
     (if g_group gvk = ownMachineryGroupStateSnapshotter then True
      else if g_group gvk = ownMachineryGroupStorage then g_kind gvk \<in> storageMachineryKinds
      else False)"

definition hasControllerOwnerReference :: "kobj \<Rightarrow> bool" where
  "hasControllerOwnerReference u = list_ex (\<lambda>c. c = Some True) (o_owner_controllers u)"

definition ShouldIncludeNamespaceObject :: "kobj \<Rightarrow> gvk list \<Rightarrow> bool" where
  "ShouldIncludeNamespaceObject u snapshotKinds =
     (if hasControllerOwnerReference u then False
      else if isControlPlaneNoise u (o_gvk u) then False
      else if isSnapshotMachineryKind (o_gvk u) snapshotKinds then False
      else if isOwnMachineryKind (o_gvk u) then False
      else if isDeckhouseManagedObject u then False
      else True)"

section \<open>Discovery\<close>

record api_resource =
  ar_resource :: string
  ar_verbs :: "string list"

record api_resource_list =
  al_groupVersion :: string
  al_resources :: "api_resource list"

datatype discovery_error = NoDiscoveryError | GroupDiscoveryFailed "(string \<times> string) list" | OtherDiscoveryError string

datatype targets_error =
    NilDynamicClient
  | NilDiscoveryClient
  | DiscoverResources string
  | ParseGroupVersion string
  | ListResource gvr string string

definition hasVerb :: "string list \<Rightarrow> string \<Rightarrow> bool" where
  "hasVerb verbs want = list_ex (\<lambda>v. v = want) verbs"

definition gvr_less :: "gvr \<Rightarrow> gvr \<Rightarrow> bool" where
  "gvr_less a b =
     (if r_group a \<noteq> r_group b then r_group a < r_group b
      else if r_version a \<noteq> r_version b then r_version a < r_version b
      else r_resource a < r_resource b)"

definition list_gvrs :: "string \<times> string \<Rightarrow> api_resource list \<Rightarrow> gvr list" where
  "list_gvrs gv rs = concat (map (\<lambda>res.
     if str_contains (ar_resource res) ''/'' then []
     else if \<not> hasVerb (ar_verbs res) ''list'' \<or> \<not> hasVerb (ar_verbs res) ''get'' \<or>
             \<not> hasVerb (ar_verbs res) ''watch'' then []
     else [\<lparr>r_group = fst gv, r_version = snd gv, r_resource = ar_resource res\<rparr>]) rs)"

fun collect_gvrs ::
  "(string \<Rightarrow> (string \<times> string) option) \<Rightarrow> api_resource_list option list \<Rightarrow> gvr list \<Rightarrow> targets_error + gvr list" where
  "collect_gvrs parse_gv [] acc = Inr acc"
| "collect_gvrs parse_gv (None # ls) acc = collect_gvrs parse_gv ls acc"
| "collect_gvrs parse_gv (Some l # ls) acc =
     (case parse_gv (al_groupVersion l) of
        None \<Rightarrow> Inl (ParseGroupVersion (al_groupVersion l))
      | Some gv \<Rightarrow> collect_gvrs parse_gv ls (acc @ list_gvrs gv (al_resources l)))"

text \<open>The result is an error or the sorted types, together with the unreadable ones in both cases.\<close>

definition enumerateNamespacedGVRs ::
  "(string \<Rightarrow> (string \<times> string) option) \<Rightarrow> api_resource_list option list \<Rightarrow> discovery_error \<Rightarrow>
   (targets_error + gvr list) \<times> gvr list" where
  "enumerateNamespacedGVRs parse_gv als derr =
     (case derr of
        OtherDiscoveryError e \<Rightarrow> (Inl (DiscoverResources e), [])
      | _ \<Rightarrow>
        (let unreadable = (case derr of
               GroupDiscoveryFailed groups \<Rightarrow>
                 map (\<lambda>(g, v). \<lparr>r_group = g, r_version = v, r_resource = ''*''\<rparr>) groups
             | _ \<Rightarrow> [])
         in case collect_gvrs parse_gv als [] of
              Inl e \<Rightarrow> (Inl e, unreadable)
            | Inr gvrs \<Rightarrow> (Inr (sort_slice gvr_less gvrs), unreadable)))"

section \<open>The list sweep\<close>

record list_error =
  le_not_found :: bool
  le_forbidden :: bool
  le_text :: string

datatype list_result = Items "kobj list" | ListErr list_error

definition objectKey :: "kobj \<Rightarrow> string" where
  "objectKey u = o_apiVersion u @ ''|'' @ o_kind u @ ''|'' @ o_namespace u @ ''|'' @ o_name u"

definition isDiscoveryNotFound :: "list_error \<Rightarrow> bool" where
  "isDiscoveryNotFound e =
     (if le_not_found e then True
      else str_contains (le_text e) ''could not find the requested resource'' \<or>
           str_contains (le_text e) ''the server could not find the requested resource'')"

record sweep =
  sw_seen :: "string set"
  sw_targets :: "manifest_target list"
  sw_unreadable :: "gvr list"
  sw_first_err :: "targets_error option"

definition item_target :: "gv_string \<Rightarrow> gvr \<Rightarrow> kobj \<Rightarrow> manifest_target" where
  "item_target gvs g u = \<lparr>mt_apiVersion =
       (if o_apiVersion u = '''' then gvs (r_group g) (r_version g) else o_apiVersion u),
     mt_kind = o_kind u, mt_name = o_name u\<rparr>"

definition sweep_item ::
  "gv_string \<Rightarrow> gvk list \<Rightarrow> ((string \<rightharpoonup> string) \<Rightarrow> bool) option \<Rightarrow> gvr \<Rightarrow> kobj \<Rightarrow> sweep \<Rightarrow> sweep" where
  "sweep_item gvs snapshotKinds selector g u s =
     (if objectKey u \<in> sw_seen s then s
      else let s = s\<lparr>sw_seen := insert (objectKey u) (sw_seen s)\<rparr> in
        if \<not> ShouldIncludeNamespaceObject u snapshotKinds then s
        else if (case selector of None \<Rightarrow> False | Some matches \<Rightarrow> \<not> matches (o_labels u)) then s
        else if o_kind u = '''' then s
        else s\<lparr>sw_targets := sw_targets s @ [item_target gvs g u]\<rparr>)"

definition sweep_gvr ::
  "gv_string \<Rightarrow> gvk list \<Rightarrow> ((string \<rightharpoonup> string) \<Rightarrow> bool) option \<Rightarrow> string \<Rightarrow> (gvr \<Rightarrow> list_result) \<Rightarrow>
   gvr \<Rightarrow> sweep \<Rightarrow> sweep" where
  "sweep_gvr gvs snapshotKinds selector namespace list g s =
     (case list g of
        ListErr e \<Rightarrow>
          if isDiscoveryNotFound e then s
          else if le_forbidden e then s\<lparr>sw_unreadable := sw_unreadable s @ [g]\<rparr>
          else if sw_first_err s = None
          then s\<lparr>sw_first_err := Some (ListResource g namespace (le_text e))\<rparr>
          else s
      | Items items \<Rightarrow> fold (sweep_item gvs snapshotKinds selector g) items s)"

definition target_less :: "manifest_target \<Rightarrow> manifest_target \<Rightarrow> bool" where
  "target_less a b =
     (if mt_apiVersion a \<noteq> mt_apiVersion b then mt_apiVersion a < mt_apiVersion b
      else if mt_kind a \<noteq> mt_kind b then mt_kind a < mt_kind b
      else mt_name a < mt_name b)"

definition sortManifestTargets :: "manifest_target list \<Rightarrow> manifest_target list" where
  "sortManifestTargets = sort_slice target_less"

text \<open>
  The sweep over the enumerated types in the completion order that \<open>schedule\<close> makes of them, and the
  result: the targets or an error, and the unreadable types.
\<close>

definition sweep_all ::
  "gv_string \<Rightarrow> gvk list \<Rightarrow> ((string \<rightharpoonup> string) \<Rightarrow> bool) option \<Rightarrow> string \<Rightarrow> (gvr \<Rightarrow> list_result) \<Rightarrow>
   gvr list \<Rightarrow> gvr list \<Rightarrow> (targets_error + manifest_target list) \<times> gvr list" where
  "sweep_all gvs snapshotKinds selector namespace list unreadable order =
     (let s = fold (sweep_gvr gvs snapshotKinds selector namespace list) order
            \<lparr>sw_seen = {}, sw_targets = [], sw_unreadable = unreadable, sw_first_err = None\<rparr>
      in (case sw_first_err s of Some e \<Rightarrow> Inl e | None \<Rightarrow> Inr (sortManifestTargets (sw_targets s)),
          sw_unreadable s))"

definition BuildManifestCaptureTargets ::
  "gv_string \<Rightarrow> (string \<Rightarrow> (string \<times> string) option) \<Rightarrow> (gvr list \<Rightarrow> gvr list) \<Rightarrow>
   (gvr \<Rightarrow> list_result) option \<Rightarrow> (api_resource_list option list \<times> discovery_error) option \<Rightarrow>
   string \<Rightarrow> gvk list \<Rightarrow> ((string \<rightharpoonup> string) \<Rightarrow> bool) option \<Rightarrow>
   (targets_error + manifest_target list) \<times> gvr list" where
  "BuildManifestCaptureTargets gvs parse_gv schedule dyn disco namespace snapshotKinds selector =
     (case dyn of None \<Rightarrow> (Inl NilDynamicClient, []) | Some list \<Rightarrow>
     (case disco of None \<Rightarrow> (Inl NilDiscoveryClient, []) | Some (als, derr) \<Rightarrow>
     (case enumerateNamespacedGVRs parse_gv als derr of
        (Inl e, unreadable) \<Rightarrow> (Inl e, unreadable)
      | (Inr gvrs, unreadable) \<Rightarrow>
          sweep_all gvs snapshotKinds selector namespace list unreadable (schedule gvrs))))"

section \<open>Filtering and volume targets\<close>

definition ManifestTargetDedupKey :: "string \<Rightarrow> manifest_target \<Rightarrow> string" where
  "ManifestTargetDedupKey snapshotNamespace t =
     (let ns = (if snapshotNamespace = '''' then ''_cluster'' else snapshotNamespace)
      in mt_apiVersion t @ ''|'' @ mt_kind t @ ''|'' @ ns @ ''|'' @ mt_name t)"

definition FilterManifestTargets ::
  "manifest_target list \<Rightarrow> string set \<Rightarrow> string \<Rightarrow> manifest_target list" where
  "FilterManifestTargets targets exclude snapshotNamespace =
     (if exclude = {} then targets
      else sortManifestTargets
        (filter (\<lambda>t. ManifestTargetDedupKey snapshotNamespace t \<notin> exclude) targets))"

record volume_target =
  vt_apiVersion :: string
  vt_kind :: string
  vt_name :: string
  vt_namespace :: string

definition ManifestTargetsFromVolumeTargets :: "volume_target list \<Rightarrow> manifest_target list" where
  "ManifestTargetsFromVolumeTargets targets = sortManifestTargets
     (concat (map (\<lambda>t. if vt_kind t \<noteq> ''PersistentVolumeClaim'' then []
        else [\<lparr>mt_apiVersion = (if vt_apiVersion t = '''' then ''v1'' else vt_apiVersion t),
               mt_kind = vt_kind t, mt_name = vt_name t\<rparr>]) targets))"

section \<open>Orders\<close>

interpretation gvr_order: slice_order gvr_less
proof -
  have "gvr_less = keys_less (\<lambda>g::gvr. [r_group g, r_version g, r_resource g])"
    by (auto simp: fun_eq_iff gvr_less_def keys_less_def)
  moreover have "inj (\<lambda>g::gvr. [r_group g, r_version g, r_resource g])"
    by (rule injI) (auto intro: gvr.equality)
  ultimately show "slice_order gvr_less" using keys_less_order by metis
qed

interpretation target_order: slice_order target_less
proof -
  have "target_less = keys_less (\<lambda>t::manifest_target. [mt_apiVersion t, mt_kind t, mt_name t])"
    by (auto simp: fun_eq_iff target_less_def keys_less_def)
  moreover have "inj (\<lambda>t::manifest_target. [mt_apiVersion t, mt_kind t, mt_name t])"
    by (rule injI) (auto intro: manifest_target.equality)
  ultimately show "slice_order target_less" using keys_less_order by metis
qed

section \<open>What a sweep accumulates\<close>

definition items_of :: "(gvr \<Rightarrow> list_result) \<Rightarrow> gvr \<Rightarrow> kobj list" where
  "items_of list g = (case list g of Items xs \<Rightarrow> xs | ListErr _ \<Rightarrow> [])"

definition hard_error :: "(gvr \<Rightarrow> list_result) \<Rightarrow> gvr \<Rightarrow> bool" where
  "hard_error list g = (case list g of Items _ \<Rightarrow> False
     | ListErr e \<Rightarrow> \<not> isDiscoveryNotFound e \<and> \<not> le_forbidden e)"

definition forbidden_type :: "(gvr \<Rightarrow> list_result) \<Rightarrow> gvr \<Rightarrow> bool" where
  "forbidden_type list g = (case list g of Items _ \<Rightarrow> False
     | ListErr e \<Rightarrow> \<not> isDiscoveryNotFound e \<and> le_forbidden e)"

definition wanted :: "gvk list \<Rightarrow> ((string \<rightharpoonup> string) \<Rightarrow> bool) option \<Rightarrow> kobj \<Rightarrow> bool" where
  "wanted snapshotKinds selector u =
     (ShouldIncludeNamespaceObject u snapshotKinds \<and>
      (case selector of None \<Rightarrow> True | Some matches \<Rightarrow> matches (o_labels u)) \<and> o_kind u \<noteq> '''')"

definition plain_target :: "kobj \<Rightarrow> manifest_target" where
  "plain_target u = \<lparr>mt_apiVersion = o_apiVersion u, mt_kind = o_kind u, mt_name = o_name u\<rparr>"

text \<open>
  The items of one sweep are coherent: an object listed under two types (served by two groups)
  is the same in both lists, and the server set its \<open>apiVersion\<close>.
\<close>

definition coherent :: "(gvr \<Rightarrow> list_result) \<Rightarrow> gvr list \<Rightarrow> bool" where
  "coherent list gs =
     (let xs = concat (map (items_of list) gs)
      in inj_on objectKey (set xs) \<and> (\<forall>x\<in>set xs. o_apiVersion x \<noteq> []))"

lemma sweep_item_eq:
  "sweep_item gvs ks sel g u s =
     (if objectKey u \<in> sw_seen s then s
      else s\<lparr>sw_seen := insert (objectKey u) (sw_seen s),
             sw_targets := sw_targets s @ (if wanted ks sel u then [item_target gvs g u] else [])\<rparr>)"
  by (simp add: sweep_item_def wanted_def Let_def split: option.splits)

lemma sweep_items_frame [simp]:
  "sw_unreadable (fold (sweep_item gvs ks sel g) xs s) = sw_unreadable s"
  "sw_first_err (fold (sweep_item gvs ks sel g) xs s) = sw_first_err s"
  by (induction xs arbitrary: s) (simp_all add: sweep_item_eq)

lemma sweep_gvr_items:
  "sw_seen (sweep_gvr gvs ks sel ns list g s) = sw_seen (fold (sweep_item gvs ks sel g) (items_of list g) s)"
  "sw_targets (sweep_gvr gvs ks sel ns list g s) = sw_targets (fold (sweep_item gvs ks sel g) (items_of list g) s)"
  by (auto simp: sweep_gvr_def items_of_def split: list_result.splits)

lemma sweep_gvr_errors:
  "sw_unreadable (sweep_gvr gvs ks sel ns list g s) =
     sw_unreadable s @ (if forbidden_type list g then [g] else [])"
  "(sw_first_err (sweep_gvr gvs ks sel ns list g s) = None) =
     (sw_first_err s = None \<and> \<not> hard_error list g)"
  by (auto simp: sweep_gvr_def forbidden_type_def hard_error_def split: list_result.splits)

lemma sweep_errors:
  "sw_unreadable (fold (sweep_gvr gvs ks sel ns list) gs s) =
     sw_unreadable s @ filter (forbidden_type list) gs"
  "(sw_first_err (fold (sweep_gvr gvs ks sel ns list) gs s) = None) =
     (sw_first_err s = None \<and> (\<forall>g\<in>set gs. \<not> hard_error list g))"
  by (induction gs arbitrary: s) (auto simp: sweep_gvr_errors)

text \<open>The targets after a fold over items are those of the objects whose key was not seen before.\<close>

definition sweep_inv ::
  "gvk list \<Rightarrow> ((string \<rightharpoonup> string) \<Rightarrow> bool) option \<Rightarrow> kobj set \<Rightarrow> sweep \<Rightarrow> bool" where
  "sweep_inv ks sel U s = (sw_seen s = objectKey ` U \<and> finite U \<and>
     mset (sw_targets s) = image_mset plain_target (mset_set {u\<in>U. wanted ks sel u}))"

lemma sweep_inv_item:
  assumes "sweep_inv ks sel U s" "o_apiVersion u \<noteq> ''''" "inj_on objectKey (insert u U)"
  shows "sweep_inv ks sel (insert u U) (sweep_item gvs ks sel g u s)"
proof (cases "u \<in> U")
  case True
  then show ?thesis using assms by (simp add: sweep_item_eq sweep_inv_def insert_absorb)
next
  case False
  then have "objectKey u \<notin> sw_seen s" using assms by (auto simp: sweep_inv_def)
  moreover have "item_target gvs g u = plain_target u"
    using assms(2) by (simp add: item_target_def plain_target_def)
  moreover have "{x \<in> insert u U. wanted ks sel x} =
      (if wanted ks sel u then insert u {x\<in>U. wanted ks sel x} else {x\<in>U. wanted ks sel x})"
    by auto
  ultimately show ?thesis using assms(1) False by (simp add: sweep_item_eq sweep_inv_def)
qed

lemma sweep_inv_items:
  "sweep_inv ks sel U s \<Longrightarrow> \<forall>u\<in>set xs. o_apiVersion u \<noteq> '''' \<Longrightarrow>
   inj_on objectKey (U \<union> set xs) \<Longrightarrow>
   sweep_inv ks sel (U \<union> set xs) (fold (sweep_item gvs ks sel g) xs s)"
proof (induction xs arbitrary: U s)
  case Nil
  then show ?case by simp
next
  case (Cons u xs)
  have "sweep_inv ks sel (insert u U) (sweep_item gvs ks sel g u s)"
    using Cons.prems inj_on_subset [OF Cons.prems(3), of "insert u U"] by (intro sweep_inv_item) auto
  from Cons.IH [OF this] Cons.prems show ?case by simp
qed

lemma sweep_inv_types:
  "sweep_inv ks sel U s \<Longrightarrow> \<forall>u\<in>set (concat (map (items_of list) gs)). o_apiVersion u \<noteq> '''' \<Longrightarrow>
   inj_on objectKey (U \<union> set (concat (map (items_of list) gs))) \<Longrightarrow>
   sweep_inv ks sel (U \<union> set (concat (map (items_of list) gs))) (fold (sweep_gvr gvs ks sel ns list) gs s)"
proof (induction gs arbitrary: U s)
  case Nil
  then show ?case by simp
next
  case (Cons g gs)
  have "sweep_inv ks sel (U \<union> set (items_of list g)) (fold (sweep_item gvs ks sel g) (items_of list g) s)"
    using Cons.prems inj_on_subset [OF Cons.prems(3), of "U \<union> set (items_of list g)"]
    by (intro sweep_inv_items) auto
  then have "sweep_inv ks sel (U \<union> set (items_of list g)) (sweep_gvr gvs ks sel ns list g s)"
    by (simp add: sweep_inv_def sweep_gvr_items)
  from Cons.IH [OF this] Cons.prems show ?case by (simp add: Un_assoc)
qed

lemma sweep_all_result:
  assumes "coherent list gs" and "U = {u \<in> set (concat (map (items_of list) gs)). wanted ks sel u}"
  shows "snd (sweep_all gvs ks sel ns list un gs) = un @ filter (forbidden_type list) gs"
    and "\<exists>g\<in>set gs. hard_error list g \<Longrightarrow> \<exists>e. fst (sweep_all gvs ks sel ns list un gs) = Inl e"
    and "\<forall>g\<in>set gs. \<not> hard_error list g \<Longrightarrow>
      \<exists>ts. fst (sweep_all gvs ks sel ns list un gs) = Inr (sortManifestTargets ts) \<and>
        mset ts = image_mset plain_target (mset_set U)"
proof -
  let ?init = "\<lparr>sw_seen = {}, sw_targets = [], sw_unreadable = un, sw_first_err = None\<rparr>"
  let ?s = "fold (sweep_gvr gvs ks sel ns list) gs ?init"
  have "sweep_inv ks sel ({} \<union> set (concat (map (items_of list) gs))) ?s"
    using assms(1) by (intro sweep_inv_types) (auto simp: sweep_inv_def coherent_def Let_def)
  then have "mset (sw_targets ?s) = image_mset plain_target (mset_set U)"
    by (simp add: sweep_inv_def assms(2))
  then show "\<forall>g\<in>set gs. \<not> hard_error list g \<Longrightarrow>
      \<exists>ts. fst (sweep_all gvs ks sel ns list un gs) = Inr (sortManifestTargets ts) \<and>
        mset ts = image_mset plain_target (mset_set U)"
    using sweep_errors(2) [of gvs ks sel ns list gs ?init]
    by (simp add: sweep_all_def Let_def split: option.splits) blast
  show "\<exists>g\<in>set gs. hard_error list g \<Longrightarrow> \<exists>e. fst (sweep_all gvs ks sel ns list un gs) = Inl e"
    using sweep_errors(2) [of gvs ks sel ns list gs ?init] by (auto simp: sweep_all_def Let_def)
  show "snd (sweep_all gvs ks sel ns list un gs) = un @ filter (forbidden_type list) gs"
    by (simp add: sweep_all_def Let_def sweep_errors(1))
qed

text \<open>
  What the API server promises of its lists: an object carries its API version, an object listed under two types is the
  same in both lists, so that API version, kind, namespace and name identify it, and none of the first three holds the
  separator of the keys (none of them may contain it).
\<close>

definition served :: "(gvr \<Rightarrow> list_result) \<Rightarrow> kobj \<Rightarrow> bool" where
  "served list u \<longleftrightarrow> (\<exists>g. u \<in> set (items_of list g))"

definition listing_ok :: "(gvr \<Rightarrow> list_result) \<Rightarrow> bool" where
  "listing_ok list \<longleftrightarrow>
     (\<forall>u. served list u \<longrightarrow> o_apiVersion u \<noteq> '''' \<and>
        CHR ''|'' \<notin> set (o_apiVersion u) \<union> set (o_kind u) \<union> set (o_namespace u)) \<and>
     (\<forall>u v. served list u \<longrightarrow> served list v \<longrightarrow> o_apiVersion u = o_apiVersion v \<longrightarrow> o_kind u = o_kind v \<longrightarrow>
        o_namespace u = o_namespace v \<longrightarrow> o_name u = o_name v \<longrightarrow> u = v)"

lemma object_key_eq:
  assumes "CHR ''|'' \<notin> set (o_apiVersion u) \<union> set (o_kind u) \<union> set (o_namespace u)"
    and "CHR ''|'' \<notin> set (o_apiVersion v) \<union> set (o_kind v) \<union> set (o_namespace v)" and "objectKey u = objectKey v"
  shows "o_apiVersion u = o_apiVersion v \<and> o_kind u = o_kind v \<and> o_namespace u = o_namespace v \<and> o_name u = o_name v"
  using assms by (auto simp: objectKey_def append_sep_eq)

lemma listing_coherent:
  assumes "listing_ok list"
  shows "coherent list gs"
proof -
  have ok: "o_apiVersion u \<noteq> ''''" "CHR ''|'' \<notin> set (o_apiVersion u) \<union> set (o_kind u) \<union> set (o_namespace u)"
    if "served list u" for u using assms that unfolding listing_ok_def by blast+
  have same: "u = v" if "served list u" "served list v" "objectKey u = objectKey v" for u v
    using object_key_eq [OF ok(2) [OF that(1)] ok(2) [OF that(2)] that(3)] assms that(1,2) unfolding listing_ok_def by blast
  have "served list u" if "u \<in> set (concat (map (items_of list) gs))" for u using that by (auto simp: served_def)
  then show ?thesis using ok(1) same unfolding coherent_def Let_def inj_on_def by blast
qed

lemma coherent_perm: "mset gs = mset hs \<Longrightarrow> coherent list gs = coherent list hs"
  by (auto simp: coherent_def dest: mset_eq_setD)


section \<open>Properties\<close>

text \<open>
  The targets do not depend on the order in which the concurrent lists of the types finish: for
  any two schedules, either both sweeps fail, or both return the same sorted target list, exactly
  one target for every listed object that the inclusion rule, the selector and the kind guard
  admit; the unreadable types are the same up to their order.
\<close>

theorem targets_schedule_independent:
  assumes "coherent list gs" and "mset order = mset gs" and "mset order' = mset gs"
  shows "rel_sum (\<lambda>_ _. True) (=) (fst (sweep_all gvs ks sel ns list un order))
           (fst (sweep_all gvs ks sel ns list un order')) \<and>
     mset (snd (sweep_all gvs ks sel ns list un order)) = mset (snd (sweep_all gvs ks sel ns list un order')) \<and>
     (\<forall>ts. fst (sweep_all gvs ks sel ns list un order) = Inr ts \<longrightarrow> in_order target_less ts \<and>
        mset ts = image_mset plain_target (mset_set {u \<in> set (concat (map (items_of list) gs)). wanted ks sel u}))"
proof -
  have sets: "set order = set gs" "set order' = set gs" using assms(2,3) by (metis mset_eq_setD)+
  have coh: "coherent list order" "coherent list order'"
    using assms coherent_perm by metis+
  note r1 = sweep_all_result [OF coh(1) refl, of gvs ks sel ns un]
  note r2 = sweep_all_result [OF coh(2) refl, of gvs ks sel ns un]
  have "mset (filter (forbidden_type list) order) = mset (filter (forbidden_type list) order')"
    using assms by (simp add: mset_filter)
  then have un: "mset (snd (sweep_all gvs ks sel ns list un order)) =
      mset (snd (sweep_all gvs ks sel ns list un order'))"
    by (simp add: r1(1) r2(1))
  show ?thesis
  proof (cases "\<exists>g\<in>set gs. hard_error list g")
    case True
    then show ?thesis using r1(2) r2(2) un sets by auto
  next
    case False
    obtain ts where ts: "fst (sweep_all gvs ks sel ns list un order) = Inr (sortManifestTargets ts)"
      "mset ts = image_mset plain_target (mset_set {u \<in> set (concat (map (items_of list) gs)). wanted ks sel u})"
      using r1(3) False sets by auto
    obtain ts' where ts': "fst (sweep_all gvs ks sel ns list un order') = Inr (sortManifestTargets ts')"
      "mset ts' = image_mset plain_target (mset_set {u \<in> set (concat (map (items_of list) gs)). wanted ks sel u})"
      using r2(3) False sets by auto
    have "sortManifestTargets ts = sortManifestTargets ts'"
      using ts(2) ts'(2) by (simp add: sortManifestTargets_def target_order.sort_slice_cong_mset)
    then show ?thesis
      using un ts ts' by (simp add: sortManifestTargets_def target_order.sort_slice_in_order)
  qed
qed

definition sample_object :: "string \<Rightarrow> kobj" where
  "sample_object n = \<lparr>o_apiVersion = ''v1'', o_gvk = \<lparr>g_group = '''', g_version = ''v1'', g_kind = ''Service''\<rparr>,
     o_namespace = ''ns'', o_name = n, o_labels = (\<lambda>_. None), o_owner_controllers = [], o_type = ''''\<rparr>"

definition sample_type :: "string \<Rightarrow> gvr" where
  "sample_type r = \<lparr>r_group = '''', r_version = ''v1'', r_resource = r\<rparr>"

definition sample_lists :: "gvr \<Rightarrow> list_result" where
  "sample_lists g = (if r_resource g = ''services'' then Items [sample_object ''b'', sample_object ''a'']
     else ListErr \<lparr>le_not_found = False, le_forbidden = True, le_text = ''forbidden''\<rparr>)"

lemmas sample_defs = sample_object_def sample_type_def sample_lists_def

lemma targets_schedule_independent_witness:
  "rel_sum (\<lambda>_ _. True) (=)
     (fst (sweep_all slash_gv [] None ''ns'' sample_lists [] [sample_type ''services'', sample_type ''pods'']))
     (fst (sweep_all slash_gv [] None ''ns'' sample_lists [] [sample_type ''pods'', sample_type ''services'']))"
proof -
  have "coherent sample_lists [sample_type ''services'', sample_type ''pods'']"
    by (simp add: coherent_def items_of_def sample_defs objectKey_def)
  from targets_schedule_independent [OF this refl, of "[sample_type ''pods'', sample_type ''services'']"]
  show ?thesis by simp
qed

lemma collect_gvrs_result:
  "collect_gvrs parse_gv als acc = Inr gs \<Longrightarrow>
   gs = acc @ concat (map (\<lambda>l. list_gvrs (the (parse_gv (al_groupVersion l))) (al_resources l))
          (List.map_filter id als)) \<and> (\<forall>l. Some l \<in> set als \<longrightarrow> parse_gv (al_groupVersion l) \<noteq> None)"
  by (induction parse_gv als acc rule: collect_gvrs.induct)
     (auto simp: List.map_filter_def split: option.splits)

lemma enumerate_result:
  assumes "enumerateNamespacedGVRs parse_gv als derr = (Inr gs, un)"
  shows "(\<exists>hs. collect_gvrs parse_gv als [] = Inr hs \<and> gs = sort_slice gvr_less hs) \<and>
    (\<forall>failed. derr = GroupDiscoveryFailed failed \<longrightarrow>
        (\<forall>p\<in>set failed. \<lparr>r_group = fst p, r_version = snd p, r_resource = ''*''\<rparr> \<in> set un))"
proof (cases derr)
  case (GroupDiscoveryFailed failed)
  have "map (\<lambda>(g, v). \<lparr>r_group = g, r_version = v, r_resource = ''*''\<rparr>) failed =
      map (\<lambda>p. \<lparr>r_group = fst p, r_version = snd p, r_resource = ''*''\<rparr>) failed"
    by (simp add: case_prod_beta)
  with assms GroupDiscoveryFailed have
    "un = map (\<lambda>p. \<lparr>r_group = fst p, r_version = snd p, r_resource = ''*''\<rparr>) failed"
    "\<exists>hs. collect_gvrs parse_gv als [] = Inr hs \<and> gs = sort_slice gvr_less hs"
    by (auto simp: enumerateNamespacedGVRs_def Let_def split: sum.splits)
  then show ?thesis using GroupDiscoveryFailed by simp
qed (use assms in \<open>auto simp: enumerateNamespacedGVRs_def split: sum.splits\<close>)



text \<open>
  C40: A capture that returns a target list is complete or says what is missing: the enumerated types
  are, in order, all listable, gettable and watchable non-subresource types of every discovered
  group version; each of them was listed, no longer exists, or is among the unreadable types, as is
  every group whose discovery failed; and the sorted targets are exactly one for every listed object that the
  inclusion rule, the selector and the kind guard admit, whatever the order in which the concurrent lists finish. This
  rests on what the API server promises of its lists (\<open>listing_ok\<close>).
\<close>

theorem targets_complete_or_reported:
  assumes "BuildManifestCaptureTargets gvs parse_gv schedule (Some list) (Some (als, derr)) ns ks sel = (Inr ts, un)"
    and "\<forall>xs. mset (schedule xs) = mset xs" and "listing_ok list"
  shows "\<exists>gs. in_order gvr_less gs \<and>
     set gs = (\<Union>l\<in>{l. Some l \<in> set als}. set (list_gvrs (the (parse_gv (al_groupVersion l))) (al_resources l))) \<and>
     (\<forall>g\<in>set gs. (\<exists>xs. list g = Items xs) \<or> (\<exists>e. list g = ListErr e \<and> isDiscoveryNotFound e) \<or> g \<in> set un) \<and>
     (\<forall>failed. derr = GroupDiscoveryFailed failed \<longrightarrow>
        (\<forall>p\<in>set failed. \<lparr>r_group = fst p, r_version = snd p, r_resource = ''*''\<rparr> \<in> set un)) \<and>
     in_order target_less ts \<and>
     mset ts = image_mset plain_target (mset_set {u \<in> (\<Union>g\<in>set gs. set (items_of list g)). wanted ks sel u})"

proof -
  obtain gs un0 where en: "enumerateNamespacedGVRs parse_gv als derr = (Inr gs, un0)"
    and sw: "sweep_all gvs ks sel ns list un0 (schedule gs) = (Inr ts, un)"
    using assms(1) by (auto simp: BuildManifestCaptureTargets_def split: prod.splits sum.splits)
  have sched: "set (schedule gs) = set gs" using assms(2) by (metis mset_eq_setD)
  obtain hs where hs: "collect_gvrs parse_gv als [] = Inr hs" "gs = sort_slice gvr_less hs"
    and un0: "\<forall>failed. derr = GroupDiscoveryFailed failed \<longrightarrow>
        (\<forall>p\<in>set failed. \<lparr>r_group = fst p, r_version = snd p, r_resource = ''*''\<rparr> \<in> set un0)"
    using enumerate_result [OF en] by blast
  have gs: "set gs = (\<Union>l\<in>{l. Some l \<in> set als}. set (list_gvrs (the (parse_gv (al_groupVersion l))) (al_resources l)))"
    using collect_gvrs_result [OF hs(1)] by (auto simp: hs(2) List.map_filter_def)
  let ?s = "fold (sweep_gvr gvs ks sel ns list) (schedule gs)
      \<lparr>sw_seen = {}, sw_targets = [], sw_unreadable = un0, sw_first_err = None\<rparr>"
  have err: "sw_first_err ?s = None" and ts: "ts = sortManifestTargets (sw_targets ?s)" and un: "un = sw_unreadable ?s"
    using sw by (auto simp: sweep_all_def Let_def split: option.splits)
  have un_eq: "un = un0 @ filter (forbidden_type list) (schedule gs)" unfolding un by (simp add: sweep_errors(1))
  have "\<forall>g\<in>set gs. \<not> hard_error list g" using err sched by (simp add: sweep_errors(2))
  with \<open>\<forall>g\<in>set gs. \<not> hard_error list g\<close> have "\<forall>g\<in>set gs. (\<exists>xs. list g = Items xs) \<or> (\<exists>e. list g = ListErr e \<and> isDiscoveryNotFound e) \<or> g \<in> set un"
    by (auto simp: un_eq sched hard_error_def forbidden_type_def split: list_result.splits)
  moreover have "in_order target_less ts \<and>
      mset ts = image_mset plain_target (mset_set {u \<in> (\<Union>g\<in>set gs. set (items_of list g)). wanted ks sel u})"
  proof -
    have us: "set (concat (map (items_of list) (schedule gs))) = (\<Union>g\<in>set gs. set (items_of list g))" using sched by auto
    from sweep_all_result(3) [OF listing_coherent [OF assms(3)] refl, of "schedule gs" gvs ks sel ns un0]
    obtain ts' where "fst (sweep_all gvs ks sel ns list un0 (schedule gs)) = Inr (sortManifestTargets ts')"
      "mset ts' = image_mset plain_target (mset_set {u \<in> (\<Union>g\<in>set gs. set (items_of list g)). wanted ks sel u})"
      using \<open>\<forall>g\<in>set gs. \<not> hard_error list g\<close> sched unfolding us by auto
    then show ?thesis using sw by (simp add: sortManifestTargets_def target_order.sort_slice_in_order)
  qed
  moreover have "in_order gvr_less gs" by (simp add: hs(2) gvr_order.sort_slice_in_order)
  ultimately show ?thesis using gs un0 by (intro exI [of _ gs]) (auto simp: un_eq)
qed

lemma targets_complete_or_reported_witness:
  "\<exists>ts un. BuildManifestCaptureTargets slash_gv (\<lambda>s. Some ('''', s)) rev (Some sample_lists)
      (Some ([Some \<lparr>al_groupVersion = ''v1'', al_resources =
          [\<lparr>ar_resource = ''services'', ar_verbs = [''get'', ''list'', ''watch'']\<rparr>]\<rparr>],
        GroupDiscoveryFailed [(''demo'', ''v1'')])) ''ns'' [] None = (Inr ts, un) \<and>
    \<lparr>r_group = ''demo'', r_version = ''v1'', r_resource = ''*''\<rparr> \<in> set un \<and>
    set ts = {plain_target (sample_object ''a''), plain_target (sample_object ''b'')}"
  (is "\<exists>ts un. ?build = _ \<and> _ \<and> _")
proof -
  have ok: "listing_ok sample_lists"
    by (auto simp: listing_ok_def served_def items_of_def sample_defs split: if_splits)
  obtain ts un where b: "?build = (Inr ts, un)"
    by (simp add: BuildManifestCaptureTargets_def enumerateNamespacedGVRs_def list_gvrs_def hasVerb_def
        has_prefix_def sort_slice_def sweep_all_def Let_def sweep_gvr_def sweep_item_eq objectKey_def sample_defs)
  obtain gs where gs: "set gs = (\<Union>l\<in>{l. Some l \<in> set [Some \<lparr>al_groupVersion = ''v1'', al_resources =
          [\<lparr>ar_resource = ''services'', ar_verbs = [''get'', ''list'', ''watch'']\<rparr>]\<rparr>]}.
        set (list_gvrs (the (Some ('''', al_groupVersion l))) (al_resources l)))"
    and un: "\<forall>p\<in>set [(''demo'', ''v1'')]. \<lparr>r_group = fst p, r_version = snd p, r_resource = ''*''\<rparr> \<in> set un"
    and ts: "mset ts = image_mset plain_target (mset_set {u \<in> (\<Union>g\<in>set gs. set (items_of sample_lists g)). wanted [] None u})"
    using targets_complete_or_reported [OF b _ ok] by auto
  have g: "set gs = {sample_type ''services''}"
    unfolding gs by (simp add: list_gvrs_def hasVerb_def has_prefix_def sample_type_def)
  have items: "items_of sample_lists (sample_type ''services'') = [sample_object ''b'', sample_object ''a'']"
    by (simp add: items_of_def sample_lists_def sample_type_def)
  have wanted: "wanted [] None (sample_object n)" for n
    by (simp add: sample_object_def wanted_def ShouldIncludeNamespaceObject_def hasControllerOwnerReference_def
      isControlPlaneNoise_def isSnapshotMachineryKind_def containsGroupKind_def isOwnMachineryKind_def isDeckhouseManagedObject_def)
  have "{u \<in> (\<Union>g\<in>set gs. set (items_of sample_lists g)). wanted [] None u} = {sample_object ''a'', sample_object ''b''}"
    unfolding g using items wanted by auto
  then have "set ts = {plain_target (sample_object ''a''), plain_target (sample_object ''b'')}"
    using arg_cong [OF ts, of set_mset] by auto
  with b un show ?thesis by auto
qed

lemma dedup_key_eq:
  "CHR ''|'' \<notin> set (mt_apiVersion s) \<union> set (mt_kind s) \<union> set (mt_apiVersion t) \<union> set (mt_kind t) \<Longrightarrow>
   ManifestTargetDedupKey ns s = ManifestTargetDedupKey ns t \<Longrightarrow> s = t"
  by (auto simp: ManifestTargetDedupKey_def Let_def append_sep_eq intro: manifest_target.equality)

text \<open>
  Filtering by dedup keys keeps exactly the targets whose key is not excluded, in canonical order
  whatever the order of the input; without exclusions the list is returned untouched, and filtering
  by two sets one after the other is filtering by their union. Where the API version and kind hold no
  separator, excluding the key of a target excludes that target only.
\<close>

theorem filter_targets_exact:
  "FilterManifestTargets ts {} ns = ts \<and>
   (X \<noteq> {} \<and> mset ts = mset ts' \<longrightarrow>
      FilterManifestTargets ts X ns = FilterManifestTargets ts' X ns \<and>
      in_order target_less (FilterManifestTargets ts X ns)) \<and>
   set (FilterManifestTargets ts X ns) = {t \<in> set ts. ManifestTargetDedupKey ns t \<notin> X} \<and>
   (X \<noteq> {} \<and> Y \<noteq> {} \<longrightarrow>
      FilterManifestTargets (FilterManifestTargets ts X ns) Y ns = FilterManifestTargets ts (X \<union> Y) ns) \<and>
   ((\<forall>u\<in>insert t (set ts). CHR ''|'' \<notin> set (mt_apiVersion u) \<union> set (mt_kind u)) \<longrightarrow>
      set (FilterManifestTargets ts {ManifestTargetDedupKey ns t} ns) = set ts - {t})"
proof -
  have set_filter: "set (FilterManifestTargets ts X ns) = {t \<in> set ts. ManifestTargetDedupKey ns t \<notin> X}" for X ts
    by (auto simp: FilterManifestTargets_def sortManifestTargets_def)
  have cong: "mset ts = mset ts' \<Longrightarrow> FilterManifestTargets ts X ns = FilterManifestTargets ts' X ns" if "X \<noteq> {}"
    using that
    by (simp add: FilterManifestTargets_def sortManifestTargets_def target_order.sort_slice_cong_mset mset_filter)
  have "mset (filter P (sortManifestTargets us)) = mset (filter P us)" for P us
    by (simp add: sortManifestTargets_def mset_filter)
  then have comp: "X \<noteq> {} \<Longrightarrow> Y \<noteq> {} \<Longrightarrow>
      FilterManifestTargets (FilterManifestTargets ts X ns) Y ns = FilterManifestTargets ts (X \<union> Y) ns"
    by (auto simp: FilterManifestTargets_def sortManifestTargets_def filter_filter_mset conj_commute
        intro!: target_order.sort_slice_cong_mset)
  have inj: "\<forall>u\<in>insert t (set ts). CHR ''|'' \<notin> set (mt_apiVersion u) \<union> set (mt_kind u) \<Longrightarrow>
      set (FilterManifestTargets ts {ManifestTargetDedupKey ns t} ns) = set ts - {t}"
    unfolding set_filter using dedup_key_eq by blast
  show ?thesis
    using cong comp inj set_filter
    by (auto simp: FilterManifestTargets_def sortManifestTargets_def target_order.sort_slice_in_order)
qed

lemma filter_targets_exact_witness:
  "set (FilterManifestTargets [\<lparr>mt_apiVersion = ''v1'', mt_kind = ''Pod'', mt_name = ''a''\<rparr>,
      \<lparr>mt_apiVersion = ''v1'', mt_kind = ''Pod'', mt_name = ''b''\<rparr>] {''v1|Pod|ns|a''} ''ns'') =
    {\<lparr>mt_apiVersion = ''v1'', mt_kind = ''Pod'', mt_name = ''b''\<rparr>}"
  using filter_targets_exact [of "[\<lparr>mt_apiVersion = ''v1'', mt_kind = ''Pod'', mt_name = ''a''\<rparr>,
      \<lparr>mt_apiVersion = ''v1'', mt_kind = ''Pod'', mt_name = ''b''\<rparr>]" "''ns''" "{}" "[]" "{}"
      "\<lparr>mt_apiVersion = ''v1'', mt_kind = ''Pod'', mt_name = ''a''\<rparr>"]
  by (simp add: ManifestTargetDedupKey_def)

text \<open>
  The two own-machinery groups are the same string, so the kind list of the second is never
  consulted: every object of the group is machinery, whatever its kind.
\<close>

lemma own_machinery_is_group: "isOwnMachineryKind g = (g_group g = ownMachineryGroupStorage)"
  by (simp add: isOwnMachineryKind_def)

end
