(* ===== verification/Cluster_State.thy ===== *)
theory Cluster_State
  imports Api_Types GVK_Registry
begin

text \<open>
  The objects the SnapshotContent controller reads and the environment it reads them from.

  The controller works on unstructured objects. A record holds what the accessors used in the code
  return: a plain value where the code ignores the found flag and the error
  (\<open>v, _, _ := unstructured.NestedString(...)\<close>), a \<open>nested\<close> where it looks at the error. An entry
  of a reference list is \<open>None\<close> when it is not a map.

  \<open>env\<close> is everything outside the repository's code: the answers of the API server during one pass
  (\<open>e_\<dots>\<close> for the cached client, \<open>live_\<dots>\<close> for the uncached \<open>APIReader\<close>, which may disagree), the
  outcome of writes, the clock, and the functions of apimachinery the code calls.
\<close>

datatype err = ClientError string | NotFoundError string | FieldError string | Errorf string | Wrap string err

type_synonym 'a res = "err + 'a"

fun read_res :: "'a get_res \<Rightarrow> err + 'a option" where
  "read_res (Found x) = Inr (Some x)"
| "read_res NotFound = Inr None"
| "read_res (GetErr e) = Inl (ClientError e)"

text \<open>\<open>unstructured.NestedSlice\<close> and \<open>NestedString\<close> where an error aborts and absence is the zero value.\<close>

fun nested_or_fail :: "string \<Rightarrow> 'a \<Rightarrow> 'a nested \<Rightarrow> err + 'a" where
  "nested_or_fail path d NAbsent = Inr d"
| "nested_or_fail path d NBadType = Inl (FieldError path)"
| "nested_or_fail path d (NVal v) = Inr v"

lemma nested_or_fail_eq_Inr [simp]:
  "nested_or_fail path d n = Inr v \<longleftrightarrow> n \<noteq> NBadType \<and> v = nval d n"
  by (cases n) auto

record owner_ref =
  or_apiVersion :: string
  or_kind :: string
  or_name :: string
  or_uid :: string
  or_controller :: "bool option"

section \<open>Objects\<close>

record snapshot_content =
  ct_name :: string
  ct_uid :: string
  ct_generation :: int
  ct_deleting :: bool
  ct_finalizers :: "string list"
  ct_owner_refs :: "owner_ref list"
  ct_snapshot_ref :: subject_ref
  ct_conditions :: "condition list"
  ct_mcp_name :: "string nested"
  ct_data :: "data_binding option"
  ct_edges :: "string option list nested"
  ct_subtree_persisted :: bool
  ct_excluded :: "excluded_ref list"
  ct_bound_deleted :: bool
  ct_status_present :: bool

record snapshot_obj =
  so_gvk :: gvk
  so_namespace :: string
  so_name :: string
  so_uid :: string
  so_generation :: int
  so_deleting :: bool
  so_import_mode :: bool
  so_children :: "snapshot_child_ref option list nested"
  so_bound :: "string nested"
  so_conditions :: "condition list"
  so_phase :: string
  so_phase_reason :: string
  so_phase_message :: string
  so_mcr_name :: "string nested"
  so_vcr_name :: "string nested"
  so_bound_vsc :: "string nested"
  so_source_ref :: subject_ref
  so_manifest_captured :: bool
  so_excluded :: "excluded_ref list"

record vsc_obj =
  vs_deleting :: bool
  vs_ready :: "bool nested"
  vs_uid :: string
  vs_owner_refs :: "owner_ref list"
  vs_finalizers :: "string list"
  vs_policy :: "string nested"
  vs_restore_size :: "int nested"
  vs_annotations :: "string \<Rightarrow> string option"

record mcp_obj =
  mp_name :: string
  mp_owner_refs :: "owner_ref list"
  mp_conditions :: "condition list"
  mp_chunks :: "string list"
  mp_finalizers :: "string list"

record mcr_obj =
  mr_checkpoint_name :: string

text \<open>A claim (uid, volume mode, class, volume name) and the CSI filesystem of a volume.\<close>

record pvc_obj =
  pc_uid :: string
  pc_mode :: "string option"
  pc_class :: "string option"
  pc_volume :: string

record pv_obj =
  pv_csi_fs :: "string option"

text \<open>
  A VolumeCaptureRequest: \<open>spec.target\<close> and \<open>status.data\<close> are maps (absent and empty mean the same), a
  condition entry is None when it is not a map.
\<close>

record capture_target =
  tg_uid :: string
  tg_apiVersion :: string
  tg_kind :: string
  tg_name :: string
  tg_namespace :: string

record vcr_obj =
  vr_namespace :: string
  vr_target :: "capture_target option nested"
  vr_artifact :: "artifact_ref option nested"
  vr_conditions :: "(string \<times> string \<times> string \<times> string) option list nested"

record data_import =
  di_name :: string
  di_mode :: string
  di_ref_apiVersion :: string
  di_ref_kind :: string
  di_ref_name :: string
  di_artifact :: artifact_ref
  di_class :: string
  di_volume_mode :: string
  di_fs_type :: string

section \<open>The environment\<close>

record env =
  find_condition :: "condition list \<Rightarrow> string \<Rightarrow> condition option"
  remove_condition :: "condition list \<Rightarrow> string \<Rightarrow> condition list"
  put_condition :: "condition list \<Rightarrow> condition \<Rightarrow> condition list"
  now :: string
  gvk_of :: "string \<Rightarrow> string \<Rightarrow> gvk"
  e_content :: "string \<Rightarrow> snapshot_content get_res"
  live_content :: "string \<Rightarrow> snapshot_content get_res"
  e_snapshot :: "string \<Rightarrow> string \<Rightarrow> string \<Rightarrow> string \<Rightarrow> snapshot_obj get_res"
  live_snapshot :: "string \<Rightarrow> string \<Rightarrow> string \<Rightarrow> string \<Rightarrow> snapshot_obj get_res"
  e_vsc :: "string \<Rightarrow> vsc_obj get_res"
  e_mcp :: "string \<Rightarrow> mcp_obj get_res"
  live_mcp :: "string \<Rightarrow> mcp_obj get_res"
  live_chunk :: "string \<Rightarrow> unit get_res"
  e_mcr :: "string \<Rightarrow> string \<Rightarrow> mcr_obj get_res"
  patch_mcp :: "string \<Rightarrow> owner_ref list \<Rightarrow> string option"
  e_pvc :: "string \<Rightarrow> string \<Rightarrow> pvc_obj get_res"
  live_pv :: "string \<Rightarrow> pv_obj get_res"
  e_vcr :: "string \<Rightarrow> string \<Rightarrow> vcr_obj get_res"
  e_data_imports :: "string \<Rightarrow> string + data_import list"
  patch_vsc :: "string \<Rightarrow> string option"
  patch_content :: "string \<Rightarrow> string option"
  patch_snapshot :: "string \<Rightarrow> string \<Rightarrow> string option"
  binary_quantity :: "int \<Rightarrow> string"
  parse_gv_error :: "string \<Rightarrow> string option"
  gv_string :: "gvk \<Rightarrow> string"

end
