(* ===== verification/Conditions.thy ===== *)
theory Conditions
  imports Cluster_State
begin

text \<open>
  Conditions (\<open>pkg/snapshot/conditions.go\<close>): reading, the single writer \<open>SetCondition\<close>, and the
  generation-stamping \<open>upsertContentCondition\<close> of the SnapshotContent controller.

  The list operations (\<open>FindStatusCondition\<close>, \<open>RemoveStatusCondition\<close>, \<open>SetStatusCondition\<close>) belong to
  apimachinery and are fields of the environment; \<open>conditions_contract\<close> states what their
  documentation promises and the code relies on.
\<close>

definition HasCondition :: "env \<Rightarrow> condition list \<Rightarrow> string \<Rightarrow> string \<Rightarrow> bool" where
  "HasCondition e conds t status =
     (case find_condition e conds t of None \<Rightarrow> False | Some c \<Rightarrow> co_status c = status)"

definition IsReady :: "env \<Rightarrow> condition list \<Rightarrow> bool" where
  "IsReady e conds = HasCondition e conds ConditionReady ConditionTrue"

definition IsTerminal :: "env \<Rightarrow> condition list \<Rightarrow> bool" where
  "IsTerminal e conds = (case find_condition e conds ConditionReady of None \<Rightarrow> False
     | Some c \<Rightarrow> co_status c = ConditionTrue \<or> co_status c = ConditionFalse)"

definition SetCondition ::
  "env \<Rightarrow> condition list \<Rightarrow> string \<Rightarrow> string \<Rightarrow> string \<Rightarrow> string \<Rightarrow> condition list" where
  "SetCondition e conds t status reason message =
     (let time = (case find_condition e conds t of
            Some c \<Rightarrow> if co_status c = status then co_time c else now e
          | None \<Rightarrow> now e);
          cond = \<lparr>co_type = t, co_status = status, co_reason = reason, co_message = message,
                  co_gen = 0, co_time = time\<rparr>
      in put_condition e (remove_condition e conds t) cond)"

definition same_condition :: "condition \<Rightarrow> condition \<Rightarrow> bool" where
  "same_condition c d = (co_status c = co_status d \<and> co_reason c = co_reason d \<and>
     co_message c = co_message d \<and> co_gen c = co_gen d)"

definition stamp_generation :: "string \<Rightarrow> int \<Rightarrow> condition \<Rightarrow> condition" where
  "stamp_generation t gen c = (if co_type c = t then c\<lparr>co_gen := gen\<rparr> else c)"

definition upsertContentCondition :: "env \<Rightarrow> condition list \<Rightarrow> condition \<Rightarrow> condition list \<times> bool" where
  "upsertContentCondition e conds desired =
     (case find_condition e conds (co_type desired) of
        Some cur \<Rightarrow> if same_condition cur desired then (conds, False)
          else (map (stamp_generation (co_type desired) (co_gen desired))
                  (SetCondition e conds (co_type desired) (co_status desired) (co_reason desired) (co_message desired)), True)
      | None \<Rightarrow> (map (stamp_generation (co_type desired) (co_gen desired))
                  (SetCondition e conds (co_type desired) (co_status desired) (co_reason desired) (co_message desired)), True))"

fun upsert_all :: "env \<Rightarrow> condition list \<Rightarrow> condition list \<Rightarrow> condition list \<times> bool" where
  "upsert_all e conds [] = (conds, False)"
| "upsert_all e conds (d # ds) =
     (let (conds', ch) = upsertContentCondition e conds d;
          (conds'', ch') = upsert_all e conds' ds
      in (conds'', ch \<or> ch'))"

section \<open>The contract of the list operations\<close>

definition conditions_contract :: "env \<Rightarrow> bool" where
  "conditions_contract e \<longleftrightarrow>
     (\<forall>cs t c. find_condition e cs t = Some c \<longrightarrow> co_type c = t) \<and>
     (\<forall>cs t. find_condition e (remove_condition e cs t) t = None) \<and>
     (\<forall>cs t u. u \<noteq> t \<longrightarrow> find_condition e (remove_condition e cs t) u = find_condition e cs u) \<and>
     (\<forall>cs c. find_condition e cs (co_type c) = None \<and> co_time c \<noteq> [] \<longrightarrow>
        find_condition e (put_condition e cs c) (co_type c) = Some c) \<and>
     (\<forall>cs c u. u \<noteq> co_type c \<longrightarrow> find_condition e (put_condition e cs c) u = find_condition e cs u) \<and>
     (\<forall>cs t f. (\<forall>c. co_type (f c) = co_type c) \<longrightarrow>
        find_condition e (map f cs) t = map_option f (find_condition e cs t))"

lemma contract_find: "conditions_contract e \<Longrightarrow> find_condition e cs t = Some c \<Longrightarrow> co_type c = t"
  by (simp add: conditions_contract_def)

lemma find_map_type:
  "conditions_contract e \<Longrightarrow> (\<And>c. co_type (f c) = co_type c) \<Longrightarrow>
   find_condition e (map f cs) t = map_option f (find_condition e cs t)"
  unfolding conditions_contract_def by blast

lemma stamp_type [simp]: "co_type (stamp_generation t g c) = co_type c"
  by (simp add: stamp_generation_def)

definition kept_time :: "env \<Rightarrow> condition list \<Rightarrow> string \<Rightarrow> string \<Rightarrow> string" where
  "kept_time e conds t status = (case find_condition e conds t of
      Some c \<Rightarrow> if co_status c = status then co_time c else now e | None \<Rightarrow> now e)"

lemma SetCondition_find:
  assumes "conditions_contract e" "kept_time e conds t status \<noteq> []"
  shows "find_condition e (SetCondition e conds t status reason message) t =
     Some \<lparr>co_type = t, co_status = status, co_reason = reason, co_message = message, co_gen = 0,
        co_time = kept_time e conds t status\<rparr>"
proof -
  let ?c = "\<lparr>co_type = t, co_status = status, co_reason = reason, co_message = message, co_gen = 0,
      co_time = kept_time e conds t status\<rparr>"
  have "find_condition e (put_condition e (remove_condition e conds t) ?c) (co_type ?c) = Some ?c"
    using assms unfolding conditions_contract_def by (metis condition.select_convs(1,6))
  then show ?thesis by (simp add: SetCondition_def Let_def kept_time_def)
qed

lemma SetCondition_find_other:
  assumes "conditions_contract e" "u \<noteq> t"
  shows "find_condition e (SetCondition e conds t status reason message) u = find_condition e conds u"
  using assms by (simp add: SetCondition_def Let_def conditions_contract_def)

lemma upsert_find_other:
  assumes "conditions_contract e" "u \<noteq> co_type d"
  shows "find_condition e (fst (upsertContentCondition e conds d)) u = find_condition e conds u"
proof -
  have "map_option (stamp_generation (co_type d) (co_gen d)) (find_condition e conds u) = find_condition e conds u"
    using contract_find [OF assms(1), of conds u] assms(2)
    by (cases "find_condition e conds u") (auto simp: stamp_generation_def)
  then show ?thesis
    using SetCondition_find_other [OF assms]
    by (simp add: upsertContentCondition_def find_map_type [OF assms(1)] split: option.splits)
qed

lemma upsert_find:
  assumes "conditions_contract e" "kept_time e conds (co_type d) (co_status d) \<noteq> []"
  shows "\<exists>c. find_condition e (fst (upsertContentCondition e conds d)) (co_type d) = Some c \<and>
     same_condition c d \<and> co_time c = kept_time e conds (co_type d) (co_status d)"
proof (cases "\<exists>c. find_condition e conds (co_type d) = Some c \<and> same_condition c d")
  case True
  then show ?thesis by (auto simp: upsertContentCondition_def kept_time_def same_condition_def)
next
  case False
  then have "fst (upsertContentCondition e conds d) = map (stamp_generation (co_type d) (co_gen d))
      (SetCondition e conds (co_type d) (co_status d) (co_reason d) (co_message d))"
    by (auto simp: upsertContentCondition_def split: option.splits)
  then show ?thesis using SetCondition_find [OF assms]
    by (simp add: find_map_type [OF assms(1)] same_condition_def stamp_generation_def)
qed

lemma upsert_unchanged:
  "\<not> snd (upsertContentCondition e conds d) \<Longrightarrow> fst (upsertContentCondition e conds d) = conds"
  by (auto simp: upsertContentCondition_def split: option.splits if_splits)

text \<open>Lists of conditions whose transition times are set: the ones the code itself writes.\<close>

definition stamped :: "env \<Rightarrow> condition list \<Rightarrow> bool" where
  "stamped e conds = (now e \<noteq> '''' \<and> (\<forall>t c. find_condition e conds t = Some c \<longrightarrow> co_time c \<noteq> ''''))"

lemma stamped_kept: "stamped e conds \<Longrightarrow> kept_time e conds t st \<noteq> []"
  by (auto simp: stamped_def kept_time_def split: option.splits)

lemma upsert_stamped:
  assumes "conditions_contract e" "stamped e conds"
  shows "stamped e (fst (upsertContentCondition e conds d))"
proof -
  note k = stamped_kept [OF assms(2)]
  have "find_condition e (fst (upsertContentCondition e conds d)) t = Some c \<Longrightarrow> co_time c \<noteq> ''''" for t c
    using upsert_find [OF assms(1) k, of d] upsert_find_other [OF assms(1), of t d conds] k assms(2)
    by (cases "t = co_type d") (auto simp: stamped_def)
  with assms(2) show ?thesis by (simp add: stamped_def)
qed

lemma upsert_all_step:
  "fst (upsert_all e conds (d # ds)) = fst (upsert_all e (fst (upsertContentCondition e conds d)) ds)"
  "snd (upsert_all e conds (d # ds)) =
     (snd (upsertContentCondition e conds d) \<or> snd (upsert_all e (fst (upsertContentCondition e conds d)) ds))"
  by (simp_all add: Let_def split: prod.splits)

lemma upsert_all_other:
  "conditions_contract e \<Longrightarrow> t \<notin> co_type ` set ds \<Longrightarrow>
   find_condition e (fst (upsert_all e conds ds)) t = find_condition e conds t"
proof (induction ds arbitrary: conds)
  case (Cons d ds)
  then show ?case using upsert_find_other [of e t d conds] unfolding upsert_all_step by simp
qed simp

lemma upsert_all_find:
  assumes "conditions_contract e" "stamped e conds" "distinct (map co_type ds)" "d \<in> set ds"
  shows "\<exists>c. find_condition e (fst (upsert_all e conds ds)) (co_type d) = Some c \<and> same_condition c d"
  using assms(2-4)
proof (induction ds arbitrary: conds)
  case (Cons d0 ds)
  let ?conds = "fst (upsertContentCondition e conds d0)"
  have step: "fst (upsert_all e conds (d0 # ds)) = fst (upsert_all e ?conds ds)"
    by (rule upsert_all_step)
  show ?case
  proof (cases "d = d0")
    case True
    then have "co_type d \<notin> co_type ` set ds" using Cons.prems by auto
    then show ?thesis
      using upsert_all_other [OF assms(1)] upsert_find [OF assms(1) stamped_kept [OF Cons.prems(1)], of d]
      unfolding step True by auto
  next
    case False
    then show ?thesis
      using Cons.IH [OF upsert_stamped [OF assms(1) Cons.prems(1)], of d0] Cons.prems unfolding step by auto
  qed
qed simp

lemma upsert_all_settled:
  "\<forall>d\<in>set ds. \<exists>c. find_condition e conds (co_type d) = Some c \<and> same_condition c d \<Longrightarrow>
   upsert_all e conds ds = (conds, False)"
  by (induction ds) (auto simp: upsertContentCondition_def)

lemma upsert_all_again:
  assumes "conditions_contract e" "stamped e conds" "distinct (map co_type ds)"
  shows "upsert_all e (fst (upsert_all e conds ds)) ds = (fst (upsert_all e conds ds), False)"
  using upsert_all_find [OF assms] by (intro upsert_all_settled) blast

lemma upsert_all_unchanged: "\<not> snd (upsert_all e conds ds) \<Longrightarrow> fst (upsert_all e conds ds) = conds"
proof (induction ds arbitrary: conds)
  case (Cons d ds)
  then show ?case using upsert_unchanged [of e conds d] unfolding upsert_all_step by simp
qed simp

section \<open>Properties\<close>

text \<open>
  Upserting a condition makes the object carry exactly the wanted status, reason, message and
  generation; the transition time is kept when the status does not change and is the current time
  otherwise; every condition of another type is untouched; and a second upsert of the same condition
  reports no change and writes nothing.
\<close>

theorem upsert_condition_exact:
  assumes "conditions_contract e" and "now e \<noteq> []" and "\<forall>c. find_condition e conds (co_type d) = Some c \<longrightarrow> co_time c \<noteq> []"
    and "upsertContentCondition e conds d = (conds', ch)"
  shows "(\<exists>c. find_condition e conds' (co_type d) = Some c \<and> same_condition c d \<and>
        co_time c = (case find_condition e conds (co_type d) of
          Some c0 \<Rightarrow> if co_status c0 = co_status d then co_time c0 else now e | None \<Rightarrow> now e)) \<and>
     (\<forall>u. u \<noteq> co_type d \<longrightarrow> find_condition e conds' u = find_condition e conds u) \<and>
     (\<not> ch \<longrightarrow> conds' = conds) \<and>
     upsertContentCondition e conds' d = (conds', False)"
proof -
  have t: "kept_time e conds (co_type d) (co_status d) \<noteq> []"
    using assms(2,3) by (auto simp: kept_time_def split: option.splits)
  obtain c where c: "find_condition e conds' (co_type d) = Some c" "same_condition c d"
      "co_time c = kept_time e conds (co_type d) (co_status d)"
    using upsert_find [OF assms(1) t] assms(4) by auto
  moreover have "upsertContentCondition e conds' d = (conds', False)"
    using c by (simp add: upsertContentCondition_def)
  moreover have "\<forall>u. u \<noteq> co_type d \<longrightarrow> find_condition e conds' u = find_condition e conds u"
    using upsert_find_other [OF assms(1)] assms(4) by (metis fst_conv)
  moreover have "\<not> ch \<longrightarrow> conds' = conds"
    using upsert_unchanged [of e conds d] assms(4) by simp
  ultimately show ?thesis unfolding kept_time_def by blast
qed

text \<open>A list implementation that meets the contract, and an environment built on it.\<close>

definition list_put :: "condition list \<Rightarrow> condition \<Rightarrow> condition list" where
  "list_put cs c = (if \<exists>d\<in>set cs. co_type d = co_type c
     then map (\<lambda>d. if co_type d = co_type c then c else d) cs else cs @ [c])"

definition sample_env :: env where
  "sample_env = \<lparr>find_condition = (\<lambda>cs t. List.find (\<lambda>c. co_type c = t) cs),
     remove_condition = (\<lambda>cs t. filter (\<lambda>c. co_type c \<noteq> t) cs), put_condition = list_put,
     now = ''2026-01-01T00:00:00Z'', gvk_of = (\<lambda>av k. parseGVK k av),
     e_content = (\<lambda>_. NotFound), live_content = (\<lambda>_. NotFound),
     e_snapshot = (\<lambda>_ _ _ _. NotFound), live_snapshot = (\<lambda>_ _ _ _. NotFound), e_vsc = (\<lambda>_. NotFound),
     e_mcp = (\<lambda>_. NotFound), live_mcp = (\<lambda>_. NotFound), live_chunk = (\<lambda>_. NotFound),
     e_mcr = (\<lambda>_ _. NotFound), patch_mcp = (\<lambda>_ _. None), e_pvc = (\<lambda>_ _. NotFound),
     live_pv = (\<lambda>_. NotFound), e_vcr = (\<lambda>_ _. NotFound), e_data_imports = (\<lambda>_. Inr []),
     patch_vsc = (\<lambda>_. None), patch_content = (\<lambda>_. None), patch_snapshot = (\<lambda>_ _. None),
     binary_quantity = (\<lambda>n. show_nat (nat n)), parse_gv_error = (\<lambda>_. None),
     gv_string = (\<lambda>g. if g_group g = '''' then g_version g else g_group g @ ''/'' @ g_version g)\<rparr>"

definition sample_content :: snapshot_content where
  "sample_content = \<lparr>ct_name = ''content'', ct_uid = ''uid'', ct_generation = 1, ct_deleting = False,
     ct_finalizers = [], ct_owner_refs = [], ct_snapshot_ref = zero_subject_ref, ct_conditions = [], ct_mcp_name = NAbsent,
     ct_data = None, ct_edges = NAbsent, ct_subtree_persisted = False, ct_excluded = [], ct_bound_deleted = False,
     ct_status_present = True\<rparr>"

lemma find_filter_ne:
  "List.find (\<lambda>c. co_type c = u) (filter (\<lambda>c. co_type c \<noteq> t) cs) =
   (if u = t then None else List.find (\<lambda>c. co_type c = u) cs)"
  by (induction cs) auto

lemma find_list_put_other:
  "u \<noteq> co_type c \<Longrightarrow> List.find (\<lambda>d. co_type d = u) (list_put cs c) = List.find (\<lambda>d. co_type d = u) cs"
proof -
  assume u: "u \<noteq> co_type c"
  have "List.find (\<lambda>d. co_type d = u) (cs @ [c]) = List.find (\<lambda>d. co_type d = u) cs"
    using u by (induction cs) auto
  moreover have "List.find (\<lambda>d. co_type d = u) (map (\<lambda>d. if co_type d = co_type c then c else d) cs) =
      List.find (\<lambda>d. co_type d = u) cs"
    using u by (induction cs) auto
  ultimately show ?thesis by (simp add: list_put_def)
qed

lemma find_list_put_new:
  "List.find (\<lambda>d. co_type d = co_type c) cs = None \<Longrightarrow>
   List.find (\<lambda>d. co_type d = co_type c) (list_put cs c) = Some c"
proof -
  assume a: "List.find (\<lambda>d. co_type d = co_type c) cs = None"
  then have "\<not> (\<exists>d\<in>set cs. co_type d = co_type c)" by (auto simp: find_None_iff)
  moreover have "List.find (\<lambda>d. co_type d = co_type c) (cs @ [c]) = Some c"
    using a by (induction cs) (auto split: if_splits)
  ultimately show ?thesis by (simp add: list_put_def)
qed

lemma find_map_same_type:
  "(\<And>c. co_type (f c) = co_type c) \<Longrightarrow>
   List.find (\<lambda>c. co_type c = t) (map f cs) = map_option f (List.find (\<lambda>c. co_type c = t) cs)"
  by (induction cs) auto

lemma sample_env_contract: "conditions_contract sample_env"
  by (auto simp: conditions_contract_def sample_env_def find_filter_ne find_list_put_other
      find_list_put_new find_map_same_type find_Some_iff)

lemma upsert_condition_exact_witness:
  "\<exists>conds'. upsertContentCondition sample_env [] \<lparr>co_type = ''Ready'', co_status = ''True'', co_reason = ''Completed'',
      co_message = '''', co_gen = 3, co_time = ''''\<rparr> = (conds', True) \<and>
   upsertContentCondition sample_env conds' \<lparr>co_type = ''Ready'', co_status = ''True'', co_reason = ''Completed'',
      co_message = '''', co_gen = 3, co_time = ''''\<rparr> = (conds', False)"
proof -
  obtain conds' where u: "upsertContentCondition sample_env [] \<lparr>co_type = ''Ready'', co_status = ''True'',
      co_reason = ''Completed'', co_message = '''', co_gen = 3, co_time = ''''\<rparr> = (conds', True)"
    by (simp add: upsertContentCondition_def sample_env_def)
  show ?thesis
    using upsert_condition_exact [OF sample_env_contract _ _ u] u by (auto simp: sample_env_def)
qed

end
