(* ===== verification/Diagnostics.thy ===== *)
theory Diagnostics
  imports Prelude
begin

text \<open>
  The messages of the SnapshotContent aggregation (\<open>snapshotcontent/diagnostics.go\<close>): the progress
  fragment of a pending leg and the message that carries a failed leaf up the tree, with its parser.
  The parser is the regular expression of the source, in which every repetition is delimited by a
  character it cannot match, so that matching is a single pass.
\<close>

section \<open>Progress\<close>

abbreviation "maxPendingListItems \<equiv> (5::nat)"

definition formatReadyProgress :: "nat \<Rightarrow> nat \<Rightarrow> string list \<Rightarrow> string" where
  "formatReadyProgress ready tot pending =
     (let out = show_nat ready @ ''/'' @ show_nat tot @ '' ready'' in
      if pending = [] then out
      else let shown = (if length pending > maxPendingListItems then take maxPendingListItems pending else pending);
               extra = (if length pending > maxPendingListItems then length pending - maxPendingListItems else 0);
               out = out @ ''; pending: '' @ str_join '', '' shown
           in if extra > 0 then out @ '' (+'' @ show_nat extra @ '' more)'' else out)"

section \<open>The failed leaf\<close>

definition buildChildrenFailedMessage :: "string \<Rightarrow> string \<Rightarrow> string \<Rightarrow> string \<Rightarrow> string" where
  "buildChildrenFailedMessage directChild leaf reason message =
     ''child SnapshotContent '' @ directChild @ '' failed: leaf='' @ leaf @ '' reason='' @ reason @
     '' message='' @ message"

text \<open>\<open>\S\<close> of the \<open>regexp\<close> package.\<close>

definition re_nonspace :: "char \<Rightarrow> bool" where
  "re_nonspace c = (c \<notin> {CHR '' '', CHR 0x09, CHR 0x0A, CHR 0x0C, CHR 0x0D})"

text \<open>\<open>\S+\<close> followed by a literal that starts with a space.\<close>

definition re_token :: "string \<Rightarrow> string \<Rightarrow> (string \<times> string) option" where
  "re_token lit s =
     (let tok = takeWhile re_nonspace s in
      if tok = [] then None
      else case strip_prefix lit (dropWhile re_nonspace s) of None \<Rightarrow> None | Some r \<Rightarrow> Some (tok, r))"

definition parseChildrenFailedLeaf :: "string \<Rightarrow> (string \<times> string \<times> string) option" where
  "parseChildrenFailedLeaf message =
     (case strip_prefix ''child SnapshotContent '' message of None \<Rightarrow> None | Some s1 \<Rightarrow>
     (case re_token '' failed: leaf='' s1 of None \<Rightarrow> None | Some (_, s2) \<Rightarrow>
     (case re_token '' reason='' s2 of None \<Rightarrow> None | Some (leaf, s3) \<Rightarrow>
     (case re_token '' message='' s3 of None \<Rightarrow> None | Some (reason, msg) \<Rightarrow>
        if CHR 0x0A \<in> set msg then None else Some (leaf, reason, msg)))))"

section \<open>Tokens\<close>

definition is_token :: "string \<Rightarrow> bool" where
  "is_token s = (s \<noteq> [] \<and> list_all re_nonspace s)"

lemma re_token_iff:
  "re_token (CHR '' '' # lit) s = Some (tok, r) \<longleftrightarrow> is_token tok \<and> s = tok @ CHR '' '' # lit @ r"
proof
  assume "re_token (CHR '' '' # lit) s = Some (tok, r)"
  then have "tok = takeWhile re_nonspace s" "tok \<noteq> []" "dropWhile re_nonspace s = CHR '' '' # lit @ r"
    by (auto simp: re_token_def Let_def strip_prefix_eq_Some split: if_splits option.splits)
  then show "is_token tok \<and> s = tok @ CHR '' '' # lit @ r"
    by (metis is_token_def list_all_iff set_takeWhileD takeWhile_dropWhile_id)
next
  assume a: "is_token tok \<and> s = tok @ CHR '' '' # lit @ r"
  have "takeWhile re_nonspace s = tok" "dropWhile re_nonspace s = CHR '' '' # lit @ r"
    using a by (auto simp: is_token_def list_all_iff takeWhile_append dropWhile_append re_nonspace_def)
  then show "re_token (CHR '' '' # lit) s = Some (tok, r)"
    using a by (auto simp: re_token_def is_token_def strip_prefix_eq_Some)
qed

lemma re_token_step [simp]:
  assumes "is_token tok"
  shows "re_token (CHR '' '' # lit) (tok @ CHR '' '' # s) = map_option (Pair tok) (strip_prefix lit s)"
proof (cases "strip_prefix lit s")
  case None
  then have "re_token (CHR '' '' # lit) (tok @ CHR '' '' # s) \<noteq> Some (t, r)" for t r
    using assms by (auto simp: re_token_iff append_sep_eq is_token_def list_all_iff re_nonspace_def strip_prefix_eq_None
        dest: append_sep_eq [THEN iffD1, rotated 2])
  then show ?thesis using None by (metis not_Some_eq option.map_disc_iff prod.exhaust)
next
  case (Some r)
  then show ?thesis using assms re_token_iff [of lit "tok @ CHR '' '' # s" tok r] by (simp add: strip_prefix_eq_Some)
qed

text \<open>The parser accepts exactly the messages the builder makes of tokens and a one-line message.\<close>

lemma parse_build:
  "is_token child \<Longrightarrow> is_token leaf \<Longrightarrow> is_token reason \<Longrightarrow> CHR 0x0A \<notin> set msg \<Longrightarrow>
   parseChildrenFailedLeaf (buildChildrenFailedMessage child leaf reason msg) = Some (leaf, reason, msg)"
  by (simp add: parseChildrenFailedLeaf_def buildChildrenFailedMessage_def)

lemma parse_SomeD:
  assumes "parseChildrenFailedLeaf s = Some (leaf, reason, msg)"
  shows "is_token leaf \<and> is_token reason \<and> CHR 0x0A \<notin> set msg \<and>
    (\<exists>child. is_token child \<and> s = buildChildrenFailedMessage child leaf reason msg)"
  using assms
  by (auto simp: parseChildrenFailedLeaf_def buildChildrenFailedMessage_def strip_prefix_eq_Some
      re_token_iff split: option.splits if_splits prod.splits)

lemma parse_build_newline:
  "is_token child \<Longrightarrow> is_token leaf \<Longrightarrow> is_token reason \<Longrightarrow> CHR 0x0A \<in> set msg \<Longrightarrow>
   parseChildrenFailedLeaf (buildChildrenFailedMessage child leaf reason msg) = None"
  by (simp add: parseChildrenFailedLeaf_def buildChildrenFailedMessage_def)

end
