(* ===== verification/Data_Readiness.thy ===== *)
theory Data_Readiness
  imports Conditions Diagnostics
begin

text \<open>
  Readiness of the data leg (\<open>snapshotcontent/data_readiness.go\<close>): one published binding is judged
  from the live VolumeSnapshotContent, the verdicts of all bindings are collected into buckets, and
  the most severe non-empty bucket is the reason of the leg.
\<close>

abbreviation "kindVolumeSnapshotContent \<equiv> ''VolumeSnapshotContent''"
abbreviation "volumeSnapshotContentAPIVersion \<equiv> ''snapshot.storage.k8s.io/v1''"

definition dataArtifactExecutionRequestKinds :: "string set" where
  "dataArtifactExecutionRequestKinds =
     {''VolumeCaptureRequest'', ''ManifestCaptureRequest'', ''DataExport'', ''DataImport''}"

type_synonym verdict = "bool \<times> string \<times> string"

definition checkVolumeSnapshotContentReadiness :: "env \<Rightarrow> string \<Rightarrow> verdict res" where
  "checkVolumeSnapshotContentReadiness e name =
     (case e_vsc e name of
        NotFound \<Rightarrow> Inr (False, ReasonArtifactMissing, ''VolumeSnapshotContent '' @ name @ '' not found'')
      | GetErr x \<Rightarrow> Inl (Wrap (''get VolumeSnapshotContent '' @ name) (ClientError x))
      | Found v \<Rightarrow>
          if vs_deleting v
          then Inr (False, ReasonArtifactMissing, ''VolumeSnapshotContent '' @ name @ '' is being deleted'')
          else (case vs_ready v of
             NBadType \<Rightarrow> Inl (Wrap (''read VolumeSnapshotContent '' @ name @ '' status.readyToUse'')
               (FieldError ''status.readyToUse''))
           | NAbsent \<Rightarrow> Inr (False, ReasonArtifactNotReady, ''VolumeSnapshotContent '' @ name @ '' is not readyToUse'')
           | NVal readyToUse \<Rightarrow>
               if \<not> readyToUse
               then Inr (False, ReasonArtifactNotReady, ''VolumeSnapshotContent '' @ name @ '' is not readyToUse'')
               else Inr (True, '''', '''')))"

definition resolveOneDataBindingReadiness :: "env \<Rightarrow> data_binding \<Rightarrow> verdict res" where
  "resolveOneDataBindingReadiness e binding =
     (let art = ArtifactRef binding;
          uid = sr_uid (SourceRef binding);
          targetKey = (if uid = '''' then ar_name art else uid) in
      if ar_apiVersion art = '''' \<or> ar_kind art = '''' \<or> ar_name art = ''''
      then Inr (False, ReasonDataArtifactInvalid,
        ''dataRefs artifact must set apiVersion, kind, and name (targetUID='' @ targetKey @ '')'')
      else if ar_kind art \<in> dataArtifactExecutionRequestKinds
      then Inr (False, ReasonDataArtifactNotSupported, ''execution request '' @ ar_kind art @
        '' is not a durable data artifact (targetUID='' @ targetKey @ '')'')
      else if ar_kind art \<noteq> kindVolumeSnapshotContent
      then Inr (False, ReasonDataArtifactNotSupported, ''unsupported data artifact kind '' @ ar_kind art @
        '' (targetUID='' @ targetKey @ '')'')
      else if ar_apiVersion art \<noteq> volumeSnapshotContentAPIVersion
      then Inr (False, ReasonDataArtifactNotSupported, ''unsupported VolumeSnapshotContent apiVersion '' @
        ar_apiVersion art @ '' (targetUID='' @ targetKey @ '')'')
      else checkVolumeSnapshotContentReadiness e (ar_name art))"

record buckets =
  b_invalid :: "string list"
  b_unsupported :: "string list"
  b_missing :: "string list"
  b_notReady :: "string list"

definition add_to_bucket :: "data_binding \<Rightarrow> string \<Rightarrow> string \<Rightarrow> buckets \<Rightarrow> buckets" where
  "add_to_bucket binding reason msg b =
     (let shown = (if ar_name (ArtifactRef binding) \<noteq> '''' then ar_name (ArtifactRef binding) else msg) in
      if reason = ReasonDataArtifactInvalid then b\<lparr>b_invalid := b_invalid b @ [msg]\<rparr>
      else if reason = ReasonDataArtifactNotSupported then b\<lparr>b_unsupported := b_unsupported b @ [msg]\<rparr>
      else if reason = ReasonArtifactMissing then b\<lparr>b_missing := b_missing b @ [shown]\<rparr>
      else if reason = ReasonArtifactNotReady then b\<lparr>b_notReady := b_notReady b @ [shown]\<rparr>
      else b\<lparr>b_notReady := b_notReady b @ [msg]\<rparr>)"

fun collect_bindings :: "env \<Rightarrow> data_binding list \<Rightarrow> buckets \<Rightarrow> buckets res" where
  "collect_bindings e [] b = Inr b"
| "collect_bindings e (binding # refs) b =
     (case resolveOneDataBindingReadiness e binding of
        Inl x \<Rightarrow> Inl x
      | Inr (ready, reason, msg) \<Rightarrow>
          if ready then collect_bindings e refs b
          else collect_bindings e refs (add_to_bucket binding reason msg b))"

definition resolveDataBindings :: "env \<Rightarrow> data_binding list \<Rightarrow> verdict res" where
  "resolveDataBindings e refs =
     (if refs = [] then Inr (True, '''', '''')
      else case collect_bindings e refs \<lparr>b_invalid = [], b_unsupported = [], b_missing = [], b_notReady = []\<rparr> of
        Inl x \<Rightarrow> Inl x
      | Inr b \<Rightarrow>
          if b_invalid b \<noteq> [] then Inr (False, ReasonDataArtifactInvalid, str_join ''; '' (b_invalid b))
          else if b_unsupported b \<noteq> []
          then Inr (False, ReasonDataArtifactNotSupported, str_join ''; '' (b_unsupported b))
          else if b_missing b \<noteq> []
          then Inr (False, ReasonArtifactMissing, ''data artifact(s) missing: '' @ str_join '', '' (b_missing b))
          else if b_notReady b \<noteq> []
          then Inr (False, ReasonDataCapturePending, ''waiting for volume snapshot artifacts: '' @
            formatReadyProgress (length refs - length (b_notReady b)) (length refs) (b_notReady b))
          else Inr (True, '''', ''''))"

definition GetStatusDataRefs :: "snapshot_content \<Rightarrow> data_binding list" where
  "GetStatusDataRefs c = (case ct_data c of None \<Rightarrow> [] | Some b \<Rightarrow> [b])"

definition resolveDataReadiness :: "env \<Rightarrow> snapshot_content \<Rightarrow> verdict res" where
  "resolveDataReadiness e c = resolveDataBindings e (GetStatusDataRefs c)"

definition terminalDataFailureReasons :: "string set" where
  "terminalDataFailureReasons =
     {ReasonDataArtifactInvalid, ReasonDataArtifactNotSupported, ReasonArtifactMissing}"

definition isTerminalDataFailure :: "string \<Rightarrow> bool" where
  "isTerminalDataFailure reason = (reason \<in> terminalDataFailureReasons)"

section \<open>The verdict of one binding\<close>

definition durable :: "env \<Rightarrow> data_binding \<Rightarrow> bool" where
  "durable e b = (ar_apiVersion (ArtifactRef b) = volumeSnapshotContentAPIVersion \<and>
     ar_kind (ArtifactRef b) = kindVolumeSnapshotContent \<and> ar_name (ArtifactRef b) \<noteq> '''' \<and>
     (case e_vsc e (ar_name (ArtifactRef b)) of Found v \<Rightarrow> \<not> vs_deleting v \<and> vs_ready v = NVal True | _ \<Rightarrow> False))"

lemma one_verdict:
  assumes "resolveOneDataBindingReadiness e b = Inr (ready, reason, msg)"
  shows "ready = durable e b"
    and "\<not> ready \<Longrightarrow> reason \<in> {ReasonDataArtifactInvalid, ReasonDataArtifactNotSupported,
      ReasonArtifactMissing, ReasonArtifactNotReady}"
  using assms
  by (auto simp: resolveOneDataBindingReadiness_def checkVolumeSnapshotContentReadiness_def durable_def
      dataArtifactExecutionRequestKinds_def Let_def split: if_splits get_res.splits nested.splits)

definition verdicts :: "env \<Rightarrow> data_binding list \<Rightarrow> string set" where
  "verdicts e refs = {reason. \<exists>b\<in>set refs. \<exists>msg. resolveOneDataBindingReadiness e b = Inr (False, reason, msg)}"

lemma verdicts_simps:
  "verdicts e [] = {}"
  "resolveOneDataBindingReadiness e b = Inr (ready, reason, msg) \<Longrightarrow>
   verdicts e (b # refs) = (if ready then {} else {reason}) \<union> verdicts e refs"
  by (auto simp: verdicts_def)

lemma collect_bindings_buckets:
  "collect_bindings e refs b0 = Inr b \<Longrightarrow>
   (b_invalid b \<noteq> [] \<longleftrightarrow> b_invalid b0 \<noteq> [] \<or> ReasonDataArtifactInvalid \<in> verdicts e refs) \<and>
   (b_unsupported b \<noteq> [] \<longleftrightarrow> b_unsupported b0 \<noteq> [] \<or> ReasonDataArtifactNotSupported \<in> verdicts e refs) \<and>
   (b_missing b \<noteq> [] \<longleftrightarrow> b_missing b0 \<noteq> [] \<or> ReasonArtifactMissing \<in> verdicts e refs) \<and>
   (b_notReady b \<noteq> [] \<longleftrightarrow> b_notReady b0 \<noteq> [] \<or> ReasonArtifactNotReady \<in> verdicts e refs)"
proof (induction e refs b0 rule: collect_bindings.induct)
  case (1 e b)
  then show ?case by (simp add: verdicts_simps)
next
  case (2 e x refs b0)
  obtain ready reason msg where one: "resolveOneDataBindingReadiness e x = Inr (ready, reason, msg)"
    using 2(3) by (auto split: sum.splits)
  show ?case
  proof (cases ready)
    case True
    then show ?thesis using 2 one by (simp add: verdicts_simps(2) [OF one])
  next
    case False
    have "collect_bindings e refs (add_to_bucket x reason msg b0) = Inr b" using 2(3) one False by simp
    note IH = 2(2) [OF one refl refl False this]
    show ?thesis
      using IH one_verdict(2) [OF one False] False
      by (auto simp: verdicts_simps(2) [OF one] add_to_bucket_def Let_def)
  qed
qed

lemma collect_bindings_total:
  "(\<exists>b. collect_bindings e refs b0 = Inr b) \<longleftrightarrow> (\<forall>x\<in>set refs. \<exists>v. resolveOneDataBindingReadiness e x = Inr v)"
  by (induction e refs b0 rule: collect_bindings.induct) (auto split: sum.splits)

lemma resolveDataBindings_reason:
  assumes "resolveDataBindings e refs = Inr (ready, reason, msg)"
  shows "ready = (verdicts e refs = {})"
    and "reason = (if ReasonDataArtifactInvalid \<in> verdicts e refs then ReasonDataArtifactInvalid
       else if ReasonDataArtifactNotSupported \<in> verdicts e refs then ReasonDataArtifactNotSupported
       else if ReasonArtifactMissing \<in> verdicts e refs then ReasonArtifactMissing
       else if verdicts e refs \<noteq> {} then ReasonDataCapturePending else '''')"
proof -
  have sub: "verdicts e refs \<subseteq> {ReasonDataArtifactInvalid, ReasonDataArtifactNotSupported,
      ReasonArtifactMissing, ReasonArtifactNotReady}"
    using one_verdict(2) by (fastforce simp: verdicts_def)
  have "ready = (verdicts e refs = {}) \<and> reason = (if ReasonDataArtifactInvalid \<in> verdicts e refs then ReasonDataArtifactInvalid
       else if ReasonDataArtifactNotSupported \<in> verdicts e refs then ReasonDataArtifactNotSupported
       else if ReasonArtifactMissing \<in> verdicts e refs then ReasonArtifactMissing
       else if verdicts e refs \<noteq> {} then ReasonDataCapturePending else '''')"
  proof (cases "refs = []")
    case True
    then show ?thesis using assms by (simp add: resolveDataBindings_def verdicts_simps)
  next
    case False
    then obtain b where b: "collect_bindings e refs \<lparr>b_invalid = [], b_unsupported = [], b_missing = [], b_notReady = []\<rparr> = Inr b"
      using assms by (auto simp: resolveDataBindings_def split: sum.splits)
    have any: "verdicts e refs \<noteq> {} \<longleftrightarrow> ReasonDataArtifactInvalid \<in> verdicts e refs \<or>
        ReasonDataArtifactNotSupported \<in> verdicts e refs \<or> ReasonArtifactMissing \<in> verdicts e refs \<or>
        ReasonArtifactNotReady \<in> verdicts e refs"
      using sub by blast
    have "(if b_invalid b \<noteq> [] then Inr (False, ReasonDataArtifactInvalid, str_join ''; '' (b_invalid b))
          else if b_unsupported b \<noteq> []
          then Inr (False, ReasonDataArtifactNotSupported, str_join ''; '' (b_unsupported b))
          else if b_missing b \<noteq> []
          then Inr (False, ReasonArtifactMissing, ''data artifact(s) missing: '' @ str_join '', '' (b_missing b))
          else if b_notReady b \<noteq> []
          then Inr (False, ReasonDataCapturePending, ''waiting for volume snapshot artifacts: '' @
            formatReadyProgress (length refs - length (b_notReady b)) (length refs) (b_notReady b))
          else Inr (True, '''', '''')) = (Inr (ready, reason, msg) :: verdict res)"
      using assms False b by (simp only: resolveDataBindings_def sum.case if_False)
    with collect_bindings_buckets [OF b] any show ?thesis
      by (simp only: buckets.simps simp_thms split: if_splits) (simp_all only: sum.inject prod.inject simp_thms if_True if_False)
  qed
  then show "ready = (verdicts e refs = {})"
    "reason = (if ReasonDataArtifactInvalid \<in> verdicts e refs then ReasonDataArtifactInvalid
       else if ReasonDataArtifactNotSupported \<in> verdicts e refs then ReasonDataArtifactNotSupported
       else if ReasonArtifactMissing \<in> verdicts e refs then ReasonArtifactMissing
       else if verdicts e refs \<noteq> {} then ReasonDataCapturePending else '''')"
    by auto
qed

lemma resolveDataBindings_total:
  "(\<exists>v. resolveDataBindings e refs = Inr v) \<longleftrightarrow> (\<forall>x\<in>set refs. \<exists>v. resolveOneDataBindingReadiness e x = Inr v)"
proof (cases "refs = []")
  case True
  then show ?thesis by (auto simp: resolveDataBindings_def)
next
  case False
  have "(\<exists>v. resolveDataBindings e refs = Inr v) \<longleftrightarrow> (\<exists>b. collect_bindings e refs
      \<lparr>b_invalid = [], b_unsupported = [], b_missing = [], b_notReady = []\<rparr> = Inr b)"
    using False by (auto simp: resolveDataBindings_def split: sum.splits)
  then show ?thesis by (simp only: collect_bindings_total)
qed

lemma verdicts_set: "set refs = set refs' \<Longrightarrow> verdicts e refs = verdicts e refs'"
  by (simp add: verdicts_def)

lemma verdicts_empty:
  "\<forall>x\<in>set refs. \<exists>v. resolveOneDataBindingReadiness e x = Inr v \<Longrightarrow>
   verdicts e refs = {} \<longleftrightarrow> (\<forall>b\<in>set refs. durable e b)"
proof
  assume t: "\<forall>x\<in>set refs. \<exists>v. resolveOneDataBindingReadiness e x = Inr v" and v: "verdicts e refs = {}"
  show "\<forall>b\<in>set refs. durable e b"
  proof
    fix b assume b: "b \<in> set refs"
    then obtain ready reason msg where one: "resolveOneDataBindingReadiness e b = Inr (ready, reason, msg)"
      using t by (metis prod.exhaust)
    have ready using v b one by (cases ready) (auto simp: verdicts_def)
    then show "durable e b" using one_verdict(1) [OF one] by simp
  qed
next
  assume t: "\<forall>b\<in>set refs. durable e b"
  then show "verdicts e refs = {}" unfolding verdicts_def using one_verdict(1) by blast
qed

section \<open>Properties\<close>

text \<open>
  The data leg is ready exactly when every published binding is durable: its artifact is a
  VolumeSnapshotContent that exists, is not being deleted and reports readyToUse. Otherwise the reason
  is the most severe one among the verdicts (invalid, then unsupported, then missing, then pending), it
  is terminal exactly when some single verdict is, and neither depends on the order of the bindings.
\<close>

theorem data_leg_verdict:
  assumes "resolveDataBindings e refs = Inr (ready, reason, msg)"
  shows "(ready \<longleftrightarrow> (\<forall>b\<in>set refs. durable e b)) \<and>
     reason = (if ReasonDataArtifactInvalid \<in> verdicts e refs then ReasonDataArtifactInvalid
       else if ReasonDataArtifactNotSupported \<in> verdicts e refs then ReasonDataArtifactNotSupported
       else if ReasonArtifactMissing \<in> verdicts e refs then ReasonArtifactMissing
       else if ready then '''' else ReasonDataCapturePending) \<and>
     (isTerminalDataFailure reason \<longleftrightarrow> verdicts e refs \<inter> terminalDataFailureReasons \<noteq> {}) \<and>
     (\<forall>refs'. set refs' = set refs \<longrightarrow> (\<exists>msg'. resolveDataBindings e refs' = Inr (ready, reason, msg')))"
proof -
  note v = resolveDataBindings_reason [OF assms]
  have tot: "\<forall>x\<in>set refs. \<exists>v. resolveOneDataBindingReadiness e x = Inr v"
    using assms resolveDataBindings_total by metis
  have term_iff: "isTerminalDataFailure reason \<longleftrightarrow> verdicts e refs \<inter> terminalDataFailureReasons \<noteq> {}"
    by (auto simp: v(2) isTerminalDataFailure_def terminalDataFailureReasons_def)
  have "\<exists>msg'. resolveDataBindings e refs' = Inr (ready, reason, msg')" if "set refs' = set refs" for refs'
  proof -
    have "\<exists>v. resolveDataBindings e refs' = Inr v" using tot that resolveDataBindings_total by metis
    then obtain ready' reason' msg' where r: "resolveDataBindings e refs' = Inr (ready', reason', msg')"
      by (metis prod.exhaust)
    with v resolveDataBindings_reason [OF r] verdicts_set [OF that] show ?thesis by metis
  qed
  with v term_iff verdicts_empty [OF tot] show ?thesis by simp
qed

definition sample_binding :: "string \<Rightarrow> data_binding" where
  "sample_binding n = \<lparr>SourceRef = zero_subject_ref,
     ArtifactRef = \<lparr>ar_apiVersion = volumeSnapshotContentAPIVersion, ar_kind = kindVolumeSnapshotContent,
       ar_name = n, ar_uid = ''''\<rparr>, VolumeMode = '''', FsType = '''', StorageClassName = '''', Size = ''''\<rparr>"

lemma data_leg_verdict_witness:
  "\<exists>msg. resolveDataBindings sample_env [sample_binding ''vsc-1''] = Inr (False, ReasonArtifactMissing, msg) \<and>
     \<not> durable sample_env (sample_binding ''vsc-1'')"
proof -
  obtain msg where r: "resolveDataBindings sample_env [sample_binding ''vsc-1''] = Inr (False, ReasonArtifactMissing, msg)"
    by (simp add: resolveDataBindings_def resolveOneDataBindingReadiness_def sample_binding_def sample_env_def
        checkVolumeSnapshotContentReadiness_def dataArtifactExecutionRequestKinds_def add_to_bucket_def Let_def)
  from data_leg_verdict [OF r] r show ?thesis by auto
qed

end
