(* ===== verification/Content_Children.thy ===== *)
theory Content_Children
  imports Data_Readiness
begin

text \<open>
  The children leg of a SnapshotContent (\<open>snapshotcontent/controller.go\<close> and
  \<open>usecase/child_snapshot_resolve.go\<close>): the walk over the published child edges, the declared child
  set of the owning snapshot, the fail-closed comparison of the two, and the failure message that
  names the original leaf.
\<close>

section \<open>Resolving a declared child\<close>

datatype resolve_err = ChildSnapshotNotFound | ChildNotBound | ResolveFailed err

type_synonym snapshot_reader = "string \<Rightarrow> string \<Rightarrow> string \<Rightarrow> string \<Rightarrow> snapshot_obj get_res"

definition RefGVK :: "env \<Rightarrow> snapshot_child_ref \<Rightarrow> gvk res" where
  "RefGVK e ref =
     (if cr_apiVersion ref = '''' \<or> cr_kind ref = '''' \<or> cr_name ref = ''''
      then Inl (Errorf ''childrenSnapshotRefs entry must set apiVersion, kind, and name'')
      else let gvk = gvk_of e (cr_apiVersion ref) (cr_kind ref) in
        if g_kind gvk = '''' \<or> g_version gvk = ''''
        then Inl (Errorf ''childrenSnapshotRefs apiVersion/kind: unresolved GVK'')
        else Inr gvk)"

definition GetChildSnapshot ::
  "env \<Rightarrow> snapshot_reader \<Rightarrow> snapshot_child_ref \<Rightarrow> string \<Rightarrow> resolve_err + snapshot_obj" where
  "GetChildSnapshot e rd ref parentSnapshotNamespace =
     (case RefGVK e ref of
        Inl x \<Rightarrow> Inl (ResolveFailed x)
      | Inr _ \<Rightarrow>
        (case rd (cr_apiVersion ref) (cr_kind ref) parentSnapshotNamespace (cr_name ref) of
           NotFound \<Rightarrow> Inl ChildSnapshotNotFound
         | GetErr x \<Rightarrow> Inl (ResolveFailed (Wrap ''get child snapshot'' (ClientError x)))
         | Found u \<Rightarrow> Inr u))"

definition ResolveChildSnapshotRefToBoundContentName ::
  "env \<Rightarrow> snapshot_reader \<Rightarrow> snapshot_child_ref \<Rightarrow> string \<Rightarrow> resolve_err + string" where
  "ResolveChildSnapshotRefToBoundContentName e rd ref parentSnapshotNamespace =
     (case GetChildSnapshot e rd ref parentSnapshotNamespace of
        Inl x \<Rightarrow> Inl x
      | Inr u \<Rightarrow>
        (case so_bound u of
           NBadType \<Rightarrow> Inl (ResolveFailed (Wrap ''read status.boundSnapshotContentName''
             (FieldError ''status.boundSnapshotContentName'')))
         | NAbsent \<Rightarrow> Inl ChildNotBound
         | NVal bound \<Rightarrow> if bound = '''' then Inl ChildNotBound else Inr bound))"

fun declared_loop ::
  "env \<Rightarrow> string \<Rightarrow> snapshot_child_ref option list \<Rightarrow> string list \<Rightarrow> (string list \<times> bool) res" where
  "declared_loop e namespace [] names = Inr (names, True)"
| "declared_loop e namespace (None # rs) names = declared_loop e namespace rs names"
| "declared_loop e namespace (Some ref # rs) names =
     (case ResolveChildSnapshotRefToBoundContentName e (live_snapshot e) ref namespace of
        Inl ChildNotBound \<Rightarrow> Inr ([], False)
      | Inl ChildSnapshotNotFound \<Rightarrow> Inr ([], False)
      | Inl (ResolveFailed x) \<Rightarrow> Inl x
      | Inr bound \<Rightarrow> if bound = '''' then Inr ([], False) else declared_loop e namespace rs (names @ [bound]))"

definition no_snapshot_ref :: "subject_ref \<Rightarrow> bool" where
  "no_snapshot_ref r = (sr_apiVersion r = '''' \<or> sr_kind r = '''' \<or> sr_name r = '''')"

definition declaredNonLeafChildContentNames :: "env \<Rightarrow> snapshot_content \<Rightarrow> (string list \<times> bool) res" where
  "declaredNonLeafChildContentNames e c =
     (let r = ct_snapshot_ref c in
      if no_snapshot_ref r then Inr ([], True)
      else case live_snapshot e (sr_apiVersion r) (sr_kind r) (sr_namespace r) (sr_name r) of
        NotFound \<Rightarrow> Inr ([], False)
      | GetErr x \<Rightarrow> Inl (ClientError x)
      | Found owner \<Rightarrow>
        (case nested_or_fail ''status.childrenSnapshotRefs'' [] (so_children owner) of
           Inl x \<Rightarrow> Inl x
         | Inr rawRefs \<Rightarrow> declared_loop e (sr_namespace r) rawRefs []))"

section \<open>The subtree latch of the children\<close>

record edge_walk =
  w_linked :: "string list"
  w_done :: nat
  w_pending :: "string list"

abbreviation "w_total w \<equiv> length (w_linked w)"

definition edge_walk0 :: edge_walk where
  "edge_walk0 = \<lparr>w_linked = [], w_done = 0, w_pending = []\<rparr>"

fun persisted_walk :: "env \<Rightarrow> string option list \<Rightarrow> edge_walk \<Rightarrow> edge_walk res" where
  "persisted_walk e [] w = Inr w"
| "persisted_walk e (None # rs) w = persisted_walk e rs w"
| "persisted_walk e (Some name # rs) w =
     (if name = '''' then persisted_walk e rs w
      else let w = w\<lparr>w_linked := w_linked w @ [name]\<rparr> in
        case e_content e name of
          NotFound \<Rightarrow> persisted_walk e rs (w\<lparr>w_pending := w_pending w @ [name]\<rparr>)
        | GetErr x \<Rightarrow> Inl (ClientError x)
        | Found child \<Rightarrow>
            if ct_subtree_persisted child then persisted_walk e rs (w\<lparr>w_done := Suc (w_done w)\<rparr>)
            else persisted_walk e rs (w\<lparr>w_pending := w_pending w @ [name]\<rparr>))"

definition aggregateChildrenSubtreeManifestsPersisted :: "env \<Rightarrow> snapshot_content \<Rightarrow> (bool \<times> string) res" where
  "aggregateChildrenSubtreeManifestsPersisted e c =
     (case nested_or_fail ''status.childrenSnapshotContentRefs'' [] (ct_edges c) of
        Inl x \<Rightarrow> Inl x
      | Inr rawRefs \<Rightarrow>
     (case persisted_walk e rawRefs edge_walk0 of
        Inl x \<Rightarrow> Inl x
      | Inr w \<Rightarrow>
     (case declaredNonLeafChildContentNames e c of
        Inl x \<Rightarrow> Inl x
      | Inr (declaredNames, declaredComplete) \<Rightarrow>
          if \<not> declaredComplete
          then Inr (False, ''waiting for declared child snapshot graph to bind and link'')
          else let unlinked = filter (\<lambda>dn. dn \<notin> set (w_linked w)) declaredNames in
            if unlinked \<noteq> []
            then Inr (False, ''waiting for declared child content to be linked: '' @ str_join '', '' unlinked)
            else if w_pending w \<noteq> []
            then Inr (False, ''waiting for child manifests to persist: '' @
              formatReadyProgress (w_done w) (w_total w) (w_pending w))
            else Inr (True, ''''))))"

section \<open>The readiness of the children\<close>

definition terminalChildContentFailureReasons :: "string set" where
  "terminalChildContentFailureReasons =
     {ReasonManifestCheckpointFailed, ReasonDataArtifactInvalid, ReasonDataArtifactNotSupported,
      ReasonArtifactMissing, ReasonVolumeCaptureFailed, ReasonDomainCaptureFailed, ReasonChildrenFailed}"

definition isTerminalChildContentFailure :: "string \<Rightarrow> bool" where
  "isTerminalChildContentFailure reason = (reason \<in> terminalChildContentFailureReasons)"

definition childTerminalLeafInfo :: "string \<Rightarrow> condition \<Rightarrow> string \<times> string \<times> string" where
  "childTerminalLeafInfo childName readyCond =
     (if co_reason readyCond = ReasonChildrenFailed
      then (case parseChildrenFailedLeaf (co_message readyCond) of
              Some info \<Rightarrow> info
            | None \<Rightarrow> (childName, co_reason readyCond, co_message readyCond))
      else (childName, co_reason readyCond, co_message readyCond))"

fun children_walk :: "env \<Rightarrow> string option list \<Rightarrow> edge_walk \<Rightarrow> (verdict + edge_walk) res" where
  "children_walk e [] w = Inr (Inr w)"
| "children_walk e (None # rs) w = children_walk e rs w"
| "children_walk e (Some name # rs) w =
     (if name = '''' then children_walk e rs w
      else let w = w\<lparr>w_linked := w_linked w @ [name]\<rparr> in
        case e_content e name of
          NotFound \<Rightarrow> children_walk e rs (w\<lparr>w_pending := w_pending w @ [name]\<rparr>)
        | GetErr x \<Rightarrow> Inl (ClientError x)
        | Found child \<Rightarrow>
            if IsReady e (ct_conditions child) then children_walk e rs (w\<lparr>w_done := Suc (w_done w)\<rparr>)
            else (case find_condition e (ct_conditions child) ConditionReady of
                None \<Rightarrow> children_walk e rs (w\<lparr>w_pending := w_pending w @ [name]\<rparr>)
              | Some readyCond \<Rightarrow>
                  if co_status readyCond = ConditionFalse \<and> isTerminalChildContentFailure (co_reason readyCond)
                  then (case childTerminalLeafInfo name readyCond of (leaf, leafReason, leafMessage) \<Rightarrow>
                    Inr (Inl (False, ReasonChildrenFailed,
                      buildChildrenFailedMessage name leaf leafReason leafMessage)))
                  else children_walk e rs (w\<lparr>w_pending := w_pending w @ [name]\<rparr>)))"

definition validateCommonContentChildren :: "env \<Rightarrow> snapshot_content \<Rightarrow> verdict res" where
  "validateCommonContentChildren e c =
     (case nested_or_fail ''status.childrenSnapshotContentRefs'' [] (ct_edges c) of
        Inl x \<Rightarrow> Inl x
      | Inr rawRefs \<Rightarrow>
     (case children_walk e rawRefs edge_walk0 of
        Inl x \<Rightarrow> Inl x
      | Inr (Inl v) \<Rightarrow> Inr v
      | Inr (Inr w) \<Rightarrow>
        let finish = (if w_total w = 0 then Inr (True, '''', ''no child content'')
              else Inr (True, '''', show_nat (w_done w) @ ''/'' @ show_nat (w_total w) @ '' child content ready'')) in
        if w_pending w \<noteq> []
        then Inr (False, ReasonChildrenPending, ''waiting for child snapshot contents: '' @
          formatReadyProgress (w_done w) (w_total w) (w_pending w))
        else if ct_subtree_persisted c then finish
        else case declaredNonLeafChildContentNames e c of
          Inl x \<Rightarrow> Inl x
        | Inr (declared, declaredComplete) \<Rightarrow>
            if \<not> declaredComplete
            then Inr (False, ReasonChildrenLinkPending, ''waiting for declared child snapshot contents to resolve and link'')
            else let unlinkedDeclared = filter (\<lambda>n. n \<notin> set (w_linked w)) declared in
              if unlinkedDeclared \<noteq> []
              then Inr (False, ReasonChildrenLinkPending,
                ''waiting for declared child content to be linked: '' @ str_join '', '' unlinkedDeclared)
              else finish))"

section \<open>What the walks compute\<close>

text \<open>The names of the published edges.\<close>

definition edge_names :: "snapshot_content \<Rightarrow> string list" where
  "edge_names c = filter (\<lambda>n. n \<noteq> '''') (List.map_filter id (nval [] (ct_edges c)))"

definition names_of :: "string option list \<Rightarrow> string list" where
  "names_of rs = filter (\<lambda>n. n \<noteq> '''') (List.map_filter id rs)"

lemma names_of_simps [simp]:
  "names_of [] = []" "names_of (None # rs) = names_of rs"
  "names_of (Some n # rs) = (if n = '''' then names_of rs else n # names_of rs)"
  by (simp_all add: names_of_def List.map_filter_simps)

lemma edge_names_of: "edge_names c = names_of (nval [] (ct_edges c))"
  by (simp add: edge_names_def names_of_def)

definition child_ready :: "env \<Rightarrow> string \<Rightarrow> bool" where
  "child_ready e n = (case e_content e n of Found child \<Rightarrow> IsReady e (ct_conditions child) | _ \<Rightarrow> False)"

definition child_failed :: "env \<Rightarrow> string \<Rightarrow> bool" where
  "child_failed e n = (case e_content e n of
     Found child \<Rightarrow> (case find_condition e (ct_conditions child) ConditionReady of
        Some cond \<Rightarrow> co_status cond = ConditionFalse \<and> isTerminalChildContentFailure (co_reason cond)
      | None \<Rightarrow> False)
   | _ \<Rightarrow> False)"

definition child_persisted :: "env \<Rightarrow> string \<Rightarrow> bool" where
  "child_persisted e n = (case e_content e n of Found child \<Rightarrow> ct_subtree_persisted child | _ \<Rightarrow> False)"

lemma child_failed_not_ready: "child_failed e n \<Longrightarrow> \<not> child_ready e n"
  by (auto simp: child_failed_def child_ready_def IsReady_def HasCondition_def split: get_res.splits option.splits)

lemma persisted_walk_result:
  "persisted_walk e rs w0 = Inr w \<Longrightarrow>
   w_linked w = w_linked w0 @ names_of rs \<and>
   w_pending w = w_pending w0 @ filter (\<lambda>n. \<not> child_persisted e n) (names_of rs)"
proof (induction e rs w0 rule: persisted_walk.induct)
  case (3 e name rs w0)
  then show ?case
    by (auto simp: child_persisted_def Let_def split: if_splits get_res.splits)
qed simp_all

definition failed_verdict :: "env \<Rightarrow> string \<Rightarrow> verdict" where
  "failed_verdict e n = (case e_content e n of
     Found child \<Rightarrow> (case find_condition e (ct_conditions child) ConditionReady of
        Some cond \<Rightarrow> (False, ReasonChildrenFailed,
          case childTerminalLeafInfo n cond of (l, r, m) \<Rightarrow> buildChildrenFailedMessage n l r m)
      | None \<Rightarrow> (False, '''', ''''))
   | _ \<Rightarrow> (False, '''', ''''))"

lemma children_walk_step:
  assumes "name \<noteq> ''''"
  shows "children_walk e (Some name # rs) w =
     (let w = w\<lparr>w_linked := w_linked w @ [name]\<rparr> in
      case e_content e name of GetErr x \<Rightarrow> Inl (ClientError x)
      | _ \<Rightarrow> if child_ready e name then children_walk e rs (w\<lparr>w_done := Suc (w_done w)\<rparr>)
             else if child_failed e name then Inr (Inl (failed_verdict e name))
             else children_walk e rs (w\<lparr>w_pending := w_pending w @ [name]\<rparr>))"
  using assms
  by (cases "e_content e name")
    (auto simp: child_ready_def child_failed_def failed_verdict_def Let_def split: option.splits prod.splits)

declare children_walk.simps(3) [simp del]

lemma children_walk_result:
  "children_walk e rs w0 = Inr (Inr w) \<Longrightarrow>
   w_linked w = w_linked w0 @ names_of rs \<and>
   w_pending w = w_pending w0 @ filter (\<lambda>n. \<not> child_ready e n) (names_of rs) \<and>
   \<not> (\<exists>n\<in>set (names_of rs). child_failed e n)"
proof (induction rs arbitrary: w0)
  case (Cons r rs)
  show ?case
  proof (cases "r = None \<or> r = Some ''''")
    case True
    then show ?thesis using Cons by (auto simp: children_walk.simps(3))
  next
    case False
    then obtain name where r: "r = Some name" "name \<noteq> ''''" by auto
    show ?thesis using Cons.prems Cons.IH child_failed_not_ready [of e name] r(2)
      by (fastforce simp: r(1) children_walk_step [OF r(2)] Let_def split: get_res.splits if_splits)
  qed
qed simp

lemma children_walk_failed:
  "children_walk e rs w0 = Inr (Inl v) \<Longrightarrow>
   \<exists>pre n post. names_of rs = pre @ n # post \<and> \<not> (\<exists>m\<in>set pre. child_failed e m) \<and> child_failed e n \<and>
     v = failed_verdict e n"
proof (induction rs arbitrary: w0)
  case (Cons r rs)
  show ?case
  proof (cases "r = None \<or> r = Some ''''")
    case True
    then show ?thesis using Cons by (auto simp: children_walk.simps(3))
  next
    case False
    then obtain name where r: "r = Some name" "name \<noteq> ''''" by auto
    show ?thesis
    proof (cases "child_failed e name")
      case True
      then have "v = failed_verdict e name" using Cons.prems child_failed_not_ready [OF True]
        by (auto simp: r(1) children_walk_step [OF r(2)] Let_def split: get_res.splits)
      then show ?thesis using True r
        by (intro exI [of _ "[]"] exI [of _ name] exI [of _ "names_of rs"]) auto
    next
      case False
      then obtain w1 where "children_walk e rs w1 = Inr (Inl v)" using Cons.prems
        by (auto simp: r(1) children_walk_step [OF r(2)] Let_def split: get_res.splits if_splits)
      from Cons.IH [OF this] obtain pre n post where "names_of rs = pre @ n # post"
        "\<not> (\<exists>m\<in>set pre. child_failed e m)" "child_failed e n" "v = failed_verdict e n" by blast
      then show ?thesis using False r
        by (intro exI [of _ "name # pre"] exI [of _ n] exI [of _ post]) auto
    qed
  qed
qed simp

lemma failed_verdict_reason:
  "child_failed e n \<Longrightarrow> \<exists>msg. failed_verdict e n = (False, ReasonChildrenFailed, msg)"
  by (auto simp: child_failed_def failed_verdict_def split: get_res.splits option.splits)

section \<open>Properties\<close>

definition declared_linked :: "env \<Rightarrow> snapshot_content \<Rightarrow> bool" where
  "declared_linked e c = (case declaredNonLeafChildContentNames e c of
     Inr (declared, complete) \<Rightarrow> complete \<and> set declared \<subseteq> set (edge_names c) | Inl _ \<Rightarrow> False)"

lemma children_verdict:
  assumes "validateCommonContentChildren e c = Inr (ready, reason, msg)"
  shows "(ready \<longleftrightarrow> (\<forall>n\<in>set (edge_names c). child_ready e n) \<and> (ct_subtree_persisted c \<or> declared_linked e c)) \<and>
     (reason = ReasonChildrenFailed \<longleftrightarrow> (\<exists>n\<in>set (edge_names c). child_failed e n)) \<and>
     (\<not> ready \<longrightarrow> reason \<in> {ReasonChildrenFailed, ReasonChildrenPending, ReasonChildrenLinkPending})"
proof -
  obtain rs where rs: "ct_edges c \<noteq> NBadType" "rs = nval [] (ct_edges c)" "names_of rs = edge_names c"
    using assms by (cases "ct_edges c") (auto simp: validateCommonContentChildren_def edge_names_of)
  have val: "validateCommonContentChildren e c = (case children_walk e rs edge_walk0 of
        Inl x \<Rightarrow> Inl x
      | Inr (Inl v) \<Rightarrow> Inr v
      | Inr (Inr w) \<Rightarrow>
        let finish = (if w_total w = 0 then Inr (True, '''', ''no child content'')
              else Inr (True, '''', show_nat (w_done w) @ ''/'' @ show_nat (w_total w) @ '' child content ready'')) in
        if w_pending w \<noteq> []
        then Inr (False, ReasonChildrenPending, ''waiting for child snapshot contents: '' @
          formatReadyProgress (w_done w) (w_total w) (w_pending w))
        else if ct_subtree_persisted c then finish
        else case declaredNonLeafChildContentNames e c of
          Inl x \<Rightarrow> Inl x
        | Inr (declared, declaredComplete) \<Rightarrow>
            if \<not> declaredComplete
            then Inr (False, ReasonChildrenLinkPending, ''waiting for declared child snapshot contents to resolve and link'')
            else let unlinkedDeclared = filter (\<lambda>n. n \<notin> set (w_linked w)) declared in
              if unlinkedDeclared \<noteq> []
              then Inr (False, ReasonChildrenLinkPending,
                ''waiting for declared child content to be linked: '' @ str_join '', '' unlinkedDeclared)
              else finish)"
    using rs by (cases "ct_edges c") (simp_all add: validateCommonContentChildren_def)
  show ?thesis
  proof (cases "children_walk e rs edge_walk0")
    case (Inl x)
    then show ?thesis using assms val by simp
  next
    case (Inr r)
    show ?thesis
    proof (cases r)
      case (Inl v)
      obtain pre n post where n: "edge_names c = pre @ n # post" "child_failed e n" "v = failed_verdict e n"
        using children_walk_failed [of e rs edge_walk0 v] Inl Inr rs(3) by auto
      then have "ready = False \<and> reason = ReasonChildrenFailed"
        using failed_verdict_reason [OF n(2)] assms val Inl Inr by auto
      then show ?thesis using n child_failed_not_ready [OF n(2)] by auto
    next
      case r: (Inr w)
      have w: "w_linked w = edge_names c" "w_pending w = filter (\<lambda>n. \<not> child_ready e n) (edge_names c)"
        "\<not> (\<exists>n\<in>set (edge_names c). child_failed e n)"
        using children_walk_result [of e rs edge_walk0 w] r Inr rs(3) by (simp_all add: edge_walk0_def)
      have pend: "w_pending w = [] \<longleftrightarrow> (\<forall>n\<in>set (edge_names c). child_ready e n)"
        by (auto simp: w(2) filter_empty_conv)
      have unl: "filter (\<lambda>n. n \<notin> set (edge_names c)) ds = [] \<longleftrightarrow> set ds \<subseteq> set (edge_names c)" for ds
        by (auto simp: filter_empty_conv)
      show ?thesis
        using assms w(3) unfolding val Inr r
        by (auto simp: pend w(1) unl declared_linked_def Let_def split: if_splits sum.splits prod.splits)
    qed
  qed
qed

text \<open>
  The children leg of a content is ready exactly when every linked child content exists and is
  Ready=True and, unless the subtree latch already proved it, the owner's declared child set could be
  resolved completely and is linked. It is ChildrenFailed exactly when some linked child is terminally
  failed, wherever it stands in the list, and otherwise pending.
\<close>

theorem children_leg_verdict:
  assumes "validateCommonContentChildren e c = Inr (ready, reason, msg)"
  shows "(ready \<longleftrightarrow> (\<forall>n\<in>set (edge_names c). child_ready e n) \<and> (ct_subtree_persisted c \<or> declared_linked e c)) \<and>
     (reason = ReasonChildrenFailed \<longleftrightarrow> (\<exists>n\<in>set (edge_names c). child_failed e n)) \<and>
     (\<not> ready \<longrightarrow> reason \<in> {ReasonChildrenFailed, ReasonChildrenPending, ReasonChildrenLinkPending})"
  by (rule children_verdict [OF assms])

lemma children_leg_verdict_witness:
  "\<exists>msg. validateCommonContentChildren sample_env (sample_content\<lparr>ct_edges := NVal [Some ''child'']\<rparr>) =
       Inr (False, ReasonChildrenPending, msg) \<and>
     \<not> (\<exists>n\<in>set (edge_names (sample_content\<lparr>ct_edges := NVal [Some ''child'']\<rparr>)). child_failed sample_env n)"
proof -
  obtain msg where v: "validateCommonContentChildren sample_env (sample_content\<lparr>ct_edges := NVal [Some ''child'']\<rparr>) =
      Inr (False, ReasonChildrenPending, msg)"
    by (simp add: validateCommonContentChildren_def children_walk.simps(3) edge_walk0_def sample_env_def
        sample_content_def Let_def)
  have "ReasonChildrenPending \<noteq> ReasonChildrenFailed" by simp
  with children_leg_verdict [OF v] v show ?thesis by blast
qed

text \<open>
  A chain of failed contents: the first failed on its own, every further one records the failure of
  its child the way \<open>validateCommonContentChildren\<close> words it.
\<close>

inductive failure_chain :: "env \<Rightarrow> string \<Rightarrow> string \<Rightarrow> string \<Rightarrow> string \<Rightarrow> bool" for e leaf reason msg where
  leaf: "e_content e leaf = Found c \<Longrightarrow> find_condition e (ct_conditions c) ConditionReady = Some cond \<Longrightarrow>
     co_reason cond = reason \<Longrightarrow> co_message cond = msg \<Longrightarrow> reason \<noteq> ReasonChildrenFailed \<Longrightarrow>
     failure_chain e leaf reason msg leaf"
| parent: "failure_chain e leaf reason msg child \<Longrightarrow> is_token child \<Longrightarrow> e_content e name = Found c \<Longrightarrow>
     find_condition e (ct_conditions c) ConditionReady = Some cond \<Longrightarrow>
     co_reason cond = ReasonChildrenFailed \<Longrightarrow> co_message cond = snd (snd (failed_verdict e child)) \<Longrightarrow>
     failure_chain e leaf reason msg name"

lemma failed_verdict_leaf_info:
  "e_content e n = Found c \<Longrightarrow> find_condition e (ct_conditions c) ConditionReady = Some cond \<Longrightarrow>
   childTerminalLeafInfo n cond = (l, r, m) \<Longrightarrow>
   failed_verdict e n = (False, ReasonChildrenFailed, buildChildrenFailedMessage n l r m)"
  by (simp add: failed_verdict_def)

text \<open>
  However deep a failed leaf is, its name, reason and message reach the top unchanged: in a chain of
  contents whose names are tokens, the verdict every ancestor derives from its failed child names that
  child and the original leaf with the original reason and message, as long as the message is one line.
\<close>

theorem leaf_failure_climbs:
  assumes "failure_chain e leaf reason msg n" and "is_token leaf" and "is_token reason" and "CHR 0x0A \<notin> set msg"
  shows "failed_verdict e n = (False, ReasonChildrenFailed, buildChildrenFailedMessage n leaf reason msg)"
  using assms(1)
proof (induction rule: failure_chain.induct)
  case (leaf c cond)
  then show ?case
    by (auto intro!: failed_verdict_leaf_info [OF leaf(1,2)] simp: childTerminalLeafInfo_def)
next
  case (parent child name c cond)
  then have "parseChildrenFailedLeaf (co_message cond) = Some (leaf, reason, msg)"
    using assms(2-4) by (simp add: parse_build)
  then show ?case
    using parent(5) by (auto intro!: failed_verdict_leaf_info [OF parent(3,4)] simp: childTerminalLeafInfo_def)
qed

definition failed_content :: "string \<Rightarrow> string \<Rightarrow> snapshot_content" where
  "failed_content reason msg = sample_content\<lparr>ct_conditions := [\<lparr>co_type = ConditionReady,
     co_status = ConditionFalse, co_reason = reason, co_message = msg, co_gen = 1, co_time = ''''\<rparr>]\<rparr>"

definition failed_env :: "string \<Rightarrow> env" where
  "failed_env msg = sample_env\<lparr>e_content := (\<lambda>n. if n = ''l'' then Found (failed_content ReasonArtifactMissing msg)
     else Found (failed_content ReasonChildrenFailed (buildChildrenFailedMessage ''l'' ''l'' ReasonArtifactMissing msg)))\<rparr>"

lemma failed_env_simps:
  "e_content (failed_env msg) n = (if n = ''l'' then Found (failed_content ReasonArtifactMissing msg)
     else Found (failed_content ReasonChildrenFailed (buildChildrenFailedMessage ''l'' ''l'' ReasonArtifactMissing msg)))"
  "find_condition (failed_env msg) (ct_conditions (failed_content r m)) ConditionReady =
     Some \<lparr>co_type = ConditionReady, co_status = ConditionFalse, co_reason = r, co_message = m, co_gen = 1, co_time = ''''\<rparr>"
  by (simp_all add: failed_env_def failed_content_def sample_env_def)

lemma failed_env_chain: "failure_chain (failed_env msg) ''l'' ReasonArtifactMissing msg ''p''"
proof -
  have l: "failure_chain (failed_env msg) ''l'' ReasonArtifactMissing msg ''l''"
    by (rule failure_chain.leaf [where c = "failed_content ReasonArtifactMissing msg", OF _ failed_env_simps(2)])
      (simp_all add: failed_env_simps)
  show ?thesis
    by (rule failure_chain.parent [OF l, where c = "failed_content ReasonChildrenFailed
        (buildChildrenFailedMessage ''l'' ''l'' ReasonArtifactMissing msg)", OF _ _ failed_env_simps(2)])
      (simp_all add: failed_env_simps is_token_def re_nonspace_def failed_verdict_def childTerminalLeafInfo_def)
qed

lemma leaf_failure_climbs_witness:
  "failed_verdict (failed_env ''disk gone'') ''p'' = (False, ReasonChildrenFailed,
     buildChildrenFailedMessage ''p'' ''l'' ReasonArtifactMissing ''disk gone'')"
  by (rule leaf_failure_climbs [OF failed_env_chain]) (simp_all add: is_token_def re_nonspace_def)

text \<open>
  A failure message of more than one line breaks the chain: the parser of the intermediate node's
  message rejects it, so the next ancestor reports the intermediate child, with reason ChildrenFailed,
  as the failed leaf.
\<close>

theorem leaf_failure_lost_on_newline:
  assumes "e_content e leaf = Found c" and "find_condition e (ct_conditions c) ConditionReady = Some cond"
    and "co_reason cond \<noteq> ReasonChildrenFailed" and "CHR 0x0A \<in> set (co_message cond)"
    and "is_token leaf" and "is_token (co_reason cond)"
    and "e_content e mid = Found c'" and "find_condition e (ct_conditions c') ConditionReady = Some cond'"
    and "co_reason cond' = ReasonChildrenFailed" and "co_message cond' = snd (snd (failed_verdict e leaf))"
  shows "failed_verdict e mid =
     (False, ReasonChildrenFailed, buildChildrenFailedMessage mid mid ReasonChildrenFailed (co_message cond'))"
proof -
  have "co_message cond' = buildChildrenFailedMessage leaf leaf (co_reason cond) (co_message cond)"
    using assms(1-3,10) by (simp add: failed_verdict_def childTerminalLeafInfo_def)
  then have "parseChildrenFailedLeaf (co_message cond') = None"
    using assms(4-6) by (simp add: parse_build_newline)
  then show ?thesis
    using assms(9) by (auto intro!: failed_verdict_leaf_info [OF assms(7,8)] simp: childTerminalLeafInfo_def)
qed

lemma leaf_failure_lost_on_newline_witness:
  "failed_verdict (failed_env [CHR ''a'', CHR 0x0A]) ''p'' = (False, ReasonChildrenFailed,
     buildChildrenFailedMessage ''p'' ''p'' ReasonChildrenFailed
       (buildChildrenFailedMessage ''l'' ''l'' ReasonArtifactMissing [CHR ''a'', CHR 0x0A]))"
proof -
  let ?m = "[CHR ''a'', CHR 0x0A]"
  have v: "failed_verdict (failed_env ?m) ''l'' =
      (False, ReasonChildrenFailed, buildChildrenFailedMessage ''l'' ''l'' ReasonArtifactMissing ?m)"
    by (rule failed_verdict_leaf_info [where c = "failed_content ReasonArtifactMissing ?m", OF _ failed_env_simps(2)])
      (simp_all add: failed_env_simps childTerminalLeafInfo_def)
  note t = leaf_failure_lost_on_newline [where e = "failed_env ?m" and leaf = "''l''" and mid = "''p''",
      OF _ failed_env_simps(2) _ _ _ _ _ failed_env_simps(2)]
  show ?thesis
    using t [of ReasonArtifactMissing ?m ReasonChildrenFailed
        "buildChildrenFailedMessage ''l'' ''l'' ReasonArtifactMissing ?m"]
    by (simp add: v failed_env_simps(1) is_token_def re_nonspace_def)
qed

end
