(* ===== verification/Owner_Refs.thy ===== *)
theory Owner_Refs
  imports Cluster_State
begin

text \<open>
  Owner references: the lifecycle link of a child content to its parent
  (\<open>snaphelpers/lifecycle_ownerrefs.go\<close>) and the handoff of an artifact from its execution keeper
  to the SnapshotContent (\<open>snapshotContentControllerOwnerRefsForHandoff\<close>).
\<close>

abbreviation "storageGroupVersion \<equiv> ''state-snapshotter.deckhouse.io/v1alpha1''"
abbreviation "kindSnapshotContent \<equiv> ''SnapshotContent''"

definition is_controller :: "owner_ref \<Rightarrow> bool" where
  "is_controller ref = (case or_controller ref of None \<Rightarrow> False | Some b \<Rightarrow> b)"

definition same_owner_ref :: "owner_ref \<Rightarrow> owner_ref \<Rightarrow> bool" where
  "same_owner_ref l r = (or_apiVersion l = or_apiVersion r \<and> or_kind l = or_kind r \<and> or_name l = or_name r \<and>
     or_uid l = or_uid r \<and> is_controller l = is_controller r)"

definition OwnerReferencesEqual :: "owner_ref list \<Rightarrow> owner_ref list \<Rightarrow> bool" where
  "OwnerReferencesEqual l r = list_all2 same_owner_ref l r"

definition SnapshotContentOwnerReference :: "snapshot_content \<Rightarrow> owner_ref" where
  "SnapshotContentOwnerReference content = \<lparr>or_apiVersion = storageGroupVersion, or_kind = kindSnapshotContent,
     or_name = ct_name content, or_uid = ct_uid content, or_controller = Some True\<rparr>"

section \<open>The lifecycle link\<close>

definition isLifecycleOwnerRef :: "owner_ref \<Rightarrow> bool" where
  "isLifecycleOwnerRef ref = (if or_kind ref = ''ObjectKeeper'' \<or> or_kind ref = kindSnapshotContent then True
     else has_suffix (or_kind ref) ''Snapshot'')"

definition ownerRefSameIdentity :: "owner_ref \<Rightarrow> owner_ref \<Rightarrow> bool" where
  "ownerRefSameIdentity ref desired = (or_apiVersion ref = or_apiVersion desired \<and>
     or_kind ref = or_kind desired \<and> or_name ref = or_name desired \<and>
     (or_uid ref = '''' \<or> or_uid desired = '''' \<or> or_uid ref = or_uid desired))"

fun lifecycle_loop :: "owner_ref \<Rightarrow> owner_ref list \<Rightarrow> owner_ref list \<Rightarrow> bool \<Rightarrow> (owner_ref list \<times> bool) res" where
  "lifecycle_loop desired [] out desiredSet = Inr (out, desiredSet)"
| "lifecycle_loop desired (ref # refs) out desiredSet =
     (if isLifecycleOwnerRef ref then
        (if ownerRefSameIdentity ref desired then
           (if \<not> desiredSet then lifecycle_loop desired refs (out @ [desired]) True
            else lifecycle_loop desired refs out desiredSet)
         else Inl (Errorf (''conflicting lifecycle ownerRef '' @ or_kind ref @ ''/'' @ or_name ref)))
      else lifecycle_loop desired refs (out @ [ref]) desiredSet)"

definition lifecycleOwnerRefs :: "owner_ref list \<Rightarrow> owner_ref \<Rightarrow> (owner_ref list \<times> bool) res" where
  "lifecycleOwnerRefs existing desired =
     (case lifecycle_loop desired existing [] False of
        Inl x \<Rightarrow> Inl x
      | Inr (out, desiredSet) \<Rightarrow>
          let out = (if \<not> desiredSet then out @ [desired] else out)
          in Inr (out, \<not> OwnerReferencesEqual existing out))"

section \<open>The handoff of an artifact\<close>

definition content_ref :: "owner_ref \<Rightarrow> bool" where
  "content_ref ref = (or_apiVersion ref = storageGroupVersion \<and> or_kind ref = kindSnapshotContent)"

definition foreign_content :: "owner_ref \<Rightarrow> owner_ref \<Rightarrow> bool" where
  "foreign_content desired ref = (or_name ref \<noteq> or_name desired \<or>
     (or_uid ref \<noteq> '''' \<and> or_uid desired \<noteq> '''' \<and> or_uid ref \<noteq> or_uid desired))"

fun handoff_loop :: "owner_ref \<Rightarrow> owner_ref list \<Rightarrow> owner_ref list \<Rightarrow> bool \<Rightarrow> (owner_ref list \<times> bool) res" where
  "handoff_loop desired [] out desiredSet = Inr (out, desiredSet)"
| "handoff_loop desired (ref # refs) out desiredSet =
     (if content_ref ref then
        (if foreign_content desired ref then Inl (Errorf (''already owned by SnapshotContent '' @ or_name ref))
         else if \<not> desiredSet then handoff_loop desired refs (out @ [desired]) True
         else handoff_loop desired refs out desiredSet)
      else if is_controller ref then handoff_loop desired refs out desiredSet
      else handoff_loop desired refs (out @ [ref]) desiredSet)"

definition snapshotContentControllerOwnerRefsForHandoff ::
  "owner_ref list \<Rightarrow> owner_ref \<Rightarrow> (owner_ref list \<times> bool) res" where
  "snapshotContentControllerOwnerRefsForHandoff existing desired =
     (case handoff_loop desired existing [] False of
        Inl x \<Rightarrow> Inl x
      | Inr (out, desiredSet) \<Rightarrow>
          let out = (if \<not> desiredSet then out @ [desired] else out)
          in Inr (out, \<not> OwnerReferencesEqual existing out))"

section \<open>What the loops compute\<close>

text \<open>Both loops keep the references of one sort and put the desired one where the first of the other sort was.\<close>

fun replaced :: "(owner_ref \<Rightarrow> bool) \<Rightarrow> (owner_ref \<Rightarrow> bool) \<Rightarrow> owner_ref \<Rightarrow> owner_ref list \<Rightarrow> bool \<Rightarrow> owner_ref list" where
  "replaced mine keep d [] dset = (if dset then [] else [d])"
| "replaced mine keep d (r # rs) dset =
     (if mine r then (if dset then replaced mine keep d rs True else d # replaced mine keep d rs True)
      else if keep r then r # replaced mine keep d rs dset else replaced mine keep d rs dset)"

lemma OwnerReferencesEqual_refl [simp]: "OwnerReferencesEqual l l"
  by (simp add: OwnerReferencesEqual_def same_owner_ref_def list_all2_refl)

lemma filter_replaced_others:
  "mine d \<Longrightarrow> filter (\<lambda>r. \<not> mine r \<and> keep r) (replaced mine keep d rs dset) = filter (\<lambda>r. \<not> mine r \<and> keep r) rs"
  by (induction rs arbitrary: dset) auto

lemma filter_replaced_mine:
  "mine d \<Longrightarrow> filter (\<lambda>r. mine r \<or> \<not> keep r) (replaced mine keep d rs dset) = (if dset then [] else [d])"
  by (induction rs arbitrary: dset) auto

lemma replaced_idem:
  "mine d \<Longrightarrow> replaced mine keep d (replaced mine keep d rs dset) dset = replaced mine keep d rs dset"
  by (induction rs arbitrary: dset) auto

lemma replaced_set: "set (replaced mine keep d rs dset) \<subseteq> insert d {r \<in> set rs. \<not> mine r \<and> keep r}"
  by (induction rs arbitrary: dset) (auto split: if_splits)

lemma handoff_loop_conflict:
  "\<exists>r\<in>set rs. content_ref r \<and> foreign_content d r \<Longrightarrow> \<exists>x. handoff_loop d rs out dset = Inl x"
  by (induction rs arbitrary: out dset) auto

lemma handoff_loop_ok:
  "\<not> (\<exists>r\<in>set rs. content_ref r \<and> foreign_content d r) \<Longrightarrow>
   \<exists>out' dset'. handoff_loop d rs out dset = Inr (out', dset') \<and>
     (if dset' then out' else out' @ [d]) = out @ replaced content_ref (\<lambda>r. \<not> is_controller r) d rs dset"
proof (induction rs arbitrary: out dset)
  case (Cons r rs)
  then show ?case
    using Cons.IH [of "out @ [d]" True] Cons.IH [of out dset] Cons.IH [of "out @ [r]" dset] Cons.IH [of out True]
    by (cases dset) auto
qed auto

lemma handoff_ok:
  assumes "\<not> (\<exists>r\<in>set existing. content_ref r \<and> foreign_content d r)"
  shows "snapshotContentControllerOwnerRefsForHandoff existing d =
     (let out = replaced content_ref (\<lambda>r. \<not> is_controller r) d existing False
      in Inr (out, \<not> OwnerReferencesEqual existing out))"
  using handoff_loop_ok [OF assms, of "[]" False]
  by (auto simp: snapshotContentControllerOwnerRefsForHandoff_def Let_def)

lemma lifecycle_loop_conflict:
  "\<exists>r\<in>set rs. isLifecycleOwnerRef r \<and> \<not> ownerRefSameIdentity r d \<Longrightarrow> \<exists>x. lifecycle_loop d rs out dset = Inl x"
  by (induction rs arbitrary: out dset) auto

lemma lifecycle_loop_ok:
  "\<not> (\<exists>r\<in>set rs. isLifecycleOwnerRef r \<and> \<not> ownerRefSameIdentity r d) \<Longrightarrow>
   \<exists>out' dset'. lifecycle_loop d rs out dset = Inr (out', dset') \<and>
     (if dset' then out' else out' @ [d]) = out @ replaced isLifecycleOwnerRef (\<lambda>_. True) d rs dset"
proof (induction rs arbitrary: out dset)
  case (Cons r rs)
  then show ?case
    using Cons.IH [of "out @ [d]" True] Cons.IH [of out dset] Cons.IH [of "out @ [r]" dset] Cons.IH [of out True]
    by (cases dset) auto
qed auto

lemma lifecycle_ok:
  assumes "\<not> (\<exists>r\<in>set existing. isLifecycleOwnerRef r \<and> \<not> ownerRefSameIdentity r d)"
  shows "lifecycleOwnerRefs existing d =
     (let out = replaced isLifecycleOwnerRef (\<lambda>_. True) d existing False
      in Inr (out, \<not> OwnerReferencesEqual existing out))"
  using lifecycle_loop_ok [OF assms, of "[]" False]
  by (auto simp: lifecycleOwnerRefs_def Let_def)

text \<open>The content is the only controller and the only SnapshotContent among the owners.\<close>

definition sole_owner :: "owner_ref \<Rightarrow> owner_ref list \<Rightarrow> bool" where
  "sole_owner d refs = (\<exists>d'. filter (\<lambda>r. content_ref r \<or> is_controller r) refs = [d'] \<and> same_owner_ref d' d)"

lemma list_all2_filter_same:
  "list_all2 same_owner_ref l r \<Longrightarrow>
   list_all2 same_owner_ref (filter (\<lambda>r. content_ref r \<or> is_controller r) l) (filter (\<lambda>r. content_ref r \<or> is_controller r) r)"
  by (induction rule: list_all2_induct) (auto simp: same_owner_ref_def content_ref_def)

lemma handoff_sole_owner:
  assumes "content_ref d" and "snapshotContentControllerOwnerRefsForHandoff existing d = Inr (out, changed)"
  shows "sole_owner d (if changed then out else existing)"
proof -
  have nf: "\<not> (\<exists>r\<in>set existing. content_ref r \<and> foreign_content d r)"
  proof
    assume "\<exists>r\<in>set existing. content_ref r \<and> foreign_content d r"
    from handoff_loop_conflict [OF this, of "[]" False] assms(2) show False
      by (auto simp: snapshotContentControllerOwnerRefsForHandoff_def)
  qed
  have out: "out = replaced content_ref (\<lambda>r. \<not> is_controller r) d existing False"
    "changed = (\<not> OwnerReferencesEqual existing out)"
    using handoff_ok [OF nf] assms(2) by (auto simp: Let_def)
  have f: "filter (\<lambda>r. content_ref r \<or> is_controller r) out = [d]"
    using filter_replaced_mine [of content_ref d "\<lambda>r. \<not> is_controller r" existing False] assms(1) by (simp add: out(1))
  show ?thesis
  proof (cases changed)
    case True
    then show ?thesis using f by (auto simp: sole_owner_def same_owner_ref_def)
  next
    case False
    then have "list_all2 same_owner_ref existing out" using out(2) by (simp add: OwnerReferencesEqual_def)
    from list_all2_filter_same [OF this] obtain d' where
      "filter (\<lambda>r. content_ref r \<or> is_controller r) existing = [d']" "same_owner_ref d' d"
      unfolding f by (auto simp: list_all2_Cons2)
    then show ?thesis using False by (auto simp: sole_owner_def)
  qed
qed

section \<open>Properties\<close>

text \<open>
  The handoff of an artifact to a content fails exactly when another SnapshotContent already owns
  it; otherwise the content becomes the only controller and the only SnapshotContent among the owners,
  every other non-controller reference is kept in order, and repeating the handoff changes nothing.
\<close>

theorem handoff_exclusive:
  assumes "content_ref d" and "is_controller d"
  shows "((\<exists>x. snapshotContentControllerOwnerRefsForHandoff existing d = Inl x) \<longleftrightarrow>
        (\<exists>r\<in>set existing. content_ref r \<and> foreign_content d r)) \<and>
     (\<forall>out changed. snapshotContentControllerOwnerRefsForHandoff existing d = Inr (out, changed) \<longrightarrow>
        filter (\<lambda>r. content_ref r \<or> is_controller r) out = [d] \<and>
        filter (\<lambda>r. \<not> content_ref r \<and> \<not> is_controller r) out = filter (\<lambda>r. \<not> content_ref r \<and> \<not> is_controller r) existing \<and>
        changed = (\<not> OwnerReferencesEqual existing out) \<and>
        snapshotContentControllerOwnerRefsForHandoff out d = Inr (out, False))"
proof -
  let ?out = "replaced content_ref (\<lambda>r. \<not> is_controller r) d existing False"
  have ok: "snapshotContentControllerOwnerRefsForHandoff ?out d = Inr (?out, False)"
  proof -
    have "\<not> (\<exists>r\<in>set ?out. content_ref r \<and> foreign_content d r)"
      using replaced_set [of content_ref "\<lambda>r. \<not> is_controller r" d existing False]
      by (auto simp: foreign_content_def)
    from handoff_ok [OF this] show ?thesis
      using assms(1) by (simp add: replaced_idem Let_def)
  qed
  have f1: "filter (\<lambda>r. content_ref r \<or> is_controller r) ?out = [d]"
    using filter_replaced_mine [of content_ref d "\<lambda>r. \<not> is_controller r" existing False] assms(1) by simp
  have f2: "filter (\<lambda>r. \<not> content_ref r \<and> \<not> is_controller r) ?out = filter (\<lambda>r. \<not> content_ref r \<and> \<not> is_controller r) existing"
    using filter_replaced_others [of content_ref d "\<lambda>r. \<not> is_controller r"] assms(1) by simp
  show ?thesis
  proof (cases "\<exists>r\<in>set existing. content_ref r \<and> foreign_content d r")
    case True
    then show ?thesis using handoff_loop_conflict [OF True, of "[]" False]
      by (auto simp: snapshotContentControllerOwnerRefsForHandoff_def)
  next
    case False
    then have "snapshotContentControllerOwnerRefsForHandoff existing d = Inr (?out, \<not> OwnerReferencesEqual existing ?out)"
      using handoff_ok [of existing d] by (simp add: Let_def)
    then show ?thesis using False ok f1 f2 by auto
  qed
qed

lemma handoff_exclusive_witness:
  "\<exists>keeper. snapshotContentControllerOwnerRefsForHandoff [keeper] (\<lparr>or_apiVersion = storageGroupVersion,
      or_kind = kindSnapshotContent, or_name = ''c'', or_uid = ''u'', or_controller = Some True\<rparr>) =
    Inr ([\<lparr>or_apiVersion = storageGroupVersion, or_kind = kindSnapshotContent, or_name = ''c'', or_uid = ''u'',
      or_controller = Some True\<rparr>], True)"
proof -
  let ?k = "\<lparr>or_apiVersion = ''deckhouse.io/v1alpha1'', or_kind = ''ObjectKeeper'', or_name = ''k'', or_uid = '''',
      or_controller = Some True\<rparr>"
  let ?d = "\<lparr>or_apiVersion = storageGroupVersion, or_kind = kindSnapshotContent, or_name = ''c'', or_uid = ''u'',
      or_controller = Some True\<rparr>"
  have r: "snapshotContentControllerOwnerRefsForHandoff [?k] ?d = Inr ([?d], True)"
    by (simp add: snapshotContentControllerOwnerRefsForHandoff_def content_ref_def is_controller_def
        OwnerReferencesEqual_def same_owner_ref_def)
  have "content_ref ?d" "is_controller ?d" by (simp_all add: content_ref_def is_controller_def)
  from handoff_exclusive [OF this, of "[?k]"] r show ?thesis by blast
qed

text \<open>
  Linking a child to its parent fails exactly when the child already has another lifecycle owner
  (an ObjectKeeper, a SnapshotContent or a snapshot); otherwise the wanted reference is the only
  lifecycle owner, all other references keep their order, and a second link changes nothing.
\<close>

theorem lifecycle_link_exclusive:
  assumes "isLifecycleOwnerRef d"
  shows "((\<exists>x. lifecycleOwnerRefs existing d = Inl x) \<longleftrightarrow>
        (\<exists>r\<in>set existing. isLifecycleOwnerRef r \<and> \<not> ownerRefSameIdentity r d)) \<and>
     (\<forall>out changed. lifecycleOwnerRefs existing d = Inr (out, changed) \<longrightarrow>
        filter isLifecycleOwnerRef out = [d] \<and>
        filter (\<lambda>r. \<not> isLifecycleOwnerRef r) out = filter (\<lambda>r. \<not> isLifecycleOwnerRef r) existing \<and>
        changed = (\<not> OwnerReferencesEqual existing out) \<and> lifecycleOwnerRefs out d = Inr (out, False))"
proof -
  let ?out = "replaced isLifecycleOwnerRef (\<lambda>_. True) d existing False"
  have ok: "lifecycleOwnerRefs ?out d = Inr (?out, False)"
  proof -
    have "\<not> (\<exists>r\<in>set ?out. isLifecycleOwnerRef r \<and> \<not> ownerRefSameIdentity r d)"
      using replaced_set [of isLifecycleOwnerRef "\<lambda>_. True" d existing False] by (auto simp: ownerRefSameIdentity_def)
    from lifecycle_ok [OF this] show ?thesis using assms(1) by (simp add: replaced_idem Let_def)
  qed
  have f1: "filter isLifecycleOwnerRef ?out = [d]"
    using filter_replaced_mine [of isLifecycleOwnerRef d "\<lambda>_. True" existing False] assms(1) by simp
  have f2: "filter (\<lambda>r. \<not> isLifecycleOwnerRef r) ?out = filter (\<lambda>r. \<not> isLifecycleOwnerRef r) existing"
    using filter_replaced_others [of isLifecycleOwnerRef d "\<lambda>_. True"] assms(1) by simp
  show ?thesis
  proof (cases "\<exists>r\<in>set existing. isLifecycleOwnerRef r \<and> \<not> ownerRefSameIdentity r d")
    case True
    then show ?thesis using lifecycle_loop_conflict [OF True, of "[]" False] by (auto simp: lifecycleOwnerRefs_def)
  next
    case False
    then have "lifecycleOwnerRefs existing d = Inr (?out, \<not> OwnerReferencesEqual existing ?out)"
      using lifecycle_ok [of existing d] by (simp add: Let_def)
    then show ?thesis using False ok f1 f2 by auto
  qed
qed

lemma lifecycle_link_exclusive_witness:
  "\<exists>d changed. lifecycleOwnerRefs [] d = Inr ([d], changed) \<and> filter isLifecycleOwnerRef [d] = [d]"
proof -
  let ?d = "SnapshotContentOwnerReference \<lparr>ct_name = ''c'', ct_uid = ''u'', ct_generation = 1, ct_deleting = False,
      ct_finalizers = [], ct_owner_refs = [], ct_snapshot_ref = zero_subject_ref, ct_conditions = [], ct_mcp_name = NAbsent, ct_data = None,
      ct_edges = NAbsent, ct_subtree_persisted = False, ct_excluded = [], ct_bound_deleted = False,
     ct_status_present = False\<rparr>"
  have d: "isLifecycleOwnerRef ?d" by (simp add: isLifecycleOwnerRef_def SnapshotContentOwnerReference_def)
  have r: "lifecycleOwnerRefs [] ?d = Inr ([?d], True)" by (simp add: lifecycleOwnerRefs_def OwnerReferencesEqual_def)
  from lifecycle_link_exclusive [OF d, of "[]"] r show ?thesis by blast
qed

end
