(* ===== verification/Domain_Phase.thy ===== *)
theory Domain_Phase
  imports Cluster_State
begin

text \<open>
  The domain capture phase of an owning snapshot: the barriers that read it and the fold of the phase
  into a Ready triple that both writers of Ready share (\<open>snapshotcontent/ready_mirror.go\<close>).
\<close>

type_synonym ready_triple = "string \<times> string \<times> string"

definition ownerDomainCapturePhase :: "snapshot_obj \<Rightarrow> string" where
  "ownerDomainCapturePhase owner = so_phase owner"

definition ownerDomainCaptureFailed :: "snapshot_obj \<Rightarrow> bool \<times> string \<times> string" where
  "ownerDomainCaptureFailed owner =
     (if ownerDomainCapturePhase owner \<noteq> PhaseFailed then (False, '''', '''')
      else (True, so_phase_reason owner, so_phase_message owner))"

definition domainFailedMessage :: "string \<Rightarrow> string \<Rightarrow> string \<Rightarrow> string" where
  "domainFailedMessage freason fmsg fallback =
     (if freason \<noteq> '''' \<and> fmsg \<noteq> '''' then ''domain capture failed: '' @ freason @ '': '' @ fmsg
      else if freason \<noteq> '''' then ''domain capture failed: '' @ freason
      else if fmsg \<noteq> '''' then ''domain capture failed: '' @ fmsg
      else if fallback \<noteq> '''' then ''domain capture failed: '' @ fallback
      else ''domain capture failed'')"

definition applyDomainPhaseFold :: "snapshot_obj option \<Rightarrow> bool \<Rightarrow> ready_triple \<Rightarrow> ready_triple" where
  "applyDomainPhaseFold owner forContent t =
     (case (owner, t) of
        (None, _) \<Rightarrow> t
      | (Some ow, (status, reason, message)) \<Rightarrow>
        let phase = ownerDomainCapturePhase ow in
        if phase = '''' then (status, reason, message)
        else (case ownerDomainCaptureFailed ow of
          (True, freason, fmsg) \<Rightarrow>
            if forContent
            then (ConditionFalse, ReasonDomainCaptureFailed, domainFailedMessage freason fmsg message)
            else (ConditionFalse, if freason \<noteq> '''' then freason else reason, if fmsg \<noteq> '''' then fmsg else message)
        | (False, _, _) \<Rightarrow>
            if status = ConditionTrue \<and> phase \<noteq> PhaseFinished
            then (ConditionFalse, ReasonChildrenPending, ''waiting for domain capture to finish (phase='' @ phase @ '')'')
            else (status, reason, message)))"

definition ownerChildSetFrozen :: "snapshot_obj \<Rightarrow> bool" where
  "ownerChildSetFrozen owner =
     (if so_import_mode owner then True else so_phase owner \<in> {PhasePlanned, PhaseFinished, PhaseFailed})"

definition ownerManifestCaptured :: "snapshot_obj option \<Rightarrow> bool" where
  "ownerManifestCaptured owner = (case owner of None \<Rightarrow> False | Some ow \<Rightarrow> so_manifest_captured ow)"

text \<open>The fold never raises Ready; a True survives only when the domain finished or takes no part.\<close>

definition domain_done :: "snapshot_obj option \<Rightarrow> bool" where
  "domain_done owner = (case owner of None \<Rightarrow> True | Some ow \<Rightarrow> so_phase ow = '''' \<or> so_phase ow = PhaseFinished)"

lemma fold_True_iff:
  "fst (applyDomainPhaseFold owner forContent t) = ConditionTrue \<longleftrightarrow> fst t = ConditionTrue \<and> domain_done owner"
  by (cases t; cases owner)
    (auto simp: applyDomainPhaseFold_def ownerDomainCaptureFailed_def ownerDomainCapturePhase_def domain_done_def Let_def)

lemma fold_done: "domain_done owner \<Longrightarrow> applyDomainPhaseFold owner forContent t = t"
  by (cases t; cases owner)
    (auto simp: applyDomainPhaseFold_def ownerDomainCaptureFailed_def ownerDomainCapturePhase_def domain_done_def Let_def)

lemma fold_failed:
  "so_phase ow = PhaseFailed \<Longrightarrow> applyDomainPhaseFold (Some ow) True (st, r, m) =
     (ConditionFalse, ReasonDomainCaptureFailed, domainFailedMessage (so_phase_reason ow) (so_phase_message ow) m)"
  by (simp add: applyDomainPhaseFold_def ownerDomainCaptureFailed_def ownerDomainCapturePhase_def Let_def)

lemma fold_idem:
  "applyDomainPhaseFold owner False (applyDomainPhaseFold owner False t) = applyDomainPhaseFold owner False t"
  by (cases t; cases owner)
    (auto simp: applyDomainPhaseFold_def ownerDomainCaptureFailed_def ownerDomainCapturePhase_def Let_def)

end
