(* ===== verification/Excluded_Refs.thy ===== *)
theory Excluded_Refs
  imports Conditions
begin

text \<open>
  The durable set of excluded objects of a content node (\<open>snapshotcontent/excluded_refs.go\<close>): the
  union of what is already published, the owner's own vetoes and the aggregates of the children.
  The Go map is a list without duplicates in an unspecified order.
\<close>

definition excluded_less :: "excluded_ref \<Rightarrow> excluded_ref \<Rightarrow> bool" where
  "excluded_less a b =
     (if er_apiVersion a \<noteq> er_apiVersion b then er_apiVersion a < er_apiVersion b
      else if er_kind a \<noteq> er_kind b then er_kind a < er_kind b
      else er_name a < er_name b)"

definition sortExcludedObjectRefs :: "excluded_ref list \<Rightarrow> excluded_ref list" where
  "sortExcludedObjectRefs = sort_slice excluded_less"

definition sortedExcludedObjectRefs :: "excluded_ref list \<Rightarrow> excluded_ref list" where
  "sortedExcludedObjectRefs agg = sortExcludedObjectRefs agg"

fun union_refs :: "excluded_ref list \<Rightarrow> excluded_ref list \<Rightarrow> excluded_ref list" where
  "union_refs agg [] = agg"
| "union_refs agg (x # xs) = union_refs (if x \<in> set agg then agg else agg @ [x]) xs"

text \<open>
  \<open>parseExcludedRefs\<close> over the raw list: an entry that is not a map or lacks a field is skipped. The
  object records hold its result.
\<close>

definition parseExcludedRefs :: "(string \<times> string \<times> string) option list option \<Rightarrow> excluded_ref list" where
  "parseExcludedRefs raw = (case raw of None \<Rightarrow> []
     | Some rs \<Rightarrow> List.map_filter (\<lambda>r. case r of None \<Rightarrow> None
         | Some (av, k, n) \<Rightarrow> if av = '''' \<or> k = '''' \<or> n = '''' then None
             else Some \<lparr>er_apiVersion = av, er_kind = k, er_name = n\<rparr>) rs)"

definition excludedRefsToUnstructured :: "excluded_ref list \<Rightarrow> (string \<times> string \<times> string) option list" where
  "excludedRefsToUnstructured refs = map (\<lambda>r. Some (er_apiVersion r, er_kind r, er_name r)) refs"

definition ownDirectExcludedRefs :: "env \<Rightarrow> snapshot_content \<Rightarrow> excluded_ref list res" where
  "ownDirectExcludedRefs e c =
     (let r = ct_snapshot_ref c in
      if sr_apiVersion r = '''' \<or> sr_kind r = '''' \<or> sr_name r = '''' then Inr []
      else case e_snapshot e (sr_apiVersion r) (sr_kind r) (sr_namespace r) (sr_name r) of
        NotFound \<Rightarrow> Inr []
      | GetErr x \<Rightarrow> Inl (ClientError x)
      | Found owner \<Rightarrow> Inr (so_excluded owner))"

fun excluded_children :: "env \<Rightarrow> string option list \<Rightarrow> excluded_ref list \<Rightarrow> excluded_ref list res" where
  "excluded_children e [] agg = Inr agg"
| "excluded_children e (None # rs) agg = excluded_children e rs agg"
| "excluded_children e (Some childName # rs) agg =
     (if childName = '''' then excluded_children e rs agg
      else case e_content e childName of
        NotFound \<Rightarrow> excluded_children e rs agg
      | GetErr x \<Rightarrow> Inl (ClientError x)
      | Found child \<Rightarrow> excluded_children e rs (union_refs agg (ct_excluded child)))"

definition computeExcludedRefsAggregate :: "env \<Rightarrow> snapshot_content \<Rightarrow> excluded_ref list res" where
  "computeExcludedRefsAggregate e c =
     (case ownDirectExcludedRefs e c of
        Inl x \<Rightarrow> Inl x
      | Inr own \<Rightarrow>
     (case nested_or_fail ''status.childrenSnapshotContentRefs'' [] (ct_edges c) of
        Inl x \<Rightarrow> Inl x
      | Inr rawRefs \<Rightarrow>
     (case excluded_children e rawRefs (union_refs (union_refs [] (ct_excluded c)) own) of
        Inl x \<Rightarrow> Inl x
      | Inr agg \<Rightarrow> Inr (sortedExcludedObjectRefs agg))))"

text \<open>Set comparison by counting.\<close>

fun count_down :: "('a \<Rightarrow> int) \<Rightarrow> 'a list \<Rightarrow> ('a \<Rightarrow> int) option" where
  "count_down seen [] = Some seen"
| "count_down seen (x # xs) =
     (let seen = seen(x := seen x - 1) in if seen x < 0 then None else count_down seen xs)"

definition excludedObjectRefsEqualIgnoreOrder :: "excluded_ref list \<Rightarrow> excluded_ref list \<Rightarrow> bool" where
  "excludedObjectRefsEqualIgnoreOrder a b =
     (if length a \<noteq> length b then False
      else case count_down (fold (\<lambda>x f. f(x := f x + 1)) a (\<lambda>_. 0)) b of
        None \<Rightarrow> False
      | Some seen \<Rightarrow> list_all (\<lambda>x. seen x = 0) (a @ b))"

section \<open>Lemmas\<close>

interpretation excluded_order: slice_order excluded_less
proof -
  have "excluded_less = keys_less (\<lambda>r::excluded_ref. [er_apiVersion r, er_kind r, er_name r])"
    by (auto simp: fun_eq_iff excluded_less_def keys_less_def)
  moreover have "inj (\<lambda>r::excluded_ref. [er_apiVersion r, er_kind r, er_name r])"
    by (rule injI) (auto intro: excluded_ref.equality)
  ultimately show "slice_order excluded_less" using keys_less_order by metis
qed

lemma set_union_refs [simp]: "set (union_refs agg xs) = set agg \<union> set xs"
  by (induction agg xs rule: union_refs.induct) auto

lemma distinct_union_refs: "distinct agg \<Longrightarrow> distinct (union_refs agg xs)"
  by (induction agg xs rule: union_refs.induct) auto

lemma count_up: "fold (\<lambda>x f. f(x := f x + 1)) a g = (\<lambda>x. g x + int (count (mset a) x))"
  by (induction a arbitrary: g) (auto simp: fun_eq_iff)

lemma count_down_value:
  "count_down f b = Some s \<Longrightarrow> s x = f x - int (count (mset b) x)"
proof (induction b arbitrary: f)
  case (Cons y ys)
  then have "count_down (f(y := f y - 1)) ys = Some s" by (simp add: Let_def split: if_splits)
  from Cons.IH [OF this] show ?case by (auto split: if_splits)
qed simp

lemma count_down_ok:
  "(\<And>x. f x \<ge> int (count (mset b) x)) \<Longrightarrow> \<exists>s. count_down f b = Some s"
proof (induction b arbitrary: f)
  case (Cons y ys)
  have "f y - 1 \<ge> 0" using Cons.prems [of y] by simp
  moreover have "(f(y := f y - 1)) x \<ge> int (count (mset ys) x)" for x
    using Cons.prems [of x] by (auto split: if_splits)
  ultimately obtain s where "count_down (f(y := f y - 1)) ys = Some s" using Cons.IH by blast
  then show ?case using \<open>f y - 1 \<ge> 0\<close> by (simp add: Let_def)
qed simp

lemma excluded_equal_iff: "excludedObjectRefsEqualIgnoreOrder a b \<longleftrightarrow> mset a = mset b"
proof
  assume e: "excludedObjectRefsEqualIgnoreOrder a b"
  then obtain s where s: "count_down (\<lambda>x. int (count (mset a) x)) b = Some s" "\<forall>x\<in>set (a @ b). s x = 0"
    by (auto simp: excludedObjectRefsEqualIgnoreOrder_def count_up list_all_iff split: if_splits option.splits)
  have "count (mset a) x = count (mset b) x" for x
  proof (cases "x \<in> set (a @ b)")
    case True
    then have "s x = 0" using s(2) by blast
    then show ?thesis using count_down_value [OF s(1), of x] by simp
  next
    case False
    then have "x \<notin># mset a" "x \<notin># mset b" by auto
    then show ?thesis by (simp only: not_in_iff)
  qed
  then show "mset a = mset b" by (rule multiset_eqI)
next
  assume m: "mset a = mset b"
  then obtain s where s: "count_down (\<lambda>x. int (count (mset a) x)) b = Some s"
    using count_down_ok [of b "\<lambda>x. int (count (mset a) x)"] by auto
  have "s x = 0" for x using count_down_value [OF s, of x] m by simp
  then show "excludedObjectRefsEqualIgnoreOrder a b"
    using s m mset_eq_length [OF m] by (simp add: excludedObjectRefsEqualIgnoreOrder_def count_up list_all_iff)
qed

lemma parse_excluded_roundtrip:
  "\<forall>r\<in>set refs. er_apiVersion r \<noteq> '''' \<and> er_kind r \<noteq> '''' \<and> er_name r \<noteq> '''' \<Longrightarrow>
   parseExcludedRefs (Some (excludedRefsToUnstructured refs)) = refs"
  by (induction refs) (auto simp: parseExcludedRefs_def excludedRefsToUnstructured_def List.map_filter_simps)

definition child_excluded :: "env \<Rightarrow> string \<Rightarrow> excluded_ref set" where
  "child_excluded e n = (case e_content e n of Found child \<Rightarrow> set (ct_excluded child) | _ \<Rightarrow> {})"

lemma excluded_children_result:
  "excluded_children e rs agg = Inr agg' \<Longrightarrow> distinct agg \<Longrightarrow>
   distinct agg' \<and> set agg' = set agg \<union> (\<Union>n\<in>{n. Some n \<in> set rs \<and> n \<noteq> ''''}. child_excluded e n)"
proof (induction e rs agg rule: excluded_children.induct)
  case (3 e n rs agg)
  then show ?case
    by (cases "n = ''''"; cases "e_content e n") (auto simp: child_excluded_def distinct_union_refs)
qed auto

lemma excluded_result:
  assumes "computeExcludedRefsAggregate e c = Inr agg"
  shows "\<exists>own. ownDirectExcludedRefs e c = Inr own \<and>
     set agg = set (ct_excluded c) \<union> set own \<union>
       (\<Union>n\<in>{n. Some n \<in> set (nval [] (ct_edges c)) \<and> n \<noteq> ''''}. child_excluded e n) \<and>
     distinct agg \<and> in_order excluded_less agg"
proof -
  obtain agg0 own where own: "ownDirectExcludedRefs e c = Inr own"
    and ch: "excluded_children e (nval [] (ct_edges c)) (union_refs (union_refs [] (ct_excluded c)) own) = Inr agg0"
    and agg: "agg = sortedExcludedObjectRefs agg0"
    using assms by (cases "ct_edges c") (auto simp: computeExcludedRefsAggregate_def split: sum.splits)
  have "distinct (union_refs (union_refs [] (ct_excluded c)) own)" by (simp add: distinct_union_refs)
  note res = excluded_children_result [OF ch this]
  have d: "distinct agg" "set agg = set agg0"
    using res mset_eq_imp_distinct_iff [of agg agg0]
    by (simp_all add: agg sortedExcludedObjectRefs_def sortExcludedObjectRefs_def)
  have ord: "in_order excluded_less agg"
    by (simp add: agg sortedExcludedObjectRefs_def sortExcludedObjectRefs_def excluded_order.sort_slice_in_order)
  have "set agg = set (ct_excluded c) \<union> set own \<union>
       (\<Union>n\<in>{n. Some n \<in> set (nval [] (ct_edges c)) \<and> n \<noteq> ''''}. child_excluded e n)"
    using res d(2) by (simp only: set_union_refs) simp
  with own d(1) ord show ?thesis by blast
qed

lemma excluded_children_total:
  "excluded_children e rs agg = Inr r \<Longrightarrow> \<exists>r'. excluded_children e rs agg' = Inr r'"
  by (induction e rs agg arbitrary: agg' rule: excluded_children.induct) (auto split: if_splits get_res.splits)

text \<open>Writing the aggregate back settles it.\<close>

lemma excluded_stable:
  assumes "computeExcludedRefsAggregate e c = Inr agg" and "ct_edges c' = ct_edges c"
    and "ownDirectExcludedRefs e c' = ownDirectExcludedRefs e c" and "ct_excluded c' = agg"
  shows "\<exists>agg'. computeExcludedRefsAggregate e c' = Inr agg' \<and> excludedObjectRefsEqualIgnoreOrder agg agg'"
proof -
  obtain r own where r: "excluded_children e (nval [] (ct_edges c)) (union_refs (union_refs [] (ct_excluded c)) own) = Inr r"
    and own: "ownDirectExcludedRefs e c = Inr own" and edges: "ct_edges c \<noteq> NBadType"
    using assms(1) by (cases "ct_edges c") (auto simp: computeExcludedRefsAggregate_def split: sum.splits)
  obtain r' where "excluded_children e (nval [] (ct_edges c)) (union_refs (union_refs [] agg) own) = Inr r'"
    using excluded_children_total [OF r] by blast
  then have "\<exists>agg'. computeExcludedRefsAggregate e c' = Inr agg'"
    using own edges assms(2-4) by (cases "ct_edges c") (auto simp: computeExcludedRefsAggregate_def)
  then obtain agg' where agg': "computeExcludedRefsAggregate e c' = Inr agg'" ..
  from excluded_result [OF assms(1)] obtain own where own: "ownDirectExcludedRefs e c = Inr own"
    "set agg = set (ct_excluded c) \<union> set own \<union>
       (\<Union>n\<in>{n. Some n \<in> set (nval [] (ct_edges c)) \<and> n \<noteq> ''''}. child_excluded e n)" "distinct agg" by blast
  have "distinct agg' \<and> set agg' = set agg"
    using excluded_result [OF agg'] own assms(2-4) by auto
  then have "mset agg = mset agg'" by (metis set_eq_iff_mset_eq_distinct \<open>distinct agg\<close>)
  with agg' show ?thesis by (simp add: excluded_equal_iff)
qed

section \<open>Properties\<close>

text \<open>
  The published exclusions are monotone and complete: the aggregate is exactly the union of what
  was published, the owner's vetoes and the aggregates of all children that exist, sorted and without
  duplicates, and does not depend on the order in which the set is iterated; publishing it makes the
  next comparison find no change.
\<close>

theorem excluded_aggregate:
  assumes "computeExcludedRefsAggregate e c = Inr agg" and "distinct (ct_excluded c)"
  shows "\<exists>own. ownDirectExcludedRefs e c = Inr own \<and>
     set agg = set (ct_excluded c) \<union> set own \<union>
       (\<Union>n\<in>{n. Some n \<in> set (nval [] (ct_edges c)) \<and> n \<noteq> ''''}. child_excluded e n) \<and>
     distinct agg \<and> in_order excluded_less agg \<and>
     (\<forall>agg'. mset agg' = mset agg \<longrightarrow> sortedExcludedObjectRefs agg' = agg) \<and>
     (excludedObjectRefsEqualIgnoreOrder (ct_excluded c) agg \<longleftrightarrow> set (ct_excluded c) = set agg)"
proof -
  note res = excluded_result [OF assms(1)]
  then have "mset (ct_excluded c) = mset agg \<longleftrightarrow> set (ct_excluded c) = set agg"
    using assms(2) by (metis mset_eq_setD set_eq_iff_mset_eq_distinct)
  moreover have "mset agg' = mset agg \<Longrightarrow> sortedExcludedObjectRefs agg' = agg" for agg'
    unfolding sortedExcludedObjectRefs_def sortExcludedObjectRefs_def
    using excluded_order.sort_slice_canonical [of agg agg'] res by metis
  ultimately show ?thesis using res unfolding excluded_equal_iff by blast
qed

lemma excluded_aggregate_witness:
  "\<exists>agg. computeExcludedRefsAggregate sample_env (sample_content\<lparr>ct_excluded :=
      [\<lparr>er_apiVersion = ''v1'', er_kind = ''Pod'', er_name = ''b''\<rparr>]\<rparr>) = Inr agg \<and>
     set agg = {\<lparr>er_apiVersion = ''v1'', er_kind = ''Pod'', er_name = ''b''\<rparr>}"
proof -
  let ?c = "sample_content\<lparr>ct_excluded := [\<lparr>er_apiVersion = ''v1'', er_kind = ''Pod'', er_name = ''b''\<rparr>]\<rparr>"
  obtain agg where a: "computeExcludedRefsAggregate sample_env ?c = Inr agg"
    by (simp add: computeExcludedRefsAggregate_def ownDirectExcludedRefs_def sample_content_def zero_subject_ref_def Let_def)
  from excluded_aggregate [OF a] a show ?thesis
    by (auto simp: sample_content_def ownDirectExcludedRefs_def zero_subject_ref_def Let_def)
qed

end
