(* ===== verification/Content_Status.thy ===== *)
theory Content_Status
  imports Content_Children Owner_Refs Domain_Phase Excluded_Refs
begin

text \<open>
  The status aggregation of a SnapshotContent (\<open>snapshotcontent/controller.go\<close>): the own legs, the
  subtree latch, the priority ladder that derives Ready, the adjustments of one reconcile pass and
  the status the pass writes.
\<close>

record status_plan =
  manifestsReady :: string
  manifestsReason :: string
  manifestsMessage :: string
  manifestsFailed :: bool
  volumeReady :: string
  volumeReason :: string
  volumeMessage :: string
  volumeFailed :: bool
  childrenReady :: string
  childrenReason :: string
  childrenMessage :: string
  childrenFailed :: bool
  readyStatus :: string
  readyReason :: string
  readyMessage :: string
  subtreePersisted :: bool
  subtreeMessage :: string

section \<open>The manifest checkpoint\<close>

definition waiting_mcp :: "string \<Rightarrow> string" where
  "waiting_mcp n = ''waiting for ManifestCheckpoint '' @ n @ '' to become Ready''"

definition resolveManifestCheckpointReady :: "env \<Rightarrow> string \<Rightarrow> (string \<times> bool \<times> bool \<times> string) res" where
  "resolveManifestCheckpointReady e mcpName =
     (case e_mcp e mcpName of
        NotFound \<Rightarrow> Inr (mcpName, False, False, waiting_mcp mcpName)
      | GetErr x \<Rightarrow> Inl (ClientError x)
      | Found mcp \<Rightarrow>
        (case find_condition e (mp_conditions mcp) ''Ready'' of
           None \<Rightarrow> Inr (mp_name mcp, False, False, waiting_mcp (mp_name mcp))
         | Some cond \<Rightarrow>
             if co_status cond = ConditionTrue then Inr (mp_name mcp, True, False, co_message cond)
             else if co_status cond = ConditionFalse \<and> co_reason cond = ''Failed''
             then Inr (mp_name mcp, False, True, co_message cond)
             else Inr (mp_name mcp, False, False, waiting_mcp (mp_name mcp))))"

definition ensureManifestCheckpointOwnedByContent :: "env \<Rightarrow> string \<Rightarrow> snapshot_content \<Rightarrow> unit res" where
  "ensureManifestCheckpointOwnedByContent e mcpName c =
     (case e_mcp e mcpName of
        NotFound \<Rightarrow> Inl (NotFoundError mcpName)
      | GetErr x \<Rightarrow> Inl (ClientError x)
      | Found mcp \<Rightarrow>
        (case snapshotContentControllerOwnerRefsForHandoff (mp_owner_refs mcp)
                \<lparr>or_apiVersion = storageGroupVersion, or_kind = kindSnapshotContent, or_name = ct_name c,
                 or_uid = ct_uid c, or_controller = Some True\<rparr> of
           Inl x \<Rightarrow> Inl (Wrap (''ManifestCheckpoint '' @ mcpName) x)
         | Inr (refs, changed) \<Rightarrow>
             if \<not> changed then Inr ()
             else (case patch_mcp e mcpName refs of None \<Rightarrow> Inr () | Some x \<Rightarrow> Inl (ClientError x))))"

fun first_missing_chunk :: "env \<Rightarrow> string list \<Rightarrow> string res" where
  "first_missing_chunk e [] = Inr ''''"
| "first_missing_chunk e (ch # chs) =
     (if ch = '''' then first_missing_chunk e chs
      else case live_chunk e ch of
        Found _ \<Rightarrow> first_missing_chunk e chs
      | NotFound \<Rightarrow> Inr ch
      | GetErr x \<Rightarrow> Inl (ClientError x))"

definition firstMissingManifestCheckpointChunk :: "env \<Rightarrow> string \<Rightarrow> string res" where
  "firstMissingManifestCheckpointChunk e mcpName =
     (case e_mcp e mcpName of
        NotFound \<Rightarrow> Inr ''''
      | GetErr x \<Rightarrow> Inl (ClientError x)
      | Found mcp \<Rightarrow> first_missing_chunk e (mp_chunks mcp))"

definition validateCommonContentManifestCheckpoint ::
  "env \<Rightarrow> snapshot_content \<Rightarrow> string \<Rightarrow> (bool \<times> bool \<times> string) res" where
  "validateCommonContentManifestCheckpoint e c mcpName =
     (case resolveManifestCheckpointReady e mcpName of
        Inl x \<Rightarrow> Inl x
      | Inr (resolvedMCPName, ready, failed, msg) \<Rightarrow>
          if \<not> ready then Inr (ready, failed, msg)
          else case ensureManifestCheckpointOwnedByContent e resolvedMCPName c of
            Inl x \<Rightarrow> Inl x
          | Inr _ \<Rightarrow>
            (case firstMissingManifestCheckpointChunk e resolvedMCPName of
               Inl x \<Rightarrow> Inl x
             | Inr missingChunk \<Rightarrow>
                 if missingChunk \<noteq> ''''
                 then Inr (False, True, ''ManifestCheckpoint '' @ resolvedMCPName @
                   '' references missing chunk '' @ missingChunk)
                 else Inr (True, False, msg)))"

section \<open>The legs\<close>

definition fillOwnLegs :: "env \<Rightarrow> snapshot_content \<Rightarrow> status_plan \<Rightarrow> status_plan res" where
  "fillOwnLegs e c plan =
     (case nested_or_fail ''status.manifestCheckpointName'' '''' (ct_mcp_name c) of
        Inl x \<Rightarrow> Inl x
      | Inr mcpName \<Rightarrow>
        if mcpName = '''' then Inr (plan\<lparr>manifestsReady := ConditionFalse,
          manifestsReason := ReasonManifestCapturePending,
          manifestsMessage := ''waiting for manifest capture checkpoint to be published''\<rparr>)
        else case validateCommonContentManifestCheckpoint e c mcpName of
          Inl x \<Rightarrow> Inl x
        | Inr (mcpReady, mcpFailed, mcpMessage) \<Rightarrow>
            if mcpFailed then Inr (plan\<lparr>manifestsReady := ConditionFalse, manifestsFailed := True,
              manifestsReason := ReasonManifestCheckpointFailed, manifestsMessage := mcpMessage\<rparr>)
            else if \<not> mcpReady then Inr (plan\<lparr>manifestsReady := ConditionFalse,
              manifestsReason := ReasonManifestCapturePending, manifestsMessage := mcpMessage\<rparr>)
            else let plan = plan\<lparr>manifestsReady := ConditionTrue, manifestsReason := ReasonCompleted,
                   manifestsMessage := ''manifest is ready''\<rparr> in
              case resolveDataReadiness e c of
                Inl x \<Rightarrow> Inl x
              | Inr (dataReady, dataReason, dataMessage) \<Rightarrow>
                  if \<not> dataReady then Inr (plan\<lparr>volumeReady := ConditionFalse, volumeReason := dataReason,
                    volumeMessage := dataMessage, volumeFailed := isTerminalDataFailure dataReason\<rparr>)
                  else Inr (plan\<lparr>volumeReady := ConditionTrue, volumeReason := ReasonCompleted,
                    volumeMessage := ''data is ready''\<rparr>))"

definition computeSubtreeManifestsPersisted :: "env \<Rightarrow> snapshot_content \<Rightarrow> status_plan \<Rightarrow> status_plan res" where
  "computeSubtreeManifestsPersisted e c plan =
     (if ct_subtree_persisted c then Inr (plan\<lparr>subtreePersisted := True\<rparr>)
      else case aggregateChildrenSubtreeManifestsPersisted e c of
        Inl x \<Rightarrow> Inl x
      | Inr (childrenPersisted, childMessage) \<Rightarrow>
          if manifestsReady plan = ConditionTrue \<and> childrenPersisted
          then Inr (plan\<lparr>subtreePersisted := True\<rparr>)
          else Inr (plan\<lparr>subtreePersisted := False, subtreeMessage :=
            (if childMessage \<noteq> '''' then childMessage
             else ''manifests are being captured: '' @ manifestsMessage plan)\<rparr>))"

definition deriveReadyStatus :: "status_plan \<Rightarrow> status_plan" where
  "deriveReadyStatus plan =
     (if manifestsReady plan \<noteq> ConditionTrue \<and> manifestsFailed plan then
        plan\<lparr>readyStatus := ConditionFalse, readyReason := manifestsReason plan, readyMessage := manifestsMessage plan\<rparr>
      else if volumeReady plan \<noteq> ConditionTrue \<and> volumeFailed plan then
        plan\<lparr>readyStatus := ConditionFalse, readyReason := volumeReason plan, readyMessage := volumeMessage plan\<rparr>
      else if childrenReady plan \<noteq> ConditionTrue \<and> childrenFailed plan then
        plan\<lparr>readyStatus := ConditionFalse, readyReason := childrenReason plan, readyMessage := childrenMessage plan\<rparr>
      else if manifestsReady plan \<noteq> ConditionTrue then
        plan\<lparr>readyStatus := ConditionFalse, readyReason := manifestsReason plan, readyMessage := manifestsMessage plan\<rparr>
      else if volumeReady plan \<noteq> ConditionTrue then
        plan\<lparr>readyStatus := ConditionFalse, readyReason := volumeReason plan, readyMessage := volumeMessage plan\<rparr>
      else if childrenReady plan \<noteq> ConditionTrue then
        plan\<lparr>readyStatus := ConditionFalse, readyReason := childrenReason plan, readyMessage := childrenMessage plan\<rparr>
      else if \<not> subtreePersisted plan then
        plan\<lparr>readyStatus := ConditionFalse, readyReason := ReasonSubtreeManifestCapturePending,
             readyMessage := subtreeMessage plan\<rparr>
      else plan\<lparr>readyStatus := ConditionTrue, readyReason := ReasonCompleted,
             readyMessage := ''manifests (archived), data, and child content are ready''\<rparr>)"

definition initial_plan :: status_plan where
  "initial_plan = \<lparr>manifestsReady = ConditionFalse, manifestsReason = ReasonManifestCapturePending,
     manifestsMessage = ''waiting for manifest capture'', manifestsFailed = False,
     volumeReady = ConditionUnknown, volumeReason = ReasonManifestCapturePending,
     volumeMessage = ''data leg not evaluated until manifest capture is ready'', volumeFailed = False,
     childrenReady = ConditionTrue, childrenReason = ReasonCompleted,
     childrenMessage = ''no child content'', childrenFailed = False,
     readyStatus = '''', readyReason = '''', readyMessage = '''', subtreePersisted = False, subtreeMessage = ''''\<rparr>"

definition buildCommonSnapshotContentStatusPlan :: "env \<Rightarrow> snapshot_content \<Rightarrow> status_plan res" where
  "buildCommonSnapshotContentStatusPlan e c =
     (case fillOwnLegs e c initial_plan of
        Inl x \<Rightarrow> Inl x
      | Inr plan \<Rightarrow>
     (case validateCommonContentChildren e c of
        Inl x \<Rightarrow> Inl x
      | Inr (ready, childReason, childMessage) \<Rightarrow>
        let plan = (if \<not> ready then plan\<lparr>childrenReady := ConditionFalse, childrenReason := childReason,
                      childrenMessage := childMessage, childrenFailed := (childReason = ReasonChildrenFailed)\<rparr>
                    else if childMessage \<noteq> '''' then plan\<lparr>childrenMessage := childMessage\<rparr> else plan) in
        case computeSubtreeManifestsPersisted e c plan of
          Inl x \<Rightarrow> Inl x
        | Inr plan \<Rightarrow> Inr (deriveReadyStatus plan)))"

section \<open>The adjustments of one pass\<close>

definition data_leg_pending_downgrade :: "bool \<Rightarrow> status_plan \<Rightarrow> status_plan" where
  "data_leg_pending_downgrade dataLegPending plan =
     (if dataLegPending \<and> volumeReady plan = ConditionTrue
      then deriveReadyStatus (plan\<lparr>volumeReady := ConditionFalse, volumeReason := ReasonDataCapturePending,
        volumeMessage := ''waiting for the data leg to be published and the volume snapshot artifact to be ready'',
        volumeFailed := False\<rparr>)
      else plan)"

definition data_leg_terminal :: "string \<Rightarrow> string \<Rightarrow> status_plan \<Rightarrow> status_plan" where
  "data_leg_terminal termReason termMessage plan =
     (if termReason \<noteq> ''''
      then deriveReadyStatus (plan\<lparr>volumeReady := ConditionFalse, volumeReason := termReason,
        volumeMessage := termMessage, volumeFailed := True\<rparr>)
      else plan)"

definition publishedManifestCheckpointGone :: "env \<Rightarrow> string \<Rightarrow> bool res" where
  "publishedManifestCheckpointGone e mcpName =
     (case live_mcp e mcpName of NotFound \<Rightarrow> Inr True | GetErr x \<Rightarrow> Inl (ClientError x) | Found _ \<Rightarrow> Inr False)"

definition lost_checkpoint :: "env \<Rightarrow> snapshot_content \<Rightarrow> snapshot_obj option \<Rightarrow> status_plan \<Rightarrow> status_plan res" where
  "lost_checkpoint e c owner plan =
     (if ownerManifestCaptured owner \<and> manifestsReady plan \<noteq> ConditionTrue \<and> \<not> manifestsFailed plan then
        let mcpName = nval '''' (ct_mcp_name c) in
        if mcpName = '''' then Inr plan
        else case publishedManifestCheckpointGone e mcpName of
          Inl x \<Rightarrow> Inl x
        | Inr gone \<Rightarrow>
            if gone then Inr (deriveReadyStatus (plan\<lparr>manifestsReady := ConditionFalse, manifestsFailed := True,
              manifestsReason := ReasonManifestCheckpointFailed,
              manifestsMessage := ''published ManifestCheckpoint '' @ mcpName @ '' was deleted after manifest capture''\<rparr>))
            else Inr plan
      else Inr plan)"

definition fold_domain_phase :: "snapshot_obj option \<Rightarrow> status_plan \<Rightarrow> status_plan" where
  "fold_domain_phase owner plan =
     (case applyDomainPhaseFold owner True (readyStatus plan, readyReason plan, readyMessage plan) of
        (status, reason, message) \<Rightarrow> plan\<lparr>readyStatus := status, readyReason := reason, readyMessage := message\<rparr>)"

definition settled_plan ::
  "env \<Rightarrow> snapshot_content \<Rightarrow> bool \<Rightarrow> string \<Rightarrow> string \<Rightarrow> snapshot_obj option \<Rightarrow> status_plan res" where
  "settled_plan e c dataLegPending termReason termMessage owner =
     (case buildCommonSnapshotContentStatusPlan e c of
        Inl x \<Rightarrow> Inl x
      | Inr plan \<Rightarrow>
        (case lost_checkpoint e c owner
                (data_leg_terminal termReason termMessage (data_leg_pending_downgrade dataLegPending plan)) of
           Inl x \<Rightarrow> Inl x
         | Inr plan \<Rightarrow> Inr (fold_domain_phase owner plan)))"

section \<open>Writing the status\<close>

definition desired_conditions :: "int \<Rightarrow> status_plan \<Rightarrow> condition list" where
  "desired_conditions gen plan =
    [\<lparr>co_type = ConditionManifestsReady, co_status = manifestsReady plan, co_reason = manifestsReason plan,
      co_message = manifestsMessage plan, co_gen = gen, co_time = ''''\<rparr>,
     \<lparr>co_type = ConditionDataReady, co_status = volumeReady plan, co_reason = volumeReason plan,
      co_message = volumeMessage plan, co_gen = gen, co_time = ''''\<rparr>,
     \<lparr>co_type = ConditionChildrenReady, co_status = childrenReady plan, co_reason = childrenReason plan,
      co_message = childrenMessage plan, co_gen = gen, co_time = ''''\<rparr>,
     \<lparr>co_type = ConditionReady, co_status = readyStatus plan, co_reason = readyReason plan,
      co_message = readyMessage plan, co_gen = gen, co_time = ''''\<rparr>]"

text \<open>
  The pass returns the content as written, whether it wrote anything, and whether it is Ready. An
  error of the status patch itself is \<open>patch_err\<close>.

  A content that has no status map yet is a case of its own: the pass takes an empty map that is not part of the
  object, the conditions go into the map that SetStatusConditions adds to the object, and the assignment of the first
  map drops them, so that an empty list of conditions is written. \<open>ct_status_present\<close> says that the object has a
  status map even when it holds none of the fields of the record.
\<close>

definition has_status :: "('a) snapshot_content_scheme \<Rightarrow> bool" where
  "has_status c \<longleftrightarrow> ct_status_present c \<or> ct_conditions c \<noteq> [] \<or> ct_mcp_name c \<noteq> NAbsent \<or> ct_data c \<noteq> None \<or>
     ct_edges c \<noteq> NAbsent \<or> ct_subtree_persisted c \<or> ct_excluded c \<noteq> [] \<or> ct_bound_deleted c"

definition reconcileCommonSnapshotContentStatus ::
  "env \<Rightarrow> string option \<Rightarrow> snapshot_content \<Rightarrow> bool \<Rightarrow> string \<Rightarrow> string \<Rightarrow> snapshot_obj option \<Rightarrow>
   (snapshot_content \<times> bool \<times> bool) res" where
  "reconcileCommonSnapshotContentStatus e patch_err c dataLegPending termReason termMessage owner =
     (case settled_plan e c dataLegPending termReason termMessage owner of
        Inl x \<Rightarrow> Inl x
      | Inr plan \<Rightarrow>
        let ready = (readyStatus plan = ConditionTrue);
            (conds, condsChanged) = upsert_all e (ct_conditions c) (desired_conditions (ct_generation c) plan);
            persistedChanged = (subtreePersisted plan \<noteq> ct_subtree_persisted c) in
        case computeExcludedRefsAggregate e c of
          Inl x \<Rightarrow> Inl x
        | Inr newExcluded \<Rightarrow>
          let excludedChanged = (\<not> excludedObjectRefsEqualIgnoreOrder (ct_excluded c) newExcluded);
              changed = (condsChanged \<or> persistedChanged \<or> excludedChanged) in
          if \<not> changed then Inr (c, False, ready)
          else (case patch_err of
            Some x \<Rightarrow> Inl (ClientError x)
          | None \<Rightarrow> Inr (c\<lparr>ct_conditions := (if has_status c then conds else []),
              ct_subtree_persisted := (if persistedChanged then subtreePersisted plan else ct_subtree_persisted c),
              ct_excluded := (if excludedChanged then newExcluded else ct_excluded c),
              ct_status_present := True\<rparr>, True, ready)))"

definition snapshotContentNeedsActiveRequeue :: "env \<Rightarrow> snapshot_content \<Rightarrow> bool \<Rightarrow> bool \<Rightarrow> bool" where
  "snapshotContentNeedsActiveRequeue e c ready projectionRequeue =
     (case find_condition e (ct_conditions c) ConditionReady of
        Some cond \<Rightarrow>
          if co_status cond = ConditionFalse \<and>
             (IsReasonTerminal (co_reason cond) \<or> isTerminalChildContentFailure (co_reason cond))
          then False else \<not> ready \<or> projectionRequeue
      | None \<Rightarrow> \<not> ready \<or> projectionRequeue)"

section \<open>What each leg means\<close>

definition manifest_ok :: "env \<Rightarrow> snapshot_content \<Rightarrow> bool" where
  "manifest_ok e c = (let n = nval '''' (ct_mcp_name c) in n \<noteq> '''' \<and>
     (case e_mcp e n of
        Found mcp \<Rightarrow> (case find_condition e (mp_conditions mcp) ''Ready'' of
            Some cond \<Rightarrow> co_status cond = ConditionTrue | None \<Rightarrow> False) \<and>
          (\<forall>ch\<in>set (mp_chunks mcp). ch \<noteq> '''' \<longrightarrow> live_chunk e ch \<noteq> NotFound)
      | _ \<Rightarrow> False))"

text \<open>The checkpoint reports its own failure, or is Ready with a chunk that is gone.\<close>

definition checkpoint_failed :: "env \<Rightarrow> snapshot_content \<Rightarrow> bool" where
  "checkpoint_failed e c = (let n = nval '''' (ct_mcp_name c) in n \<noteq> '''' \<and>
     (case e_mcp e n of
        Found mcp \<Rightarrow> (case find_condition e (mp_conditions mcp) ''Ready'' of
            Some cond \<Rightarrow> co_status cond = ConditionFalse \<and> co_reason cond = ''Failed'' \<or>
              co_status cond = ConditionTrue \<and> (\<exists>ch\<in>set (mp_chunks mcp). ch \<noteq> '''' \<and> live_chunk e ch = NotFound)
          | None \<Rightarrow> False)
      | _ \<Rightarrow> False))"

definition data_failed :: "env \<Rightarrow> snapshot_content \<Rightarrow> bool" where
  "data_failed e c = (manifest_ok e c \<and> verdicts e (GetStatusDataRefs c) \<inter> terminalDataFailureReasons \<noteq> {})"

definition data_ok :: "env \<Rightarrow> snapshot_content \<Rightarrow> bool" where
  "data_ok e c = (\<forall>b\<in>set (GetStatusDataRefs c). durable e b)"

definition children_ok :: "env \<Rightarrow> snapshot_content \<Rightarrow> bool" where
  "children_ok e c = ((\<forall>n\<in>set (edge_names c). child_ready e n) \<and> (ct_subtree_persisted c \<or> declared_linked e c))"

definition subtree_ok :: "env \<Rightarrow> snapshot_content \<Rightarrow> bool" where
  "subtree_ok e c = (ct_subtree_persisted c \<or>
     (manifest_ok e c \<and> (\<forall>n\<in>set (edge_names c). child_persisted e n) \<and> declared_linked e c))"

text \<open>An object read by name carries that name.\<close>

definition mcp_names_agree :: "env \<Rightarrow> bool" where
  "mcp_names_agree e = (\<forall>n mcp. e_mcp e n = Found mcp \<longrightarrow> mp_name mcp = n)"

lemma first_missing_chunk_result:
  "first_missing_chunk e chs = Inr m \<Longrightarrow>
   (m = '''') = (\<forall>ch\<in>set chs. ch \<noteq> '''' \<longrightarrow> live_chunk e ch \<noteq> NotFound)"
  by (induction e chs rule: first_missing_chunk.induct) (auto split: if_splits get_res.splits)

lemma checkpoint_verdict:
  assumes "mcp_names_agree e" "n = nval '''' (ct_mcp_name c)" "n \<noteq> ''''"
    and "validateCommonContentManifestCheckpoint e c n = Inr (ready, failed, msg)"
  shows "ready = manifest_ok e c" and "failed = checkpoint_failed e c" and "failed \<Longrightarrow> \<not> ready"
proof -
  have name: "e_mcp e n = Found mcp \<Longrightarrow> mp_name mcp = n" for mcp
    using assms(1) by (simp add: mcp_names_agree_def)
  have "ready = manifest_ok e c \<and> failed = checkpoint_failed e c \<and> (failed \<longrightarrow> \<not> ready)"
  proof (cases "e_mcp e n")
    case (Found mcp)
    show ?thesis
      using assms(4) Found name [OF Found] assms(2,3)
        first_missing_chunk_result [of e "mp_chunks mcp"]
      by (auto simp: validateCommonContentManifestCheckpoint_def resolveManifestCheckpointReady_def
          firstMissingManifestCheckpointChunk_def manifest_ok_def checkpoint_failed_def Let_def
          split: option.splits if_splits sum.splits)
  qed (use assms(2-4) in \<open>auto simp: validateCommonContentManifestCheckpoint_def
      resolveManifestCheckpointReady_def manifest_ok_def checkpoint_failed_def Let_def\<close>)
  then show "ready = manifest_ok e c" "failed = checkpoint_failed e c" "failed \<Longrightarrow> \<not> ready" by auto
qed

definition own_legs_ok :: "env \<Rightarrow> snapshot_content \<Rightarrow> status_plan \<Rightarrow> bool" where
  "own_legs_ok e c p \<longleftrightarrow>
     (manifestsReady p = ConditionTrue) = manifest_ok e c \<and>
     (volumeReady p = ConditionTrue) = (manifest_ok e c \<and> data_ok e c) \<and>
     manifestsFailed p = checkpoint_failed e c \<and> volumeFailed p = data_failed e c \<and>
     (manifestsFailed p \<longrightarrow> manifestsReady p \<noteq> ConditionTrue \<and> manifestsReason p = ReasonManifestCheckpointFailed) \<and>
     (manifestsReady p \<noteq> ConditionTrue \<and> \<not> manifestsFailed p \<longrightarrow> manifestsReason p = ReasonManifestCapturePending) \<and>
     (volumeFailed p \<longrightarrow> volumeReady p \<noteq> ConditionTrue \<and> isTerminalDataFailure (volumeReason p)) \<and>
     (volumeReady p \<noteq> ConditionTrue \<and> \<not> volumeFailed p \<longrightarrow>
        volumeReason p \<in> {ReasonManifestCapturePending, ReasonDataCapturePending})"

lemma fillOwnLegs_ok:
  assumes "mcp_names_agree e" "fillOwnLegs e c initial_plan = Inr p"
  shows "own_legs_ok e c p" and "childrenReady p = ConditionTrue" and "childrenFailed p = False" and "subtreePersisted p = False"
proof -
  let ?n = "nval '''' (ct_mcp_name c)"
  have "own_legs_ok e c p \<and> childrenReady p = ConditionTrue \<and> childrenFailed p = False \<and> subtreePersisted p = False"
  proof (cases "?n = ''''")
    case True
    then show ?thesis using assms(2)
      by (cases "ct_mcp_name c") (auto simp: fillOwnLegs_def own_legs_ok_def manifest_ok_def checkpoint_failed_def data_failed_def
          initial_plan_def Let_def)
  next
    case False
    then obtain v where v: "ct_mcp_name c = NVal v" "v \<noteq> ''''" by (cases "ct_mcp_name c") auto
    obtain ready failed msg where val: "validateCommonContentManifestCheckpoint e c ?n = Inr (ready, failed, msg)"
      using assms(2) v by (auto simp: fillOwnLegs_def split: sum.splits)
    note ck = checkpoint_verdict [OF assms(1) refl False val]
    show ?thesis
    proof (cases "ready")
      case False
      then show ?thesis using assms(2) v val ck
        by (auto simp: fillOwnLegs_def own_legs_ok_def data_failed_def initial_plan_def split: if_splits)
    next
      case True
      then obtain dr dreason dmsg where d: "resolveDataReadiness e c = Inr (dr, dreason, dmsg)"
        using assms(2) v val ck by (auto simp: fillOwnLegs_def Let_def split: sum.splits if_splits)
      have dv: "dr = data_ok e c" "dr \<Longrightarrow> dreason = ''''"
        "\<not> dr \<Longrightarrow> isTerminalDataFailure dreason \<or> dreason = ReasonDataCapturePending"
        using resolveDataBindings_reason [of e "GetStatusDataRefs c" dr dreason dmsg] d
          resolveDataBindings_total [of e "GetStatusDataRefs c"] verdicts_empty [of "GetStatusDataRefs c" e]
        by (auto simp: resolveDataReadiness_def data_ok_def isTerminalDataFailure_def terminalDataFailureReasons_def)
      have df: "isTerminalDataFailure dreason \<longleftrightarrow> verdicts e (GetStatusDataRefs c) \<inter> terminalDataFailureReasons \<noteq> {}"
        using resolveDataBindings_reason(2) [of e "GetStatusDataRefs c" dr dreason dmsg] d
        by (auto simp: resolveDataReadiness_def isTerminalDataFailure_def terminalDataFailureReasons_def)
      have "\<not> isTerminalDataFailure ''''"
        by (simp add: isTerminalDataFailure_def terminalDataFailureReasons_def)
      then have df2: "dr \<Longrightarrow> \<not> isTerminalDataFailure dreason" using dv(2) by simp
      have mo: "manifest_ok e c" "\<not> checkpoint_failed e c" using ck True by auto
      have nf: "\<not> failed" using ck True by auto
      have p: "p = (let q = initial_plan\<lparr>manifestsReady := ConditionTrue, manifestsReason := ReasonCompleted,
            manifestsMessage := ''manifest is ready''\<rparr> in
          if dr then q\<lparr>volumeReady := ConditionTrue, volumeReason := ReasonCompleted, volumeMessage := ''data is ready''\<rparr>
          else q\<lparr>volumeReady := ConditionFalse, volumeReason := dreason, volumeMessage := dmsg,
            volumeFailed := isTerminalDataFailure dreason\<rparr>)"
        using assms(2) v val nf True d by (simp add: fillOwnLegs_def Let_def split: if_splits)
      show ?thesis
        using mo dv df df2 by (cases dr) (simp_all add: p own_legs_ok_def initial_plan_def data_failed_def Let_def)
    qed
  qed
  then show "own_legs_ok e c p" "childrenReady p = ConditionTrue" "childrenFailed p = False" "subtreePersisted p = False"
    by auto
qed

lemma aggregate_verdict:
  assumes "aggregateChildrenSubtreeManifestsPersisted e c = Inr (p, m)"
  shows "p = ((\<forall>n\<in>set (edge_names c). child_persisted e n) \<and> declared_linked e c)"
proof -
  obtain w ds complete where w: "persisted_walk e (nval [] (ct_edges c)) edge_walk0 = Inr w"
    and d: "declaredNonLeafChildContentNames e c = Inr (ds, complete)"
    using assms by (cases "ct_edges c")
      (auto simp: aggregateChildrenSubtreeManifestsPersisted_def split: sum.splits)
  have w': "w_linked w = edge_names c" "w_pending w = filter (\<lambda>n. \<not> child_persisted e n) (edge_names c)"
    using persisted_walk_result [OF w] by (simp_all add: edge_walk0_def edge_names_of)
  have "filter (\<lambda>dn. dn \<notin> set (edge_names c)) ds = [] \<longleftrightarrow> set ds \<subseteq> set (edge_names c)"
    "filter (\<lambda>n. \<not> child_persisted e n) (edge_names c) = [] \<longleftrightarrow> (\<forall>n\<in>set (edge_names c). child_persisted e n)"
    by (auto simp: filter_empty_conv)
  then show ?thesis
    using assms w d w' by (cases "ct_edges c")
      (auto simp: aggregateChildrenSubtreeManifestsPersisted_def declared_linked_def Let_def split: if_splits)
qed

definition legs_ok :: "env \<Rightarrow> snapshot_content \<Rightarrow> status_plan \<Rightarrow> bool" where
  "legs_ok e c p \<longleftrightarrow> own_legs_ok e c p \<and>
     (childrenReady p = ConditionTrue) = children_ok e c \<and>
     (childrenFailed p \<longrightarrow> childrenReady p \<noteq> ConditionTrue \<and> childrenReason p = ReasonChildrenFailed) \<and>
     (childrenReady p \<noteq> ConditionTrue \<and> \<not> childrenFailed p \<longrightarrow>
        childrenReason p \<in> {ReasonChildrenPending, ReasonChildrenLinkPending}) \<and>
     childrenFailed p = (\<exists>n\<in>set (edge_names c). child_failed e n) \<and>
     subtreePersisted p = subtree_ok e c"

definition same_legs :: "status_plan \<Rightarrow> status_plan \<Rightarrow> bool" where
  "same_legs p q \<longleftrightarrow>
     manifestsReady p = manifestsReady q \<and> manifestsReason p = manifestsReason q \<and> manifestsFailed p = manifestsFailed q \<and>
     volumeReady p = volumeReady q \<and> volumeReason p = volumeReason q \<and> volumeFailed p = volumeFailed q \<and>
     childrenReady p = childrenReady q \<and> childrenReason p = childrenReason q \<and> childrenFailed p = childrenFailed q \<and>
     subtreePersisted p = subtreePersisted q"

lemma derive_same_legs [simp]: "same_legs (deriveReadyStatus p) p"
  by (simp add: same_legs_def deriveReadyStatus_def)

lemma own_legs_same:
  "manifestsReady p = manifestsReady q \<Longrightarrow> manifestsReason p = manifestsReason q \<Longrightarrow> manifestsFailed p = manifestsFailed q \<Longrightarrow>
   volumeReady p = volumeReady q \<Longrightarrow> volumeReason p = volumeReason q \<Longrightarrow> volumeFailed p = volumeFailed q \<Longrightarrow>
   own_legs_ok e c p = own_legs_ok e c q"
  by (simp add: own_legs_ok_def)

lemma legs_ok_same: "same_legs p q \<Longrightarrow> legs_ok e c p = legs_ok e c q"
  by (simp add: same_legs_def legs_ok_def own_legs_ok_def)

lemma build_plan_legs:
  assumes "mcp_names_agree e" "buildCommonSnapshotContentStatusPlan e c = Inr p"
  shows "\<exists>q. p = deriveReadyStatus q \<and> legs_ok e c q"
proof -
  obtain p1 where p1: "fillOwnLegs e c initial_plan = Inr p1"
    using assms(2) by (auto simp: buildCommonSnapshotContentStatusPlan_def split: sum.splits)
  note own = fillOwnLegs_ok [OF assms(1) p1]
  obtain ready reason msg where ch: "validateCommonContentChildren e c = Inr (ready, reason, msg)"
    using assms(2) p1 by (auto simp: buildCommonSnapshotContentStatusPlan_def split: sum.splits)
  note chv = children_verdict [OF ch]
  define p2 where "p2 = (if \<not> ready then p1\<lparr>childrenReady := ConditionFalse, childrenReason := reason,
      childrenMessage := msg, childrenFailed := (reason = ReasonChildrenFailed)\<rparr>
    else if msg \<noteq> '''' then p1\<lparr>childrenMessage := msg\<rparr> else p1)"
  obtain q where q: "computeSubtreeManifestsPersisted e c p2 = Inr q" "p = deriveReadyStatus q"
    using assms(2) p1 ch
    by (auto simp: buildCommonSnapshotContentStatusPlan_def p2_def Let_def split: sum.splits if_splits)
  have not_failed: "ready \<Longrightarrow> \<not> (\<exists>n\<in>set (edge_names c). child_failed e n)"
    using chv child_failed_not_ready by blast
  have own2: "own_legs_ok e c p2" using own(1) by (auto simp: own_legs_ok_def p2_def)
  have ready2: "ready \<Longrightarrow> childrenReady p2 = ConditionTrue \<and> \<not> childrenFailed p2"
    using own(2,3) by (simp add: p2_def)
  have wait2: "\<not> ready \<Longrightarrow> childrenReady p2 = ConditionFalse \<and> childrenReason p2 = reason \<and>
      childrenFailed p2 = (reason = ReasonChildrenFailed)"
    by (simp add: p2_def)
  have ok: "ready = children_ok e c" using chv unfolding children_ok_def by blast
  have kids: "(childrenReady p2 = ConditionTrue) = children_ok e c"
    "childrenFailed p2 \<longrightarrow> childrenReady p2 \<noteq> ConditionTrue \<and> childrenReason p2 = ReasonChildrenFailed"
    "childrenReady p2 \<noteq> ConditionTrue \<and> \<not> childrenFailed p2 \<longrightarrow>
       childrenReason p2 \<in> {ReasonChildrenPending, ReasonChildrenLinkPending}"
    "childrenFailed p2 = (\<exists>n\<in>set (edge_names c). child_failed e n)"
    subgoal using ready2 wait2 unfolding ok [symmetric] by (cases ready) simp_all
    subgoal using ready2 wait2 by (cases ready) simp_all
    subgoal using ready2 wait2 chv by (cases ready) (simp, blast)
    subgoal using ready2 wait2 chv not_failed by (cases ready) (blast+)
    done
  have "same_legs (q\<lparr>subtreePersisted := False\<rparr>) (p2\<lparr>subtreePersisted := False\<rparr>) \<and> subtreePersisted q = subtree_ok e c"
  proof (cases "ct_subtree_persisted c")
    case True
    then show ?thesis using q(1) by (auto simp: computeSubtreeManifestsPersisted_def same_legs_def subtree_ok_def)
  next
    case False
    then obtain pp pm where agg: "aggregateChildrenSubtreeManifestsPersisted e c = Inr (pp, pm)"
      using q(1) by (auto simp: computeSubtreeManifestsPersisted_def split: sum.splits)
    have "(manifestsReady p2 = ConditionTrue) = manifest_ok e c" using own2 by (simp add: own_legs_ok_def)
    moreover have "pp = ((\<forall>n\<in>set (edge_names c). child_persisted e n) \<and> declared_linked e c)"
      by (rule aggregate_verdict [OF agg])
    ultimately have ok: "(manifestsReady p2 = ConditionTrue \<and> pp) = subtree_ok e c"
      using False unfolding subtree_ok_def by blast
    have "subtreePersisted q = (manifestsReady p2 = ConditionTrue \<and> pp) \<and>
        same_legs (q\<lparr>subtreePersisted := False\<rparr>) (p2\<lparr>subtreePersisted := False\<rparr>)"
      using q(1) agg False
      by (cases "manifestsReady p2 = ConditionTrue \<and> pp")
        (auto simp: computeSubtreeManifestsPersisted_def same_legs_def)
    then show ?thesis unfolding ok by blast
  qed
  then have "legs_ok e c q"
    using own2 kids by (simp add: legs_ok_def same_legs_def own_legs_same [of q p2])
  then show ?thesis using q(2) by blast
qed

text \<open>The ladder: Ready is True exactly when every leg is, and a terminal leg decides the reason.\<close>

definition all_legs :: "status_plan \<Rightarrow> bool" where
  "all_legs p = (manifestsReady p = ConditionTrue \<and> volumeReady p = ConditionTrue \<and>
     childrenReady p = ConditionTrue \<and> subtreePersisted p)"

definition some_failed :: "status_plan \<Rightarrow> bool" where
  "some_failed p = (manifestsReady p \<noteq> ConditionTrue \<and> manifestsFailed p \<or>
     volumeReady p \<noteq> ConditionTrue \<and> volumeFailed p \<or> childrenReady p \<noteq> ConditionTrue \<and> childrenFailed p)"

lemma derive_status:
  "readyStatus (deriveReadyStatus p) = (if all_legs p then ConditionTrue else ConditionFalse)"
  "all_legs p \<Longrightarrow> readyReason (deriveReadyStatus p) = ReasonCompleted"
  by (auto simp: deriveReadyStatus_def all_legs_def)

lemma derive_reason:
  "readyReason (deriveReadyStatus p) =
     (if manifestsReady p \<noteq> ConditionTrue \<and> manifestsFailed p then manifestsReason p
      else if volumeReady p \<noteq> ConditionTrue \<and> volumeFailed p then volumeReason p
      else if childrenReady p \<noteq> ConditionTrue \<and> childrenFailed p then childrenReason p
      else if manifestsReady p \<noteq> ConditionTrue then manifestsReason p
      else if volumeReady p \<noteq> ConditionTrue then volumeReason p
      else if childrenReady p \<noteq> ConditionTrue then childrenReason p
      else if \<not> subtreePersisted p then ReasonSubtreeManifestCapturePending else ReasonCompleted)"
  by (simp add: deriveReadyStatus_def)

lemma derive_reason_failed:
  "some_failed p \<Longrightarrow> readyReason (deriveReadyStatus p) =
     (if manifestsReady p \<noteq> ConditionTrue \<and> manifestsFailed p then manifestsReason p
      else if volumeReady p \<noteq> ConditionTrue \<and> volumeFailed p then volumeReason p else childrenReason p)"
  unfolding some_failed_def by (elim disjE conjE) (simp_all add: derive_reason)

lemma derive_reason_pending:
  "\<not> some_failed p \<Longrightarrow> \<not> all_legs p \<Longrightarrow> readyReason (deriveReadyStatus p) =
     (if manifestsReady p \<noteq> ConditionTrue then manifestsReason p
      else if volumeReady p \<noteq> ConditionTrue then volumeReason p
      else if childrenReady p \<noteq> ConditionTrue then childrenReason p else ReasonSubtreeManifestCapturePending)"
  unfolding some_failed_def all_legs_def by (auto simp: derive_reason)

end
