(* ===== verification/Content_Ready.thy ===== *)
theory Content_Ready
  imports Content_Status
begin

text \<open>
  What one aggregation pass of a SnapshotContent guarantees: when Ready is True, which failures are
  terminal and stop the polling, that the subtree latch and the exclusions only grow, and that a second
  pass over an unchanged cluster writes nothing.
\<close>

section \<open>The plan after the adjustments\<close>

definition checkpoint_lost :: "env \<Rightarrow> snapshot_content \<Rightarrow> snapshot_obj option \<Rightarrow> bool" where
  "checkpoint_lost e c owner = (ownerManifestCaptured owner \<and> \<not> manifest_ok e c \<and>
     nval '''' (ct_mcp_name c) \<noteq> '''' \<and> live_mcp e (nval '''' (ct_mcp_name c)) = NotFound)"

definition manifest_leg :: "env \<Rightarrow> snapshot_content \<Rightarrow> bool \<Rightarrow> status_plan \<Rightarrow> bool" where
  "manifest_leg e c lost q \<longleftrightarrow>
     (manifestsReady q = ConditionTrue) = manifest_ok e c \<and>
     manifestsFailed q = (checkpoint_failed e c \<or> lost) \<and> (manifestsFailed q \<longrightarrow> manifestsReady q \<noteq> ConditionTrue) \<and>
     (manifestsReady q \<noteq> ConditionTrue \<longrightarrow>
        manifestsReason q = (if manifestsFailed q then ReasonManifestCheckpointFailed else ReasonManifestCapturePending))"

definition volume_leg :: "env \<Rightarrow> snapshot_content \<Rightarrow> bool \<Rightarrow> string \<Rightarrow> status_plan \<Rightarrow> bool" where
  "volume_leg e c pending term q \<longleftrightarrow>
     (volumeReady q = ConditionTrue) = (manifest_ok e c \<and> data_ok e c \<and> \<not> pending \<and> term = '''') \<and>
     volumeFailed q = (term \<noteq> '''' \<or> data_failed e c) \<and> (volumeFailed q \<longrightarrow> volumeReady q \<noteq> ConditionTrue) \<and>
     (volumeFailed q \<longrightarrow> volumeReason q = (if term \<noteq> '''' then term else volumeReason q) \<and>
        (term = '''' \<longrightarrow> isTerminalDataFailure (volumeReason q))) \<and>
     (volumeReady q \<noteq> ConditionTrue \<and> \<not> volumeFailed q \<longrightarrow>
        volumeReason q \<in> {ReasonManifestCapturePending, ReasonDataCapturePending})"

definition children_leg :: "env \<Rightarrow> snapshot_content \<Rightarrow> status_plan \<Rightarrow> bool" where
  "children_leg e c q \<longleftrightarrow>
     (childrenReady q = ConditionTrue) = children_ok e c \<and>
     childrenFailed q = (\<exists>n\<in>set (edge_names c). child_failed e n) \<and>
     (childrenFailed q \<longrightarrow> childrenReady q \<noteq> ConditionTrue \<and> childrenReason q = ReasonChildrenFailed) \<and>
     (childrenReady q \<noteq> ConditionTrue \<and> \<not> childrenFailed q \<longrightarrow>
        childrenReason q \<in> {ReasonChildrenPending, ReasonChildrenLinkPending}) \<and>
     subtreePersisted q = subtree_ok e c"

definition adjusted :: "env \<Rightarrow> snapshot_content \<Rightarrow> bool \<Rightarrow> string \<Rightarrow> bool \<Rightarrow> status_plan \<Rightarrow> bool" where
  "adjusted e c pending term lost q \<longleftrightarrow>
     manifest_leg e c lost q \<and> volume_leg e c pending term q \<and> children_leg e c q"

lemma derive_fields [simp]:
  "manifestsReady (deriveReadyStatus p) = manifestsReady p" "manifestsReason (deriveReadyStatus p) = manifestsReason p"
  "manifestsFailed (deriveReadyStatus p) = manifestsFailed p" "volumeReady (deriveReadyStatus p) = volumeReady p"
  "volumeReason (deriveReadyStatus p) = volumeReason p" "volumeFailed (deriveReadyStatus p) = volumeFailed p"
  "childrenReady (deriveReadyStatus p) = childrenReady p" "childrenReason (deriveReadyStatus p) = childrenReason p"
  "childrenFailed (deriveReadyStatus p) = childrenFailed p" "subtreePersisted (deriveReadyStatus p) = subtreePersisted p"
  using derive_same_legs [of p] by (simp_all add: same_legs_def)

lemma derive_leg [simp]:
  "manifest_leg e c lost (deriveReadyStatus q) = manifest_leg e c lost q"
  "volume_leg e c pending term (deriveReadyStatus q) = volume_leg e c pending term q"
  "children_leg e c (deriveReadyStatus q) = children_leg e c q"
  by (simp_all add: manifest_leg_def volume_leg_def children_leg_def)

lemma leg_update:
  "manifest_leg e c lost (q\<lparr>volumeReady := a, volumeReason := b, volumeMessage := m, volumeFailed := f\<rparr>) = manifest_leg e c lost q"
  "children_leg e c (q\<lparr>volumeReady := a, volumeReason := b, volumeMessage := m, volumeFailed := f\<rparr>) = children_leg e c q"
  "volume_leg e c pending term (q\<lparr>manifestsReady := a, manifestsFailed := f, manifestsReason := b, manifestsMessage := m\<rparr>) =
     volume_leg e c pending term q"
  "children_leg e c (q\<lparr>manifestsReady := a, manifestsFailed := f, manifestsReason := b, manifestsMessage := m\<rparr>) = children_leg e c q"
  by (simp_all add: manifest_leg_def volume_leg_def children_leg_def)

text \<open>The legs as the build left them: no adjustment applied yet.\<close>

lemma legs_adjusted:
  assumes "legs_ok e c q"
  shows "adjusted e c False '''' False q"
proof -
  have "manifest_leg e c False q" "volume_leg e c False '''' q" "children_leg e c q"
    using assms unfolding legs_ok_def own_legs_ok_def manifest_leg_def volume_leg_def children_leg_def
    by (elim conjE; intro conjI; simp; blast)+
  then show ?thesis by (simp add: adjusted_def)
qed

lemma downgrade_adjusted:
  assumes "adjusted e c False '''' False q"
  shows "\<exists>q'. data_leg_pending_downgrade pending (deriveReadyStatus q) = deriveReadyStatus q' \<and>
     adjusted e c pending '''' False q'"
proof (cases "pending \<and> volumeReady q = ConditionTrue")
  case True
  let ?q = "(deriveReadyStatus q)\<lparr>volumeReady := ConditionFalse, volumeReason := ReasonDataCapturePending,
    volumeMessage := ''waiting for the data leg to be published and the volume snapshot artifact to be ready'',
    volumeFailed := False\<rparr>"
  have "volume_leg e c pending '''' ?q" using assms True by (auto simp: adjusted_def volume_leg_def)
  then have "adjusted e c pending '''' False ?q" using assms by (simp add: adjusted_def leg_update)
  then show ?thesis using True unfolding data_leg_pending_downgrade_def by auto
next
  case False
  then have "data_leg_pending_downgrade pending (deriveReadyStatus q) = deriveReadyStatus q"
    by (auto simp: data_leg_pending_downgrade_def)
  moreover have "volume_leg e c pending '''' q"
    using assms False unfolding adjusted_def volume_leg_def by (cases pending) auto
  ultimately show ?thesis using assms by (auto simp: adjusted_def)
qed

lemma terminal_adjusted:
  assumes "adjusted e c pending '''' False q"
  shows "\<exists>q'. data_leg_terminal term msg (deriveReadyStatus q) = deriveReadyStatus q' \<and>
     adjusted e c pending term False q'"
proof (cases "term = ''''")
  case True
  then show ?thesis using assms by (auto simp: data_leg_terminal_def)
next
  case False
  have "volume_leg e c pending term ((deriveReadyStatus q)\<lparr>volumeReady := ConditionFalse, volumeReason := term,
      volumeMessage := msg, volumeFailed := True\<rparr>)"
    using False by (simp add: volume_leg_def)
  then show ?thesis using False assms unfolding data_leg_terminal_def by (auto simp: adjusted_def leg_update)
qed

lemma lost_adjusted:
  assumes "adjusted e c pending term False q" and "lost_checkpoint e c owner (deriveReadyStatus q) = Inr p"
  shows "\<exists>q'. p = deriveReadyStatus q' \<and> adjusted e c pending term (checkpoint_lost e c owner \<and> \<not> checkpoint_failed e c) q'"
proof (cases "checkpoint_lost e c owner \<and> \<not> checkpoint_failed e c")
  case True
  have m: "manifestsReady q \<noteq> ConditionTrue" "\<not> manifestsFailed q"
    using assms(1) True by (auto simp: adjusted_def manifest_leg_def checkpoint_lost_def)
  let ?q = "(deriveReadyStatus q)\<lparr>manifestsReady := ConditionFalse, manifestsFailed := True,
      manifestsReason := ReasonManifestCheckpointFailed, manifestsMessage := ''published ManifestCheckpoint '' @
        nval '''' (ct_mcp_name c) @ '' was deleted after manifest capture''\<rparr>"
  have "p = deriveReadyStatus ?q"
    using assms(2) True m by (simp add: lost_checkpoint_def checkpoint_lost_def publishedManifestCheckpointGone_def Let_def)
  moreover have "manifest_leg e c True ?q" using True by (simp add: manifest_leg_def checkpoint_lost_def)
  ultimately show ?thesis using assms(1) True by (auto simp: adjusted_def leg_update)
next
  case False
  have "(manifestsReady q = ConditionTrue) = manifest_ok e c" "manifestsFailed q = checkpoint_failed e c"
    using assms(1) by (simp_all add: adjusted_def manifest_leg_def)
  then have "p = deriveReadyStatus q"
    using assms(2) False by (auto simp: lost_checkpoint_def checkpoint_lost_def publishedManifestCheckpointGone_def Let_def
        split: if_splits get_res.splits)
  then show ?thesis using assms(1) False by auto
qed

lemma settled_adjusted:
  assumes "mcp_names_agree e" "settled_plan e c pending term msg owner = Inr p"
  shows "\<exists>q. p = fold_domain_phase owner (deriveReadyStatus q) \<and>
     adjusted e c pending term (checkpoint_lost e c owner \<and> \<not> checkpoint_failed e c) q"
proof -
  obtain p0 where p0: "buildCommonSnapshotContentStatusPlan e c = Inr p0"
    using assms(2) by (auto simp: settled_plan_def split: sum.splits)
  obtain q0 where q0: "p0 = deriveReadyStatus q0" "adjusted e c False '''' False q0"
    using build_plan_legs [OF assms(1) p0] legs_adjusted by blast
  obtain q1 where q1: "data_leg_pending_downgrade pending p0 = deriveReadyStatus q1" "adjusted e c pending '''' False q1"
    using downgrade_adjusted [OF q0(2)] q0(1) by blast
  obtain q2 where q2: "data_leg_terminal term msg (deriveReadyStatus q1) = deriveReadyStatus q2"
    "adjusted e c pending term False q2"
    using terminal_adjusted [OF q1(2)] by blast
  obtain p3 where p3: "lost_checkpoint e c owner (deriveReadyStatus q2) = Inr p3" "p = fold_domain_phase owner p3"
    using assms(2) p0 q1(1) q2(1) by (auto simp: settled_plan_def split: sum.splits)
  show ?thesis using lost_adjusted [OF q2(2) p3(1)] p3(2) by blast
qed

section \<open>The Ready condition\<close>

definition domain_failed :: "snapshot_obj option \<Rightarrow> bool" where
  "domain_failed owner = (case owner of None \<Rightarrow> False | Some ow \<Rightarrow> so_phase ow = PhaseFailed)"

definition terminal_cause :: "env \<Rightarrow> snapshot_content \<Rightarrow> string \<Rightarrow> snapshot_obj option \<Rightarrow> bool" where
  "terminal_cause e c term owner = (checkpoint_failed e c \<or> checkpoint_lost e c owner \<or> data_failed e c \<or>
     term \<noteq> '''' \<or> (\<exists>n\<in>set (edge_names c). child_failed e n) \<or> domain_failed owner)"

abbreviation "pending_reasons \<equiv> {ReasonManifestCapturePending, ReasonDataCapturePending, ReasonChildrenPending,
  ReasonChildrenLinkPending, ReasonSubtreeManifestCapturePending, ReasonCompleted}"

lemma pending_not_terminal:
  "r \<in> pending_reasons \<Longrightarrow> \<not> isTerminalChildContentFailure r \<and> \<not> IsReasonTerminal r"
  by (auto simp: isTerminalChildContentFailure_def terminalChildContentFailureReasons_def
      IsReasonTerminal_def TerminalReadyReasons_def)

lemma terminal_data_is_terminal: "isTerminalDataFailure r \<Longrightarrow> isTerminalChildContentFailure r"
  by (auto simp: isTerminalDataFailure_def terminalDataFailureReasons_def
      isTerminalChildContentFailure_def terminalChildContentFailureReasons_def)

lemma terminal_simps:
  "isTerminalChildContentFailure ReasonManifestCheckpointFailed" "isTerminalChildContentFailure ReasonChildrenFailed"
  "isTerminalChildContentFailure ReasonDomainCaptureFailed"
  by (simp_all add: isTerminalChildContentFailure_def terminalChildContentFailureReasons_def)

lemma adjusted_all_legs:
  "adjusted e c pending term lost q \<Longrightarrow> all_legs q \<longleftrightarrow>
     manifest_ok e c \<and> data_ok e c \<and> children_ok e c \<and> subtree_ok e c \<and> \<not> pending \<and> term = ''''"
  unfolding adjusted_def manifest_leg_def volume_leg_def children_leg_def all_legs_def by blast

lemma adjusted_some_failed:
  "adjusted e c pending term lost q \<Longrightarrow> some_failed q \<longleftrightarrow>
     checkpoint_failed e c \<or> lost \<or> data_failed e c \<or> term \<noteq> '''' \<or> (\<exists>n\<in>set (edge_names c). child_failed e n)"
  unfolding adjusted_def manifest_leg_def volume_leg_def children_leg_def some_failed_def by metis

lemma adjusted_reason:
  assumes "adjusted e c pending term lost q" and "term = '''' \<or> isTerminalChildContentFailure term"
  shows "if some_failed q then isTerminalChildContentFailure (readyReason (deriveReadyStatus q))
     else readyReason (deriveReadyStatus q) \<in> pending_reasons"
proof (cases "some_failed q")
  case True
  have "manifestsFailed q \<Longrightarrow> manifestsReason q = ReasonManifestCheckpointFailed"
    "childrenFailed q \<Longrightarrow> childrenReason q = ReasonChildrenFailed"
    "volumeFailed q \<Longrightarrow> isTerminalChildContentFailure (volumeReason q)"
    using assms terminal_data_is_terminal unfolding adjusted_def manifest_leg_def volume_leg_def children_leg_def
    by metis+
  then show ?thesis using True derive_reason_failed [OF True] terminal_simps
    by (auto simp: some_failed_def)
next
  case False
  have r: "manifestsReady q \<noteq> ConditionTrue \<Longrightarrow> manifestsReason q \<in> pending_reasons"
    "volumeReady q \<noteq> ConditionTrue \<Longrightarrow> volumeReason q \<in> pending_reasons"
    "childrenReady q \<noteq> ConditionTrue \<Longrightarrow> childrenReason q \<in> pending_reasons"
    using assms(1) False unfolding adjusted_def manifest_leg_def volume_leg_def children_leg_def some_failed_def
    by auto
  show ?thesis
  proof (cases "all_legs q")
    case True
    then show ?thesis using False derive_status(2) by simp
  next
    case na: False
    show ?thesis using False derive_reason_pending [OF False na] r by (simp split: if_splits)
  qed
qed

lemma fold_plan:
  "readyStatus (fold_domain_phase owner p) = ConditionTrue \<longleftrightarrow> readyStatus p = ConditionTrue \<and> domain_done owner"
  "domain_failed owner \<Longrightarrow> readyStatus (fold_domain_phase owner p) = ConditionFalse \<and>
     readyReason (fold_domain_phase owner p) = ReasonDomainCaptureFailed"
  "\<not> domain_failed owner \<Longrightarrow> (readyStatus (fold_domain_phase owner p), readyReason (fold_domain_phase owner p)) \<in>
     {(readyStatus p, readyReason p), (ConditionFalse, ReasonChildrenPending)}"
  "\<not> domain_failed owner \<Longrightarrow> readyStatus p \<noteq> ConditionTrue \<Longrightarrow>
     readyStatus (fold_domain_phase owner p) = readyStatus p \<and> readyReason (fold_domain_phase owner p) = readyReason p"
  "subtreePersisted (fold_domain_phase owner p) = subtreePersisted p"
  using fold_True_iff [of owner True "(readyStatus p, readyReason p, readyMessage p)"]
  by (auto simp: fold_domain_phase_def domain_failed_def applyDomainPhaseFold_def ownerDomainCaptureFailed_def
      ownerDomainCapturePhase_def Let_def split: option.splits prod.splits if_splits)

lemma settled_ready:
  assumes "mcp_names_agree e" "settled_plan e c pending term msg owner = Inr p"
  shows "readyStatus p = (if manifest_ok e c \<and> data_ok e c \<and> children_ok e c \<and> subtree_ok e c \<and> \<not> pending \<and>
      term = '''' \<and> domain_done owner then ConditionTrue else ConditionFalse)"
    and "subtreePersisted p = subtree_ok e c"
    and "term = '''' \<or> isTerminalChildContentFailure term \<Longrightarrow>
      isTerminalChildContentFailure (readyReason p) = terminal_cause e c term owner \<and>
      (\<not> terminal_cause e c term owner \<longrightarrow> readyReason p \<in> pending_reasons)"
proof -
  let ?lost = "checkpoint_lost e c owner \<and> \<not> checkpoint_failed e c"
  obtain q where q: "p = fold_domain_phase owner (deriveReadyStatus q)" "adjusted e c pending term ?lost q"
    using settled_adjusted [OF assms] by blast
  note all = adjusted_all_legs [OF q(2)] and failed = adjusted_some_failed [OF q(2)]
  have bin: "readyStatus p = ConditionTrue \<or> readyStatus p = ConditionFalse"
    using fold_plan(2,3) [of owner "deriveReadyStatus q"] derive_status(1) [of q] unfolding q(1)
    by (cases "domain_failed owner") (auto split: if_splits)
  then show "readyStatus p = (if manifest_ok e c \<and> data_ok e c \<and> children_ok e c \<and> subtree_ok e c \<and> \<not> pending \<and>
      term = '''' \<and> domain_done owner then ConditionTrue else ConditionFalse)"
    using fold_plan(1) [of owner "deriveReadyStatus q"] derive_status(1) [of q] all unfolding q(1)
    by (auto split: if_splits)
  show "subtreePersisted p = subtree_ok e c"
    using q(2) by (simp add: q(1) fold_plan(5) adjusted_def children_leg_def)
  assume t: "term = '''' \<or> isTerminalChildContentFailure term"
  note r = adjusted_reason [OF q(2) t]
  have cause: "terminal_cause e c term owner \<longleftrightarrow> some_failed q \<or> domain_failed owner"
    unfolding failed terminal_cause_def by blast
  have nt: "some_failed q \<Longrightarrow> readyStatus (deriveReadyStatus q) \<noteq> ConditionTrue"
    by (auto simp: derive_status(1) all_legs_def some_failed_def)
  show "isTerminalChildContentFailure (readyReason p) = terminal_cause e c term owner \<and>
      (\<not> terminal_cause e c term owner \<longrightarrow> readyReason p \<in> pending_reasons)"
  proof (cases "domain_failed owner")
    case True
    then show ?thesis using fold_plan(2) terminal_simps(3) unfolding cause q(1) by simp
  next
    case False
    note fold3 = fold_plan(3) [OF False, of "deriveReadyStatus q"]
      and fold4 = fold_plan(4) [OF False, of "deriveReadyStatus q"]
    show ?thesis
    proof (cases "some_failed q")
      case True
      then show ?thesis using r fold4 nt unfolding cause q(1) by simp
    next
      case nf: False
      then have "readyReason (deriveReadyStatus q) \<in> pending_reasons" using r by simp
      then have "readyReason p \<in> pending_reasons" using fold3 unfolding q(1) by auto
      then show ?thesis using pending_not_terminal nf False unfolding cause by blast
    qed
  qed
qed

section \<open>What the pass writes\<close>

lemma pass_facts:
  assumes "reconcileCommonSnapshotContentStatus e perr c pending term msg owner = Inr (c', changed, ready)"
  obtains p agg where "settled_plan e c pending term msg owner = Inr p"
    and "computeExcludedRefsAggregate e c = Inr agg" and "ready = (readyStatus p = ConditionTrue)"
    and "ct_conditions c' = (if has_status c then fst (upsert_all e (ct_conditions c) (desired_conditions (ct_generation c) p)) else [])"
    and "ct_subtree_persisted c' = subtreePersisted p"
    and "ct_excluded c' = (if excludedObjectRefsEqualIgnoreOrder (ct_excluded c) agg then ct_excluded c else agg)"
    and "c' = c\<lparr>ct_conditions := ct_conditions c', ct_subtree_persisted := subtreePersisted p, ct_excluded := ct_excluded c',
      ct_status_present := ct_status_present c'\<rparr>"
    and "\<not> changed \<longrightarrow> c' = c" and "changed \<longrightarrow> ct_status_present c'"
    and "snd (upsert_all e (ct_conditions c) (desired_conditions (ct_generation c) p)) \<longrightarrow> changed"
proof -
  obtain p where p: "settled_plan e c pending term msg owner = Inr p"
    using assms by (auto simp: reconcileCommonSnapshotContentStatus_def split: sum.splits)
  obtain agg where agg: "computeExcludedRefsAggregate e c = Inr agg"
    using assms p by (auto simp: reconcileCommonSnapshotContentStatus_def Let_def split: sum.splits prod.splits)
  let ?u = "upsert_all e (ct_conditions c) (desired_conditions (ct_generation c) p)"
  let ?ex = "if excludedObjectRefsEqualIgnoreOrder (ct_excluded c) agg then ct_excluded c else agg"
  have unch: "\<not> snd ?u \<Longrightarrow> fst ?u = ct_conditions c" by (rule upsert_all_unchanged)
  have none: "\<not> has_status c \<Longrightarrow> ct_conditions c = []" by (simp add: has_status_def)
  have r: "ready = (readyStatus p = ConditionTrue)" and
    w: "c' = c\<lparr>ct_conditions := (if has_status c then fst ?u else []), ct_subtree_persisted := subtreePersisted p,
      ct_excluded := ?ex, ct_status_present := ct_status_present c'\<rparr>" and
    nc: "\<not> changed \<longrightarrow> c' = c" "changed \<longrightarrow> ct_status_present c'" "snd ?u \<longrightarrow> changed"
    using assms p agg unch none
    by (auto simp: reconcileCommonSnapshotContentStatus_def Let_def split: prod.splits if_splits option.splits)
  have f: "ct_conditions c' = (if has_status c then fst ?u else [])" "ct_subtree_persisted c' = subtreePersisted p" "ct_excluded c' = ?ex"
    by (subst w, simp)+
  show ?thesis by (rule that [OF p agg r f _ nc]) (use w f in simp)
qed

text \<open>
  C1: When a pass over a content succeeds, it reports Ready exactly when the checkpoint is Ready with
  all its chunks present, every published data binding is durable, every linked child is Ready with the
  declared child set fully linked, the whole subtree has persisted its manifests, no data leg is still
  converging or terminally failed, and the owner's domain either finished or takes no part.
\<close>

theorem content_ready_exact:
  assumes "mcp_names_agree e"
    and "reconcileCommonSnapshotContentStatus e perr c pending term msg owner = Inr (c', changed, ready)"
  shows "ready \<longleftrightarrow> manifest_ok e c \<and> data_ok e c \<and> children_ok e c \<and> subtree_ok e c \<and> \<not> pending \<and>
     term = '''' \<and> domain_done owner"
proof -
  obtain p where "settled_plan e c pending term msg owner = Inr p" "ready = (readyStatus p = ConditionTrue)"
    using pass_facts [OF assms(2)] by metis
  with settled_ready(1) [OF assms(1)] show ?thesis by simp
qed

lemma find_nothing:
  assumes "conditions_contract e"
  shows "find_condition e [] t = None"
proof (cases "find_condition e [] t")
  case (Some c)
  have "find_condition e (map (co_gen_update (\<lambda>g. g + 1)) []) t = map_option (co_gen_update (\<lambda>g. g + 1)) (find_condition e [] t)"
    by (rule find_map_type [OF assms]) simp
  then have "co_gen (co_gen_update (\<lambda>g. g + 1) c) = co_gen c" using Some by simp
  then show ?thesis by simp
qed

lemma cause_not_ready:
  assumes "mcp_names_agree e" and "settled_plan e c pending term msg owner = Inr p" and "terminal_cause e c term owner"
  shows "readyStatus p \<noteq> ConditionTrue"
proof
  assume r: "readyStatus p = ConditionTrue"
  obtain q where q: "p = fold_domain_phase owner (deriveReadyStatus q)"
    "adjusted e c pending term (checkpoint_lost e c owner \<and> \<not> checkpoint_failed e c) q"
    using settled_adjusted [OF assms(1,2)] by blast
  have "readyStatus (deriveReadyStatus q) = ConditionTrue" "domain_done owner"
    using fold_plan(1) [of owner "deriveReadyStatus q"] r q(1) by auto
  then have "all_legs q" by (auto simp: derive_status(1) split: if_splits)
  then have "\<not> some_failed q" by (auto simp: all_legs_def some_failed_def)
  moreover have "\<not> domain_failed owner" using \<open>domain_done owner\<close>
    by (auto simp: domain_done_def domain_failed_def split: option.splits)
  ultimately show False
    using assms(3) adjusted_some_failed [OF q(2)] unfolding terminal_cause_def by blast
qed

lemma first_pass_changes:
  assumes "conditions_contract e" and "\<not> has_status c"
  shows "snd (upsert_all e (ct_conditions c) (desired_conditions g p))"
  using assms(2) find_nothing [OF assms(1)]
  by (simp add: has_status_def desired_conditions_def upsertContentCondition_def Let_def split: prod.splits)


text \<open>
  C4: A pass never loses what it once established: the subtree latch only rises, and rises exactly when
  the manifests of the whole declared and linked subtree are persisted; published exclusions are never
  dropped; apart from these and the conditions no field of the content changes (a status map is added if there is none), and a pass that reports no change writes nothing.
\<close>

theorem pass_is_monotone:
  assumes "mcp_names_agree e"
    and "reconcileCommonSnapshotContentStatus e perr c pending term msg owner = Inr (c', changed, ready)"
  shows "(ct_subtree_persisted c \<longrightarrow> ct_subtree_persisted c') \<and>
     (ct_subtree_persisted c' \<longleftrightarrow> subtree_ok e c) \<and>
     set (ct_excluded c) \<subseteq> set (ct_excluded c') \<and>
     (\<exists>cs p ex st. c' = c\<lparr>ct_conditions := cs, ct_subtree_persisted := p, ct_excluded := ex, ct_status_present := st\<rparr>) \<and>
     (has_status c \<longrightarrow> has_status c') \<and> (\<not> changed \<longrightarrow> c' = c)"
proof -
  obtain p agg where p: "settled_plan e c pending term msg owner = Inr p"
    "computeExcludedRefsAggregate e c = Inr agg" "ready = (readyStatus p = ConditionTrue)"
    "ct_conditions c' = (if has_status c then fst (upsert_all e (ct_conditions c) (desired_conditions (ct_generation c) p)) else [])"
    "ct_subtree_persisted c' = subtreePersisted p"
    "ct_excluded c' = (if excludedObjectRefsEqualIgnoreOrder (ct_excluded c) agg then ct_excluded c else agg)"
    "c' = c\<lparr>ct_conditions := ct_conditions c', ct_subtree_persisted := subtreePersisted p, ct_excluded := ct_excluded c',
      ct_status_present := ct_status_present c'\<rparr>"
    "\<not> changed \<longrightarrow> c' = c" "changed \<longrightarrow> ct_status_present c'"
    "snd (upsert_all e (ct_conditions c) (desired_conditions (ct_generation c) p)) \<longrightarrow> changed"
    by (rule pass_facts [OF assms(2)])
  have "ct_subtree_persisted c' = subtree_ok e c" using p(5) settled_ready(2) [OF assms(1) p(1)] by simp
  moreover have "ct_subtree_persisted c \<Longrightarrow> subtree_ok e c" by (simp add: subtree_ok_def)
  moreover have "set (ct_excluded c) \<subseteq> set (ct_excluded c')" using excluded_result [OF p(2)] p(6) by auto
  moreover have "\<exists>cs p ex st. c' = c\<lparr>ct_conditions := cs, ct_subtree_persisted := p, ct_excluded := ex, ct_status_present := st\<rparr>"
    by (intro exI) (rule p(7))
  moreover have "has_status c \<Longrightarrow> has_status c'" using p(8,9) by (cases changed) (simp_all add: has_status_def)
  ultimately show ?thesis using p(8) by blast
qed

section \<open>A second pass\<close>

abbreviation "written c cs l ex st \<equiv> c\<lparr>ct_conditions := cs, ct_subtree_persisted := l, ct_excluded := ex, ct_status_present := st\<rparr>"

lemma written_fields:
  "ct_name (written c cs l ex st) = ct_name c" "ct_uid (written c cs l ex st) = ct_uid c"
  "ct_mcp_name (written c cs l ex st) = ct_mcp_name c" "ct_data (written c cs l ex st) = ct_data c"
  "ct_snapshot_ref (written c cs l ex st) = ct_snapshot_ref c" "ct_edges (written c cs l ex st) = ct_edges c"
  by simp_all

lemma written_checkpoint:
  "validateCommonContentManifestCheckpoint e (written c cs l ex st) n = validateCommonContentManifestCheckpoint e c n"
  unfolding validateCommonContentManifestCheckpoint_def ensureManifestCheckpointOwnedByContent_def written_fields ..

lemma written_data: "resolveDataReadiness e (written c cs l ex st) = resolveDataReadiness e c"
  unfolding resolveDataReadiness_def GetStatusDataRefs_def written_fields ..

lemma written_legs [simp]: "fillOwnLegs e (written c cs l ex st) plan = fillOwnLegs e c plan"
  unfolding fillOwnLegs_def written_checkpoint written_data written_fields ..

lemma written_reads [simp]:
  "declaredNonLeafChildContentNames e (written c cs l ex st) = declaredNonLeafChildContentNames e c"
  "lost_checkpoint e (written c cs l ex st) owner plan = lost_checkpoint e c owner plan"
  "ownDirectExcludedRefs e (written c cs l ex st) = ownDirectExcludedRefs e c"
  unfolding declaredNonLeafChildContentNames_def lost_checkpoint_def ownDirectExcludedRefs_def written_fields
  by (rule refl)+

lemma written_children:
  assumes "validateCommonContentChildren e c = Inr v" and "l = ct_subtree_persisted c \<or> l \<and> declared_linked e c"
  shows "validateCommonContentChildren e (written c cs l ex st) = Inr v"
proof (cases "l = ct_subtree_persisted c")
  case True
  then have l: "ct_subtree_persisted (written c cs l ex st) = ct_subtree_persisted c" by simp
  show ?thesis using assms(1) unfolding validateCommonContentChildren_def written_fields written_reads l .
next
  case False
  then have l: "l" "\<not> ct_subtree_persisted c" "declared_linked e c" using assms(2) by auto
  obtain ds where ds: "declaredNonLeafChildContentNames e c = Inr (ds, True)" "set ds \<subseteq> set (edge_names c)"
    using l(3) by (auto simp: declared_linked_def split: sum.splits)
  obtain r where r: "children_walk e (nval [] (ct_edges c)) edge_walk0 = Inr r" "ct_edges c \<noteq> NBadType"
    using assms(1) by (cases "ct_edges c") (auto simp: validateCommonContentChildren_def split: sum.splits)
  show ?thesis
  proof (cases r)
    case (Inl a)
    then show ?thesis using assms(1) r by (cases "ct_edges c") (simp_all add: validateCommonContentChildren_def)
  next
    case (Inr w)
    then have "w_linked w = edge_names c"
      using children_walk_result [of e "nval [] (ct_edges c)" edge_walk0 w] r
      by (simp add: edge_walk0_def edge_names_of)
    then have "filter (\<lambda>n. n \<notin> set (w_linked w)) ds = []" using ds(2) by (auto simp: filter_empty_conv)
    then show ?thesis using assms(1) r Inr l ds(1)
      by (cases "ct_edges c") (auto simp: validateCommonContentChildren_def Let_def split: if_splits)
  qed
qed

lemma plan_after_write:
  assumes "mcp_names_agree e" and "buildCommonSnapshotContentStatusPlan e c = Inr p"
  shows "buildCommonSnapshotContentStatusPlan e (written c cs (subtreePersisted p) ex st) = Inr p"
proof -
  obtain p1 where p1: "fillOwnLegs e c initial_plan = Inr p1"
    using assms(2) by (auto simp: buildCommonSnapshotContentStatusPlan_def split: sum.splits)
  obtain ready reason msg where ch: "validateCommonContentChildren e c = Inr (ready, reason, msg)"
    using assms(2) p1 by (auto simp: buildCommonSnapshotContentStatusPlan_def split: sum.splits)
  define p2 where "p2 = (if \<not> ready then p1\<lparr>childrenReady := ConditionFalse, childrenReason := reason,
      childrenMessage := msg, childrenFailed := (reason = ReasonChildrenFailed)\<rparr>
    else if msg \<noteq> '''' then p1\<lparr>childrenMessage := msg\<rparr> else p1)"
  have build: "buildCommonSnapshotContentStatusPlan e d = (case computeSubtreeManifestsPersisted e d p2 of
      Inl x \<Rightarrow> Inl x | Inr q \<Rightarrow> Inr (deriveReadyStatus q))"
    if "fillOwnLegs e d initial_plan = Inr p1" "validateCommonContentChildren e d = Inr (ready, reason, msg)" for d
    using that by (simp add: buildCommonSnapshotContentStatusPlan_def p2_def Let_def)
  obtain q where q: "computeSubtreeManifestsPersisted e c p2 = Inr q" "p = deriveReadyStatus q"
    using assms(2) build [OF p1 ch] by (auto split: sum.splits)
  have sub: "subtreePersisted p = subtree_ok e c"
    using build_plan_legs [OF assms] by (auto simp: legs_ok_def)
  have link: "subtreePersisted p = ct_subtree_persisted c \<or> subtreePersisted p \<and> declared_linked e c"
    unfolding sub subtree_ok_def by blast
  note ch' = written_children [OF ch link, where cs = cs and ex = ex and st = st]
  have "computeSubtreeManifestsPersisted e (written c cs (subtreePersisted p) ex st) p2 = Inr q"
  proof (cases "subtreePersisted p")
    case True
    then have "q = p2\<lparr>subtreePersisted := True\<rparr>"
      using q by (auto simp: computeSubtreeManifestsPersisted_def split: sum.splits if_splits)
    then show ?thesis using True by (simp add: computeSubtreeManifestsPersisted_def)
  next
    case False
    then have "\<not> ct_subtree_persisted c" unfolding sub subtree_ok_def by blast
    then have l: "ct_subtree_persisted (written c cs (subtreePersisted p) ex st) = ct_subtree_persisted c"
      using False by simp
    show ?thesis using q(1) unfolding computeSubtreeManifestsPersisted_def
        aggregateChildrenSubtreeManifestsPersisted_def written_fields written_reads l .
  qed
  then show ?thesis using build [OF _ ch'] p1 q(2) by simp
qed

lemma settled_subtree:
  "settled_plan e c pending term msg owner = Inr p \<Longrightarrow> buildCommonSnapshotContentStatusPlan e c = Inr p0 \<Longrightarrow>
   mcp_names_agree e \<Longrightarrow> subtreePersisted p = subtreePersisted p0"
  using settled_ready(2) build_plan_legs by (fastforce simp: legs_ok_def)

lemma settled_after_write:
  assumes "mcp_names_agree e" and "settled_plan e c pending term msg owner = Inr p"
  shows "settled_plan e (written c cs (subtreePersisted p) ex st) pending term msg owner = Inr p"
proof -
  obtain p0 where p0: "buildCommonSnapshotContentStatusPlan e c = Inr p0"
    using assms(2) by (auto simp: settled_plan_def split: sum.splits)
  have "subtreePersisted p = subtreePersisted p0" using settled_subtree [OF assms(2) p0 assms(1)] .
  then have "buildCommonSnapshotContentStatusPlan e (written c cs (subtreePersisted p) ex st) = Inr p0"
    using plan_after_write [OF assms(1) p0] by simp
  then show ?thesis using assms(2) p0 by (simp add: settled_plan_def)
qed

lemma pass_again:
  assumes "mcp_names_agree e" and "reconcileCommonSnapshotContentStatus e perr c pending term msg owner = Inr (c', changed, ready)"
  obtains p agg where "settled_plan e c pending term msg owner = Inr p" and "settled_plan e c' pending term msg owner = Inr p"
    and "ready = (readyStatus p = ConditionTrue)" and "ct_generation c' = ct_generation c" and "ct_subtree_persisted c' = subtreePersisted p"
    and "computeExcludedRefsAggregate e c' = Inr agg" and "excludedObjectRefsEqualIgnoreOrder (ct_excluded c') agg"
    and "ct_conditions c' = (if has_status c then fst (upsert_all e (ct_conditions c) (desired_conditions (ct_generation c) p)) else [])"
proof -
  obtain p agg where p: "settled_plan e c pending term msg owner = Inr p"
    "computeExcludedRefsAggregate e c = Inr agg" "ready = (readyStatus p = ConditionTrue)"
    "ct_conditions c' = (if has_status c then fst (upsert_all e (ct_conditions c) (desired_conditions (ct_generation c) p)) else [])"
    "ct_subtree_persisted c' = subtreePersisted p"
    "ct_excluded c' = (if excludedObjectRefsEqualIgnoreOrder (ct_excluded c) agg then ct_excluded c else agg)"
    "c' = c\<lparr>ct_conditions := ct_conditions c', ct_subtree_persisted := subtreePersisted p, ct_excluded := ct_excluded c',
      ct_status_present := ct_status_present c'\<rparr>"
    "\<not> changed \<longrightarrow> c' = c" "changed \<longrightarrow> ct_status_present c'"
    "snd (upsert_all e (ct_conditions c) (desired_conditions (ct_generation c) p)) \<longrightarrow> changed"
    by (rule pass_facts [OF assms(2)])
  have plan: "settled_plan e c' pending term msg owner = Inr p"
    by (subst p(7)) (rule settled_after_write [OF assms(1) p(1)])
  have reads: "ct_edges c' = ct_edges c" "ownDirectExcludedRefs e c' = ownDirectExcludedRefs e c"
    "ct_generation c' = ct_generation c"
    by (subst p(7), simp)+
  have "\<exists>agg'. computeExcludedRefsAggregate e c' = Inr agg' \<and> excludedObjectRefsEqualIgnoreOrder (ct_excluded c') agg'"
  proof (cases "excludedObjectRefsEqualIgnoreOrder (ct_excluded c) agg")
    case True
    then have ex: "ct_excluded c' = ct_excluded c" using p(6) by simp
    have "computeExcludedRefsAggregate e c' = computeExcludedRefsAggregate e c"
      unfolding computeExcludedRefsAggregate_def reads ex ..
    then show ?thesis using True p(2) ex by simp
  next
    case False
    then have "ct_excluded c' = agg" using p(6) by simp
    then show ?thesis using excluded_stable [OF p(2) reads(1,2)] by simp
  qed
  then obtain agg' where a: "computeExcludedRefsAggregate e c' = Inr agg'" "excludedObjectRefsEqualIgnoreOrder (ct_excluded c') agg'"
    by blast
  show ?thesis by (rule that [OF p(1) plan p(3) reads(3) p(5) a p(4)])
qed

lemma desired_distinct: "distinct (map co_type (desired_conditions g p))"
  by (simp add: desired_conditions_def)

lemma settled_pass:
  assumes "mcp_names_agree e" and "conditions_contract e" and "stamped e (ct_conditions c)" and "has_status c"
    and "reconcileCommonSnapshotContentStatus e perr c pending term msg owner = Inr (c', changed, ready)"
  shows "reconcileCommonSnapshotContentStatus e perr' c' pending term msg owner = Inr (c', False, ready)"
proof -
  obtain p agg where p: "settled_plan e c' pending term msg owner = Inr p" "ready = (readyStatus p = ConditionTrue)"
    "ct_generation c' = ct_generation c" "ct_subtree_persisted c' = subtreePersisted p" "computeExcludedRefsAggregate e c' = Inr agg"
    "excludedObjectRefsEqualIgnoreOrder (ct_excluded c') agg"
    "ct_conditions c' = fst (upsert_all e (ct_conditions c) (desired_conditions (ct_generation c) p))"
    using pass_again [OF assms(1,5)] assms(4) by metis
  have "upsert_all e (ct_conditions c') (desired_conditions (ct_generation c') p) = (ct_conditions c', False)"
    using upsert_all_again [OF assms(2,3) desired_distinct] by (simp add: p(3,7))
  then show ?thesis using p(1,2,4,5,6) by (simp add: reconcileCommonSnapshotContentStatus_def)
qed

lemma second_pass:
  assumes "mcp_names_agree e" and "conditions_contract e" and "\<not> has_status c"
    and "reconcileCommonSnapshotContentStatus e perr c pending term msg owner = Inr (c', changed, ready)"
  shows "\<exists>c''. reconcileCommonSnapshotContentStatus e None c' pending term msg owner = Inr (c'', True, ready)"
proof -
  obtain p agg where p: "settled_plan e c' pending term msg owner = Inr p" "ready = (readyStatus p = ConditionTrue)"
    "computeExcludedRefsAggregate e c' = Inr agg" "ct_conditions c' = []"
    using pass_again [OF assms(1,4)] assms(3) by metis
  have "snd (upsert_all e (ct_conditions c') (desired_conditions (ct_generation c') p))"
    using p(4) find_nothing [OF assms(2)]
    by (simp add: desired_conditions_def upsertContentCondition_def Let_def split: prod.splits)
  then obtain cs where "upsert_all e (ct_conditions c') (desired_conditions (ct_generation c') p) = (cs, True)"
    by (metis prod.collapse)
  then show ?thesis using p(1-3) by (simp add: reconcileCommonSnapshotContentStatus_def)
qed


section \<open>An instance\<close>

text \<open>A content whose checkpoint is Ready, owned by it, with one chunk, without data and children.\<close>

definition ready_cond :: "string \<Rightarrow> string \<Rightarrow> condition" where
  "ready_cond st r = \<lparr>co_type = ''Ready'', co_status = st, co_reason = r, co_message = '''', co_gen = 1, co_time = ''t''\<rparr>"

definition mcp_env :: "condition \<Rightarrow> env" where
  "mcp_env cond = sample_env\<lparr>e_mcp := (\<lambda>n. if n = ''mcp'' then Found \<lparr>mp_name = ''mcp'', mp_owner_refs = [],
     mp_conditions = [cond], mp_chunks = [''chunk''], mp_finalizers = []\<rparr> else NotFound), live_chunk := (\<lambda>_. Found ())\<rparr>"

definition mcp_content :: snapshot_content where
  "mcp_content = sample_content\<lparr>ct_mcp_name := NVal ''mcp''\<rparr>"

text \<open>A content that was just made: it has no status.\<close>

definition bare_content :: snapshot_content where
  "bare_content = sample_content\<lparr>ct_status_present := False\<rparr>"

lemma has_status_eval [simp]: "has_status mcp_content" "\<not> has_status bare_content"
  by (simp_all add: has_status_def mcp_content_def bare_content_def sample_content_def)

lemma mcp_env_ok: "mcp_names_agree (mcp_env c)" "conditions_contract (mcp_env c)" "stamped (mcp_env c) []"
  subgoal by (simp add: mcp_env_def mcp_names_agree_def sample_env_def)
  subgoal using sample_env_contract by (simp add: mcp_env_def conditions_contract_def)
  subgoal by (simp add: mcp_env_def stamped_def sample_env_def)
  done

lemma pass_runs:
  "settled_plan e c pending term msg owner = Inr p \<Longrightarrow> computeExcludedRefsAggregate e c = Inr agg \<Longrightarrow>
   \<exists>c' ch. reconcileCommonSnapshotContentStatus e None c pending term msg owner = Inr (c', ch, readyStatus p = ConditionTrue)"
  by (auto simp: reconcileCommonSnapshotContentStatus_def Let_def split: prod.splits)

lemma mcp_excluded: "\<exists>agg. computeExcludedRefsAggregate (mcp_env c) mcp_content = Inr agg"
  by (auto simp: computeExcludedRefsAggregate_def ownDirectExcludedRefs_def mcp_content_def sample_content_def
      zero_subject_ref_def)

lemmas plan_eval = settled_plan_def buildCommonSnapshotContentStatusPlan_def
  fillOwnLegs_def validateCommonContentManifestCheckpoint_def resolveManifestCheckpointReady_def
  mcp_env_def mcp_content_def sample_env_def sample_content_def ready_cond_def resolveDataReadiness_def
  GetStatusDataRefs_def resolveDataBindings_def validateCommonContentChildren_def edge_walk0_def
  declaredNonLeafChildContentNames_def no_snapshot_ref_def computeSubtreeManifestsPersisted_def
  aggregateChildrenSubtreeManifestsPersisted_def deriveReadyStatus_def initial_plan_def
  data_leg_pending_downgrade_def data_leg_terminal_def lost_checkpoint_def ownerManifestCaptured_def
  fold_domain_phase_def applyDomainPhaseFold_def zero_subject_ref_def

lemma mcp_failed_pass:
  "\<exists>c' ch. reconcileCommonSnapshotContentStatus (mcp_env (ready_cond ''False'' ''Failed'')) None mcp_content
     False '''' '''' None = Inr (c', ch, False)"
proof -
  obtain p where p: "settled_plan (mcp_env (ready_cond ''False'' ''Failed'')) mcp_content False '''' '''' None = Inr p"
    and n: "(readyStatus p = ConditionTrue) = False"
    by (simp add: plan_eval Let_def)
  obtain agg where "computeExcludedRefsAggregate (mcp_env (ready_cond ''False'' ''Failed'')) mcp_content = Inr agg"
    using mcp_excluded by blast
  from pass_runs [OF p this] show ?thesis unfolding n .
qed

lemma mcp_ready_pass:
  "\<exists>c' ch. reconcileCommonSnapshotContentStatus (mcp_env (ready_cond ''True'' ''Completed'')) None mcp_content
     False '''' '''' None = Inr (c', ch, True)"
proof -
  obtain p where p: "settled_plan (mcp_env (ready_cond ''True'' ''Completed'')) mcp_content False '''' '''' None = Inr p"
    and n: "(readyStatus p = ConditionTrue) = True"
    by (simp add: plan_eval ensureManifestCheckpointOwnedByContent_def firstMissingManifestCheckpointChunk_def
      snapshotContentControllerOwnerRefsForHandoff_def Let_def)
  obtain agg where "computeExcludedRefsAggregate (mcp_env (ready_cond ''True'' ''Completed'')) mcp_content = Inr agg"
    using mcp_excluded by blast
  from pass_runs [OF p this] show ?thesis unfolding n .
qed

lemma bare_pass:
  "\<exists>c' ch. reconcileCommonSnapshotContentStatus (mcp_env c) None bare_content
     False ''VolumeCaptureFailed'' m None = Inr (c', ch, False)"
proof -
  obtain p where p: "settled_plan (mcp_env c) bare_content False ''VolumeCaptureFailed'' m None = Inr p"
    and n: "(readyStatus p = ConditionTrue) = False"
    by (simp add: plan_eval bare_content_def Let_def)
  obtain agg where "computeExcludedRefsAggregate (mcp_env c) bare_content = Inr agg"
    by (auto simp: computeExcludedRefsAggregate_def ownDirectExcludedRefs_def bare_content_def sample_content_def
      zero_subject_ref_def)
  from pass_runs [OF p this] show ?thesis unfolding n .
qed

lemma bare_stamped: "stamped (mcp_env c) (ct_conditions bare_content)" "stamped (mcp_env c) (ct_conditions mcp_content)"
  using mcp_env_ok(3) by (simp_all add: bare_content_def mcp_content_def sample_content_def)

lemma content_ready_exact_witness:
  "\<exists>c' ch. reconcileCommonSnapshotContentStatus (mcp_env (ready_cond ''True'' ''Completed'')) None mcp_content
     False '''' '''' None = Inr (c', ch, True) \<and>
   manifest_ok (mcp_env (ready_cond ''True'' ''Completed'')) mcp_content \<and>
   subtree_ok (mcp_env (ready_cond ''True'' ''Completed'')) mcp_content"
proof -
  obtain c' ch where "reconcileCommonSnapshotContentStatus (mcp_env (ready_cond ''True'' ''Completed'')) None mcp_content
     False '''' '''' None = Inr (c', ch, True)"
    using mcp_ready_pass by blast
  with content_ready_exact [OF mcp_env_ok(1) this] show ?thesis by blast
qed


lemma pass_is_monotone_witness:
  "\<exists>c' ch. reconcileCommonSnapshotContentStatus (mcp_env (ready_cond ''True'' ''Completed'')) None mcp_content
     False '''' '''' None = Inr (c', ch, True) \<and> \<not> ct_subtree_persisted mcp_content \<and> ct_subtree_persisted c'"
proof -
  obtain c' ch where p: "reconcileCommonSnapshotContentStatus (mcp_env (ready_cond ''True'' ''Completed'')) None mcp_content
     False '''' '''' None = Inr (c', ch, True)"
    using mcp_ready_pass by blast
  have "subtree_ok (mcp_env (ready_cond ''True'' ''Completed'')) mcp_content"
    by (simp add: subtree_ok_def manifest_ok_def mcp_env_def mcp_content_def sample_env_def sample_content_def
      ready_cond_def edge_names_def declared_linked_def declaredNonLeafChildContentNames_def no_snapshot_ref_def
      zero_subject_ref_def)
  with p pass_is_monotone [OF mcp_env_ok(1) p] show ?thesis
    by (auto simp: mcp_content_def sample_content_def)
qed


end
