(* ===== verification/Volume_Capture.thy ===== *)
theory Volume_Capture
  imports Data_Readiness Owner_Refs
begin

text \<open>
  The VolumeCaptureRequest as the core reads it (\<open>controllers/volumecapture\<close>): parsing of its single
  target and artifact, the consistency check before a publish, the coverage test that latches a
  published binding, and the handoff test that allows the request to be deleted.
\<close>

record capture_binding =
  cb_uid :: string
  cb_target :: capture_target
  cb_artifact :: artifact_ref

definition zero_target :: capture_target where
  "zero_target = \<lparr>tg_uid = '''', tg_apiVersion = '''', tg_kind = '''', tg_name = '''', tg_namespace = ''''\<rparr>"

definition ParseVolumeCaptureTargets :: "vcr_obj \<Rightarrow> capture_target list res" where
  "ParseVolumeCaptureTargets vcr =
     (case vr_target vcr of
        NBadType \<Rightarrow> Inl (FieldError ''spec.target'')
      | NAbsent \<Rightarrow> Inr []
      | NVal None \<Rightarrow> Inr []
      | NVal (Some m) \<Rightarrow>
          Inr [m\<lparr>tg_namespace := (if tg_namespace m = '''' then vr_namespace vcr else tg_namespace m)\<rparr>])"

definition ParseVolumeCaptureDataRefs :: "vcr_obj \<Rightarrow> capture_binding list res" where
  "ParseVolumeCaptureDataRefs vcr =
     (case vr_artifact vcr of
        NBadType \<Rightarrow> Inl (FieldError ''status.data'')
      | NAbsent \<Rightarrow> Inr []
      | NVal None \<Rightarrow> Inr []
      | NVal (Some artifact) \<Rightarrow>
        (case ParseVolumeCaptureTargets vcr of
           Inl x \<Rightarrow> Inl x
         | Inr targets \<Rightarrow>
             let target = (case targets of [] \<Rightarrow> zero_target | t # _ \<Rightarrow> t)
             in Inr [\<lparr>cb_uid = tg_uid target, cb_target = target, cb_artifact = artifact\<rparr>]))"

fun first_ready :: "(string \<times> string \<times> string \<times> string) option list \<Rightarrow> (string \<times> string \<times> string) option" where
  "first_ready [] = None"
| "first_ready (None # cs) = first_ready cs"
| "first_ready (Some (t, s, r, m) # cs) = (if t \<noteq> ''Ready'' then first_ready cs else Some (s, r, m))"

definition parseReadyCondition :: "vcr_obj \<Rightarrow> (string \<times> string \<times> string) option" where
  "parseReadyCondition vcr = (case vr_conditions vcr of NVal cs \<Rightarrow> first_ready cs | _ \<Rightarrow> None)"

definition VolumeCaptureRequestReady :: "vcr_obj \<Rightarrow> bool" where
  "VolumeCaptureRequestReady vcr = (case parseReadyCondition vcr of
     None \<Rightarrow> False | Some (status, reason, _) \<Rightarrow> status = ConditionTrue \<and> reason = ''Completed'')"

definition VolumeCaptureRequestFailed :: "vcr_obj \<Rightarrow> bool \<times> string \<times> string" where
  "VolumeCaptureRequestFailed vcr = (case parseReadyCondition vcr of
     None \<Rightarrow> (False, '''', '''')
   | Some (status, reason, message) \<Rightarrow>
       if status = ConditionFalse \<and> reason \<noteq> ''TargetsPending'' then (True, reason, message)
       else (False, '''', ''''))"

definition SnapshotDataBindingsFromVCRStatus :: "capture_binding list \<Rightarrow> data_binding list" where
  "SnapshotDataBindingsFromVCRStatus refs = map (\<lambda>r.
     \<lparr>SourceRef = \<lparr>sr_apiVersion = tg_apiVersion (cb_target r), sr_kind = tg_kind (cb_target r),
        sr_name = tg_name (cb_target r), sr_namespace = tg_namespace (cb_target r), sr_uid = tg_uid (cb_target r)\<rparr>,
      ArtifactRef = cb_artifact r, VolumeMode = '''', FsType = '''', StorageClassName = '''', Size = ''''\<rparr>) refs"

section \<open>Validation\<close>

definition volumeCaptureTargetsEqual :: "capture_target \<Rightarrow> capture_target \<Rightarrow> bool" where
  "volumeCaptureTargetsEqual a b = (tg_uid a = tg_uid b \<and> tg_apiVersion a = tg_apiVersion b \<and>
     tg_kind a = tg_kind b \<and> tg_name a = tg_name b \<and> tg_namespace a = tg_namespace b)"

definition validateDataRefTargetIdentity :: "nat \<Rightarrow> capture_binding \<Rightarrow> capture_target \<Rightarrow> unit res" where
  "validateDataRefTargetIdentity index ref expected =
     (let t = cb_target ref in
      if tg_uid t = '''' \<or> tg_apiVersion t = '''' \<or> tg_kind t = '''' \<or> tg_name t = '''' \<or> tg_namespace t = ''''
      then Inl (Errorf (''dataRefs['' @ show_nat index @ '']: target object must set uid, apiVersion, kind, name, namespace''))
      else if cb_uid ref \<noteq> tg_uid t
      then Inl (Errorf (''dataRefs['' @ show_nat index @ '']: targetUID != target.uid''))
      else if \<not> volumeCaptureTargetsEqual expected t
      then Inl (Errorf (''dataRefs['' @ show_nat index @ '']: target object does not match expected PVC''))
      else Inr ())"

fun expected_by_uid :: "capture_target list \<Rightarrow> (string \<rightharpoonup> capture_target) \<Rightarrow> (string \<rightharpoonup> capture_target) res" where
  "expected_by_uid [] byUID = Inr byUID"
| "expected_by_uid (t # ts) byUID =
     (if tg_uid t = '''' then Inl (Errorf ''expected target has empty uid'')
      else expected_by_uid ts (byUID(tg_uid t \<mapsto> t)))"

fun validate_refs :: "(string \<rightharpoonup> capture_target) \<Rightarrow> capture_binding list \<Rightarrow> nat \<Rightarrow> string list \<Rightarrow> string list res" where
  "validate_refs byUID [] i seen = Inr seen"
| "validate_refs byUID (ref # refs) i seen =
     (if cb_uid ref = '''' then Inl (Errorf (''dataRefs['' @ show_nat i @ '']: missing targetUID''))
      else if cb_uid ref \<in> set seen then Inl (Errorf (''dataRefs: duplicate targetUID '' @ cb_uid ref))
      else case byUID (cb_uid ref) of
        None \<Rightarrow> Inl (Errorf (''dataRefs: unexpected targetUID '' @ cb_uid ref))
      | Some exp \<Rightarrow>
        (case validateDataRefTargetIdentity i ref exp of
           Inl x \<Rightarrow> Inl x
         | Inr _ \<Rightarrow>
             let a = cb_artifact ref in
             if ar_apiVersion a = '''' \<or> ar_kind a = '''' \<or> ar_name a = ''''
             then Inl (Errorf (''dataRefs['' @ show_nat i @ '']: artifact apiVersion/kind/name required''))
             else if ar_kind a \<noteq> kindVolumeSnapshotContent
             then Inl (Errorf (''dataRefs['' @ show_nat i @ '']: artifact kind must be VolumeSnapshotContent''))
             else validate_refs byUID refs (Suc i) (cb_uid ref # seen)))"

definition ValidateDataRefsForPublish :: "capture_target list \<Rightarrow> capture_binding list \<Rightarrow> unit res" where
  "ValidateDataRefsForPublish expected refs =
     (if expected = [] then Inl (Errorf ''expected targets must not be empty'')
      else if length refs \<noteq> length expected then Inl (Errorf ''dataRefs count != targets count'')
      else case expected_by_uid expected Map.empty of
        Inl x \<Rightarrow> Inl x
      | Inr byUID \<Rightarrow>
        (case validate_refs byUID refs 0 [] of
           Inl x \<Rightarrow> Inl x
         | Inr seen \<Rightarrow>
             if length seen \<noteq> length expected then Inl (Errorf ''dataRefs: missing bindings'') else Inr ()))"

fun cover_loop :: "string set \<Rightarrow> data_binding list \<Rightarrow> string list \<Rightarrow> string list option" where
  "cover_loop want [] seen = Some seen"
| "cover_loop want (b # bs) seen =
     (let uid = sr_uid (SourceRef b); a = ArtifactRef b in
      if uid = '''' then None
      else if uid \<notin> want then None
      else if uid \<in> set seen then None
      else if ar_apiVersion a = '''' \<or> ar_kind a \<noteq> kindVolumeSnapshotContent \<or> ar_name a = '''' then None
      else cover_loop want bs (uid # seen))"

definition ContentDataRefsCoverExpectedTargets :: "data_binding list \<Rightarrow> capture_target list \<Rightarrow> bool" where
  "ContentDataRefsCoverExpectedTargets published expected =
     (if expected = [] then published = []
      else if length published \<noteq> length expected then False
      else case cover_loop (tg_uid ` set expected) published [] of
        None \<Rightarrow> False
      | Some seen \<Rightarrow> length seen = length expected)"

section \<open>The handoff\<close>

fun last_by_uid :: "data_binding list \<Rightarrow> (string \<rightharpoonup> data_binding) \<Rightarrow> (string \<rightharpoonup> data_binding)" where
  "last_by_uid [] m = m"
| "last_by_uid (b # bs) m = last_by_uid bs (m(sr_uid (SourceRef b) \<mapsto> b))"

definition isPublishedDataRefsComplete :: "capture_binding list \<Rightarrow> data_binding list \<Rightarrow> bool" where
  "isPublishedDataRefsComplete vcrRefs published =
     (if vcrRefs = [] \<or> length published < length vcrRefs then False
      else let byUID = last_by_uid published Map.empty in
        list_all (\<lambda>want. case byUID (cb_uid want) of
           None \<Rightarrow> False
         | Some got \<Rightarrow> ar_apiVersion (ArtifactRef got) = ar_apiVersion (cb_artifact want) \<and>
             ar_kind (ArtifactRef got) = ar_kind (cb_artifact want) \<and>
             ar_name (ArtifactRef got) = ar_name (cb_artifact want)) vcrRefs)"

fun first_content_owner :: "string \<Rightarrow> owner_ref list \<Rightarrow> owner_ref option" where
  "first_content_owner n [] = None"
| "first_content_owner n (ref # refs) =
     (if or_apiVersion ref \<noteq> storageGroupVersion \<or> or_kind ref \<noteq> kindSnapshotContent \<or> or_name ref \<noteq> n
      then first_content_owner n refs else Some ref)"

definition VolumeSnapshotContentOwnedByContent :: "env \<Rightarrow> string \<Rightarrow> snapshot_content \<Rightarrow> bool res" where
  "VolumeSnapshotContentOwnedByContent e vscName c =
     (case e_vsc e vscName of
        NotFound \<Rightarrow> Inr False
      | GetErr x \<Rightarrow> Inl (ClientError x)
      | Found v \<Rightarrow>
          if ct_uid c = '''' then Inr False
          else case first_content_owner (ct_name c) (vs_owner_refs v) of
            None \<Rightarrow> Inr False
          | Some ref \<Rightarrow> Inr (or_uid ref \<noteq> '''' \<and> or_uid ref = ct_uid c))"

fun all_owned :: "env \<Rightarrow> snapshot_content \<Rightarrow> data_binding list \<Rightarrow> bool res" where
  "all_owned e c [] = Inr True"
| "all_owned e c (b # bs) =
     (if ar_kind (ArtifactRef b) \<noteq> kindVolumeSnapshotContent \<or> ar_name (ArtifactRef b) = '''' then all_owned e c bs
      else case VolumeSnapshotContentOwnedByContent e (ar_name (ArtifactRef b)) c of
        Inl x \<Rightarrow> Inl x
      | Inr owned \<Rightarrow> if \<not> owned then Inr False else all_owned e c bs)"

definition VolumeCaptureRequestSafeToDeleteWithHandoff :: "env \<Rightarrow> string \<Rightarrow> string \<Rightarrow> string \<Rightarrow> bool res" where
  "VolumeCaptureRequestSafeToDeleteWithHandoff e namespace name contentName =
     (case e_vcr e namespace name of
        NotFound \<Rightarrow> Inr True
      | GetErr x \<Rightarrow> Inl (ClientError x)
      | Found vcr \<Rightarrow>
        if contentName = '''' then Inr False
        else case e_content e contentName of
          NotFound \<Rightarrow> Inr False
        | GetErr x \<Rightarrow> Inl (ClientError x)
        | Found c \<Rightarrow>
          (case ParseVolumeCaptureDataRefs vcr of
             Inl x \<Rightarrow> Inl x
           | Inr vcrRefs \<Rightarrow>
               if \<not> isPublishedDataRefsComplete vcrRefs (GetStatusDataRefs c) then Inr False
               else all_owned e c (GetStatusDataRefs c)))"

section \<open>What a valid request publishes\<close>

text \<open>A request has at most one target and one artifact.\<close>

lemma parse_targets_single:
  "ParseVolumeCaptureTargets vcr = Inr ts \<Longrightarrow> ts = [] \<or> (\<exists>t. ts = [t])"
  by (auto simp: ParseVolumeCaptureTargets_def split: nested.splits option.splits)

lemma parse_refs_single:
  "ParseVolumeCaptureDataRefs vcr = Inr rs \<Longrightarrow> rs = [] \<or>
     (\<exists>r ts. rs = [r] \<and> ParseVolumeCaptureTargets vcr = Inr ts \<and>
       cb_target r = (case ts of [] \<Rightarrow> zero_target | t # _ \<Rightarrow> t) \<and> cb_uid r = tg_uid (cb_target r))"
  by (auto simp: ParseVolumeCaptureDataRefs_def Let_def split: nested.splits option.splits sum.splits)

text \<open>The identity of a binding: what the enrichment may not change.\<close>

definition same_binding :: "data_binding \<Rightarrow> data_binding \<Rightarrow> bool" where
  "same_binding a b \<longleftrightarrow> SourceRef a = SourceRef b \<and> ar_apiVersion (ArtifactRef a) = ar_apiVersion (ArtifactRef b) \<and>
     ar_kind (ArtifactRef a) = ar_kind (ArtifactRef b) \<and> ar_name (ArtifactRef a) = ar_name (ArtifactRef b)"

lemma same_binding_refl [simp]: "same_binding b b"
  by (simp add: same_binding_def)

lemma same_binding_trans: "same_binding a b \<Longrightarrow> same_binding b c \<Longrightarrow> same_binding a c"
  by (simp add: same_binding_def)

lemma validated_covers:
  assumes "ParseVolumeCaptureTargets vcr = Inr ts" and "ParseVolumeCaptureDataRefs vcr = Inr rs"
    and "ValidateDataRefsForPublish ts rs = Inr u"
  shows "\<exists>b. SnapshotDataBindingsFromVCRStatus rs = [b] \<and> ar_kind (ArtifactRef b) = kindVolumeSnapshotContent \<and>
     ar_name (ArtifactRef b) \<noteq> '''' \<and>
     (\<forall>b'. same_binding b' b \<longrightarrow> ContentDataRefsCoverExpectedTargets [b'] ts)"
proof -
  obtain t where ts: "ts = [t]"
    using parse_targets_single [OF assms(1)] assms(3) by (auto simp: ValidateDataRefsForPublish_def)
  obtain r where r: "rs = [r]" "cb_target r = t" "cb_uid r = tg_uid t"
    using parse_refs_single [OF assms(2)] assms(1,3) ts by (auto simp: ValidateDataRefsForPublish_def)
  have "tg_uid t \<noteq> ''''" "ar_apiVersion (cb_artifact r) \<noteq> ''''" "ar_kind (cb_artifact r) = kindVolumeSnapshotContent"
    "ar_name (cb_artifact r) \<noteq> ''''"
    using assms(3) by (auto simp: ts r ValidateDataRefsForPublish_def Let_def split: if_splits sum.splits)
  then show ?thesis
    by (auto simp: ts r SnapshotDataBindingsFromVCRStatus_def ContentDataRefsCoverExpectedTargets_def same_binding_def)
qed

end
