(* ===== verification/Data_Leg_Projection.thy ===== *)
theory Data_Leg_Projection
  imports Volume_Capture Dataleg
begin

text \<open>
  The projection of the data leg onto \<open>status.data\<close> (\<open>snapshotcontent/datarefs_projection.go\<close>,
  \<open>datarefs_publish.go\<close>, \<open>import_datarefs_projection.go\<close>, \<open>snaphelpers/dataimport_lookup.go\<close>).

  The operations that write take the cluster as an \<open>env\<close> and return it updated, with the result: an
  error does not undo the writes made before it. A write that \<open>retry.RetryOnConflict\<close> repeats is its last
  run: a run that ends in a conflict wrote nothing.
\<close>

type_synonym 'a io = "'a res \<times> env"

definition put_vsc :: "env \<Rightarrow> string \<Rightarrow> vsc_obj \<Rightarrow> env" where
  "put_vsc e n v = e\<lparr>e_vsc := (e_vsc e)(n := Found v)\<rparr>"

definition put_content :: "env \<Rightarrow> string \<Rightarrow> snapshot_content \<Rightarrow> env" where
  "put_content e n c = e\<lparr>e_content := (e_content e)(n := Found c)\<rparr>"

section \<open>Enrichment\<close>

definition readArtifactRestoreSizeAndUID :: "env \<Rightarrow> artifact_ref \<Rightarrow> (string \<times> string) res" where
  "readArtifactRestoreSizeAndUID e a =
     (if ar_kind a \<noteq> kindVolumeSnapshotContent \<or> ar_name a = '''' then Inr ('''', '''')
      else case e_vsc e (ar_name a) of
        NotFound \<Rightarrow> Inr ('''', '''')
      | GetErr x \<Rightarrow> Inl (Wrap (''read VolumeSnapshotContent '' @ ar_name a @ '' for restoreSize'') (ClientError x))
      | Found v \<Rightarrow>
          if vs_deleting v then Inr ('''', '''')
          else case vs_restore_size v of
            NVal bytes \<Rightarrow> if bytes \<le> 0 then Inr ('''', vs_uid v) else Inr (binary_quantity e bytes, vs_uid v)
          | _ \<Rightarrow> Inr ('''', vs_uid v))"

definition live_fs_type :: "env \<Rightarrow> pvc_obj \<Rightarrow> data_binding \<Rightarrow> data_binding res" where
  "live_fs_type e pvc b =
     (if VolumeMode b \<noteq> ''Block'' \<and> pc_volume pvc \<noteq> '''' then
        (case live_pv e (pc_volume pvc) of
           NotFound \<Rightarrow> Inl (Wrap (''read bound PV '' @ pc_volume pvc) (NotFoundError (pc_volume pvc)))
         | GetErr x \<Rightarrow> Inl (Wrap (''read bound PV '' @ pc_volume pvc) (ClientError x))
         | Found pv \<Rightarrow> (case pv_csi_fs pv of None \<Rightarrow> Inr b | Some fs \<Rightarrow> Inr (b\<lparr>FsType := fs\<rparr>)))
      else Inr b)"

definition enrich_from_pvc :: "env \<Rightarrow> data_binding \<Rightarrow> data_binding res" where
  "enrich_from_pvc e b =
     (let src = SourceRef b in
      if sr_kind src \<noteq> ''PersistentVolumeClaim'' \<or> sr_name src = '''' then Inr b
      else case e_pvc e (sr_namespace src) (sr_name src) of
        NotFound \<Rightarrow> Inr b
      | GetErr x \<Rightarrow> Inl (Wrap (''read source PVC '' @ sr_namespace src @ ''/'' @ sr_name src) (ClientError x))
      | Found pvc \<Rightarrow>
          if sr_uid src \<noteq> '''' \<and> pc_uid pvc \<noteq> sr_uid src then Inr b
          else let b = b\<lparr>VolumeMode := (case pc_mode pvc of
                     Some m \<Rightarrow> if m \<noteq> '''' then m else ''Filesystem'' | None \<Rightarrow> ''Filesystem'')\<rparr>;
                   b = (case pc_class pvc of Some sc \<Rightarrow> b\<lparr>StorageClassName := sc\<rparr> | None \<Rightarrow> b)
               in live_fs_type e pvc b)"

definition enrich_binding :: "env \<Rightarrow> data_binding \<Rightarrow> data_binding res" where
  "enrich_binding e b =
     (case readArtifactRestoreSizeAndUID e (ArtifactRef b) of
        Inl x \<Rightarrow> Inl x
      | Inr (restoreSize, uid) \<Rightarrow>
          let b = (if restoreSize \<noteq> '''' then b\<lparr>Size := restoreSize\<rparr> else b);
              b = (if ar_uid (ArtifactRef b) = '''' \<and> uid \<noteq> '''' then b\<lparr>ArtifactRef := (ArtifactRef b)\<lparr>ar_uid := uid\<rparr>\<rparr> else b)
          in enrich_from_pvc e b)"

fun EnrichDataBindingsWithVolumeMetadata :: "env \<Rightarrow> data_binding list \<Rightarrow> data_binding list res" where
  "EnrichDataBindingsWithVolumeMetadata e [] = Inr []"
| "EnrichDataBindingsWithVolumeMetadata e (b # bs) =
     (case enrich_binding e b of
        Inl x \<Rightarrow> Inl x
      | Inr b' \<Rightarrow> (case EnrichDataBindingsWithVolumeMetadata e bs of Inl x \<Rightarrow> Inl x | Inr bs' \<Rightarrow> Inr (b' # bs')))"

section \<open>Handoff and publish\<close>

definition ensureVolumeSnapshotContentOwnedByContent :: "env \<Rightarrow> string \<Rightarrow> snapshot_content \<Rightarrow> unit io" where
  "ensureVolumeSnapshotContentOwnedByContent e vscName c =
     (case e_vsc e vscName of
        NotFound \<Rightarrow> (Inl (NotFoundError vscName), e)
      | GetErr x \<Rightarrow> (Inl (ClientError x), e)
      | Found v \<Rightarrow>
          if vs_deleting v then (Inr (), e)
          else case snapshotContentControllerOwnerRefsForHandoff (vs_owner_refs v)
                  \<lparr>or_apiVersion = storageGroupVersion, or_kind = kindSnapshotContent, or_name = ct_name c,
                   or_uid = ct_uid c, or_controller = Some True\<rparr> of
            Inl x \<Rightarrow> (Inl (Wrap (''VolumeSnapshotContent '' @ vscName) x), e)
          | Inr (refs, ownerChanged) \<Rightarrow>
            (case nested_or_fail ''spec.deletionPolicy'' '''' (vs_policy v) of
               Inl x \<Rightarrow> (Inl (Wrap (''read VolumeSnapshotContent '' @ vscName @ '' deletionPolicy'') x), e)
             | Inr policy \<Rightarrow>
                 let policyChanged = (policy \<noteq> ''Retain'') in
                 if \<not> ownerChanged \<and> \<not> policyChanged then (Inr (), e)
                 else (case patch_vsc e vscName of
                     Some x \<Rightarrow> (Inl (ClientError x), e)
                   | None \<Rightarrow> (Inr (), put_vsc e vscName
                       (v\<lparr>vs_owner_refs := (if ownerChanged then refs else vs_owner_refs v),
                          vs_policy := (if policyChanged then NVal ''Retain'' else vs_policy v)\<rparr>)))))"

fun EnsureVolumeSnapshotContentsOwnedByContent :: "env \<Rightarrow> snapshot_content \<Rightarrow> data_binding list \<Rightarrow> unit io" where
  "EnsureVolumeSnapshotContentsOwnedByContent e c [] = (Inr (), e)"
| "EnsureVolumeSnapshotContentsOwnedByContent e c (b # bs) =
     (if ar_kind (ArtifactRef b) \<noteq> kindVolumeSnapshotContent \<or> ar_name (ArtifactRef b) = ''''
      then EnsureVolumeSnapshotContentsOwnedByContent e c bs
      else case ensureVolumeSnapshotContentOwnedByContent e (ar_name (ArtifactRef b)) c of
        (Inl x, e') \<Rightarrow> (Inl x, e')
      | (Inr _, e') \<Rightarrow> EnsureVolumeSnapshotContentsOwnedByContent e' c bs)"

text \<open>\<open>dataBindingEqual\<close> compares every field of the binding.\<close>

definition dataBindingEqual :: "data_binding \<Rightarrow> data_binding \<Rightarrow> bool" where
  "dataBindingEqual x y =
     (if sr_apiVersion (SourceRef x) \<noteq> sr_apiVersion (SourceRef y) \<or> sr_kind (SourceRef x) \<noteq> sr_kind (SourceRef y) \<or>
         sr_name (SourceRef x) \<noteq> sr_name (SourceRef y) \<or> sr_namespace (SourceRef x) \<noteq> sr_namespace (SourceRef y) \<or>
         sr_uid (SourceRef x) \<noteq> sr_uid (SourceRef y) then False
      else if ArtifactRef x \<noteq> ArtifactRef y then False
      else VolumeMode x = VolumeMode y \<and> FsType x = FsType y \<and> StorageClassName x = StorageClassName y \<and> Size x = Size y)"

definition snapshotDataRefEqual :: "data_binding option \<Rightarrow> data_binding option \<Rightarrow> bool" where
  "snapshotDataRefEqual a b = (case (a, b) of
     (Some x, Some y) \<Rightarrow> dataBindingEqual x y | (None, None) \<Rightarrow> True | _ \<Rightarrow> False)"

definition PublishSnapshotContentDataRef :: "env \<Rightarrow> string \<Rightarrow> data_binding option \<Rightarrow> unit io" where
  "PublishSnapshotContentDataRef e contentName ref =
     (if contentName = '''' then (Inr (), e)
      else case e_content e contentName of
        NotFound \<Rightarrow> (Inl (NotFoundError contentName), e)
      | GetErr x \<Rightarrow> (Inl (ClientError x), e)
      | Found c \<Rightarrow>
          if snapshotDataRefEqual (ct_data c) ref then (Inr (), e)
          else (case patch_content e contentName of
              Some x \<Rightarrow> (Inl (ClientError x), e)
            | None \<Rightarrow> (Inr (), put_content e contentName (c\<lparr>ct_data := ref\<rparr>))))"

definition PublishSnapshotContentDataRefs :: "env \<Rightarrow> string \<Rightarrow> data_binding list \<Rightarrow> unit io" where
  "PublishSnapshotContentDataRefs e contentName refs =
     (if contentName = '''' \<or> refs = [] then (Inr (), e)
      else if length refs > 1
      then (Inl (Errorf (''SnapshotContent '' @ contentName @ '': cannot publish '' @ show_nat (length refs) @
        '' dataRefs onto one content'')), e)
      else PublishSnapshotContentDataRef e contentName (Some (hd refs)))"

section \<open>Import metadata\<close>

record import_metadata =
  im_StorageClassName :: string
  im_VolumeMode :: string
  im_FsType :: string

definition no_metadata :: import_metadata where
  "no_metadata = \<lparr>im_StorageClassName = '''', im_VolumeMode = '''', im_FsType = ''''\<rparr>"

definition isPopulateDataImport :: "data_import option \<Rightarrow> bool" where
  "isPopulateDataImport di = (case di of None \<Rightarrow> False | Some d \<Rightarrow> di_mode d = ''PopulateData'')"

definition ImportStorageClassName :: "data_import option \<Rightarrow> string" where
  "ImportStorageClassName di = (case di of Some d \<Rightarrow> if isPopulateDataImport di then di_class d else '''' | None \<Rightarrow> '''')"

definition ImportVolumeMode :: "data_import option \<Rightarrow> string" where
  "ImportVolumeMode di = (case di of Some d \<Rightarrow> if isPopulateDataImport di then di_volume_mode d else '''' | None \<Rightarrow> '''')"

definition ImportFsType :: "data_import option \<Rightarrow> string" where
  "ImportFsType di = (case di of Some d \<Rightarrow> if isPopulateDataImport di then di_fs_type d else '''' | None \<Rightarrow> '''')"

definition importVolumeMetadataFromDataImport :: "data_import option \<Rightarrow> import_metadata" where
  "importVolumeMetadataFromDataImport di = \<lparr>im_StorageClassName = ImportStorageClassName di,
     im_VolumeMode = ImportVolumeMode di, im_FsType = ImportFsType di\<rparr>"

definition importVolumeMetadataFromPublished :: "data_binding option \<Rightarrow> import_metadata" where
  "importVolumeMetadataFromPublished published = (case published of None \<Rightarrow> no_metadata
     | Some p \<Rightarrow> \<lparr>im_StorageClassName = StorageClassName p, im_VolumeMode = VolumeMode p, im_FsType = FsType p\<rparr>)"

definition applyTo :: "import_metadata \<Rightarrow> data_binding list \<Rightarrow> data_binding list" where
  "applyTo m bs = map (\<lambda>b.
     let b = (if im_StorageClassName m \<noteq> '''' then b\<lparr>StorageClassName := im_StorageClassName m\<rparr> else b);
         b = (if im_VolumeMode m \<noteq> '''' then b\<lparr>VolumeMode := im_VolumeMode m\<rparr> else b)
     in if im_FsType m \<noteq> '''' then b\<lparr>FsType := im_FsType m\<rparr> else b) bs"

definition matchesPublished :: "import_metadata \<Rightarrow> data_binding option \<Rightarrow> bool" where
  "matchesPublished m published = (case published of None \<Rightarrow> False
     | Some p \<Rightarrow>
        if im_StorageClassName m \<noteq> '''' \<and> StorageClassName p \<noteq> im_StorageClassName m then False
        else if im_VolumeMode m \<noteq> '''' \<and> VolumeMode p \<noteq> im_VolumeMode m then False
        else if im_FsType m \<noteq> '''' \<and> FsType p \<noteq> im_FsType m then False
        else True)"

definition di_matches :: "env \<Rightarrow> snapshot_obj \<Rightarrow> data_import \<Rightarrow> bool" where
  "di_matches e leaf d = (isPopulateDataImport (Some d) \<and>
     g_group (gvk_of e (di_ref_apiVersion d) (di_ref_kind d)) = g_group (so_gvk leaf) \<and>
     di_ref_kind d = g_kind (so_gvk leaf) \<and> di_ref_name d = so_name leaf)"

text \<open>The import found (if exactly one matches) and the terminal reason of an ambiguous set.\<close>

definition FindDataImportForLeaf :: "env \<Rightarrow> snapshot_obj \<Rightarrow> (data_import option \<times> string) res" where
  "FindDataImportForLeaf e leaf =
     (if g_kind (so_gvk leaf) = '''' then Inr (None, '''')
      else case e_data_imports e (so_namespace leaf) of
        Inl x \<Rightarrow> Inl (ClientError x)
      | Inr items \<Rightarrow>
        (case filter (di_matches e leaf) items of
           [] \<Rightarrow> Inr (None, '''')
         | [d] \<Rightarrow> Inr (Some d, '''')
         | _ \<Rightarrow> Inr (None, ''DataImportAmbiguous'')))"

text \<open>The binding, whether it is ready, and the terminal reason of an unsupported artifact.\<close>

definition BuildImportDataBinding :: "env \<Rightarrow> data_import \<Rightarrow> snapshot_obj \<Rightarrow> data_binding option \<times> bool \<times> string" where
  "BuildImportDataBinding e d leaf =
     (let a = di_artifact d in
      if ar_apiVersion a = '''' \<or> ar_kind a = '''' \<or> ar_name a = '''' then (None, False, '''')
      else if ar_kind a \<noteq> kindVolumeSnapshotContent then (None, False, ReasonDataArtifactInvalid)
      else (Some \<lparr>SourceRef = \<lparr>sr_apiVersion = gv_string e (so_gvk leaf), sr_kind = g_kind (so_gvk leaf),
                sr_name = so_name leaf, sr_namespace = so_namespace leaf, sr_uid = so_uid leaf\<rparr>,
              ArtifactRef = a, VolumeMode = ImportVolumeMode (Some d), FsType = ImportFsType (Some d),
              StorageClassName = '''', Size = ''''\<rparr>, True, ''''))"

section \<open>The projections\<close>

definition contentHasData :: "env \<Rightarrow> string \<Rightarrow> bool" where
  "contentHasData e contentName = (case e_content e contentName of Found c \<Rightarrow> ct_data c \<noteq> None | _ \<Rightarrow> False)"

definition get_content :: "env \<Rightarrow> string \<Rightarrow> snapshot_content res" where
  "get_content e n = (case e_content e n of
     Found c \<Rightarrow> Inr c | NotFound \<Rightarrow> Inl (NotFoundError n) | GetErr x \<Rightarrow> Inl (ClientError x))"

definition publishDataBindings :: "env \<Rightarrow> string \<Rightarrow> data_binding list \<Rightarrow> import_metadata \<Rightarrow> bool io" where
  "publishDataBindings e contentName bindings importMeta =
     (case EnrichDataBindingsWithVolumeMetadata e bindings of
        Inl x \<Rightarrow> (Inl x, e)
      | Inr enriched \<Rightarrow>
        let bindings = applyTo importMeta enriched in
        case get_content e contentName of
          Inl x \<Rightarrow> (Inl x, e)
        | Inr c \<Rightarrow>
          (case EnsureVolumeSnapshotContentsOwnedByContent e c bindings of
             (Inl _, e') \<Rightarrow> (Inr True, e')
           | (Inr _, e') \<Rightarrow>
             (case PublishSnapshotContentDataRefs e' contentName bindings of
                (Inl x, e'') \<Rightarrow> (Inl x, e'')
              | (Inr _, e'') \<Rightarrow> (Inr True, e''))))"

text \<open>A projection answers whether to requeue and the terminal reason and message of the leg.\<close>

type_synonym projection = "(bool \<times> string \<times> string) io"

fun leg_answer :: "bool io \<Rightarrow> projection" where
  "leg_answer (Inl x, e) = (Inl x, e)"
| "leg_answer (Inr requeue, e) = (Inr (requeue, '''', ''''), e)"

definition projectContentDataLegFromVCR :: "env \<Rightarrow> snapshot_content \<Rightarrow> string \<Rightarrow> string \<Rightarrow> projection" where
  "projectContentDataLegFromVCR e contentObj namespace vcrName =
     (let contentName = ct_name contentObj in
      case e_vcr e namespace vcrName of
        NotFound \<Rightarrow> (Inr (\<not> contentHasData e contentName, '''', ''''), e)
      | GetErr x \<Rightarrow> (Inl (ClientError x), e)
      | Found vcr \<Rightarrow>
     (case ParseVolumeCaptureTargets vcr of
        Inl x \<Rightarrow> (Inl x, e)
      | Inr expectedTargets \<Rightarrow>
     (case get_content e contentName of
        Inl x \<Rightarrow> (Inl x, e)
      | Inr content \<Rightarrow>
        if ContentDataRefsCoverExpectedTargets (GetStatusDataRefs content) expectedTargets
        then (Inr (False, '''', ''''), e)
        else case VolumeCaptureRequestFailed vcr of
          (True, reason, msg) \<Rightarrow>
            (Inr (False, ReasonVolumeCaptureFailed, ''data-leg volume capture failed: '' @
              (if reason \<noteq> '''' then reason @ '': '' @ msg else msg)), e)
        | (False, _, _) \<Rightarrow>
          if \<not> VolumeCaptureRequestReady vcr then (Inr (True, '''', ''''), e)
          else case ParseVolumeCaptureDataRefs vcr of
            Inl x \<Rightarrow> (Inl x, e)
          | Inr vcrRefs \<Rightarrow>
            (case ValidateDataRefsForPublish expectedTargets vcrRefs of
               Inl _ \<Rightarrow> (Inr (True, '''', ''''), e)
             | Inr _ \<Rightarrow>
               let bindings = SnapshotDataBindingsFromVCRStatus vcrRefs in
               if length bindings > 1
               then (Inr (False, ReasonVolumeCaptureFailed, ''data-leg volume capture returned '' @
                 show_nat (length bindings) @ '' data artifacts for a single SnapshotContent '' @ contentName), e)
               else if length bindings \<noteq> 1 then (Inr (True, '''', ''''), e)
               else leg_answer (publishDataBindings e contentName bindings no_metadata)))))"

definition volumeSnapshotOwnerSource :: "snapshot_obj \<Rightarrow> subject_ref" where
  "volumeSnapshotOwnerSource owner = so_source_ref owner"

definition projectContentDataLegFromBoundVSC :: "env \<Rightarrow> snapshot_content \<Rightarrow> snapshot_obj \<Rightarrow> projection" where
  "projectContentDataLegFromBoundVSC e contentObj owner =
     (let contentName = ct_name contentObj; isImport = so_import_mode owner in
      case nested_or_fail ''status.boundVolumeSnapshotContentName'' '''' (so_bound_vsc owner) of
        Inl x \<Rightarrow> (Inl x, e)
      | Inr vscName \<Rightarrow>
        if vscName = '''' then (Inr (True, '''', ''''), e)
        else let binding = \<lparr>SourceRef = volumeSnapshotOwnerSource owner,
               ArtifactRef = \<lparr>ar_apiVersion = volumeSnapshotContentAPIVersion, ar_kind = kindVolumeSnapshotContent,
                 ar_name = vscName, ar_uid = ''''\<rparr>,
               VolumeMode = '''', FsType = '''', StorageClassName = '''', Size = ''''\<rparr> in
        if sr_name (SourceRef binding) = '''' then (Inr (True, '''', ''''), e)
        else case (if isImport then FindDataImportForLeaf e owner else Inr (None, '''')) of
          Inl x \<Rightarrow> (Inl x, e)
        | Inr (di, _) \<Rightarrow>
          let importDataImportResolved = (di \<noteq> None);
              importMeta = (if isImport then importVolumeMetadataFromDataImport di else no_metadata) in
          case get_content e contentName of
            Inl x \<Rightarrow> (Inl x, e)
          | Inr content \<Rightarrow>
            let importMeta = (if isImport \<and> \<not> importDataImportResolved
                  then importVolumeMetadataFromPublished (ct_data content) else importMeta);
                latched = (case ct_data content of
                  None \<Rightarrow> False
                | Some p \<Rightarrow> ar_name (ArtifactRef p) = vscName \<and> Size p \<noteq> '''' \<and> matchesPublished importMeta (ct_data content)) in
            if latched then (Inr (False, '''', ''''), e)
            else leg_answer (publishDataBindings e contentName [binding] importMeta))"

definition completeOrKeepPublishedImportLeg :: "env \<Rightarrow> string \<Rightarrow> projection" where
  "completeOrKeepPublishedImportLeg e contentName =
     (case get_content e contentName of
        Inl x \<Rightarrow> (Inl x, e)
      | Inr content \<Rightarrow>
        (case ct_data content of
           None \<Rightarrow> (Inr (True, '''', ''''), e)
         | Some published \<Rightarrow>
             if Size published \<noteq> '''' then (Inr (False, '''', ''''), e)
             else leg_answer (publishDataBindings e contentName
               [\<lparr>SourceRef = SourceRef published, ArtifactRef = ArtifactRef published, VolumeMode = '''', FsType = '''',
                 StorageClassName = '''', Size = ''''\<rparr>]
               (importVolumeMetadataFromPublished (Some published)))))"

definition projectContentDataLegFromDataImport ::
  "env \<Rightarrow> registry \<Rightarrow> snapshot_content \<Rightarrow> snapshot_obj \<Rightarrow> projection" where
  "projectContentDataLegFromDataImport e reg contentObj owner =
     (let contentName = ct_name contentObj in
      if \<not> RequiresDataArtifact (g_kind (so_gvk owner)) reg then (Inr (False, '''', ''''), e)
      else case FindDataImportForLeaf e owner of
        Inl x \<Rightarrow> (Inl x, e)
      | Inr (di, treason) \<Rightarrow>
        if treason \<noteq> '''' then completeOrKeepPublishedImportLeg e contentName
        else case di of
          None \<Rightarrow> completeOrKeepPublishedImportLeg e contentName
        | Some d \<Rightarrow>
          (case BuildImportDataBinding e d owner of
             (binding, ready, dtreason) \<Rightarrow>
               if dtreason \<noteq> '''' then (Inr (\<not> contentHasData e contentName, '''', ''''), e)
               else if \<not> ready then (Inr (\<not> contentHasData e contentName, '''', ''''), e)
               else case binding of
                 None \<Rightarrow> (Inl (Errorf ''nil binding''), e)
               | Some b \<Rightarrow>
                 (case get_content e contentName of
                    Inl x \<Rightarrow> (Inl x, e)
                  | Inr content \<Rightarrow>
                      let importMeta = importVolumeMetadataFromDataImport di;
                          latched = (case ct_data content of
                            None \<Rightarrow> False
                          | Some p \<Rightarrow> ArtifactRef p = ArtifactRef b \<and> Size p \<noteq> '''' \<and>
                              matchesPublished importMeta (ct_data content)) in
                      if latched then (Inr (False, '''', ''''), e)
                      else leg_answer (publishDataBindings e contentName [b] importMeta))))"

definition domainVolumeCaptureRequestName :: "snapshot_obj \<Rightarrow> string res" where
  "domainVolumeCaptureRequestName owner =
     nested_or_fail ''status.captureState.domainSpecificController.volumeCaptureRequestName'' '''' (so_vcr_name owner)"

definition reconcileDataLegProjection ::
  "env \<Rightarrow> registry \<Rightarrow> snapshot_content \<Rightarrow> snapshot_obj \<Rightarrow> string \<Rightarrow> bool \<Rightarrow> projection" where
  "reconcileDataLegProjection e reg contentObj owner ownerNamespace ownerFound =
     (if \<not> ownerFound then (Inr (False, '''', ''''), e)
      else let scenario = Classify (g_kind (so_gvk owner) = ''VolumeSnapshot'') (so_import_mode owner) in
        if scenario = NativeCapture \<or> scenario = NativeImport then projectContentDataLegFromBoundVSC e contentObj owner
        else if scenario = DomainImport then projectContentDataLegFromDataImport e reg contentObj owner
        else if scenario = DomainCapture then
          (case domainVolumeCaptureRequestName owner of
             Inl x \<Rightarrow> (Inl x, e)
           | Inr vcrName \<Rightarrow>
               if vcrName = '''' then (Inr (False, '''', ''''), e)
               else projectContentDataLegFromVCR e contentObj ownerNamespace vcrName)
        else (Inl (Errorf (''SnapshotContent '' @ ct_name contentObj @ '': no data-leg route for scenario '' @ scenario)), e))"

section \<open>What a publish does\<close>

lemma live_fs_refs: "live_fs_type e pvc b = Inr b' \<Longrightarrow> SourceRef b' = SourceRef b \<and> ArtifactRef b' = ArtifactRef b"
  by (auto simp: live_fs_type_def split: if_splits get_res.splits option.splits)

lemma enrich_pvc_refs: "enrich_from_pvc e b = Inr b' \<Longrightarrow> SourceRef b' = SourceRef b \<and> ArtifactRef b' = ArtifactRef b"
  by (auto simp: enrich_from_pvc_def Let_def dest!: live_fs_refs split: if_splits get_res.splits option.splits)

lemma enrich_same_binding: "enrich_binding e b = Inr b' \<Longrightarrow> same_binding b' b"
  by (auto simp: enrich_binding_def same_binding_def Let_def dest!: enrich_pvc_refs
      split: sum.splits prod.splits if_splits)

definition apply_one :: "import_metadata \<Rightarrow> data_binding \<Rightarrow> data_binding" where
  "apply_one m b = b\<lparr>StorageClassName := (if im_StorageClassName m \<noteq> '''' then im_StorageClassName m else StorageClassName b),
     VolumeMode := (if im_VolumeMode m \<noteq> '''' then im_VolumeMode m else VolumeMode b),
     FsType := (if im_FsType m \<noteq> '''' then im_FsType m else FsType b)\<rparr>"

lemma applyTo_map: "applyTo m bs = map (apply_one m) bs"
  unfolding applyTo_def apply_one_def by (rule map_cong) (simp_all add: Let_def)

lemma apply_one_same [simp]: "same_binding (apply_one m b) b"
  by (simp add: same_binding_def apply_one_def)

lemma apply_one_matches: "matchesPublished m (Some (apply_one m b))"
  by (simp add: matchesPublished_def apply_one_def)

lemma data_equal_iff: "dataBindingEqual x y \<longleftrightarrow> x = y"
  by (cases x; cases y) (auto simp: dataBindingEqual_def)

lemma data_ref_equal_iff: "snapshotDataRefEqual a b \<longleftrightarrow> a = b"
  by (auto simp: snapshotDataRefEqual_def data_equal_iff split: option.splits)

abbreviation "content_owner c \<equiv> \<lparr>or_apiVersion = storageGroupVersion, or_kind = kindSnapshotContent,
   or_name = ct_name c, or_uid = ct_uid c, or_controller = Some True\<rparr>"

text \<open>An artifact that is handed off: retained and owned by the content, unless it is going away anyway.\<close>

definition handed_off :: "env \<Rightarrow> snapshot_content \<Rightarrow> string \<Rightarrow> bool" where
  "handed_off e c n = (\<exists>v. e_vsc e n = Found v \<and> (vs_deleting v \<or>
     vs_policy v = NVal ''Retain'' \<and> sole_owner (content_owner c) (vs_owner_refs v)))"

text \<open>The handoff touches the owners and the deletion policy only.\<close>

definition touched :: "vsc_obj \<Rightarrow> vsc_obj \<Rightarrow> bool" where
  "touched v v' = (v' = v\<lparr>vs_owner_refs := vs_owner_refs v', vs_policy := vs_policy v'\<rparr>)"

lemma touched_simps [simp]:
  "touched v v" "touched v (v\<lparr>vs_owner_refs := r, vs_policy := p\<rparr>)" "touched v (v\<lparr>vs_owner_refs := r\<rparr>)" "touched v (v\<lparr>vs_policy := p\<rparr>)"
  by (simp_all add: touched_def)

lemma vsc_frame:
  assumes "ensureVolumeSnapshotContentOwnedByContent e n c = (r, e')"
  shows "e' = e\<lparr>e_vsc := e_vsc e'\<rparr>" and "k \<noteq> n \<Longrightarrow> e_vsc e' k = e_vsc e k"
    and "case e_vsc e n of Found v \<Rightarrow> \<exists>v'. e_vsc e' n = Found v' \<and> touched v v' | x \<Rightarrow> e_vsc e' n = x"
  using assms
  by (auto simp: ensureVolumeSnapshotContentOwnedByContent_def put_vsc_def Let_def
      split: get_res.splits if_splits sum.splits prod.splits option.splits)

lemma vsc_handoff:
  assumes "ensureVolumeSnapshotContentOwnedByContent e n c = (r, e')"
  shows "r = Inr () \<Longrightarrow> handed_off e' c n"
proof -
  assume r: "r = Inr ()"
  then obtain v where v: "e_vsc e n = Found v"
    using assms by (cases "e_vsc e n") (auto simp: ensureVolumeSnapshotContentOwnedByContent_def)
  show "handed_off e' c n"
  proof (cases "vs_deleting v")
    case True
    then show ?thesis using assms v by (simp add: ensureVolumeSnapshotContentOwnedByContent_def handed_off_def)
  next
    case False
    obtain refs changed where h: "snapshotContentControllerOwnerRefsForHandoff (vs_owner_refs v) (content_owner c) = Inr (refs, changed)"
      using assms v False r
      by (cases "snapshotContentControllerOwnerRefsForHandoff (vs_owner_refs v) (content_owner c)")
        (auto simp: ensureVolumeSnapshotContentOwnedByContent_def)
    have own: "sole_owner (content_owner c) (if changed then refs else vs_owner_refs v)"
      by (rule handoff_sole_owner [OF _ h]) (simp add: content_ref_def)
    show ?thesis
      using assms v False r h own
      by (cases "vs_policy v")
        (auto simp: ensureVolumeSnapshotContentOwnedByContent_def handed_off_def put_vsc_def Let_def
          split: if_splits option.splits)
  qed
qed

text \<open>The publish of a single binding: nothing, or exactly the enriched binding after the handoff.\<close>

lemma publish_one:
  assumes "publishDataBindings e n [b] m = (r, e')"
  shows "(\<exists>x. r = Inl x) \<or> r = Inr True"
    and "e_content e' = e_content e \<or>
     (\<exists>c b0. e_content e n = Found c \<and> enrich_binding e b = Inr b0 \<and> r = Inr True \<and>
        e_content e' = (e_content e)(n := Found (c\<lparr>ct_data := Some (apply_one m b0)\<rparr>)) \<and>
        (ar_kind (ArtifactRef b) = kindVolumeSnapshotContent \<and> ar_name (ArtifactRef b) \<noteq> '''' \<longrightarrow>
           handed_off e' c (ar_name (ArtifactRef b))))"
    and "\<forall>k. k \<noteq> ar_name (ArtifactRef b) \<longrightarrow> e_vsc e' k = e_vsc e k"
    and "e' = e\<lparr>e_content := e_content e', e_vsc := e_vsc e'\<rparr>"
proof -
  let ?k = "ar_name (ArtifactRef b)"
  have all: "((\<exists>x. r = Inl x) \<or> r = Inr True) \<and> (e_content e' = e_content e \<or>
     (\<exists>c b0. e_content e n = Found c \<and> enrich_binding e b = Inr b0 \<and> r = Inr True \<and>
        e_content e' = (e_content e)(n := Found (c\<lparr>ct_data := Some (apply_one m b0)\<rparr>)) \<and>
        (ar_kind (ArtifactRef b) = kindVolumeSnapshotContent \<and> ?k \<noteq> '''' \<longrightarrow> handed_off e' c ?k))) \<and>
     (\<forall>k. k \<noteq> ?k \<longrightarrow> e_vsc e' k = e_vsc e k) \<and> e' = e\<lparr>e_content := e_content e', e_vsc := e_vsc e'\<rparr>"
  proof (cases "enrich_binding e b")
    case (Inl x)
    then show ?thesis using assms by (auto simp: publishDataBindings_def)
  next
    case (Inr b0)
    let ?b = "apply_one m b0"
    have same: "same_binding ?b b" using enrich_same_binding [OF Inr] apply_one_same same_binding_trans by blast
    show ?thesis
    proof (cases "e_content e n")
      case (Found c)
      obtain h e1 where h: "EnsureVolumeSnapshotContentsOwnedByContent e c [?b] = (h, e1)" by fastforce
      have hand: "e1 = e\<lparr>e_vsc := e_vsc e1\<rparr> \<and> (\<forall>k. k \<noteq> ?k \<longrightarrow> e_vsc e1 k = e_vsc e k) \<and>
          (h = Inr () \<and> ar_kind (ArtifactRef b) = kindVolumeSnapshotContent \<and> ?k \<noteq> '''' \<longrightarrow> handed_off e1 c ?k)"
        using h same vsc_handoff [of e ?k c] vsc_frame(1,2) [of e ?k c]
        by (fastforce simp: same_binding_def split: if_splits prod.splits sum.splits)
      have pub: "publishDataBindings e n [b] m = (case h of Inl _ \<Rightarrow> (Inr True, e1)
          | Inr _ \<Rightarrow> (case PublishSnapshotContentDataRef e1 n (Some ?b) of
              (Inl x, e'') \<Rightarrow> if n = '''' then (Inr True, e1) else (Inl x, e'')
            | (Inr _, e'') \<Rightarrow> if n = '''' then (Inr True, e1) else (Inr True, e'')))"
        using Inr Found h by (cases h)
          (auto simp: publishDataBindings_def get_content_def applyTo_map PublishSnapshotContentDataRefs_def
            split: prod.splits sum.splits)
      obtain V where V: "e1 = e\<lparr>e_vsc := V\<rparr>" using hand by blast
      show ?thesis
        using pub assms hand Found Inr unfolding V
        by (auto simp: PublishSnapshotContentDataRef_def put_content_def put_vsc_def handed_off_def
            split: sum.splits if_splits option.splits)
    qed (use assms Inr in \<open>auto simp: publishDataBindings_def get_content_def\<close>)
  qed
  then show "(\<exists>x. r = Inl x) \<or> r = Inr True"
    "e_content e' = e_content e \<or>
     (\<exists>c b0. e_content e n = Found c \<and> enrich_binding e b = Inr b0 \<and> r = Inr True \<and>
        e_content e' = (e_content e)(n := Found (c\<lparr>ct_data := Some (apply_one m b0)\<rparr>)) \<and>
        (ar_kind (ArtifactRef b) = kindVolumeSnapshotContent \<and> ?k \<noteq> '''' \<longrightarrow> handed_off e' c ?k))"
    "\<forall>k. k \<noteq> ?k \<longrightarrow> e_vsc e' k = e_vsc e k" "e' = e\<lparr>e_content := e_content e', e_vsc := e_vsc e'\<rparr>"
    by blast+
qed

end
