(* ===== verification/Data_Leg_Guarantees.thy ===== *)
theory Data_Leg_Guarantees
  imports Data_Leg_Projection Content_Ready
begin

text \<open>
  What the projection of the data leg guarantees: a binding is published only after its artifact is
  retained and owned, a published leg latches, a terminal answer means a failed capture; and two ways in
  which a leg does not settle.
\<close>

section \<open>Every write goes through the publish\<close>

definition sound_artifact :: "snapshot_content \<Rightarrow> data_binding \<Rightarrow> bool" where
  "sound_artifact c b = (ar_kind (ArtifactRef b) = kindVolumeSnapshotContent \<and> ar_name (ArtifactRef b) \<noteq> '''' \<or>
     (\<exists>p. ct_data c = Some p \<and> ArtifactRef b = ArtifactRef p))"

lemma leg_answer_eq:
  "leg_answer x = (r, e') \<longleftrightarrow> (\<exists>r0. x = (r0, e') \<and> r = (case r0 of Inl y \<Rightarrow> Inl y | Inr q \<Rightarrow> Inr (q, '''', '''')))"
  by (cases x; cases "fst x") auto

lemma leg_answer_Inr: "leg_answer x = (Inr (q, t, m), e') \<longleftrightarrow> x = (Inr q, e') \<and> t = '''' \<and> m = ''''"
  by (cases x; cases "fst x") auto

lemma vcr_projection_cases:
  assumes "projectContentDataLegFromVCR e c ns vcrName = (r, e')"
  shows "e' = e \<or> (\<exists>vcr ts rs b c0. e_vcr e ns vcrName = Found vcr \<and> ParseVolumeCaptureTargets vcr = Inr ts \<and>
     ParseVolumeCaptureDataRefs vcr = Inr rs \<and> ValidateDataRefsForPublish ts rs = Inr () \<and>
     SnapshotDataBindingsFromVCRStatus rs = [b] \<and> e_content e (ct_name c) = Found c0 \<and>
     leg_answer (publishDataBindings e (ct_name c) [b] no_metadata) = (r, e'))"
proof (cases "e_vcr e ns vcrName")
  case (Found vcr)
  show ?thesis
  proof (cases "ParseVolumeCaptureTargets vcr")
    case (Inr ts)
    show ?thesis
    proof (cases "e_content e (ct_name c)")
      case c0: (Found c0)
      show ?thesis
      proof (cases "e' = e")
        case False
        obtain rs where rs: "ParseVolumeCaptureDataRefs vcr = Inr rs" "ValidateDataRefsForPublish ts rs = Inr ()"
          "leg_answer (publishDataBindings e (ct_name c) (SnapshotDataBindingsFromVCRStatus rs) no_metadata) = (r, e')"
          using assms False Found Inr c0
          by (auto simp: projectContentDataLegFromVCR_def get_content_def Let_def
              split: sum.splits if_splits prod.splits bool.splits)
        obtain b where "SnapshotDataBindingsFromVCRStatus rs = [b]" using validated_covers [OF Inr rs(1,2)] by blast
        then show ?thesis using Found Inr c0 rs by auto
      qed simp
    qed (use assms Found Inr in \<open>auto simp: projectContentDataLegFromVCR_def get_content_def Let_def\<close>)
  qed (use assms Found in \<open>auto simp: projectContentDataLegFromVCR_def Let_def\<close>)
qed (use assms in \<open>auto simp: projectContentDataLegFromVCR_def Let_def\<close>)

abbreviation "bare_binding src a \<equiv> \<lparr>SourceRef = src, ArtifactRef = a, VolumeMode = '''', FsType = '''',
   StorageClassName = '''', Size = ''''\<rparr>"

abbreviation "vsc_artifact n \<equiv> \<lparr>ar_apiVersion = volumeSnapshotContentAPIVersion, ar_kind = kindVolumeSnapshotContent,
   ar_name = n, ar_uid = ''''\<rparr>"

definition owner_import :: "env \<Rightarrow> snapshot_obj \<Rightarrow> (data_import option \<times> string) res" where
  "owner_import e owner = (if so_import_mode owner then FindDataImportForLeaf e owner else Inr (None, ''''))"

definition bound_meta :: "snapshot_obj \<Rightarrow> data_import option \<Rightarrow> data_binding option \<Rightarrow> import_metadata" where
  "bound_meta owner di published = (if so_import_mode owner
     then (if di = None then importVolumeMetadataFromPublished published else importVolumeMetadataFromDataImport di)
     else no_metadata)"

lemma bound_projection_eq:
  assumes "so_bound_vsc owner = NVal n" "n \<noteq> ''''" "sr_name (so_source_ref owner) \<noteq> ''''"
    and "owner_import e owner = Inr (di, t)" and "e_content e (ct_name c) = Found c0"
  shows "projectContentDataLegFromBoundVSC e c owner =
     (if \<exists>p. ct_data c0 = Some p \<and> ar_name (ArtifactRef p) = n \<and> Size p \<noteq> '''' \<and>
        matchesPublished (bound_meta owner di (ct_data c0)) (ct_data c0)
      then (Inr (False, '''', ''''), e)
      else leg_answer (publishDataBindings e (ct_name c) [bare_binding (so_source_ref owner) (vsc_artifact n)]
        (bound_meta owner di (ct_data c0))))"
  using assms
  by (auto simp: projectContentDataLegFromBoundVSC_def owner_import_def bound_meta_def volumeSnapshotOwnerSource_def
      get_content_def Let_def split: option.splits if_splits)

lemma bound_projection_cases:
  assumes "projectContentDataLegFromBoundVSC e c owner = (r, e')"
  shows "e' = e \<or> (\<exists>n di t c0. so_bound_vsc owner = NVal n \<and> n \<noteq> '''' \<and> sr_name (so_source_ref owner) \<noteq> '''' \<and>
     owner_import e owner = Inr (di, t) \<and> e_content e (ct_name c) = Found c0 \<and>
     leg_answer (publishDataBindings e (ct_name c) [bare_binding (so_source_ref owner) (vsc_artifact n)]
       (bound_meta owner di (ct_data c0))) = (r, e'))"
proof (cases "e' = e")
  case False
  have n0: "\<exists>n. so_bound_vsc owner = NVal n \<and> n \<noteq> ''''"
  proof (rule ccontr)
    assume "\<not> ?thesis"
    then show False using assms False by (cases "so_bound_vsc owner") (auto simp: projectContentDataLegFromBoundVSC_def Let_def)
  qed
  then obtain n where n: "so_bound_vsc owner = NVal n" "n \<noteq> ''''" by blast
  have src: "sr_name (so_source_ref owner) \<noteq> ''''"
  proof
    assume "sr_name (so_source_ref owner) = ''''"
    then show False using assms False n
      by (simp add: projectContentDataLegFromBoundVSC_def volumeSnapshotOwnerSource_def Let_def)
  qed
  obtain di t where di: "owner_import e owner = Inr (di, t)"
    using assms False n src
    by (cases "owner_import e owner") (auto simp: projectContentDataLegFromBoundVSC_def owner_import_def
        volumeSnapshotOwnerSource_def Let_def)
  obtain c0 where c0: "e_content e (ct_name c) = Found c0"
    using assms False n src di
    by (cases "e_content e (ct_name c)") (auto simp: projectContentDataLegFromBoundVSC_def owner_import_def
        volumeSnapshotOwnerSource_def get_content_def Let_def)
  show ?thesis
    using assms False n src di c0 unfolding bound_projection_eq [OF n src di c0] by (auto split: if_splits)
qed simp

lemma keep_projection_cases:
  assumes "completeOrKeepPublishedImportLeg e n = (r, e')"
  shows "e' = e \<or> (\<exists>c0 p. e_content e n = Found c0 \<and> ct_data c0 = Some p \<and> Size p = '''' \<and>
     leg_answer (publishDataBindings e n [\<lparr>SourceRef = SourceRef p, ArtifactRef = ArtifactRef p, VolumeMode = '''',
       FsType = '''', StorageClassName = '''', Size = ''''\<rparr>] (importVolumeMetadataFromPublished (Some p))) = (r, e'))"
  using assms
  by (auto simp: completeOrKeepPublishedImportLeg_def get_content_def split: get_res.splits option.splits if_splits)

lemma import_projection_cases:
  assumes "projectContentDataLegFromDataImport e reg c owner = (r, e')"
  shows "e' = e \<or> completeOrKeepPublishedImportLeg e (ct_name c) = (r, e') \<or>
     (\<exists>d b m c0. BuildImportDataBinding e d owner = (Some b, True, '''') \<and> e_content e (ct_name c) = Found c0 \<and>
        leg_answer (publishDataBindings e (ct_name c) [b] m) = (r, e'))"
  using assms
  by (auto simp: projectContentDataLegFromDataImport_def get_content_def Let_def
      split: sum.splits if_splits prod.splits option.splits get_res.splits)

lemma build_binding_artifact:
  "BuildImportDataBinding e d leaf = (Some b, ready, t) \<Longrightarrow>
   ar_kind (ArtifactRef b) = kindVolumeSnapshotContent \<and> ar_name (ArtifactRef b) \<noteq> '''' \<and> ArtifactRef b = di_artifact d"
  by (auto simp: BuildImportDataBinding_def Let_def split: if_splits)

lemma projection_routes:
  "reconcileDataLegProjection e reg c owner ns True =
     (if g_kind (so_gvk owner) = ''VolumeSnapshot'' then projectContentDataLegFromBoundVSC e c owner
      else if so_import_mode owner then projectContentDataLegFromDataImport e reg c owner
      else case domainVolumeCaptureRequestName owner of
        Inl x \<Rightarrow> (Inl x, e)
      | Inr vcrName \<Rightarrow> if vcrName = '''' then (Inr (False, '''', ''''), e) else projectContentDataLegFromVCR e c ns vcrName)"
  by (simp add: reconcileDataLegProjection_def Classify_def Let_def)

lemma projection_writes:
  assumes "reconcileDataLegProjection e reg c owner ns found = (r, e')"
  shows "e' = e \<or> (\<exists>b m c0. e_content e (ct_name c) = Found c0 \<and> sound_artifact c0 b \<and>
     leg_answer (publishDataBindings e (ct_name c) [b] m) = (r, e'))"
proof (cases "e' = e")
  case False
  then have found using assms by (auto simp: reconcileDataLegProjection_def split: if_splits)
  consider (vcr) name where "projectContentDataLegFromVCR e c ns name = (r, e')"
    | (bound) "projectContentDataLegFromBoundVSC e c owner = (r, e')"
    | (di) "projectContentDataLegFromDataImport e reg c owner = (r, e')"
    using assms False \<open>found\<close> by (auto simp: projection_routes split: if_splits sum.splits)
  then show ?thesis
  proof cases
    case vcr
    obtain vcr ts rs b c0 where v: "ParseVolumeCaptureTargets vcr = Inr ts" "ParseVolumeCaptureDataRefs vcr = Inr rs"
      "ValidateDataRefsForPublish ts rs = Inr ()" "SnapshotDataBindingsFromVCRStatus rs = [b]"
      "e_content e (ct_name c) = Found c0" "leg_answer (publishDataBindings e (ct_name c) [b] no_metadata) = (r, e')"
      using vcr_projection_cases [OF vcr] False by blast
    have "sound_artifact c0 b" using validated_covers [OF v(1-3)] v(4) by (auto simp: sound_artifact_def)
    then show ?thesis using v(5,6) by blast
  next
    case bound
    from bound_projection_cases [OF bound] False obtain n di t c0 where v: "n \<noteq> ''''" "e_content e (ct_name c) = Found c0"
      "leg_answer (publishDataBindings e (ct_name c) [bare_binding (so_source_ref owner) (vsc_artifact n)]
         (bound_meta owner di (ct_data c0))) = (r, e')"
      by blast
    have "sound_artifact c0 (bare_binding (so_source_ref owner) (vsc_artifact n))"
      using v(1) by (simp add: sound_artifact_def)
    then show ?thesis using v(2,3) by blast
  next
    case di
    from import_projection_cases [OF di] False
    consider (keep) "completeOrKeepPublishedImportLeg e (ct_name c) = (r, e')"
      | (build) d b m c0 where "BuildImportDataBinding e d owner = (Some b, True, '''')"
        "e_content e (ct_name c) = Found c0" "leg_answer (publishDataBindings e (ct_name c) [b] m) = (r, e')"
      by blast
    then show ?thesis
    proof cases
      case keep
      from keep_projection_cases [OF keep] False obtain c0 p where v: "e_content e (ct_name c) = Found c0" "ct_data c0 = Some p"
        "leg_answer (publishDataBindings e (ct_name c) [\<lparr>SourceRef = SourceRef p, ArtifactRef = ArtifactRef p, VolumeMode = '''',
          FsType = '''', StorageClassName = '''', Size = ''''\<rparr>] (importVolumeMetadataFromPublished (Some p))) = (r, e')"
        by blast
      have "sound_artifact c0 \<lparr>SourceRef = SourceRef p, ArtifactRef = ArtifactRef p, VolumeMode = '''',
          FsType = '''', StorageClassName = '''', Size = ''''\<rparr>"
        using v(2) by (simp add: sound_artifact_def)
      then show ?thesis using v(1,3) by blast
    next
      case build
      have "sound_artifact c0 b" using build_binding_artifact [OF build(1)] unfolding sound_artifact_def by blast
      then show ?thesis using build(2,3) by blast
    qed
  qed
qed simp

section \<open>Properties\<close>

text \<open>
  C11: The binding of a content is published only after its artifact is safe: whenever a projection changes
  any content, it is the one projected for and only in its data, the pass asks to be repeated, and the
  artifact of the new binding is a VolumeSnapshotContent (or the artifact published before) that is
  retained and solely owned by this content, or already being deleted. No other snapshot content is touched.
\<close>

theorem data_published_after_handoff:
  assumes "reconcileDataLegProjection e reg c owner ns found = (r, e')"
    and "e_content e n = Found c0" and "e_content e' n = Found c1" and "c1 \<noteq> c0"
  shows "n = ct_name c \<and> r = Inr (True, '''', '''') \<and> (\<exists>b. c1 = c0\<lparr>ct_data := Some b\<rparr> \<and>
     (ar_kind (ArtifactRef b) = kindVolumeSnapshotContent \<and> ar_name (ArtifactRef b) \<noteq> '''' \<longrightarrow>
        handed_off e' c0 (ar_name (ArtifactRef b))) \<and>
     (ar_kind (ArtifactRef b) = kindVolumeSnapshotContent \<and> ar_name (ArtifactRef b) \<noteq> '''' \<or>
        (\<exists>p. ct_data c0 = Some p \<and> ar_name (ArtifactRef b) = ar_name (ArtifactRef p) \<and>
           ar_kind (ArtifactRef b) = ar_kind (ArtifactRef p))) \<and>
     (\<forall>k. k \<noteq> ar_name (ArtifactRef b) \<longrightarrow> e_vsc e' k = e_vsc e k))"
proof -
  have "e' \<noteq> e" using assms by auto
  then obtain b m d where w: "e_content e (ct_name c) = Found d" "sound_artifact d b"
    "leg_answer (publishDataBindings e (ct_name c) [b] m) = (r, e')"
    using projection_writes [OF assms(1)] by blast
  then obtain r0 where p: "publishDataBindings e (ct_name c) [b] m = (r0, e')"
    "r = (case r0 of Inl y \<Rightarrow> Inl y | Inr q \<Rightarrow> Inr (q, '''', ''''))"
    by (auto simp: leg_answer_eq)
  note one = publish_one [OF p(1)]
  have "e_content e' \<noteq> e_content e" using assms(2-4) by auto
  then obtain b0 where b0: "enrich_binding e b = Inr b0" "r0 = Inr True"
    "e_content e' = (e_content e)(ct_name c := Found (d\<lparr>ct_data := Some (apply_one m b0)\<rparr>))"
    "ar_kind (ArtifactRef b) = kindVolumeSnapshotContent \<and> ar_name (ArtifactRef b) \<noteq> '''' \<longrightarrow> handed_off e' d (ar_name (ArtifactRef b))"
    using one(2) w(1) by auto
  have same: "same_binding (apply_one m b0) b"
    using enrich_same_binding [OF b0(1)] apply_one_same same_binding_trans by blast
  have n: "n = ct_name c" using assms(2-4) b0(3) by (auto split: if_splits)
  then have d: "d = c0" "c1 = c0\<lparr>ct_data := Some (apply_one m b0)\<rparr>" using w(1) assms(2,3) b0(3) by auto
  have "sound_artifact c0 b" using w(2) d by simp
  then show ?thesis
    using n d(2) b0(2,4) p(2) same one(3) d(1)
    by (intro conjI exI [of _ "apply_one m b0"]) (auto simp: same_binding_def sound_artifact_def)
qed

text \<open>
  C13: A captured leg latches: once a projection of a domain capture has published a binding, the binding
  covers the request's target, and the next projection writes nothing, asks for no repetition and reports
  no failure, whatever the request reports afterwards.
\<close>

theorem vcr_leg_latches:
  assumes "projectContentDataLegFromVCR e c ns vcrName = (r, e')" and "e_content e' \<noteq> e_content e"
    and "e_vcr e ns vcrName = Found vcr" and "vr_target vcr' = vr_target vcr" and "vr_namespace vcr' = vr_namespace vcr"
    and "e2 = e'\<lparr>e_vcr := (\<lambda>a b. if a = ns \<and> b = vcrName then Found vcr' else e_vcr e' a b)\<rparr>"
  shows "projectContentDataLegFromVCR e2 c ns vcrName = (Inr (False, '''', ''''), e2)"
proof -
  have "e' \<noteq> e" using assms(2) by auto
  then obtain ts rs b c0 where v: "ParseVolumeCaptureTargets vcr = Inr ts"
    "ParseVolumeCaptureDataRefs vcr = Inr rs" "ValidateDataRefsForPublish ts rs = Inr ()"
    "SnapshotDataBindingsFromVCRStatus rs = [b]" "e_content e (ct_name c) = Found c0"
    "leg_answer (publishDataBindings e (ct_name c) [b] no_metadata) = (r, e')"
    using vcr_projection_cases [OF assms(1)] assms(3) by auto
  then obtain r0 where p: "publishDataBindings e (ct_name c) [b] no_metadata = (r0, e')" by (auto simp: leg_answer_eq)
  obtain b0 where b0: "enrich_binding e b = Inr b0"
    "e_content e' = (e_content e)(ct_name c := Found (c0\<lparr>ct_data := Some (apply_one no_metadata b0)\<rparr>))"
    using publish_one(2) [OF p] assms(2) v(5) by auto
  have same: "same_binding (apply_one no_metadata b0) b"
    using enrich_same_binding [OF b0(1)] apply_one_same same_binding_trans by blast
  have cover: "ContentDataRefsCoverExpectedTargets [apply_one no_metadata b0] ts"
    using validated_covers [OF v(1-3)] v(4) same by auto
  have "ParseVolumeCaptureTargets vcr' = Inr ts"
    using v(1) unfolding ParseVolumeCaptureTargets_def assms(4,5) .
  moreover have "get_content e2 (ct_name c) = Inr (c0\<lparr>ct_data := Some (apply_one no_metadata b0)\<rparr>)"
    by (simp add: assms(6) get_content_def b0(2))
  moreover have "e_vcr e2 ns vcrName = Found vcr'" by (simp add: assms(6))
  ultimately show ?thesis
    using cover by (simp add: projectContentDataLegFromVCR_def GetStatusDataRefs_def Let_def)
qed

definition vcr_failed_uncovered :: "env \<Rightarrow> snapshot_content \<Rightarrow> snapshot_obj \<Rightarrow> string \<Rightarrow> bool" where
  "vcr_failed_uncovered e c owner ns \<longleftrightarrow> g_kind (so_gvk owner) \<noteq> ''VolumeSnapshot'' \<and> \<not> so_import_mode owner \<and>
     (\<exists>name vcr ts c0. so_vcr_name owner = NVal name \<and> name \<noteq> '''' \<and> e_vcr e ns name = Found vcr \<and>
        ParseVolumeCaptureTargets vcr = Inr ts \<and> e_content e (ct_name c) = Found c0 \<and>
        \<not> ContentDataRefsCoverExpectedTargets (GetStatusDataRefs c0) ts \<and> fst (VolumeCaptureRequestFailed vcr))"

lemma vcr_terminal:
  "projectContentDataLegFromVCR e c ns name = (Inr (q, t, m), e') \<Longrightarrow>
   (t \<noteq> '''') = (\<exists>vcr ts c0. e_vcr e ns name = Found vcr \<and> ParseVolumeCaptureTargets vcr = Inr ts \<and>
        e_content e (ct_name c) = Found c0 \<and> \<not> ContentDataRefsCoverExpectedTargets (GetStatusDataRefs c0) ts \<and>
        fst (VolumeCaptureRequestFailed vcr)) \<and>
   (t \<noteq> '''' \<longrightarrow> t = ReasonVolumeCaptureFailed \<and> \<not> q \<and> e' = e)"
proof (cases "e_vcr e ns name")
  case (Found vcr)
  assume a: "projectContentDataLegFromVCR e c ns name = (Inr (q, t, m), e')"
  show ?thesis
  proof (cases "ParseVolumeCaptureTargets vcr")
    case (Inr ts)
    obtain c0 where c0: "e_content e (ct_name c) = Found c0"
      using a Found Inr by (cases "e_content e (ct_name c)") (auto simp: projectContentDataLegFromVCR_def get_content_def Let_def)
    obtain f fr fm where f: "VolumeCaptureRequestFailed vcr = (f, fr, fm)" by (cases "VolumeCaptureRequestFailed vcr") auto
    have single: "ValidateDataRefsForPublish ts rs = Inr () \<Longrightarrow> ParseVolumeCaptureDataRefs vcr = Inr rs \<Longrightarrow>
        length (SnapshotDataBindingsFromVCRStatus rs) = 1" for rs
      using validated_covers [OF Inr] by auto
    show ?thesis
      using a Found Inr c0 f single
      by (auto simp: projectContentDataLegFromVCR_def get_content_def Let_def leg_answer_Inr
          split: if_splits sum.splits bool.splits)
  qed (use a Found in \<open>auto simp: projectContentDataLegFromVCR_def Let_def\<close>)
qed (auto simp: projectContentDataLegFromVCR_def Let_def)

lemma bound_not_terminal: "projectContentDataLegFromBoundVSC e c owner = (Inr (q, t, m), e') \<Longrightarrow> t = ''''"
  by (auto simp: projectContentDataLegFromBoundVSC_def leg_answer_Inr Let_def split: sum.splits if_splits prod.splits)

lemma import_not_terminal: "projectContentDataLegFromDataImport e reg c owner = (Inr (q, t, m), e') \<Longrightarrow> t = ''''"
  by (auto simp: projectContentDataLegFromDataImport_def completeOrKeepPublishedImportLeg_def leg_answer_Inr Let_def
      split: sum.splits if_splits prod.splits option.splits)

text \<open>
  C12: The data leg ends a content for good only for a failed capture: a projection answers with a terminal
  reason exactly when the owner is a domain capture whose VolumeCaptureRequest reports failure while the
  content does not cover its target; the reason is VolumeCaptureFailed, nothing is written and no
  repetition is asked for.
\<close>

theorem terminal_means_failed_capture:
  assumes "reconcileDataLegProjection e reg c owner ns True = (Inr (requeue, term, msg), e')"
  shows "(term \<noteq> '''' \<longleftrightarrow> vcr_failed_uncovered e c owner ns) \<and>
     (term \<noteq> '''' \<longrightarrow> term = ReasonVolumeCaptureFailed \<and> isTerminalChildContentFailure term \<and> \<not> requeue \<and> e' = e)"
proof -
  have t: "isTerminalChildContentFailure ReasonVolumeCaptureFailed"
    by (simp add: isTerminalChildContentFailure_def terminalChildContentFailureReasons_def)
  consider (bound) "g_kind (so_gvk owner) = ''VolumeSnapshot''" | (di) "g_kind (so_gvk owner) \<noteq> ''VolumeSnapshot''" "so_import_mode owner"
    | (vcr) "g_kind (so_gvk owner) \<noteq> ''VolumeSnapshot''" "\<not> so_import_mode owner" by blast
  then show ?thesis
  proof cases
    case bound
    then have "term = ''''" using assms bound_not_terminal by (simp add: projection_routes)
    with bound show ?thesis by (simp add: vcr_failed_uncovered_def)
  next
    case di
    then have "term = ''''" using assms import_not_terminal by (simp add: projection_routes)
    with di show ?thesis by (simp add: vcr_failed_uncovered_def)
  next
    case vcr
    show ?thesis
    proof (cases "so_vcr_name owner")
      case (NVal name)
      show ?thesis
      proof (cases "name = ''''")
        case True
        then show ?thesis using assms vcr NVal
          by (simp add: projection_routes domainVolumeCaptureRequestName_def vcr_failed_uncovered_def)
      next
        case False
        then have "projectContentDataLegFromVCR e c ns name = (Inr (requeue, term, msg), e')"
          using assms vcr NVal by (simp add: projection_routes domainVolumeCaptureRequestName_def)
        from vcr_terminal [OF this] t show ?thesis
          using vcr NVal False unfolding vcr_failed_uncovered_def by auto
      qed
    qed (use assms vcr in \<open>auto simp: projection_routes domainVolumeCaptureRequestName_def vcr_failed_uncovered_def\<close>)
  qed
qed

lemma publish_frame:
  assumes "publishDataBindings e n bs m = (r, e')" "bs = [b]"
  shows "e_data_imports e' = e_data_imports e" "gvk_of e' = gvk_of e" "FindDataImportForLeaf e' owner = FindDataImportForLeaf e owner"
    "owner_import e' owner = owner_import e owner"
proof -
  obtain C V where e': "e' = e\<lparr>e_content := C, e_vsc := V\<rparr>"
    using publish_one(4) [of e n b m r e'] assms by auto
  show same_imports: "e_data_imports e' = e_data_imports e" and gvk: "gvk_of e' = gvk_of e" by (simp_all add: e')
  have matches: "di_matches e' = di_matches e" by (simp add: gvk di_matches_def fun_eq_iff)
  show "FindDataImportForLeaf e' owner = FindDataImportForLeaf e owner"
    unfolding FindDataImportForLeaf_def same_imports matches ..
  then show "owner_import e' owner = owner_import e owner" by (simp add: owner_import_def)
qed

lemma published_matches: "matchesPublished (importVolumeMetadataFromPublished (Some p)) (Some p)"
  by (simp add: matchesPublished_def importVolumeMetadataFromPublished_def)

lemma no_metadata_matches: "matchesPublished no_metadata (Some p)"
  by (simp add: matchesPublished_def no_metadata_def)

text \<open>
  A native leg latches once its size is known: when a projection of a VolumeSnapshot owner has
  published a binding that carries the restore size, the next projection over the cluster it left writes
  nothing and asks for no repetition, whether the owner is captured or imported and whether or not its
  DataImport is still there.
\<close>

theorem native_leg_latches:
  assumes "projectContentDataLegFromBoundVSC e c owner = (r, e')" and "e_content e' \<noteq> e_content e"
    and "e_content e' (ct_name c) = Found c1" and "ct_data c1 = Some b" and "Size b \<noteq> ''''"
  shows "projectContentDataLegFromBoundVSC e' c owner = (Inr (False, '''', ''''), e')"
proof -
  have "e' \<noteq> e" using assms(2) by auto
  then obtain n di t c0 where v: "so_bound_vsc owner = NVal n" "n \<noteq> ''''" "sr_name (so_source_ref owner) \<noteq> ''''"
    "owner_import e owner = Inr (di, t)" "e_content e (ct_name c) = Found c0"
    "leg_answer (publishDataBindings e (ct_name c) [bare_binding (so_source_ref owner) (vsc_artifact n)]
       (bound_meta owner di (ct_data c0))) = (r, e')"
    using bound_projection_cases [OF assms(1)] by blast
  then obtain r0 where p: "publishDataBindings e (ct_name c) [bare_binding (so_source_ref owner) (vsc_artifact n)]
      (bound_meta owner di (ct_data c0)) = (r0, e')" by (auto simp: leg_answer_eq)
  obtain b0 where b0: "enrich_binding e (bare_binding (so_source_ref owner) (vsc_artifact n)) = Inr b0"
    "e_content e' = (e_content e)(ct_name c := Found (c0\<lparr>ct_data := Some (apply_one (bound_meta owner di (ct_data c0)) b0)\<rparr>))"
    using publish_one(2) [OF p] assms(2) v(5) by auto
  then have b: "b = apply_one (bound_meta owner di (ct_data c0)) b0" using assms(3,4) by auto
  have art: "ar_name (ArtifactRef b) = n"
    using enrich_same_binding [OF b0(1)] unfolding b by (simp add: same_binding_def apply_one_def)
  have "matchesPublished (bound_meta owner di (Some b)) (Some b)"
  proof (cases "so_import_mode owner \<and> di = None")
    case True
    then show ?thesis by (simp add: bound_meta_def published_matches)
  next
    case False
    then have "bound_meta owner di (Some b) = bound_meta owner di (ct_data c0)" by (auto simp: bound_meta_def)
    then show ?thesis using apply_one_matches b by simp
  qed
  moreover have "owner_import e' owner = Inr (di, t)" using publish_frame(4) [OF p refl] v(4) by simp
  ultimately show ?thesis
    using bound_projection_eq [OF v(1-3) _ assms(3)] assms(4,5) art by auto
qed

text \<open>
  The import metadata of a volume survives its DataImport: when no single DataImport stands for an
  imported leaf any more, a projection keeps, on every path, each of storage class, volume mode and
  filesystem type that the content already publishes.
\<close>

theorem import_metadata_survives:
  assumes "so_import_mode owner" and "FindDataImportForLeaf e owner = Inr (None, t)"
    and "reconcileDataLegProjection e reg c owner ns found = (r, e')"
    and "e_content e (ct_name c) = Found c0" and "ct_data c0 = Some p"
  shows "\<exists>c1 b. e_content e' (ct_name c) = Found c1 \<and> ct_data c1 = Some b \<and>
     (StorageClassName p \<noteq> '''' \<longrightarrow> StorageClassName b = StorageClassName p) \<and>
     (VolumeMode p \<noteq> '''' \<longrightarrow> VolumeMode b = VolumeMode p) \<and> (FsType p \<noteq> '''' \<longrightarrow> FsType b = FsType p)"
proof (cases "e' = e")
  case True
  then show ?thesis using assms(4,5) by auto
next
  case False
  have found using False assms(3) by (auto simp: reconcileDataLegProjection_def split: if_splits)
  have "\<exists>b1. leg_answer (publishDataBindings e (ct_name c) [b1] (importVolumeMetadataFromPublished (Some p))) = (r, e')"
  proof (cases "g_kind (so_gvk owner) = ''VolumeSnapshot''")
    case True
    then have "projectContentDataLegFromBoundVSC e c owner = (r, e')"
      using assms(3) \<open>found\<close> by (simp add: projection_routes)
    from bound_projection_cases [OF this] False assms(1,2,4,5) show ?thesis
      by (auto simp: owner_import_def bound_meta_def)
  next
    case nk: False
    then have di: "projectContentDataLegFromDataImport e reg c owner = (r, e')"
      using assms(1,3) \<open>found\<close> by (simp add: projection_routes)
    have "completeOrKeepPublishedImportLeg e (ct_name c) = (r, e')"
      using di False assms(2) by (auto simp: projectContentDataLegFromDataImport_def Let_def split: if_splits)
    from keep_projection_cases [OF this] False assms(4,5) show ?thesis by auto
  qed
  then obtain b1 r0 where pub: "publishDataBindings e (ct_name c) [b1] (importVolumeMetadataFromPublished (Some p)) = (r0, e')"
    by (auto simp: leg_answer_eq)
  from publish_one(2) [OF pub] assms(4,5) show ?thesis
    by (auto simp: apply_one_def importVolumeMetadataFromPublished_def)
qed

lemma sole_first_owner:
  "filter (\<lambda>r. content_ref r \<or> is_controller r) refs = [d] \<Longrightarrow> content_ref d \<Longrightarrow> or_name d = n \<Longrightarrow>
   first_content_owner n refs = Some d"
proof (induction refs)
  case (Cons r refs)
  show ?case
  proof (cases "content_ref r \<or> is_controller r")
    case True
    then have "r = d" using Cons.prems(1) by simp
    then show ?thesis using Cons.prems by (simp add: content_ref_def)
  next
    case False
    then have "first_content_owner n refs = Some d" using Cons by simp
    then show ?thesis using False by (auto simp: content_ref_def)
  qed
qed simp

lemma first_owner_in: "first_content_owner n refs = Some d \<Longrightarrow> d \<in> set refs \<and> content_ref d \<and> or_name d = n"
  by (induction refs) (auto simp: content_ref_def split: if_splits)

lemma handed_off_owned:
  assumes "handed_off e c n" "e_vsc e n = Found v" "\<not> vs_deleting v" "ct_uid c \<noteq> ''''"
  shows "VolumeSnapshotContentOwnedByContent e n c = Inr True"
proof -
  obtain d where d: "filter (\<lambda>r. content_ref r \<or> is_controller r) (vs_owner_refs v) = [d]" "same_owner_ref d (content_owner c)"
    using assms(1-3) by (auto simp: handed_off_def sole_owner_def)
  have "first_content_owner (ct_name c) (vs_owner_refs v) = Some d"
    by (rule sole_first_owner [OF d(1)]) (use d(2) in \<open>simp_all add: same_owner_ref_def content_ref_def\<close>)
  then show ?thesis using assms(2,4) d(2) by (simp add: VolumeSnapshotContentOwnedByContent_def same_owner_ref_def)
qed

text \<open>
  C14: A request is released only after the handoff: the test that allows a VolumeCaptureRequest to be
  deleted succeeds only if the request is gone already, or the content publishes exactly the artifact of
  the request for the request's target and, if it is a VolumeSnapshotContent, that object exists and
  names the content, by its uid, as its owner.
\<close>

theorem request_released_after_handoff:
  assumes "VolumeCaptureRequestSafeToDeleteWithHandoff e ns vcrName contentName = Inr True"
  shows "e_vcr e ns vcrName = NotFound \<or> (\<exists>vcr a c b. e_vcr e ns vcrName = Found vcr \<and> vr_artifact vcr = NVal (Some a) \<and>
     e_content e contentName = Found c \<and> ct_data c = Some b \<and> ar_name (ArtifactRef b) = ar_name a \<and>
     ar_kind (ArtifactRef b) = ar_kind a \<and>
     sr_uid (SourceRef b) = (case vr_target vcr of NVal (Some t) \<Rightarrow> tg_uid t | _ \<Rightarrow> '''') \<and>
     (ar_kind a = kindVolumeSnapshotContent \<and> ar_name a \<noteq> '''' \<longrightarrow>
        (\<exists>v d. e_vsc e (ar_name a) = Found v \<and> d \<in> set (vs_owner_refs v) \<and> content_ref d \<and> or_name d = ct_name c \<and>
           or_uid d = ct_uid c \<and> ct_uid c \<noteq> '''')))"
proof (cases "e_vcr e ns vcrName")
  case (Found vcr)
  obtain c rs where c: "e_content e contentName = Found c" "ParseVolumeCaptureDataRefs vcr = Inr rs"
    "isPublishedDataRefsComplete rs (GetStatusDataRefs c)" "all_owned e c (GetStatusDataRefs c) = Inr True"
    using assms Found by (auto simp: VolumeCaptureRequestSafeToDeleteWithHandoff_def split: if_splits get_res.splits sum.splits)
  then obtain a where a: "vr_artifact vcr = NVal (Some a)"
    by (auto simp: ParseVolumeCaptureDataRefs_def isPublishedDataRefsComplete_def split: nested.splits option.splits)
  have rs: "\<exists>r. rs = [r] \<and> cb_artifact r = a \<and>
      cb_uid r = (case vr_target vcr of NVal (Some t) \<Rightarrow> tg_uid t | _ \<Rightarrow> '''')"
    using c(2) a by (auto simp: ParseVolumeCaptureDataRefs_def ParseVolumeCaptureTargets_def zero_target_def Let_def
        split: nested.splits option.splits)
  then obtain r where r: "rs = [r]" "cb_artifact r = a"
    "cb_uid r = (case vr_target vcr of NVal (Some t) \<Rightarrow> tg_uid t | _ \<Rightarrow> '''')" by blast
  obtain b where b: "ct_data c = Some b" using c(3) r(1)
    by (cases "ct_data c") (auto simp: isPublishedDataRefsComplete_def GetStatusDataRefs_def)
  have eq: "sr_uid (SourceRef b) = cb_uid r" "ar_name (ArtifactRef b) = ar_name a" "ar_kind (ArtifactRef b) = ar_kind a"
    using c(3) r b by (auto simp: isPublishedDataRefsComplete_def GetStatusDataRefs_def split: option.splits if_splits)
  have "\<exists>v d. e_vsc e (ar_name a) = Found v \<and> d \<in> set (vs_owner_refs v) \<and> content_ref d \<and> or_name d = ct_name c \<and>
      or_uid d = ct_uid c \<and> ct_uid c \<noteq> ''''" if "ar_kind a = kindVolumeSnapshotContent" "ar_name a \<noteq> ''''"
  proof -
    have "VolumeSnapshotContentOwnedByContent e (ar_name a) c = Inr True"
      using c(4) b eq that by (auto simp: GetStatusDataRefs_def split: sum.splits if_splits)
    then show ?thesis
      by (auto simp: VolumeSnapshotContentOwnedByContent_def dest: first_owner_in split: get_res.splits option.splits if_splits)
  qed
  with Found a c(1) b eq r(3) show ?thesis by auto
qed (use assms in \<open>auto simp: VolumeCaptureRequestSafeToDeleteWithHandoff_def\<close>)

text \<open>
  C15: A captured leg releases its request: when a projection of a domain capture has published the
  binding of a content that has a uid and its artifact is not going away, the request may be deleted.
\<close>

theorem published_capture_is_releasable:
  assumes "projectContentDataLegFromVCR e c ns vcrName = (r, e')" and "e_content e' \<noteq> e_content e"
    and "e_content e' (ct_name c) = Found c1" and "ct_name c1 = ct_name c" and "ct_name c \<noteq> ''''" and "ct_uid c1 \<noteq> ''''"
    and "ct_data c1 = Some b" and "e_vsc e' (ar_name (ArtifactRef b)) = Found v" and "\<not> vs_deleting v"
  shows "VolumeCaptureRequestSafeToDeleteWithHandoff e' ns vcrName (ct_name c) = Inr True"
proof -
  have "e' \<noteq> e" using assms(2) by auto
  then obtain vcr ts rs b1 c0 where v: "e_vcr e ns vcrName = Found vcr" "ParseVolumeCaptureTargets vcr = Inr ts"
    "ParseVolumeCaptureDataRefs vcr = Inr rs" "ValidateDataRefsForPublish ts rs = Inr ()"
    "SnapshotDataBindingsFromVCRStatus rs = [b1]" "e_content e (ct_name c) = Found c0"
    "leg_answer (publishDataBindings e (ct_name c) [b1] no_metadata) = (r, e')"
    using vcr_projection_cases [OF assms(1)] by blast
  then obtain r0 where p: "publishDataBindings e (ct_name c) [b1] no_metadata = (r0, e')" by (auto simp: leg_answer_eq)
  have kind: "ar_kind (ArtifactRef b1) = kindVolumeSnapshotContent" "ar_name (ArtifactRef b1) \<noteq> ''''"
    using validated_covers [OF v(2-4)] v(5) by auto
  obtain b0 where b0: "enrich_binding e b1 = Inr b0"
    "e_content e' = (e_content e)(ct_name c := Found (c0\<lparr>ct_data := Some (apply_one no_metadata b0)\<rparr>))"
    "handed_off e' c0 (ar_name (ArtifactRef b1))"
    using publish_one(2) [OF p] assms(2) v(6) kind by auto
  have c1: "c1 = c0\<lparr>ct_data := Some b\<rparr>" "b = apply_one no_metadata b0" using b0(2) assms(3,7) by auto
  have same: "same_binding b b1"
    using enrich_same_binding [OF b0(1)] apply_one_same same_binding_trans c1(2) by blast
  obtain k where k: "rs = [k]" "cb_uid k = tg_uid (cb_target k)"
    using parse_refs_single [OF v(3)] v(5) by (auto simp: SnapshotDataBindingsFromVCRStatus_def)
  have complete: "isPublishedDataRefsComplete rs [b]"
    using v(5) same k by (auto simp: isPublishedDataRefsComplete_def SnapshotDataBindingsFromVCRStatus_def same_binding_def)
  have owned: "VolumeSnapshotContentOwnedByContent e' (ar_name (ArtifactRef b1)) c1 = Inr True"
    by (rule handed_off_owned [OF _ _ assms(9,6)]) (use b0(3) assms(8) same in \<open>auto simp: c1(1) handed_off_def same_binding_def\<close>)
  have "e_vcr e' = e_vcr e" by (subst publish_one(4) [OF p]) simp
  with complete owned show ?thesis
    using v(1,3) assms(3,5,7) same kind
    by (simp add: VolumeCaptureRequestSafeToDeleteWithHandoff_def GetStatusDataRefs_def same_binding_def)
qed

lemma enrich_gone_pvc:
  assumes "e_pvc e (sr_namespace src) (sr_name src) = NotFound" and "enrich_binding e (bare_binding src a) = Inr b"
  shows "VolumeMode b = '''' \<and> FsType b = '''' \<and> StorageClassName b = ''''"
  using assms by (auto simp: enrich_binding_def enrich_from_pvc_def Let_def split: sum.splits prod.splits if_splits)

text \<open>
  The metadata of a captured volume does not survive its claim while the size is missing: if the
  restore size arrives only after the source claim is gone, the projection of a captured VolumeSnapshot
  that then writes the content leaves the volume mode, the filesystem type and the storage class empty,
  whatever was published before.
\<close>

theorem capture_metadata_lost:
  assumes "g_kind (so_gvk owner) = ''VolumeSnapshot''" and "\<not> so_import_mode owner"
    and "e_pvc e (sr_namespace (so_source_ref owner)) (sr_name (so_source_ref owner)) = NotFound"
    and "reconcileDataLegProjection e reg c owner ns True = (r, e')"
    and "e_content e (ct_name c) = Found c0" and "e_content e' (ct_name c) = Found c1" and "c1 \<noteq> c0"
  shows "\<exists>b. ct_data c1 = Some b \<and> VolumeMode b = '''' \<and> FsType b = '''' \<and> StorageClassName b = ''''"
proof -
  have "projectContentDataLegFromBoundVSC e c owner = (r, e')" using assms(1,4) by (simp add: projection_routes)
  from bound_projection_cases [OF this] obtain n di t where
    "leg_answer (publishDataBindings e (ct_name c) [bare_binding (so_source_ref owner) (vsc_artifact n)]
       (bound_meta owner di (ct_data c0))) = (r, e')"
    using assms(5-7) by auto
  then obtain r0 where p: "publishDataBindings e (ct_name c) [bare_binding (so_source_ref owner) (vsc_artifact n)] no_metadata = (r0, e')"
    using assms(2) by (auto simp: leg_answer_eq bound_meta_def)
  have "e_content e' \<noteq> e_content e" using assms(5-7) by auto
  then obtain b0 where b0: "enrich_binding e (bare_binding (so_source_ref owner) (vsc_artifact n)) = Inr b0"
    "e_content e' = (e_content e)(ct_name c := Found (c0\<lparr>ct_data := Some (apply_one no_metadata b0)\<rparr>))"
    using publish_one(2) [OF p] assms(5) by auto
  have "ct_data c1 = Some (apply_one no_metadata b0)" using b0(2) assms(6) by auto
  then show ?thesis using enrich_gone_pvc [OF assms(3) b0(1)] by (simp add: apply_one_def no_metadata_def)
qed

text \<open>
  An imported leaf whose DataImport names its artifact without a uid never settles while that
  DataImport exists: once the content publishes the artifact with the uid the enrichment found, every
  projection that answers asks to be repeated, and therefore every status pass of the content is not Ready.
\<close>

theorem import_without_uid_never_settles:
  assumes "g_kind (so_gvk owner) \<noteq> ''VolumeSnapshot''" and "so_import_mode owner"
    and "RequiresDataArtifact (g_kind (so_gvk owner)) reg"
    and "FindDataImportForLeaf e owner = Inr (Some d, '''')"
    and "ar_kind (di_artifact d) = kindVolumeSnapshotContent" and "ar_apiVersion (di_artifact d) \<noteq> ''''"
    and "ar_name (di_artifact d) \<noteq> ''''" and "ar_uid (di_artifact d) = ''''"
    and "e_content e (ct_name c) = Found c0" and "ct_data c0 = Some p" and "ar_uid (ArtifactRef p) \<noteq> ''''"
    and "reconcileDataLegProjection e reg c owner ns True = (Inr (requeue, term, msg), e')"
  shows "requeue \<and> (mcp_names_agree e2 \<longrightarrow>
     reconcileCommonSnapshotContentStatus e2 perr c2 requeue term msg (Some owner) = Inr (c', changed, ready) \<longrightarrow> \<not> ready)"
proof -
  obtain b where b: "BuildImportDataBinding e d owner = (Some b, True, '''')" "ArtifactRef b = di_artifact d"
    using assms(5-7) by (auto simp: BuildImportDataBinding_def Let_def)
  have ne: "ArtifactRef p \<noteq> ArtifactRef b" using b(2) assms(8,11) by auto
  have "projectContentDataLegFromDataImport e reg c owner = (Inr (requeue, term, msg), e')"
    using assms(1,2,12) by (simp add: projection_routes)
  then have "leg_answer (publishDataBindings e (ct_name c) [b] (importVolumeMetadataFromDataImport (Some d))) =
      (Inr (requeue, term, msg), e')"
    using assms(3,4,9,10) b(1) ne by (simp add: projectContentDataLegFromDataImport_def get_content_def Let_def)
  then have q: requeue using publish_one(1) [of e "ct_name c" b] by (auto simp: leg_answer_Inr)
  have "\<not> ready" if names: "mcp_names_agree e2"
    and pass: "reconcileCommonSnapshotContentStatus e2 perr c2 requeue term msg (Some owner) = Inr (c', changed, ready)"
  proof -
    obtain pl where "settled_plan e2 c2 requeue term msg (Some owner) = Inr pl" "ready = (readyStatus pl = ConditionTrue)"
      using pass_facts [OF pass] by metis
    then show ?thesis using settled_ready(1) [OF names] q by simp
  qed
  with q show ?thesis by blast
qed

section \<open>Instances\<close>

text \<open>
  A cluster with the content \<open>c\<close>, a live artifact \<open>vsc\<close> of a class that deletes, and a request that is
  ready with it.
\<close>

definition demo_vsc :: vsc_obj where
  "demo_vsc = \<lparr>vs_deleting = False, vs_ready = NVal True, vs_uid = ''vuid'', vs_owner_refs = [], vs_finalizers = [],
     vs_policy = NVal ''Delete'', vs_restore_size = NVal 10, vs_annotations = Map.empty\<rparr>"

definition demo_ref :: subject_ref where
  "demo_ref = \<lparr>sr_apiVersion = ''v1'', sr_kind = ''PersistentVolumeClaim'', sr_name = ''pvc'', sr_namespace = ''ns'', sr_uid = ''puid''\<rparr>"

definition demo_artifact :: "string \<Rightarrow> artifact_ref" where
  "demo_artifact uid = (vsc_artifact ''vsc'')\<lparr>ar_uid := uid\<rparr>"

definition demo_vcr :: "string \<Rightarrow> string \<Rightarrow> vcr_obj" where
  "demo_vcr st reason = \<lparr>vr_namespace = ''ns'', vr_target = NVal (Some \<lparr>tg_uid = ''puid'', tg_apiVersion = ''v1'',
       tg_kind = ''PersistentVolumeClaim'', tg_name = ''pvc'', tg_namespace = ''''\<rparr>),
     vr_artifact = NVal (Some (demo_artifact ''vuid'')), vr_conditions = NVal [Some (''Ready'', st, reason, '''')]\<rparr>"

definition demo_content :: "data_binding option \<Rightarrow> snapshot_content" where
  "demo_content d = sample_content\<lparr>ct_data := d\<rparr>"

definition demo_import :: "string \<Rightarrow> data_import" where
  "demo_import uid = \<lparr>di_name = ''di'', di_mode = ''PopulateData'', di_ref_apiVersion = ''demo.io/v1'', di_ref_kind = ''DiskSnapshot'',
     di_ref_name = ''leaf'', di_artifact = demo_artifact uid, di_class = ''sc'', di_volume_mode = ''Block'', di_fs_type = ''''\<rparr>"

definition demo_env :: "data_binding option \<Rightarrow> string \<Rightarrow> string \<Rightarrow> data_import list \<Rightarrow> env" where
  "demo_env d st reason imports = sample_env\<lparr>e_content := (\<lambda>n. if n = ''content'' then Found (demo_content d) else NotFound),
     e_vsc := (\<lambda>n. if n = ''vsc'' then Found demo_vsc else NotFound),
     e_vcr := (\<lambda>_ _. Found (demo_vcr st reason)), e_data_imports := (\<lambda>_. Inr imports),
     binary_quantity := (\<lambda>_. ''10'')\<rparr>"

definition demo_owner :: "string \<Rightarrow> bool \<Rightarrow> snapshot_obj" where
  "demo_owner kind imported = \<lparr>so_gvk = \<lparr>g_group = ''demo.io'', g_version = ''v1'', g_kind = kind\<rparr>, so_namespace = ''ns'',
     so_name = ''leaf'', so_uid = ''luid'', so_generation = 1, so_deleting = False, so_import_mode = imported,
     so_children = NAbsent, so_bound = NVal ''content'', so_conditions = [], so_phase = '''', so_phase_reason = '''',
     so_phase_message = '''', so_mcr_name = NAbsent, so_vcr_name = NVal ''vcr'', so_bound_vsc = NVal ''vsc'',
     so_source_ref = demo_ref, so_manifest_captured = False, so_excluded = []\<rparr>"

lemmas demo_defs = demo_env_def demo_owner_def demo_content_def demo_vcr_def demo_vsc_def demo_ref_def demo_artifact_def
  demo_import_def sample_env_def sample_content_def

lemma apply_one_refs [simp]:
  "ArtifactRef (apply_one m b) = ArtifactRef b" "SourceRef (apply_one m b) = SourceRef b" "Size (apply_one m b) = Size b"
  by (simp_all add: apply_one_def)

definition demo_enriched :: "data_binding \<Rightarrow> data_binding" where
  "demo_enriched b = b\<lparr>Size := ''10'', ArtifactRef := demo_artifact ''vuid''\<rparr>"

lemma demo_enriched_refs [simp]: "ArtifactRef (demo_enriched b) = demo_artifact ''vuid''" "Size (demo_enriched b) = ''10''"
  by (simp_all add: demo_enriched_def)

lemma demo_differs:
  assumes "Size p = ''''"
  shows "Some p \<noteq> Some (apply_one m (demo_enriched b))"
proof
  assume "Some p = Some (apply_one m (demo_enriched b))"
  then have "Size p = Size (apply_one m (demo_enriched b))" by simp
  with assms show False by simp
qed

lemma demo_enrich:
  assumes "ArtifactRef b = demo_artifact uid" "uid = '''' \<or> uid = ''vuid''"
  shows "enrich_binding (demo_env d st reason imports) b = Inr (demo_enriched b)"
  using assms by (cases b)
    (auto simp: enrich_binding_def enrich_from_pvc_def readArtifactRestoreSizeAndUID_def demo_enriched_def demo_defs Let_def)

lemma demo_publish:
  assumes "ArtifactRef b = demo_artifact uid" "uid = '''' \<or> uid = ''vuid''" "d \<noteq> Some (apply_one m (demo_enriched b))"
  shows "\<exists>e'. publishDataBindings (demo_env d st reason imports) ''content'' [b] m = (Inr True, e') \<and>
     e_content e' = (e_content (demo_env d st reason imports))(''content'' :=
       Found (demo_content (Some (apply_one m (demo_enriched b))))) \<and> (\<exists>v. e_vsc e' ''vsc'' = Found v \<and> \<not> vs_deleting v)"
proof -
  let ?b = "apply_one m (demo_enriched b)"
  have art: "ArtifactRef ?b = demo_artifact ''vuid''" by (simp add: apply_one_def demo_enriched_def)
  have "\<exists>V v. EnsureVolumeSnapshotContentsOwnedByContent (demo_env d st reason imports) (demo_content d) [?b] =
      (Inr (), (demo_env d st reason imports)\<lparr>e_vsc := V\<rparr>) \<and> V ''vsc'' = Found v \<and> \<not> vs_deleting v"
    by (simp add: ensureVolumeSnapshotContentOwnedByContent_def snapshotContentControllerOwnerRefsForHandoff_def
      OwnerReferencesEqual_def put_vsc_def art demo_defs Let_def)
  then obtain V v where V: "EnsureVolumeSnapshotContentsOwnedByContent (demo_env d st reason imports) (demo_content d) [?b] =
      (Inr (), (demo_env d st reason imports)\<lparr>e_vsc := V\<rparr>)" "V ''vsc'' = Found v" "\<not> vs_deleting v" by blast
  have c: "get_content (demo_env d st reason imports) ''content'' = Inr (demo_content d)"
    by (simp add: get_content_def demo_env_def)
  have p: "PublishSnapshotContentDataRefs ((demo_env d st reason imports)\<lparr>e_vsc := V\<rparr>) ''content'' [?b] =
      (Inr (), put_content ((demo_env d st reason imports)\<lparr>e_vsc := V\<rparr>) ''content'' (demo_content (Some ?b)))"
    using assms(3) by (auto simp: PublishSnapshotContentDataRefs_def PublishSnapshotContentDataRef_def data_ref_equal_iff
        demo_env_def demo_content_def sample_env_def)
  show ?thesis
    using V c p by (simp add: publishDataBindings_def demo_enrich [OF assms(1,2)] applyTo_map put_content_def)
qed

abbreviation "demo_bare \<equiv> bare_binding demo_ref (demo_artifact '''')"

lemma demo_bound:
  assumes "d = Some p" "Size p = ''''"
  shows "\<exists>e'. projectContentDataLegFromBoundVSC (demo_env d st reason []) (demo_content d) (demo_owner ''VolumeSnapshot'' imported) =
     (Inr (True, '''', ''''), e') \<and> e_content e' ''content'' = Found (demo_content (Some (apply_one
       (bound_meta (demo_owner ''VolumeSnapshot'' imported) None (Some p)) (demo_enriched demo_bare))))"
proof -
  let ?e = "demo_env d st reason []"
  let ?o = "demo_owner ''VolumeSnapshot'' imported"
  let ?m = "bound_meta ?o None (Some p)"
  have n: "d \<noteq> Some (apply_one ?m (demo_enriched demo_bare))" using assms demo_differs by simp
  obtain e' where p: "publishDataBindings ?e ''content'' [demo_bare] ?m = (Inr True, e')"
    "e_content e' ''content'' = Found (demo_content (Some (apply_one ?m (demo_enriched demo_bare))))"
    using demo_publish [of demo_bare "''''" d ?m st reason "[]"] n by auto
  have import: "owner_import ?e ?o = Inr (None, '''')"
    by (simp add: owner_import_def FindDataImportForLeaf_def demo_defs)
  have "projectContentDataLegFromBoundVSC ?e (demo_content d) ?o =
      leg_answer (publishDataBindings ?e ''content'' [demo_bare] ?m)"
    using bound_projection_eq [of ?o "''vsc''" ?e None "''''" "demo_content d" "demo_content d"] assms import
    by (simp add: demo_owner_def demo_ref_def demo_artifact_def demo_content_def demo_env_def sample_content_def)
  with p show ?thesis by simp
qed

lemma bound_route:
  "g_kind (so_gvk owner) = ''VolumeSnapshot'' \<Longrightarrow>
   reconcileDataLegProjection e reg c owner ns True = projectContentDataLegFromBoundVSC e c owner"
  by (simp add: projection_routes)

lemma demo_names [simp]:
  "ct_name (demo_content d) = ''content''" "ct_data (demo_content d) = d"
  "g_kind (so_gvk (demo_owner k i)) = k" "so_import_mode (demo_owner k i) = i" "so_source_ref (demo_owner k i) = demo_ref"
  by (simp_all add: demo_content_def sample_content_def demo_owner_def)

lemma demo_content_eq [simp]: "demo_content a = demo_content b \<longleftrightarrow> a = b"
  by (metis demo_names(2))

lemma demo_reads [simp]:
  "e_content (demo_env d st reason imports) ''content'' = Found (demo_content d)"
  "e_vcr (demo_env d st reason imports) ns n = Found (demo_vcr st reason)"
  "e_pvc (demo_env d st reason imports) ns n = NotFound"
  by (simp_all add: demo_env_def sample_env_def)

lemma data_published_after_handoff_witness:
  "\<exists>e'. reconcileDataLegProjection (demo_env (Some demo_bare) '''' '''' []) NewGVKRegistry (demo_content (Some demo_bare))
      (demo_owner ''VolumeSnapshot'' False) ''ns'' True = (Inr (True, '''', ''''), e') \<and>
     handed_off e' (demo_content (Some demo_bare)) ''vsc''"
proof -
  let ?e = "demo_env (Some demo_bare) '''' '''' []"
  let ?b = "apply_one (bound_meta (demo_owner ''VolumeSnapshot'' False) None (Some demo_bare)) (demo_enriched demo_bare)"
  obtain e' where p: "reconcileDataLegProjection ?e NewGVKRegistry (demo_content (Some demo_bare))
      (demo_owner ''VolumeSnapshot'' False) ''ns'' True = (Inr (True, '''', ''''), e')"
    "e_content e' ''content'' = Found (demo_content (Some ?b))"
    using demo_bound [of "Some demo_bare" demo_bare "''''" "''''" False] bound_route [of "demo_owner ''VolumeSnapshot'' False"]
    by auto
  have ne: "demo_content (Some ?b) \<noteq> demo_content (Some demo_bare)" using demo_differs [of demo_bare] by (metis demo_content_eq data_binding.select_convs(6))
  have a: "ar_kind (ArtifactRef ?b) = kindVolumeSnapshotContent" "ar_name (ArtifactRef ?b) = ''vsc''"
    by (simp_all add: demo_enriched_def demo_artifact_def)
  obtain b where b: "demo_content (Some ?b) = (demo_content (Some demo_bare))\<lparr>ct_data := Some b\<rparr>"
    "ar_kind (ArtifactRef b) = kindVolumeSnapshotContent \<and> ar_name (ArtifactRef b) \<noteq> '''' \<longrightarrow>
        handed_off e' (demo_content (Some demo_bare)) (ar_name (ArtifactRef b))"
    using data_published_after_handoff [OF p(1) _ p(2) ne] by auto
  have "Some b = Some ?b" using arg_cong [OF b(1), of ct_data] by simp
  then have "handed_off e' (demo_content (Some demo_bare)) ''vsc''" using a b(2) by simp
  with p(1) show ?thesis by blast
qed

lemma native_leg_latches_witness:
  "\<exists>e'. projectContentDataLegFromBoundVSC (demo_env (Some demo_bare) '''' '''' []) (demo_content (Some demo_bare))
      (demo_owner ''VolumeSnapshot'' True) = (Inr (True, '''', ''''), e') \<and>
    projectContentDataLegFromBoundVSC e' (demo_content (Some demo_bare)) (demo_owner ''VolumeSnapshot'' True) =
      (Inr (False, '''', ''''), e')"
proof -
  let ?b = "apply_one (bound_meta (demo_owner ''VolumeSnapshot'' True) None (Some demo_bare)) (demo_enriched demo_bare)"
  obtain e' where p: "projectContentDataLegFromBoundVSC (demo_env (Some demo_bare) '''' '''' []) (demo_content (Some demo_bare))
      (demo_owner ''VolumeSnapshot'' True) = (Inr (True, '''', ''''), e')"
    "e_content e' ''content'' = Found (demo_content (Some ?b))"
    using demo_bound [of "Some demo_bare" demo_bare "''''" "''''" True] by auto
  have "e_content e' \<noteq> e_content (demo_env (Some demo_bare) '''' '''' [])"
  proof
    assume "e_content e' = e_content (demo_env (Some demo_bare) '''' '''' [])"
    then have "Some demo_bare = Some ?b" using p(2) by simp
    then show False using demo_differs [of demo_bare] by simp
  qed
  moreover have "Size ?b \<noteq> ''''" by (simp add: demo_enriched_def)
  ultimately show ?thesis
    using p native_leg_latches [OF p(1), of "demo_content (Some ?b)" ?b] by auto
qed

lemma import_metadata_survives_witness:
  "\<exists>e' c1 b. reconcileDataLegProjection (demo_env (Some (demo_bare\<lparr>FsType := ''xfs''\<rparr>)) '''' '''' []) NewGVKRegistry
      (demo_content (Some (demo_bare\<lparr>FsType := ''xfs''\<rparr>))) (demo_owner ''VolumeSnapshot'' True) ''ns'' True =
      (Inr (True, '''', ''''), e') \<and>
    e_content e' ''content'' = Found c1 \<and> ct_data c1 = Some b \<and> FsType b = ''xfs'' \<and> Size b = ''10''"
proof -
  let ?p = "demo_bare\<lparr>FsType := ''xfs''\<rparr>"
  let ?e = "demo_env (Some ?p) '''' '''' []"
  let ?o = "demo_owner ''VolumeSnapshot'' True"
  let ?b = "apply_one (bound_meta ?o None (Some ?p)) (demo_enriched demo_bare)"
  obtain e' where p: "reconcileDataLegProjection ?e NewGVKRegistry (demo_content (Some ?p)) ?o ''ns'' True =
      (Inr (True, '''', ''''), e')" "e_content e' ''content'' = Found (demo_content (Some ?b))"
    using demo_bound [of "Some ?p" ?p "''''" "''''" True] bound_route [of ?o] by auto
  have "FindDataImportForLeaf ?e ?o = Inr (None, '''')"
    by (simp add: FindDataImportForLeaf_def demo_defs)
  from import_metadata_survives [OF _ this p(1), of "demo_content (Some ?p)" ?p] p show ?thesis by auto
qed

lemma capture_metadata_lost_witness:
  "\<exists>e' c1 b. reconcileDataLegProjection (demo_env (Some (demo_bare\<lparr>FsType := ''xfs''\<rparr>)) '''' '''' []) NewGVKRegistry
      (demo_content (Some (demo_bare\<lparr>FsType := ''xfs''\<rparr>))) (demo_owner ''VolumeSnapshot'' False) ''ns'' True =
      (Inr (True, '''', ''''), e') \<and>
    e_content e' ''content'' = Found c1 \<and> ct_data c1 = Some b \<and> FsType b = ''''"
proof -
  let ?p = "demo_bare\<lparr>FsType := ''xfs''\<rparr>"
  let ?e = "demo_env (Some ?p) '''' '''' []"
  let ?o = "demo_owner ''VolumeSnapshot'' False"
  let ?b = "apply_one (bound_meta ?o None (Some ?p)) (demo_enriched demo_bare)"
  obtain e' where p: "reconcileDataLegProjection ?e NewGVKRegistry (demo_content (Some ?p)) ?o ''ns'' True =
      (Inr (True, '''', ''''), e')" "e_content e' ''content'' = Found (demo_content (Some ?b))"
    using demo_bound [of "Some ?p" ?p "''''" "''''" False] bound_route [of ?o] by auto
  have "demo_content (Some ?b) \<noteq> demo_content (Some ?p)"
    using demo_differs [of ?p] by (metis demo_content_eq data_binding.select_convs(6) data_binding.update_convs(4))
  with capture_metadata_lost [OF _ _ _ p(1), of "demo_content (Some ?p)" "demo_content (Some ?b)"] p show ?thesis by auto
qed

lemma vcr_route:
  "reconcileDataLegProjection e reg c (demo_owner ''DiskSnapshot'' False) ns True = projectContentDataLegFromVCR e c ns ''vcr''"
  by (simp add: projection_routes domainVolumeCaptureRequestName_def) (simp add: demo_owner_def)

lemma terminal_means_failed_capture_witness:
  "\<exists>msg. reconcileDataLegProjection (demo_env None ''False'' ''Boom'' []) NewGVKRegistry (demo_content None)
      (demo_owner ''DiskSnapshot'' False) ''ns'' True =
      (Inr (False, ReasonVolumeCaptureFailed, msg), demo_env None ''False'' ''Boom'' []) \<and>
    vcr_failed_uncovered (demo_env None ''False'' ''Boom'' []) (demo_content None) (demo_owner ''DiskSnapshot'' False) ''ns''"
proof -
  let ?e = "demo_env None ''False'' ''Boom'' []"
  obtain msg where p: "reconcileDataLegProjection ?e NewGVKRegistry (demo_content None)
      (demo_owner ''DiskSnapshot'' False) ''ns'' True = (Inr (False, ReasonVolumeCaptureFailed, msg), ?e)"
    unfolding vcr_route by (simp add: projectContentDataLegFromVCR_def get_content_def ParseVolumeCaptureTargets_def
      VolumeCaptureRequestFailed_def parseReadyCondition_def GetStatusDataRefs_def ContentDataRefsCoverExpectedTargets_def
      demo_vcr_def Let_def)
  with terminal_means_failed_capture [OF p] show ?thesis by auto
qed

lemma demo_capture:
  "\<exists>e'. projectContentDataLegFromVCR (demo_env None ''True'' ''Completed'' []) (demo_content None) ''ns'' ''vcr'' =
      (Inr (True, '''', ''''), e') \<and> e_content e' ''content'' =
      Found (demo_content (Some (apply_one no_metadata (demo_enriched (bare_binding demo_ref (demo_artifact ''vuid'')))))) \<and>
      (\<exists>v. e_vsc e' ''vsc'' = Found v \<and> \<not> vs_deleting v)"
proof -
  let ?e = "demo_env None ''True'' ''Completed'' []"
  let ?b = "bare_binding demo_ref (demo_artifact ''vuid'')"
  obtain e' where p: "publishDataBindings ?e ''content'' [?b] no_metadata = (Inr True, e')"
    "e_content e' ''content'' = Found (demo_content (Some (apply_one no_metadata (demo_enriched ?b))))"
    "\<exists>v. e_vsc e' ''vsc'' = Found v \<and> \<not> vs_deleting v"
    using demo_publish [of ?b "''vuid''" None no_metadata "''True''" "''Completed''" "[]"] by auto
  let ?t = "\<lparr>tg_uid = ''puid'', tg_apiVersion = ''v1'', tg_kind = ''PersistentVolumeClaim'', tg_name = ''pvc'', tg_namespace = ''ns''\<rparr>"
  let ?r = "\<lparr>cb_uid = ''puid'', cb_target = ?t, cb_artifact = demo_artifact ''vuid''\<rparr>"
  have t: "ParseVolumeCaptureTargets (demo_vcr s r) = Inr [?t]" for s r
    by (simp add: ParseVolumeCaptureTargets_def demo_vcr_def)
  have r: "ParseVolumeCaptureDataRefs (demo_vcr ''True'' ''Completed'') = Inr [?r]"
    by (simp add: ParseVolumeCaptureDataRefs_def t) (simp add: ParseVolumeCaptureTargets_def demo_vcr_def)
  have v: "ValidateDataRefsForPublish [?t] [?r] = Inr ()"
    by (simp add: ValidateDataRefsForPublish_def validateDataRefTargetIdentity_def volumeCaptureTargetsEqual_def
      demo_artifact_def Let_def)
  have b: "SnapshotDataBindingsFromVCRStatus [?r] = [?b]"
    by (simp add: SnapshotDataBindingsFromVCRStatus_def demo_ref_def)
  have ready: "VolumeCaptureRequestReady (demo_vcr ''True'' ''Completed'')"
    "VolumeCaptureRequestFailed (demo_vcr ''True'' ''Completed'') = (False, '''', '''')"
    by (simp_all add: VolumeCaptureRequestReady_def VolumeCaptureRequestFailed_def parseReadyCondition_def demo_vcr_def)
  have "projectContentDataLegFromVCR ?e (demo_content None) ''ns'' ''vcr'' =
      leg_answer (publishDataBindings ?e ''content'' [?b] no_metadata)"
    by (simp add: projectContentDataLegFromVCR_def get_content_def GetStatusDataRefs_def t r v b ready
      ContentDataRefsCoverExpectedTargets_def Let_def)
  with p show ?thesis by simp
qed

lemma vcr_leg_latches_witness:
  "\<exists>e' e2. projectContentDataLegFromVCR (demo_env None ''True'' ''Completed'' []) (demo_content None) ''ns'' ''vcr'' =
      (Inr (True, '''', ''''), e') \<and>
    e_vcr e2 ''ns'' ''vcr'' = Found (demo_vcr ''False'' ''Expired'') \<and> e_content e2 = e_content e' \<and>
    projectContentDataLegFromVCR e2 (demo_content None) ''ns'' ''vcr'' = (Inr (False, '''', ''''), e2)"
proof -
  let ?e = "demo_env None ''True'' ''Completed'' []"
  obtain e' b where p: "projectContentDataLegFromVCR ?e (demo_content None) ''ns'' ''vcr'' = (Inr (True, '''', ''''), e')"
    "e_content e' ''content'' = Found (demo_content (Some b))"
    using demo_capture by blast
  have "e_content e' \<noteq> e_content ?e"
  proof
    assume "e_content e' = e_content ?e"
    then show False using p(2) by simp
  qed
  from vcr_leg_latches [OF p(1) this demo_reads(2) _ _ refl, of "demo_vcr ''False'' ''Expired''"] p(1)
  show ?thesis by (intro exI conjI) (auto simp: demo_vcr_def)
qed

lemma demo_import_found:
  "FindDataImportForLeaf (demo_env d st reason [demo_import uid]) (demo_owner ''DiskSnapshot'' True) = Inr (Some (demo_import uid), '''')"
proof -
  have g: "g_group (parseGVK ''DiskSnapshot'' ''demo.io/v1'') = ''demo.io''" by code_simp
  show ?thesis
    by (simp add: FindDataImportForLeaf_def di_matches_def isPopulateDataImport_def demo_env_def demo_owner_def
      sample_env_def demo_import_def g)
qed

text \<open>Any content with a checkpoint pass and a pending data leg: the pass runs and is not Ready.\<close>

lemma pending_pass:
  "\<exists>c' ch. reconcileCommonSnapshotContentStatus sample_env None sample_content True '''' ''''
     (Some (demo_owner ''DiskSnapshot'' True)) = Inr (c', ch, False)"
proof -
  let ?o = "demo_owner ''DiskSnapshot'' True"
  obtain p where p: "settled_plan sample_env sample_content True '''' '''' (Some ?o) = Inr p"
    and n: "(readyStatus p = ConditionTrue) = False"
    by (simp add: plan_eval demo_owner_def ownerDomainCapturePhase_def ownerDomainCaptureFailed_def Let_def)
  obtain agg where "computeExcludedRefsAggregate sample_env sample_content = Inr agg"
    by (auto simp: computeExcludedRefsAggregate_def ownDirectExcludedRefs_def sample_content_def zero_subject_ref_def)
  from pass_runs [OF p this] show ?thesis unfolding n .
qed

lemma import_without_uid_never_settles_witness:
  "\<exists>e' c' ch. reconcileDataLegProjection (demo_env (Some (bare_binding demo_ref (demo_artifact ''vuid''))) '''' '''' [demo_import ''''])
      (MarkRequiresDataArtifact ''DiskSnapshot'' True NewGVKRegistry)
      (demo_content (Some (bare_binding demo_ref (demo_artifact ''vuid'')))) (demo_owner ''DiskSnapshot'' True) ''ns'' True =
      (Inr (True, '''', ''''), e') \<and>
    reconcileCommonSnapshotContentStatus sample_env None sample_content True '''' ''''
      (Some (demo_owner ''DiskSnapshot'' True)) = Inr (c', ch, False)"
proof -
  let ?p = "bare_binding demo_ref (demo_artifact ''vuid'')"
  let ?e = "demo_env (Some ?p) '''' '''' [demo_import '''']"
  let ?o = "demo_owner ''DiskSnapshot'' True"
  let ?r = "MarkRequiresDataArtifact ''DiskSnapshot'' True NewGVKRegistry"
  let ?m = "importVolumeMetadataFromDataImport (Some (demo_import ''''))"
  obtain b where b: "BuildImportDataBinding ?e (demo_import '''') ?o = (Some b, True, '''')" "ArtifactRef b = demo_artifact ''''"
    by (simp add: BuildImportDataBinding_def Let_def) (simp add: demo_import_def demo_artifact_def)
  obtain e' where p: "publishDataBindings ?e ''content'' [b] ?m = (Inr True, e')"
    using demo_publish [of b "''''" "Some ?p" ?m "''''" "''''" "[demo_import '''']"] b(2) demo_differs [of ?p] by auto
  have req: "RequiresDataArtifact ''DiskSnapshot'' ?r"
    by (simp add: RequiresDataArtifact_def MarkRequiresDataArtifact_def NewGVKRegistry_def)
  have ne: "demo_artifact ''vuid'' \<noteq> demo_artifact ''''" by (simp add: demo_artifact_def)
  have run: "reconcileDataLegProjection ?e ?r (demo_content (Some ?p)) ?o ''ns'' True = (Inr (True, '''', ''''), e')"
    by (simp add: projection_routes projectContentDataLegFromDataImport_def req demo_import_found b p ne
      get_content_def Let_def)
  have art: "di_artifact (demo_import '''') = demo_artifact ''''" by (simp add: demo_import_def)
  obtain c' ch where pass: "reconcileCommonSnapshotContentStatus sample_env None sample_content True '''' '''' (Some ?o) =
      Inr (c', ch, False)" using pending_pass by blast
  have c0: "e_content ?e (ct_name (demo_content (Some ?p))) = Found (demo_content (Some ?p))" by simp
  have names: "mcp_names_agree sample_env" by (simp add: mcp_names_agree_def sample_env_def)
  have "True \<and> (mcp_names_agree sample_env \<longrightarrow>
      reconcileCommonSnapshotContentStatus sample_env None sample_content True '''' '''' (Some ?o) = Inr (c', ch, False) \<longrightarrow> \<not> False)"
    by (rule import_without_uid_never_settles [OF _ _ _ demo_import_found _ _ _ _ c0 demo_names(2) _ run])
      (simp_all add: req art demo_artifact_def)
  with run pass show ?thesis by blast
qed

lemma demo_content_uid: "ct_name (demo_content d) = ''content''" "ct_uid (demo_content d) = ''uid''"
  by (simp_all add: demo_content_def sample_content_def)

lemma published_capture_is_releasable_witness:
  "\<exists>e'. projectContentDataLegFromVCR (demo_env None ''True'' ''Completed'' []) (demo_content None) ''ns'' ''vcr'' =
      (Inr (True, '''', ''''), e') \<and>
    VolumeCaptureRequestSafeToDeleteWithHandoff e' ''ns'' ''vcr'' ''content'' = Inr True"
proof -
  let ?e = "demo_env None ''True'' ''Completed'' []"
  let ?b = "apply_one no_metadata (demo_enriched (bare_binding demo_ref (demo_artifact ''vuid'')))"
  obtain e' v where p: "projectContentDataLegFromVCR ?e (demo_content None) ''ns'' ''vcr'' = (Inr (True, '''', ''''), e')"
    "e_content e' ''content'' = Found (demo_content (Some ?b))" "e_vsc e' ''vsc'' = Found v" "\<not> vs_deleting v"
    using demo_capture by blast
  have ne: "e_content e' \<noteq> e_content ?e"
  proof
    assume "e_content e' = e_content ?e"
    then show False using p(2) by simp
  qed
  have art: "ar_name (ArtifactRef ?b) = ''vsc''" by (simp add: demo_artifact_def)
  from published_capture_is_releasable [OF p(1) ne, of "demo_content (Some ?b)" ?b v] p art show ?thesis
    by (simp add: demo_content_uid)
qed

lemma request_released_after_handoff_witness:
  "\<exists>e' v. VolumeCaptureRequestSafeToDeleteWithHandoff e' ''ns'' ''vcr'' ''content'' = Inr True \<and>
     e_vcr e' ''ns'' ''vcr'' \<noteq> NotFound \<and> e_vsc e' ''vsc'' = Found v \<and>
     (\<exists>d. d \<in> set (vs_owner_refs v) \<and> or_name d = ''content'' \<and> or_uid d = ''uid'')"
proof -
  define v where "v = demo_vsc\<lparr>vs_owner_refs := [content_owner (demo_content None)]\<rparr>"
  define e' where "e' = (demo_env (Some (bare_binding demo_ref (demo_artifact ''vuid''))) ''True'' ''Completed'' [])
     \<lparr>e_vsc := (\<lambda>n. if n = ''vsc'' then Found v else NotFound)\<rparr>"
  have reads: "e_vcr e' ns n = Found (demo_vcr ''True'' ''Completed'')" "e_vsc e' ''vsc'' = Found v"
    "e_content e' ''content'' = Found (demo_content (Some (bare_binding demo_ref (demo_artifact ''vuid''))))" for ns n
    by (simp_all add: e'_def)
  have s: "VolumeCaptureRequestSafeToDeleteWithHandoff e' ''ns'' ''vcr'' ''content'' = Inr True"
    by (simp add: VolumeCaptureRequestSafeToDeleteWithHandoff_def reads GetStatusDataRefs_def demo_artifact_def
      VolumeSnapshotContentOwnedByContent_def demo_content_uid demo_ref_def isPublishedDataRefsComplete_def
      ParseVolumeCaptureDataRefs_def ParseVolumeCaptureTargets_def demo_vcr_def v_def Let_def)
  have "\<exists>d. d \<in> set (vs_owner_refs v) \<and> or_name d = ''content'' \<and> or_uid d = ''uid''"
    using request_released_after_handoff [OF s]
    by (auto simp: reads demo_vcr_def demo_artifact_def demo_content_uid)
  with s show ?thesis by (intro exI [of _ e'] exI [of _ v]) (simp add: reads)
qed

end
