(* ===== verification/Json_Values.thy ===== *)
theory Json_Values
  imports Prelude
begin

text \<open>
  JSON values as Go holds them in an \<open>interface{}\<close>. A map is an association list whose keys are strictly
  ascending: Go's maps are unordered, and this is one canonical list per map, so that equality of values
  is equality of maps. A number is its literal.
\<close>

datatype json = JNull | JBool bool | JNum string | JStr string | JList "json list" | JMap "(string \<times> json) list"

type_synonym jmap = "(string \<times> json) list"

fun jput :: "string \<Rightarrow> json \<Rightarrow> jmap \<Rightarrow> jmap" where
  "jput k v [] = [(k, v)]"
| "jput k v ((k', v') # m) =
     (if k = k' then (k, v) # m else if k < k' then (k, v) # (k', v') # m else (k', v') # jput k v m)"

definition jdel :: "string \<Rightarrow> jmap \<Rightarrow> jmap" where
  "jdel k m = filter (\<lambda>(k', _). k' \<noteq> k) m"

abbreviation sorted_keys :: "jmap \<Rightarrow> bool" where
  "sorted_keys m \<equiv> sorted_wrt (<) (map fst m)"

text \<open>\<open>unstructured.NestedString\<close> with the found flag and the error ignored.\<close>

fun jpath :: "string list \<Rightarrow> json \<Rightarrow> json option" where
  "jpath [] v = Some v"
| "jpath (k # ks) (JMap m) = (case map_of m k of None \<Rightarrow> None | Some v \<Rightarrow> jpath ks v)"
| "jpath (k # ks) v = None"

definition jstring :: "string list \<Rightarrow> json \<Rightarrow> string" where
  "jstring ks v = (case jpath ks v of Some (JStr s) \<Rightarrow> s | _ \<Rightarrow> '''')"

fun canonical :: "json \<Rightarrow> bool" where
  "canonical (JList xs) = (\<forall>x\<in>set xs. canonical x)"
| "canonical (JMap m) = (sorted_keys m \<and> (\<forall>p\<in>set m. canonical (snd p)))"
| "canonical _ = True"

text \<open>Decoding into an \<open>interface{}\<close> turns every number into a float64, printed again on encoding.\<close>

fun renumber :: "(string \<Rightarrow> string) \<Rightarrow> json \<Rightarrow> json" where
  "renumber f (JNum s) = JNum (f s)"
| "renumber f (JList xs) = JList (map (renumber f) xs)"
| "renumber f (JMap m) = JMap (map (\<lambda>p. (fst p, renumber f (snd p))) m)"
| "renumber f v = v"

section \<open>Maps\<close>

locale sorted_map =
  fixes put :: "'k::linorder \<Rightarrow> 'v \<Rightarrow> ('k \<times> 'v) list \<Rightarrow> ('k \<times> 'v) list"
    and del :: "'k \<Rightarrow> ('k \<times> 'v) list \<Rightarrow> ('k \<times> 'v) list"
  assumes put_keys: "set (map fst (put k v m)) = insert k (set (map fst m))"
    and put_sorted: "sorted_wrt (<) (map fst m) \<Longrightarrow> sorted_wrt (<) (map fst (put k v m))"
    and put_lookup: "sorted_wrt (<) (map fst m) \<Longrightarrow> map_of (put k v m) = (map_of m)(k \<mapsto> v)"
    and put_entries: "set (put k v m) \<subseteq> insert (k, v) (set m)"
    and del_sorted: "sorted_wrt (<) (map fst m) \<Longrightarrow> sorted_wrt (<) (map fst (del k m))"
    and del_lookup: "map_of (del k m) = (map_of m)(k := None)"
    and del_entries: "set (del k m) \<subseteq> set m"
begin

text \<open>Two canonical maps with the same lookups are the same list.\<close>

lemma from_lookup: "sorted_wrt (<) (map fst m) \<Longrightarrow> m = map (\<lambda>k. (k, the (map_of m k))) (map fst m)"
  for m :: "('k \<times> 'v) list"
  by (auto simp: strict_sorted_iff intro!: map_idI [symmetric])

lemma lookup_unique:
  fixes m m' :: "('k \<times> 'v) list"
  assumes "sorted_wrt (<) (map fst m)" "sorted_wrt (<) (map fst m')" "map_of m = map_of m'"
  shows "m = m'"
proof -
  have "set (map fst m) = set (map fst m')" using assms(3) by (metis dom_map_of_conv_image_fst list.set_map)
  then have "map fst m = map fst m'" using assms(1,2) by (metis strict_sorted_equal)
  then show ?thesis using from_lookup [OF assms(1)] from_lookup [OF assms(2)] assms(3) by metis
qed

lemma put_same: "sorted_wrt (<) (map fst m) \<Longrightarrow> map_of m k = Some v \<Longrightarrow> put k v m = m"
  by (rule lookup_unique) (auto simp: put_sorted put_lookup)

lemma put_put: "sorted_wrt (<) (map fst m) \<Longrightarrow> put k v (put k w m) = put k v m"
  by (rule lookup_unique) (auto simp: put_sorted put_lookup)

lemma put_commute: "sorted_wrt (<) (map fst m) \<Longrightarrow> k \<noteq> l \<Longrightarrow> put k v (put l w m) = put l w (put k v m)"
  by (rule lookup_unique) (auto simp: put_sorted put_lookup)

end

lemma jput_keys: "set (map fst (jput k v m)) = insert k (set (map fst m))"
  by (induction k v m rule: jput.induct) auto

lemma jput_sorted: "sorted_keys m \<Longrightarrow> sorted_keys (jput k v m)"
proof (induction m)
  case (Cons p m)
  obtain k' v' where p: "p = (k', v')" by (cases p)
  have "\<forall>x\<in>set (map fst (jput k v m)). k' < x" if "k' < k" using that Cons.prems p jput_keys [of k v m] by auto
  then show ?case using Cons p by auto
qed simp

lemma jput_lookup: "sorted_keys m \<Longrightarrow> map_of (jput k v m) = (map_of m)(k \<mapsto> v)"
proof (induction m)
  case (Cons p m)
  obtain k' v' where p: "p = (k', v')" by (cases p)
  show ?case
  proof (cases "k < k'")
    case True
    then have "k \<notin> fst ` set (p # m)" using Cons.prems p by auto
    then show ?thesis using True p by (auto simp: fun_eq_iff)
  next
    case False
    then show ?thesis using Cons p by (auto simp: fun_eq_iff)
  qed
qed simp

lemma jput_entries: "set (jput k v m) \<subseteq> insert (k, v) (set m)"
  by (induction k v m rule: jput.induct) auto

lemma map_of_filter_key: "map_of (filter (\<lambda>(k', _). k' \<noteq> k) m) = (map_of m)(k := None)"
  by (induction m) auto

interpretation jmaps: sorted_map jput jdel
proof unfold_locales
  fix k :: string and m :: jmap
  show "sorted_keys m \<Longrightarrow> sorted_keys (jdel k m)"
    by (induction m) (auto simp: jdel_def)
  show "map_of (jdel k m) = (map_of m)(k := None)" by (simp add: jdel_def map_of_filter_key)
  show "set (jdel k m) \<subseteq> set m" by (auto simp: jdel_def)
qed (rule jput_keys jput_sorted jput_lookup jput_entries; assumption?)+

section \<open>Canonical values\<close>

lemma canonical_put: "canonical (JMap m) \<Longrightarrow> canonical v \<Longrightarrow> canonical (JMap (jput k v m))"
  using jmaps.put_sorted [of m k v] jmaps.put_entries [of k v m] by auto

lemma canonical_del: "canonical (JMap m) \<Longrightarrow> canonical (JMap (jdel k m))"
  using jmaps.del_sorted [of m k] jmaps.del_entries [of k m] by auto

lemma canonical_lookup: "canonical (JMap m) \<Longrightarrow> map_of m k = Some v \<Longrightarrow> canonical v"
  by (auto dest!: map_of_SomeD)

lemma renumber_keys [simp]: "map fst (map (\<lambda>p. (fst p, renumber f (snd p))) m) = map fst m"
  by (simp add: comp_def)

lemma canonical_renumber: "canonical v \<Longrightarrow> canonical (renumber f v)"
proof (induction v rule: canonical.induct)
  case (2 m)
  have "map fst (map (\<lambda>p. (fst p, renumber f (snd p))) m) = map fst m" by simp
  then show ?case using 2 by (simp del: map_map)
qed auto

lemma renumber_id: "(\<And>s. f (f s) = f s) \<Longrightarrow> renumber f (renumber f v) = renumber f v"
  by (induction v rule: canonical.induct) auto

lemma lookup_renumber: "map_of (map (\<lambda>p. (fst p, renumber f (snd p))) m) k = map_option (renumber f) (map_of m k)"
  by (induction m) auto

lemma jput_renumber:
  "map (\<lambda>p. (fst p, renumber f (snd p))) (jput k v m) = jput k (renumber f v) (map (\<lambda>p. (fst p, renumber f (snd p))) m)"
  by (induction k v m rule: jput.induct) auto

lemma jdel_renumber:
  "map (\<lambda>p. (fst p, renumber f (snd p))) (jdel k m) = jdel k (map (\<lambda>p. (fst p, renumber f (snd p))) m)"
  by (induction m) (auto simp: jdel_def)

end
