(* ===== verification/Names.thy ===== *)
theory Names
  imports Prelude
begin

text \<open>
  The names of generated objects (\<open>api/names/names.go\<close>): a prefix and truncated hexadecimal SHA-256
  digests of uids. The digest \<open>H\<close> (64 hexadecimal characters of a string) is an argument.
\<close>

abbreviation "PrefixChildSnapshot \<equiv> ''nss-snap-''"
abbreviation "PrefixContent \<equiv> ''nss-content-''"
abbreviation "PrefixManifestCapture \<equiv> ''nss-mcr-''"
abbreviation "PrefixManifestCP \<equiv> ''nss-mcp-''"
abbreviation "PrefixOrphanVS \<equiv> ''nss-vs-''"
abbreviation "PrefixVolumeCapture \<equiv> ''nss-vcr-''"
abbreviation "PrefixObjectKeeper \<equiv> ''nss-ok-''"
abbreviation "PrefixImportKeeper \<equiv> ''nss-import-ok-''"

definition hashHex :: "(string \<Rightarrow> string) \<Rightarrow> string \<Rightarrow> nat \<Rightarrow> string" where
  "hashHex H s n = take n (H s)"

definition h8 :: "(string \<Rightarrow> string) \<Rightarrow> string \<Rightarrow> string" where
  "h8 H s = hashHex H s 8"

definition h16 :: "(string \<Rightarrow> string) \<Rightarrow> string \<Rightarrow> string" where
  "h16 H s = hashHex H s 16"

definition ChildSnapshotName :: "(string \<Rightarrow> string) \<Rightarrow> string \<Rightarrow> string \<Rightarrow> string" where
  "ChildSnapshotName H parentSnapshotUID sourceUID =
     PrefixChildSnapshot @ h8 H parentSnapshotUID @ ''-'' @ h16 H sourceUID"

definition ContentName :: "(string \<Rightarrow> string) \<Rightarrow> string \<Rightarrow> string" where
  "ContentName H snapshotUID = PrefixContent @ h16 H snapshotUID"

definition ManifestCaptureRequestName :: "(string \<Rightarrow> string) \<Rightarrow> string \<Rightarrow> string" where
  "ManifestCaptureRequestName H snapshotUID = PrefixManifestCapture @ h16 H snapshotUID"

definition ManifestCheckpointName :: "(string \<Rightarrow> string) \<Rightarrow> string \<Rightarrow> string" where
  "ManifestCheckpointName H mcrUID = PrefixManifestCP @ h16 H mcrUID"

definition ChunkName :: "(string \<Rightarrow> string) \<Rightarrow> string \<Rightarrow> nat \<Rightarrow> string" where
  "ChunkName H mcpUID index = PrefixManifestCP @ h16 H mcpUID @ ''-'' @ show_nat index"

definition OrphanVolumeSnapshotName :: "(string \<Rightarrow> string) \<Rightarrow> string \<Rightarrow> string \<Rightarrow> string" where
  "OrphanVolumeSnapshotName H rootUID pvcUID = PrefixOrphanVS @ h8 H rootUID @ ''-'' @ h16 H pvcUID"

definition VolumeCaptureRequestName :: "(string \<Rightarrow> string) \<Rightarrow> string \<Rightarrow> string" where
  "VolumeCaptureRequestName H snapshotUID = PrefixVolumeCapture @ h16 H snapshotUID"

definition ObjectKeeperName :: "(string \<Rightarrow> string) \<Rightarrow> string \<Rightarrow> string" where
  "ObjectKeeperName H objUID = PrefixObjectKeeper @ h16 H objUID"

section \<open>Decimal numerals\<close>

lemma show_nat_ne: "show_nat n \<noteq> []"
  by (subst show_nat.simps) simp

lemma digit_inj: "i < 10 \<Longrightarrow> j < 10 \<Longrightarrow> char_of (48 + i) = (char_of (48 + j) :: char) \<longleftrightarrow> i = j" for i j :: nat
  by (simp add: char_of_eq_iff take_bit_eq_mod)

lemma show_nat_inj: "show_nat m = show_nat n \<Longrightarrow> m = n"
proof (induction m arbitrary: n rule: less_induct)
  case (less m)
  show ?case
  proof (cases "m < 10")
    case True
    then have m: "show_nat m = [char_of (48 + m)]" by (subst show_nat.simps) simp
    show ?thesis
    proof (cases "n < 10")
      case True
      then have "show_nat n = [char_of (48 + n)]" by (subst show_nat.simps) simp
      then show ?thesis using less.prems m \<open>m < 10\<close> True digit_inj by simp
    next
      case False
      then have "show_nat n = show_nat (n div 10) @ [char_of (48 + n mod 10)]" by (subst show_nat.simps) simp
      then show ?thesis using less.prems m show_nat_ne [of "n div 10"] by simp
    qed
  next
    case False
    then have m: "show_nat m = show_nat (m div 10) @ [char_of (48 + m mod 10)]" by (subst show_nat.simps) simp
    show ?thesis
    proof (cases "n < 10")
      case True
      then have "show_nat n = [char_of (48 + n)]" by (subst show_nat.simps) simp
      then show ?thesis using less.prems m show_nat_ne [of "m div 10"] by simp
    next
      case n: False
      then have "show_nat n = show_nat (n div 10) @ [char_of (48 + n mod 10)]" by (subst show_nat.simps) simp
      then have "show_nat (m div 10) = show_nat (n div 10)" "m mod 10 = n mod 10"
        using less.prems m digit_inj [of "m mod 10" "n mod 10"] by simp_all
      moreover have "m div 10 < m" using False by simp
      ultimately show ?thesis using less.IH [of "m div 10" "n div 10"] by (metis div_mult_mod_eq)
    qed
  qed
qed

lemma ChunkName_inj [simp]: "ChunkName H u i = ChunkName H u j \<longleftrightarrow> i = j"
  using show_nat_inj by (auto simp: ChunkName_def)

end
