(* ===== verification/Manifest_Chunks.thy ===== *)
theory Manifest_Chunks
  imports Json_Values Names Cluster_State
begin

text \<open>
  The write side of a manifest archive (\<open>manifestcapture/checkpoint_controller.go\<close>, \<open>createChunks\<close>):
  the objects of a checkpoint are normalised, packed greedily into chunks of bounded compressed size,
  and each chunk is created as an object of the cluster, or verified when it exists already.

  The encoders the code calls are the fields of a \<open>codec\<close>: the texts \<open>'t\<close> of \<open>encoding/json\<close>, the payloads
  \<open>'g\<close> of \<open>compress/gzip\<close> and the data \<open>'d\<close> of \<open>encoding/base64\<close>; \<open>codec_ok\<close> is what is relied on.
\<close>

record ('t, 'g, 'd) codec =
  cd_text :: "string \<Rightarrow> 't"
  cd_encode :: "json \<Rightarrow> 't option"
  cd_indent :: "json \<Rightarrow> 't option"
  cd_parse :: "'t \<Rightarrow> json option"
  cd_renum :: "string \<Rightarrow> string"
  cd_gzip :: "'t \<Rightarrow> string + 'g"
  cd_gunzip :: "'g \<Rightarrow> string + 't"
  cd_length :: "'g \<Rightarrow> nat"
  cd_base64 :: "'g \<Rightarrow> 'd"
  cd_unbase64 :: "'d \<Rightarrow> 'g option"
  cd_sha :: "'g \<Rightarrow> string"
  cd_sha_data :: "'d \<Rightarrow> string"
  cd_digest :: "string \<Rightarrow> string"
  cd_sprint :: "json \<Rightarrow> string"

definition codec_ok :: "('t, 'g, 'd) codec \<Rightarrow> bool" where
  "codec_ok c \<longleftrightarrow>
     (\<forall>v. canonical v \<longrightarrow> (\<exists>t. cd_encode c v = Some t \<and> cd_parse c t = Some v)) \<and>
     (\<forall>v. canonical v \<longrightarrow> (\<exists>t. cd_indent c v = Some t \<and> cd_parse c t = Some v)) \<and>
     cd_parse c (cd_text c ''[]'') = Some (JList []) \<and>
     (\<forall>s. cd_renum c (cd_renum c s) = cd_renum c s) \<and>
     (\<forall>t. \<exists>g. cd_gzip c t = Inr g \<and> cd_gunzip c g = Inr t) \<and>
     (\<forall>g. cd_unbase64 c (cd_base64 c g) = Some g)"

section \<open>Errors\<close>

text \<open>The error of an API write, and the error of a capture: terminal, or transient and retried.\<close>

datatype api_err = AlreadyExists | ErrNotFound | ErrInvalid string | ErrBadRequest string | ErrTooLarge string | ApiErr string

datatype capture_err = TerminalErr string | PlainErr string | ApiFailure string api_err

definition isTerminalCaptureError :: "capture_err \<Rightarrow> bool" where
  "isTerminalCaptureError e = (case e of TerminalErr _ \<Rightarrow> True | _ \<Rightarrow> False)"

definition chunkCreateErrorIsTerminal :: "api_err \<Rightarrow> bool" where
  "chunkCreateErrorIsTerminal e = (case e of
     ErrInvalid _ \<Rightarrow> True | ErrBadRequest _ \<Rightarrow> True | ErrTooLarge _ \<Rightarrow> True | _ \<Rightarrow> False)"

section \<open>Preparing an object\<close>

definition transientCaptureFinalizerDenylist :: "string list" where
  "transientCaptureFinalizerDenylist = [''snapshot.storage.kubernetes.io/pvc-as-source-protection'']"

definition denied_finalizer :: "json \<Rightarrow> bool" where
  "denied_finalizer f = (case f of JStr name \<Rightarrow> name \<in> set transientCaptureFinalizerDenylist | _ \<Rightarrow> False)"

definition stripTransientCaptureFinalizers :: "jmap \<Rightarrow> jmap" where
  "stripTransientCaptureFinalizers m = (case map_of m ''metadata'' of
     Some (JMap metaField) \<Rightarrow> (case map_of metaField ''finalizers'' of
         Some (JList raw) \<Rightarrow>
           let kept = filter (\<lambda>f. \<not> denied_finalizer f) raw in
           jput ''metadata'' (JMap (if kept = [] then jdel ''finalizers'' metaField
             else jput ''finalizers'' (JList kept) metaField)) m
       | _ \<Rightarrow> m)
   | _ \<Rightarrow> m)"

definition normalizeObjectForJSON :: "('t, 'g, 'd) codec \<Rightarrow> json \<Rightarrow> json" where
  "normalizeObjectForJSON c obj =
     (if obj = JNull then JNull
      else case cd_encode c obj of
        None \<Rightarrow> obj
      | Some t \<Rightarrow> (case cd_parse c t of None \<Rightarrow> obj | Some v \<Rightarrow> renumber (cd_renum c) v))"

definition prepare_object :: "('t, 'g, 'd) codec \<Rightarrow> json \<Rightarrow> json" where
  "prepare_object c obj =
     (case normalizeObjectForJSON c obj of
        JMap m \<Rightarrow> JMap (stripTransientCaptureFinalizers
          (jput ''kind'' (JStr (jstring [''kind''] obj)) (jput ''apiVersion'' (JStr (jstring [''apiVersion''] obj)) m)))
      | v \<Rightarrow> v)"

section \<open>Packing\<close>

definition compressed_size :: "('t, 'g, 'd) codec \<Rightarrow> json list \<Rightarrow> capture_err + nat" where
  "compressed_size c objs =
     (case cd_encode c (JList objs) of
        None \<Rightarrow> Inl (TerminalErr ''failed to marshal test chunk'')
      | Some t \<Rightarrow> (case cd_gzip c t of
          Inl _ \<Rightarrow> Inl (TerminalErr ''failed to compress test chunk'')
        | Inr g \<Rightarrow> Inr (cd_length c g)))"

text \<open>\<open>singleObjJSON, _ := json.Marshal(...)\<close>: the bytes are empty when the encoding fails.\<close>

definition oversized :: "('t, 'g, 'd) codec \<Rightarrow> int \<Rightarrow> json \<Rightarrow> bool" where
  "oversized c maxChunkSize obj =
     (case cd_gzip c (case cd_encode c (JList [obj]) of None \<Rightarrow> cd_text c '''' | Some t \<Rightarrow> t) of
        Inl _ \<Rightarrow> False
      | Inr g \<Rightarrow> int (cd_length c g) > maxChunkSize)"

fun split_loop :: "('t, 'g, 'd) codec \<Rightarrow> int \<Rightarrow> json list \<Rightarrow> json list list \<Rightarrow> json list \<Rightarrow>
    capture_err + json list list \<times> json list" where
  "split_loop c maxChunkSize [] chunks current = Inr (chunks, current)"
| "split_loop c maxChunkSize (obj # objs) chunks current =
     (case compressed_size c (current @ [obj]) of
        Inl x \<Rightarrow> Inl x
      | Inr n \<Rightarrow>
          if int n > maxChunkSize then
            (let (chunks, current) = (if current \<noteq> [] then (chunks @ [current], []) else (chunks, current)) in
             if oversized c maxChunkSize obj then split_loop c maxChunkSize objs (chunks @ [[obj]]) current
             else split_loop c maxChunkSize objs chunks (current @ [obj]))
          else split_loop c maxChunkSize objs chunks (current @ [obj]))"

definition split_objects :: "('t, 'g, 'd) codec \<Rightarrow> int \<Rightarrow> json list \<Rightarrow> capture_err + json list list" where
  "split_objects c maxChunkSize objs =
     (case split_loop c maxChunkSize objs [] [] of
        Inl x \<Rightarrow> Inl x
      | Inr (chunks, current) \<Rightarrow> Inr (if current \<noteq> [] then chunks @ [current] else chunks))"

section \<open>Chunks\<close>

record 'd chunk =
  ck_checkpoint :: string
  ck_index :: int
  ck_data :: 'd
  ck_count :: nat
  ck_checksum :: string
  ck_owner :: owner_ref

record chunk_info =
  ci_name :: string
  ci_index :: int
  ci_count :: nat
  ci_size :: nat
  ci_checksum :: string

text \<open>The chunks as reads see them and what a create of a name answers.\<close>

record 'd chunk_api =
  ca_get :: "string \<Rightarrow> 'd chunk get_res"
  ca_create :: "string \<Rightarrow> api_err option"

definition put_chunk :: "string \<Rightarrow> 'd chunk \<Rightarrow> 'd chunk_api \<Rightarrow> 'd chunk_api" where
  "put_chunk n ck a = a\<lparr>ca_get := (ca_get a)(n := Found ck), ca_create := (ca_create a)(n := Some AlreadyExists)\<rparr>"

definition calculateChunkChecksum :: "('t, 'g, 'd) codec \<Rightarrow> 'd \<Rightarrow> string" where
  "calculateChunkChecksum c d = (case cd_unbase64 c d of Some g \<Rightarrow> cd_sha c g | None \<Rightarrow> cd_sha_data c d)"

definition checkpoint_owner :: "string \<Rightarrow> string \<Rightarrow> owner_ref" where
  "checkpoint_owner checkpointName checkpointUID =
     \<lparr>or_apiVersion = ''state-snapshotter.deckhouse.io/v1alpha1'', or_kind = ''ManifestCheckpoint'',
      or_name = checkpointName, or_uid = checkpointUID, or_controller = Some True\<rparr>"

definition new_chunk :: "('t, 'g, 'd) codec \<Rightarrow> string \<Rightarrow> string \<Rightarrow> nat \<Rightarrow> nat \<Rightarrow> 'g \<Rightarrow> 'd chunk" where
  "new_chunk c checkpointName checkpointUID i objectsCount g =
     \<lparr>ck_checkpoint = checkpointName, ck_index = int i, ck_data = cd_base64 c g, ck_count = objectsCount,
      ck_checksum = calculateChunkChecksum c (cd_base64 c g), ck_owner = checkpoint_owner checkpointName checkpointUID\<rparr>"

definition chunk_info_of :: "('t, 'g, 'd) codec \<Rightarrow> string \<Rightarrow> nat \<Rightarrow> nat \<Rightarrow> 'g \<Rightarrow> chunk_info" where
  "chunk_info_of c checkpointUID i objectsCount g =
     \<lparr>ci_name = ChunkName (cd_digest c) checkpointUID i, ci_index = int i, ci_count = objectsCount,
      ci_size = cd_length c g, ci_checksum = calculateChunkChecksum c (cd_base64 c g)\<rparr>"

definition createEmptyChunk ::
  "('t, 'g, 'd) codec \<Rightarrow> string \<Rightarrow> string \<Rightarrow> 'd chunk_api \<Rightarrow> (capture_err + chunk_info list) \<times> 'd chunk_api" where
  "createEmptyChunk c checkpointName checkpointUID a =
     (case cd_gzip c (cd_text c ''[]'') of
        Inl _ \<Rightarrow> (Inl (TerminalErr ''failed to compress empty chunk''), a)
      | Inr g \<Rightarrow>
          let name = ChunkName (cd_digest c) checkpointUID 0; info = chunk_info_of c checkpointUID 0 0 g in
          case ca_create a name of
            None \<Rightarrow> (Inr [info], put_chunk name (new_chunk c checkpointName checkpointUID 0 0 g) a)
          | Some e \<Rightarrow>
              if e = AlreadyExists then (Inr [info], a)
              else if chunkCreateErrorIsTerminal e then (Inl (TerminalErr ''failed to create empty chunk''), a)
              else (Inl (ApiFailure ''failed to create empty chunk'' e), a))"

text \<open>An existing chunk is accepted when it is this chunk of this checkpoint with this checksum.\<close>

definition verify_chunk :: "string \<Rightarrow> nat \<Rightarrow> string \<Rightarrow> string \<Rightarrow> 'd chunk get_res \<Rightarrow> capture_err option" where
  "verify_chunk checkpointName i name checksum existing =
     (case existing of
        NotFound \<Rightarrow> Some (ApiFailure (''failed to get existing chunk '' @ name) ErrNotFound)
      | GetErr x \<Rightarrow> Some (ApiFailure (''failed to get existing chunk '' @ name) (ApiErr x))
      | Found ck \<Rightarrow>
          if ck_checkpoint ck = checkpointName \<and> ck_index ck = int i then
            (if ck_checksum ck \<noteq> checksum
             then Some (TerminalErr (''chunk '' @ name @ '' already exists but checksum mismatch''))
             else None)
          else Some (TerminalErr (''chunk '' @ name @ '' already exists but belongs to different checkpoint'')))"

definition create_chunk ::
  "('t, 'g, 'd) codec \<Rightarrow> string \<Rightarrow> string \<Rightarrow> nat \<Rightarrow> json list \<Rightarrow> 'd chunk_api \<Rightarrow> (capture_err + chunk_info) \<times> 'd chunk_api" where
  "create_chunk c checkpointName checkpointUID i objs a =
     (case cd_encode c (JList objs) of
        None \<Rightarrow> (Inl (TerminalErr (''failed to marshal chunk '' @ show_nat i)), a)
      | Some t \<Rightarrow> (case cd_gzip c t of
          Inl _ \<Rightarrow> (Inl (TerminalErr (''failed to compress chunk '' @ show_nat i)), a)
        | Inr g \<Rightarrow>
            let name = ChunkName (cd_digest c) checkpointUID i;
                ck = new_chunk c checkpointName checkpointUID i (length objs) g;
                info = chunk_info_of c checkpointUID i (length objs) g
            in case ca_create a name of
                 None \<Rightarrow> (Inr info, put_chunk name ck a)
               | Some e \<Rightarrow>
                   if e = AlreadyExists then
                     (case verify_chunk checkpointName i name (ck_checksum ck) (ca_get a name) of
                        Some x \<Rightarrow> (Inl x, a) | None \<Rightarrow> (Inr info, a))
                   else if chunkCreateErrorIsTerminal e then (Inl (TerminalErr (''failed to create chunk '' @ name)), a)
                   else (Inl (ApiFailure (''failed to create chunk '' @ name) e), a)))"

fun create_loop ::
  "('t, 'g, 'd) codec \<Rightarrow> string \<Rightarrow> string \<Rightarrow> nat \<Rightarrow> json list list \<Rightarrow> 'd chunk_api \<Rightarrow>
   (capture_err + chunk_info list) \<times> 'd chunk_api" where
  "create_loop c checkpointName checkpointUID i [] a = (Inr [], a)"
| "create_loop c checkpointName checkpointUID i (objs # rest) a =
     (case create_chunk c checkpointName checkpointUID i objs a of
        (Inl x, a') \<Rightarrow> (Inl x, a')
      | (Inr info, a') \<Rightarrow> (case create_loop c checkpointName checkpointUID (Suc i) rest a' of
          (Inl x, a'') \<Rightarrow> (Inl x, a'')
        | (Inr infos, a'') \<Rightarrow> (Inr (info # infos), a'')))"

definition createChunks ::
  "('t, 'g, 'd) codec \<Rightarrow> int \<Rightarrow> string \<Rightarrow> string \<Rightarrow> json list \<Rightarrow> 'd chunk_api \<Rightarrow>
   (capture_err + chunk_info list) \<times> 'd chunk_api" where
  "createChunks c maxChunkSize checkpointName checkpointUID objects a =
     (if objects = [] then createEmptyChunk c checkpointName checkpointUID a
      else case split_objects c maxChunkSize (map (prepare_object c) objects) of
        Inl x \<Rightarrow> (Inl x, a)
      | Inr chunks \<Rightarrow> create_loop c checkpointName checkpointUID 0 chunks a)"

end
