(* ===== verification/Archive_Read.thy ===== *)
theory Archive_Read
  imports Manifest_Chunks Conditions
begin

text \<open>
  The read side of a manifest archive (\<open>usecase/archive_service.go\<close>): the chunks of a checkpoint are
  checked, read by concurrent workers, decoded and merged; the merged archive is cached.

  The workers append to one slice under a lock, so the order of the result is the order of their
  completion: a rearrangement \<open>schedule\<close> of the chunks, which is an argument.
\<close>

datatype archive_error =
    NotReady | ObjectLimit int nat | NoChunks string | IndexSequence int int
  | ChunkMissing string | ChunkRead string string | ForeignChunk string string | IndexMismatch string int int
  | BadBase64 string | ChecksumMismatch string string string | BadGzip string | BadJson string | NilItemPanic string
  | BadArchive

section \<open>Lists of Key/Value pairs\<close>

text \<open>A \<open>yaml.MapSlice\<close> is recognised after decoding as a list whose first element is a map with both keys.\<close>

definition kv_list :: "json list \<Rightarrow> bool" where
  "kv_list xs = (case xs of JMap m # _ \<Rightarrow> map_of m ''Key'' \<noteq> None \<and> map_of m ''Value'' \<noteq> None | _ \<Rightarrow> False)"

definition key_string :: "('t, 'g, 'd) codec \<Rightarrow> json \<Rightarrow> string" where
  "key_string c k = (case k of JStr s \<Rightarrow> s | _ \<Rightarrow> cd_sprint c k)"

fun kv_pairs :: "('t, 'g, 'd) codec \<Rightarrow> json list \<Rightarrow> (string \<times> json) list" where
  "kv_pairs c [] = []"
| "kv_pairs c (JMap m # xs) = (case (map_of m ''Key'', map_of m ''Value'') of
     (Some k, Some v) \<Rightarrow> (key_string c k, v) # kv_pairs c xs
   | _ \<Rightarrow> kv_pairs c xs)"
| "kv_pairs c (_ # xs) = kv_pairs c xs"

lemma map_of_size: "map_of m k = Some v \<Longrightarrow> size v \<le> size_list (size_prod (\<lambda>_. 0) size) m"
  by (induction m) (auto split: if_splits)

lemma kv_pairs_size: "(k, v) \<in> set (kv_pairs c xs) \<Longrightarrow> size v \<le> size_list size xs"
proof (induction xs)
  case (Cons x xs)
  then show ?case by (cases x) (auto split: option.splits dest!: map_of_size)
qed simp

lemma item_size: "x \<in> set xs \<Longrightarrow> size x \<le> size_list size xs" for x :: json
  by (induction xs) auto

lemma entry_size: "(k, v) \<in> set m \<Longrightarrow> size v \<le> size_list (size_prod (\<lambda>_. 0) size) m" for v :: json
  by (induction m) auto

function convertMapSliceToMap :: "('t, 'g, 'd) codec \<Rightarrow> json \<Rightarrow> json" where
  "convertMapSliceToMap c (JList xs) =
     (if kv_list xs
      then JMap (fold (\<lambda>p m. jput (fst p) (convertMapSliceToMap c (snd p)) m) (kv_pairs c xs) [])
      else JList (map (convertMapSliceToMap c) xs))"
| "convertMapSliceToMap c (JMap m) = JMap (map (\<lambda>p. (fst p, convertMapSliceToMap c (snd p))) m)"
| "convertMapSliceToMap c JNull = JNull"
| "convertMapSliceToMap c (JBool b) = JBool b"
| "convertMapSliceToMap c (JNum n) = JNum n"
| "convertMapSliceToMap c (JStr s) = JStr s"
  by pat_completeness auto
termination
  by (relation "measure (size \<circ> snd)") (auto simp: less_Suc_eq_le intro: kv_pairs_size entry_size item_size)

definition convertKeyValueArrayToMap :: "('t, 'g, 'd) codec \<Rightarrow> json list \<Rightarrow> jmap" where
  "convertKeyValueArrayToMap c xs =
     fold (\<lambda>p m. jput (fst p) (convertMapSliceToMap c (snd p)) m) (kv_pairs c xs) []"

section \<open>Decoding a chunk\<close>

text \<open>
  An item that is neither a list nor a map is skipped with a warning that prints its type:
  \<open>reflect.TypeOf(nil).String()\<close> on a null item is a nil dereference.
\<close>

fun decode_items :: "('t, 'g, 'd) codec \<Rightarrow> string \<Rightarrow> json list \<Rightarrow> archive_error + json list" where
  "decode_items c chunkName [] = Inr []"
| "decode_items c chunkName (item # items) =
     (if item = JNull then Inl (NilItemPanic chunkName)
      else case decode_items c chunkName items of
        Inl x \<Rightarrow> Inl x
      | Inr objs \<Rightarrow> (case item of
          JList arr \<Rightarrow> Inr (JMap (convertKeyValueArrayToMap c arr) # objs)
        | JMap m \<Rightarrow> Inr (convertMapSliceToMap c item # objs)
        | _ \<Rightarrow> Inr objs))"

definition unmarshal_array :: "('t, 'g, 'd) codec \<Rightarrow> 't \<Rightarrow> json list option" where
  "unmarshal_array c t = (case cd_parse c t of
     Some (JList xs) \<Rightarrow> Some (map (renumber (cd_renum c)) xs) | Some JNull \<Rightarrow> Some [] | _ \<Rightarrow> None)"

definition decodeChunkDataWithChecksum ::
  "('t, 'g, 'd) codec \<Rightarrow> 'd \<Rightarrow> string \<Rightarrow> string \<Rightarrow> archive_error + json list" where
  "decodeChunkDataWithChecksum c encodedData expectedChecksum chunkName =
     (case cd_unbase64 c encodedData of
        None \<Rightarrow> Inl (BadBase64 chunkName)
      | Some g \<Rightarrow>
          if expectedChecksum \<noteq> '''' \<and> cd_sha c g \<noteq> expectedChecksum
          then Inl (ChecksumMismatch chunkName expectedChecksum (cd_sha c g))
          else case cd_gunzip c g of
            Inl _ \<Rightarrow> Inl (BadGzip chunkName)
          | Inr t \<Rightarrow> (case unmarshal_array c t of
              None \<Rightarrow> Inl (BadJson chunkName)
            | Some items \<Rightarrow> decode_items c chunkName items))"

section \<open>Collecting a checkpoint\<close>

record checkpoint =
  mc_name :: string
  mc_uid :: string
  mc_conditions :: "condition list"
  mc_owner_refs :: "owner_ref list"
  mc_chunks :: "chunk_info list"
  mc_total_objects :: nat
  mc_total_size :: nat
  mc_labels :: "string \<rightharpoonup> string"

definition info_less :: "chunk_info \<Rightarrow> chunk_info \<Rightarrow> bool" where
  "info_less a b = (ci_index a < ci_index b)"

fun first_gap :: "nat \<Rightarrow> chunk_info list \<Rightarrow> archive_error option" where
  "first_gap i [] = None"
| "first_gap i (info # infos) =
     (if ci_index info \<noteq> int i then Some (IndexSequence (int i) (ci_index info)) else first_gap (Suc i) infos)"

definition read_chunk ::
  "('t, 'g, 'd) codec \<Rightarrow> (string \<Rightarrow> 'd chunk get_res) \<Rightarrow> string \<Rightarrow> chunk_info \<Rightarrow> archive_error + json list" where
  "read_chunk c get checkpointName info =
     (case get (ci_name info) of
        NotFound \<Rightarrow> Inl (ChunkMissing (ci_name info))
      | GetErr x \<Rightarrow> Inl (ChunkRead (ci_name info) x)
      | Found ck \<Rightarrow>
          if ck_checkpoint ck \<noteq> checkpointName then Inl (ForeignChunk (ci_name info) (ck_checkpoint ck))
          else if ck_index ck \<noteq> ci_index info then Inl (IndexMismatch (ci_name info) (ci_index info) (ck_index ck))
          else decodeChunkDataWithChecksum c (ck_data ck) (ci_checksum info) (ci_name info))"

fun read_all ::
  "('t, 'g, 'd) codec \<Rightarrow> (string \<Rightarrow> 'd chunk get_res) \<Rightarrow> string \<Rightarrow> chunk_info list \<Rightarrow> archive_error + json list" where
  "read_all c get checkpointName [] = Inr []"
| "read_all c get checkpointName (info # infos) =
     (case read_chunk c get checkpointName info of
        Inl x \<Rightarrow> Inl x
      | Inr objs \<Rightarrow> (case read_all c get checkpointName infos of Inl x \<Rightarrow> Inl x | Inr rest \<Rightarrow> Inr (objs @ rest)))"

definition collectObjectsFromCheckpoint ::
  "('t, 'g, 'd) codec \<Rightarrow> (chunk_info list \<Rightarrow> chunk_info list) \<Rightarrow> (string \<Rightarrow> 'd chunk get_res) \<Rightarrow> string \<Rightarrow>
   chunk_info list \<Rightarrow> archive_error + json list" where
  "collectObjectsFromCheckpoint c schedule get checkpointName infos =
     (let chunks = sort_slice info_less infos in
      if chunks = [] then Inl (NoChunks checkpointName)
      else case first_gap 0 chunks of
        Some x \<Rightarrow> Inl x
      | None \<Rightarrow> read_all c get checkpointName (schedule chunks))"

definition createJSONArchive :: "('t, 'g, 'd) codec \<Rightarrow> json list \<Rightarrow> 't option" where
  "createJSONArchive c objects = cd_indent c (JList (map (convertMapSliceToMap c) objects))"

section \<open>The cache\<close>

text \<open>Times are in seconds; \<open>cd_hash\<close> is the checksum of an archive text.\<close>

record 't cache_item =
  it_data :: 't
  it_checksum :: string
  it_created :: int
  it_ttl :: int

type_synonym 't archive_cache = "string \<Rightarrow> 't cache_item option"

definition GetCacheKey :: "string \<Rightarrow> string \<Rightarrow> string" where
  "GetCacheKey checkpointName checkpointUID = checkpointName @ '':'' @ checkpointUID"

definition cache_get :: "int \<Rightarrow> 't archive_cache \<Rightarrow> string \<Rightarrow> 't cache_item option" where
  "cache_get time cache key = (case cache key of
     None \<Rightarrow> None | Some item \<Rightarrow> if time - it_created item > it_ttl item then None else Some item)"

definition CleanupExpired :: "int \<Rightarrow> 't archive_cache \<Rightarrow> 't archive_cache" where
  "CleanupExpired time cache = (\<lambda>key. case cache key of
     None \<Rightarrow> None | Some item \<Rightarrow> if time - it_created item > it_ttl item then None else Some item)"

abbreviation "maxObjectsPerCheckpoint \<equiv> (10000 :: nat)"

definition GetArchiveFromCheckpoint ::
  "('t, 'g, 'd) codec \<Rightarrow> ('t \<Rightarrow> string) \<Rightarrow> env \<Rightarrow> int \<Rightarrow> (chunk_info list \<Rightarrow> chunk_info list) \<Rightarrow>
   (string \<Rightarrow> 'd chunk get_res) \<Rightarrow> checkpoint \<Rightarrow> string \<Rightarrow> string \<Rightarrow> 't archive_cache \<Rightarrow>
   (archive_error + 't \<times> string) \<times> 't archive_cache" where
  "GetArchiveFromCheckpoint c hash e time schedule get checkpoint reqName reqUID cache =
     (case cache_get time cache (GetCacheKey reqName reqUID) of
        Some item \<Rightarrow> (Inr (it_data item, it_checksum item), cache)
      | None \<Rightarrow>
        if (case find_condition e (mc_conditions checkpoint) ConditionReady of
              None \<Rightarrow> True | Some rc \<Rightarrow> co_status rc \<noteq> ConditionTrue) then (Inl NotReady, cache)
        else if mc_total_objects checkpoint > maxObjectsPerCheckpoint
        then (Inl (ObjectLimit (int (mc_total_objects checkpoint)) maxObjectsPerCheckpoint), cache)
        else case collectObjectsFromCheckpoint c schedule get reqName (mc_chunks checkpoint) of
          Inl x \<Rightarrow> (Inl x, cache)
        | Inr objects \<Rightarrow>
          (case createJSONArchive c objects of
             None \<Rightarrow> (Inl BadArchive, cache)
           | Some archiveData \<Rightarrow>
               (Inr (archiveData, hash archiveData),
                cache(GetCacheKey reqName (mc_uid checkpoint) \<mapsto>
                  \<lparr>it_data = archiveData, it_checksum = hash archiveData, it_created = time, it_ttl = 300\<rparr>))))"

end
