(* ===== verification/Manifest_Capture.thy ===== *)
theory Manifest_Capture
  imports Archive_Read Owner_Refs Manifest_Targets
begin

text \<open>
  The controller of a ManifestCaptureRequest (\<open>manifestcapture/checkpoint_controller.go\<close>): it collects
  the targets, creates an execution ObjectKeeper and a ManifestCheckpoint, writes the chunks, and reports
  the request complete once a SnapshotContent owns the checkpoint.

  A pass works on a \<open>world\<close> (the request it was called for, the keepers, the checkpoints, the chunks and
  the loaded configuration) against an \<open>outside\<close>: the functions of other packages, the live objects, and
  the answers of the API server. The \<open>n\<close>-th call of a pass fails when \<open>os_fault\<close> says so; \<open>ErrNotFound\<close> for an
  object that exists is a stale cache. A failed write has no effect. A write of another controller during
  a pass is an answer that reports the conflict.
\<close>

abbreviation "ReasonProcessing \<equiv> ''Processing''"
abbreviation "MCRCompleted \<equiv> ''Completed''"
abbreviation "MCRFailed \<equiv> ''Failed''"
abbreviation "labelKeySourceRequest \<equiv> ''state-snapshotter.deckhouse.io/source-request''"
abbreviation "labelKeySourceRequestNamespace \<equiv> ''state-snapshotter.deckhouse.io/source-request-namespace''"

section \<open>State\<close>

record request =
  q_namespace :: string
  q_name :: string
  q_uid :: string
  q_targets :: "manifest_target list"
  q_checkpoint_name :: string
  q_completion :: "int option"
  q_conditions :: "condition list"

record keeper =
  kp_uid :: string
  kp_follow :: "string option"

record config =
  MaxChunkSizeBytes :: int
  DefaultTTL :: int

record 'd world =
  wd_request :: "request option"
  wd_keepers :: "string \<Rightarrow> keeper option"
  wd_checkpoints :: "string \<Rightarrow> checkpoint option"
  wd_chunks :: "string \<Rightarrow> 'd chunk option"
  wd_config :: config
  wd_calls :: nat

record ('t, 'g, 'd) outside =
  os_env :: env
  os_codec :: "('t, 'g, 'd) codec"
  os_now :: string
  os_clock :: int
  os_fault :: "nat \<Rightarrow> api_err option"
  os_chunk_fault :: "string \<Rightarrow> api_err option"
  os_chunk_read :: "string \<Rightarrow> string option"
  os_uid :: "string \<Rightarrow> string"
  os_scope :: "gvk \<Rightarrow> api_err + bool"
  os_object :: "gvk \<Rightarrow> string \<Rightarrow> string \<Rightarrow> api_err + json"
  os_config_map :: "(string \<rightharpoonup> string) get_res"
  os_parse_int :: "string \<Rightarrow> int option"
  os_parse_duration :: "string \<Rightarrow> int option"

datatype outcome = Done | RequeueMs nat | ReconcileErr capture_err

section \<open>Calls\<close>

definition served :: "('t, 'g, 'd) outside \<Rightarrow> 'd world \<Rightarrow> api_err option \<times> 'd world" where
  "served os w = (os_fault os (wd_calls w), w\<lparr>wd_calls := Suc (wd_calls w)\<rparr>)"

definition get_request :: "('t, 'g, 'd) outside \<Rightarrow> 'd world \<Rightarrow> (api_err + request) \<times> 'd world" where
  "get_request os w = (case served os w of
     (Some x, w') \<Rightarrow> (Inl x, w')
   | (None, w') \<Rightarrow> ((case wd_request w of None \<Rightarrow> Inl ErrNotFound | Some q \<Rightarrow> Inr q), w'))"

text \<open>A status write keeps the metadata and the spec of the stored object.\<close>

definition with_status :: "request \<Rightarrow> request \<Rightarrow> request" where
  "with_status q s = q\<lparr>q_checkpoint_name := q_checkpoint_name s, q_completion := q_completion s,
     q_conditions := q_conditions s\<rparr>"

definition write_request ::
  "('t, 'g, 'd) outside \<Rightarrow> request \<Rightarrow> 'd world \<Rightarrow> api_err option \<times> 'd world" where
  "write_request os q w = (case served os w of
     (Some x, w') \<Rightarrow> (Some x, w')
   | (None, w') \<Rightarrow> (case wd_request w of
       None \<Rightarrow> (Some ErrNotFound, w')
     | Some q0 \<Rightarrow> (None, w'\<lparr>wd_request := Some (with_status q0 q)\<rparr>)))"

definition get_keeper :: "('t, 'g, 'd) outside \<Rightarrow> string \<Rightarrow> 'd world \<Rightarrow> (api_err + keeper) \<times> 'd world" where
  "get_keeper os n w = (case served os w of
     (Some x, w') \<Rightarrow> (Inl x, w')
   | (None, w') \<Rightarrow> ((case wd_keepers w n of None \<Rightarrow> Inl ErrNotFound | Some k \<Rightarrow> Inr k), w'))"

definition create_keeper ::
  "('t, 'g, 'd) outside \<Rightarrow> string \<Rightarrow> string \<Rightarrow> 'd world \<Rightarrow> api_err option \<times> 'd world" where
  "create_keeper os n follow w = (case served os w of
     (Some x, w') \<Rightarrow> (Some x, w')
   | (None, w') \<Rightarrow> if wd_keepers w n \<noteq> None then (Some AlreadyExists, w')
       else (None, w'\<lparr>wd_keepers := (wd_keepers w')(n \<mapsto> \<lparr>kp_uid = os_uid os n, kp_follow = Some follow\<rparr>)\<rparr>))"

definition get_checkpoint :: "('t, 'g, 'd) outside \<Rightarrow> string \<Rightarrow> 'd world \<Rightarrow> (api_err + checkpoint) \<times> 'd world" where
  "get_checkpoint os n w = (case served os w of
     (Some x, w') \<Rightarrow> (Inl x, w')
   | (None, w') \<Rightarrow> ((case wd_checkpoints w n of None \<Rightarrow> Inl ErrNotFound | Some cp \<Rightarrow> Inr cp), w'))"

definition create_checkpoint ::
  "('t, 'g, 'd) outside \<Rightarrow> checkpoint \<Rightarrow> 'd world \<Rightarrow> (api_err + checkpoint) \<times> 'd world" where
  "create_checkpoint os cp w = (case served os w of
     (Some x, w') \<Rightarrow> (Inl x, w')
   | (None, w') \<Rightarrow> if wd_checkpoints w (mc_name cp) \<noteq> None then (Inl AlreadyExists, w')
       else let cp' = cp\<lparr>mc_uid := os_uid os (mc_name cp)\<rparr>
            in (Inr cp', w'\<lparr>wd_checkpoints := (wd_checkpoints w')(mc_name cp \<mapsto> cp')\<rparr>))"

definition write_checkpoint ::
  "('t, 'g, 'd) outside \<Rightarrow> checkpoint \<Rightarrow> 'd world \<Rightarrow> api_err option \<times> 'd world" where
  "write_checkpoint os cp w = (case served os w of
     (Some x, w') \<Rightarrow> (Some x, w')
   | (None, w') \<Rightarrow> (case wd_checkpoints w (mc_name cp) of
       None \<Rightarrow> (Some ErrNotFound, w')
     | Some cp0 \<Rightarrow> (None, w'\<lparr>wd_checkpoints := (wd_checkpoints w')(mc_name cp \<mapsto>
         cp0\<lparr>mc_conditions := mc_conditions cp, mc_chunks := mc_chunks cp,
             mc_total_objects := mc_total_objects cp, mc_total_size := mc_total_size cp\<rparr>)\<rparr>)))"

text \<open>The chunks as \<open>createChunks\<close> meets them, and what it leaves.\<close>

definition chunk_view :: "('t, 'g, 'd) outside \<Rightarrow> 'd world \<Rightarrow> 'd chunk_api" where
  "chunk_view os w = \<lparr>
     ca_get = (\<lambda>n. case os_chunk_read os n of
        Some x \<Rightarrow> GetErr x
      | None \<Rightarrow> (case wd_chunks w n of None \<Rightarrow> NotFound | Some ck \<Rightarrow> Found ck)),
     ca_create = (\<lambda>n. case os_chunk_fault os n of
        Some x \<Rightarrow> Some x
      | None \<Rightarrow> if wd_chunks w n = None then None else Some AlreadyExists)\<rparr>"

definition store_chunks :: "'d chunk_api \<Rightarrow> 'd world \<Rightarrow> 'd world" where
  "store_chunks a w = w\<lparr>wd_chunks := (\<lambda>n. case ca_get a n of Found ck \<Rightarrow> Some ck | _ \<Rightarrow> wd_chunks w n)\<rparr>"

section \<open>Configuration\<close>

definition LoadFromConfigMap ::
  "('t, 'g, 'd) outside \<Rightarrow> (string \<rightharpoonup> string) \<Rightarrow> config \<Rightarrow> config" where
  "LoadFromConfigMap os data opts =
     (let opts = (case data ''maxChunkSizeBytes'' of
            None \<Rightarrow> opts
          | Some val \<Rightarrow> (case os_parse_int os val of
              None \<Rightarrow> opts | Some sz \<Rightarrow> if sz > 0 then opts\<lparr>MaxChunkSizeBytes := sz\<rparr> else opts))
      in case data ''defaultTTL'' of
           None \<Rightarrow> opts
         | Some val \<Rightarrow> (case os_parse_duration os val of
             None \<Rightarrow> opts | Some duration \<Rightarrow> if duration > 0 then opts\<lparr>DefaultTTL := duration\<rparr> else opts))"

definition loadConfigFromConfigMap :: "('t, 'g, 'd) outside \<Rightarrow> 'd world \<Rightarrow> 'd world" where
  "loadConfigFromConfigMap os w = (case os_config_map os of
     Found data \<Rightarrow> w\<lparr>wd_config := LoadFromConfigMap os data (wd_config w)\<rparr> | _ \<Rightarrow> w)"

section \<open>Conditions of the request and the checkpoint\<close>

definition setSingleCondition :: "env \<Rightarrow> condition list \<Rightarrow> condition \<Rightarrow> condition list" where
  "setSingleCondition e conds c = put_condition e (remove_condition e conds (co_type c)) c"

definition ready_condition :: "string \<Rightarrow> string \<Rightarrow> string \<Rightarrow> string \<Rightarrow> condition" where
  "ready_condition status reason message time =
     \<lparr>co_type = ConditionReady, co_status = status, co_reason = reason, co_message = message, co_gen = 0, co_time = time\<rparr>"

definition isTerminal :: "env \<Rightarrow> request \<Rightarrow> bool" where
  "isTerminal e q = (case find_condition e (q_conditions q) ConditionReady of
     None \<Rightarrow> False
   | Some c \<Rightarrow> if co_reason c = ReasonProcessing then False
       else co_status c = ConditionTrue \<or> co_reason c = MCRFailed)"

definition processing :: "env \<Rightarrow> condition list \<Rightarrow> bool" where
  "processing e conds = (case find_condition e conds ConditionReady of
     None \<Rightarrow> False | Some c \<Rightarrow> co_reason c = ReasonProcessing)"

definition manifestCheckpointDoneOrFailed :: "env \<Rightarrow> checkpoint \<Rightarrow> bool" where
  "manifestCheckpointDoneOrFailed e cp = (case find_condition e (mc_conditions cp) ConditionReady of
     None \<Rightarrow> False
   | Some c \<Rightarrow> co_status c = ConditionTrue \<or> (co_status c = ConditionFalse \<and> co_reason c = MCRFailed))"

definition manifestCheckpointOwnedBySnapshotContent :: "checkpoint \<Rightarrow> bool" where
  "manifestCheckpointOwnedBySnapshotContent cp = list_ex (\<lambda>ref. content_ref ref \<and> or_name ref \<noteq> '''') (mc_owner_refs cp)"

definition mapManifestCheckpointToMCR :: "checkpoint \<Rightarrow> (string \<times> string) list" where
  "mapManifestCheckpointToMCR cp =
     (let name = (case mc_labels cp labelKeySourceRequest of None \<Rightarrow> '''' | Some v \<Rightarrow> v);
          namespace = (case mc_labels cp labelKeySourceRequestNamespace of None \<Rightarrow> '''' | Some v \<Rightarrow> v)
      in if name = '''' \<or> namespace = '''' then [] else [(namespace, name)])"

section \<open>Status of the request\<close>

text \<open>
  \<open>retry.RetryOnConflict\<close> is its last run. A function that also changes the local copy of the request
  returns it.
\<close>

definition set_processing :: "('t, 'g, 'd) outside \<Rightarrow> string \<Rightarrow> string \<Rightarrow> request \<Rightarrow> request" where
  "set_processing os message time q = q\<lparr>q_conditions := setSingleCondition (os_env os) (q_conditions q)
     (ready_condition ConditionFalse ReasonProcessing message time)\<rparr>"

definition start_processing ::
  "('t, 'g, 'd) outside \<Rightarrow> request \<Rightarrow> 'd world \<Rightarrow> (api_err + request) \<times> 'd world" where
  "start_processing os q w =
     (if processing (os_env os) (q_conditions q) then (Inr q, w)
      else case get_request os w of
        (Inl x, w) \<Rightarrow> (Inl x, w)
      | (Inr current, w) \<Rightarrow>
          if processing (os_env os) (q_conditions current) then (Inr (with_status q current), w)
          else let current = set_processing os ''Operation started'' (os_now os) current in
            case write_request os current w of
              (Some x, w) \<Rightarrow> (Inl x, w)
            | (None, w) \<Rightarrow> (Inr (with_status q current), w))"

definition store_message :: "('t, 'g, 'd) outside \<Rightarrow> string \<Rightarrow> 'd world \<Rightarrow> api_err option \<times> 'd world" where
  "store_message os message w =
     (case get_request os w of
        (Inl x, w) \<Rightarrow> (Some x, w)
      | (Inr current, w) \<Rightarrow>
          (case find_condition (os_env os) (q_conditions current) ConditionReady of
             None \<Rightarrow> (None, w)
           | Some c \<Rightarrow> if co_reason c \<noteq> ReasonProcessing then (None, w)
               else write_request os (set_processing os message (co_time c) current) w))"

definition updateProcessingMessage ::
  "('t, 'g, 'd) outside \<Rightarrow> request \<Rightarrow> string \<Rightarrow> 'd world \<Rightarrow> request \<times> 'd world" where
  "updateProcessingMessage os q message w =
     (case find_condition (os_env os) (q_conditions q) ConditionReady of
        None \<Rightarrow> (q, w)
      | Some c \<Rightarrow>
          if co_reason c \<noteq> ReasonProcessing then (q, w)
          else (set_processing os message (co_time c) q, snd (store_message os message w)))"

definition finalizeMCR ::
  "('t, 'g, 'd) outside \<Rightarrow> request \<Rightarrow> string \<Rightarrow> string \<Rightarrow> string \<Rightarrow> 'd world \<Rightarrow> capture_err option \<times> 'd world" where
  "finalizeMCR os q status reason message w =
     (let reason = (if status = ConditionTrue then MCRCompleted
            else if status = ConditionFalse \<and> (reason = '''' \<or> reason = MCRCompleted) then MCRFailed else reason);
          q = q\<lparr>q_completion := (case q_completion q of None \<Rightarrow> Some (os_clock os) | Some t \<Rightarrow> Some t),
                q_conditions := setSingleCondition (os_env os) (q_conditions q)
                  (ready_condition status reason message (os_now os))\<rparr>
      in case get_request os w of
           (Inl x, w) \<Rightarrow> (if x = ErrNotFound then None else Some (ApiFailure ''failed to update MCR status'' x), w)
         | (Inr current, w) \<Rightarrow>
             (case write_request os (with_status current q) w of
                (None, w) \<Rightarrow> (None, w)
              | (Some x, w) \<Rightarrow>
                  (if x = ErrNotFound then None else Some (ApiFailure ''failed to update MCR status'' x), w)))"

definition markMCRCheckpointPendingHandoff ::
  "('t, 'g, 'd) outside \<Rightarrow> string \<Rightarrow> string \<Rightarrow> 'd world \<Rightarrow> api_err option \<times> 'd world" where
  "markMCRCheckpointPendingHandoff os checkpointName message w =
     (case get_request os w of
        (Inl x, w) \<Rightarrow> (Some x, w)
      | (Inr current, w) \<Rightarrow>
          let transitionTime = (case find_condition (os_env os) (q_conditions current) ConditionReady of
                None \<Rightarrow> os_now os
              | Some c \<Rightarrow> if co_reason c = ReasonProcessing then co_time c else os_now os)
          in write_request os (set_processing os message transitionTime (current\<lparr>q_checkpoint_name := checkpointName\<rparr>)) w)"

text \<open>The end of a pass that finalizes: \<open>return ctrl.Result{}, ferr\<close> or the given outcome.\<close>

definition finalize_then ::
  "('t, 'g, 'd) outside \<Rightarrow> request \<Rightarrow> string \<Rightarrow> string \<Rightarrow> string \<Rightarrow> outcome \<Rightarrow> 'd world \<Rightarrow> outcome \<times> 'd world" where
  "finalize_then os q status reason message r w =
     (case finalizeMCR os q status reason message w of (Some x, w) \<Rightarrow> (ReconcileErr x, w) | (None, w) \<Rightarrow> (r, w))"

definition pending_then ::
  "('t, 'g, 'd) outside \<Rightarrow> string \<Rightarrow> string \<Rightarrow> outcome \<Rightarrow> 'd world \<Rightarrow> outcome \<times> 'd world" where
  "pending_then os checkpointName message r w =
     (case markMCRCheckpointPendingHandoff os checkpointName message w of
        (Some x, w) \<Rightarrow> (ReconcileErr (ApiFailure ''status update'' x), w) | (None, w) \<Rightarrow> (r, w))"

definition finalizeMCRIfCheckpointHandedOff ::
  "('t, 'g, 'd) outside \<Rightarrow> request \<Rightarrow> checkpoint \<Rightarrow> 'd world \<Rightarrow> outcome \<times> 'd world" where
  "finalizeMCRIfCheckpointHandedOff os q cp w =
     (case find_condition (os_env os) (mc_conditions cp) ConditionReady of
        None \<Rightarrow> pending_then os (mc_name cp) (''Checkpoint '' @ mc_name cp @ '' has no Ready condition yet'') (RequeueMs 500) w
      | Some ready \<Rightarrow>
          if co_status ready = ConditionFalse \<and> co_reason ready = MCRFailed
          then finalize_then os (q\<lparr>q_checkpoint_name := mc_name cp\<rparr>) ConditionFalse MCRFailed (co_message ready) Done w
          else if co_status ready \<noteq> ConditionTrue
          then pending_then os (mc_name cp) (co_message ready) (RequeueMs 500) w
          else if \<not> manifestCheckpointOwnedBySnapshotContent cp
          then pending_then os (mc_name cp)
            (''Checkpoint '' @ mc_name cp @ '' is Ready; waiting for SnapshotContent ownerRef handoff'') (RequeueMs 500) w
          else finalize_then os (q\<lparr>q_checkpoint_name := mc_name cp\<rparr>) ConditionTrue MCRCompleted
            (''Checkpoint '' @ mc_name cp @ '' handed off to SnapshotContent'') Done w)"

section \<open>Collecting the targets\<close>

definition object_key :: "json \<Rightarrow> string" where
  "object_key obj = jstring [''apiVersion''] obj @ ''/'' @ jstring [''kind''] obj @ ''/'' @
     jstring [''metadata'', ''namespace''] obj @ ''/'' @ jstring [''metadata'', ''name''] obj"

definition object_less :: "json \<Rightarrow> json \<Rightarrow> bool" where
  "object_less a b =
     (if jstring [''apiVersion''] a \<noteq> jstring [''apiVersion''] b
      then jstring [''apiVersion''] a < jstring [''apiVersion''] b
      else if jstring [''kind''] a \<noteq> jstring [''kind''] b then jstring [''kind''] a < jstring [''kind''] b
      else if jstring [''metadata'', ''namespace''] a \<noteq> jstring [''metadata'', ''namespace''] b
      then jstring [''metadata'', ''namespace''] a < jstring [''metadata'', ''namespace''] b
      else jstring [''metadata'', ''name''] a < jstring [''metadata'', ''name''] b)"

definition sortObjects :: "json list \<Rightarrow> json list" where
  "sortObjects = sort_slice object_less"

text \<open>Scope \<open>True\<close> is the root scope. The only root target is the request's own Namespace.\<close>

definition own_namespace :: "gvk \<Rightarrow> manifest_target \<Rightarrow> string \<Rightarrow> bool" where
  "own_namespace k t namespace = (g_group k = '''' \<and> g_version k = ''v1'' \<and> g_kind k = ''Namespace'' \<and> mt_name t = namespace)"

definition fetch_target ::
  "('t, 'g, 'd) outside \<Rightarrow> string \<Rightarrow> manifest_target \<Rightarrow> capture_err + json" where
  "fetch_target os namespace t =
     (case parse_gv_error (os_env os) (mt_apiVersion t) of
        Some x \<Rightarrow> Inl (PlainErr (''invalid apiVersion '' @ mt_apiVersion t))
      | None \<Rightarrow>
          let k = gvk_of (os_env os) (mt_apiVersion t) (mt_kind t) in
          case os_scope os k of
            Inl x \<Rightarrow> Inl (ApiFailure ''restmapping'' x)
          | Inr root \<Rightarrow>
              if root \<and> \<not> own_namespace k t namespace
              then Inl (TerminalErr (''cluster-scoped target '' @ mt_apiVersion t @ ''/'' @ mt_kind t @
                '' is not allowed in a namespace capture''))
              else case os_object os k (if root then '''' else namespace) (mt_name t) of
                Inl x \<Rightarrow> Inl (ApiFailure (''failed to get '' @ mt_kind t) x)
              | Inr obj \<Rightarrow> Inr obj)"

fun collect_loop ::
  "('t, 'g, 'd) outside \<Rightarrow> string \<Rightarrow> manifest_target list \<Rightarrow> string list \<Rightarrow> json list \<Rightarrow> capture_err + json list" where
  "collect_loop os namespace [] collected objects = Inr objects"
| "collect_loop os namespace (t # ts) collected objects =
     (case fetch_target os namespace t of
        Inl x \<Rightarrow> Inl x
      | Inr obj \<Rightarrow>
          if object_key obj \<in> set collected then collect_loop os namespace ts collected objects
          else collect_loop os namespace ts (object_key obj # collected) (objects @ [obj]))"

definition collectTargetObjects :: "('t, 'g, 'd) outside \<Rightarrow> request \<Rightarrow> capture_err + json list" where
  "collectTargetObjects os q = (case collect_loop os (q_namespace q) (q_targets q) [] [] of
     Inl x \<Rightarrow> Inl x | Inr objects \<Rightarrow> Inr (sortObjects objects))"

text \<open>\<open>errors.IsNotFound\<close> looks through the wrapping.\<close>

definition is_not_found :: "capture_err \<Rightarrow> bool" where
  "is_not_found x = (case x of ApiFailure _ e \<Rightarrow> e = ErrNotFound | _ \<Rightarrow> False)"

section \<open>Processing a request\<close>

text \<open>A step ends the pass (\<open>Inl\<close>) or goes on with its result.\<close>

definition ensure_keeper ::
  "('t, 'g, 'd) outside \<Rightarrow> request \<Rightarrow> 'd world \<Rightarrow> (outcome + string) \<times> 'd world" where
  "ensure_keeper os q w =
     (let retainerName = ObjectKeeperName (cd_digest (os_codec os)) (q_uid q) in
      case get_keeper os retainerName w of
        (Inl x, w) \<Rightarrow>
          if x = ErrNotFound then
            (case create_keeper os retainerName (q_uid q) w of
               (Some x, w) \<Rightarrow>
                 (case finalize_then os q ConditionFalse MCRFailed ''Failed to create ObjectKeeper''
                    (ReconcileErr (ApiFailure ''create ObjectKeeper'' x)) w of (r, w) \<Rightarrow> (Inl r, w))
             | (None, w) \<Rightarrow>
                 (case get_keeper os retainerName w of
                    (Inl _, w) \<Rightarrow> (Inl (RequeueMs 200), w) | (Inr k, w) \<Rightarrow> (Inr (kp_uid k), w)))
          else (Inl (ReconcileErr (ApiFailure ''failed to get ObjectKeeper'' x)), w)
      | (Inr k, w) \<Rightarrow>
          (case kp_follow k of
             None \<Rightarrow> (Inl (ReconcileErr (PlainErr (''ObjectKeeper '' @ retainerName @ '' has no FollowObjectRef''))), w)
           | Some uid \<Rightarrow>
               if uid \<noteq> q_uid q
               then (Inl (ReconcileErr (PlainErr (''ObjectKeeper '' @ retainerName @ '' belongs to another MCR''))), w)
               else (Inr (kp_uid k), w)))"

definition keeper_ref :: "string \<Rightarrow> string \<Rightarrow> owner_ref" where
  "keeper_ref retainerName uid = \<lparr>or_apiVersion = ''deckhouse.io/v1alpha1'', or_kind = ''ObjectKeeper'',
     or_name = retainerName, or_uid = uid, or_controller = Some True\<rparr>"

definition new_checkpoint :: "request \<Rightarrow> string \<Rightarrow> owner_ref \<Rightarrow> checkpoint" where
  "new_checkpoint q checkpointName owner =
     \<lparr>mc_name = checkpointName, mc_uid = '''', mc_conditions = [], mc_owner_refs = [owner], mc_chunks = [],
      mc_total_objects = 0, mc_total_size = 0,
      mc_labels = [labelKeySourceRequest \<mapsto> q_name q, labelKeySourceRequestNamespace \<mapsto> q_namespace q]\<rparr>"

definition mark_checkpoint ::
  "('t, 'g, 'd) outside \<Rightarrow> string \<Rightarrow> string \<Rightarrow> string \<Rightarrow> checkpoint \<Rightarrow> checkpoint" where
  "mark_checkpoint os status reason message cp = cp\<lparr>mc_conditions := setSingleCondition (os_env os) (mc_conditions cp)
     (ready_condition status reason message (os_now os))\<rparr>"

text \<open>Creates the checkpoint, or takes up the existing one; setting its condition is best effort.\<close>

definition ensure_checkpoint ::
  "('t, 'g, 'd) outside \<Rightarrow> request \<Rightarrow> string \<Rightarrow> owner_ref \<Rightarrow> 'd world \<Rightarrow> (outcome + checkpoint \<times> request) \<times> 'd world" where
  "ensure_checkpoint os q checkpointName owner w =
     (case create_checkpoint os (new_checkpoint q checkpointName owner) w of
        (Inl x, w) \<Rightarrow>
          if x \<noteq> AlreadyExists then
            (case finalize_then os q ConditionFalse MCRFailed ''Failed to create checkpoint''
               (ReconcileErr (ApiFailure ''create ManifestCheckpoint'' x)) w of (r, w) \<Rightarrow> (Inl r, w))
          else (case get_checkpoint os checkpointName w of
             (Inl x, w) \<Rightarrow> (Inl (ReconcileErr (ApiFailure ''get ManifestCheckpoint'' x)), w)
           | (Inr cp, w) \<Rightarrow>
               if processing (os_env os) (mc_conditions cp) then (Inr (cp, q), w)
               else let cp = mark_checkpoint os ConditionFalse ReasonProcessing
                      ''Resuming checkpoint creation, creating chunks...'' cp
                    in (Inr (cp, q), snd (write_checkpoint os cp w)))
      | (Inr cp, w) \<Rightarrow>
          let cp = mark_checkpoint os ConditionFalse ReasonProcessing ''Checkpoint created, creating chunks...'' cp;
              w = snd (write_checkpoint os cp w)
          in case updateProcessingMessage os q (''Created checkpoint '' @ checkpointName @ '', collecting objects...'') w of
               (q, w) \<Rightarrow> (Inr (cp, q), w))"

definition create_chunks_step ::
  "('t, 'g, 'd) outside \<Rightarrow> request \<Rightarrow> checkpoint \<Rightarrow> json list \<Rightarrow> 'd world \<Rightarrow> (outcome + chunk_info list \<times> request) \<times> 'd world" where
  "create_chunks_step os q cp objects w =
     (case updateProcessingMessage os q (''Creating chunks for checkpoint '' @ mc_name cp @ '' ('' @
          show_nat (length objects) @ '' objects)...'') w of
        (q, w) \<Rightarrow>
          (case createChunks (os_codec os) (MaxChunkSizeBytes (wd_config w)) (mc_name cp) (mc_uid cp) objects (chunk_view os w) of
             (Inr chunks, a) \<Rightarrow> (Inr (chunks, q), store_chunks a w)
           | (Inl x, a) \<Rightarrow>
               let w = store_chunks a w in
               if \<not> isTerminalCaptureError x then
                 (case updateProcessingMessage os q ''Transient error creating chunks, retrying'' w of
                    (_, w) \<Rightarrow> (Inl (ReconcileErr x), w))
               else
                 let w = snd (write_checkpoint os
                       (mark_checkpoint os ConditionFalse MCRFailed ''Failed to create chunks'' cp) w)
                 in case finalize_then os q ConditionFalse MCRFailed ''Failed to create chunks'' Done w of
                      (r, w) \<Rightarrow> (Inl r, w)))"

definition complete_checkpoint ::
  "('t, 'g, 'd) outside \<Rightarrow> request \<Rightarrow> checkpoint \<Rightarrow> chunk_info list \<Rightarrow> 'd world \<Rightarrow> outcome \<times> 'd world" where
  "complete_checkpoint os q cp chunks w =
     (let cp = mark_checkpoint os ConditionTrue MCRCompleted ''Checkpoint created''
            (cp\<lparr>mc_chunks := chunks, mc_total_objects := sum_list (map ci_count chunks),
                mc_total_size := sum_list (map ci_size chunks)\<rparr>);
          checkpointName = mc_name cp
      in case write_checkpoint os cp w of
           (Some x, w) \<Rightarrow> (ReconcileErr (ApiFailure ''update ManifestCheckpoint'' x), w)
         | (None, w) \<Rightarrow>
             let q = q\<lparr>q_checkpoint_name := checkpointName\<rparr> in
             case markMCRCheckpointPendingHandoff os checkpointName
                 (''Checkpoint '' @ checkpointName @ '' created; waiting for SnapshotContent ownerRef handoff'') w of
               (Some x, w) \<Rightarrow> (ReconcileErr (ApiFailure ''status update'' x), w)
             | (None, w) \<Rightarrow> finalizeMCRIfCheckpointHandedOff os q cp w)"

definition build_checkpoint ::
  "('t, 'g, 'd) outside \<Rightarrow> request \<Rightarrow> string \<Rightarrow> json list \<Rightarrow> owner_ref \<Rightarrow> 'd world \<Rightarrow> outcome \<times> 'd world" where
  "build_checkpoint os q checkpointName objects owner w =
     (case ensure_checkpoint os q checkpointName owner w of
        (Inl r, w) \<Rightarrow> (r, w)
      | (Inr (cp, q), w) \<Rightarrow>
          (case create_chunks_step os q cp objects w of
             (Inl r, w) \<Rightarrow> (r, w)
           | (Inr (chunks, q), w) \<Rightarrow> complete_checkpoint os q cp chunks w))"

definition capture_objects ::
  "('t, 'g, 'd) outside \<Rightarrow> request \<Rightarrow> json list \<Rightarrow> 'd world \<Rightarrow> outcome \<times> 'd world" where
  "capture_objects os q objects w =
     (let checkpointName = (if q_checkpoint_name q \<noteq> '''' then q_checkpoint_name q
            else ManifestCheckpointName (cd_digest (os_codec os)) (q_uid q));
          retainerName = ObjectKeeperName (cd_digest (os_codec os)) (q_uid q)
      in case updateProcessingMessage os q ''Creating ObjectKeeper...'' w of
           (q, w) \<Rightarrow>
             (case ensure_keeper os q w of
                (Inl r, w) \<Rightarrow> (r, w)
              | (Inr uid, w) \<Rightarrow>
                  (case get_checkpoint os checkpointName w of
                     (Inr cp, w) \<Rightarrow>
                       if manifestCheckpointDoneOrFailed (os_env os) cp
                       then finalizeMCRIfCheckpointHandedOff os (q\<lparr>q_checkpoint_name := checkpointName\<rparr>) cp w
                       else build_checkpoint os q checkpointName objects (keeper_ref retainerName uid) w
                   | (Inl _, w) \<Rightarrow> build_checkpoint os q checkpointName objects (keeper_ref retainerName uid) w)))"

definition processCaptureRequest :: "('t, 'g, 'd) outside \<Rightarrow> request \<Rightarrow> 'd world \<Rightarrow> outcome \<times> 'd world" where
  "processCaptureRequest os q w =
     (case start_processing os q w of
        (Inl x, w) \<Rightarrow> (if x = ErrNotFound then Done else ReconcileErr (ApiFailure ''start processing'' x), w)
      | (Inr q, w) \<Rightarrow>
          (case collectTargetObjects os q of
             Inl x \<Rightarrow>
               if \<not> is_not_found x \<and> \<not> isTerminalCaptureError x then (ReconcileErr x, w)
               else finalize_then os q ConditionFalse MCRFailed ''Failed to collect objects'' Done w
           | Inr objects \<Rightarrow> capture_objects os q objects w))"

definition Reconcile :: "('t, 'g, 'd) outside \<Rightarrow> 'd world \<Rightarrow> outcome \<times> 'd world" where
  "Reconcile os w =
     (case get_request os (loadConfigFromConfigMap os w) of
        (Inl x, w) \<Rightarrow> (if x = ErrNotFound then Done else ReconcileErr (ApiFailure ''get'' x), w)
      | (Inr q, w) \<Rightarrow>
          if isTerminal (os_env os) q then (Done, w)
          else if q_checkpoint_name q \<noteq> '''' then
            (case get_checkpoint os (q_checkpoint_name q) w of
               (Inr cp, w) \<Rightarrow> finalizeMCRIfCheckpointHandedOff os q cp w
             | (Inl _, w) \<Rightarrow> processCaptureRequest os q w)
          else processCaptureRequest os q w)"

section \<open>Expiry\<close>

text \<open>Times are in nanoseconds; \<open>gone\<close> tells which deletes succeed.\<close>

definition expired :: "env \<Rightarrow> int \<Rightarrow> int \<Rightarrow> request \<Rightarrow> bool" where
  "expired e ttl time q = (isTerminal e q \<and> (case q_completion q of None \<Rightarrow> False | Some t \<Rightarrow> time > t + ttl))"

definition scanAndDeleteExpiredMCRs ::
  "env \<Rightarrow> config \<Rightarrow> int \<Rightarrow> (request \<Rightarrow> bool) \<Rightarrow> request list option \<Rightarrow> request list \<Rightarrow> request list" where
  "scanAndDeleteExpiredMCRs e cfg time gone listed requests =
     (let defaultTTL = (if DefaultTTL cfg > 0 then DefaultTTL cfg else 600000000000) in
      case listed of
        None \<Rightarrow> requests
      | Some items \<Rightarrow> filter (\<lambda>q. \<not> (\<exists>i\<in>set items. q_namespace i = q_namespace q \<and> q_name i = q_name q \<and>
          expired e defaultTTL time i \<and> gone i)) requests)"

end
