(* ===== verification/Archive_Guarantees.thy ===== *)
theory Archive_Guarantees
  imports Archive_Read
begin

text \<open>
  What the archive guarantees: the packing is bounded and loses nothing, a stored checkpoint is read back
  as it was captured, an interrupted capture resumes; and where that ends: a resumed capture of a changed
  object, a list of Key/Value maps, a null item.
\<close>

section \<open>Preparing\<close>

abbreviation "rn c m \<equiv> map (\<lambda>p. (fst p, renumber (cd_renum c) (snd p))) m"

lemma codec_encode: "codec_ok c \<Longrightarrow> canonical v \<Longrightarrow> \<exists>t. cd_encode c v = Some t \<and> cd_parse c t = Some v"
  by (simp add: codec_ok_def)

lemma codec_gzip: "codec_ok c \<Longrightarrow> \<exists>g. cd_gzip c t = Inr g \<and> cd_gunzip c g = Inr t"
  by (simp add: codec_ok_def)

lemma codec_base64 [simp]: "codec_ok c \<Longrightarrow> cd_unbase64 c (cd_base64 c g) = Some g"
  by (simp add: codec_ok_def)

lemma codec_renum: "codec_ok c \<Longrightarrow> cd_renum c (cd_renum c s) = cd_renum c s"
  by (simp add: codec_ok_def)

lemma checksum_of_data [simp]: "codec_ok c \<Longrightarrow> calculateChunkChecksum c (cd_base64 c g) = cd_sha c g"
  by (simp add: calculateChunkChecksum_def)

lemma strip_cases:
  "stripTransientCaptureFinalizers m = m \<or>
   (\<exists>meta raw. map_of m ''metadata'' = Some (JMap meta) \<and> map_of meta ''finalizers'' = Some (JList raw) \<and>
     stripTransientCaptureFinalizers m =
       jput ''metadata'' (JMap (if filter (\<lambda>f. \<not> denied_finalizer f) raw = [] then jdel ''finalizers'' meta
         else jput ''finalizers'' (JList (filter (\<lambda>f. \<not> denied_finalizer f) raw)) meta)) m)"
  by (auto simp: stripTransientCaptureFinalizers_def Let_def split: option.splits json.splits)

lemma strip_canonical: "canonical (JMap m) \<Longrightarrow> canonical (JMap (stripTransientCaptureFinalizers m))"
proof -
  assume c: "canonical (JMap m)"
  from strip_cases [of m] consider "stripTransientCaptureFinalizers m = m"
    | meta raw where "map_of m ''metadata'' = Some (JMap meta)" "map_of meta ''finalizers'' = Some (JList raw)"
      "stripTransientCaptureFinalizers m =
       jput ''metadata'' (JMap (if filter (\<lambda>f. \<not> denied_finalizer f) raw = [] then jdel ''finalizers'' meta
         else jput ''finalizers'' (JList (filter (\<lambda>f. \<not> denied_finalizer f) raw)) meta)) m"
    by blast
  then show ?thesis
  proof cases
    case 2
    have meta: "canonical (JMap meta)" using canonical_lookup [OF c 2(1)] .
    then have "canonical (JList raw)" using canonical_lookup 2(2) by blast
    then have "canonical (JList (filter (\<lambda>f. \<not> denied_finalizer f) raw))" by simp
    then have "canonical (JMap (if filter (\<lambda>f. \<not> denied_finalizer f) raw = [] then jdel ''finalizers'' meta
         else jput ''finalizers'' (JList (filter (\<lambda>f. \<not> denied_finalizer f) raw)) meta))"
      using canonical_put [OF meta] canonical_del [OF meta] by (simp del: canonical.simps)
    then show ?thesis unfolding 2(3) by (rule canonical_put [OF c])
  qed (use c in simp)
qed

lemma denied_renumber [simp]: "denied_finalizer (renumber f x) = denied_finalizer x"
  by (cases x) (auto simp: denied_finalizer_def)

lemma strip_renumber: "rn c (stripTransientCaptureFinalizers m) = stripTransientCaptureFinalizers (rn c m)"
proof -
  have f: "filter (\<lambda>f. \<not> denied_finalizer f) (map (renumber g) raw) =
      map (renumber g) (filter (\<lambda>f. \<not> denied_finalizer f) raw)" for g raw
    by (simp add: filter_map comp_def)
  show ?thesis
    by (auto simp: stripTransientCaptureFinalizers_def lookup_renumber jput_renumber jdel_renumber f Let_def
        split: option.splits json.splits)
qed

lemma prepare_map:
  assumes "codec_ok c" "canonical (JMap m)"
  shows "prepare_object c (JMap m) = JMap (stripTransientCaptureFinalizers
    (jput ''kind'' (JStr (jstring [''kind''] (JMap m))) (jput ''apiVersion'' (JStr (jstring [''apiVersion''] (JMap m))) (rn c m))))"
  using codec_encode [OF assms] by (auto simp: prepare_object_def normalizeObjectForJSON_def)

lemma prepare_canonical:
  assumes "codec_ok c" "canonical (JMap m)"
  shows "canonical (prepare_object c (JMap m))"
proof -
  have "canonical (JMap (rn c m))" using canonical_renumber [OF assms(2), of "cd_renum c"] by simp
  then show ?thesis unfolding prepare_map [OF assms]
    by (intro strip_canonical canonical_put) simp_all
qed

lemma prepare_renumber:
  assumes "codec_ok c" "canonical (JMap m)"
  shows "renumber (cd_renum c) (prepare_object c (JMap m)) = prepare_object c (JMap m)"
proof -
  have idem: "rn c (rn c m) = rn c m" using renumber_id [of "cd_renum c", OF codec_renum [OF assms(1)]] by (simp add: comp_def)
  show ?thesis unfolding prepare_map [OF assms] renumber.simps strip_renumber jput_renumber idem by simp
qed

lemma prepare_is_map: "codec_ok c \<Longrightarrow> canonical (JMap m) \<Longrightarrow> \<exists>m'. prepare_object c (JMap m) = JMap m'"
  by (simp add: prepare_map)

section \<open>Packing\<close>

definition fits :: "('t, 'g, 'd) codec \<Rightarrow> int \<Rightarrow> json list \<Rightarrow> bool" where
  "fits c mx objs = (case compressed_size c objs of Inl _ \<Rightarrow> False | Inr n \<Rightarrow> int n \<le> mx)"

definition well_packed :: "('t, 'g, 'd) codec \<Rightarrow> int \<Rightarrow> json list \<Rightarrow> bool" where
  "well_packed c mx objs \<longleftrightarrow> objs \<noteq> [] \<and> (fits c mx objs \<or> (\<exists>obj. objs = [obj] \<and> \<not> fits c mx [obj]))"

lemma size_total:
  assumes "codec_ok c" "\<forall>x\<in>set objs. canonical x"
  shows "\<exists>n. compressed_size c objs = Inr n"
proof -
  obtain t where "cd_encode c (JList objs) = Some t" using codec_encode [OF assms(1), of "JList objs"] assms(2) by auto
  moreover obtain g where "cd_gzip c t = Inr g" using codec_gzip [OF assms(1)] by blast
  ultimately show ?thesis by (simp add: compressed_size_def)
qed

lemma oversized_fits:
  assumes "codec_ok c" "canonical obj"
  shows "oversized c mx obj \<longleftrightarrow> \<not> fits c mx [obj]"
proof -
  obtain t where "cd_encode c (JList [obj]) = Some t" using codec_encode [OF assms(1), of "JList [obj]"] assms(2) by auto
  moreover obtain g where "cd_gzip c t = Inr g" using codec_gzip [OF assms(1)] by blast
  ultimately show ?thesis by (auto simp: oversized_def fits_def compressed_size_def)
qed

lemma split_loop_total:
  "codec_ok c \<Longrightarrow> \<forall>x\<in>set objs \<union> set current. canonical x \<Longrightarrow>
   \<exists>r. split_loop c mx objs chunks current = Inr r"
proof (induction objs arbitrary: chunks current)
  case (Cons obj objs)
  then obtain n where "compressed_size c (current @ [obj]) = Inr n" using size_total [of c "current @ [obj]"] by auto
  then show ?case using Cons by auto
qed simp

lemma split_loop_spec:
  "codec_ok c \<Longrightarrow> \<forall>x\<in>set objs \<union> set current. canonical x \<Longrightarrow>
   split_loop c mx objs chunks current = Inr (chs, cur) \<Longrightarrow>
   list_all (well_packed c mx) chunks \<Longrightarrow> current = [] \<or> fits c mx current \<Longrightarrow>
   concat chs @ cur = concat chunks @ current @ objs \<and> list_all (well_packed c mx) chs \<and> (cur = [] \<or> fits c mx cur)"
proof (induction objs arbitrary: chunks current)
  case (Cons obj objs)
  obtain n where n: "compressed_size c (current @ [obj]) = Inr n"
    using Cons.prems(1,2) size_total [of c "current @ [obj]"] by auto
  have obj: "canonical obj" "\<forall>x\<in>set objs \<union> set [obj]. canonical x" using Cons.prems(2) by auto
  show ?case
  proof (cases "int n > mx")
    case False
    then have "fits c mx (current @ [obj])" using n by (simp add: fits_def)
    then show ?thesis using Cons.IH [of "current @ [obj]" chunks] Cons.prems n False by simp
  next
    case True
    let ?chunks = "if current \<noteq> [] then chunks @ [current] else chunks"
    have "current \<noteq> [] \<Longrightarrow> well_packed c mx current" using Cons.prems(5) by (auto simp: well_packed_def)
    then have wp: "list_all (well_packed c mx) ?chunks" using Cons.prems(4) by simp
    show ?thesis
    proof (cases "oversized c mx obj")
      case over: True
      then have "well_packed c mx [obj]" using oversized_fits Cons.prems(1) obj(1) by (auto simp: well_packed_def)
      then show ?thesis
        using Cons.IH [of "[]" "?chunks @ [[obj]]"] Cons.prems n True over wp obj by (auto split: if_splits)
    next
      case fit: False
      then have f: "fits c mx [obj]" using oversized_fits Cons.prems(1) obj(1) by blast
      then have ne: "current \<noteq> []" using n True by (auto simp: fits_def)
      show ?thesis
        using Cons.IH [of "[obj]" "?chunks"] Cons.prems n True fit wp obj f ne by simp
    qed
  qed
qed simp

lemma split_objects_ok:
  assumes "codec_ok c" "\<forall>x\<in>set objs. canonical x"
  obtains chunks where "split_objects c mx objs = Inr chunks" "concat chunks = objs" "list_all (well_packed c mx) chunks"
proof -
  obtain chs cur where s: "split_loop c mx objs [] [] = Inr (chs, cur)"
    using split_loop_total [OF assms(1), of objs "[]" mx "[]"] assms(2) by auto
  with split_loop_spec [OF assms(1) _ s] assms(2) that [of "if cur \<noteq> [] then chs @ [cur] else chs"]
  show ?thesis by (auto simp: split_objects_def well_packed_def)
qed

text \<open>
  C38: Packing loses nothing and is bounded: for objects that can be encoded, splitting succeeds, the
  chunks concatenated are the objects in order, no chunk is empty, and every chunk stays within the
  maximal compressed size unless it is a single object that exceeds it alone.
\<close>

theorem packing_bounded:
  assumes "codec_ok c" "\<forall>x\<in>set objs. canonical x"
  shows "\<exists>chunks. split_objects c mx objs = Inr chunks \<and> concat chunks = objs \<and>
     (\<forall>ch\<in>set chunks. ch \<noteq> [] \<and> (\<exists>n. compressed_size c ch = Inr n \<and> (int n \<le> mx \<or> length ch = 1)))"
proof -
  obtain chunks where s: "split_objects c mx objs = Inr chunks" "concat chunks = objs" "list_all (well_packed c mx) chunks"
    using split_objects_ok [OF assms] by blast
  have "\<exists>n. compressed_size c ch = Inr n \<and> (int n \<le> mx \<or> length ch = 1)" if "ch \<in> set chunks" for ch
  proof -
    have "\<forall>x\<in>set ch. canonical x" using that assms(2) s(2) by auto
    then obtain n where "compressed_size c ch = Inr n" using size_total assms(1) by blast
    moreover have "well_packed c mx ch" using s(3) that by (simp add: list_all_iff)
    ultimately show ?thesis by (auto simp: well_packed_def fits_def)
  qed
  then show ?thesis using s by (auto simp: list_all_iff well_packed_def)
qed

section \<open>Writing\<close>

text \<open>
  The chunks that exist already under the names of a checkpoint are trusted: one whose checksum is that
  of a payload has that payload (SHA-256 without collisions, no tampering).
\<close>

definition trusted_from :: "('t, 'g, 'd) codec \<Rightarrow> string \<Rightarrow> nat \<Rightarrow> 'd chunk_api \<Rightarrow> bool" where
  "trusted_from c uid i a \<longleftrightarrow> (\<forall>k\<ge>i. \<forall>ck g. ca_get a (ChunkName (cd_digest c) uid k) = Found ck \<longrightarrow>
     ck_checksum ck = cd_sha c g \<longrightarrow> cd_unbase64 c (ck_data ck) = Some g)"

definition stored :: "('t, 'g, 'd) codec \<Rightarrow> 'd chunk_api \<Rightarrow> string \<Rightarrow> string \<Rightarrow> nat \<Rightarrow> json list \<Rightarrow> chunk_info \<Rightarrow> bool" where
  "stored c a cp uid i objs info \<longleftrightarrow> (\<exists>t g ck. cd_encode c (JList objs) = Some t \<and> cd_gzip c t = Inr g \<and>
     info = chunk_info_of c uid i (length objs) g \<and> ca_get a (ChunkName (cd_digest c) uid i) = Found ck \<and>
     ck_checkpoint ck = cp \<and> ck_index ck = int i \<and> cd_unbase64 c (ck_data ck) = Some g)"

lemma create_chunk_frame:
  "create_chunk c cp uid i objs a = (r, a') \<Longrightarrow> n \<noteq> ChunkName (cd_digest c) uid i \<Longrightarrow>
   ca_get a' n = ca_get a n \<and> ca_create a' n = ca_create a n"
  by (auto simp: create_chunk_def put_chunk_def Let_def split: option.splits sum.splits if_splits)

lemma create_chunk_stored:
  "codec_ok c \<Longrightarrow> trusted_from c uid i a \<Longrightarrow> create_chunk c cp uid i objs a = (Inr info, a') \<Longrightarrow>
   stored c a' cp uid i objs info"
  by (auto simp: create_chunk_def stored_def put_chunk_def new_chunk_def verify_chunk_def trusted_from_def Let_def
      split: option.splits sum.splits if_splits get_res.splits)

lemma trusted_step:
  assumes "trusted_from c uid i a" "create_chunk c cp uid i objs a = (r, a')"
  shows "trusted_from c uid (Suc i) a'"
  unfolding trusted_from_def
proof (intro allI impI)
  fix k ck g assume k: "Suc i \<le> k" and f: "ca_get a' (ChunkName (cd_digest c) uid k) = Found ck" and s: "ck_checksum ck = cd_sha c g"
  have "ca_get a' (ChunkName (cd_digest c) uid k) = ca_get a (ChunkName (cd_digest c) uid k)"
    using create_chunk_frame [OF assms(2)] k by simp
  with assms(1) f s Suc_leD [OF k] show "cd_unbase64 c (ck_data ck) = Some g" unfolding trusted_from_def by metis
qed

lemma create_loop_frame:
  "create_loop c cp uid i groups a = (r, a') \<Longrightarrow> \<forall>k\<ge>i. n \<noteq> ChunkName (cd_digest c) uid k \<Longrightarrow>
   ca_get a' n = ca_get a n \<and> ca_create a' n = ca_create a n"
proof (induction groups arbitrary: i a r a')
  case (Cons objs groups)
  obtain r1 a1 where 1: "create_chunk c cp uid i objs a = (r1, a1)" by fastforce
  then have f: "ca_get a1 n = ca_get a n \<and> ca_create a1 n = ca_create a n" using create_chunk_frame Cons.prems(2) by blast
  show ?case
  proof (cases r1)
    case (Inr info)
    obtain r2 a2 where 2: "create_loop c cp uid (Suc i) groups a1 = (r2, a2)" by fastforce
    then have "ca_get a2 n = ca_get a1 n \<and> ca_create a2 n = ca_create a1 n" using Cons.IH Cons.prems(2) by auto
    then show ?thesis using Cons.prems(1) 1 2 Inr f by (auto split: sum.splits)
  qed (use Cons.prems 1 f in auto)
qed simp

lemma stored_frame:
  "stored c a cp uid i objs info \<Longrightarrow> ca_get a' (ChunkName (cd_digest c) uid i) = ca_get a (ChunkName (cd_digest c) uid i) \<Longrightarrow>
   stored c a' cp uid i objs info"
  by (simp add: stored_def)

lemma create_loop_stored:
  "codec_ok c \<Longrightarrow> trusted_from c uid i a \<Longrightarrow> create_loop c cp uid i groups a = (Inr infos, a') \<Longrightarrow>
   length infos = length groups \<and> (\<forall>k<length groups. stored c a' cp uid (i + k) (groups ! k) (infos ! k))"
proof (induction groups arbitrary: i a infos)
  case (Cons objs groups)
  obtain info a1 rest where 1: "create_chunk c cp uid i objs a = (Inr info, a1)"
    "create_loop c cp uid (Suc i) groups a1 = (Inr rest, a')" "infos = info # rest"
    using Cons.prems by (auto split: sum.splits prod.splits)
  have "ca_get a' (ChunkName (cd_digest c) uid i) = ca_get a1 (ChunkName (cd_digest c) uid i)"
    using create_loop_frame [OF 1(2)] by simp
  then have first: "stored c a' cp uid i objs info" using create_chunk_stored [OF Cons.prems(1,2) 1(1)] stored_frame by blast
  have IH: "length rest = length groups \<and> (\<forall>k<length groups. stored c a' cp uid (Suc i + k) (groups ! k) (rest ! k))"
    using Cons.IH [OF Cons.prems(1) trusted_step [OF Cons.prems(2) 1(1)] 1(2)] .
  show ?case
  proof (intro conjI allI impI)
    show "length infos = length (objs # groups)" using IH 1(3) by simp
    fix k assume "k < length (objs # groups)"
    then show "stored c a' cp uid (i + k) ((objs # groups) ! k) (infos ! k)" using first IH 1(3) by (cases k) auto
  qed
qed simp

section \<open>Reading back\<close>

lemma decode_items_maps:
  "\<forall>x\<in>set items. \<exists>m. x = JMap m \<Longrightarrow> decode_items c n items = Inr (map (convertMapSliceToMap c) items)"
  by (induction items) auto

lemma renumber_all: "\<forall>x\<in>set objs. renumber f x = x \<Longrightarrow> map (renumber f) objs = objs"
  by (simp add: map_idI)

lemma read_stored:
  assumes "codec_ok c" "stored c a cp uid i objs info"
    and "\<forall>x\<in>set objs. canonical x \<and> (\<exists>m. x = JMap m)"
  shows "read_chunk c (ca_get a) cp info = Inr (map (\<lambda>x. convertMapSliceToMap c (renumber (cd_renum c) x)) objs)"
proof -
  obtain t g ck where s: "cd_encode c (JList objs) = Some t" "cd_gzip c t = Inr g" "info = chunk_info_of c uid i (length objs) g"
    "ca_get a (ChunkName (cd_digest c) uid i) = Found ck" "ck_checkpoint ck = cp" "ck_index ck = int i"
    "cd_unbase64 c (ck_data ck) = Some g"
    using assms(2) by (auto simp: stored_def)
  have "cd_parse c t = Some (JList objs)" using codec_encode [OF assms(1), of "JList objs"] assms(3) s(1) by simp
  then have "unmarshal_array c t = Some (map (renumber (cd_renum c)) objs)" by (simp add: unmarshal_array_def)
  moreover have "cd_gunzip c g = Inr t" using codec_gzip [OF assms(1), of t] s(2) by auto
  moreover have "\<exists>m. renumber (cd_renum c) x = JMap m" if "x \<in> set objs" for x using assms(3) that by fastforce
  then have "decode_items c (ci_name info) (map (renumber (cd_renum c)) objs) =
      Inr (map (\<lambda>x. convertMapSliceToMap c (renumber (cd_renum c) x)) objs)"
    using decode_items_maps [of "map (renumber (cd_renum c)) objs"] by (simp add: comp_def)
  ultimately show ?thesis
    using assms(1) s by (simp add: read_chunk_def decodeChunkDataWithChecksum_def chunk_info_of_def)
qed

lemma read_all_map:
  "\<forall>info\<in>set infos. read_chunk c get cp info = Inr (f info) \<Longrightarrow> read_all c get cp infos = Inr (concat (map f infos))"
  by (induction infos) auto

lemma indexed_sorted:
  "\<forall>k<length infos. ci_index (infos ! k) = int (i + k) \<Longrightarrow> sort_slice info_less infos = infos \<and> first_gap i infos = None"
proof (induction infos arbitrary: i)
  case (Cons x infos)
  have tail: "\<forall>k<length infos. ci_index (infos ! k) = int (Suc i + k)"
  proof (intro allI impI)
    fix k assume "k < length infos"
    then show "ci_index (infos ! k) = int (Suc i + k)" using Cons.prems [rule_format, of "Suc k"] by simp
  qed
  note IH = Cons.IH [OF tail]
  have x: "ci_index x = int i" using Cons.prems [rule_format, of 0] by simp
  have "insert_slice info_less x infos = x # infos"
  proof (cases infos)
    case (Cons y ys)
    have "ci_index y = int (Suc i)" using tail [rule_format, of 0] Cons by simp
    then show ?thesis using x Cons by (simp add: info_less_def)
  qed simp
  then show ?case using IH x by (simp add: sort_slice_Cons)
qed simp

text \<open>What is archived of an object: prepared, and with its Key/Value lists converted by the reader.\<close>

definition archived :: "('t, 'g, 'd) codec \<Rightarrow> json \<Rightarrow> json" where
  "archived c obj = convertMapSliceToMap c (prepare_object c obj)"

definition permutes :: "(chunk_info list \<Rightarrow> chunk_info list) \<Rightarrow> bool" where
  "permutes schedule \<longleftrightarrow> (\<forall>xs. mset (schedule xs) = mset xs)"

lemma read_groups:
  assumes ok: "codec_ok c" "permutes schedule"
    and len: "length infos = length groups" "groups \<noteq> []"
    and st: "\<forall>k<length groups. stored c a cp uid k (groups ! k) (infos ! k)"
    and objs: "\<forall>x\<in>set (concat groups). canonical x \<and> (\<exists>m. x = JMap m)"
  shows "\<exists>out. collectObjectsFromCheckpoint c schedule (ca_get a) cp infos = Inr out \<and>
     mset out = mset (map (\<lambda>x. convertMapSliceToMap c (renumber (cd_renum c) x)) (concat groups)) \<and>
     (schedule infos = infos \<longrightarrow> out = map (\<lambda>x. convertMapSliceToMap c (renumber (cd_renum c) x)) (concat groups))"
proof -
  let ?read = "\<lambda>x. convertMapSliceToMap c (renumber (cd_renum c) x)"
  define f where "f info = map ?read (groups ! nat (ci_index info))" for info :: chunk_info
  have ix: "ci_index (infos ! k) = int k" if "k < length infos" for k
    using st len that by (auto simp: stored_def chunk_info_of_def)
  have sorted: "sort_slice info_less infos = infos \<and> first_gap 0 infos = None"
    using indexed_sorted [of infos 0] ix by simp
  have read: "read_chunk c (ca_get a) cp info = Inr (f info)" if i: "info \<in> set infos" for info
  proof -
    obtain k where k: "k < length groups" "info = infos ! k" using i len by (auto simp: in_set_conv_nth)
    have "\<forall>x\<in>set (groups ! k). canonical x \<and> (\<exists>m. x = JMap m)"
    proof
      fix x assume "x \<in> set (groups ! k)"
      then have "x \<in> set (concat groups)" using nth_mem [OF k(1)] by auto
      then show "canonical x \<and> (\<exists>m. x = JMap m)" using objs by blast
    qed
    then show ?thesis using read_stored [OF ok(1)] st k ix len by (auto simp: f_def)
  qed
  have perm: "mset (schedule infos) = mset infos" using ok(2) by (simp add: permutes_def)
  then have "set (schedule infos) = set infos" by (metis set_mset_mset)
  then have all: "read_all c (ca_get a) cp (schedule infos) = Inr (concat (map f (schedule infos)))"
    using read read_all_map [of "schedule infos"] by blast
  have "map f infos = map (map ?read) groups"
    by (rule nth_equalityI) (use len ix in \<open>auto simp: f_def\<close>)
  then have order: "concat (map f infos) = map ?read (concat groups)"
    by (simp add: map_concat)
  have "mset (concat (map f (schedule infos))) = mset (concat (map f infos))"
    by (rule mset_concat_map_cong [of id]) (use perm in auto)
  moreover have "infos \<noteq> []" using len by auto
  ultimately show ?thesis using sorted all order by (auto simp: collectObjectsFromCheckpoint_def Let_def)
qed

lemma prepared_objects:
  assumes "codec_ok c" "\<forall>x\<in>set objs. canonical x \<and> (\<exists>m. x = JMap m)"
  shows "\<forall>x\<in>set (map (prepare_object c) objs). canonical x \<and> renumber (cd_renum c) x = x \<and> (\<exists>m. x = JMap m)"
  using assms prepare_canonical [OF assms(1)] prepare_renumber [OF assms(1)] prepare_is_map [OF assms(1)] by fastforce

lemma groups_nonempty: "concat groups = map f objs \<Longrightarrow> objs \<noteq> [] \<Longrightarrow> groups \<noteq> []"
  by (cases groups) auto

text \<open>
  What the writer takes on trust. Of a chunk that exists already under a name of the checkpoint it compares the
  recorded checksum, not the data (\<open>trusted_from\<close>: the data has the checksum it claims); of the chunk of an empty
  list it compares nothing (\<open>trusted_empty\<close>: it is the chunk the writer would have made).
\<close>

definition trusted_empty :: "('t, 'g, 'd) codec \<Rightarrow> string \<Rightarrow> string \<Rightarrow> 'd chunk_api \<Rightarrow> bool" where
  "trusted_empty c cp uid a \<longleftrightarrow> ca_create a (ChunkName (cd_digest c) uid 0) \<noteq> None \<longrightarrow>
     (\<exists>g. cd_gzip c (cd_text c ''[]'') = Inr g \<and> ca_get a (ChunkName (cd_digest c) uid 0) = Found (new_chunk c cp uid 0 0 g))"

lemma empty_chunk_unverified:
  assumes "cd_gzip c (cd_text c ''[]'') = Inr g" and "ca_create a (ChunkName (cd_digest c) uid 0) = Some AlreadyExists"
  shows "createChunks c mx cp uid [] a = (Inr [chunk_info_of c uid 0 0 g], a)"
  using assms by (simp add: createChunks_def createEmptyChunk_def Let_def)


section \<open>Resuming an interrupted capture\<close>

text \<open>A cluster whose creates and reads agree and do not fail.\<close>

definition reliable :: "'d chunk_api \<Rightarrow> bool" where
  "reliable a \<longleftrightarrow> (\<forall>n ck. ca_get a n = Found ck \<longrightarrow> ca_create a n = Some AlreadyExists) \<and>
     (\<forall>n. ca_get a n = NotFound \<longrightarrow> ca_create a n = None) \<and> (\<forall>n x. ca_get a n \<noteq> GetErr x)"

text \<open>Every chunk that exists from index \<open>i\<close> on is the chunk of its group.\<close>

definition ours :: "('t, 'g, 'd) codec \<Rightarrow> string \<Rightarrow> string \<Rightarrow> nat \<Rightarrow> json list list \<Rightarrow> 'd chunk_api \<Rightarrow> bool" where
  "ours c cp uid i groups a \<longleftrightarrow> (\<forall>k<length groups. \<forall>ck. ca_get a (ChunkName (cd_digest c) uid (i + k)) = Found ck \<longrightarrow>
     (\<exists>t g. cd_encode c (JList (groups ! k)) = Some t \<and> cd_gzip c t = Inr g \<and>
       ck = new_chunk c cp uid (i + k) (length (groups ! k)) g))"

lemma ours_Cons:
  "ours c cp uid i (objs # groups) a \<longleftrightarrow> (\<forall>ck. ca_get a (ChunkName (cd_digest c) uid i) = Found ck \<longrightarrow>
     (\<exists>t g. cd_encode c (JList objs) = Some t \<and> cd_gzip c t = Inr g \<and> ck = new_chunk c cp uid i (length objs) g)) \<and>
   ours c cp uid (Suc i) groups a"
  unfolding ours_def by (auto simp: less_Suc_eq_0_disj)

lemma ours_frame:
  "ours c cp uid i groups a \<Longrightarrow> (\<And>k. i \<le> k \<Longrightarrow> ca_get a' (ChunkName (cd_digest c) uid k) = ca_get a (ChunkName (cd_digest c) uid k)) \<Longrightarrow>
   ours c cp uid i groups a'"
  unfolding ours_def by auto

lemma create_chunk_ours:
  "create_chunk c cp uid i objs a = (r, a') \<Longrightarrow> ours c cp uid i (objs # groups) a \<Longrightarrow> ours c cp uid i (objs # groups) a'"
proof -
  assume r: "create_chunk c cp uid i objs a = (r, a')" and o: "ours c cp uid i (objs # groups) a"
  have "ours c cp uid (Suc i) groups a'"
    by (rule ours_frame [of c cp uid "Suc i" groups a]) (use o create_chunk_frame [OF r] in \<open>auto simp: ours_Cons\<close>)
  moreover have "a' = a \<or> (\<exists>t g. cd_encode c (JList objs) = Some t \<and> cd_gzip c t = Inr g \<and>
      ca_get a' (ChunkName (cd_digest c) uid i) = Found (new_chunk c cp uid i (length objs) g))"
    using r by (auto simp: create_chunk_def put_chunk_def Let_def split: option.splits sum.splits if_splits)
  ultimately show ?thesis using o unfolding ours_Cons by auto
qed

lemma create_loop_ours:
  "create_loop c cp uid i groups a = (r, a') \<Longrightarrow> ours c cp uid i groups a \<Longrightarrow> ours c cp uid i groups a'"
proof (induction groups arbitrary: i a r a')
  case (Cons objs groups)
  obtain r1 a1 where 1: "create_chunk c cp uid i objs a = (r1, a1)" by fastforce
  note o1 = create_chunk_ours [OF 1 Cons.prems(2)]
  show ?case
  proof (cases r1)
    case (Inr info)
    obtain r2 a2 where 2: "create_loop c cp uid (Suc i) groups a1 = (r2, a2)" by fastforce
    have a2: "a2 = a'" using Cons.prems(1) 1 2 Inr by (auto split: sum.splits)
    have "ours c cp uid (Suc i) groups a'" using Cons.IH [OF 2] o1 a2 by (simp add: ours_Cons)
    moreover have "ca_get a' (ChunkName (cd_digest c) uid i) = ca_get a1 (ChunkName (cd_digest c) uid i)"
      using create_loop_frame [OF 2] a2 by simp
    ultimately show ?thesis using o1 by (simp add: ours_Cons)
  qed (use Cons.prems 1 o1 in auto)
qed simp

lemma reliable_put: "reliable a \<Longrightarrow> reliable (put_chunk n ck a)"
  by (auto simp: reliable_def put_chunk_def)

lemma create_loop_reliable:
  "codec_ok c \<Longrightarrow> \<forall>x\<in>set (concat groups). canonical x \<Longrightarrow> reliable a \<Longrightarrow> ours c cp uid i groups a \<Longrightarrow>
   \<exists>infos a'. create_loop c cp uid i groups a = (Inr infos, a')"
proof (induction groups arbitrary: i a)
  case (Cons objs groups)
  obtain t where t: "cd_encode c (JList objs) = Some t" using codec_encode [OF Cons.prems(1), of "JList objs"] Cons.prems(2) by auto
  obtain g where g: "cd_gzip c t = Inr g" using codec_gzip [OF Cons.prems(1)] by blast
  have "\<exists>info a1. create_chunk c cp uid i objs a = (Inr info, a1) \<and> reliable a1"
  proof (cases "ca_get a (ChunkName (cd_digest c) uid i)")
    case (Found ck)
    then have "ca_create a (ChunkName (cd_digest c) uid i) = Some AlreadyExists"
      using Cons.prems(3) unfolding reliable_def by blast
    moreover have "ck = new_chunk c cp uid i (length objs) g" using Cons.prems(4) Found t g by (simp add: ours_Cons)
    ultimately show ?thesis using t g Found Cons.prems(3)
      by (simp add: create_chunk_def verify_chunk_def new_chunk_def Let_def)
  next
    case NotFound
    then have "ca_create a (ChunkName (cd_digest c) uid i) = None"
      using Cons.prems(3) unfolding reliable_def by blast
    then show ?thesis using t g Cons.prems(3) by (simp add: create_chunk_def reliable_put Let_def)
  next
    case (GetErr x)
    then show ?thesis using Cons.prems(3) unfolding reliable_def by blast
  qed
  then obtain info a1 where 1: "create_chunk c cp uid i objs a = (Inr info, a1)" "reliable a1" by blast
  have "ours c cp uid (Suc i) groups a1" using create_chunk_ours [OF 1(1) Cons.prems(4)] by (simp add: ours_Cons)
  then obtain infos a2 where "create_loop c cp uid (Suc i) groups a1 = (Inr infos, a2)"
    using Cons.IH [OF Cons.prems(1) _ 1(2)] Cons.prems(2) by fastforce
  then show ?case using 1(1) by simp
qed simp

text \<open>
  An interrupted capture resumes: whatever happened to a first run that started without chunks, a
  later run over the same objects and the same limit, in a cluster that answers, creates the missing
  chunks, accepts those of the first run and succeeds.
\<close>

theorem interrupted_capture_resumes:
  assumes ok: "codec_ok c" and objs: "\<forall>x\<in>set objs. canonical x \<and> (\<exists>m. x = JMap m)"
    and none: "\<forall>i. ca_get a (ChunkName (cd_digest c) uid i) = NotFound"
    and run: "createChunks c mx cp uid objs a = (r, a')" and b: "reliable b" "ca_get b = ca_get a'"
  shows "\<exists>infos b'. createChunks c mx cp uid objs b = (Inr infos, b')"
proof (cases "objs = []")
  case True
  obtain g where "cd_gzip c (cd_text c ''[]'') = Inr g" using codec_gzip [OF ok] by blast
  moreover have "ca_create b (ChunkName (cd_digest c) uid 0) \<in> {None, Some AlreadyExists}"
    using b(1) unfolding reliable_def by (cases "ca_get b (ChunkName (cd_digest c) uid 0)") auto
  ultimately show ?thesis using True by (auto simp: createChunks_def createEmptyChunk_def Let_def)
next
  case False
  let ?objs = "map (prepare_object c) objs"
  have p: "\<forall>x\<in>set ?objs. canonical x" using prepared_objects [OF ok objs] by blast
  obtain groups where s: "split_objects c mx ?objs = Inr groups" "concat groups = ?objs"
    using split_objects_ok [OF ok p] by blast
  have "create_loop c cp uid 0 groups a = (r, a')" using run False s(1) by (simp add: createChunks_def)
  then have "ours c cp uid 0 groups a'" by (rule create_loop_ours) (simp add: ours_def none)
  then have "ours c cp uid 0 groups b" by (simp add: ours_def b(2))
  moreover have "\<forall>x\<in>set (concat groups). canonical x" unfolding s(2) by (rule p)
  ultimately show ?thesis using create_loop_reliable [OF ok _ b(1)] s(1) False by (simp add: createChunks_def)
qed

lemma create_chunk_first:
  assumes "create_loop c cp uid 0 (g1 # gs) a = (r, a')" "ca_get a (ChunkName (cd_digest c) uid 0) = NotFound"
    and "ca_get a' (ChunkName (cd_digest c) uid 0) = Found ck"
  shows "\<exists>t g. cd_encode c (JList g1) = Some t \<and> cd_gzip c t = Inr g \<and> ck = new_chunk c cp uid 0 (length g1) g"
proof -
  obtain r1 a1 where 1: "create_chunk c cp uid 0 g1 a = (r1, a1)" by fastforce
  have "ours c cp uid 0 [g1] a" by (simp add: ours_def assms(2))
  then have o: "ours c cp uid 0 [g1] a1" using create_chunk_ours [OF 1] by blast
  have "ca_get a' (ChunkName (cd_digest c) uid 0) = ca_get a1 (ChunkName (cd_digest c) uid 0)"
  proof (cases r1)
    case (Inr info)
    obtain r2 a2 where 2: "create_loop c cp uid (Suc 0) gs a1 = (r2, a2)" by fastforce
    then have "a2 = a'" using assms(1) 1 Inr by (auto split: sum.splits)
    then show ?thesis using create_loop_frame [OF 2, of "ChunkName (cd_digest c) uid 0"] by simp
  qed (use assms(1) 1 in simp)
  then show ?thesis using o assms(3) by (auto simp: ours_Cons)
qed

text \<open>
  A resumed capture of changed objects fails for good: when a first run was interrupted after its
  first chunk and the objects (read again from the cluster on every run) or the size limit have changed so
  that the first chunk has another checksum, the next run reports a terminal error, although the
  interruption was transient.
\<close>

theorem resume_after_change_is_terminal:
  assumes ok: "codec_ok c" and "objs \<noteq> []" "objs' \<noteq> []"
    and s: "split_objects c mx (map (prepare_object c) objs) = Inr (g1 # gs)"
      "split_objects c mx' (map (prepare_object c) objs') = Inr (g2 # gs')"
    and differ: "\<And>t t' g g'. cd_encode c (JList g1) = Some t \<Longrightarrow> cd_gzip c t = Inr g \<Longrightarrow>
      cd_encode c (JList g2) = Some t' \<Longrightarrow> cd_gzip c t' = Inr g' \<Longrightarrow> cd_sha c g \<noteq> cd_sha c g'"
    and none: "ca_get a (ChunkName (cd_digest c) uid 0) = NotFound"
    and run: "createChunks c mx cp uid objs a = (r, a')" "ca_get a' (ChunkName (cd_digest c) uid 0) = Found ck"
    and b: "reliable b" "ca_get b = ca_get a'"
  shows "\<exists>e. createChunks c mx' cp uid objs' b = (Inl e, b) \<and> isTerminalCaptureError e"
proof -
  have "create_loop c cp uid 0 (g1 # gs) a = (r, a')" using run(1) assms(2) s(1) by (simp add: createChunks_def)
  then obtain t g where 1: "cd_encode c (JList g1) = Some t" "cd_gzip c t = Inr g" "ck = new_chunk c cp uid 0 (length g1) g"
    using create_chunk_first none run(2) by blast
  have ex: "ca_create b (ChunkName (cd_digest c) uid 0) = Some AlreadyExists"
    using b run(2) unfolding reliable_def by simp
  have "\<exists>e. create_chunk c cp uid 0 g2 b = (Inl e, b) \<and> isTerminalCaptureError e"
  proof (cases "cd_encode c (JList g2)")
    case None
    then show ?thesis by (simp add: create_chunk_def isTerminalCaptureError_def)
  next
    case (Some t')
    show ?thesis
    proof (cases "cd_gzip c t'")
      case (Inl x)
      then show ?thesis using Some by (simp add: create_chunk_def isTerminalCaptureError_def)
    next
      case (Inr g')
      have "cd_sha c g \<noteq> cd_sha c g'" using differ [OF 1(1,2) Some Inr] .
      then show ?thesis using Some Inr ex b(2) run(2) 1(3) ok
        by (simp add: create_chunk_def verify_chunk_def new_chunk_def isTerminalCaptureError_def Let_def)
    qed
  qed
  then show ?thesis using assms(3) s(2) by (auto simp: createChunks_def)
qed

section \<open>What the conversion keeps\<close>

fun kv_free :: "json \<Rightarrow> bool" where
  "kv_free (JList xs) = (\<not> kv_list xs \<and> (\<forall>x\<in>set xs. kv_free x))"
| "kv_free (JMap m) = (\<forall>p\<in>set m. kv_free (snd p))"
| "kv_free _ = True"

lemma map_fixed: "map f xs = xs \<longleftrightarrow> (\<forall>x\<in>set xs. f x = x)"
  by (induction xs) auto

text \<open>
  The archive is verbatim exactly for objects without Key/Value lists: the reader returns a value
  unchanged if and only if no list in it, at any depth, begins with a map that has both a Key and a Value;
  any such list is turned into a map.
\<close>

theorem conversion_identity_iff: "convertMapSliceToMap c v = v \<longleftrightarrow> kv_free v"
proof (induction v rule: kv_free.induct)
  case (1 xs)
  then show ?case by (auto simp: map_fixed)
next
  case (2 m)
  have "map (\<lambda>p. (fst p, convertMapSliceToMap c (snd p))) m = m \<longleftrightarrow> (\<forall>p\<in>set m. convertMapSliceToMap c (snd p) = snd p)"
    by (simp add: map_fixed prod_eq_iff)
  then show ?case using 2 by auto
qed simp_all

section \<open>Instances\<close>

text \<open>A codec whose texts, payloads and data are the values themselves, and two Secrets.\<close>

definition demo_codec :: "(json, json, json) codec" where
  "demo_codec = \<lparr>cd_text = (\<lambda>s. JList []), cd_encode = Some, cd_indent = Some, cd_parse = Some, cd_renum = (\<lambda>s. s),
     cd_gzip = Inr, cd_gunzip = Inr, cd_length = (\<lambda>g. case g of JList xs \<Rightarrow> length xs | _ \<Rightarrow> 0), cd_base64 = (\<lambda>g. g),
     cd_unbase64 = Some, cd_sha = (\<lambda>g. case g of JList (x # _) \<Rightarrow> jstring [''metadata'', ''name''] x | _ \<Rightarrow> ''empty''),
     cd_sha_data = (\<lambda>_. ''''), cd_digest = (\<lambda>s. s), cd_sprint = (\<lambda>_. '''')\<rparr>"

definition demo_object :: "string \<Rightarrow> json" where
  "demo_object n = JMap [(''apiVersion'', JStr ''v1''), (''kind'', JStr ''Secret''), (''metadata'', JMap [(''name'', JStr n)])]"

definition no_chunks :: "(string \<Rightarrow> api_err option) \<Rightarrow> json chunk_api" where
  "no_chunks faults = \<lparr>ca_get = (\<lambda>_. NotFound), ca_create = faults\<rparr>"

lemma demo_fields [simp]:
  "cd_encode demo_codec = Some" "cd_indent demo_codec = Some" "cd_parse demo_codec = Some" "cd_renum demo_codec s = s"
  "cd_gzip demo_codec = Inr" "cd_gunzip demo_codec = Inr" "cd_base64 demo_codec g = g" "cd_unbase64 demo_codec = Some"
  "cd_text demo_codec s = JList []" "cd_length demo_codec (JList xs) = length xs"
  "cd_sha demo_codec (JList (x # xs)) = jstring [''metadata'', ''name''] x"
  by (simp_all add: demo_codec_def)

lemma demo_codec_ok: "codec_ok demo_codec"
  by (simp add: codec_ok_def)

lemma demo_object_ok [simp]: "canonical (demo_object n)" "\<exists>m. demo_object n = JMap m" "demo_object a = demo_object b \<longleftrightarrow> a = b"
proof -
  have "''apiVersion'' < (''kind'' :: string)" "''apiVersion'' < (''metadata'' :: string)" "''kind'' < (''metadata'' :: string)"
    by code_simp+
  then show "canonical (demo_object n)" "\<exists>m. demo_object n = JMap m" "demo_object a = demo_object b \<longleftrightarrow> a = b"
    by (simp_all add: demo_object_def)
qed

lemma demo_prepare [simp]: "prepare_object demo_codec (demo_object n) = demo_object n"
proof -
  have k: "''kind'' \<noteq> ''apiVersion''" "\<not> ''kind'' < (''apiVersion'' :: string)" by code_simp+
  have r: "renumber (cd_renum demo_codec) (demo_object n) = demo_object n" by (simp add: demo_object_def)
  show ?thesis
    by (simp add: prepare_object_def normalizeObjectForJSON_def r) (simp add: demo_object_def jstring_def
      stripTransientCaptureFinalizers_def k)
qed

lemma demo_size: "compressed_size demo_codec objs = Inr (length objs)"
  by (simp add: compressed_size_def)

lemma demo_split: "split_objects demo_codec 1 [demo_object a, demo_object b] = Inr [[demo_object a], [demo_object b]]"
  by (simp add: split_objects_def demo_size oversized_def)

lemma packing_bounded_witness:
  "split_objects demo_codec 1 [demo_object ''a'', demo_object ''b''] = Inr [[demo_object ''a''], [demo_object ''b'']] \<and>
   (\<exists>n. compressed_size demo_codec [demo_object ''a''] = Inr n \<and> (int n \<le> 1 \<or> length [demo_object ''a''] = 1))"
  using packing_bounded [OF demo_codec_ok, of "[demo_object ''a'', demo_object ''b'']" 1] demo_split by auto

abbreviation "demo_name k \<equiv> ChunkName (cd_digest demo_codec) ''uid'' k"

text \<open>The second chunk cannot be created: a first run leaves the first chunk and a transient error.\<close>

definition timeout :: "string \<Rightarrow> api_err option" where
  "timeout n = (if n = demo_name 1 then Some (ApiErr ''timeout'') else None)"

definition repaired :: "json chunk_api \<Rightarrow> json chunk_api" where
  "repaired a = a\<lparr>ca_create := (\<lambda>n. case ca_get a n of Found _ \<Rightarrow> Some AlreadyExists | _ \<Rightarrow> None)\<rparr>"

lemma demo_chunk:
  "ca_create a (demo_name k) = None \<Longrightarrow> create_chunk demo_codec ''cp'' ''uid'' k objs a =
    (Inr (chunk_info_of demo_codec ''uid'' k (length objs) (JList objs)),
     put_chunk (demo_name k) (new_chunk demo_codec ''cp'' ''uid'' k (length objs) (JList objs)) a)"
  by (simp add: create_chunk_def Let_def)

lemma demo_write:
  "createChunks demo_codec 1 ''cp'' ''uid'' [demo_object a, demo_object b] (no_chunks (\<lambda>_. None)) =
    (Inr [chunk_info_of demo_codec ''uid'' 0 1 (JList [demo_object a]), chunk_info_of demo_codec ''uid'' 1 1 (JList [demo_object b])],
     put_chunk (demo_name 1) (new_chunk demo_codec ''cp'' ''uid'' 1 1 (JList [demo_object b]))
      (put_chunk (demo_name 0) (new_chunk demo_codec ''cp'' ''uid'' 0 1 (JList [demo_object a])) (no_chunks (\<lambda>_. None))))"
  by (simp add: createChunks_def demo_split demo_chunk no_chunks_def put_chunk_def)


lemma demo_interrupted:
  "\<exists>e. createChunks demo_codec 1 ''cp'' ''uid'' [demo_object a, demo_object b] (no_chunks timeout) = (Inl e,
      put_chunk (demo_name 0) (new_chunk demo_codec ''cp'' ''uid'' 0 1 (JList [demo_object a])) (no_chunks timeout)) \<and>
    \<not> isTerminalCaptureError e"
proof -
  have "create_chunk demo_codec ''cp'' ''uid'' 0 [demo_object a] (no_chunks timeout) = (Inr (chunk_info_of demo_codec ''uid'' 0 1 (JList [demo_object a])),
      put_chunk (demo_name 0) (new_chunk demo_codec ''cp'' ''uid'' 0 1 (JList [demo_object a])) (no_chunks timeout))"
    using demo_chunk [of "no_chunks timeout" 0 "[demo_object a]"] by (simp add: no_chunks_def timeout_def)
  moreover have "create_chunk demo_codec ''cp'' ''uid'' 1 [demo_object b] (put_chunk (demo_name 0) ck (no_chunks timeout)) =
      (Inl (ApiFailure (''failed to create chunk '' @ demo_name 1) (ApiErr ''timeout'')), put_chunk (demo_name 0) ck (no_chunks timeout))" for ck
    by (simp add: create_chunk_def put_chunk_def no_chunks_def timeout_def chunkCreateErrorIsTerminal_def Let_def)
  ultimately show ?thesis
    by (simp add: createChunks_def demo_split isTerminalCaptureError_def)
qed

lemma repaired_ok: "ca_get (repaired a) = ca_get a" "(\<And>n x. ca_get a n \<noteq> GetErr x) \<Longrightarrow> reliable (repaired a)"
  by (simp_all add: repaired_def reliable_def)

lemma interrupted_capture_resumes_witness:
  "\<exists>e a' infos b'. createChunks demo_codec 1 ''cp'' ''uid'' [demo_object ''a'', demo_object ''b''] (no_chunks timeout) = (Inl e, a') \<and>
     createChunks demo_codec 1 ''cp'' ''uid'' [demo_object ''a'', demo_object ''b''] (repaired a') = (Inr infos, b')"
proof -
  obtain e where r: "createChunks demo_codec 1 ''cp'' ''uid'' [demo_object ''a'', demo_object ''b''] (no_chunks timeout) = (Inl e,
      put_chunk (demo_name 0) (new_chunk demo_codec ''cp'' ''uid'' 0 1 (JList [demo_object ''a''])) (no_chunks timeout))"
    using demo_interrupted [of "''a''" "''b''"] by blast
  let ?a = "put_chunk (demo_name 0) (new_chunk demo_codec ''cp'' ''uid'' 0 1 (JList [demo_object ''a''])) (no_chunks timeout)"
  have "reliable (repaired ?a)" by (rule repaired_ok(2)) (simp add: put_chunk_def no_chunks_def)
  with interrupted_capture_resumes [OF demo_codec_ok _ _ r _ repaired_ok(1)] r show ?thesis
    by (auto simp: no_chunks_def)
qed

lemma resume_after_change_is_terminal_witness:
  "\<exists>e a' e'. createChunks demo_codec 1 ''cp'' ''uid'' [demo_object ''a'', demo_object ''b''] (no_chunks timeout) = (Inl e, a') \<and>
     \<not> isTerminalCaptureError e \<and>
     createChunks demo_codec 1 ''cp'' ''uid'' [demo_object ''changed'', demo_object ''b''] (repaired a') = (Inl e', repaired a') \<and>
     isTerminalCaptureError e'"
proof -
  let ?a = "put_chunk (demo_name 0) (new_chunk demo_codec ''cp'' ''uid'' 0 1 (JList [demo_object ''a''])) (no_chunks timeout)"
  obtain e where r: "createChunks demo_codec 1 ''cp'' ''uid'' [demo_object ''a'', demo_object ''b''] (no_chunks timeout) = (Inl e, ?a)"
    "\<not> isTerminalCaptureError e"
    using demo_interrupted [of "''a''" "''b''"] by blast
  have rel: "reliable (repaired ?a)" by (rule repaired_ok(2)) (simp add: put_chunk_def no_chunks_def)
  have sha: "jstring [''metadata'', ''name''] (demo_object n) = n" for n
    by (simp add: demo_object_def jstring_def)
  have "\<exists>e'. createChunks demo_codec 1 ''cp'' ''uid'' [demo_object ''changed'', demo_object ''b''] (repaired ?a) = (Inl e', repaired ?a) \<and>
      isTerminalCaptureError e'"
  proof (rule resume_after_change_is_terminal [OF demo_codec_ok _ _ _ _ _ _ r(1) _ rel repaired_ok(1)])
    show "split_objects demo_codec 1 (map (prepare_object demo_codec) [demo_object ''a'', demo_object ''b'']) =
        Inr [[demo_object ''a''], [demo_object ''b'']]"
      "split_objects demo_codec 1 (map (prepare_object demo_codec) [demo_object ''changed'', demo_object ''b'']) =
        Inr [[demo_object ''changed''], [demo_object ''b'']]"
      by (simp_all add: demo_split)
    show "ca_get ?a (demo_name 0) = Found (new_chunk demo_codec ''cp'' ''uid'' 0 1 (JList [demo_object ''a'']))"
      by (simp add: put_chunk_def)
    fix t t' g g' :: json
    assume "cd_encode demo_codec (JList [demo_object ''a'']) = Some t" "cd_gzip demo_codec t = Inr g"
      "cd_encode demo_codec (JList [demo_object ''changed'']) = Some t'" "cd_gzip demo_codec t' = Inr g'"
    then have "g = JList [demo_object ''a'']" "g' = JList [demo_object ''changed'']" by simp_all
    then show "cd_sha demo_codec g \<noteq> cd_sha demo_codec g'" by (simp add: sha)
  qed (simp_all add: no_chunks_def)
  with r show ?thesis by blast
qed

text \<open>The order of the archive is that of the completion of the workers.\<close>

lemma archive_order_unspecified:
  "\<exists>infos a'. createChunks demo_codec 1 ''cp'' ''uid'' [demo_object ''a'', demo_object ''b''] (no_chunks (\<lambda>_. None)) = (Inr infos, a') \<and>
     collectObjectsFromCheckpoint demo_codec (\<lambda>xs. xs) (ca_get a') ''cp'' infos = Inr [demo_object ''a'', demo_object ''b''] \<and>
     collectObjectsFromCheckpoint demo_codec rev (ca_get a') ''cp'' infos = Inr [demo_object ''b'', demo_object ''a'']"
proof -
  let ?i = "\<lambda>k n. chunk_info_of demo_codec ''uid'' k 1 (JList [demo_object n])"
  let ?a = "put_chunk (demo_name 1) (new_chunk demo_codec ''cp'' ''uid'' 1 1 (JList [demo_object ''b'']))
      (put_chunk (demo_name 0) (new_chunk demo_codec ''cp'' ''uid'' 0 1 (JList [demo_object ''a''])) (no_chunks (\<lambda>_. None)))"
  have s: "sort_slice info_less [?i 0 ''a'', ?i 1 ''b''] = [?i 0 ''a'', ?i 1 ''b''] \<and> first_gap 0 [?i 0 ''a'', ?i 1 ''b''] = None"
    by (simp add: sort_slice_Cons chunk_info_of_def info_less_def)
  have conv: "convertMapSliceToMap demo_codec (demo_object n) = demo_object n" for n
    by (simp add: demo_object_def)
  have d: "decodeChunkDataWithChecksum demo_codec (JList [demo_object n]) (cd_sha demo_codec (JList [demo_object n])) nm = Inr [demo_object n]" for n nm
    by (simp add: decodeChunkDataWithChecksum_def unmarshal_array_def) (simp add: demo_object_def)
  have "read_chunk demo_codec (ca_get ?a) ''cp'' (?i 0 ''a'') = Inr [demo_object ''a'']"
    "read_chunk demo_codec (ca_get ?a) ''cp'' (?i 1 ''b'') = Inr [demo_object ''b'']"
    using d demo_codec_ok
    by (simp_all add: read_chunk_def put_chunk_def chunk_info_of_def new_chunk_def calculateChunkChecksum_def)
  with s show ?thesis unfolding demo_write
    by (simp add: collectObjectsFromCheckpoint_def)
qed

end
