(* ===== verification/Manifest_Capture_Guarantees.thy ===== *)
theory Manifest_Capture_Guarantees
  imports Manifest_Capture Archive_Guarantees
begin

text \<open>
  What a ManifestCaptureRequest guarantees: an invariant of the cluster that every pass of the controller
  keeps whatever the API server answers, and that the handoff to a SnapshotContent, the deletion and the
  creation of requests keep, so that a completed request always has a downloadable, handed-off checkpoint.
\<close>

section \<open>The invariant\<close>

text \<open>A stored chunk is the payload of a list of objects, with its checksum.\<close>

definition plain_maps :: "('t, 'g, 'd) codec \<Rightarrow> json list \<Rightarrow> bool" where
  "plain_maps c objs = (\<forall>x\<in>set objs. canonical x \<and> renumber (cd_renum c) x = x \<and> (\<exists>m. x = JMap m))"

definition chunk_made :: "('t, 'g, 'd) codec \<Rightarrow> 'd chunk \<Rightarrow> bool" where
  "chunk_made c ck \<longleftrightarrow> (\<exists>objs t g. plain_maps c objs \<and> cd_parse c t = Some (JList objs) \<and> cd_gunzip c g = Inr t \<and>
     ck_data ck = cd_base64 c g \<and> ck_checksum ck = cd_sha c g)"

definition info_stored :: "(string \<Rightarrow> 'd chunk option) \<Rightarrow> string \<Rightarrow> nat \<Rightarrow> chunk_info \<Rightarrow> bool" where
  "info_stored chunks cp k info \<longleftrightarrow> ci_index info = int k \<and>
     (\<exists>ck. chunks (ci_name info) = Some ck \<and> ck_checkpoint ck = cp \<and> ck_index ck = int k \<and> ck_checksum ck = ci_checksum info)"

definition listed :: "(string \<Rightarrow> 'd chunk option) \<Rightarrow> string \<Rightarrow> chunk_info list \<Rightarrow> bool" where
  "listed chunks cp infos \<longleftrightarrow> infos \<noteq> [] \<and> (\<forall>k<length infos. info_stored chunks cp k (infos ! k))"

definition checkpoints_ok :: "env \<Rightarrow> (string \<Rightarrow> 'd chunk option) \<Rightarrow> (string \<Rightarrow> checkpoint option) \<Rightarrow> bool" where
  "checkpoints_ok e chunks cps \<longleftrightarrow> (\<forall>n cp. cps n = Some cp \<longrightarrow> mc_name cp = n \<and>
     (IsReady e (mc_conditions cp) \<longrightarrow> listed chunks n (mc_chunks cp)))"

definition chunks_ok :: "('t, 'g, 'd) codec \<Rightarrow> (string \<Rightarrow> 'd chunk option) \<Rightarrow> bool" where
  "chunks_ok c chunks \<longleftrightarrow> (\<forall>n ck. chunks n = Some ck \<longrightarrow> chunk_made c ck)"

definition stamped_ready :: "env \<Rightarrow> request \<Rightarrow> bool" where
  "stamped_ready e q \<longleftrightarrow> q_targets q \<noteq> [] \<and>
     (\<forall>cnd. find_condition e (q_conditions q) ConditionReady = Some cnd \<longrightarrow> co_time cnd \<noteq> '''')"

definition unready :: "env \<Rightarrow> request \<Rightarrow> bool" where
  "unready e q \<longleftrightarrow> stamped_ready e q \<and> \<not> IsReady e (q_conditions q)"

definition handed_over :: "string set \<Rightarrow> env \<Rightarrow> (string \<Rightarrow> checkpoint option) \<Rightarrow> string \<Rightarrow> bool" where
  "handed_over K e cps n \<longleftrightarrow> cps n = None \<and> n \<notin> K \<or> (\<exists>cp. cps n = Some cp \<and> IsReady e (mc_conditions cp) \<and>
     manifestCheckpointOwnedBySnapshotContent cp)"

text \<open>While a pass works on it a request is not ready; between passes a ready request is settled.\<close>

definition busy :: "env \<Rightarrow> ('t, 'g, 'd) codec \<Rightarrow> 'd world \<Rightarrow> bool" where
  "busy e c w \<longleftrightarrow> chunks_ok c (wd_chunks w) \<and> checkpoints_ok e (wd_chunks w) (wd_checkpoints w) \<and>
     (case wd_request w of None \<Rightarrow> True | Some q \<Rightarrow> unready e q)"

definition sound :: "string set \<Rightarrow> env \<Rightarrow> ('t, 'g, 'd) codec \<Rightarrow> 'd world \<Rightarrow> bool" where
  "sound K e c w \<longleftrightarrow> chunks_ok c (wd_chunks w) \<and> checkpoints_ok e (wd_chunks w) (wd_checkpoints w) \<and>
     (case wd_request w of None \<Rightarrow> True | Some q \<Rightarrow> stamped_ready e q \<and>
        (IsReady e (q_conditions q) \<longrightarrow> isTerminal e q \<and> handed_over K e (wd_checkpoints w) (q_checkpoint_name q)))"

definition outside_ok :: "env \<Rightarrow> ('t, 'g, 'd) codec \<Rightarrow> ('t, 'g, 'd) outside \<Rightarrow> bool" where
  "outside_ok e c os \<longleftrightarrow> os_env os = e \<and> os_codec os = c \<and> os_now os \<noteq> '''' \<and>
     (\<forall>t. find_condition e [] t = None) \<and> (\<forall>k ns n obj. os_object os k ns n = Inr obj \<longrightarrow> canonical obj \<and> (\<exists>m. obj = JMap m))"

named_theorems keep "calls and steps that keep the invariant of a pass"

lemma outside_fields [simp]:
  "outside_ok e c os \<Longrightarrow> os_env os = e" "outside_ok e c os \<Longrightarrow> os_codec os = c" "outside_ok e c os \<Longrightarrow> os_now os \<noteq> []"
  by (simp_all add: outside_ok_def)

lemma no_condition: "outside_ok e c os \<Longrightarrow> find_condition e [] t = None"
  unfolding outside_ok_def by (elim conjE) (rule spec)

lemma outside_objects: "outside_ok e c os \<Longrightarrow> os_object os k ns n = Inr obj \<Longrightarrow> canonical obj \<and> (\<exists>m. obj = JMap m)"
  unfolding outside_ok_def by blast

lemma busy_sound: "busy e c w \<Longrightarrow> sound K e c w"
  by (auto simp: busy_def sound_def unready_def split: option.splits)

lemma contract_put:
  "conditions_contract e \<Longrightarrow> find_condition e cs (co_type d) = None \<Longrightarrow> co_time d \<noteq> [] \<Longrightarrow>
   find_condition e (put_condition e cs d) (co_type d) = Some d"
  by (simp add: conditions_contract_def)

lemma contract_removed: "conditions_contract e \<Longrightarrow> find_condition e (remove_condition e cs t) t = None"
  by (simp add: conditions_contract_def)

lemma set_ready:
  assumes "conditions_contract e" "time \<noteq> []"
  shows "find_condition e (setSingleCondition e conds (ready_condition st r m time)) ConditionReady =
    Some (ready_condition st r m time)"
  using contract_put [OF assms(1) contract_removed [OF assms(1)], of "ready_condition st r m time" conds] assms(2)
  by (simp add: setSingleCondition_def ready_condition_def)

lemma ready_fields [simp]:
  "co_status (ready_condition st r m time) = st" "co_reason (ready_condition st r m time) = r"
  "co_time (ready_condition st r m time) = time" "co_type (ready_condition st r m time) = ConditionReady"
  by (simp_all add: ready_condition_def)

lemma set_processing_unready:
  "conditions_contract e \<Longrightarrow> os_env os = e \<Longrightarrow> time \<noteq> [] \<Longrightarrow> q_targets q \<noteq> [] \<Longrightarrow> unready e (set_processing os m time q)"
  by (simp add: unready_def stamped_ready_def set_processing_def set_ready IsReady_def HasCondition_def)

section \<open>Calls\<close>

lemma served_eq: "served os w = (r, w') \<longleftrightarrow> r = os_fault os (wd_calls w) \<and> w' = w\<lparr>wd_calls := Suc (wd_calls w)\<rparr>"
  by (auto simp: served_def)

lemma busy_fields [simp]:
  "busy e c (w\<lparr>wd_calls := n\<rparr>) = busy e c w" "busy e c (w\<lparr>wd_keepers := ks\<rparr>) = busy e c w"
  "busy e c (w\<lparr>wd_config := cfg\<rparr>) = busy e c w"
  "sound K e c (w\<lparr>wd_calls := n\<rparr>) = sound K e c w" "sound K e c (w\<lparr>wd_config := cfg\<rparr>) = sound K e c w"
  by (simp_all add: busy_def sound_def cong: option.case_cong)

lemma get_request_eq:
  "get_request os w = (r, w') \<Longrightarrow> w' = w\<lparr>wd_calls := Suc (wd_calls w)\<rparr> \<and> (\<forall>q. r = Inr q \<longrightarrow> wd_request w = Some q)"
  by (auto simp: get_request_def served_def split: option.splits)

lemma get_keeper_eq: "get_keeper os n w = (r, w') \<Longrightarrow> w' = w\<lparr>wd_calls := Suc (wd_calls w)\<rparr>"
  by (auto simp: get_keeper_def served_def split: option.splits)

lemma get_checkpoint_eq:
  "get_checkpoint os n w = (r, w') \<Longrightarrow>
   w' = w\<lparr>wd_calls := Suc (wd_calls w)\<rparr> \<and> (\<forall>cp. r = Inr cp \<longrightarrow> wd_checkpoints w n = Some cp)"
  by (auto simp: get_checkpoint_def served_def split: option.splits)

lemma get_request_busy [keep]: "get_request os w = (r, w') \<Longrightarrow> busy e c w \<Longrightarrow>
  busy e c w' \<and> wd_checkpoints w' = wd_checkpoints w \<and> (\<forall>q. r = Inr q \<longrightarrow> unready e q)"
  using get_request_eq [of os w r w'] by (auto simp: busy_def)

lemma with_status_unready: "unready e q0 \<Longrightarrow> unready e q \<Longrightarrow> unready e (with_status q0 q)"
  by (auto simp: unready_def stamped_ready_def with_status_def)

lemma write_request_busy [keep]: "write_request os q w = (r, w') \<Longrightarrow> busy e c w \<Longrightarrow> unready e q \<Longrightarrow>
  busy e c w' \<and> wd_checkpoints w' = wd_checkpoints w"
  by (auto simp: write_request_def served_def busy_def with_status_unready split: option.splits)

lemma write_request_chunks: "write_request os q w = (r, w') \<Longrightarrow> wd_chunks w' = wd_chunks w"
  by (auto simp: write_request_def served_def split: option.splits)

lemma get_keeper_busy [keep]: "get_keeper os n w = (r, w') \<Longrightarrow> busy e c w \<Longrightarrow> busy e c w'"
  using get_keeper_eq [of os n w r w'] by simp

lemma create_keeper_busy [keep]: "create_keeper os n u w = (r, w') \<Longrightarrow> busy e c w \<Longrightarrow> busy e c w'"
  by (auto simp: create_keeper_def served_def split: option.splits if_splits)

lemma get_checkpoint_busy [keep]: "get_checkpoint os n w = (r, w') \<Longrightarrow> busy e c w \<Longrightarrow>
  busy e c w' \<and> wd_checkpoints w' = wd_checkpoints w \<and>
  (\<forall>cp. r = Inr cp \<longrightarrow> wd_checkpoints w' n = Some cp \<and> mc_name cp = n)"
  using get_checkpoint_eq [of os n w r w'] by (auto simp: busy_def checkpoints_ok_def)

section \<open>Steps that write the request\<close>

lemma write_processing:
  assumes "conditions_contract e" "outside_ok e c os" "write_request os (set_processing os m t q0) w = (r, w')"
    "busy e c w" "q_targets q0 \<noteq> []" "t \<noteq> []"
  shows "busy e c w' \<and> wd_checkpoints w' = wd_checkpoints w \<and> wd_chunks w' = wd_chunks w"
  using write_request_busy [OF assms(3,4)] write_request_chunks [OF assms(3)]
    set_processing_unready [OF assms(1) outside_fields(1) [OF assms(2)] assms(6,5)] by simp

lemma unready_targets: "unready e q \<Longrightarrow> q_targets q \<noteq> []"
  by (simp add: unready_def stamped_ready_def)

lemma unready_time: "unready e q \<Longrightarrow> find_condition e (q_conditions q) ConditionReady = Some cnd \<Longrightarrow> co_time cnd \<noteq> []"
  by (simp add: unready_def stamped_ready_def)

lemma with_status_targets [simp]: "q_targets (with_status q s) = q_targets q"
  by (simp add: with_status_def)

lemma set_processing_targets [simp]: "q_targets (set_processing os m t q) = q_targets q"
  by (simp add: set_processing_def)

lemma start_processing_busy [keep]:
  assumes "conditions_contract e" "outside_ok e c os" "start_processing os q w = (r, w')" "busy e c w"
  shows "busy e c w' \<and> (\<forall>q'. r = Inr q' \<longrightarrow> q_targets q' = q_targets q)"
proof -
  note f = outside_fields [OF assms(2)]
  have "busy e c w2"
    if "get_request os w = (Inr current, w1)" "write_request os (set_processing os m (os_now os) current) w1 = (x, w2)"
    for current w1 m x w2
    using get_request_busy [OF that(1) assms(4)] write_processing [OF assms(1,2) that(2)] unready_targets f(3) by blast
  then show ?thesis using assms(3,4)
    by (auto simp: start_processing_def Let_def f split: if_splits prod.splits sum.splits option.splits dest: get_request_busy)
qed

lemma store_message_busy [keep]:
  assumes "conditions_contract e" "outside_ok e c os" "store_message os m w = (r, w')" "busy e c w"
  shows "busy e c w' \<and> wd_checkpoints w' = wd_checkpoints w \<and> wd_chunks w' = wd_chunks w"
proof -
  obtain x w1 where g: "get_request os w = (x, w1)" by fastforce
  have 1: "busy e c w1" "wd_checkpoints w1 = wd_checkpoints w" "wd_chunks w1 = wd_chunks w"
    using get_request_busy [OF g assms(4)] get_request_eq [OF g] by simp_all
  note r = assms(3) [unfolded store_message_def g outside_fields(1) [OF assms(2)]]
  show ?thesis
  proof (cases x)
    case (Inr current)
    have u: "unready e current" using get_request_busy [OF g assms(4)] Inr by simp
    show ?thesis
    proof (cases "\<exists>cc. find_condition e (q_conditions current) ConditionReady = Some cc \<and> co_reason cc = ReasonProcessing")
      case True
      then obtain cc where cc: "find_condition e (q_conditions current) ConditionReady = Some cc" "co_reason cc = ReasonProcessing"
        by blast
      then have "write_request os (set_processing os m (co_time cc) current) w1 = (r, w')" using r Inr by simp
      from write_processing [OF assms(1,2) this 1(1) unready_targets [OF u] unready_time [OF u cc(1)]] 1(2,3) show ?thesis by simp
    qed (use r Inr 1 in \<open>auto split: option.splits\<close>)
  qed (use r 1 in simp)
qed

lemma updateProcessingMessage_busy [keep]:
  assumes "conditions_contract e" "outside_ok e c os" "updateProcessingMessage os q m w = (q', w')" "busy e c w"
  shows "busy e c w' \<and> wd_checkpoints w' = wd_checkpoints w \<and> wd_chunks w' = wd_chunks w \<and> q_targets q' = q_targets q"
  using assms(3) store_message_busy [OF assms(1,2) _ assms(4)] assms(4)
  by (auto simp: updateProcessingMessage_def prod_eq_iff split: if_splits option.splits)

lemma final_status:
  assumes "conditions_contract e" "outside_ok e c os" "unready e q0" "status \<noteq> ConditionTrue"
    "find_condition e (q_conditions q) ConditionReady = Some (ready_condition status reason m (os_now os))"
  shows "unready e (with_status q0 q)"
  using assms outside_fields(3) [OF assms(2)]
  by (auto simp: unready_def stamped_ready_def with_status_def IsReady_def HasCondition_def)

lemma finalizeMCR_failed [keep]:
  assumes "conditions_contract e" "outside_ok e c os" "finalizeMCR os q ConditionFalse reason m w = (r, w')" "busy e c w"
  shows "busy e c w'"
proof -
  note f = outside_fields [OF assms(2)]
  have "busy e c w2"
    if "get_request os w = (Inr current, w1)" "write_request os (with_status current q') w1 = (x, w2)"
      "q_conditions q' = setSingleCondition e (q_conditions q) (ready_condition ConditionFalse reason' m (os_now os))"
    for current w1 x w2 q' reason'
    using get_request_busy [OF that(1) assms(4)] write_request_busy [OF that(2)]
      final_status [OF assms(1,2), of current ConditionFalse q' reason' m]
      set_ready [OF assms(1) f(3)] that(3) by auto
  then show ?thesis using assms(3,4)
    by (auto simp: finalizeMCR_def Let_def f split: if_splits prod.splits sum.splits option.splits
        dest: get_request_busy)
qed

lemma finalizeMCR_ready:
  assumes "conditions_contract e" "outside_ok e c os" "finalizeMCR os q ConditionTrue reason m w = (r, w')" "busy e c w"
    "handed_over K e (wd_checkpoints w) (q_checkpoint_name q)"
  shows "sound K e c w'"
proof -
  note f = outside_fields [OF assms(2)]
  have "sound K e c w2"
    if r: "get_request os w = (Inr current, w1)" "write_request os (with_status current q') w1 = (x, w2)"
      and q': "q_conditions q' = setSingleCondition e (q_conditions q) (ready_condition ConditionTrue MCRCompleted m (os_now os))"
        "q_checkpoint_name q' = q_checkpoint_name q"
    for current w1 x w2 q'
  proof -
    have b: "busy e c w1" "wd_checkpoints w1 = wd_checkpoints w" "unready e current"
      using get_request_busy [OF r(1) assms(4)] by auto
    have c: "find_condition e (q_conditions q') ConditionReady = Some (ready_condition ConditionTrue MCRCompleted m (os_now os))"
      unfolding q'(1) by (rule set_ready [OF assms(1) f(3)])
    have "stamped_ready e (with_status q0 (with_status current q')) \<and> isTerminal e (with_status q0 (with_status current q'))"
      if "unready e q0" for q0
      using that c f(3) by (auto simp: unready_def stamped_ready_def with_status_def isTerminal_def)
    then show ?thesis using r(2) b(1,2) q'(2) assms(5)
      by (auto simp: write_request_def served_def busy_def sound_def with_status_def unready_def split: option.splits)
  qed
  then show ?thesis using assms(3,4)
    by (auto simp: finalizeMCR_def Let_def f split: if_splits prod.splits sum.splits option.splits dest: get_request_busy intro: busy_sound)
qed

lemma finalize_then_busy [keep]:
  "conditions_contract e \<Longrightarrow> outside_ok e c os \<Longrightarrow> finalize_then os q ConditionFalse reason m r0 w = (r, w') \<Longrightarrow>
   busy e c w \<Longrightarrow> busy e c w'"
  using finalizeMCR_failed [of e c os q reason m w]
  by (auto simp: finalize_then_def split: prod.splits option.splits)

lemma mark_pending_busy [keep]:
  assumes "conditions_contract e" "outside_ok e c os" "markMCRCheckpointPendingHandoff os n m w = (y, w')" "busy e c w"
  shows "busy e c w'"
proof -
  note f = outside_fields [OF assms(2)]
  obtain x w1 where g: "get_request os w = (x, w1)" by fastforce
  have 1: "busy e c w1" using get_request_busy [OF g assms(4)] by simp
  show ?thesis
  proof (cases x)
    case (Inr current)
    let ?t = "case find_condition e (q_conditions current) ConditionReady of None \<Rightarrow> os_now os
        | Some cc \<Rightarrow> if co_reason cc = ReasonProcessing then co_time cc else os_now os"
    have u: "unready e current" using get_request_busy [OF g assms(4)] Inr by simp
    have t: "?t \<noteq> []" using f(3) unready_time [OF u] by (auto split: option.splits)
    have "write_request os (set_processing os m ?t (current\<lparr>q_checkpoint_name := n\<rparr>)) w1 = (y, w')"
      using assms(3) Inr by (simp add: markMCRCheckpointPendingHandoff_def g f Let_def)
    from write_processing [OF assms(1,2) this 1 _ t] unready_targets [OF u] show ?thesis by simp
  qed (use assms(3) 1 in \<open>simp add: markMCRCheckpointPendingHandoff_def g\<close>)
qed

lemma pending_then_busy [keep]:
  "conditions_contract e \<Longrightarrow> outside_ok e c os \<Longrightarrow> pending_then os n m r0 w = (r, w') \<Longrightarrow> busy e c w \<Longrightarrow> busy e c w'"
  using mark_pending_busy [of e c os n m w]
  by (auto simp: pending_then_def split: prod.splits option.splits)

lemma mark_pending_checkpoints:
  "markMCRCheckpointPendingHandoff os n m w = (x, w') \<Longrightarrow> wd_checkpoints w' = wd_checkpoints w"
  by (auto simp: markMCRCheckpointPendingHandoff_def get_request_def write_request_def served_def Let_def
      split: option.splits)

text \<open>A local copy of a checkpoint whose owners, or owners and conditions, are those of the stored one.\<close>

definition same_owners :: "(string \<Rightarrow> checkpoint option) \<Rightarrow> checkpoint \<Rightarrow> bool" where
  "same_owners cps cp \<longleftrightarrow> (\<exists>cp0. cps (mc_name cp) = Some cp0 \<and> mc_owner_refs cp0 = mc_owner_refs cp)"

definition backed :: "(string \<Rightarrow> checkpoint option) \<Rightarrow> checkpoint \<Rightarrow> bool" where
  "backed cps cp \<longleftrightarrow> (\<exists>cp0. cps (mc_name cp) = Some cp0 \<and> mc_owner_refs cp0 = mc_owner_refs cp \<and>
     mc_conditions cp0 = mc_conditions cp)"

lemma finalizeMCRIfCheckpointHandedOff_sound:
  assumes "conditions_contract e" "outside_ok e c os" "finalizeMCRIfCheckpointHandedOff os q cp w = (r, w')"
    "busy e c w" "backed (wd_checkpoints w) cp"
  shows "sound K e c w'"
proof (cases "IsReady e (mc_conditions cp) \<and> manifestCheckpointOwnedBySnapshotContent cp")
  case True
  then have h: "handed_over K e (wd_checkpoints w) (mc_name cp)"
    using assms(5) by (auto simp: handed_over_def backed_def manifestCheckpointOwnedBySnapshotContent_def)
  have "finalize_then os (q\<lparr>q_checkpoint_name := mc_name cp\<rparr>) ConditionTrue MCRCompleted
      (''Checkpoint '' @ mc_name cp @ '' handed off to SnapshotContent'') Done w = (r, w')"
    using True assms(3)
    by (auto simp: finalizeMCRIfCheckpointHandedOff_def IsReady_def HasCondition_def outside_fields [OF assms(2)]
        split: option.splits)
  then show ?thesis
    using finalizeMCR_ready [OF assms(1,2) _ assms(4), of "q\<lparr>q_checkpoint_name := mc_name cp\<rparr>"] h
    by (auto simp: finalize_then_def split: prod.splits option.splits)
next
  case False
  then have "busy e c w'"
    using assms(3,4) pending_then_busy [OF assms(1,2)] finalize_then_busy [OF assms(1,2)]
    by (auto simp: finalizeMCRIfCheckpointHandedOff_def IsReady_def HasCondition_def outside_fields [OF assms(2)]
        split: option.splits if_splits)
  then show ?thesis by (rule busy_sound)
qed

section \<open>Steps that write the checkpoint\<close>

lemma ensure_keeper_busy [keep]:
  assumes "conditions_contract e" "outside_ok e c os" "ensure_keeper os q w = (r, w')" "busy e c w"
  shows "busy e c w'"
  using assms(3,4)
  by (auto simp: ensure_keeper_def Let_def split: if_splits prod.splits sum.splits option.splits
      dest: get_keeper_busy create_keeper_busy finalize_then_busy [OF assms(1,2)])

lemma not_ready_marked:
  "conditions_contract e \<Longrightarrow> outside_ok e c os \<Longrightarrow> st \<noteq> ConditionTrue \<Longrightarrow>
   \<not> IsReady e (mc_conditions (mark_checkpoint os st r m cp))"
  by (simp add: mark_checkpoint_def IsReady_def HasCondition_def outside_fields(1) [of e c os]
      set_ready [OF _ outside_fields(3) [of e c os]])

lemma mark_checkpoint_fields [simp]:
  "mc_name (mark_checkpoint os st r m cp) = mc_name cp" "mc_owner_refs (mark_checkpoint os st r m cp) = mc_owner_refs cp"
  "mc_uid (mark_checkpoint os st r m cp) = mc_uid cp" "mc_chunks (mark_checkpoint os st r m cp) = mc_chunks cp"
  by (simp_all add: mark_checkpoint_def)

lemma checkpoints_ok_upd:
  "checkpoints_ok e ch cps \<Longrightarrow> mc_name cp = n \<Longrightarrow> (IsReady e (mc_conditions cp) \<longrightarrow> listed ch n (mc_chunks cp)) \<Longrightarrow>
   checkpoints_ok e ch (cps(n \<mapsto> cp))"
  by (simp add: checkpoints_ok_def)

lemma create_checkpoint_busy [keep]:
  assumes "outside_ok e c os" "create_checkpoint os cp w = (r, w')" "busy e c w" "mc_conditions cp = []"
  shows "busy e c w' \<and> (\<forall>cp'. r = Inr cp' \<longrightarrow> mc_name cp' = mc_name cp \<and> same_owners (wd_checkpoints w') cp')"
proof (cases "os_fault os (wd_calls w) = None \<and> wd_checkpoints w (mc_name cp) = None")
  case True
  let ?cp = "cp\<lparr>mc_uid := os_uid os (mc_name cp)\<rparr>"
  have "\<not> IsReady e []" using no_condition [OF assms(1)] by (simp add: IsReady_def HasCondition_def)
  then have "checkpoints_ok e (wd_chunks w) ((wd_checkpoints w)(mc_name cp \<mapsto> ?cp))"
    using assms(3,4) by (intro checkpoints_ok_upd) (simp_all add: busy_def)
  then show ?thesis using True assms(2,3)
    by (auto simp: create_checkpoint_def served_def busy_def same_owners_def Let_def)
qed (use assms(2,3) in \<open>auto simp: create_checkpoint_def served_def split: option.splits\<close>)

lemma write_checkpoint_busy [keep]:
  assumes "write_checkpoint os cp w = (r, w')" "busy e c w"
    "IsReady e (mc_conditions cp) \<longrightarrow> listed (wd_chunks w) (mc_name cp) (mc_chunks cp)"
  shows "busy e c w' \<and> wd_chunks w' = wd_chunks w \<and>
    (same_owners (wd_checkpoints w) cp \<longrightarrow> same_owners (wd_checkpoints w') cp) \<and>
    (same_owners (wd_checkpoints w) cp \<longrightarrow> r = None \<longrightarrow> backed (wd_checkpoints w') cp)"
proof (cases "os_fault os (wd_calls w) = None \<and> wd_checkpoints w (mc_name cp) \<noteq> None")
  case True
  then obtain cp0 where cp0: "wd_checkpoints w (mc_name cp) = Some cp0" by blast
  let ?cp = "cp0\<lparr>mc_conditions := mc_conditions cp, mc_chunks := mc_chunks cp,
      mc_total_objects := mc_total_objects cp, mc_total_size := mc_total_size cp\<rparr>"
  have "checkpoints_ok e (wd_chunks w) ((wd_checkpoints w)(mc_name cp \<mapsto> ?cp))"
    using assms(2,3) cp0 by (intro checkpoints_ok_upd) (simp_all add: busy_def checkpoints_ok_def)
  then show ?thesis using True cp0 assms(1,2)
    by (auto simp: write_checkpoint_def served_def busy_def same_owners_def backed_def)
qed (use assms(1,2) in \<open>auto simp: write_checkpoint_def served_def split: option.splits\<close>)

lemma ensure_checkpoint_busy [keep]:
  assumes "conditions_contract e" "outside_ok e c os" "ensure_checkpoint os q n owner w = (r, w')" "busy e c w"
  shows "busy e c w' \<and> (\<forall>cp q'. r = Inr (cp, q') \<longrightarrow> mc_name cp = n \<and> same_owners (wd_checkpoints w') cp)"
proof -
  note f = outside_fields [OF assms(2)]
  obtain x w1 where g: "create_checkpoint os (new_checkpoint q n owner) w = (x, w1)" by fastforce
  have 1: "busy e c w1" "\<forall>cp. x = Inr cp \<longrightarrow> mc_name cp = n \<and> same_owners (wd_checkpoints w1) cp"
    using create_checkpoint_busy [OF assms(2) g assms(4)] by (simp_all add: new_checkpoint_def)
  have mark: "busy e c w3 \<and> same_owners (wd_checkpoints w3) (mark_checkpoint os ConditionFalse rs m cp)"
    if "write_checkpoint os (mark_checkpoint os ConditionFalse rs m cp) w2 = (y, w3)" "busy e c w2" "same_owners (wd_checkpoints w2) cp"
    for w2 y w3 rs m cp
    using write_checkpoint_busy [OF that(1,2)] not_ready_marked [OF assms(1,2)] that(3) by (simp add: same_owners_def)
  show ?thesis
  proof (cases x)
    case (Inr cp)
    obtain y w2 where w2: "write_checkpoint os (mark_checkpoint os ConditionFalse ReasonProcessing
        ''Checkpoint created, creating chunks...'' cp) w1 = (y, w2)" by fastforce
    obtain q2 w3 where w3: "updateProcessingMessage os q (''Created checkpoint '' @ n @ '', collecting objects...'') w2 = (q2, w3)"
      by fastforce
    show ?thesis using assms(3) Inr 1 mark [OF w2] updateProcessingMessage_busy [OF assms(1,2) w3] w2 w3
      by (auto simp: ensure_checkpoint_def g Let_def)
  next
    case (Inl x')
    obtain z w2 where w2: "get_checkpoint os n w1 = (z, w2)" by fastforce
    have b: "busy e c w2" "\<forall>cp. z = Inr cp \<longrightarrow> mc_name cp = n \<and> same_owners (wd_checkpoints w2) cp"
      using get_checkpoint_busy [OF w2 1(1)] by (auto simp: same_owners_def)
    show ?thesis
    proof (cases "x' = AlreadyExists \<and> (\<exists>cp. z = Inr cp \<and> \<not> processing e (mc_conditions cp))")
      case True
      then obtain cp where cp: "z = Inr cp" "\<not> processing e (mc_conditions cp)" "x' = AlreadyExists" by blast
      obtain y w3 where w3: "write_checkpoint os (mark_checkpoint os ConditionFalse ReasonProcessing
          ''Resuming checkpoint creation, creating chunks...'' cp) w2 = (y, w3)" by fastforce
      show ?thesis using assms(3) Inl cp b mark [OF w3] by (auto simp: ensure_checkpoint_def g w2 w3 f Let_def)
    qed (use assms(3) Inl 1 b finalize_then_busy [OF assms(1,2)] in
        \<open>auto simp: ensure_checkpoint_def g w2 f split: if_splits sum.splits prod.splits\<close>)
  qed
qed

section \<open>The chunks of a pass\<close>

text \<open>Creating chunks adds chunks of the codec under names that were free, and lists what is stored.\<close>

definition extends :: "('t, 'g, 'd) codec \<Rightarrow> (string \<Rightarrow> 'd chunk option) \<Rightarrow> 'd chunk_api \<Rightarrow> 'd chunk_api \<Rightarrow> bool" where
  "extends c chunks a0 a \<longleftrightarrow> (\<forall>n. (ca_create a n = None \<longrightarrow> chunks n = None) \<and>
     (ca_get a n = ca_get a0 n \<or> (chunks n = None \<and> (\<exists>ck. ca_get a n = Found ck \<and> chunk_made c ck))))"

lemma extends_put:
  "extends c chunks a0 a \<Longrightarrow> ca_create a n = None \<Longrightarrow> chunk_made c ck \<Longrightarrow> extends c chunks a0 (put_chunk n ck a)"
  by (simp add: extends_def put_chunk_def)

lemma new_chunk_made:
  assumes "codec_ok c" "plain_maps c objs" "cd_encode c (JList objs) = Some t" "cd_gzip c t = Inr g"
  shows "chunk_made c (new_chunk c cp uid i n g)"
proof -
  have "cd_parse c t = Some (JList objs)"
    using codec_encode [OF assms(1), of "JList objs"] assms(2,3) by (auto simp: plain_maps_def)
  moreover have "cd_gunzip c g = Inr t" using codec_gzip [OF assms(1), of t] assms(4) by auto
  ultimately show ?thesis using assms(1,2) unfolding chunk_made_def
    by (intro exI [of _ objs] exI [of _ t] exI [of _ g]) (simp add: new_chunk_def)
qed

lemma create_chunk_extends:
  assumes "codec_ok c" "extends c chunks a0 a" "plain_maps c objs" "create_chunk c cp uid i objs a = (r, a')"
  shows "extends c chunks a0 a'"
  using assms(2,4) new_chunk_made [OF assms(1,3), of _ _ cp uid i "length objs"]
  by (auto simp: create_chunk_def Let_def intro: extends_put split: option.splits sum.splits if_splits)

lemma create_loop_extends:
  assumes "codec_ok c"
  shows "extends c chunks a0 a \<Longrightarrow> \<forall>objs\<in>set groups. plain_maps c objs \<Longrightarrow> create_loop c cp uid i groups a = (r, a') \<Longrightarrow>
    extends c chunks a0 a'"
proof (induction groups arbitrary: i a r)
  case (Cons objs groups)
  obtain r1 a1 where 1: "create_chunk c cp uid i objs a = (r1, a1)" by fastforce
  have "extends c chunks a0 a1" using create_chunk_extends [OF assms Cons.prems(1) _ 1] Cons.prems(2) by simp
  with Cons.IH [of a1 "Suc i"] Cons.prems(2,3) 1 show ?case by (auto split: sum.splits prod.splits)
qed simp

definition info_found :: "'d chunk_api \<Rightarrow> string \<Rightarrow> nat \<Rightarrow> chunk_info \<Rightarrow> bool" where
  "info_found a cp k info \<longleftrightarrow> ci_index info = int k \<and> (\<exists>ck. ca_get a (ci_name info) = Found ck \<and>
     ck_checkpoint ck = cp \<and> ck_index ck = int k \<and> ck_checksum ck = ci_checksum info)"

lemma create_chunk_found:
  "create_chunk c cp uid i objs a = (Inr info, a') \<Longrightarrow> ci_name info = ChunkName (cd_digest c) uid i \<and> info_found a' cp i info"
  by (auto simp: create_chunk_def info_found_def put_chunk_def new_chunk_def chunk_info_of_def verify_chunk_def Let_def
      split: option.splits sum.splits if_splits get_res.splits)

lemma create_loop_found:
  "create_loop c cp uid i groups a = (Inr infos, a') \<Longrightarrow>
   length infos = length groups \<and> (\<forall>k<length infos. info_found a' cp (i + k) (infos ! k))"
proof (induction groups arbitrary: i a infos)
  case (Cons objs groups)
  obtain info a1 rest where 1: "create_chunk c cp uid i objs a = (Inr info, a1)"
    "create_loop c cp uid (Suc i) groups a1 = (Inr rest, a')" "infos = info # rest"
    using Cons.prems by (auto split: sum.splits prod.splits)
  have n: "ci_name info = ChunkName (cd_digest c) uid i" "info_found a1 cp i info" using create_chunk_found [OF 1(1)] by auto
  have "ca_get a' (ChunkName (cd_digest c) uid i) = ca_get a1 (ChunkName (cd_digest c) uid i)"
    using create_loop_frame [OF 1(2)] by simp
  then have first: "info_found a' cp i info" using n by (simp add: info_found_def)
  note IH = Cons.IH [OF 1(2)]
  show ?case
  proof (intro conjI allI impI)
    show "length infos = length (objs # groups)" using IH 1(3) by simp
    fix k assume "k < length infos"
    then show "info_found a' cp (i + k) (infos ! k)" using first IH 1(3) by (cases k) auto
  qed
qed simp

lemma view_extends: "extends c (wd_chunks w) (chunk_view os w) (chunk_view os w)"
  by (auto simp: extends_def chunk_view_def split: option.splits if_splits)

lemma extends_found:
  assumes "extends c (wd_chunks w) (chunk_view os w) a" "ca_get a n = Found ck"
  shows "wd_chunks w n = Some ck \<or> (wd_chunks w n = None \<and> chunk_made c ck)"
proof -
  have "ca_get a n = ca_get (chunk_view os w) n \<or> (wd_chunks w n = None \<and> (\<exists>ck. ca_get a n = Found ck \<and> chunk_made c ck))"
    using assms(1) unfolding extends_def by blast
  then show ?thesis using assms(2) by (auto simp: chunk_view_def split: option.splits)
qed

lemma stored_view:
  assumes "extends c (wd_chunks w) (chunk_view os w) a"
  shows "ca_get a n = Found ck \<longrightarrow> wd_chunks (store_chunks a w) n = Some ck"
    "wd_chunks w n = Some ck \<longrightarrow> wd_chunks (store_chunks a w) n = Some ck"
    "chunks_ok c (wd_chunks w) \<longrightarrow> chunks_ok c (wd_chunks (store_chunks a w))"
  using extends_found [OF assms]
  by (auto simp: store_chunks_def chunks_ok_def split: get_res.splits) (metis option.sel option.distinct(1))+

lemma createChunks_world:
  assumes "codec_ok c" "\<forall>x\<in>set objs. canonical x \<and> (\<exists>m. x = JMap m)" "objs \<noteq> []"
    and run: "createChunks c mx cp uid objs (chunk_view os w) = (r, a)"
  shows "extends c (wd_chunks w) (chunk_view os w) a \<and> (\<forall>infos. r = Inr infos \<longrightarrow> listed (wd_chunks (store_chunks a w)) cp infos)"
proof -
  let ?objs = "map (prepare_object c) objs"
  have p: "\<forall>x\<in>set ?objs. canonical x \<and> renumber (cd_renum c) x = x \<and> (\<exists>m. x = JMap m)"
    using prepared_objects [OF assms(1,2)] .
  obtain groups where s: "split_objects c mx ?objs = Inr groups" "concat groups = ?objs"
    using split_objects_ok [OF assms(1), of ?objs mx] p by blast
  have loop: "create_loop c cp uid 0 groups (chunk_view os w) = (r, a)"
    using run assms(3) s(1) by (simp add: createChunks_def)
  have "\<forall>x\<in>set (concat groups). canonical x \<and> renumber (cd_renum c) x = x \<and> (\<exists>m. x = JMap m)"
    using p unfolding s(2) .
  then have "\<forall>objs\<in>set groups. plain_maps c objs" by (auto simp: plain_maps_def)
  then have x: "extends c (wd_chunks w) (chunk_view os w) a" using create_loop_extends [OF assms(1) view_extends _ loop] by blast
  moreover have "listed (wd_chunks (store_chunks a w)) cp infos" if "r = Inr infos" for infos
  proof -
    have l: "length infos = length groups" "\<forall>k<length infos. info_found a cp k (infos ! k)"
      using create_loop_found [of c cp uid 0 groups "chunk_view os w" infos a] loop that by auto
    have "groups \<noteq> []" using groups_nonempty [OF s(2) assms(3)] .
    then show ?thesis using l stored_view(1) [OF x]
      by (fastforce simp: listed_def info_stored_def info_found_def)
  qed
  ultimately show ?thesis by blast
qed

lemma listed_mono:
  assumes "\<And>n ck. chunks n = Some ck \<Longrightarrow> chunks' n = Some ck" "listed chunks cp infos"
  shows "listed chunks' cp infos"
  using assms(2) unfolding listed_def info_stored_def by (metis assms(1))

lemma store_chunks_busy [keep]:
  assumes "extends c (wd_chunks w) (chunk_view os w) a" "busy e c w"
  shows "busy e c (store_chunks a w)" "wd_checkpoints (store_chunks a w) = wd_checkpoints w"
proof -
  show "wd_checkpoints (store_chunks a w) = wd_checkpoints w" by (simp add: store_chunks_def)
  have "checkpoints_ok e (wd_chunks (store_chunks a w)) (wd_checkpoints w)"
    using assms(2) stored_view(2) [OF assms(1)] listed_mono [of "wd_chunks w" "wd_chunks (store_chunks a w)"]
    unfolding busy_def checkpoints_ok_def by blast
  then show "busy e c (store_chunks a w)"
    using assms(2) stored_view(3) [OF assms(1)] by (simp add: busy_def store_chunks_def)
qed

lemma create_chunks_step_busy [keep]:
  assumes "conditions_contract e" "codec_ok c" "outside_ok e c os" "create_chunks_step os q cp objs w = (r, w')" "busy e c w"
    "\<forall>x\<in>set objs. canonical x \<and> (\<exists>m. x = JMap m)" "objs \<noteq> []" "same_owners (wd_checkpoints w) cp"
  shows "busy e c w' \<and> (\<forall>chunks q'. r = Inr (chunks, q') \<longrightarrow>
    listed (wd_chunks w') (mc_name cp) chunks \<and> same_owners (wd_checkpoints w') cp)"
proof -
  note f = outside_fields [OF assms(3)]
  obtain q1 w1 where u: "updateProcessingMessage os q (''Creating chunks for checkpoint '' @ mc_name cp @ '' ('' @
      show_nat (length objs) @ '' objects)...'') w = (q1, w1)" by fastforce
  have 1: "busy e c w1" "wd_checkpoints w1 = wd_checkpoints w"
    using updateProcessingMessage_busy [OF assms(1,3) u assms(5)] by auto
  obtain x a where c: "createChunks c (MaxChunkSizeBytes (wd_config w1)) (mc_name cp) (mc_uid cp) objs (chunk_view os w1) = (x, a)"
    by fastforce
  have 2: "extends c (wd_chunks w1) (chunk_view os w1) a"
    "\<forall>infos. x = Inr infos \<longrightarrow> listed (wd_chunks (store_chunks a w1)) (mc_name cp) infos"
    using createChunks_world [OF assms(2,6,7) c] by auto
  note 3 = store_chunks_busy [OF 2(1) 1(1)]
  note r = assms(4) [unfolded create_chunks_step_def u f prod.case c Let_def]
  show ?thesis
  proof (cases x)
    case (Inr chunks)
    then show ?thesis using r assms(8) 1(2) 2(2) 3 by auto
  next
    case (Inl y)
    obtain z w3 where w3: "write_checkpoint os (mark_checkpoint os ConditionFalse MCRFailed ''Failed to create chunks'' cp)
        (store_chunks a w1) = (z, w3)" by fastforce
    have "busy e c w3"
      using write_checkpoint_busy [OF w3 3(1)] not_ready_marked [OF assms(1,3)] by simp
    then show ?thesis
      using r Inl w3 3 updateProcessingMessage_busy [OF assms(1,3) _ 3(1)] finalize_then_busy [OF assms(1,3)]
      by (auto split: if_splits prod.splits)
  qed
qed

lemma complete_checkpoint_sound:
  assumes "conditions_contract e" "outside_ok e c os" "complete_checkpoint os q cp chunks w = (r, w')" "busy e c w"
    "listed (wd_chunks w) (mc_name cp) chunks" "same_owners (wd_checkpoints w) cp"
  shows "sound K e c w'"
proof -
  let ?cp = "mark_checkpoint os ConditionTrue MCRCompleted ''Checkpoint created''
      (cp\<lparr>mc_chunks := chunks, mc_total_objects := sum_list (map ci_count chunks),
          mc_total_size := sum_list (map ci_size chunks)\<rparr>)"
  have same: "same_owners (wd_checkpoints w) ?cp" using assms(6) by (simp add: same_owners_def)
  obtain x w1 where w1: "write_checkpoint os ?cp w = (x, w1)" by fastforce
  have 1: "busy e c w1" "x = None \<longrightarrow> backed (wd_checkpoints w1) ?cp"
    using write_checkpoint_busy [OF w1 assms(4)] assms(5) same by auto
  obtain y w2 where w2: "markMCRCheckpointPendingHandoff os (mc_name ?cp)
      (''Checkpoint '' @ mc_name ?cp @ '' created; waiting for SnapshotContent ownerRef handoff'') w1 = (y, w2)" by fastforce
  have 2: "busy e c w2" "wd_checkpoints w2 = wd_checkpoints w1"
    using mark_pending_busy [OF assms(1,2) w2 1(1)] mark_pending_checkpoints [OF w2] by auto
  note r = assms(3) [unfolded complete_checkpoint_def Let_def w1 prod.case w2]
  show ?thesis
  proof (cases "x = None \<and> y = None")
    case True
    then have "finalizeMCRIfCheckpointHandedOff os (q\<lparr>q_checkpoint_name := mc_name ?cp\<rparr>) ?cp w2 = (r, w')"
      using r by simp
    then show ?thesis
      using finalizeMCRIfCheckpointHandedOff_sound [OF assms(1,2) _ 2(1)] 1(2) 2(2) True by simp
  next
    case False
    then have "w' = w1 \<or> w' = w2" using r by (auto split: option.splits)
    then show ?thesis using busy_sound [OF 1(1)] busy_sound [OF 2(1)] by blast
  qed
qed

section \<open>A whole pass\<close>

lemma build_checkpoint_sound:
  assumes "conditions_contract e" "codec_ok c" "outside_ok e c os" "build_checkpoint os q n objs owner w = (r, w')" "busy e c w"
    "\<forall>x\<in>set objs. canonical x \<and> (\<exists>m. x = JMap m)" "objs \<noteq> []"
  shows "sound K e c w'"
proof -
  obtain x w1 where w1: "ensure_checkpoint os q n owner w = (x, w1)" by fastforce
  note 1 = ensure_checkpoint_busy [OF assms(1,3) w1 assms(5)]
  show ?thesis
  proof (cases x)
    case (Inr p)
    obtain cp q1 where p: "p = (cp, q1)" by fastforce
    obtain y w2 where w2: "create_chunks_step os q1 cp objs w1 = (y, w2)" by fastforce
    note 2 = create_chunks_step_busy [OF assms(1-3) w2 _ assms(6,7)]
    show ?thesis
      using assms(4) 1 2 Inr p w1 w2 complete_checkpoint_sound [OF assms(1,3)] busy_sound
      by (cases y) (auto simp: build_checkpoint_def)
  qed (use assms(4) 1 w1 busy_sound in \<open>auto simp: build_checkpoint_def\<close>)
qed

lemma capture_objects_sound:
  assumes "conditions_contract e" "codec_ok c" "outside_ok e c os" "capture_objects os q objs w = (r, w')" "busy e c w"
    "\<forall>x\<in>set objs. canonical x \<and> (\<exists>m. x = JMap m)" "objs \<noteq> []"
  shows "sound K e c w'"
proof -
  let ?n = "if q_checkpoint_name q \<noteq> '''' then q_checkpoint_name q else ManifestCheckpointName (cd_digest c) (q_uid q)"
  obtain q1 w1 where w1: "updateProcessingMessage os q ''Creating ObjectKeeper...'' w = (q1, w1)" by fastforce
  have 1: "busy e c w1" using updateProcessingMessage_busy [OF assms(1,3) w1 assms(5)] by simp
  obtain x w2 where w2: "ensure_keeper os q1 w1 = (x, w2)" by fastforce
  have 2: "busy e c w2" using ensure_keeper_busy [OF assms(1,3) w2 1] .
  obtain y w3 where w3: "get_checkpoint os ?n w2 = (y, w3)" by fastforce
  have 3: "busy e c w3" "\<forall>cp. y = Inr cp \<longrightarrow> backed (wd_checkpoints w3) cp"
    using get_checkpoint_busy [OF w3 2] by (auto simp: backed_def)
  note r = assms(4) [unfolded capture_objects_def outside_fields(1,2) [OF assms(3)] Let_def w1 prod.case w2]
  show ?thesis
  proof (cases x)
    case (Inr uid)
    note r = r [unfolded Inr sum.case prod.case w3]
    show ?thesis
    proof (cases "\<exists>cp. y = Inr cp \<and> manifestCheckpointDoneOrFailed e cp")
      case True
      then show ?thesis using r 3 finalizeMCRIfCheckpointHandedOff_sound [OF assms(1,3)] by auto
    next
      case False
      then show ?thesis using r build_checkpoint_sound [OF assms(1-3) _ 3(1) assms(6,7)] by (cases y) auto
    qed
  qed (use r 2 busy_sound in auto)
qed

lemma collect_loop_objects:
  assumes "outside_ok e c os"
  shows "collect_loop os ns ts col acc = Inr objs \<Longrightarrow> \<forall>x\<in>set acc. canonical x \<and> (\<exists>m. x = JMap m) \<Longrightarrow>
    (\<forall>x\<in>set objs. canonical x \<and> (\<exists>m. x = JMap m)) \<and> (acc \<noteq> [] \<or> (ts \<noteq> [] \<and> col = []) \<longrightarrow> objs \<noteq> [])"
proof (induction ts arbitrary: col acc)
  case (Cons t ts)
  obtain obj where o: "fetch_target os ns t = Inr obj" using Cons.prems(1) by (auto split: sum.splits)
  have "canonical obj \<and> (\<exists>m. obj = JMap m)"
    using o outside_objects [OF assms] by (auto simp: fetch_target_def Let_def split: option.splits sum.splits if_splits)
  then show ?case
    using Cons.prems o Cons.IH [of col acc] Cons.IH [of "object_key obj # col" "acc @ [obj]"]
    by (auto split: if_splits)
qed simp

lemma collectTargetObjects_objects:
  assumes "outside_ok e c os" "collectTargetObjects os q = Inr objs" "q_targets q \<noteq> []"
  shows "(\<forall>x\<in>set objs. canonical x \<and> (\<exists>m. x = JMap m)) \<and> objs \<noteq> []"
proof -
  obtain xs where xs: "collect_loop os (q_namespace q) (q_targets q) [] [] = Inr xs" "objs = sortObjects xs"
    using assms(2) by (auto simp: collectTargetObjects_def split: sum.splits)
  moreover have "set (sortObjects xs) = set xs" "sortObjects xs = [] \<longleftrightarrow> xs = []"
    by (simp_all add: sortObjects_def flip: set_empty)
  ultimately show ?thesis using collect_loop_objects [OF assms(1) xs(1)] assms(3) by simp
qed

lemma processCaptureRequest_sound:
  assumes "conditions_contract e" "codec_ok c" "outside_ok e c os" "processCaptureRequest os q w = (r, w')" "busy e c w"
    "q_targets q \<noteq> []"
  shows "sound K e c w'"
proof -
  obtain x w1 where w1: "start_processing os q w = (x, w1)" by fastforce
  have 1: "busy e c w1" "\<forall>q1. x = Inr q1 \<longrightarrow> q_targets q1 \<noteq> []"
    using start_processing_busy [OF assms(1,3) w1 assms(5)] assms(6) by auto
  note r = assms(4) [unfolded processCaptureRequest_def w1 prod.case]
  show ?thesis
  proof (cases x)
    case (Inr q1)
    show ?thesis
    proof (cases "collectTargetObjects os q1")
      case (Inl y)
      then show ?thesis using r Inr 1 finalize_then_busy [OF assms(1,3)] by (intro busy_sound) (auto split: if_splits)
    next
      case o: (Inr objs)
      have "q_targets q1 \<noteq> []" using 1(2) Inr by simp
      note objs = collectTargetObjects_objects [OF assms(3) o this]
      have "capture_objects os q1 objs w1 = (r, w')" using r Inr o by simp
      from capture_objects_sound [OF assms(1-3) this 1(1)] objs show ?thesis by blast
    qed
  qed (use r 1 busy_sound in auto)
qed

lemma not_terminal_busy:
  "sound K e c w \<Longrightarrow> wd_request w = Some q \<Longrightarrow> \<not> isTerminal e q \<Longrightarrow> busy e c w"
  by (auto simp: sound_def busy_def unready_def)

lemma load_config_fields [simp]:
  "wd_request (loadConfigFromConfigMap os w) = wd_request w" "sound K e c (loadConfigFromConfigMap os w) = sound K e c w"
  by (simp_all add: loadConfigFromConfigMap_def split: get_res.splits)

lemma Reconcile_sound:
  assumes "conditions_contract e" "codec_ok c" "outside_ok e c os" "Reconcile os w = (r, w')" "sound K e c w"
  shows "sound K e c w'"
proof -
  obtain x w1 where g: "get_request os (loadConfigFromConfigMap os w) = (x, w1)" by fastforce
  have 1: "sound K e c w1" "wd_request w1 = wd_request w" "\<forall>q. x = Inr q \<longrightarrow> wd_request w = Some q"
    using get_request_eq [OF g] assms(5) by auto
  note r = assms(4) [unfolded Reconcile_def g prod.case outside_fields(1) [OF assms(3)]]
  show ?thesis
  proof (cases "\<exists>q. x = Inr q \<and> \<not> isTerminal e q")
    case True
    then obtain q where q: "x = Inr q" "\<not> isTerminal e q" by blast
    have b: "busy e c w1" using not_terminal_busy [OF 1(1)] 1(2,3) q by simp
    have t: "q_targets q \<noteq> []" using b 1(2,3) q(1) by (simp add: busy_def unready_def stamped_ready_def)
    obtain y w2 where w2: "get_checkpoint os (q_checkpoint_name q) w1 = (y, w2)" by fastforce
    have 2: "busy e c w2" "\<forall>cp. y = Inr cp \<longrightarrow> backed (wd_checkpoints w2) cp"
      using get_checkpoint_busy [OF w2 b] by (auto simp: backed_def)
    show ?thesis
      using r q w2 2 b processCaptureRequest_sound [OF assms(1-3) _ _ t] finalizeMCRIfCheckpointHandedOff_sound [OF assms(1,3)]
      by (auto split: if_splits sum.splits)
  qed (use r 1 in \<open>auto split: sum.splits if_splits\<close>)
qed

section \<open>Interleaving with the rest of the cluster\<close>

text \<open>
  Passes interleave with the handoff of a checkpoint to a SnapshotContent, with the creation and the
  deletion of requests (by users or by the expiry), with the deletion of any checkpoint, by hand or with the
  SnapshotContent that owns it, and with the garbage collection of checkpoints no SnapshotContent owns and of the
  chunks of checkpoints that are gone. Only a checkpoint in \<open>K\<close> is not deleted once a SnapshotContent owns it; \<open>K\<close> is
  an argument, so that a property can speak of the checkpoints that a run leaves alone. The targets of a request are not
  empty: the CRD rejects it.
\<close>

inductive mcr_step :: "string set \<Rightarrow> env \<Rightarrow> ('t, 'g, 'd) codec \<Rightarrow> 'd world \<Rightarrow> 'd world \<Rightarrow> bool"
  for K :: "string set" and e :: env and c :: "('t, 'g, 'd) codec" where
  pass: "outside_ok e c os \<Longrightarrow> Reconcile os w = (r, w') \<Longrightarrow> mcr_step K e c w w'"
| handoff: "wd_checkpoints w n = Some cp \<Longrightarrow> content_ref d \<Longrightarrow> or_name d \<noteq> [] \<Longrightarrow>
    snapshotContentControllerOwnerRefsForHandoff (mc_owner_refs cp) d = Inr (refs, ch) \<Longrightarrow>
    mcr_step K e c w (w\<lparr>wd_checkpoints := (wd_checkpoints w)(n \<mapsto> cp\<lparr>mc_owner_refs := refs\<rparr>)\<rparr>)"
| create: "wd_request w = None \<Longrightarrow> q_targets q \<noteq> [] \<Longrightarrow> q_conditions q = [] \<Longrightarrow> find_condition e [] ConditionReady = None \<Longrightarrow>
    mcr_step K e c w (w\<lparr>wd_request := Some q\<rparr>)"
| delete: "mcr_step K e c w (w\<lparr>wd_request := None\<rparr>)"
| collect_checkpoint: "wd_checkpoints w n = Some cp \<Longrightarrow> \<not> manifestCheckpointOwnedBySnapshotContent cp \<or> n \<notin> K \<Longrightarrow>
    mcr_step K e c w (w\<lparr>wd_checkpoints := (wd_checkpoints w)(n := None)\<rparr>)"
| collect_chunk: "wd_chunks w m = Some ck \<Longrightarrow> wd_checkpoints w (ck_checkpoint ck) = None \<Longrightarrow>
    mcr_step K e c w (w\<lparr>wd_chunks := (wd_chunks w)(m := None)\<rparr>)"

definition empty_world :: "config \<Rightarrow> 'd world" where
  "empty_world cfg = \<lparr>wd_request = None, wd_keepers = (\<lambda>_. None), wd_checkpoints = (\<lambda>_. None), wd_chunks = (\<lambda>_. None),
     wd_config = cfg, wd_calls = 0\<rparr>"

definition reachable :: "string set \<Rightarrow> env \<Rightarrow> ('t, 'g, 'd) codec \<Rightarrow> 'd world \<Rightarrow> bool" where
  "reachable K e c w \<longleftrightarrow> (\<exists>cfg. (mcr_step K e c)\<^sup>*\<^sup>* (empty_world cfg) w)"

lemma handed_off_content_ref:
  assumes "snapshotContentControllerOwnerRefsForHandoff refs d = Inr (refs', ch)" "content_ref d" "or_name d \<noteq> []"
  shows "\<exists>ref\<in>set refs'. content_ref ref \<and> or_name ref \<noteq> []"
proof -
  have no: "\<not> (\<exists>r\<in>set refs. content_ref r \<and> foreign_content d r)"
    using handoff_loop_conflict [of refs d "[]" False] assms(1)
    unfolding snapshotContentControllerOwnerRefsForHandoff_def by fastforce
  have "refs' = replaced content_ref (\<lambda>r. \<not> is_controller r) d refs False"
    using handoff_ok [OF no] assms(1) by (simp add: Let_def)
  moreover have "filter (\<lambda>r. content_ref r \<or> \<not> (\<not> is_controller r)) (replaced content_ref (\<lambda>r. \<not> is_controller r) d refs False) = [d]"
    using filter_replaced_mine [of content_ref d "\<lambda>r. \<not> is_controller r" refs False] assms(2) by simp
  ultimately have "d \<in> set (filter (\<lambda>r. content_ref r \<or> \<not> (\<not> is_controller r)) refs')" by simp
  then have "d \<in> set refs'" by simp
  then show ?thesis using assms(2,3) by blast
qed

lemma listed_without:
  assumes "listed chunks n infos" "chunks m = Some ck" "ck_checkpoint ck \<noteq> n"
  shows "listed (chunks(m := None)) n infos"
  using assms unfolding listed_def info_stored_def by fastforce

lemma handoff_step_sound:
  assumes "sound K e c w" "wd_checkpoints w n = Some cp" "\<exists>ref\<in>set refs. content_ref ref \<and> or_name ref \<noteq> []"
  shows "sound K e c (w\<lparr>wd_checkpoints := (wd_checkpoints w)(n \<mapsto> cp\<lparr>mc_owner_refs := refs\<rparr>)\<rparr>)"
proof -
  have "checkpoints_ok e (wd_chunks w) ((wd_checkpoints w)(n \<mapsto> cp\<lparr>mc_owner_refs := refs\<rparr>))"
    using assms(1,2) by (intro checkpoints_ok_upd) (auto simp: sound_def checkpoints_ok_def)
  moreover have "handed_over K e (wd_checkpoints w) k \<Longrightarrow> handed_over K e ((wd_checkpoints w)(n \<mapsto> cp\<lparr>mc_owner_refs := refs\<rparr>)) k" for k
    using assms(2,3) by (auto simp: handed_over_def manifestCheckpointOwnedBySnapshotContent_def list_ex_iff)
  ultimately show ?thesis using assms(1) by (auto simp: sound_def split: option.splits)
qed

lemma step_sound:
  assumes "conditions_contract e" "codec_ok c" "mcr_step K e c w w'" "sound K e c w"
  shows "sound K e c w'"
  using assms(3)
proof cases
  case (pass os r)
  then show ?thesis using Reconcile_sound [OF assms(1,2)] assms(4) by blast
next
  case (handoff n cp d refs ch)
  then show ?thesis using handoff_step_sound [OF assms(4)] handed_off_content_ref by blast
next
  case (create q)
  then show ?thesis using assms(4) by (simp add: sound_def stamped_ready_def IsReady_def HasCondition_def)
next
  case delete
  then show ?thesis using assms(4) by (simp add: sound_def)
next
  case (collect_checkpoint n cp)
  then have "handed_over K e (wd_checkpoints w) k \<Longrightarrow> handed_over K e ((wd_checkpoints w)(n := None)) k" for k
    by (auto simp: handed_over_def)
  then show ?thesis using assms(4) collect_checkpoint
    by (auto simp: sound_def checkpoints_ok_def split: option.splits)
next
  case (collect_chunk m ck)
  have "checkpoints_ok e ((wd_chunks w)(m := None)) (wd_checkpoints w)"
    using assms(4) listed_without [of "wd_chunks w" _ _ m ck] collect_chunk(2,3) unfolding sound_def checkpoints_ok_def
    by (metis option.distinct(1))
  then show ?thesis using assms(4) collect_chunk by (auto simp: sound_def chunks_ok_def split: option.splits)
qed

lemma reachable_sound:
  assumes "conditions_contract e" "codec_ok c" "reachable K e c w"
  shows "sound K e c w"
proof -
  obtain cfg where "(mcr_step K e c)\<^sup>*\<^sup>* (empty_world cfg) w" using assms(3) by (auto simp: reachable_def)
  then show ?thesis
  proof (induction rule: rtranclp_induct)
    case base
    show ?case by (simp add: sound_def empty_world_def chunks_ok_def checkpoints_ok_def)
  qed (rule step_sound [OF assms(1,2)])
qed

section \<open>A listed checkpoint can be downloaded\<close>

definition chunk_getter :: "'d world \<Rightarrow> string \<Rightarrow> 'd chunk get_res" where
  "chunk_getter w n = (case wd_chunks w n of None \<Rightarrow> NotFound | Some ck \<Rightarrow> Found ck)"

lemma read_listed:
  assumes "codec_ok c" "chunks_ok c (wd_chunks w)" "info_stored (wd_chunks w) cp k info"
  shows "\<exists>objs. read_chunk c (chunk_getter w) cp info = Inr objs"
proof -
  obtain ck where ck: "wd_chunks w (ci_name info) = Some ck" "ck_checkpoint ck = cp" "ck_index ck = ci_index info"
    "ck_checksum ck = ci_checksum info"
    using assms(3) by (auto simp: info_stored_def)
  then obtain objs t g where m: "plain_maps c objs" "cd_parse c t = Some (JList objs)" "cd_gunzip c g = Inr t"
    "ck_data ck = cd_base64 c g" "ck_checksum ck = cd_sha c g"
    using assms(2) unfolding chunks_ok_def chunk_made_def by blast
  have "unmarshal_array c t = Some objs"
    using m(1,2) renumber_all [of objs "cd_renum c"] by (simp add: unmarshal_array_def plain_maps_def)
  moreover have "decode_items c (ci_name info) objs = Inr (map (convertMapSliceToMap c) objs)"
    using m(1) by (intro decode_items_maps) (simp add: plain_maps_def)
  ultimately show ?thesis
    using ck m(3-5) assms(1) by (simp add: read_chunk_def chunk_getter_def decodeChunkDataWithChecksum_def)
qed

lemma listed_readable:
  assumes "codec_ok c" "permutes schedule" "chunks_ok c (wd_chunks w)" "listed (wd_chunks w) cp infos"
  shows "\<exists>objs. collectObjectsFromCheckpoint c schedule (chunk_getter w) cp infos = Inr objs"
proof -
  have s: "sort_slice info_less infos = infos" "first_gap 0 infos = None"
    using indexed_sorted [of infos 0] assms(4) by (auto simp: listed_def info_stored_def)
  have "\<forall>info\<in>set infos. \<exists>objs. read_chunk c (chunk_getter w) cp info = Inr objs"
    using assms(4) read_listed [OF assms(1,3)] unfolding listed_def by (metis in_set_conv_nth)
  then obtain f where f: "\<forall>info\<in>set infos. read_chunk c (chunk_getter w) cp info = Inr (f info)" by metis
  have "set (schedule infos) = set infos" using assms(2) unfolding permutes_def by (metis set_mset_mset)
  then have "read_all c (chunk_getter w) cp (schedule infos) = Inr (concat (map f (schedule infos)))"
    using f by (intro read_all_map) simp
  then show ?thesis using s assms(4) by (simp add: collectObjectsFromCheckpoint_def listed_def)
qed

end
