(* ===== verification/Manifest_Capture_Runs.thy ===== *)
theory Manifest_Capture_Runs
  imports Manifest_Capture_Guarantees
begin

text \<open>
  Whole runs of a ManifestCaptureRequest: a capture against a cluster that answers completes in two passes
  around the handoff; a completed request has a downloadable checkpoint in every reachable cluster; and
  what a pass does to requests that are terminal, to foreign targets and after a failed call.
\<close>

section \<open>A capture without faults\<close>

definition healthy :: "('t, 'g, 'd) outside \<Rightarrow> bool" where
  "healthy os \<longleftrightarrow> (\<forall>n. os_fault os n = None) \<and> (\<forall>n. os_chunk_fault os n = None) \<and> (\<forall>n. os_chunk_read os n = None)"

text \<open>Two states of one request, the condition apart.\<close>

definition like :: "request \<Rightarrow> request \<Rightarrow> bool" where
  "like a b \<longleftrightarrow> q_namespace a = q_namespace b \<and> q_name a = q_name b \<and> q_uid a = q_uid b \<and> q_targets a = q_targets b \<and>
     q_checkpoint_name a = q_checkpoint_name b \<and> q_completion a = q_completion b"

lemma like_simps [simp]:
  "like q q" "like (set_processing os m t q) q" "like (set_processing os m t q) q0 = like q q0"
  by (simp_all add: like_def set_processing_def)

lemma like_trans: "like a b \<Longrightarrow> like b d \<Longrightarrow> like a d"
  by (simp add: like_def)

lemma h_served: "healthy os \<Longrightarrow> served os w = (None, w\<lparr>wd_calls := Suc (wd_calls w)\<rparr>)"
  by (simp add: served_def healthy_def)

lemma s_get_request: "os_fault os (wd_calls w) = None \<Longrightarrow> wd_request w = Some q \<Longrightarrow>
  get_request os w = (Inr q, w\<lparr>wd_calls := Suc (wd_calls w)\<rparr>)"
  by (simp add: get_request_def served_def)

lemma s_write_request: "os_fault os (wd_calls w) = None \<Longrightarrow> wd_request w = Some q0 \<Longrightarrow>
  write_request os q w = (None, w\<lparr>wd_calls := Suc (wd_calls w), wd_request := Some (with_status q0 q)\<rparr>)"
  by (simp add: write_request_def served_def)

lemma h_get_request: "healthy os \<Longrightarrow> wd_request w = Some q \<Longrightarrow> get_request os w = (Inr q, w\<lparr>wd_calls := Suc (wd_calls w)\<rparr>)"
  by (simp add: get_request_def h_served)

lemma h_write_request:
  "healthy os \<Longrightarrow> wd_request w = Some q0 \<Longrightarrow>
   write_request os q w = (None, w\<lparr>wd_calls := Suc (wd_calls w), wd_request := Some (with_status q0 q)\<rparr>)"
  by (simp add: write_request_def h_served)

text \<open>What an update of the request leaves: the same world with another state of the request.\<close>

definition progressed :: "request \<Rightarrow> 'd world \<Rightarrow> 'd world \<Rightarrow> bool" where
  "progressed q w w' \<longleftrightarrow> (\<exists>q1. wd_request w' = Some q1 \<and> like q1 q) \<and> wd_keepers w' = wd_keepers w \<and>
     wd_checkpoints w' = wd_checkpoints w \<and> wd_chunks w' = wd_chunks w \<and> wd_config w' = wd_config w"

lemma h_update:
  assumes "healthy os" "wd_request w = Some q0"
  shows "\<exists>q' w'. updateProcessingMessage os q m w = (q', w') \<and> like q' q \<and> progressed q0 w w'"
proof -
  have "progressed q0 w (snd (store_message os m w))"
    using assms by (auto simp: store_message_def h_get_request h_write_request progressed_def with_status_def like_def
        set_processing_def split: option.splits)
  then show ?thesis using assms by (auto simp: updateProcessingMessage_def progressed_def split: option.splits)
qed

lemma h_start:
  assumes "healthy os" "wd_request w = Some q"
  shows "\<exists>q' w'. start_processing os q w = (Inr q', w') \<and> like q' q \<and> progressed q w w'"
  using assms by (auto simp: start_processing_def h_get_request h_write_request progressed_def with_status_def like_def
      set_processing_def Let_def)

lemma h_keeper:
  assumes "healthy os" "wd_keepers w (ObjectKeeperName (cd_digest (os_codec os)) (q_uid q)) = None" "wd_request w = Some q0"
  shows "\<exists>uid w'. ensure_keeper os q w = (Inr uid, w') \<and> wd_request w' = Some q0 \<and> wd_checkpoints w' = wd_checkpoints w \<and>
    wd_chunks w' = wd_chunks w \<and> wd_config w' = wd_config w"
  using assms by (simp add: ensure_keeper_def get_keeper_def create_keeper_def h_served Let_def)

lemma h_get_checkpoint:
  "healthy os \<Longrightarrow> get_checkpoint os n w = ((case wd_checkpoints w n of None \<Rightarrow> Inl ErrNotFound | Some cp \<Rightarrow> Inr cp),
     w\<lparr>wd_calls := Suc (wd_calls w)\<rparr>)"
  by (simp add: get_checkpoint_def h_served)

lemma h_write_checkpoint:
  "healthy os \<Longrightarrow> wd_checkpoints w (mc_name cp) = Some cp0 \<Longrightarrow>
   write_checkpoint os cp w = (None, w\<lparr>wd_calls := Suc (wd_calls w), wd_checkpoints := (wd_checkpoints w)(mc_name cp \<mapsto>
     cp0\<lparr>mc_conditions := mc_conditions cp, mc_chunks := mc_chunks cp,
         mc_total_objects := mc_total_objects cp, mc_total_size := mc_total_size cp\<rparr>)\<rparr>)"
  by (simp add: write_checkpoint_def h_served)

lemma h_checkpoint:
  assumes "healthy os" "wd_checkpoints w n = None" "wd_request w = Some q0"
  shows "\<exists>cp q' w'. ensure_checkpoint os q n owner w = (Inr (cp, q'), w') \<and> like q' q \<and> mc_name cp = n \<and>
    mc_uid cp = os_uid os n \<and> mc_owner_refs cp = [owner] \<and> (\<exists>cp0. wd_checkpoints w' n = Some cp0 \<and> mc_owner_refs cp0 = [owner]) \<and>
    (\<exists>q1. wd_request w' = Some q1 \<and> like q1 q0) \<and> wd_chunks w' = wd_chunks w"
proof -
  let ?cp = "(new_checkpoint q n owner)\<lparr>mc_uid := os_uid os n\<rparr>"
  let ?mk = "mark_checkpoint os ConditionFalse ReasonProcessing ''Checkpoint created, creating chunks...'' ?cp"
  let ?w1 = "w\<lparr>wd_calls := Suc (wd_calls w), wd_checkpoints := (wd_checkpoints w)(n \<mapsto> ?cp)\<rparr>"
  have nm: "mc_name (new_checkpoint q n owner) = n" by (simp add: new_checkpoint_def)
  have c: "create_checkpoint os (new_checkpoint q n owner) w = (Inr ?cp, ?w1)"
    using assms(2) by (simp add: create_checkpoint_def h_served [OF assms(1)] nm Let_def)
  obtain cp0 w2 where w2: "write_checkpoint os ?mk ?w1 = (None, w2)" "wd_checkpoints w2 n = Some cp0"
    "mc_owner_refs cp0 = [owner]" "wd_request w2 = Some q0" "wd_chunks w2 = wd_chunks w"
    using assms(3) by (simp add: h_write_checkpoint [OF assms(1)] nm new_checkpoint_def)
  obtain q' w3 where w3: "updateProcessingMessage os q (''Created checkpoint '' @ n @ '', collecting objects...'') w2 = (q', w3)"
    "like q' q" "progressed q0 w2 w3"
    using h_update [OF assms(1) w2(4)] by blast
  have "ensure_checkpoint os q n owner w = (Inr (?mk, q'), w3)"
    unfolding ensure_checkpoint_def c prod.case sum.case Let_def w2(1) snd_conv w3(1) ..
  then show ?thesis using w2 w3 by (auto simp: progressed_def new_checkpoint_def)
qed

lemma view_reliable: "healthy os \<Longrightarrow> reliable (chunk_view os w)"
  by (auto simp: reliable_def chunk_view_def healthy_def split: option.splits)

lemma createChunks_succeeds:
  assumes "codec_ok c" "\<forall>x\<in>set objs. canonical x \<and> (\<exists>m. x = JMap m)" "objs \<noteq> []" "healthy os"
    "\<forall>k. wd_chunks w (ChunkName (cd_digest c) uid k) = None"
  shows "\<exists>infos a. createChunks c mx cp uid objs (chunk_view os w) = (Inr infos, a)"
proof -
  let ?objs = "map (prepare_object c) objs"
  have p: "\<forall>x\<in>set ?objs. canonical x" using prepared_objects [OF assms(1,2)] by blast
  obtain groups where s: "split_objects c mx ?objs = Inr groups" "concat groups = ?objs"
    using split_objects_ok [OF assms(1) p] by blast
  have "\<forall>x\<in>set (concat groups). canonical x" unfolding s(2) by (rule p)
  moreover have "ours c cp uid 0 groups (chunk_view os w)"
    using assms(4,5) by (simp add: ours_def chunk_view_def healthy_def)
  ultimately show ?thesis
    using create_loop_reliable [OF assms(1) _ view_reliable [OF assms(4)]] assms(3) s(1) by (simp add: createChunks_def)
qed

lemma h_chunks:
  assumes "codec_ok c" "outside_ok e c os" "healthy os" "\<forall>x\<in>set objs. canonical x \<and> (\<exists>m. x = JMap m)" "objs \<noteq> []"
    "\<forall>k. wd_chunks w (ChunkName (cd_digest c) (mc_uid cp) k) = None" "wd_request w = Some q0"
  shows "\<exists>chunks q' w'. create_chunks_step os q cp objs w = (Inr (chunks, q'), w') \<and> like q' q \<and>
    (\<exists>q1. wd_request w' = Some q1 \<and> like q1 q0) \<and> wd_checkpoints w' = wd_checkpoints w"
proof -
  obtain q1 w1 where u: "updateProcessingMessage os q (''Creating chunks for checkpoint '' @ mc_name cp @ '' ('' @
      show_nat (length objs) @ '' objects)...'') w = (q1, w1)" "like q1 q" "progressed q0 w w1"
    using h_update [OF assms(3,7)] by blast
  have "\<forall>k. wd_chunks w1 (ChunkName (cd_digest c) (mc_uid cp) k) = None" using assms(6) u(3) by (simp add: progressed_def)
  then obtain infos a where a: "createChunks c (MaxChunkSizeBytes (wd_config w1)) (mc_name cp) (mc_uid cp) objs (chunk_view os w1) = (Inr infos, a)"
    using createChunks_succeeds [OF assms(1,4,5,3)] by blast
  have "create_chunks_step os q cp objs w = (Inr (infos, q1), store_chunks a w1)"
    unfolding create_chunks_step_def u(1) outside_fields(2) [OF assms(2)] prod.case a sum.case ..
  then show ?thesis using u by (auto simp: progressed_def store_chunks_def)
qed

lemma h_mark:
  assumes "conditions_contract e" "outside_ok e c os" "healthy os" "busy e c w" "wd_request w = Some q0"
  shows "\<exists>q1 w'. markMCRCheckpointPendingHandoff os n m w = (None, w') \<and> wd_request w' = Some q1 \<and>
    q_checkpoint_name q1 = n \<and> \<not> isTerminal e q1 \<and> q_targets q1 = q_targets q0 \<and> wd_checkpoints w' = wd_checkpoints w"
proof -
  note f = outside_fields [OF assms(2)]
  let ?t = "case find_condition e (q_conditions q0) ConditionReady of None \<Rightarrow> os_now os
      | Some cc \<Rightarrow> if co_reason cc = ReasonProcessing then co_time cc else os_now os"
  have u: "unready e q0" using assms(4,5) by (simp add: busy_def)
  have t: "?t \<noteq> []" using f(3) unready_time [OF u] by (auto split: option.splits)
  have "\<not> isTerminal e (with_status q0 (set_processing os m ?t (q0\<lparr>q_checkpoint_name := n\<rparr>)))"
    using set_ready [OF assms(1) t] by (simp add: isTerminal_def with_status_def set_processing_def f)
  then show ?thesis
    using h_get_request [OF assms(3,5)] h_write_request [OF assms(3)] assms(5)
    by (simp add: markMCRCheckpointPendingHandoff_def f Let_def with_status_def set_processing_def)
qed

lemma h_pending:
  assumes "conditions_contract e" "outside_ok e c os" "healthy os" "busy e c w" "wd_request w = Some q0"
  shows "\<exists>q1 w'. pending_then os n m r w = (r, w') \<and> wd_request w' = Some q1 \<and> q_checkpoint_name q1 = n \<and>
    \<not> isTerminal e q1 \<and> q_targets q1 = q_targets q0 \<and> wd_checkpoints w' = wd_checkpoints w"
  using h_mark [OF assms, of n m] by (auto simp: pending_then_def)

lemma h_complete:
  assumes "conditions_contract e" "outside_ok e c os" "healthy os" "busy e c w" "wd_request w = Some q0"
    "listed (wd_chunks w) (mc_name cp) chunks" "wd_checkpoints w (mc_name cp) = Some cp0" "mc_owner_refs cp0 = mc_owner_refs cp"
    "\<not> manifestCheckpointOwnedBySnapshotContent cp"
  shows "\<exists>w' q1 cp1. complete_checkpoint os q cp chunks w = (RequeueMs 500, w') \<and>
    wd_request w' = Some q1 \<and> q_checkpoint_name q1 = mc_name cp \<and> \<not> isTerminal e q1 \<and>
    wd_checkpoints w' (mc_name cp) = Some cp1 \<and> IsReady e (mc_conditions cp1) \<and> mc_owner_refs cp1 = mc_owner_refs cp"
proof -
  note f = outside_fields [OF assms(2)]
  let ?cp = "mark_checkpoint os ConditionTrue MCRCompleted ''Checkpoint created''
      (cp\<lparr>mc_chunks := chunks, mc_total_objects := sum_list (map ci_count chunks),
          mc_total_size := sum_list (map ci_size chunks)\<rparr>)"
  have ready: "find_condition e (mc_conditions ?cp) ConditionReady =
      Some (ready_condition ConditionTrue MCRCompleted ''Checkpoint created'' (os_now os))"
    using set_ready [OF assms(1) f(3)] by (simp add: mark_checkpoint_def f(1))
  obtain w1 cp1 where w1: "write_checkpoint os ?cp w = (None, w1)" "wd_checkpoints w1 (mc_name cp) = Some cp1"
    "mc_conditions cp1 = mc_conditions ?cp" "mc_owner_refs cp1 = mc_owner_refs cp" "wd_request w1 = Some q0"
    using assms(5,7,8) by (simp add: h_write_checkpoint [OF assms(3)])
  have b1: "busy e c w1" using write_checkpoint_busy [OF w1(1) assms(4)] assms(6) by simp
  obtain q1 w2 where w2: "markMCRCheckpointPendingHandoff os (mc_name ?cp)
      (''Checkpoint '' @ mc_name ?cp @ '' created; waiting for SnapshotContent ownerRef handoff'') w1 = (None, w2)"
    "wd_request w2 = Some q1" "wd_checkpoints w2 = wd_checkpoints w1"
    using h_mark [OF assms(1-3) b1 w1(5)] by blast
  have b2: "busy e c w2" using mark_pending_busy [OF assms(1,2) w2(1) b1] .
  obtain q2 w3 where w3: "pending_then os (mc_name ?cp)
      (''Checkpoint '' @ mc_name ?cp @ '' is Ready; waiting for SnapshotContent ownerRef handoff'') (RequeueMs 500) w2 = (RequeueMs 500, w3)"
    "wd_request w3 = Some q2" "q_checkpoint_name q2 = mc_name ?cp" "\<not> isTerminal e q2" "wd_checkpoints w3 = wd_checkpoints w2"
    using h_pending [OF assms(1-3) b2 w2(2)] by blast
  have o: "\<not> manifestCheckpointOwnedBySnapshotContent ?cp"
    using assms(9) by (simp add: manifestCheckpointOwnedBySnapshotContent_def)
  have "finalizeMCRIfCheckpointHandedOff os (q\<lparr>q_checkpoint_name := mc_name ?cp\<rparr>) ?cp w2 = (RequeueMs 500, w3)"
    unfolding finalizeMCRIfCheckpointHandedOff_def f(1) ready using w3(1) o by simp
  then have "complete_checkpoint os q cp chunks w = (RequeueMs 500, w3)"
    unfolding complete_checkpoint_def Let_def w1(1) prod.case option.case w2(1) .
  then show ?thesis using w1 w2 w3 ready by (auto simp: IsReady_def HasCondition_def)
qed

lemma h_build:
  assumes "conditions_contract e" "codec_ok c" "outside_ok e c os" "healthy os" "busy e c w" "wd_request w = Some q0"
    "\<forall>x\<in>set objs. canonical x \<and> (\<exists>m. x = JMap m)" "objs \<noteq> []" "wd_checkpoints w n = None"
    "\<forall>k. wd_chunks w (ChunkName (cd_digest c) (os_uid os n) k) = None"
  shows "\<exists>w' q1 cp1. build_checkpoint os q n objs (keeper_ref kn uid) w = (RequeueMs 500, w') \<and>
    wd_request w' = Some q1 \<and> q_checkpoint_name q1 = n \<and> \<not> isTerminal e q1 \<and>
    wd_checkpoints w' n = Some cp1 \<and> IsReady e (mc_conditions cp1) \<and> mc_owner_refs cp1 = [keeper_ref kn uid]"
proof -
  obtain cp q1 w1 cp0 q01 where c: "ensure_checkpoint os q n (keeper_ref kn uid) w = (Inr (cp, q1), w1)" "mc_name cp = n"
    "mc_uid cp = os_uid os n" "mc_owner_refs cp = [keeper_ref kn uid]" "wd_checkpoints w1 n = Some cp0"
    "mc_owner_refs cp0 = [keeper_ref kn uid]" "wd_request w1 = Some q01" "wd_chunks w1 = wd_chunks w"
    using h_checkpoint [OF assms(4,9,6)] by blast
  have b1: "busy e c w1" "same_owners (wd_checkpoints w1) cp" using ensure_checkpoint_busy [OF assms(1,3) c(1) assms(5)] by auto
  have "\<forall>k. wd_chunks w1 (ChunkName (cd_digest c) (mc_uid cp) k) = None" using assms(10) c(3,8) by simp
  then obtain chunks q2 w2 q02 where k: "create_chunks_step os q1 cp objs w1 = (Inr (chunks, q2), w2)"
    "wd_request w2 = Some q02" "wd_checkpoints w2 = wd_checkpoints w1"
    using h_chunks [OF assms(2,3,4,7,8) _ c(7)] by blast
  have b2: "busy e c w2" "listed (wd_chunks w2) (mc_name cp) chunks"
    using create_chunks_step_busy [OF assms(1-3) k(1) b1(1) assms(7,8) b1(2)] by auto
  have own: "\<not> manifestCheckpointOwnedBySnapshotContent cp"
    by (simp add: manifestCheckpointOwnedBySnapshotContent_def c(4) keeper_ref_def content_ref_def)
  have "wd_checkpoints w2 (mc_name cp) = Some cp0" using c(2,5) k(3) by simp
  from h_complete [OF assms(1,3,4) b2(1) k(2) b2(2) this _ own] obtain w' q3 cp1 where
    r: "complete_checkpoint os q2 cp chunks w2 = (RequeueMs 500, w')" "wd_request w' = Some q3" "q_checkpoint_name q3 = mc_name cp"
    "\<not> isTerminal e q3" "wd_checkpoints w' (mc_name cp) = Some cp1" "IsReady e (mc_conditions cp1)" "mc_owner_refs cp1 = mc_owner_refs cp"
    using c(4,6) by force
  have "build_checkpoint os q n objs (keeper_ref kn uid) w = (RequeueMs 500, w')"
    unfolding build_checkpoint_def c(1) prod.case sum.case k(1) r(1) ..
  then show ?thesis using r c(2,4) by auto
qed

definition fresh_for :: "('t, 'g, 'd) outside \<Rightarrow> request \<Rightarrow> 'd world \<Rightarrow> bool" where
  "fresh_for os q w \<longleftrightarrow> (let n = ManifestCheckpointName (cd_digest (os_codec os)) (q_uid q) in
     wd_keepers w (ObjectKeeperName (cd_digest (os_codec os)) (q_uid q)) = None \<and> wd_checkpoints w n = None \<and>
     (\<forall>k. wd_chunks w (ChunkName (cd_digest (os_codec os)) (os_uid os n) k) = None))"

lemma h_capture:
  assumes "conditions_contract e" "codec_ok c" "outside_ok e c os" "healthy os" "busy e c w" "wd_request w = Some q0"
    "\<forall>x\<in>set objs. canonical x \<and> (\<exists>m. x = JMap m)" "objs \<noteq> []" "fresh_for os q w" "q_checkpoint_name q = []"
  shows "\<exists>w' q1 cp1 uid. capture_objects os q objs w = (RequeueMs 500, w') \<and> wd_request w' = Some q1 \<and>
    q_checkpoint_name q1 = ManifestCheckpointName (cd_digest c) (q_uid q) \<and> \<not> isTerminal e q1 \<and>
    wd_checkpoints w' (ManifestCheckpointName (cd_digest c) (q_uid q)) = Some cp1 \<and> IsReady e (mc_conditions cp1) \<and>
    mc_owner_refs cp1 = [keeper_ref (ObjectKeeperName (cd_digest c) (q_uid q)) uid]"
proof -
  note f = outside_fields [OF assms(3)]
  let ?n = "ManifestCheckpointName (cd_digest c) (q_uid q)"
  let ?k = "ObjectKeeperName (cd_digest c) (q_uid q)"
  have fr: "wd_keepers w ?k = None" "wd_checkpoints w ?n = None" "\<forall>k. wd_chunks w (ChunkName (cd_digest c) (os_uid os ?n) k) = None"
    using assms(9) by (simp_all add: fresh_for_def Let_def f)
  have n: "(if q_checkpoint_name q \<noteq> [] then q_checkpoint_name q else ?n) = ?n" using assms(10) by simp
  obtain q1 w1 where u1: "updateProcessingMessage os q ''Creating ObjectKeeper...'' w = (q1, w1)" "like q1 q"
    "progressed q0 w w1"
    using h_update [OF assms(4,6)] by blast
  then obtain q01 where "wd_request w1 = Some q01" by (auto simp: progressed_def)
  note u = u1 this
  have b1: "busy e c w1" using updateProcessingMessage_busy [OF assms(1,3) u(1) assms(5)] by simp
  have "wd_keepers w1 (ObjectKeeperName (cd_digest (os_codec os)) (q_uid q1)) = None"
    using u(2,3) fr(1) f by (simp add: progressed_def like_def)
  then obtain uid w2 where k: "ensure_keeper os q1 w1 = (Inr uid, w2)" "wd_request w2 = Some q01"
    "wd_checkpoints w2 = wd_checkpoints w1" "wd_chunks w2 = wd_chunks w1"
    using h_keeper [OF assms(4) _ u(4)] by blast
  have b2: "busy e c w2" using ensure_keeper_busy [OF assms(1,3) k(1) b1] .
  let ?w3 = "w2\<lparr>wd_calls := Suc (wd_calls w2)\<rparr>"
  have e2: "wd_checkpoints w2 ?n = None" "\<forall>k. wd_chunks w2 (ChunkName (cd_digest c) (os_uid os ?n) k) = None"
    using fr k u(3) by (simp_all add: progressed_def)
  have g: "get_checkpoint os ?n w2 = (Inl ErrNotFound, ?w3)" using h_get_checkpoint [OF assms(4), of ?n w2] e2(1) by simp
  have "capture_objects os q objs w = build_checkpoint os q1 ?n objs (keeper_ref ?k uid) ?w3"
    unfolding capture_objects_def f(2) Let_def n u(1) prod.case k(1) sum.case g ..
  moreover obtain w' q2 cp1 where "build_checkpoint os q1 ?n objs (keeper_ref ?k uid) ?w3 = (RequeueMs 500, w')"
    "wd_request w' = Some q2" "q_checkpoint_name q2 = ?n" "\<not> isTerminal e q2" "wd_checkpoints w' ?n = Some cp1"
    "IsReady e (mc_conditions cp1)" "mc_owner_refs cp1 = [keeper_ref ?k uid]"
  proof -
    have 3: "busy e c ?w3" "wd_request ?w3 = Some q01" "wd_checkpoints ?w3 ?n = None"
      "\<forall>k. wd_chunks ?w3 (ChunkName (cd_digest c) (os_uid os ?n) k) = None"
      using b2 k(2) e2 by simp_all
    show ?thesis using h_build [OF assms(1-4) 3(1,2) assms(7,8) 3(3,4)] that by blast
  qed
  ultimately show ?thesis
    by (intro exI [of _ w'] exI [of _ q2] exI [of _ cp1] exI [of _ uid]) simp
qed

lemma fresh_progressed: "progressed q0 w w' \<Longrightarrow> like q' q \<Longrightarrow> fresh_for os q w \<Longrightarrow> fresh_for os q' w'"
  by (simp add: fresh_for_def progressed_def like_def Let_def)

lemma fetch_like: "collectTargetObjects os q = r \<Longrightarrow> like q' q \<Longrightarrow> collectTargetObjects os q' = r"
  by (simp add: collectTargetObjects_def like_def)

lemma first_pass:
  assumes "conditions_contract e" "codec_ok c" "outside_ok e c os" "healthy os" "sound K e c w" "wd_request w = Some q"
    "q_conditions q = []" "q_checkpoint_name q = []" "fresh_for os q w" "collectTargetObjects os q = Inr objs"
  shows "\<exists>w' q1 cp1 uid. Reconcile os w = (RequeueMs 500, w') \<and> wd_request w' = Some q1 \<and>
    q_checkpoint_name q1 = ManifestCheckpointName (cd_digest c) (q_uid q) \<and> \<not> isTerminal e q1 \<and>
    wd_checkpoints w' (ManifestCheckpointName (cd_digest c) (q_uid q)) = Some cp1 \<and> IsReady e (mc_conditions cp1) \<and>
    mc_owner_refs cp1 = [keeper_ref (ObjectKeeperName (cd_digest c) (q_uid q)) uid]"
proof -
  note f = outside_fields [OF assms(3)]
  let ?w0 = "loadConfigFromConfigMap os w"
  let ?w1 = "?w0\<lparr>wd_calls := Suc (wd_calls ?w0)\<rparr>"
  have load: "wd_keepers ?w0 = wd_keepers w" "wd_checkpoints ?w0 = wd_checkpoints w" "wd_chunks ?w0 = wd_chunks w"
    by (simp_all add: loadConfigFromConfigMap_def split: get_res.splits)
  have g: "get_request os ?w0 = (Inr q, ?w1)" using h_get_request [OF assms(4), of ?w0 q] assms(6) by simp
  have t: "\<not> isTerminal e q" using no_condition [OF assms(3)] by (simp add: isTerminal_def assms(7))
  have b: "busy e c ?w1" using not_terminal_busy [of K e c ?w0 q] assms(5,6) t by simp
  have q: "wd_request ?w1 = Some q" using assms(6) by simp
  have qt: "q_targets q \<noteq> []" using b q by (simp add: busy_def unready_def stamped_ready_def)
  obtain q1 w2 where s: "start_processing os q ?w1 = (Inr q1, w2)" "like q1 q" "progressed q ?w1 w2"
    using h_start [OF assms(4) q] by blast
  have b2: "busy e c w2" using start_processing_busy [OF assms(1,3) s(1) b] by simp
  obtain q2 where q2: "wd_request w2 = Some q2" using s(3) by (auto simp: progressed_def)
  have fr: "fresh_for os q1 w2"
    using fresh_progressed [OF s(3) s(2)] assms(9) by (simp add: fresh_for_def load Let_def)
  have o: "collectTargetObjects os q1 = Inr objs" using fetch_like [OF assms(10) s(2)] .
  have objs: "\<forall>x\<in>set objs. canonical x \<and> (\<exists>m. x = JMap m)" "objs \<noteq> []"
    using collectTargetObjects_objects [OF assms(3,10) qt] by auto
  have "Reconcile os w = capture_objects os q1 objs w2"
    using t assms(8) by (simp add: Reconcile_def g f processCaptureRequest_def s(1) o)
  moreover have "q_checkpoint_name q1 = []" "q_uid q1 = q_uid q" using s(2) assms(8) by (simp_all add: like_def)
  ultimately show ?thesis
    using h_capture [OF assms(1-4) b2 q2 objs fr] by simp
qed

lemma ready_pass:
  assumes "conditions_contract e" "outside_ok e c os" "healthy os" "wd_request w = Some q" "\<not> isTerminal e q"
    "q_checkpoint_name q \<noteq> []" "wd_checkpoints w (q_checkpoint_name q) = Some cp" "mc_name cp = q_checkpoint_name q"
    "IsReady e (mc_conditions cp)" "manifestCheckpointOwnedBySnapshotContent cp"
  shows "\<exists>w' q1. Reconcile os w = (Done, w') \<and> wd_request w' = Some q1 \<and> IsReady e (q_conditions q1) \<and>
    q_checkpoint_name q1 = q_checkpoint_name q"
proof -
  note f = outside_fields [OF assms(2)]
  let ?w0 = "loadConfigFromConfigMap os w"
  let ?w1 = "?w0\<lparr>wd_calls := Suc (wd_calls ?w0)\<rparr>"
  let ?w2 = "?w1\<lparr>wd_calls := Suc (wd_calls ?w1)\<rparr>"
  have load: "wd_checkpoints ?w0 = wd_checkpoints w" by (simp add: loadConfigFromConfigMap_def split: get_res.splits)
  have g: "get_request os ?w0 = (Inr q, ?w1)" using h_get_request [OF assms(3), of ?w0 q] assms(4) by simp
  have c: "get_checkpoint os (q_checkpoint_name q) ?w1 = (Inr cp, ?w2)"
    using h_get_checkpoint [OF assms(3), of "q_checkpoint_name q" ?w1] assms(7) load by simp
  have r: "Reconcile os w = finalizeMCRIfCheckpointHandedOff os q cp ?w2"
    using assms(5,6) c by (simp add: Reconcile_def g f)
  obtain cnd where cnd: "find_condition e (mc_conditions cp) ConditionReady = Some cnd" "co_status cnd = ConditionTrue"
    using assms(9) by (auto simp: IsReady_def HasCondition_def split: option.splits)
  have q2: "wd_request ?w2 = Some q" "\<And>n. wd_request (?w2\<lparr>wd_calls := n\<rparr>) = Some q" using assms(4) by simp_all
  show ?thesis
    unfolding r finalizeMCRIfCheckpointHandedOff_def f(1) cnd(1) option.case
    using cnd(2) assms(8,10) h_get_request [OF assms(3) q2(1)] h_write_request [OF assms(3) q2(2)]
      set_ready [OF assms(1) f(3)]
    by (simp add: finalize_then_def finalizeMCR_def Let_def f with_status_def IsReady_def HasCondition_def)
qed

section \<open>Properties\<close>


lemma capture_run:
  assumes "conditions_contract e" "codec_ok c" "outside_ok e c os" "healthy os" "outside_ok e c os'" "healthy os'"
    and "sound K e c w" "wd_request w = Some q" "q_conditions q = []" "q_checkpoint_name q = []" "fresh_for os q w"
    and "collectTargetObjects os q = Inr objs" "content_ref d" "or_name d \<noteq> []"
  shows "\<exists>w1 cp refs ch w2 q2. Reconcile os w = (RequeueMs 500, w1) \<and>
     wd_checkpoints w1 (ManifestCheckpointName (cd_digest c) (q_uid q)) = Some cp \<and> IsReady e (mc_conditions cp) \<and>
     snapshotContentControllerOwnerRefsForHandoff (mc_owner_refs cp) d = Inr (refs, ch) \<and>
     Reconcile os' (w1\<lparr>wd_checkpoints := (wd_checkpoints w1)(ManifestCheckpointName (cd_digest c) (q_uid q) \<mapsto>
       cp\<lparr>mc_owner_refs := refs\<rparr>)\<rparr>) = (Done, w2) \<and>
     wd_request w2 = Some q2 \<and> IsReady e (q_conditions q2) \<and>
     q_checkpoint_name q2 = ManifestCheckpointName (cd_digest c) (q_uid q)"
proof -
  let ?n = "ManifestCheckpointName (cd_digest c) (q_uid q)"
  let ?k = "keeper_ref (ObjectKeeperName (cd_digest c) (q_uid q))"
  from first_pass [OF assms(1-4,7-12)] obtain w1 q1 cp uid where p1: "Reconcile os w = (RequeueMs 500, w1)"
    "wd_request w1 = Some q1" "q_checkpoint_name q1 = ?n" "\<not> isTerminal e q1" "wd_checkpoints w1 ?n = Some cp"
    "IsReady e (mc_conditions cp)" "mc_owner_refs cp = [?k uid]" by auto
  have no: "\<not> (\<exists>r\<in>set [?k uid]. content_ref r \<and> foreign_content d r)" by (simp add: keeper_ref_def content_ref_def)
  obtain refs ch where h: "snapshotContentControllerOwnerRefsForHandoff (mc_owner_refs cp) d = Inr (refs, ch)"
    using handoff_ok [OF no] by (auto simp: p1(7) Let_def)
  let ?w = "w1\<lparr>wd_checkpoints := (wd_checkpoints w1)(?n \<mapsto> cp\<lparr>mc_owner_refs := refs\<rparr>)\<rparr>"
  have nm: "mc_name cp = ?n"
    using Reconcile_sound [OF assms(1-3) p1(1) assms(7)] p1(5) by (simp add: sound_def checkpoints_ok_def)
  have own: "manifestCheckpointOwnedBySnapshotContent (cp\<lparr>mc_owner_refs := refs\<rparr>)"
    using handed_off_content_ref [OF h assms(13,14)] by (auto simp: manifestCheckpointOwnedBySnapshotContent_def list_ex_iff)
  have "?n \<noteq> []" by (simp add: ManifestCheckpointName_def)
  then obtain w2 q2 where "Reconcile os' ?w = (Done, w2)" "wd_request w2 = Some q2" "IsReady e (q_conditions q2)"
    "q_checkpoint_name q2 = ?n"
    using ready_pass [OF assms(1,5,6), of ?w q1 "cp\<lparr>mc_owner_refs := refs\<rparr>"] p1 nm own by auto
  then show ?thesis using p1 h by blast
qed

text \<open>
  C32: A capture completes: for a new request in a cluster that answers, whose targets can be read and
  whose generated names are free, the first pass leaves a Ready checkpoint and publishes its name, the
  SnapshotContent's handoff of that checkpoint is accepted, and the next pass reports the request Ready.
\<close>

theorem capture_completes:
  assumes "conditions_contract e" "codec_ok c" "outside_ok e c os" "healthy os" "outside_ok e c os'" "healthy os'"
    and "sound K e c w" "wd_request w = Some q" "q_conditions q = []" "q_checkpoint_name q = []" "fresh_for os q w"
    and "collectTargetObjects os q = Inr objs" "content_ref d" "or_name d \<noteq> []"
  shows "\<exists>w1 cp refs ch w2 q2. Reconcile os w = (RequeueMs 500, w1) \<and>
     wd_checkpoints w1 (ManifestCheckpointName (cd_digest c) (q_uid q)) = Some cp \<and> IsReady e (mc_conditions cp) \<and>
     snapshotContentControllerOwnerRefsForHandoff (mc_owner_refs cp) d = Inr (refs, ch) \<and>
     Reconcile os' (w1\<lparr>wd_checkpoints := (wd_checkpoints w1)(ManifestCheckpointName (cd_digest c) (q_uid q) \<mapsto>
       cp\<lparr>mc_owner_refs := refs\<rparr>)\<rparr>) = (Done, w2) \<and>
     wd_request w2 = Some q2 \<and> IsReady e (q_conditions q2) \<and>
     q_checkpoint_name q2 = ManifestCheckpointName (cd_digest c) (q_uid q)"
  by (rule capture_run [OF assms])

lemma terminal_unchanged:
  assumes "wd_request w = Some q" "isTerminal (os_env os) q" "Reconcile os w = (r, w')"
  shows "wd_request w' = Some q \<and> wd_keepers w' = wd_keepers w \<and> wd_checkpoints w' = wd_checkpoints w \<and> wd_chunks w' = wd_chunks w"
proof -
  have load: "wd_request (loadConfigFromConfigMap os w) = Some q" "wd_keepers (loadConfigFromConfigMap os w) = wd_keepers w"
    "wd_checkpoints (loadConfigFromConfigMap os w) = wd_checkpoints w" "wd_chunks (loadConfigFromConfigMap os w) = wd_chunks w"
    using assms(1) by (simp_all add: loadConfigFromConfigMap_def split: get_res.splits)
  obtain x w1 where g: "get_request os (loadConfigFromConfigMap os w) = (x, w1)" by fastforce
  have x: "x = Inr q \<or> (\<exists>y. x = Inl y)" using get_request_eq [OF g] load(1) by (cases x) auto
  have "w' = w1" using x assms(2,3) by (auto simp: Reconcile_def g split: if_splits)
  then show ?thesis using get_request_eq [OF g] load by simp
qed

text \<open>
  A terminal request is final: a pass over a request that is Ready or Failed writes nothing, whatever
  the API server answers, and the expiry scan removes exactly the listed requests that are terminal and
  whose completion is older than the configured time to live.
\<close>

theorem terminal_request_is_final:
  assumes "wd_request w = Some q" "isTerminal (os_env os) q" "Reconcile os w = (r, w')"
    and "DefaultTTL cfg > 0" "q \<in> set items"
    and "\<forall>i\<in>set items. q_namespace i = q_namespace q \<and> q_name i = q_name q \<longrightarrow> i = q"
  shows "wd_request w' = Some q \<and> wd_keepers w' = wd_keepers w \<and> wd_checkpoints w' = wd_checkpoints w \<and>
     wd_chunks w' = wd_chunks w \<and>
     (q \<notin> set (scanAndDeleteExpiredMCRs (os_env os) cfg time gone (Some items) items) \<longleftrightarrow>
        (\<exists>t. q_completion q = Some t \<and> t + DefaultTTL cfg < time) \<and> gone q)"
proof -
  have "(q \<notin> set (scanAndDeleteExpiredMCRs (os_env os) cfg time gone (Some items) items)) =
      (expired (os_env os) (DefaultTTL cfg) time q \<and> gone q)"
    using assms(4-6) by (auto simp: scanAndDeleteExpiredMCRs_def)
  then show ?thesis using terminal_unchanged [OF assms(1-3)] assms(2) by (auto simp: expired_def split: option.splits)
qed

lemma collect_loop_spec:
  "collect_loop os ns ts col acc = Inr ys \<Longrightarrow> set col = object_key ` set acc \<Longrightarrow> distinct (map object_key acc) \<Longrightarrow>
    set acc \<subseteq> set ys \<and> (\<forall>y\<in>set ys. y \<in> set acc \<or> (\<exists>t\<in>set ts. fetch_target os ns t = Inr y)) \<and>
    (\<forall>t\<in>set ts. \<exists>o1 o2. fetch_target os ns t = Inr o1 \<and> o2 \<in> set ys \<and> object_key o2 = object_key o1) \<and>
    distinct (map object_key ys)"
proof (induction ts arbitrary: col acc)
  case (Cons t ts)
  obtain obj where o: "fetch_target os ns t = Inr obj" using Cons.prems(1) by (auto split: sum.splits)
  show ?case
  proof (cases "object_key obj \<in> set col")
    case True
    then have r: "collect_loop os ns ts col acc = Inr ys" using Cons.prems(1) o by simp
    note IH = Cons.IH [OF r Cons.prems(2,3)]
    obtain o2 where "o2 \<in> set acc" "object_key o2 = object_key obj" using True Cons.prems(2) by auto
    then show ?thesis using IH o by (auto 0 4)
  next
    case False
    then have r: "collect_loop os ns ts (object_key obj # col) (acc @ [obj]) = Inr ys" using Cons.prems(1) o by simp
    have "set (object_key obj # col) = object_key ` set (acc @ [obj])" "distinct (map object_key (acc @ [obj]))"
      using Cons.prems(2,3) False by auto
    note IH = Cons.IH [OF r this]
    then show ?thesis using o by (auto 0 4)
  qed
qed simp

text \<open>
  C37: A capture stays in its namespace: every collected object was read, for some target of the request,
  either as a namespaced object in the namespace of the request or as the request's own Namespace, and
  every target is represented by a collected object with the same key; no two collected objects share
  a key.
\<close>

theorem capture_stays_in_namespace:
  assumes "collectTargetObjects os q = Inr objs"
  shows "(\<forall>obj\<in>set objs. \<exists>t\<in>set (q_targets q). let k = gvk_of (os_env os) (mt_apiVersion t) (mt_kind t) in
       (os_scope os k = Inr False \<and> os_object os k (q_namespace q) (mt_name t) = Inr obj) \<or>
       (os_scope os k = Inr True \<and> own_namespace k t (q_namespace q) \<and> os_object os k '''' (q_namespace q) = Inr obj)) \<and>
     (\<forall>t\<in>set (q_targets q). \<exists>obj obj'. fetch_target os (q_namespace q) t = Inr obj \<and> obj' \<in> set objs \<and> object_key obj' = object_key obj) \<and>
     distinct (map object_key objs)"
proof -
  obtain xs where xs: "collect_loop os (q_namespace q) (q_targets q) [] [] = Inr xs" "objs = sortObjects xs"
    using assms by (auto simp: collectTargetObjects_def split: sum.splits)
  have l: "\<forall>y\<in>set xs. \<exists>t\<in>set (q_targets q). fetch_target os (q_namespace q) t = Inr y"
    "\<forall>t\<in>set (q_targets q). \<exists>o1 o2. fetch_target os (q_namespace q) t = Inr o1 \<and> o2 \<in> set xs \<and> object_key o2 = object_key o1"
    "distinct (map object_key xs)"
    using collect_loop_spec [OF xs(1)] by auto
  have s: "set objs = set xs" "mset objs = mset xs" by (simp_all add: xs(2) sortObjects_def)
  have "distinct (map object_key objs)" using l(3) s(2) by (metis mset_eq_imp_distinct_iff mset_map)
  moreover have "let k = gvk_of (os_env os) (mt_apiVersion t) (mt_kind t) in
       (os_scope os k = Inr False \<and> os_object os k (q_namespace q) (mt_name t) = Inr obj) \<or>
       (os_scope os k = Inr True \<and> own_namespace k t (q_namespace q) \<and> os_object os k '''' (q_namespace q) = Inr obj)"
    if "fetch_target os (q_namespace q) t = Inr obj" for t obj
    using that by (auto simp: fetch_target_def Let_def own_namespace_def split: option.splits sum.splits if_splits)
  ultimately show ?thesis using l(1,2) s(1) by blast
qed

text \<open>
  One failed create is fatal: when the answer to the create of the execution ObjectKeeper is any
  failure, a timeout of the API server or the AlreadyExists a stale cache provokes, the pass that meets it
  marks the request terminally Failed although every other call succeeds, and no later pass repairs it.
\<close>

theorem failed_keeper_create_is_terminal:
  assumes "conditions_contract e" "outside_ok e c os" "wd_request w = Some q" "processing e (q_conditions q)"
    and "sound K e c w" "collectTargetObjects os q = Inr objs" "q_checkpoint_name q = []"
    and "wd_keepers w (ObjectKeeperName (cd_digest c) (q_uid q)) = None"
    and "os_fault os = (\<lambda>k. if k = wd_calls w + 4 then Some x else None)"
  shows "\<exists>w' q'. Reconcile os w = (ReconcileErr (ApiFailure ''create ObjectKeeper'' x), w') \<and> wd_request w' = Some q' \<and>
     isTerminal e q' \<and> \<not> IsReady e (q_conditions q') \<and>
     (\<forall>os' r w''. outside_ok e c os' \<longrightarrow> Reconcile os' w' = (r, w'') \<longrightarrow> wd_request w'' = Some q')"
proof -
  note f = outside_fields [OF assms(2)]
  obtain cnd where cnd: "find_condition e (q_conditions q) ConditionReady = Some cnd" "co_reason cnd = ReasonProcessing"
    using assms(4) by (auto simp: processing_def split: option.splits)
  define w0 where "w0 = loadConfigFromConfigMap os w"
  have w0: "wd_request w0 = Some q" "wd_keepers w0 = wd_keepers w" "wd_calls w0 = wd_calls w"
    using assms(3) by (simp_all add: w0_def loadConfigFromConfigMap_def split: get_res.splits)
  define w1 where "w1 = w0\<lparr>wd_calls := Suc (wd_calls w)\<rparr>"
  have g: "get_request os w0 = (Inr q, w1)" using w0 assms(9) by (simp add: s_get_request w1_def)
  define q1 where "q1 = set_processing os ''Creating ObjectKeeper...'' (co_time cnd) q"
  define w2 where "w2 = w1\<lparr>wd_calls := wd_calls w + 3, wd_request := Some (with_status q q1)\<rparr>"
  have "get_request os w1 = (Inr q, w1\<lparr>wd_calls := wd_calls w + 2\<rparr>)"
    using w0 assms(9) by (simp add: s_get_request w1_def)
  moreover have "write_request os q1 (w1\<lparr>wd_calls := wd_calls w + 2\<rparr>) = (None, w2)"
    using w0 assms(9) by (simp add: s_write_request w1_def w2_def eval_nat_numeral)
  ultimately have u: "updateProcessingMessage os q ''Creating ObjectKeeper...'' w1 = (q1, w2)"
    using cnd by (simp add: updateProcessingMessage_def store_message_def f q1_def)
  have uid: "q_uid q1 = q_uid q" by (simp add: q1_def set_processing_def)
  define w4 where "w4 = w2\<lparr>wd_calls := wd_calls w + 5\<rparr>"
  have k: "get_keeper os (ObjectKeeperName (cd_digest c) (q_uid q)) w2 = (Inl ErrNotFound, w2\<lparr>wd_calls := wd_calls w + 4\<rparr>)"
    "create_keeper os (ObjectKeeperName (cd_digest c) (q_uid q)) (q_uid q) (w2\<lparr>wd_calls := wd_calls w + 4\<rparr>) = (Some x, w4)"
    using assms(8,9) w0 by (simp_all add: get_keeper_def create_keeper_def served_def w2_def w1_def w4_def eval_nat_numeral)
  define q2 where "q2 = q1\<lparr>q_completion := (case q_completion q1 of None \<Rightarrow> Some (os_clock os) | Some t \<Rightarrow> Some t),
      q_conditions := setSingleCondition e (q_conditions q1)
        (ready_condition ConditionFalse MCRFailed ''Failed to create ObjectKeeper'' (os_now os))\<rparr>"
  define q3 where "q3 = with_status (with_status q q1) (with_status (with_status q q1) q2)"
  define w6 where "w6 = w4\<lparr>wd_calls := wd_calls w + 7, wd_request := Some q3\<rparr>"
  have "get_request os w4 = (Inr (with_status q q1), w4\<lparr>wd_calls := wd_calls w + 6\<rparr>)"
    using assms(9) by (simp add: s_get_request w4_def w2_def eval_nat_numeral)
  moreover have "write_request os (with_status (with_status q q1) q2) (w4\<lparr>wd_calls := wd_calls w + 6\<rparr>) = (None, w6)"
    using assms(9) by (simp add: s_write_request w4_def w2_def w6_def q3_def eval_nat_numeral)
  ultimately have fin: "finalizeMCR os q1 ConditionFalse MCRFailed ''Failed to create ObjectKeeper'' w4 = (None, w6)"
    by (simp add: finalizeMCR_def f q2_def)
  have n: "\<not> isTerminal e q" using cnd by (simp add: isTerminal_def)
  have "Reconcile os w = (ReconcileErr (ApiFailure ''create ObjectKeeper'' x), w6)"
    using n assms(4,6,7) cnd by (simp add: Reconcile_def g f processCaptureRequest_def start_processing_def
        capture_objects_def u ensure_keeper_def uid k finalize_then_def fin Let_def flip: w0_def)
  moreover have "find_condition e (q_conditions q3) ConditionReady =
      Some (ready_condition ConditionFalse MCRFailed ''Failed to create ObjectKeeper'' (os_now os))"
    using set_ready [OF assms(1) f(3)] by (simp add: q3_def q2_def with_status_def)
  then have t: "isTerminal e q3" "\<not> IsReady e (q_conditions q3)" by (simp_all add: isTerminal_def IsReady_def HasCondition_def)
  moreover have "wd_request w'' = Some q3" if "outside_ok e c os'" "Reconcile os' w6 = (r, w'')" for os' r w''
    using terminal_unchanged [of w6 q3 os' r w''] t(1) that outside_fields(1) [OF that(1)] by (simp add: w6_def)
  ultimately show ?thesis by (auto simp: w6_def)
qed

lemma h_finalize:
  assumes "conditions_contract e" "outside_ok e c os" "healthy os" "wd_request w = Some q0" "reason = MCRFailed"
  shows "\<exists>w' q1. finalize_then os q ConditionFalse reason m r w = (r, w') \<and> wd_request w' = Some q1 \<and> isTerminal e q1 \<and>
    \<not> IsReady e (q_conditions q1) \<and> wd_checkpoints w' = wd_checkpoints w"
  using h_get_request [OF assms(3,4)] h_write_request [OF assms(3)] assms(4,5) set_ready [OF assms(1)]
    outside_fields [OF assms(2)]
  by (simp add: finalize_then_def finalizeMCR_def Let_def with_status_def isTerminal_def IsReady_def HasCondition_def)

text \<open>
  A finished capture can still fail: as long as the name of the checkpoint has not been published on the
  request (the status update after the checkpoint became Ready failed, or was not reached), every pass reads
  the targets again before it looks at the checkpoint, and a target that has been deleted in the meantime
  marks the request terminally Failed although its checkpoint is complete.
\<close>

theorem vanished_target_fails_finished_capture:
  assumes "conditions_contract e" "outside_ok e c os" "healthy os" "sound K e c w" "wd_request w = Some q"
    and "\<not> isTerminal e q" "q_checkpoint_name q = []" "collectTargetObjects os q = Inl (ApiFailure m ErrNotFound)"
  shows "\<exists>w' q'. Reconcile os w = (Done, w') \<and> wd_request w' = Some q' \<and> isTerminal e q' \<and>
     \<not> IsReady e (q_conditions q') \<and> wd_checkpoints w' = wd_checkpoints w"
proof -
  note f = outside_fields [OF assms(2)]
  let ?w0 = "loadConfigFromConfigMap os w"
  let ?w1 = "?w0\<lparr>wd_calls := Suc (wd_calls ?w0)\<rparr>"
  have load: "wd_checkpoints ?w0 = wd_checkpoints w" by (simp add: loadConfigFromConfigMap_def split: get_res.splits)
  have g: "get_request os ?w0 = (Inr q, ?w1)" using h_get_request [OF assms(3), of ?w0 q] assms(5) by simp
  have "wd_request ?w1 = Some q" using assms(5) by simp
  then obtain q1 w2 where s: "start_processing os q ?w1 = (Inr q1, w2)" "like q1 q" "progressed q ?w1 w2"
    using h_start [OF assms(3)] by blast
  obtain q2 where q2: "wd_request w2 = Some q2" using s(3) by (auto simp: progressed_def)
  have o: "collectTargetObjects os q1 = Inl (ApiFailure m ErrNotFound)" using fetch_like [OF assms(8) s(2)] .
  have "Reconcile os w = finalize_then os q1 ConditionFalse MCRFailed ''Failed to collect objects'' Done w2"
    using assms(6,7) by (simp add: Reconcile_def g f processCaptureRequest_def s(1) o is_not_found_def)
  then show ?thesis
    using h_finalize [OF assms(1-3) q2, of MCRFailed q1 "''Failed to collect objects''" Done] s(3) load by (simp add: progressed_def)
qed

section \<open>Witnesses\<close>

text \<open>A request for one Secret of its namespace, and a cluster that answers.\<close>

definition demo_outside :: "(nat \<Rightarrow> api_err option) \<Rightarrow> (json, json, json) outside" where
  "demo_outside faults = \<lparr>os_env = sample_env, os_codec = demo_codec, os_now = ''2026-01-01T00:00:00Z'', os_clock = 7,
     os_fault = faults, os_chunk_fault = (\<lambda>_. None), os_chunk_read = (\<lambda>_. None), os_uid = (\<lambda>n. ''uid''),
     os_scope = (\<lambda>_. Inr False), os_object = (\<lambda>k ns n. if n = ''gone'' then Inl ErrNotFound else Inr (demo_object n)),
     os_config_map = NotFound, os_parse_int = (\<lambda>_. None), os_parse_duration = (\<lambda>_. None)\<rparr>"

definition demo_request :: "string \<Rightarrow> request" where
  "demo_request n = \<lparr>q_namespace = ''ns'', q_name = ''mcr'', q_uid = ''u1'',
     q_targets = [\<lparr>mt_apiVersion = ''v1'', mt_kind = ''Secret'', mt_name = n\<rparr>], q_checkpoint_name = '''', q_completion = None,
     q_conditions = []\<rparr>"

abbreviation "no_faults \<equiv> (\<lambda>_ :: nat. None :: api_err option)"

definition demo_world :: "string \<Rightarrow> json world" where
  "demo_world n = (empty_world \<lparr>MaxChunkSizeBytes = 800000, DefaultTTL = 600000000000\<rparr>)\<lparr>wd_request := Some (demo_request n)\<rparr>"

definition demo_owner :: owner_ref where
  "demo_owner = SnapshotContentOwnerReference sample_content"

lemma demo_outside_ok: "outside_ok sample_env demo_codec (demo_outside fs)"
  unfolding outside_ok_def demo_outside_def by (simp add: sample_env_def)

lemma demo_healthy: "healthy (demo_outside no_faults)"
  by (simp add: healthy_def demo_outside_def)

lemma demo_unready: "stamped_ready sample_env (demo_request n)" "\<not> IsReady sample_env (q_conditions (demo_request n))"
  by (simp_all add: stamped_ready_def demo_request_def IsReady_def HasCondition_def sample_env_def)

lemma demo_reachable: "reachable UNIV sample_env demo_codec (demo_world n)"
  unfolding reachable_def
proof (intro exI)
  show "(mcr_step UNIV sample_env demo_codec)\<^sup>*\<^sup>* (empty_world \<lparr>MaxChunkSizeBytes = 800000, DefaultTTL = 600000000000\<rparr>) (demo_world n)"
    unfolding demo_world_def
    by (rule r_into_rtranclp, rule mcr_step.create) (simp_all add: empty_world_def demo_request_def sample_env_def)
qed

lemma demo_sound: "sound UNIV sample_env demo_codec (demo_world n)"
  by (rule reachable_sound [OF sample_env_contract demo_codec_ok demo_reachable])

lemma demo_fresh: "fresh_for os (demo_request n) (demo_world n)"
  by (simp add: fresh_for_def demo_world_def empty_world_def Let_def)

lemma demo_collect:
  "n \<noteq> ''gone'' \<Longrightarrow> collectTargetObjects (demo_outside fs) (demo_request n) = Inr [demo_object n]"
  "collectTargetObjects (demo_outside fs) (demo_request ''gone'') = Inl (ApiFailure ''failed to get Secret'' ErrNotFound)"
  by (simp_all add: collectTargetObjects_def demo_outside_def demo_request_def fetch_target_def sample_env_def Let_def
      sortObjects_def sort_slice_Cons)

lemma demo_handoff: "content_ref demo_owner" "or_name demo_owner \<noteq> []"
  by (simp_all add: demo_owner_def SnapshotContentOwnerReference_def content_ref_def sample_content_def)

lemma demo_world_request: "wd_request (demo_world n) = Some (demo_request n)" "q_conditions (demo_request n) = []"
  "q_checkpoint_name (demo_request n) = []" "wd_keepers (demo_world n) k = None" "wd_calls (demo_world n) = 0"
  by (simp_all add: demo_world_def empty_world_def demo_request_def)

lemma demo_ends_ready:
  "\<exists>w q. reachable UNIV sample_env demo_codec w \<and> wd_request w = Some q \<and> IsReady sample_env (q_conditions q)"
proof -
  let ?n = "ManifestCheckpointName (cd_digest demo_codec) (q_uid (demo_request ''a''))"
  have "collectTargetObjects (demo_outside no_faults) (demo_request ''a'') = Inr [demo_object ''a'']"
    by (rule demo_collect(1)) simp
  from capture_run [OF sample_env_contract demo_codec_ok demo_outside_ok demo_healthy demo_outside_ok demo_healthy
      demo_sound demo_world_request(1-3) demo_fresh this demo_handoff]
  obtain w1 cp refs ch w2 q2 where r: "Reconcile (demo_outside no_faults) (demo_world ''a'') = (RequeueMs 500, w1)"
    "wd_checkpoints w1 ?n = Some cp" "snapshotContentControllerOwnerRefsForHandoff (mc_owner_refs cp) demo_owner = Inr (refs, ch)"
    "Reconcile (demo_outside no_faults) (w1\<lparr>wd_checkpoints := (wd_checkpoints w1)(?n \<mapsto> cp\<lparr>mc_owner_refs := refs\<rparr>)\<rparr>) = (Done, w2)"
    "wd_request w2 = Some q2" "IsReady sample_env (q_conditions q2)" by auto
  obtain cfg where 0: "(mcr_step UNIV sample_env demo_codec)\<^sup>*\<^sup>* (empty_world cfg) (demo_world ''a'')"
    using demo_reachable unfolding reachable_def by blast
  note 1 = rtranclp.rtrancl_into_rtrancl [OF 0 mcr_step.pass [OF demo_outside_ok r(1)]]
  note 2 = rtranclp.rtrancl_into_rtrancl [OF 1 mcr_step.handoff [OF r(2) demo_handoff r(3)]]
  note 3 = rtranclp.rtrancl_into_rtrancl [OF 2 mcr_step.pass [OF demo_outside_ok r(4)]]
  show ?thesis using 3 r(5,6) unfolding reachable_def by blast
qed


lemma capture_completes_witness:
  "\<exists>w1 cp refs w2 q2. Reconcile (demo_outside no_faults) (demo_world ''a'') = (RequeueMs 500, w1) \<and>
     Reconcile (demo_outside no_faults) (w1\<lparr>wd_checkpoints := (wd_checkpoints w1)(ManifestCheckpointName (cd_digest demo_codec)
       (q_uid (demo_request ''a'')) \<mapsto> cp\<lparr>mc_owner_refs := refs\<rparr>)\<rparr>) = (Done, w2) \<and>
     wd_request w2 = Some q2 \<and> IsReady sample_env (q_conditions q2)"
proof -
  have "collectTargetObjects (demo_outside no_faults) (demo_request ''a'') = Inr [demo_object ''a'']"
    by (rule demo_collect(1)) simp
  from capture_completes [OF sample_env_contract demo_codec_ok demo_outside_ok demo_healthy demo_outside_ok demo_healthy
      demo_sound demo_world_request(1-3) demo_fresh this demo_handoff]
  show ?thesis by blast
qed

definition demo_failed :: request where
  "demo_failed = (demo_request ''a'')\<lparr>q_completion := Some 7, q_conditions := [ready_condition ConditionFalse MCRFailed '''' ''t'']\<rparr>"

lemma terminal_request_is_final_witness:
  "\<exists>r w'. Reconcile (demo_outside no_faults) ((demo_world ''a'')\<lparr>wd_request := Some demo_failed\<rparr>) = (r, w') \<and>
     wd_request w' = Some demo_failed \<and>
     demo_failed \<notin> set (scanAndDeleteExpiredMCRs sample_env \<lparr>MaxChunkSizeBytes = 800000, DefaultTTL = 600\<rparr> 1000 (\<lambda>_. True) (Some [demo_failed]) [demo_failed])"
proof -
  have t: "isTerminal (os_env (demo_outside no_faults)) demo_failed"
    by (simp add: isTerminal_def demo_failed_def demo_outside_def sample_env_def ready_condition_def)
  obtain r w' where "Reconcile (demo_outside no_faults) ((demo_world ''a'')\<lparr>wd_request := Some demo_failed\<rparr>) = (r, w')" by fastforce
  from terminal_request_is_final [OF _ t this, of "\<lparr>MaxChunkSizeBytes = 800000, DefaultTTL = 600\<rparr>" "[demo_failed]" 1000 "\<lambda>_. True"] this
  show ?thesis by (simp add: demo_failed_def demo_outside_def)
qed

lemma capture_stays_in_namespace_witness:
  "(\<exists>obj. fetch_target (demo_outside no_faults) ''ns'' \<lparr>mt_apiVersion = ''v1'', mt_kind = ''Secret'', mt_name = ''a''\<rparr> = Inr obj) \<and>
   distinct (map object_key [demo_object ''a''])"
proof -
  have "collectTargetObjects (demo_outside no_faults) (demo_request ''a'') = Inr [demo_object ''a'']"
    by (rule demo_collect(1)) simp
  from capture_stays_in_namespace [OF this] show ?thesis by (auto simp: demo_request_def)
qed

definition started :: "request \<Rightarrow> request" where
  "started q = q\<lparr>q_conditions := [ready_condition ConditionFalse ReasonProcessing '''' ''t'']\<rparr>"

lemma failed_keeper_create_is_terminal_witness:
  "\<exists>w' q'. Reconcile (demo_outside (\<lambda>k. if k = 4 then Some (ApiErr ''timeout'') else None))
       ((demo_world ''a'')\<lparr>wd_request := Some (started (demo_request ''a''))\<rparr>) =
       (ReconcileErr (ApiFailure ''create ObjectKeeper'' (ApiErr ''timeout'')), w') \<and>
     wd_request w' = Some q' \<and> isTerminal sample_env q'"
proof -
  let ?q = "started (demo_request ''a'')" and ?w = "(demo_world ''a'')\<lparr>wd_request := Some (started (demo_request ''a''))\<rparr>"
  let ?os = "demo_outside (\<lambda>k. if k = 4 then Some (ApiErr ''timeout'') else None)"
  have p: "processing sample_env (q_conditions ?q)"
    by (simp add: processing_def started_def sample_env_def ready_condition_def)
  have "unready sample_env ?q"
    by (simp add: unready_def stamped_ready_def started_def demo_request_def sample_env_def ready_condition_def IsReady_def HasCondition_def)
  then have s: "sound UNIV sample_env demo_codec ?w"
    using demo_sound [of "''a''"] by (simp add: sound_def unready_def)
  have "collectTargetObjects ?os ?q = collectTargetObjects ?os (demo_request ''a'')"
    by (simp add: collectTargetObjects_def started_def)
  then have c: "collectTargetObjects ?os ?q = Inr [demo_object ''a'']" using demo_collect(1) [of "''a''"] by simp
  show ?thesis
    using failed_keeper_create_is_terminal [OF sample_env_contract demo_outside_ok _ p s c, of "ApiErr ''timeout''"]
    by (simp add: demo_world_request) (auto simp: started_def demo_request_def demo_outside_def)
qed

lemma vanished_target_fails_finished_capture_witness:
  "\<exists>w cp w' q'. wd_request w = Some (demo_request ''a'') \<and> IsReady sample_env (mc_conditions cp) \<and>
     wd_checkpoints w (ManifestCheckpointName (cd_digest demo_codec) (q_uid (demo_request ''a''))) = Some cp \<and>
     Reconcile ((demo_outside no_faults)\<lparr>os_object := (\<lambda>_ _ _. Inl ErrNotFound)\<rparr>) w = (Done, w') \<and>
     wd_request w' = Some q' \<and> isTerminal sample_env q'"
proof -
  let ?os = "(demo_outside no_faults)\<lparr>os_object := (\<lambda>_ _ _. Inl ErrNotFound)\<rparr>"
  have "collectTargetObjects (demo_outside no_faults) (demo_request ''a'') = Inr [demo_object ''a'']"
    by (rule demo_collect(1)) simp
  from first_pass [OF sample_env_contract demo_codec_ok demo_outside_ok demo_healthy demo_sound demo_world_request(1-3) demo_fresh this]
  obtain w1 cp where w1: "Reconcile (demo_outside no_faults) (demo_world ''a'') = (RequeueMs 500, w1)"
    "wd_checkpoints w1 (ManifestCheckpointName (cd_digest demo_codec) (q_uid (demo_request ''a''))) = Some cp"
    "IsReady sample_env (mc_conditions cp)" by blast
  let ?w = "w1\<lparr>wd_request := Some (demo_request ''a'')\<rparr>"
  have s: "sound UNIV sample_env demo_codec ?w"
    using Reconcile_sound [OF sample_env_contract demo_codec_ok demo_outside_ok w1(1) demo_sound] demo_unready
    by (simp add: sound_def)
  have os: "outside_ok sample_env demo_codec ?os" "healthy ?os"
    by (simp_all add: outside_ok_def healthy_def demo_outside_def sample_env_def)
  have c: "collectTargetObjects ?os (demo_request ''a'') = Inl (ApiFailure ''failed to get Secret'' ErrNotFound)"
    by (simp add: collectTargetObjects_def demo_outside_def demo_request_def fetch_target_def sample_env_def Let_def)
  have t: "\<not> isTerminal sample_env (demo_request ''a'')" by (simp add: isTerminal_def demo_request_def sample_env_def)
  obtain w' q' where "Reconcile ?os ?w = (Done, w')" "wd_request w' = Some q'" "isTerminal sample_env q'"
    using vanished_target_fails_finished_capture [OF sample_env_contract os s _ t demo_world_request(3) c] by auto
  then show ?thesis using w1(2,3)
    by (intro exI [of _ ?w] exI [of _ cp] exI [of _ w'] exI [of _ q']) simp
qed

end
