(* ===== verification/Capture_Release.thy ===== *)
theory Capture_Release
  imports Manifest_Capture_Runs
begin

text \<open>
  When a snapshot controller may delete its ManifestCaptureRequest and mark its manifests captured
  (\<open>controllers/manifestcapture/request_cleanup.go\<close>), and what that decision guarantees in a cluster the
  capture controller has run in. The reads are those of \<open>env\<close>.
\<close>

section \<open>The decision\<close>

fun manifestCheckpointOwnedBySnapshotContentName :: "owner_ref list \<Rightarrow> string \<Rightarrow> string \<Rightarrow> bool" where
  "manifestCheckpointOwnedBySnapshotContentName [] contentName contentUID = False"
| "manifestCheckpointOwnedBySnapshotContentName (ref # refs) contentName contentUID =
     (if \<not> content_ref ref \<or> or_name ref \<noteq> contentName
      then manifestCheckpointOwnedBySnapshotContentName refs contentName contentUID
      else contentUID = '''' \<or> or_uid ref = '''' \<or> or_uid ref = contentUID)"

definition isManifestCheckpointDurable :: "env \<Rightarrow> snapshot_content \<Rightarrow> mcp_obj \<Rightarrow> bool" where
  "isManifestCheckpointDurable e content mcp =
     (if nval '''' (ct_mcp_name content) = '''' \<or> nval '''' (ct_mcp_name content) \<noteq> mp_name mcp then False
      else case find_condition e (mp_conditions mcp) ConditionReady of
        None \<Rightarrow> False
      | Some ready \<Rightarrow>
          if co_status ready \<noteq> ConditionTrue then False
          else manifestCheckpointOwnedBySnapshotContentName (mp_owner_refs mcp) (ct_name content) (ct_uid content))"

definition isMCRSafeToDelete :: "env \<Rightarrow> mcr_obj \<Rightarrow> snapshot_content \<Rightarrow> mcp_obj \<Rightarrow> bool" where
  "isMCRSafeToDelete e mcr content mcp =
     (if \<not> isManifestCheckpointDurable e content mcp then False
      else mr_checkpoint_name mcr \<noteq> '''' \<and> mr_checkpoint_name mcr = mp_name mcp)"

definition ManifestCaptureRequestSafeToDelete :: "env \<Rightarrow> string \<Rightarrow> string \<Rightarrow> string \<Rightarrow> bool res" where
  "ManifestCaptureRequestSafeToDelete e namespace name contentName =
     (let decide = (\<lambda>mcr.
        if contentName = '''' then Inr False
        else case e_content e contentName of
          NotFound \<Rightarrow> Inr False
        | GetErr x \<Rightarrow> Inl (ClientError x)
        | Found content \<Rightarrow>
            if nval '''' (ct_mcp_name content) = '''' then Inr False
            else case e_mcp e (nval '''' (ct_mcp_name content)) of
              NotFound \<Rightarrow> Inr False
            | GetErr x \<Rightarrow> Inl (ClientError x)
            | Found mcp \<Rightarrow> (case mcr of
                Some m \<Rightarrow> Inr (isMCRSafeToDelete e m content mcp)
              | None \<Rightarrow> Inr (isManifestCheckpointDurable e content mcp)))
      in case e_mcr e namespace name of
           Found m \<Rightarrow> decide (Some m) | NotFound \<Rightarrow> decide None | GetErr x \<Rightarrow> Inl (ClientError x))"

definition ManifestCheckpointNameFromRequest :: "mcr_obj option \<Rightarrow> string" where
  "ManifestCheckpointNameFromRequest mcr = (case mcr of None \<Rightarrow> '''' | Some m \<Rightarrow> mr_checkpoint_name m)"

section \<open>What it guarantees\<close>

text \<open>The reads of a controller that sees the checkpoints of a cluster, some of them possibly not.\<close>

definition sees :: "env \<Rightarrow> env \<Rightarrow> 'd world \<Rightarrow> bool" where
  "sees e' e w \<longleftrightarrow> find_condition e' = find_condition e \<and>
     (\<forall>n mcp. e_mcp e' n = Found mcp \<longrightarrow> (\<exists>cp. wd_checkpoints w n = Some cp \<and> mp_name mcp = mc_name cp \<and>
        mp_conditions mcp = mc_conditions cp \<and> mp_owner_refs mcp = mc_owner_refs cp))"

lemma durable_exact:
  "isManifestCheckpointDurable e content mcp \<longleftrightarrow> nval '''' (ct_mcp_name content) \<noteq> '''' \<and>
     nval '''' (ct_mcp_name content) = mp_name mcp \<and> IsReady e (mp_conditions mcp) \<and>
     manifestCheckpointOwnedBySnapshotContentName (mp_owner_refs mcp) (ct_name content) (ct_uid content)"
  by (auto simp: isManifestCheckpointDurable_def IsReady_def HasCondition_def split: option.splits)

lemma owned_by_name:
  "manifestCheckpointOwnedBySnapshotContentName refs n uid \<Longrightarrow>
   \<exists>ref\<in>set refs. content_ref ref \<and> or_name ref = n \<and> (uid = [] \<or> or_uid ref = [] \<or> or_uid ref = uid)"
  by (induction refs) (auto split: if_splits)

lemma safe_to_delete_cases:
  assumes "ManifestCaptureRequestSafeToDelete e ns name contentName = Inr True"
  shows "\<exists>content mcp. e_content e contentName = Found content \<and> e_mcp e (nval '''' (ct_mcp_name content)) = Found mcp \<and>
    isManifestCheckpointDurable e content mcp \<and>
    (\<forall>m. e_mcr e ns name = Found m \<longrightarrow> mr_checkpoint_name m = nval '''' (ct_mcp_name content))"
  using assms
  by (auto simp: ManifestCaptureRequestSafeToDelete_def isMCRSafeToDelete_def durable_exact Let_def
      split: get_res.splits if_splits)

text \<open>
  C33: A capture request is only given up for a checkpoint that can be downloaded: whenever a controller that
  sees the checkpoints of a cluster the capture controller has run in finds that a request may be deleted,
  present or gone, the content it asked for names a checkpoint that is Ready, is owned by that very content,
  is the one the request recorded if it still exists, and whose objects the archive reader returns.
\<close>

theorem released_capture_downloadable:
  assumes "conditions_contract e" "codec_ok c" "permutes schedule" "reachable K e c w" "sees e' e w"
    "ManifestCaptureRequestSafeToDelete e' ns name contentName = Inr True"
  shows "\<exists>content cp objs. e_content e' contentName = Found content \<and>
     wd_checkpoints w (nval '''' (ct_mcp_name content)) = Some cp \<and> IsReady e (mc_conditions cp) \<and>
     (\<exists>ref\<in>set (mc_owner_refs cp). content_ref ref \<and> or_name ref = ct_name content) \<and>
     (\<forall>m. e_mcr e' ns name = Found m \<longrightarrow> ManifestCheckpointNameFromRequest (Some m) = nval '''' (ct_mcp_name content)) \<and>
     collectObjectsFromCheckpoint c schedule (chunk_getter w) (nval '''' (ct_mcp_name content)) (mc_chunks cp) = Inr objs"
proof -
  obtain content mcp where d: "e_content e' contentName = Found content" "e_mcp e' (nval '''' (ct_mcp_name content)) = Found mcp"
    "isManifestCheckpointDurable e' content mcp"
    "\<forall>m. e_mcr e' ns name = Found m \<longrightarrow> mr_checkpoint_name m = nval '''' (ct_mcp_name content)"
    using safe_to_delete_cases [OF assms(6)] by blast
  obtain cp where cp: "wd_checkpoints w (nval '''' (ct_mcp_name content)) = Some cp" "mp_conditions mcp = mc_conditions cp"
    "mp_owner_refs mcp = mc_owner_refs cp"
    using assms(5) d(2) unfolding sees_def by blast
  have ready: "IsReady e (mc_conditions cp)"
    using d(3) cp(2) assms(5) by (simp add: durable_exact sees_def IsReady_def HasCondition_def)
  have s: "sound K e c w" by (rule reachable_sound [OF assms(1,2,4)])
  then have "listed (wd_chunks w) (nval '''' (ct_mcp_name content)) (mc_chunks cp)"
    using cp(1) ready by (simp add: sound_def checkpoints_ok_def)
  then have "\<exists>objs. collectObjectsFromCheckpoint c schedule (chunk_getter w) (nval '''' (ct_mcp_name content)) (mc_chunks cp) = Inr objs"
    using listed_readable [OF assms(2,3)] s unfolding sound_def by blast
  moreover have "\<exists>ref\<in>set (mc_owner_refs cp). content_ref ref \<and> or_name ref = ct_name content"
    using owned_by_name d(3) cp(3) unfolding durable_exact by metis
  ultimately show ?thesis using d(1,4) cp(1) ready by (auto simp: ManifestCheckpointNameFromRequest_def)
qed

section \<open>An instance\<close>

lemma sole_content_owner:
  "filter content_ref refs = [d] \<Longrightarrow> manifestCheckpointOwnedBySnapshotContentName refs (or_name d) (or_uid d)"
  by (induction refs) (auto split: if_splits)

lemma handed_off_by_name:
  assumes "snapshotContentControllerOwnerRefsForHandoff refs d = Inr (refs', ch)" "content_ref d"
  shows "manifestCheckpointOwnedBySnapshotContentName refs' (or_name d) (or_uid d)"
proof -
  let ?r = "replaced content_ref (\<lambda>r. \<not> is_controller r) d refs False"
  have no: "\<not> (\<exists>r\<in>set refs. content_ref r \<and> foreign_content d r)"
    using handoff_loop_conflict [of refs d "[]" False] assms(1)
    unfolding snapshotContentControllerOwnerRefsForHandoff_def by fastforce
  have out: "refs' = ?r" using handoff_ok [OF no] assms(1) by (simp add: Let_def)
  have "filter (\<lambda>r. content_ref r \<or> \<not> (\<not> is_controller r)) ?r = [d]"
    using filter_replaced_mine [of content_ref d "\<lambda>r. \<not> is_controller r" refs False] assms(2) by simp
  then have "filter content_ref (filter (\<lambda>r. content_ref r \<or> \<not> (\<not> is_controller r)) ?r) = [d]" using assms(2) by simp
  moreover have "filter content_ref (filter (\<lambda>r. content_ref r \<or> \<not> (\<not> is_controller r)) rs) = filter content_ref rs" for rs
    by (induction rs) auto
  ultimately show ?thesis using sole_content_owner out by (metis (no_types))
qed

text \<open>What a client reads of a cluster with the content of the samples bound to one checkpoint.\<close>

definition demo_view :: "'d world \<Rightarrow> string \<Rightarrow> env" where
  "demo_view w n = sample_env\<lparr>e_content := (\<lambda>_. Found (sample_content\<lparr>ct_mcp_name := NVal n\<rparr>)),
     e_mcp := (\<lambda>m. case wd_checkpoints w m of None \<Rightarrow> NotFound
       | Some cp \<Rightarrow> Found \<lparr>mp_name = mc_name cp, mp_owner_refs = mc_owner_refs cp, mp_conditions = mc_conditions cp,
           mp_chunks = [], mp_finalizers = []\<rparr>)\<rparr>"

lemma demo_view_sees: "sees (demo_view w n) sample_env w"
  by (auto simp: sees_def demo_view_def split: option.splits)

lemma demo_view_safe:
  assumes "wd_checkpoints w n = Some cp" "mc_name cp = n" "n \<noteq> []" "IsReady sample_env (mc_conditions cp)"
    "manifestCheckpointOwnedBySnapshotContentName (mc_owner_refs cp) ''content'' ''uid''"
  shows "ManifestCaptureRequestSafeToDelete (demo_view w n) ns nm ''content'' = Inr True"
proof -
  have "e_mcr (demo_view w n) ns nm = NotFound" by (simp add: demo_view_def sample_env_def)
  moreover have "find_condition (demo_view w n) = find_condition sample_env" by (simp add: demo_view_def)
  then have "isManifestCheckpointDurable (demo_view w n) (sample_content\<lparr>ct_mcp_name := NVal n\<rparr>)
      \<lparr>mp_name = n, mp_owner_refs = mc_owner_refs cp, mp_conditions = mc_conditions cp, mp_chunks = [], mp_finalizers = []\<rparr>"
    unfolding durable_exact using assms by (simp add: sample_content_def IsReady_def HasCondition_def)
  ultimately show ?thesis
    using assms(1-3) by (simp add: ManifestCaptureRequestSafeToDelete_def) (simp add: demo_view_def)
qed

lemma released_capture_downloadable_witness:
  "\<exists>w n cp objs. reachable UNIV sample_env demo_codec w \<and>
     ManifestCaptureRequestSafeToDelete (demo_view w n) ''ns'' ''mcr'' ''content'' = Inr True \<and>
     wd_checkpoints w n = Some cp \<and>
     collectObjectsFromCheckpoint demo_codec rev (chunk_getter w) n (mc_chunks cp) = Inr objs"
proof -
  let ?n = "ManifestCheckpointName (cd_digest demo_codec) (q_uid (demo_request ''a''))"
  have "collectTargetObjects (demo_outside no_faults) (demo_request ''a'') = Inr [demo_object ''a'']"
    by (rule demo_collect(1)) simp
  from capture_run [OF sample_env_contract demo_codec_ok demo_outside_ok demo_healthy demo_outside_ok demo_healthy
      demo_sound demo_world_request(1-3) demo_fresh this demo_handoff]
  obtain w1 cp refs ch where r: "Reconcile (demo_outside no_faults) (demo_world ''a'') = (RequeueMs 500, w1)"
    "wd_checkpoints w1 ?n = Some cp" "IsReady sample_env (mc_conditions cp)"
    "snapshotContentControllerOwnerRefsForHandoff (mc_owner_refs cp) demo_owner = Inr (refs, ch)" by auto
  let ?cp = "cp\<lparr>mc_owner_refs := refs\<rparr>"
  let ?w = "w1\<lparr>wd_checkpoints := (wd_checkpoints w1)(?n \<mapsto> ?cp)\<rparr>"
  obtain cfg where 0: "(mcr_step UNIV sample_env demo_codec)\<^sup>*\<^sup>* (empty_world cfg) (demo_world ''a'')"
    using demo_reachable unfolding reachable_def by blast
  note 1 = rtranclp.rtrancl_into_rtrancl [OF 0 mcr_step.pass [OF demo_outside_ok r(1)]]
  note 2 = rtranclp.rtrancl_into_rtrancl [OF 1 mcr_step.handoff [OF r(2) demo_handoff r(4)]]
  then have reach: "reachable UNIV sample_env demo_codec ?w" unfolding reachable_def by blast
  have at: "wd_checkpoints ?w ?n = Some ?cp" "IsReady sample_env (mc_conditions ?cp)" using r(3) by simp_all
  have nm: "mc_name ?cp = ?n" "?n \<noteq> []"
    using reachable_sound [OF sample_env_contract demo_codec_ok reach] at(1)
    unfolding sound_def checkpoints_ok_def by (blast, simp add: ManifestCheckpointName_def)
  have "or_name demo_owner = ''content''" "or_uid demo_owner = ''uid''"
    by (simp_all add: demo_owner_def SnapshotContentOwnerReference_def sample_content_def)
  then have "manifestCheckpointOwnedBySnapshotContentName (mc_owner_refs ?cp) ''content'' ''uid''"
    using handed_off_by_name [OF r(4) demo_handoff(1)] by simp
  note safe = demo_view_safe [OF at(1) nm at(2) this]
  have "e_content (demo_view ?w ?n) ''content'' = Found (sample_content\<lparr>ct_mcp_name := NVal ?n\<rparr>)" by (simp add: demo_view_def)
  then have "\<exists>cp objs. wd_checkpoints ?w ?n = Some cp \<and>
      collectObjectsFromCheckpoint demo_codec rev (chunk_getter ?w) ?n (mc_chunks cp) = Inr objs"
    using released_capture_downloadable [OF sample_env_contract demo_codec_ok _ reach demo_view_sees safe, of rev]
    by (auto simp: permutes_def)
  then show ?thesis using reach safe by blast
qed

end
