(* ===== verification/Import_Checkpoint.thy ===== *)
theory Import_Checkpoint
  imports Manifest_Capture
begin

text \<open>
  The import of manifests (\<open>usecase/import_upload.go\<close>, \<open>usecase/import_manifest_reconstruct.go\<close>): an upload
  is checked against the snapshot and the content it is addressed to, and its manifests become a Ready
  checkpoint with chunks, which \<open>CollectReconstructedManifestObjects\<close> reads back.

  The raw messages of an upload are modelled by the values they encode. The calls are those of
  \<open>Manifest_Capture\<close> (\<open>get_checkpoint\<close>, \<open>create_checkpoint\<close>, \<open>write_checkpoint\<close>, the view of the chunks). An
  \<open>AggStatus\<close> carries the HTTP code and the reason of an \<open>AggregatedStatusError\<close>.
\<close>

datatype import_err = AggStatus nat string | NotJsonArray string | ImportErr string | ImportApi string api_err

definition reconstructMaxChunkBytes :: int where
  "reconstructMaxChunkBytes = 800 * 1000"

definition ReconstructedManifestCheckpointName :: "(string \<Rightarrow> string) \<Rightarrow> string \<Rightarrow> string \<Rightarrow> string" where
  "ReconstructedManifestCheckpointName H importUID nodeID = ''nss-mcp-'' @ take 16 (H (importUID @ ''/'' @ nodeID))"

abbreviation "ReconstructedLabelKey \<equiv> ''state-snapshotter.deckhouse.io/reconstructed''"

section \<open>Writing\<close>

fun group_loop :: "('t, 'g, 'd) codec \<Rightarrow> json list \<Rightarrow> json list list \<Rightarrow> json list \<Rightarrow> json list list" where
  "group_loop c [] groups current = (if current \<noteq> [] then groups @ [current] else groups)"
| "group_loop c (obj # objs) groups current =
     (case cd_encode c (JList (current @ [obj])) of
        None \<Rightarrow>
          (if current \<noteq> [] then group_loop c objs (groups @ [current] @ [[obj]]) []
           else group_loop c objs (groups @ [[obj]]) current)
      | Some t \<Rightarrow>
          if (case cd_gzip c t of Inl _ \<Rightarrow> False | Inr g \<Rightarrow> int (cd_length c g) > reconstructMaxChunkBytes) \<and> current \<noteq> []
          then group_loop c objs (groups @ [current]) [obj]
          else group_loop c objs groups (current @ [obj]))"

definition groupObjectsBySize :: "('t, 'g, 'd) codec \<Rightarrow> json list \<Rightarrow> json list list" where
  "groupObjectsBySize c objs = group_loop c objs [] []"

text \<open>A chunk that exists already is accepted without being read.\<close>

fun write_groups ::
  "('t, 'g, 'd) codec \<Rightarrow> string \<Rightarrow> string \<Rightarrow> nat \<Rightarrow> json list list \<Rightarrow> 'd chunk_api \<Rightarrow>
   (import_err + chunk_info list) \<times> 'd chunk_api" where
  "write_groups c checkpointName checkpointUID index [] a = (Inr [], a)"
| "write_groups c checkpointName checkpointUID index (objs # rest) a =
     (case cd_encode c (JList objs) of
        None \<Rightarrow> (Inl (ImportErr (''marshal chunk '' @ show_nat index)), a)
      | Some t \<Rightarrow> (case cd_gzip c t of
          Inl x \<Rightarrow> (Inl (ImportErr x), a)
        | Inr g \<Rightarrow>
            let name = ChunkName (cd_digest c) checkpointUID index;
                a' = (if ca_create a name = None
                      then put_chunk name (new_chunk c checkpointName checkpointUID index (length objs) g) a else a)
            in if ca_create a name \<noteq> None \<and> ca_create a name \<noteq> Some AlreadyExists
               then (Inl (ImportErr (''create chunk '' @ name)), a')
               else (case write_groups c checkpointName checkpointUID (Suc index) rest a' of
                  (Inl e, a'') \<Rightarrow> (Inl e, a'')
                | (Inr infos, a'') \<Rightarrow> (Inr (chunk_info_of c checkpointUID index (length objs) g # infos), a''))))"

definition writeReconstructedChunks ::
  "('t, 'g, 'd) codec \<Rightarrow> string \<Rightarrow> string \<Rightarrow> json list \<Rightarrow> 'd chunk_api \<Rightarrow> (import_err + chunk_info list) \<times> 'd chunk_api" where
  "writeReconstructedChunks c checkpointName checkpointUID objects a =
     (let groups = groupObjectsBySize c objects;
          groups = (if groups = [] then [[]] else groups)
      in write_groups c checkpointName checkpointUID 0 groups a)"

definition raw_array :: "('t, 'g, 'd) codec \<Rightarrow> 't \<Rightarrow> json list option" where
  "raw_array c raw = (case cd_parse c raw of Some (JList xs) \<Rightarrow> Some xs | Some JNull \<Rightarrow> Some [] | _ \<Rightarrow> None)"

definition imported_checkpoint :: "string \<Rightarrow> owner_ref list \<Rightarrow> checkpoint" where
  "imported_checkpoint checkpointName ownerRefs =
     \<lparr>mc_name = checkpointName, mc_uid = '''', mc_conditions = [], mc_owner_refs = ownerRefs, mc_chunks = [],
      mc_total_objects = 0, mc_total_size = 0, mc_labels = [ReconstructedLabelKey \<mapsto> ''true'']\<rparr>"

text \<open>The condition is put with \<open>SetStatusCondition\<close>, which fills in the transition time.\<close>

definition fill_checkpoint ::
  "('t, 'g, 'd) outside \<Rightarrow> chunk_info list \<Rightarrow> checkpoint \<Rightarrow> checkpoint" where
  "fill_checkpoint os infos cp = cp\<lparr>mc_chunks := infos, mc_total_objects := sum_list (map ci_count infos),
     mc_total_size := sum_list (map ci_size infos),
     mc_conditions := put_condition (os_env os) (mc_conditions cp)
       (ready_condition ConditionTrue MCRCompleted (''Reconstructed from import with '' @ show_nat (length infos) @ '' chunk(s), '' @
         show_nat (sum_list (map ci_count infos)) @ '' object(s)'') (os_now os))\<rparr>"

definition build_reconstructed ::
  "('t, 'g, 'd) outside \<Rightarrow> string \<Rightarrow> owner_ref list \<Rightarrow> 't \<Rightarrow> 'd world \<Rightarrow> (import_err + unit) \<times> 'd world" where
  "build_reconstructed os checkpointName ownerRefs rawManifests w =
     (case raw_array (os_codec os) rawManifests of
        None \<Rightarrow> (Inl (NotJsonArray checkpointName), w)
      | Some objects \<Rightarrow>
          (case create_checkpoint os (imported_checkpoint checkpointName ownerRefs) w of
             (r, w) \<Rightarrow>
               if (case r of Inl x \<Rightarrow> x \<noteq> AlreadyExists | Inr _ \<Rightarrow> False)
               then (Inl (ImportErr (''create ManifestCheckpoint '' @ checkpointName)), w)
               else (case get_checkpoint os checkpointName w of
                  (Inl x, w) \<Rightarrow> (Inl (ImportApi ''get reconstructed ManifestCheckpoint'' x), w)
                | (Inr cp, w) \<Rightarrow>
                    (case writeReconstructedChunks (os_codec os) checkpointName (mc_uid cp) objects (chunk_view os w) of
                       (Inl e, a) \<Rightarrow> (Inl e, store_chunks a w)
                     | (Inr infos, a) \<Rightarrow>
                         (case write_checkpoint os (fill_checkpoint os infos cp) (store_chunks a w) of
                            (Some x, w) \<Rightarrow> (Inl (ImportApi ''update reconstructed ManifestCheckpoint'' x), w)
                          | (None, w) \<Rightarrow> (Inr (), w))))))"

definition ReconstructManifestCheckpoint ::
  "('t, 'g, 'd) outside \<Rightarrow> string \<Rightarrow> owner_ref list \<Rightarrow> 't \<Rightarrow> 'd world \<Rightarrow> (import_err + unit) \<times> 'd world" where
  "ReconstructManifestCheckpoint os checkpointName ownerRefs rawManifests w =
     (case get_checkpoint os checkpointName w of
        (Inr existing, w) \<Rightarrow>
          if IsReady (os_env os) (mc_conditions existing) then (Inr (), w)
          else build_reconstructed os checkpointName ownerRefs rawManifests w
      | (Inl x, w) \<Rightarrow>
          if x \<noteq> ErrNotFound then (Inl (ImportApi ''get ManifestCheckpoint'' x), w)
          else build_reconstructed os checkpointName ownerRefs rawManifests w)"

text \<open>The answer of the delete is an ordinary fault; deleting a checkpoint that does not exist is \<open>ErrNotFound\<close>.\<close>

definition DeleteReconstructedManifestCheckpoint ::
  "('t, 'g, 'd) outside \<Rightarrow> string \<Rightarrow> 'd world \<Rightarrow> (import_err + unit) \<times> 'd world" where
  "DeleteReconstructedManifestCheckpoint os importUID w =
     (if importUID = '''' then (Inr (), w)
      else let name = ReconstructedManifestCheckpointName (cd_digest (os_codec os)) importUID '''' in
        case served os w of
          (Some x, w) \<Rightarrow> (if x = ErrNotFound then Inr () else Inl (ImportApi (''delete reconstructed ManifestCheckpoint '' @ name) x), w)
        | (None, w) \<Rightarrow> (Inr (), w\<lparr>wd_checkpoints := (wd_checkpoints w)(name := None)\<rparr>))"

section \<open>Reading\<close>

text \<open>Decoding \<open>null\<close> into a map leaves a nil map, which is modelled as \<open>JNull\<close>.\<close>

fun decode_objects :: "('t, 'g, 'd) codec \<Rightarrow> json list \<Rightarrow> json list option" where
  "decode_objects c [] = Some []"
| "decode_objects c (x # xs) = (case x of
     JMap m \<Rightarrow> map_option ((#) (renumber (cd_renum c) x)) (decode_objects c xs)
   | JNull \<Rightarrow> map_option ((#) JNull) (decode_objects c xs)
   | _ \<Rightarrow> None)"

definition decodeReconstructedChunk ::
  "('t, 'g, 'd) codec \<Rightarrow> 'd \<Rightarrow> string \<Rightarrow> string \<Rightarrow> archive_error + json list" where
  "decodeReconstructedChunk c encoded expectedChecksum chunkName =
     (case cd_unbase64 c encoded of
        None \<Rightarrow> Inl (BadBase64 chunkName)
      | Some g \<Rightarrow>
          if expectedChecksum \<noteq> '''' \<and> cd_sha c g \<noteq> expectedChecksum
          then Inl (ChecksumMismatch chunkName expectedChecksum (cd_sha c g))
          else case cd_gunzip c g of
            Inl _ \<Rightarrow> Inl (BadGzip chunkName)
          | Inr t \<Rightarrow> (case raw_array c t of
              None \<Rightarrow> Inl (BadJson chunkName)
            | Some raws \<Rightarrow> (case decode_objects c raws of
                None \<Rightarrow> Inl (BadJson chunkName) | Some objects \<Rightarrow> Inr objects)))"

fun collect_reconstructed ::
  "('t, 'g, 'd) codec \<Rightarrow> (string \<Rightarrow> 'd chunk get_res) \<Rightarrow> chunk_info list \<Rightarrow> archive_error + json list" where
  "collect_reconstructed c get [] = Inr []"
| "collect_reconstructed c get (info # infos) =
     (case get (ci_name info) of
        NotFound \<Rightarrow> Inl (ChunkMissing (ci_name info))
      | GetErr x \<Rightarrow> Inl (ChunkRead (ci_name info) x)
      | Found ck \<Rightarrow> (case decodeReconstructedChunk c (ck_data ck) (ci_checksum info) (ci_name info) of
          Inl x \<Rightarrow> Inl x
        | Inr objects \<Rightarrow> (case collect_reconstructed c get infos of Inl x \<Rightarrow> Inl x | Inr rest \<Rightarrow> Inr (objects @ rest))))"

definition CollectReconstructedManifestObjects ::
  "('t, 'g, 'd) codec \<Rightarrow> (string \<Rightarrow> 'd chunk get_res) \<Rightarrow> checkpoint \<Rightarrow> archive_error + json list" where
  "CollectReconstructedManifestObjects c get cp = collect_reconstructed c get (sort_slice info_less (mc_chunks cp))"

section \<open>The upload\<close>

definition validateUploadManifests :: "('t, 'g, 'd) codec \<Rightarrow> 't option \<Rightarrow> import_err + 't" where
  "validateUploadManifests c manifests =
     (case manifests of
        None \<Rightarrow> Inl (AggStatus 400 ''BadRequest'')
      | Some raw \<Rightarrow>
          if cd_parse c raw = Some JNull then Inl (AggStatus 400 ''BadRequest'')
          else if raw_array c raw = None then Inl (AggStatus 400 ''BadRequest'')
          else Inr raw)"

definition validateUploadChildRefs :: "snapshot_child_ref list \<Rightarrow> bool" where
  "validateUploadChildRefs childRefs = list_all (\<lambda>ref. cr_apiVersion ref \<noteq> '''' \<and> cr_kind ref \<noteq> '''' \<and> cr_name ref \<noteq> '''') childRefs"

definition classifyReconstructError :: "import_err \<Rightarrow> import_err" where
  "classifyReconstructError e = (case e of NotJsonArray _ \<Rightarrow> AggStatus 400 ''BadRequest'' | _ \<Rightarrow> AggStatus 500 ''InternalError'')"

definition verifyContentSnapshotRef :: "subject_ref \<Rightarrow> string \<Rightarrow> string \<Rightarrow> string \<Rightarrow> string \<Rightarrow> string \<Rightarrow> import_err option" where
  "verifyContentSnapshotRef ref wantAPIVersion wantKind wantNamespace wantName wantUID =
     (if sr_apiVersion ref \<noteq> wantAPIVersion \<or> sr_kind ref \<noteq> wantKind \<or> sr_namespace ref \<noteq> wantNamespace \<or>
         sr_name ref \<noteq> wantName then Some (AggStatus 403 ''Forbidden'')
      else if sr_uid ref \<noteq> '''' \<and> wantUID \<noteq> '''' \<and> sr_uid ref \<noteq> wantUID then Some (AggStatus 403 ''Forbidden'')
      else None)"

definition UploadToContent ::
  "('t, 'g, 'd) outside \<Rightarrow> snapshot_content \<Rightarrow> 't option \<Rightarrow> 'd world \<Rightarrow> (import_err + string) \<times> 'd world" where
  "UploadToContent os content manifests w =
     (case validateUploadManifests (os_codec os) manifests of
        Inl e \<Rightarrow> (Inl e, w)
      | Inr raw \<Rightarrow>
          if sr_uid (ct_snapshot_ref content) = '''' then (Inl (AggStatus 409 ''Conflict''), w)
          else
            let checkpointName = ReconstructedManifestCheckpointName (cd_digest (os_codec os)) (sr_uid (ct_snapshot_ref content)) '''' in
            case ReconstructManifestCheckpoint os checkpointName [SnapshotContentOwnerReference content] raw w of
              (Inl e, w) \<Rightarrow> (Inl (classifyReconstructError e), w)
            | (Inr _, w) \<Rightarrow> (Inr checkpointName, w))"

text \<open>The recorded children of the snapshot; an absent field is an empty list. \<open>written\<close> is the answer of the write.\<close>

definition childRefSlicesEqual :: "snapshot_child_ref option list \<Rightarrow> snapshot_child_ref list \<Rightarrow> bool" where
  "childRefSlicesEqual current desired = (if current = [] \<and> desired = [] then True else current = map Some desired)"

definition writeChildrenSnapshotRefs ::
  "snapshot_obj get_res \<Rightarrow> api_err option \<Rightarrow> snapshot_child_ref list \<Rightarrow> snapshot_child_ref option list \<Rightarrow>
   import_err option \<times> snapshot_child_ref option list" where
  "writeChildrenSnapshotRefs fresh written childRefs recorded =
     (case fresh of
        NotFound \<Rightarrow> (Some (AggStatus 404 ''NotFound''), recorded)
      | GetErr x \<Rightarrow> (Some (ImportErr x), recorded)
      | Found s \<Rightarrow>
          (case so_children s of
             NBadType \<Rightarrow> (Some (ImportErr ''status.childrenSnapshotRefs''), recorded)
           | current \<Rightarrow>
               if childRefSlicesEqual (nval [] current) childRefs then (None, recorded)
               else (case written of
                  None \<Rightarrow> (None, map Some childRefs)
                | Some x \<Rightarrow> (Some (if x = ErrNotFound then AggStatus 404 ''NotFound''
                    else if x = ApiErr ''Conflict'' then AggStatus 409 ''Conflict''
                    else ImportApi ''write status.childrenSnapshotRefs'' x), recorded))))"

abbreviation "ReasonImportContentNotBound \<equiv> ''ImportContentNotBound''"

text \<open>
  \<open>cr\<close> and \<open>fresh\<close> are the two reads of the snapshot, \<open>get\<close> the reads of contents; the result also tells the
  recorded children.
\<close>

definition Upload ::
  "('t, 'g, 'd) outside \<Rightarrow> snapshot_obj get_res \<Rightarrow> snapshot_obj get_res \<Rightarrow> (string \<Rightarrow> snapshot_content get_res) \<Rightarrow>
   api_err option \<Rightarrow> gvk \<Rightarrow> string \<Rightarrow> string \<Rightarrow> ('t option \<times> snapshot_child_ref list) option \<Rightarrow> bool \<Rightarrow>
   'd world \<Rightarrow> snapshot_child_ref option list \<Rightarrow> (import_err + string) \<times> 'd world \<times> snapshot_child_ref option list" where
  "Upload os cr fresh get written snapshotGVK namespace name payload leaf w recorded =
     (let bad = (Inl (AggStatus 400 ''BadRequest''), w, recorded) in
      if (g_group snapshotGVK = '''' \<and> g_version snapshotGVK = '''' \<and> g_kind snapshotGVK = '''') \<or> namespace = '''' \<or> name = '''' then bad
      else case payload of
        None \<Rightarrow> bad
      | Some (manifests, childRefs) \<Rightarrow>
          (case validateUploadManifests (os_codec os) manifests of
             Inl e \<Rightarrow> (Inl e, w, recorded)
           | Inr raw \<Rightarrow>
               if \<not> validateUploadChildRefs childRefs then bad
               else if leaf \<and> childRefs \<noteq> [] then bad
               else (case cr of
                  NotFound \<Rightarrow> (Inl (AggStatus 404 ''NotFound''), w, recorded)
                | GetErr x \<Rightarrow> (Inl (ImportErr x), w, recorded)
                | Found s \<Rightarrow>
                    if \<not> so_import_mode s then (Inl (AggStatus 409 ''Conflict''), w, recorded)
                    else if so_uid s = '''' then (Inl (AggStatus 409 ''Conflict''), w, recorded)
                    else (case writeChildrenSnapshotRefs fresh written childRefs recorded of
                       (Some e, recorded) \<Rightarrow> (Inl e, w, recorded)
                     | (None, recorded) \<Rightarrow>
                         (case so_bound s of
                            NBadType \<Rightarrow> (Inl (AggStatus 500 ''InternalError''), w, recorded)
                          | b \<Rightarrow>
                              let boundContentName = nval '''' b in
                              if boundContentName = '''' then (Inl (AggStatus 409 ReasonImportContentNotBound), w, recorded)
                              else (case get boundContentName of
                                 NotFound \<Rightarrow> (Inl (AggStatus 404 ''NotFound''), w, recorded)
                               | GetErr x \<Rightarrow> (Inl (ImportErr x), w, recorded)
                               | Found content \<Rightarrow>
                                   (case verifyContentSnapshotRef (ct_snapshot_ref content)
                                       (gv_string (os_env os) snapshotGVK) (g_kind snapshotGVK) namespace name (so_uid s) of
                                      Some e \<Rightarrow> (Inl e, w, recorded)
                                    | None \<Rightarrow> (case UploadToContent os content (Some raw) w of (r, w) \<Rightarrow> (r, w, recorded)))))))))"

end
