(* ===== verification/Import_Guarantees.thy ===== *)
theory Import_Guarantees
  imports Import_Checkpoint Manifest_Capture_Runs
begin

text \<open>
  What the import of manifests guarantees: the grouping agrees with that of the capture, an upload is read
  back as it was sent, and the two inputs for which the checkpoint it leaves cannot be downloaded.
\<close>

section \<open>Grouping\<close>

lemma group_loop_split:
  assumes "codec_ok c" "\<forall>x\<in>set objs. canonical x \<and> \<not> oversized c reconstructMaxChunkBytes x" "\<forall>x\<in>set current. canonical x"
  shows "\<exists>chs cur. split_loop c reconstructMaxChunkBytes objs chunks current = Inr (chs, cur) \<and>
    group_loop c objs chunks current = (if cur \<noteq> [] then chs @ [cur] else chs)"
  using assms(2,3)
proof (induction objs arbitrary: chunks current)
  case (Cons obj objs)
  have can: "\<forall>x\<in>set (current @ [obj]). canonical x" "\<forall>x\<in>set [obj]. canonical x" using Cons.prems by auto
  obtain t where t: "cd_encode c (JList (current @ [obj])) = Some t"
    using codec_encode [OF assms(1), of "JList (current @ [obj])"] can(1) by auto
  obtain g where g: "cd_gzip c t = Inr g" using codec_gzip [OF assms(1)] by blast
  have n: "compressed_size c (current @ [obj]) = Inr (cd_length c g)" by (simp add: compressed_size_def t g)
  have single: "\<not> int (cd_length c g) > reconstructMaxChunkBytes" if "current = []"
    using Cons.prems(1) that t g by (simp add: oversized_def)
  show ?case
  proof (cases "int (cd_length c g) > reconstructMaxChunkBytes")
    case True
    then have "current \<noteq> []" using single by blast
    then show ?thesis
      using True n t g Cons.prems Cons.IH [of "[obj]" "chunks @ [current]"] can(2) by simp
  next
    case False
    then show ?thesis using n t g Cons.prems Cons.IH [of "current @ [obj]" chunks] can(1) by simp
  qed
qed simp

text \<open>
  C35: The import packs as the capture does: for objects that can be encoded and that fit a chunk alone, the
  groups of an upload are exactly the chunks a capture with the default limit makes of them.
\<close>

theorem import_groups_as_capture:
  assumes "codec_ok c" "\<forall>x\<in>set objs. canonical x \<and> \<not> oversized c 800000 x"
  shows "split_objects c 800000 objs = Inr (groupObjectsBySize c objs)"
  using group_loop_split [OF assms(1), of objs "[]" "[]"] assms(2)
  by (auto simp: split_objects_def groupObjectsBySize_def reconstructMaxChunkBytes_def)

lemma group_loop_concat: "concat (group_loop c objs groups current) = concat groups @ current @ objs"
  by (induction c objs groups current rule: group_loop.induct) (auto split: option.splits)

lemma groups_concat: "concat (groupObjectsBySize c objs) = objs"
  by (simp add: groupObjectsBySize_def group_loop_concat)

section \<open>Chunks of an import\<close>

lemma write_groups_frame:
  "write_groups c cp uid i groups a = (r, a') \<Longrightarrow> \<forall>k\<ge>i. n \<noteq> ChunkName (cd_digest c) uid k \<Longrightarrow>
   ca_get a' n = ca_get a n \<and> ca_create a' n = ca_create a n"
proof (induction groups arbitrary: i a r a')
  case (Cons objs groups)
  obtain t g where tg: "cd_encode c (JList objs) = Some t \<and> cd_gzip c t = Inr g \<or> a' = a"
    using Cons.prems(1) by (auto split: option.splits sum.splits)
  let ?n = "ChunkName (cd_digest c) uid i"
  let ?a = "if ca_create a ?n = None then put_chunk ?n (new_chunk c cp uid i (length objs) g) a else a"
  have 1: "ca_get ?a n = ca_get a n \<and> ca_create ?a n = ca_create a n" using Cons.prems(2) by (auto simp: put_chunk_def)
  obtain r2 a2 where 2: "write_groups c cp uid (Suc i) groups ?a = (r2, a2)" by fastforce
  have 3: "ca_get a2 n = ca_get ?a n \<and> ca_create a2 n = ca_create ?a n" using Cons.IH [OF 2] Cons.prems(2) by simp
  have "a' = a \<or> a' = ?a \<or> a' = a2"
    using Cons.prems(1) tg 2 by (auto simp: Let_def split: option.splits sum.splits if_splits prod.splits)
  then show ?case using 1 3 by auto
qed simp

lemma write_groups_stored:
  "codec_ok c \<Longrightarrow> \<forall>k\<ge>i. ca_create a (ChunkName (cd_digest c) uid k) = None \<Longrightarrow>
   write_groups c cp uid i groups a = (Inr infos, a') \<Longrightarrow>
   length infos = length groups \<and> (\<forall>k<length groups. stored c a' cp uid (i + k) (groups ! k) (infos ! k))"
proof (induction groups arbitrary: i a infos)
  case (Cons objs groups)
  let ?n = "ChunkName (cd_digest c) uid i"
  have free: "ca_create a ?n = None" using Cons.prems(2) by simp
  obtain t g rest where 1: "cd_encode c (JList objs) = Some t" "cd_gzip c t = Inr g"
    "write_groups c cp uid (Suc i) groups (put_chunk ?n (new_chunk c cp uid i (length objs) g) a) = (Inr rest, a')"
    "infos = chunk_info_of c uid i (length objs) g # rest"
    using Cons.prems(3) free by (auto simp: Let_def split: option.splits sum.splits prod.splits)
  have "\<forall>k\<ge>Suc i. ca_create (put_chunk ?n (new_chunk c cp uid i (length objs) g) a) (ChunkName (cd_digest c) uid k) = None"
    using Cons.prems(2) by (simp add: put_chunk_def)
  note IH = Cons.IH [OF Cons.prems(1) this 1(3)]
  have "ca_get a' ?n = Found (new_chunk c cp uid i (length objs) g)"
    using write_groups_frame [OF 1(3), of ?n] by (simp add: put_chunk_def)
  then have first: "stored c a' cp uid i objs (chunk_info_of c uid i (length objs) g)"
    using 1(1,2) Cons.prems(1) by (simp add: stored_def new_chunk_def)
  show ?case
  proof (intro conjI allI impI)
    show "length infos = length (objs # groups)" using IH 1(4) by simp
    fix k assume "k < length (objs # groups)"
    then show "stored c a' cp uid (i + k) ((objs # groups) ! k) (infos ! k)" using first IH 1(4) by (cases k) auto
  qed
qed simp

text \<open>The groups of an upload: those of its objects, or one empty group.\<close>

definition import_groups :: "('t, 'g, 'd) codec \<Rightarrow> json list \<Rightarrow> json list list" where
  "import_groups c objs = (if groupObjectsBySize c objs = [] then [[]] else groupObjectsBySize c objs)"

lemma group_member: "g \<in> set gs \<Longrightarrow> x \<in> set g \<Longrightarrow> x \<in> set (concat gs)"
  by auto

lemma member_group: "x \<in> set (concat gs) \<Longrightarrow> \<exists>k<length gs. x \<in> set (gs ! k)"
  unfolding set_concat by (metis UN_E in_set_conv_nth)

lemma import_groups_concat [simp]: "concat (import_groups c objs) = objs" "import_groups c objs \<noteq> []"
  using groups_concat [of c objs] by (auto simp: import_groups_def)

text \<open>What a reconstruction that finds nothing of its checkpoint leaves.\<close>

definition absent :: "('t, 'g, 'd) outside \<Rightarrow> string \<Rightarrow> 'd world \<Rightarrow> bool" where
  "absent os n w \<longleftrightarrow> wd_checkpoints w n = None \<and>
     (\<forall>k. wd_chunks w (ChunkName (cd_digest (os_codec os)) (os_uid os n) k) = None)"

lemma getter_of_view:
  assumes "healthy os" "ca_get a n = Found ck"
  shows "chunk_getter (store_chunks a w) n = Found ck"
  using assms by (simp add: chunk_getter_def store_chunks_def)

lemma reconstruct_leaves:
  assumes "conditions_contract e" "codec_ok c" "outside_ok e c os" "healthy os" "absent os n w"
    "cd_parse c raw = Some (JList objs)" "ReconstructManifestCheckpoint os n owners raw w = (Inr (), w')"
  shows "\<exists>cp infos a. wd_checkpoints w' n = Some cp \<and> IsReady e (mc_conditions cp) \<and> mc_owner_refs cp = owners \<and>
     mc_chunks cp = infos \<and> length infos = length (import_groups c objs) \<and>
     (\<forall>k<length infos. stored c a n (os_uid os n) k (import_groups c objs ! k) (infos ! k)) \<and>
     (\<forall>m ck. ca_get a m = Found ck \<longrightarrow> chunk_getter w' m = Found ck)"
proof -
  note f = outside_fields [OF assms(3)]
  let ?cp = "(imported_checkpoint n owners)\<lparr>mc_uid := os_uid os n\<rparr>"
  let ?w1 = "w\<lparr>wd_calls := Suc (wd_calls w)\<rparr>"
  let ?w2 = "?w1\<lparr>wd_calls := Suc (wd_calls ?w1), wd_checkpoints := (wd_checkpoints w)(n \<mapsto> ?cp)\<rparr>"
  let ?w3 = "?w2\<lparr>wd_calls := Suc (wd_calls ?w2)\<rparr>"
  have nm: "mc_name (imported_checkpoint n owners) = n" by (simp add: imported_checkpoint_def)
  have g1: "get_checkpoint os n w = (Inl ErrNotFound, ?w1)"
    using assms(4,5) by (simp add: get_checkpoint_def served_def healthy_def absent_def)
  have cr: "create_checkpoint os (imported_checkpoint n owners) ?w1 = (Inr ?cp, ?w2)"
    using assms(4,5) by (simp add: create_checkpoint_def served_def healthy_def absent_def nm Let_def)
  have g2: "get_checkpoint os n ?w2 = (Inr ?cp, ?w3)"
    using assms(4) by (simp add: get_checkpoint_def served_def healthy_def)
  have raw: "raw_array c raw = Some objs" by (simp add: raw_array_def assms(6))
  obtain x a where x: "write_groups c n (os_uid os n) 0 (import_groups c objs) (chunk_view os ?w3) = (x, a)" by fastforce
  have wr: "writeReconstructedChunks c n (mc_uid ?cp) objs (chunk_view os ?w3) = (x, a)"
    using x by (simp add: writeReconstructedChunks_def import_groups_def Let_def)
  have r: "(case x of Inl e \<Rightarrow> (Inl e, store_chunks a ?w3)
      | Inr infos \<Rightarrow> (case write_checkpoint os (fill_checkpoint os infos ?cp) (store_chunks a ?w3) of
          (Some x, w) \<Rightarrow> (Inl (ImportApi ''update reconstructed ManifestCheckpoint'' x), w)
        | (None, w) \<Rightarrow> (Inr (), w))) = (Inr (), w')"
    using assms(7) unfolding ReconstructManifestCheckpoint_def g1 prod.case sum.case build_reconstructed_def f(2) raw
      option.case cr g2 wr by (simp split: sum.splits)
  then obtain infos where infos: "x = Inr infos" by (cases x) auto
  have "\<forall>k\<ge>0. ca_create (chunk_view os ?w3) (ChunkName (cd_digest c) (os_uid os n) k) = None"
    using assms(4,5) by (simp add: chunk_view_def healthy_def absent_def f(2))
  from write_groups_stored [OF assms(2) this x [unfolded infos]]
  have st: "length infos = length (import_groups c objs)"
    "\<forall>k<length infos. stored c a n (os_uid os n) k (import_groups c objs ! k) (infos ! k)" by auto
  have cp: "mc_name (fill_checkpoint os infos ?cp) = n" "mc_chunks (fill_checkpoint os infos ?cp) = infos"
    "mc_owner_refs (fill_checkpoint os infos ?cp) = owners"
    by (simp_all add: fill_checkpoint_def imported_checkpoint_def)
  have ready: "IsReady e (mc_conditions (fill_checkpoint os infos ?cp))"
    using contract_put [OF assms(1), of "[]" "ready_condition ConditionTrue MCRCompleted (''Reconstructed from import with '' @ show_nat (length infos) @ '' chunk(s), '' @
         show_nat (sum_list (map ci_count infos)) @ '' object(s)'') (os_now os)"]
      no_condition [OF assms(3)] f by (simp add: fill_checkpoint_def imported_checkpoint_def IsReady_def HasCondition_def)
  have "wd_checkpoints w' n = Some (?cp\<lparr>mc_conditions := mc_conditions (fill_checkpoint os infos ?cp), mc_chunks := infos,
      mc_total_objects := mc_total_objects (fill_checkpoint os infos ?cp), mc_total_size := mc_total_size (fill_checkpoint os infos ?cp)\<rparr>)"
    "wd_chunks w' = wd_chunks (store_chunks a ?w3)"
    using r assms(4) infos cp(1,2) by (auto simp: write_checkpoint_def served_def healthy_def store_chunks_def)
  moreover have "ca_get a m = Found ck \<Longrightarrow> chunk_getter (store_chunks a ?w3) m = Found ck" for m ck
    by (rule getter_of_view [OF assms(4)])
  ultimately show ?thesis using st ready
    by (auto simp: chunk_getter_def imported_checkpoint_def)
qed

lemma stored_getter:
  "stored c a cp uid k objs info \<Longrightarrow> \<forall>m ck. ca_get a m = Found ck \<longrightarrow> get m = Found ck \<Longrightarrow>
   stored c (a\<lparr>ca_get := get\<rparr>) cp uid k objs info"
  by (auto simp: stored_def)

section \<open>Reading an import back\<close>

lemma decode_objects_maps:
  "\<forall>x\<in>set xs. x = JNull \<or> (\<exists>m. x = JMap m) \<Longrightarrow> decode_objects c xs = Some (map (renumber (cd_renum c)) xs)"
  by (induction xs) auto

lemma collect_reconstructed_stored:
  assumes "codec_ok c"
  shows "length infos = length groups \<Longrightarrow> \<forall>k<length infos. stored c a cp uid (i + k) (groups ! k) (infos ! k) \<Longrightarrow>
    \<forall>x\<in>set (concat groups). canonical x \<and> (x = JNull \<or> (\<exists>m. x = JMap m)) \<Longrightarrow>
    collect_reconstructed c (ca_get a) infos = Inr (map (renumber (cd_renum c)) (concat groups))"
proof (induction infos arbitrary: i groups)
  case (Cons info infos)
  obtain objs rest where gr: "groups = objs # rest" using Cons.prems(1) by (cases groups) auto
  have "stored c a cp uid i objs info" using Cons.prems(2) gr by (auto dest: spec [of _ 0])
  then obtain t g ck where s: "cd_encode c (JList objs) = Some t" "cd_gzip c t = Inr g"
    "info = chunk_info_of c uid i (length objs) g" "ca_get a (ci_name info) = Found ck" "cd_unbase64 c (ck_data ck) = Some g"
    by (auto simp: stored_def chunk_info_of_def)
  have objs: "\<forall>x\<in>set objs. canonical x \<and> (x = JNull \<or> (\<exists>m. x = JMap m))" using Cons.prems(3) gr by auto
  then have "raw_array c t = Some objs"
    using codec_encode [OF assms, of "JList objs"] s(1) by (auto simp: raw_array_def)
  moreover have "cd_gunzip c g = Inr t" using codec_gzip [OF assms, of t] s(2) by auto
  ultimately have "decodeReconstructedChunk c (ck_data ck) (ci_checksum info) (ci_name info) = Inr (map (renumber (cd_renum c)) objs)"
    using s(3,5) decode_objects_maps [of objs c] objs assms by (simp add: decodeReconstructedChunk_def chunk_info_of_def)
  moreover have "collect_reconstructed c (ca_get a) infos = Inr (map (renumber (cd_renum c)) (concat rest))"
    by (rule Cons.IH [of rest "Suc i"]) (use Cons.prems gr in \<open>auto dest: spec [of _ "Suc _"]\<close>)
  ultimately show ?case using s(4) gr by simp
qed simp



section \<open>Uploads that cannot be downloaded\<close>

lemma decode_items_null:
  "\<forall>x\<in>set items. x = JNull \<or> (\<exists>m. x = JMap m) \<Longrightarrow>
   decode_items c n items = (if JNull \<in> set items then Inl (NilItemPanic n) else Inr (map (convertMapSliceToMap c) items))"
  by (induction items) auto

definition panics :: "archive_error + json list \<Rightarrow> bool" where
  "panics r \<longleftrightarrow> (\<exists>n. r = Inl (NilItemPanic n))"

lemma read_all_panics:
  "\<forall>info\<in>set infos. (\<exists>objs. read_chunk c get cp info = Inr objs) \<or> panics (read_chunk c get cp info) \<Longrightarrow>
   \<exists>info\<in>set infos. panics (read_chunk c get cp info) \<Longrightarrow> panics (read_all c get cp infos)"
proof (induction infos)
  case (Cons info infos)
  then show ?case by (cases "read_chunk c get cp info") (auto simp: panics_def split: sum.splits)
qed simp

lemma renumber_null: "renumber f x = JNull \<longleftrightarrow> x = JNull"
  by (cases x) auto

lemma read_stored_null:
  assumes "codec_ok c" "stored c a cp uid i objs info" "\<forall>x\<in>set objs. canonical x \<and> (x = JNull \<or> (\<exists>m. x = JMap m))"
  shows "if JNull \<in> set objs then panics (read_chunk c (ca_get a) cp info)
    else \<exists>out. read_chunk c (ca_get a) cp info = Inr out"
proof -
  obtain t g ck where s: "cd_encode c (JList objs) = Some t" "cd_gzip c t = Inr g" "info = chunk_info_of c uid i (length objs) g"
    "ca_get a (ChunkName (cd_digest c) uid i) = Found ck" "ck_checkpoint ck = cp" "ck_index ck = int i"
    "cd_unbase64 c (ck_data ck) = Some g"
    using assms(2) by (auto simp: stored_def)
  let ?items = "map (renumber (cd_renum c)) objs"
  have "cd_parse c t = Some (JList objs)" using codec_encode [OF assms(1), of "JList objs"] assms(3) s(1) by simp
  then have u: "unmarshal_array c t = Some ?items" by (simp add: unmarshal_array_def)
  have "\<forall>x\<in>set ?items. x = JNull \<or> (\<exists>m. x = JMap m)" using assms(3) by auto
  note d = decode_items_null [OF this, of c "ci_name info"]
  have "JNull \<in> set ?items \<longleftrightarrow> JNull \<in> set objs" by (auto simp: image_iff renumber_null eq_commute [of JNull])
  moreover have "cd_gunzip c g = Inr t" using codec_gzip [OF assms(1), of t] s(2) by auto
  ultimately show ?thesis
    using assms(1) s d u by (simp add: read_chunk_def decodeChunkDataWithChecksum_def chunk_info_of_def panics_def)
qed

lemma stored_null_panics:
  assumes "codec_ok c" "permutes schedule" "length infos = length gs" "\<forall>k<length infos. stored c a n uid k (gs ! k) (infos ! k)"
    and "\<forall>x\<in>set (concat gs). canonical x \<and> (x = JNull \<or> (\<exists>m. x = JMap m))" "JNull \<in> set (concat gs)"
  shows "\<exists>m. collectObjectsFromCheckpoint c schedule (ca_get a) n infos = Inl (NilItemPanic m)"
proof -
  have item: "\<forall>x\<in>set (gs ! k). canonical x \<and> (x = JNull \<or> (\<exists>m. x = JMap m))" if "k < length infos" for k
    using group_member [OF nth_mem [of k gs]] assms(3,5) that by metis
  have rd: "if JNull \<in> set (gs ! k) then panics (read_chunk c (ca_get a) n (infos ! k))
      else \<exists>out. read_chunk c (ca_get a) n (infos ! k) = Inr out" if "k < length infos" for k
    using read_stored_null [OF assms(1) assms(4) [rule_format, OF that] item [OF that]] .
  obtain k where k: "k < length infos" "JNull \<in> set (gs ! k)" using member_group [OF assms(6)] assms(3) by auto
  have sched: "set (schedule infos) = set infos" using assms(2) unfolding permutes_def by (metis set_mset_mset)
  have "panics (read_all c (ca_get a) n (schedule infos))"
  proof (rule read_all_panics)
    show "\<forall>info\<in>set (schedule infos). (\<exists>objs. read_chunk c (ca_get a) n info = Inr objs) \<or> panics (read_chunk c (ca_get a) n info)"
    proof
      fix info assume "info \<in> set (schedule infos)"
      then obtain j where "j < length infos" "info = infos ! j" unfolding sched by (auto simp: in_set_conv_nth)
      then show "(\<exists>objs. read_chunk c (ca_get a) n info = Inr objs) \<or> panics (read_chunk c (ca_get a) n info)"
        using rd [of j] by (cases "JNull \<in> set (gs ! j)") auto
    qed
    show "\<exists>info\<in>set (schedule infos). panics (read_chunk c (ca_get a) n info)"
      unfolding sched using rd [OF k(1)] k by auto
  qed
  moreover have "ci_index (infos ! k) = int (0 + k)" if "k < length infos" for k
    using assms(4) that by (auto simp: stored_def chunk_info_of_def)
  then have "sort_slice info_less infos = infos" "first_gap 0 infos = None" using indexed_sorted [of infos 0] by auto
  ultimately show ?thesis using k(1) by (auto simp: collectObjectsFromCheckpoint_def panics_def Let_def)
qed

text \<open>The items of an upload that its validation and the reader of an import both accept: objects and nulls.\<close>

definition map_or_null :: "json list \<Rightarrow> bool" where
  "map_or_null objs = (\<forall>x\<in>set objs. canonical x \<and> (x = JNull \<or> (\<exists>m. x = JMap m)))"


text \<open>
  A null item makes a checkpoint that crashes its reader: an upload whose manifests are maps and at least
  one null passes the validation and leaves a Ready checkpoint, and every download of it dereferences the
  nil type of the null item, in whatever order the workers finish.
\<close>

theorem null_manifest_crashes_download:
  assumes "conditions_contract e" "codec_ok c" "outside_ok e c os" "healthy os" "permutes schedule" "absent os n w"
    and "cd_parse c raw = Some (JList objs)" "\<forall>x\<in>set objs. canonical x \<and> (x = JNull \<or> (\<exists>m. x = JMap m))" "JNull \<in> set objs"
    and "UploadToContent os content (Some raw) w = (Inr n, w')"
  shows "\<exists>cp m. wd_checkpoints w' n = Some cp \<and> IsReady e (mc_conditions cp) \<and>
     collectObjectsFromCheckpoint c schedule (chunk_getter w') n (mc_chunks cp) = Inl (NilItemPanic m)"
proof -
  have "\<exists>owners. ReconstructManifestCheckpoint os n owners raw w = (Inr (), w')"
    using assms(7,10) outside_fields(2) [OF assms(3)]
    by (auto simp: UploadToContent_def validateUploadManifests_def raw_array_def Let_def split: if_splits prod.splits sum.splits)
  then obtain cp infos a where l: "wd_checkpoints w' n = Some cp" "IsReady e (mc_conditions cp)"
    "mc_chunks cp = infos" "length infos = length (import_groups c objs)"
    "\<forall>k<length infos. stored c a n (os_uid os n) k (import_groups c objs ! k) (infos ! k)"
    "\<forall>m ck. ca_get a m = Found ck \<longrightarrow> chunk_getter w' m = Found ck"
    using reconstruct_leaves [OF assms(1-4,6,7)] by blast
  let ?a = "a\<lparr>ca_get := chunk_getter w'\<rparr>"
  have "\<forall>k<length infos. stored c ?a n (os_uid os n) k (import_groups c objs ! k) (infos ! k)"
    using stored_getter [OF l(5) [rule_format] l(6)] by simp
  from stored_null_panics [OF assms(2,5) l(4) this] assms(8,9)
  have "\<exists>m. collectObjectsFromCheckpoint c schedule (ca_get ?a) n infos = Inl (NilItemPanic m)"
    by (simp only: import_groups_concat)
  then show ?thesis using l by auto
qed

text \<open>A chunk that exists survives a run of the writer, and the listed chunk has the checksum of the new group.\<close>

lemma write_groups_keeps:
  "write_groups c cp uid i groups a = (r, a') \<Longrightarrow> ca_create a m \<noteq> None \<Longrightarrow>
   ca_get a' m = ca_get a m \<and> ca_create a' m = ca_create a m"
proof (induction groups arbitrary: i a r a')
  case (Cons objs groups)
  let ?n = "ChunkName (cd_digest c) uid i"
  obtain g where g: "a' = a \<or> (\<exists>t. cd_encode c (JList objs) = Some t \<and> cd_gzip c t = Inr g)"
    using Cons.prems(1) by (auto split: option.splits sum.splits)
  let ?a = "if ca_create a ?n = None then put_chunk ?n (new_chunk c cp uid i (length objs) g) a else a"
  have 1: "ca_get ?a m = ca_get a m \<and> ca_create ?a m = ca_create a m" using Cons.prems(2) by (auto simp: put_chunk_def)
  obtain r2 a2 where 2: "write_groups c cp uid (Suc i) groups ?a = (r2, a2)" by fastforce
  have 3: "ca_get a2 m = ca_get ?a m \<and> ca_create a2 m = ca_create ?a m" using Cons.IH [OF 2] 1 Cons.prems(2) by simp
  have "a' = a \<or> a' = ?a \<or> a' = a2"
    using Cons.prems(1) g 2 by (auto simp: Let_def split: option.splits sum.splits if_splits prod.splits)
  then show ?case using 1 3 by auto
qed simp

lemma write_groups_infos:
  "write_groups c cp uid i groups a = (Inr infos, a') \<Longrightarrow> length infos = length groups \<and>
   (\<forall>k<length infos. \<exists>t g. cd_encode c (JList (groups ! k)) = Some t \<and> cd_gzip c t = Inr g \<and>
     infos ! k = chunk_info_of c uid (i + k) (length (groups ! k)) g)"
proof (induction groups arbitrary: i a infos a')
  case (Cons objs groups)
  obtain t g rest a1 where 1: "cd_encode c (JList objs) = Some t" "cd_gzip c t = Inr g"
    "write_groups c cp uid (Suc i) groups a1 = (Inr rest, a')" "infos = chunk_info_of c uid i (length objs) g # rest"
    using Cons.prems by (auto simp: Let_def split: option.splits sum.splits prod.splits if_splits)
  note IH = Cons.IH [OF 1(3)]
  show ?case
  proof (intro conjI allI impI)
    show "length infos = length (objs # groups)" using IH 1(4) by simp
    fix k assume "k < length infos"
    then show "\<exists>t g. cd_encode c (JList ((objs # groups) ! k)) = Some t \<and> cd_gzip c t = Inr g \<and>
        infos ! k = chunk_info_of c uid (i + k) (length ((objs # groups) ! k)) g"
      using IH 1 by (cases k) auto
  qed
qed simp

lemma read_all_fails:
  "info \<in> set infos \<Longrightarrow> read_chunk c get cp info = Inl x \<Longrightarrow> \<exists>x. read_all c get cp infos = Inl x"
proof (induction infos)
  case (Cons i infos)
  then show ?case by (cases "read_chunk c get cp i") (auto split: sum.splits)
qed simp

text \<open>
  A retried upload can be lost for good: when an earlier upload of the node got as far as its first chunk
  but not to the status of the checkpoint, an upload of manifests whose first chunk differs succeeds, marks
  the checkpoint Ready over the chunk of the earlier upload, and lists a checksum that chunk does not have;
  every download fails, and every later upload reports success and changes nothing.
\<close>

theorem retried_upload_unreadable:
  assumes "conditions_contract e" "codec_ok c" "outside_ok e c os" "healthy os" "permutes schedule"
    and "wd_checkpoints w n = Some cp0" "mc_name cp0 = n" "\<not> IsReady e (mc_conditions cp0)"
    and "find_condition e (mc_conditions cp0) ConditionReady = None"
    and "wd_chunks w (ChunkName (cd_digest c) (mc_uid cp0) 0) = Some ck" "ck_data ck = cd_base64 c g1"
    and "cd_parse c raw = Some (JList objs)"
    and "\<forall>t g. cd_encode c (JList (import_groups c objs ! 0)) = Some t \<longrightarrow> cd_gzip c t = Inr g \<longrightarrow>
        cd_sha c g \<noteq> cd_sha c g1 \<and> cd_sha c g \<noteq> []"
    and "ReconstructManifestCheckpoint os n owners raw w = (Inr (), w')"
  shows "\<exists>cp. wd_checkpoints w' n = Some cp \<and> IsReady e (mc_conditions cp) \<and>
     (\<exists>x. collectObjectsFromCheckpoint c schedule (chunk_getter w') n (mc_chunks cp) = Inl x) \<and>
     (\<forall>os' raw'. outside_ok e c os' \<longrightarrow> healthy os' \<longrightarrow> (\<exists>w''.
        ReconstructManifestCheckpoint os' n owners raw' w' = (Inr (), w'') \<and>
        wd_checkpoints w'' = wd_checkpoints w' \<and> wd_chunks w'' = wd_chunks w'))"
proof -
  note f = outside_fields [OF assms(3)]
  let ?w1 = "w\<lparr>wd_calls := Suc (wd_calls w)\<rparr>"
  let ?w2 = "?w1\<lparr>wd_calls := Suc (wd_calls ?w1)\<rparr>"
  let ?w3 = "?w2\<lparr>wd_calls := Suc (wd_calls ?w2)\<rparr>"
  let ?n0 = "ChunkName (cd_digest c) (mc_uid cp0) 0"
  have g1: "get_checkpoint os n w = (Inr cp0, ?w1)" "get_checkpoint os n ?w2 = (Inr cp0, ?w3)"
    using assms(4,6) by (simp_all add: get_checkpoint_def served_def healthy_def)
  have cr: "create_checkpoint os (imported_checkpoint n owners) ?w1 = (Inl AlreadyExists, ?w2)"
    using assms(4,6) by (simp add: create_checkpoint_def served_def healthy_def imported_checkpoint_def)
  have raw: "raw_array c raw = Some objs" by (simp add: raw_array_def assms(12))
  obtain x a where x: "write_groups c n (mc_uid cp0) 0 (import_groups c objs) (chunk_view os ?w3) = (x, a)" by fastforce
  have wr: "writeReconstructedChunks c n (mc_uid cp0) objs (chunk_view os ?w3) = (x, a)"
    using x by (simp add: writeReconstructedChunks_def import_groups_def Let_def)
  have r: "(case x of Inl e \<Rightarrow> (Inl e, store_chunks a ?w3)
      | Inr infos \<Rightarrow> (case write_checkpoint os (fill_checkpoint os infos cp0) (store_chunks a ?w3) of
          (Some x, w) \<Rightarrow> (Inl (ImportApi ''update reconstructed ManifestCheckpoint'' x), w)
        | (None, w) \<Rightarrow> (Inr (), w))) = (Inr (), w')"
    using assms(8,14) unfolding ReconstructManifestCheckpoint_def g1 prod.case sum.case build_reconstructed_def f(1,2) raw
      option.case cr wr by (simp split: sum.splits)
  then obtain infos where infos: "x = Inr infos" by (cases x) auto
  note wi = write_groups_infos [OF x [unfolded infos]]
  have pos: "0 < length infos" using wi import_groups_concat(2) [of c objs] by simp
  then obtain t g where g: "cd_encode c (JList (import_groups c objs ! 0)) = Some t" "cd_gzip c t = Inr g"
    "infos ! 0 = chunk_info_of c (mc_uid cp0) 0 (length (import_groups c objs ! 0)) g"
    using wi [THEN conjunct2, rule_format, OF pos] by auto
  have nm: "mc_name (fill_checkpoint os infos cp0) = n" "mc_chunks (fill_checkpoint os infos cp0) = infos"
    using assms(7) by (simp_all add: fill_checkpoint_def)
  have cp: "wd_checkpoints w' n = Some (cp0\<lparr>mc_conditions := mc_conditions (fill_checkpoint os infos cp0), mc_chunks := infos,
      mc_total_objects := mc_total_objects (fill_checkpoint os infos cp0), mc_total_size := mc_total_size (fill_checkpoint os infos cp0)\<rparr>)"
    "wd_chunks w' = wd_chunks (store_chunks a ?w3)"
    using r assms(4,6) infos nm by (auto simp: write_checkpoint_def served_def healthy_def store_chunks_def)
  have ready: "IsReady e (mc_conditions (fill_checkpoint os infos cp0))"
    using contract_put [OF assms(1), of "mc_conditions cp0" "ready_condition ConditionTrue MCRCompleted (''Reconstructed from import with '' @ show_nat (length infos) @ '' chunk(s), '' @
         show_nat (sum_list (map ci_count infos)) @ '' object(s)'') (os_now os)"]
      assms(9) f by (simp add: fill_checkpoint_def IsReady_def HasCondition_def)
  have "ca_get a ?n0 = Found ck"
    using write_groups_keeps [OF x, of ?n0] assms(4,10) by (simp add: chunk_view_def healthy_def)
  then have ck: "chunk_getter w' ?n0 = Found ck" by (simp add: chunk_getter_def cp(2) store_chunks_def)
  have "\<exists>x. read_chunk c (chunk_getter w') n (infos ! 0) = Inl x"
    using ck assms(2,11) assms(13) [rule_format, OF g(1,2)] g(3)
    by (auto simp: read_chunk_def chunk_info_of_def decodeChunkDataWithChecksum_def)
  moreover have "infos ! 0 \<in> set (schedule infos)"
    using assms(5) pos unfolding permutes_def by (metis nth_mem set_mset_mset)
  ultimately obtain y where y: "read_all c (chunk_getter w') n (schedule infos) = Inl y" using read_all_fails by blast
  have "ci_index (infos ! k) = int (0 + k)" if "k < length infos" for k
    using wi that by (auto simp: chunk_info_of_def)
  then have "sort_slice info_less infos = infos" "first_gap 0 infos = None" using indexed_sorted [of infos 0] by auto
  then have "\<exists>x. collectObjectsFromCheckpoint c schedule (chunk_getter w') n infos = Inl x"
    using y pos by (simp add: collectObjectsFromCheckpoint_def)
  moreover have "\<exists>w''. ReconstructManifestCheckpoint os' n owners raw' w' = (Inr (), w'') \<and>
      wd_checkpoints w'' = wd_checkpoints w' \<and> wd_chunks w'' = wd_chunks w'"
    if o: "outside_ok e c os'" "healthy os'" for os' raw'
    using o(2) cp(1) ready
    by (simp add: ReconstructManifestCheckpoint_def get_checkpoint_def served_def healthy_def outside_fields(1) [OF o(1)])
  ultimately show ?thesis using cp(1) ready by auto
qed

section \<open>Witnesses\<close>

lemma write_groups_total:
  "codec_ok c \<Longrightarrow> \<forall>x\<in>set (concat groups). canonical x \<Longrightarrow>
   \<forall>k. ca_create a (ChunkName (cd_digest c) uid k) \<in> {None, Some AlreadyExists} \<Longrightarrow>
   \<exists>infos a'. write_groups c cp uid i groups a = (Inr infos, a')"
proof (induction groups arbitrary: i a)
  case (Cons objs groups)
  obtain t where t: "cd_encode c (JList objs) = Some t" using codec_encode [OF Cons.prems(1), of "JList objs"] Cons.prems(2) by auto
  obtain g where g: "cd_gzip c t = Inr g" using codec_gzip [OF Cons.prems(1)] by blast
  let ?n = "ChunkName (cd_digest c) uid i"
  let ?a = "if ca_create a ?n = None then put_chunk ?n (new_chunk c cp uid i (length objs) g) a else a"
  have "\<forall>k. ca_create ?a (ChunkName (cd_digest c) uid k) \<in> {None, Some AlreadyExists}"
    using Cons.prems(3) by (simp add: put_chunk_def)
  then obtain infos a' where "write_groups c cp uid (Suc i) groups ?a = (Inr infos, a')"
    using Cons.IH [OF Cons.prems(1), of ?a "Suc i"] Cons.prems(2) by auto
  moreover have "ca_create a ?n = None \<or> ca_create a ?n = Some AlreadyExists" using Cons.prems(3) by auto
  ultimately show ?case using t g by (auto simp: Let_def)
qed simp

lemma reconstruct_total:
  assumes "codec_ok c" "outside_ok e c os" "healthy os" "cd_parse c raw = Some (JList objs)" "\<forall>x\<in>set objs. canonical x"
    "\<forall>cp. wd_checkpoints w n = Some cp \<longrightarrow> mc_name cp = n"
  shows "\<exists>w'. ReconstructManifestCheckpoint os n owners raw w = (Inr (), w')"
proof -
  note f = outside_fields [OF assms(2)]
  have raw: "raw_array c raw = Some objs" by (simp add: raw_array_def assms(4))
  have "\<exists>w'. build_reconstructed os n owners raw v = (Inr (), w')" if v: "\<forall>cp. wd_checkpoints v n = Some cp \<longrightarrow> mc_name cp = n" for v
  proof -
    obtain y v1 where y: "create_checkpoint os (imported_checkpoint n owners) v = (y, v1)" by fastforce
    have nm: "mc_name (imported_checkpoint n owners) = n" by (simp add: imported_checkpoint_def)
    have 1: "\<not> (case y of Inl x \<Rightarrow> x \<noteq> AlreadyExists | Inr _ \<Rightarrow> False)" "\<exists>cp. wd_checkpoints v1 n = Some cp \<and> mc_name cp = n"
      using y assms(3) v by (auto simp: create_checkpoint_def served_def healthy_def nm Let_def split: if_splits)
    then obtain cp where cp: "wd_checkpoints v1 n = Some cp" "mc_name cp = n" by blast
    let ?v2 = "v1\<lparr>wd_calls := Suc (wd_calls v1)\<rparr>"
    have g: "get_checkpoint os n v1 = (Inr cp, ?v2)" using cp assms(3) by (simp add: get_checkpoint_def served_def healthy_def)
    have "\<forall>k. ca_create (chunk_view os ?v2) (ChunkName (cd_digest c) (mc_uid cp) k) \<in> {None, Some AlreadyExists}"
      using assms(3) by (simp add: chunk_view_def healthy_def)
    moreover have "\<forall>x\<in>set (concat (import_groups c objs)). canonical x" using assms(5) by (simp only: import_groups_concat)
    ultimately obtain infos a where
      "write_groups c n (mc_uid cp) 0 (import_groups c objs) (chunk_view os ?v2) = (Inr infos, a)"
      using write_groups_total [OF assms(1)] by blast
    then have wr: "writeReconstructedChunks c n (mc_uid cp) objs (chunk_view os ?v2) = (Inr infos, a)"
      by (simp add: writeReconstructedChunks_def import_groups_def Let_def)
    show ?thesis
      using 1(1) cp assms(3) unfolding build_reconstructed_def f(2) raw option.case y prod.case g sum.case wr
      by (simp add: write_checkpoint_def served_def healthy_def store_chunks_def fill_checkpoint_def)
  qed
  then show ?thesis using assms(3,6)
    by (auto simp: ReconstructManifestCheckpoint_def get_checkpoint_def served_def healthy_def split: option.splits)
qed

lemma demo_canonical: "\<forall>x\<in>set [demo_object a, demo_object b]. canonical x" "canonical JNull"
  by simp_all

lemma demo_groups: "groupObjectsBySize demo_codec [demo_object n] = [[demo_object n]]"
  by (simp add: groupObjectsBySize_def reconstructMaxChunkBytes_def)

lemma demo_sha: "cd_sha demo_codec (JList [demo_object n]) = n"
  by (simp add: demo_object_def jstring_def)

lemma demo_import_fresh: "absent os n (demo_world m)"
  by (simp add: absent_def demo_world_def empty_world_def)

lemma permutes_rev: "permutes rev"
  by (simp add: permutes_def)

lemma import_groups_as_capture_witness:
  "split_objects demo_codec 800000 [demo_object ''a'', demo_object ''b''] =
   Inr (groupObjectsBySize demo_codec [demo_object ''a'', demo_object ''b''])"
  by (rule import_groups_as_capture [OF demo_codec_ok]) (simp add: oversized_def)


definition demo_target :: snapshot_content where
  "demo_target = sample_content\<lparr>ct_snapshot_ref := zero_subject_ref\<lparr>sr_uid := ''s1''\<rparr>\<rparr>"

lemma null_manifest_crashes_download_witness:
  "\<exists>n w' cp m. UploadToContent (demo_outside no_faults) demo_target (Some (JList [JNull])) (demo_world ''x'') = (Inr n, w') \<and>
     wd_checkpoints w' n = Some cp \<and> IsReady sample_env (mc_conditions cp) \<and>
     collectObjectsFromCheckpoint demo_codec rev (chunk_getter w') n (mc_chunks cp) = Inl (NilItemPanic m)"
proof -
  let ?n = "ReconstructedManifestCheckpointName (cd_digest demo_codec) ''s1'' ''''"
  have raw: "cd_parse demo_codec (JList [JNull]) = Some (JList [JNull])" by simp
  have "\<exists>w'. ReconstructManifestCheckpoint (demo_outside no_faults) ?n [SnapshotContentOwnerReference demo_target] (JList [JNull]) (demo_world ''x'') =
      (Inr (), w')"
    by (rule reconstruct_total [OF demo_codec_ok demo_outside_ok demo_healthy raw])
      (simp_all add: demo_world_def empty_world_def)
  then obtain w' where "ReconstructManifestCheckpoint (demo_outside no_faults) ?n [SnapshotContentOwnerReference demo_target] (JList [JNull]) (demo_world ''x'') =
      (Inr (), w')" by blast
  then have u: "UploadToContent (demo_outside no_faults) demo_target (Some (JList [JNull])) (demo_world ''x'') = (Inr ?n, w')"
    using outside_fields(2) [OF demo_outside_ok, of no_faults]
    by (simp add: UploadToContent_def validateUploadManifests_def raw_array_def demo_target_def Let_def)
  show ?thesis
    using null_manifest_crashes_download [OF sample_env_contract demo_codec_ok demo_outside_ok demo_healthy permutes_rev demo_import_fresh
        raw _ _ u] u demo_canonical(2) by auto
qed

text \<open>An upload of \<open>b\<close> that stopped after its first chunk.\<close>

definition demo_partial :: "json world" where
  "demo_partial = (demo_world ''x'')\<lparr>wd_checkpoints := [''imp'' \<mapsto> (imported_checkpoint ''imp'' [demo_owner])\<lparr>mc_uid := ''uid''\<rparr>],
     wd_chunks := [demo_name 0 \<mapsto> new_chunk demo_codec ''imp'' ''uid'' 0 1 (JList [demo_object ''b''])]\<rparr>"

lemma retried_upload_unreadable_witness:
  "\<exists>w' cp x. ReconstructManifestCheckpoint (demo_outside no_faults) ''imp'' [demo_owner] (JList [demo_object ''a'']) demo_partial = (Inr (), w') \<and>
     wd_checkpoints w' ''imp'' = Some cp \<and> IsReady sample_env (mc_conditions cp) \<and>
     collectObjectsFromCheckpoint demo_codec rev (chunk_getter w') ''imp'' (mc_chunks cp) = Inl x"
proof -
  let ?cp = "(imported_checkpoint ''imp'' [demo_owner])\<lparr>mc_uid := ''uid''\<rparr>"
  have raw: "cd_parse demo_codec (JList [demo_object ''a'']) = Some (JList [demo_object ''a''])" by simp
  have cp: "wd_checkpoints demo_partial ''imp'' = Some ?cp" "mc_name ?cp = ''imp''" "mc_conditions ?cp = []" "mc_uid ?cp = ''uid''"
    by (simp_all add: demo_partial_def imported_checkpoint_def)
  have "\<exists>w'. ReconstructManifestCheckpoint (demo_outside no_faults) ''imp'' [demo_owner] (JList [demo_object ''a'']) demo_partial = (Inr (), w')"
    by (rule reconstruct_total [OF demo_codec_ok demo_outside_ok demo_healthy raw]) (use cp in simp_all)
  then obtain w' where w: "ReconstructManifestCheckpoint (demo_outside no_faults) ''imp'' [demo_owner] (JList [demo_object ''a'']) demo_partial = (Inr (), w')"
    by blast
  have 1: "\<not> IsReady sample_env (mc_conditions ?cp)" "find_condition sample_env (mc_conditions ?cp) ConditionReady = None"
    by (simp_all add: cp IsReady_def HasCondition_def sample_env_def)
  have 2: "wd_chunks demo_partial (ChunkName (cd_digest demo_codec) (mc_uid ?cp) 0) =
      Some (new_chunk demo_codec ''imp'' ''uid'' 0 1 (JList [demo_object ''b'']))"
    "ck_data (new_chunk demo_codec ''imp'' ''uid'' 0 1 (JList [demo_object ''b''])) = cd_base64 demo_codec (JList [demo_object ''b''])"
    by (simp_all add: demo_partial_def cp(4) new_chunk_def)
  have 3: "\<forall>t g. cd_encode demo_codec (JList (import_groups demo_codec [demo_object ''a''] ! 0)) = Some t \<longrightarrow>
      cd_gzip demo_codec t = Inr g \<longrightarrow> cd_sha demo_codec g \<noteq> cd_sha demo_codec (JList [demo_object ''b'']) \<and> cd_sha demo_codec g \<noteq> []"
    using demo_sha [of "''a''"] demo_sha [of "''b''"] by (auto simp: import_groups_def demo_groups)
  show ?thesis
    using retried_upload_unreadable [OF sample_env_contract demo_codec_ok demo_outside_ok demo_healthy permutes_rev cp(1,2) 1 2 raw 3 w] w
    by blast
qed

end
