(* ===== verification/Restore_Sanitizer.thy ===== *)
theory Restore_Sanitizer
  imports Json_Values
begin

text \<open>
  The sanitizer of the restore compiler (\<open>usecase/restore/sanitizer.go\<close>): a captured manifest becomes an
  object that can be applied in the target namespace, or is dropped.

  The accessors of \<open>unstructured\<close> are paths into the value: \<open>remove_nested\<close> is \<open>RemoveNestedField\<close>, and
  \<open>set_nested\<close> is \<open>SetNestedField\<close> with the error ignored, as the code does (an error leaves the object
  unchanged).
\<close>

section \<open>Nested fields\<close>

fun remove_nested :: "string list \<Rightarrow> json \<Rightarrow> json" where
  "remove_nested [k] (JMap m) = JMap (jdel k m)"
| "remove_nested (k # k' # ks) (JMap m) = (case map_of m k of
     Some (JMap m') \<Rightarrow> JMap (jput k (remove_nested (k' # ks) (JMap m')) m) | _ \<Rightarrow> JMap m)"
| "remove_nested ks v = v"

fun set_nested :: "string list \<Rightarrow> json \<Rightarrow> json \<Rightarrow> json" where
  "set_nested [k] v (JMap m) = JMap (jput k v m)"
| "set_nested (k # k' # ks) v (JMap m) = (case map_of m k of
     None \<Rightarrow> JMap (jput k (set_nested (k' # ks) v (JMap [])) m)
   | Some (JMap m') \<Rightarrow> JMap (jput k (set_nested (k' # ks) v (JMap m')) m)
   | Some _ \<Rightarrow> JMap m)"
| "set_nested ks v x = x"

abbreviation "GetKind obj \<equiv> jstring [''kind''] obj"
abbreviation "GetAPIVersion obj \<equiv> jstring [''apiVersion''] obj"
abbreviation "GetNamespace obj \<equiv> jstring [''metadata'', ''namespace''] obj"
abbreviation "GetName obj \<equiv> jstring [''metadata'', ''name''] obj"
abbreviation "GetUID obj \<equiv> jstring [''metadata'', ''uid''] obj"

definition SetNamespace :: "string \<Rightarrow> json \<Rightarrow> json" where
  "SetNamespace namespace obj =
     (if namespace = '''' then remove_nested [''metadata'', ''namespace''] obj
      else set_nested [''metadata'', ''namespace''] (JStr namespace) obj)"

section \<open>The sanitizer\<close>

definition controlPlaneExactKinds :: "string list" where
  "controlPlaneExactKinds = [''Snapshot'', ''SnapshotContent'', ''ManifestCheckpoint'', ''ManifestCheckpointContentChunk'',
     ''ManifestCaptureRequest'', ''VolumeCaptureRequest'', ''VolumeRestoreRequest'', ''VolumeSnapshot'', ''VolumeSnapshotContent'']"

definition isControlPlaneKind :: "string \<Rightarrow> bool" where
  "isControlPlaneKind kind =
     (if kind \<in> set controlPlaneExactKinds then True
      else has_suffix kind ''Snapshot'' \<or> has_suffix kind ''SnapshotContent'')"

definition runtime_fields :: "string list" where
  "runtime_fields = [''uid'', ''resourceVersion'', ''generation'', ''creationTimestamp'', ''deletionTimestamp'',
     ''deletionGracePeriodSeconds'', ''managedFields'', ''ownerReferences'', ''selfLink'']"

definition stripRuntimeMetadata :: "json \<Rightarrow> json" where
  "stripRuntimeMetadata out = fold (\<lambda>f. remove_nested [''metadata'', f]) runtime_fields out"

definition restoreBreakingAnnotations :: "string list" where
  "restoreBreakingAnnotations = [''kubectl.kubernetes.io/last-applied-configuration'', ''pv.kubernetes.io/bind-completed'',
     ''pv.kubernetes.io/bound-by-controller'', ''volume.kubernetes.io/selected-node'']"

definition stripRestoreBreakingAnnotations :: "json \<Rightarrow> json" where
  "stripRestoreBreakingAnnotations out = (case jpath [''metadata'', ''annotations''] out of
     Some (JMap anns) \<Rightarrow>
       if anns = [] then out
       else let anns = fold jdel restoreBreakingAnnotations anns
         in if anns = [] then remove_nested [''metadata'', ''annotations''] out
            else set_nested [''metadata'', ''annotations''] (JMap anns) out
   | _ \<Rightarrow> out)"

definition stripServiceNodePorts :: "json \<Rightarrow> json" where
  "stripServiceNodePorts out = (case jpath [''spec'', ''ports''] out of
     Some (JList ports) \<Rightarrow> set_nested [''spec'', ''ports'']
       (JList (map (\<lambda>p. case p of JMap m \<Rightarrow> JMap (jdel ''nodePort'' m) | _ \<Rightarrow> p) ports)) out
   | _ \<Rightarrow> out)"

abbreviation "pvcKind \<equiv> ''PersistentVolumeClaim''"

definition stripKindSpecificFields :: "json \<Rightarrow> json" where
  "stripKindSpecificFields out =
     (if GetKind out = pvcKind then
        (if GetAPIVersion out = ''v1''
         then fold (\<lambda>f. remove_nested [''spec'', f]) [''volumeName'', ''dataSource'', ''dataSourceRef''] out
         else out)
      else if GetKind out = ''Service'' then
        (if GetAPIVersion out = ''v1''
         then stripServiceNodePorts (fold (\<lambda>f. remove_nested [''spec'', f])
           [''clusterIP'', ''clusterIPs'', ''ipFamilies'', ''ipFamilyPolicy'', ''healthCheckNodePort'', ''loadBalancerIP''] out)
         else out)
      else out)"

text \<open>A subject is rewritten when it is a ServiceAccount with a namespace.\<close>

definition moved_subject :: "json \<Rightarrow> bool" where
  "moved_subject s = (case s of
     JMap m \<Rightarrow> jstring [''kind''] s = ''ServiceAccount'' \<and> map_of m ''namespace'' \<noteq> None | _ \<Rightarrow> False)"

definition rewrite_subject :: "string \<Rightarrow> json \<Rightarrow> json" where
  "rewrite_subject targetNamespace s =
     (if moved_subject s then (case s of JMap m \<Rightarrow> JMap (jput ''namespace'' (JStr targetNamespace) m) | _ \<Rightarrow> s) else s)"

definition rewriteInSpecNamespaces :: "string \<Rightarrow> json \<Rightarrow> json" where
  "rewriteInSpecNamespaces targetNamespace out =
     (if GetKind out \<noteq> ''RoleBinding'' then out
      else case jpath [''subjects''] out of
        Some (JList subjects) \<Rightarrow>
          if list_ex moved_subject subjects
          then set_nested [''subjects''] (JList (map (rewrite_subject targetNamespace) subjects)) out
          else out
      | _ \<Rightarrow> out)"

definition sanitizeForRestore :: "string \<Rightarrow> json \<Rightarrow> json option" where
  "sanitizeForRestore targetNamespace obj =
     (if isControlPlaneKind (GetKind obj) then None
      else if GetNamespace obj = '''' then None
      else Some (rewriteInSpecNamespaces targetNamespace
        (stripKindSpecificFields
          (SetNamespace targetNamespace
            (remove_nested [''status''] (stripRestoreBreakingAnnotations (stripRuntimeMetadata obj)))))))"

section \<open>Paths\<close>

text \<open>Paths of which neither is a prefix of the other.\<close>

fun apart :: "string list \<Rightarrow> string list \<Rightarrow> bool" where
  "apart (k # ks) (l # ls) = (k \<noteq> l \<or> apart ks ls)"
| "apart _ _ = False"

lemma lookup_put [simp]: "canonical (JMap m) \<Longrightarrow> map_of (jput k v m) = (map_of m)(k \<mapsto> v)"
  by (rule jmaps.put_lookup) simp

text \<open>What lies at a key of a canonical map.\<close>

lemma at_key:
  assumes "canonical (JMap m)"
  obtains "map_of m k = None" | m' where "map_of m k = Some (JMap m')" "canonical (JMap m')"
  | v where "map_of m k = Some v" "\<And>m'. v \<noteq> JMap m'" "\<And>ks. ks \<noteq> [] \<Longrightarrow> jpath ks v = None"
proof (cases "map_of m k")
  case (Some v)
  show ?thesis
  proof (cases "\<exists>m'. v = JMap m'")
    case True
    then show ?thesis using that(2) Some canonical_lookup [OF assms Some] by blast
  next
    case False
    have "jpath ks v = None" if "ks \<noteq> []" for ks using that False by (cases ks; cases v) auto
    then show ?thesis using that(3) [OF Some] False by blast
  qed
qed (rule that(1))

lemma not_map_cases: "\<lbrakk>\<And>m'. v \<noteq> JMap m'\<rbrakk> \<Longrightarrow> (case v of JMap m' \<Rightarrow> f m' | _ \<Rightarrow> a) = a" for v :: json
  by (cases v) auto

lemma canonical_remove: "canonical x \<Longrightarrow> canonical (remove_nested q x)"
proof (induction q x rule: remove_nested.induct)
  case (2 k k' ks m)
  show ?case
    using 2(2) by (rule at_key [of m k]) (use 2 in \<open>simp_all del: canonical.simps add: canonical_put not_map_cases\<close>)
qed (simp_all del: canonical.simps add: canonical_del)

lemma canonical_set: "canonical x \<Longrightarrow> canonical v \<Longrightarrow> canonical (set_nested q v x)"
proof (induction q v x rule: set_nested.induct)
  case (2 k k' ks v m)
  have e: "canonical (JMap [])" by simp
  show ?case
    using 2(3) by (rule at_key [of m k]) (use 2 e in \<open>simp_all del: canonical.simps add: canonical_put not_map_cases\<close>)
qed (simp_all del: canonical.simps add: canonical_put)

lemma jpath_remove_apart: "canonical x \<Longrightarrow> apart p q \<Longrightarrow> jpath p (remove_nested q x) = jpath p x"
proof (induction q x arbitrary: p rule: remove_nested.induct)
  case (1 k m)
  then show ?case by (cases p) (auto simp: jmaps.del_lookup)
next
  case (2 k k' ks m)
  obtain l ls where p: "p = l # ls" using 2(3) by (cases p) auto
  show ?case
    using 2(2) by (rule at_key [of m k]) (use 2 p in \<open>simp_all del: canonical.simps add: not_map_cases\<close>)
qed simp_all

lemma jpath_remove_under: "canonical x \<Longrightarrow> q \<noteq> [] \<Longrightarrow> jpath (q @ r) (remove_nested q x) = None"
proof (induction q x rule: remove_nested.induct)
  case (2 k k' ks m)
  show ?case
    using 2(2) by (rule at_key [of m k]) (use 2 in \<open>simp_all del: canonical.simps add: not_map_cases\<close>)
qed (auto simp: jmaps.del_lookup neq_Nil_conv)

lemma jpath_set_apart: "canonical x \<Longrightarrow> apart p q \<Longrightarrow> jpath p (set_nested q v x) = jpath p x"
proof (induction q v x arbitrary: p rule: set_nested.induct)
  case (1 k v m)
  then show ?case by (cases p) (auto simp del: canonical.simps)
next
  case (2 k k' ks v m)
  obtain l ls where p: "p = l # ls" using 2(4) by (cases p) auto
  have e: "canonical (JMap [])" by simp
  have n: "jpath ls (JMap []) = None" if "apart ls (k' # ks)" using that by (cases ls) auto
  show ?case
    using 2(3) by (rule at_key [of m k]) (use 2 p e n in \<open>simp_all del: canonical.simps add: not_map_cases\<close>)
qed simp_all

lemma jpath_set_same: "canonical (JMap m) \<Longrightarrow> jpath [k] (set_nested [k] v (JMap m)) = Some v"
  by (simp del: canonical.simps)

lemma jpath_set_second:
  assumes "canonical x" "jpath [k] x = Some (JMap m')"
  shows "jpath (k # k' # r) (set_nested [k, k'] v x) = jpath r v"
proof -
  obtain m where x: "x = JMap m" "map_of m k = Some (JMap m')" using assms(2) by (cases x) (auto split: option.splits)
  then have "canonical (JMap m')" using assms(1) canonical_lookup by blast
  then show ?thesis using assms(1) x by (simp del: canonical.simps)
qed

text \<open>A map stays a map when something is removed or set below it.\<close>

lemma jpath_remove_above: "canonical x \<Longrightarrow> jpath [k] x = Some (JMap m') \<Longrightarrow> \<exists>m''. jpath [k] (remove_nested [k, k'] x) = Some (JMap m'')"
  by (cases x) (auto split: option.splits simp del: canonical.simps)

lemma canonical_path: "canonical x \<Longrightarrow> jpath p x = Some v \<Longrightarrow> canonical v"
  by (induction p x rule: jpath.induct) (auto split: option.splits simp del: canonical.simps(2) dest: canonical_lookup)

lemma jpath_append: "jpath (p @ q) x = (case jpath p x of None \<Rightarrow> None | Some v \<Rightarrow> jpath q v)"
  by (induction p x rule: jpath.induct) (auto split: option.splits)

lemma jpath_atom: "jpath (k # ks) v = Some w \<Longrightarrow> \<exists>m. v = JMap m"
  by (cases v) auto

lemma jpath_two:
  assumes "jpath [k, k'] x = Some v"
  obtains m m' where "x = JMap m" "map_of m k = Some (JMap m')" "map_of m' k' = Some v"
proof -
  obtain m where x: "x = JMap m" using jpath_atom [OF assms] by blast
  then obtain y where y: "map_of m k = Some y" "jpath [k'] y = Some v" using assms by (auto split: option.splits)
  then obtain m' where "y = JMap m'" using jpath_atom by blast
  then show ?thesis using that x y by (auto split: option.splits)
qed

section \<open>What a step leaves alone\<close>

definition frame :: "string list list \<Rightarrow> json \<Rightarrow> json \<Rightarrow> bool" where
  "frame qs x y \<longleftrightarrow> canonical y \<and> (\<forall>p. (\<forall>q\<in>set qs. apart p q) \<longrightarrow> jpath p y = jpath p x)"

lemma frame_refl: "canonical x \<Longrightarrow> frame qs x x"
  by (simp add: frame_def)

lemma frame_trans: "frame qs x y \<Longrightarrow> frame rs y z \<Longrightarrow> frame (qs @ rs) x z"
  by (auto simp: frame_def)

lemma frame_remove: "canonical x \<Longrightarrow> frame [q] x (remove_nested q x)"
  by (simp add: frame_def canonical_remove jpath_remove_apart)

lemma frame_set: "canonical x \<Longrightarrow> canonical v \<Longrightarrow> frame [q] x (set_nested q v x)"
  by (simp add: frame_def canonical_set jpath_set_apart)

lemma frame_canonical: "frame qs x y \<Longrightarrow> canonical y"
  by (simp add: frame_def)

lemma frame_path: "frame qs x y \<Longrightarrow> \<forall>q\<in>set qs. apart p q \<Longrightarrow> jpath p y = jpath p x"
  by (simp add: frame_def)

lemma frame_string: "frame qs x y \<Longrightarrow> \<forall>q\<in>set qs. apart p q \<Longrightarrow> jstring p y = jstring p x"
  by (simp add: jstring_def frame_path)

lemma frame_more: "frame qs x y \<Longrightarrow> set qs \<subseteq> set rs \<Longrightarrow> frame rs x y"
  by (auto simp: frame_def)

text \<open>A fold of removals, under one key.\<close>

lemma frame_removes: "canonical x \<Longrightarrow> frame (map (\<lambda>f. [k, f]) fs) x (fold (\<lambda>f. remove_nested [k, f]) fs x)"
proof (induction fs arbitrary: x)
  case (Cons f fs)
  have "frame [[k, f]] x (remove_nested [k, f] x)" by (rule frame_remove [OF Cons.prems])
  from frame_trans [OF this Cons.IH [OF frame_canonical [OF this]]] show ?case by simp
qed (simp add: frame_refl)

lemma removed_stays: "canonical x \<Longrightarrow> jpath [k, g] x = None \<Longrightarrow> jpath [k, g] (remove_nested [k, f] x) = None"
  by (cases "g = f") (use jpath_remove_under [of x "[k, f]" "[]"] in \<open>simp_all add: jpath_remove_apart\<close>)

lemma removes_stay: "canonical x \<Longrightarrow> jpath [k, g] x = None \<Longrightarrow> jpath [k, g] (fold (\<lambda>f. remove_nested [k, f]) fs x) = None"
  by (induction fs arbitrary: x) (simp_all add: removed_stays canonical_remove)

lemma removes_all: "canonical x \<Longrightarrow> g \<in> set fs \<Longrightarrow> jpath [k, g] (fold (\<lambda>f. remove_nested [k, f]) fs x) = None"
proof (induction fs arbitrary: x)
  case (Cons f fs)
  have "jpath [k, f] (remove_nested [k, f] x) = None" using jpath_remove_under [of x "[k, f]" "[]"] Cons.prems(1) by simp
  then show ?case using Cons by (auto simp: removes_stay canonical_remove)
qed simp

section \<open>What the sanitizer does\<close>

lemma lookup_dels: "map_of (fold jdel ks m) k = (if k \<in> set ks then None else map_of m k)"
  by (induction ks arbitrary: m) (auto simp: jmaps.del_lookup)

lemma canonical_dels: "canonical (JMap m) \<Longrightarrow> canonical (JMap (fold jdel ks m))"
proof (induction ks arbitrary: m)
  case (Cons k ks)
  from Cons.IH [OF canonical_del [OF Cons.prems]] show ?case by simp
qed simp

abbreviation annotation_paths :: "string list list" where
  "annotation_paths \<equiv> map (\<lambda>a. [''metadata'', ''annotations'', a]) restoreBreakingAnnotations"

lemma annotations_split:
  assumes "\<forall>q\<in>set annotation_paths. apart p q"
  shows "apart p [''metadata'', ''annotations''] \<or> (\<exists>b r. p = [''metadata'', ''annotations''] @ b # r \<and> b \<notin> set restoreBreakingAnnotations)"
proof (cases "apart p [''metadata'', ''annotations'']")
  case False
  have a: "apart p [''metadata'', ''annotations'', a]" if "a \<in> set restoreBreakingAnnotations" for a using assms that by auto
  obtain a0 where a0: "a0 \<in> set restoreBreakingAnnotations" by (auto simp: restoreBreakingAnnotations_def)
  have "\<exists>b r. p = [''metadata'', ''annotations''] @ b # r" using False a [OF a0] by (auto elim!: apart.elims)
  then obtain b r where p: "p = [''metadata'', ''annotations''] @ b # r" by blast
  have "b \<notin> set restoreBreakingAnnotations" using a [of b] p by auto
  then show ?thesis using p by blast
qed simp

lemma annotations_frame:
  assumes "canonical x"
  shows "frame annotation_paths x (stripRestoreBreakingAnnotations x)"
proof (cases "\<exists>anns. jpath [''metadata'', ''annotations''] x = Some (JMap anns) \<and> anns \<noteq> []")
  case True
  then obtain anns where a: "jpath [''metadata'', ''annotations''] x = Some (JMap anns)" "anns \<noteq> []" by blast
  obtain m m' where m: "x = JMap m" "map_of m ''metadata'' = Some (JMap m')" "map_of m' ''annotations'' = Some (JMap anns)"
    using a(1) by (rule jpath_two)
  have ca: "canonical (JMap anns)" using assms m canonical_lookup by blast
  let ?left = "fold jdel restoreBreakingAnnotations anns" and ?q = "[''metadata'', ''annotations'']"
  let ?y = "if ?left = [] then remove_nested ?q x else set_nested ?q (JMap ?left) x"
  have y: "stripRestoreBreakingAnnotations x = ?y"
    unfolding stripRestoreBreakingAnnotations_def a(1) using a(2) by (simp add: Let_def)
  have below: "jpath (?q @ b # r) x = (case map_of anns b of None \<Rightarrow> None | Some v \<Rightarrow> jpath r v)" for b r
    using m by simp
  have f: "frame [?q] x ?y"
    using frame_remove [OF assms, of ?q] frame_set [OF assms canonical_dels [OF ca], of ?q] by simp
  have "jpath (?q @ b # r) ?y = jpath (?q @ b # r) x" if "b \<notin> set restoreBreakingAnnotations" for b r
  proof (cases "?left = []")
    case True
    then have "map_of anns b = None" using lookup_dels [of restoreBreakingAnnotations anns b] that by simp
    moreover have "jpath (?q @ b # r) (remove_nested ?q x) = None" by (rule jpath_remove_under [OF assms]) simp
    ultimately show ?thesis using True below by simp
  next
    case False
    have "jpath [''metadata''] x = Some (JMap m')" using m by simp
    from jpath_set_second [OF assms this, of "''annotations''" "b # r" "JMap ?left"] show ?thesis
      using False below lookup_dels [of restoreBreakingAnnotations anns b] that by simp
  qed
  moreover have "jpath p ?y = jpath p x" if "apart p ?q" for p by (rule frame_path [OF f]) (simp add: that)
  ultimately have "jpath p ?y = jpath p x" if "\<forall>q\<in>set annotation_paths. apart p q" for p
    using annotations_split [OF that] by blast
  then show ?thesis unfolding y frame_def using frame_canonical [OF f] by blast
next
  case False
  then have "stripRestoreBreakingAnnotations x = x"
    unfolding stripRestoreBreakingAnnotations_def by (auto split: option.splits json.splits)
  then show ?thesis using frame_refl [OF assms] by simp
qed

lemma annotations_at:
  "jpath [''metadata'', ''annotations'', a] x = (case jpath [''metadata'', ''annotations''] x of None \<Rightarrow> None | Some v \<Rightarrow> jpath [a] v)"
  using jpath_append [of "[''metadata'', ''annotations'']" "[a]" x] by (simp only: append.simps)

lemma annotations_gone:
  assumes "canonical x" "a \<in> set restoreBreakingAnnotations"
  shows "jpath [''metadata'', ''annotations'', a] (stripRestoreBreakingAnnotations x) = None"
proof (cases "\<exists>anns. jpath [''metadata'', ''annotations''] x = Some (JMap anns) \<and> anns \<noteq> []")
  case True
  then obtain anns where anns: "jpath [''metadata'', ''annotations''] x = Some (JMap anns)" "anns \<noteq> []" by blast
  obtain m m' where m: "x = JMap m" "map_of m ''metadata'' = Some (JMap m')" using anns(1) by (rule jpath_two)
  let ?left = "fold jdel restoreBreakingAnnotations anns" and ?q = "[''metadata'', ''annotations'']"
  have "jpath [''metadata''] x = Some (JMap m')" using m by simp
  note set = jpath_set_second [OF assms(1) this, of "''annotations''" "[a]" "JMap ?left"]
  have "jpath [a] (JMap ?left) = None" using assms(2) lookup_dels [of restoreBreakingAnnotations anns a] by simp
  note set = set [unfolded this]
  note remove = jpath_remove_under [OF assms(1), of ?q "[a]", unfolded append.simps, OF list.distinct(2)]
  have "stripRestoreBreakingAnnotations x = remove_nested ?q x \<or> stripRestoreBreakingAnnotations x = set_nested ?q (JMap ?left) x"
    unfolding stripRestoreBreakingAnnotations_def anns(1) option.case json.case Let_def using anns(2) by presburger
  then show ?thesis using set remove by (elim disjE) (simp_all only:)
next
  case False
  then have same: "stripRestoreBreakingAnnotations x = x"
    unfolding stripRestoreBreakingAnnotations_def by (auto split: option.splits json.splits)
  show ?thesis
  proof (rule ccontr)
    assume "\<not> ?thesis"
    then obtain v w where "jpath [''metadata'', ''annotations''] x = Some v" "jpath [a] v = Some w"
      unfolding same annotations_at by (cases "jpath [''metadata'', ''annotations''] x") (auto simp del: jpath.simps)
    moreover from this(2) obtain m where "v = JMap m" using jpath_atom by blast
    moreover have "m \<noteq> []" using calculation(2,3) by auto
    ultimately show False using False by blast
  qed
qed

lemma namespace_set:
  assumes "canonical x" "GetNamespace x \<noteq> ''''" "namespace \<noteq> ''''"
  shows "frame [[''metadata'', ''namespace'']] x (SetNamespace namespace x)" "GetNamespace (SetNamespace namespace x) = namespace"
proof -
  show "frame [[''metadata'', ''namespace'']] x (SetNamespace namespace x)"
    using frame_set [OF assms(1), of "JStr namespace"] assms(3) by (simp add: SetNamespace_def)
  obtain m' where "jpath [''metadata''] x = Some (JMap m')"
    using assms(2) by (cases x) (auto simp: jstring_def split: option.splits elim: jpath.elims)
  from jpath_set_second [OF assms(1) this, of "''namespace''" "[]" "JStr namespace"]
  show "GetNamespace (SetNamespace namespace x) = namespace" using assms(3) by (simp add: SetNamespace_def jstring_def)
qed

definition pvc_fields :: "string list" where
  "pvc_fields = [''volumeName'', ''dataSource'', ''dataSourceRef'']"

definition service_fields :: "string list" where
  "service_fields = [''clusterIP'', ''clusterIPs'', ''ipFamilies'', ''ipFamilyPolicy'', ''healthCheckNodePort'', ''loadBalancerIP'']"

definition kind_paths :: "json \<Rightarrow> string list list" where
  "kind_paths obj =
     (if GetAPIVersion obj \<noteq> ''v1'' then []
      else if GetKind obj = pvcKind then map (\<lambda>f. [''spec'', f]) pvc_fields
      else if GetKind obj = ''Service'' then map (\<lambda>f. [''spec'', f]) service_fields @ [[''spec'', ''ports'']]
      else [])"

lemma ports_frame:
  assumes "canonical x"
  shows "frame [[''spec'', ''ports'']] x (stripServiceNodePorts x)"
proof (cases "\<exists>ports. jpath [''spec'', ''ports''] x = Some (JList ports)")
  case True
  then obtain ports where p: "jpath [''spec'', ''ports''] x = Some (JList ports)" by blast
  have "canonical (JList ports)" using canonical_path [OF assms p] .
  then have "canonical (JList (map (\<lambda>p. case p of JMap m \<Rightarrow> JMap (jdel ''nodePort'' m) | _ \<Rightarrow> p) ports))"
    by (auto split: json.splits simp del: canonical.simps(2) intro: canonical_del)
  then show ?thesis unfolding stripServiceNodePorts_def p by (simp add: frame_set [OF assms])
next
  case False
  then have "stripServiceNodePorts x = x" unfolding stripServiceNodePorts_def by (auto split: option.splits json.splits)
  then show ?thesis using frame_refl [OF assms] by simp
qed

lemma kind_frame:
  assumes "canonical x"
  shows "frame (kind_paths x) x (stripKindSpecificFields x)"
proof -
  have p: "frame (map (\<lambda>f. [''spec'', f]) pvc_fields) x (fold (\<lambda>f. remove_nested [''spec'', f]) pvc_fields x)"
    by (rule frame_removes [OF assms])
  have s: "frame (map (\<lambda>f. [''spec'', f]) service_fields) x (fold (\<lambda>f. remove_nested [''spec'', f]) service_fields x)"
    by (rule frame_removes [OF assms])
  note s' = frame_trans [OF s ports_frame [OF frame_canonical [OF s]]]
  show ?thesis
    using p s' frame_refl [OF assms] by (auto simp: kind_paths_def stripKindSpecificFields_def pvc_fields_def service_fields_def)
qed

lemma pvc_fields_gone:
  "canonical x \<Longrightarrow> GetKind x = pvcKind \<Longrightarrow> GetAPIVersion x = ''v1'' \<Longrightarrow> f \<in> set pvc_fields \<Longrightarrow>
   jpath [''spec'', f] (stripKindSpecificFields x) = None"
  using removes_all [of x f pvc_fields "''spec''"] by (simp add: stripKindSpecificFields_def pvc_fields_def)

lemma subjects_frame:
  assumes "canonical x"
  shows "frame (if GetKind x = ''RoleBinding'' then [[''subjects'']] else []) x (rewriteInSpecNamespaces ns x)"
proof (cases "\<exists>subjects. GetKind x = ''RoleBinding'' \<and> jpath [''subjects''] x = Some (JList subjects) \<and> list_ex moved_subject subjects")
  case True
  then obtain subjects where s: "GetKind x = ''RoleBinding''" "jpath [''subjects''] x = Some (JList subjects)" "list_ex moved_subject subjects"
    by blast
  have "canonical (JList subjects)" using canonical_path [OF assms s(2)] .
  then have c: "\<forall>s\<in>set subjects. canonical s" by simp
  have "canonical (rewrite_subject ns s)" if "s \<in> set subjects" for s
  proof (cases s)
    case (JMap m)
    have "canonical (JMap m)" using c that JMap by blast
    then show ?thesis using JMap canonical_put [of m "JStr ns" "''namespace''"] by (simp add: rewrite_subject_def del: canonical.simps(2))
  qed (use c that in \<open>auto simp: rewrite_subject_def moved_subject_def\<close>)
  then have "canonical (JList (map (rewrite_subject ns) subjects))" by simp
  then show ?thesis unfolding rewriteInSpecNamespaces_def s(2) using s(1,3) frame_set [OF assms] by simp
next
  case False
  then have "rewriteInSpecNamespaces ns x = x"
    unfolding rewriteInSpecNamespaces_def by (auto split: option.splits json.splits)
  then show ?thesis using frame_refl [OF assms] by simp
qed

section \<open>A sanitized object\<close>

text \<open>The paths at which a sanitized object may differ from the captured one.\<close>

definition touched :: "json \<Rightarrow> string list list" where
  "touched obj = map (\<lambda>f. [''metadata'', f]) runtime_fields @ annotation_paths @ [[''status'']] @
     [[''metadata'', ''namespace'']] @ kind_paths obj @ (if GetKind obj = ''RoleBinding'' then [[''subjects'']] else [])"

lemma kept_paths: "\<forall>q\<in>set (touched obj). apart [''kind''] q \<and> apart [''apiVersion''] q \<and> apart [''metadata'', ''name''] q"
  by (auto simp: touched_def runtime_fields_def kind_paths_def pvc_fields_def service_fields_def)

lemma sanitized:
  assumes "canonical obj" "namespace \<noteq> ''''" "sanitizeForRestore namespace obj = Some out"
  shows "frame (touched obj) obj out" "GetNamespace out = namespace" "\<not> isControlPlaneKind (GetKind obj)"
    "GetNamespace obj \<noteq> ''''" "jpath [''status''] out = None" "f \<in> set runtime_fields \<Longrightarrow> jpath [''metadata'', f] out = None"
    "a \<in> set restoreBreakingAnnotations \<Longrightarrow> jpath [''metadata'', ''annotations'', a] out = None"
proof -
  let ?x1 = "stripRuntimeMetadata obj"
  let ?x2 = "stripRestoreBreakingAnnotations ?x1"
  let ?x3 = "remove_nested [''status''] ?x2"
  let ?x4 = "SetNamespace namespace ?x3"
  let ?x5 = "stripKindSpecificFields ?x4"
  show cp: "\<not> isControlPlaneKind (GetKind obj)" "GetNamespace obj \<noteq> ''''"
    using assms(3) by (auto simp: sanitizeForRestore_def split: if_splits)
  have out: "out = rewriteInSpecNamespaces namespace ?x5"
    using assms(3) cp by (simp add: sanitizeForRestore_def)
  have f1: "frame (map (\<lambda>f. [''metadata'', f]) runtime_fields) obj ?x1"
    unfolding stripRuntimeMetadata_def by (rule frame_removes [OF assms(1)])
  note c1 = frame_canonical [OF f1]
  note f2 = annotations_frame [OF c1]
  note c2 = frame_canonical [OF f2]
  have f3: "frame [[''status'']] ?x2 ?x3" by (rule frame_remove [OF c2])
  note c3 = frame_canonical [OF f3]
  note f13 = frame_trans [OF f1 frame_trans [OF f2 f3]]
  have ns3: "GetNamespace ?x3 \<noteq> ''''"
    using cp(2) frame_string [OF f13, of "[''metadata'', ''namespace'']"] by (auto simp: runtime_fields_def)
  note f4 = namespace_set(1) [OF c3 ns3 assms(2)]
  note c4 = frame_canonical [OF f4]
  note f14 = frame_trans [OF f13 f4]
  have kind4: "GetKind ?x4 = GetKind obj" "GetAPIVersion ?x4 = GetAPIVersion obj"
    using frame_string [OF f14] by (simp_all add: runtime_fields_def)
  have paths4: "kind_paths ?x4 = kind_paths obj" using kind4 by (simp add: kind_paths_def)
  note f5 = kind_frame [OF c4, unfolded paths4]
  note c5 = frame_canonical [OF f5]
  have kp: "\<forall>q\<in>set (kind_paths obj). apart [''kind''] q \<and> apart (''metadata'' # ks) q \<and> apart [''status''] q" for ks
    by (auto simp: kind_paths_def)
  have kind5: "GetKind ?x5 = GetKind obj" using frame_string [OF f5, of "[''kind'']"] kp kind4 by simp
  have f6: "frame (if GetKind obj = ''RoleBinding'' then [[''subjects'']] else []) ?x5 out"
    using subjects_frame [OF c5, of namespace] unfolding kind5 out .
  note late = frame_trans [OF f5 f6]
  note f46 = frame_trans [OF f4 late]
  note f36 = frame_trans [OF f3 f46]
  note f26 = frame_trans [OF f2 f36]
  have late_meta: "jpath (''metadata'' # ks) out = jpath (''metadata'' # ks) ?x4" for ks
    by (rule frame_path [OF late]) (use kp in auto)
  show "frame (touched obj) obj out"
    using frame_trans [OF f14 late] unfolding touched_def by (rule frame_more) auto
  show "GetNamespace out = namespace"
    using namespace_set(2) [OF c3 ns3 assms(2)] by (simp add: jstring_def late_meta)
  have "jpath [''status''] ?x3 = None" using jpath_remove_under [OF c2, of "[''status'']" "[]"] by simp
  moreover have "jpath [''status''] out = jpath [''status''] ?x3" by (rule frame_path [OF f46]) (use kp in auto)
  ultimately show "jpath [''status''] out = None" by simp
  show "jpath [''metadata'', f] out = None" if "f \<in> set runtime_fields"
  proof -
    have "jpath [''metadata'', f] ?x1 = None" unfolding stripRuntimeMetadata_def by (rule removes_all [OF assms(1) that])
    moreover have "jpath [''metadata'', f] out = jpath [''metadata'', f] ?x1"
      by (rule frame_path [OF f26]) (use kp that in \<open>auto simp: runtime_fields_def\<close>)
    ultimately show ?thesis by simp
  qed
  show "jpath [''metadata'', ''annotations'', a] out = None" if "a \<in> set restoreBreakingAnnotations"
  proof -
    have "jpath [''metadata'', ''annotations'', a] out = jpath [''metadata'', ''annotations'', a] ?x2"
      by (rule frame_path [OF f36]) (use kp in auto)
    then show ?thesis using annotations_gone [OF c1 that] by simp
  qed
qed

lemma sanitized_identity:
  assumes "canonical obj" "namespace \<noteq> ''''" "sanitizeForRestore namespace obj = Some out"
  shows "GetKind out = GetKind obj" "GetAPIVersion out = GetAPIVersion obj" "GetName out = GetName obj" "canonical out"
  using frame_string [OF sanitized(1) [OF assms]] kept_paths [of obj] frame_canonical [OF sanitized(1) [OF assms]] by blast+

end
