(* ===== verification/Restore_Compiler.thy ===== *)
theory Restore_Compiler
  imports Restore_Sanitizer Import_Checkpoint Data_Readiness
begin

text \<open>
  The restore compiler (\<open>usecase/restore\<close>): the run tree of a snapshot is resolved into \<open>restore_node\<close>s
  (\<open>resolver.go\<close>), each node is compiled from the manifests of its checkpoint (\<open>transform.go\<close>,
  \<open>binding.go\<close>, \<open>loader.go\<close>), and the objects are filtered and marshalled (\<open>service.go\<close>).

  The visited keys are one map that all calls of a resolution share, so they are passed through. The fuel
  bounds the depth of the tree. The delegate for the subtrees of other controllers is an argument; a nil
  \<open>isDomainKind\<close> is the function that is never true. Children are sorted by kind and name only; for two
  children that agree in both the order of \<open>sort.Slice\<close> is unspecified, here it is that of the list.
\<close>

datatype restore_err = RNotFound string | RNotReady string | RContract string | RBadRequest string | RForbidden string
  | RFailed string | ROutOfFuel

datatype restore_node = RestoreNode (rn_ref: subject_ref) (rn_mcp: string) (rn_bindings: "data_binding list")
  (rn_vsc: "(string \<times> string) list") (rn_domain: bool) (rn_children: "restore_node list")

record volume_snapshot =
  vn_uid :: string
  vn_deleting :: bool
  vn_ready :: "bool nested"
  vn_bound_vsc :: "string nested"
  vn_bound :: "string nested"

record resolver =
  rv_env :: env
  rv_volume_snapshot :: "string \<Rightarrow> string \<Rightarrow> volume_snapshot get_res"
  rv_domain :: "string \<Rightarrow> bool"

section \<open>The resolver\<close>

abbreviation "CSISnapshotAPIVersion \<equiv> ''snapshot.storage.k8s.io/v1''"
abbreviation "KindVolumeSnapshot \<equiv> ''VolumeSnapshot''"
abbreviation "KindVolumeSnapshotContent \<equiv> ''VolumeSnapshotContent''"

text \<open>A missing back-reference is the zero reference.\<close>

definition snapshotRefMismatch :: "snapshot_content \<Rightarrow> string \<Rightarrow> string \<Rightarrow> string \<Rightarrow> string \<Rightarrow> string \<Rightarrow> bool" where
  "snapshotRefMismatch content wantAPIVersion wantKind wantNamespace wantName wantUID =
     (let ref = ct_snapshot_ref content in
      if ref = zero_subject_ref then True
      else if sr_apiVersion ref \<noteq> wantAPIVersion \<or> sr_kind ref \<noteq> wantKind \<or> sr_namespace ref \<noteq> wantNamespace \<or>
         sr_name ref \<noteq> wantName then True
      else sr_uid ref \<noteq> '''' \<and> wantUID \<noteq> '''' \<and> sr_uid ref \<noteq> wantUID)"

definition isVolumeSnapshotLeaf :: "snapshot_child_ref \<Rightarrow> bool" where
  "isVolumeSnapshotLeaf ref = (cr_apiVersion ref = CSISnapshotAPIVersion \<and> cr_kind ref = KindVolumeSnapshot)"

definition childSnapshotRefs :: "snapshot_obj \<Rightarrow> snapshot_child_ref list" where
  "childSnapshotRefs obj = List.map_filter id (nval [] (so_children obj))"

definition ensureReady :: "resolver \<Rightarrow> snapshot_content \<Rightarrow> restore_err option" where
  "ensureReady rv content =
     (case find_condition (rv_env rv) (ct_conditions content) ConditionReady of
        None \<Rightarrow> Some (RNotReady (''SnapshotContent '' @ ct_name content))
      | Some ready \<Rightarrow> if co_status ready \<noteq> ConditionTrue then Some (RNotReady (''SnapshotContent '' @ ct_name content)) else None)"

definition ensureSnapshotReady :: "resolver \<Rightarrow> snapshot_obj \<Rightarrow> restore_err option" where
  "ensureSnapshotReady rv obj =
     (case find_condition (rv_env rv) (so_conditions obj) ConditionReady of
        None \<Rightarrow> Some (RNotReady (''Snapshot '' @ so_name obj))
      | Some ready \<Rightarrow> if co_status ready \<noteq> ConditionTrue then Some (RNotReady (''Snapshot '' @ so_name obj)) else None)"

definition ensureSnapshotReadyOrDegraded :: "resolver \<Rightarrow> snapshot_obj \<Rightarrow> bool \<Rightarrow> restore_err option" where
  "ensureSnapshotReadyOrDegraded rv obj relaxDegraded =
     (if \<not> relaxDegraded then ensureSnapshotReady rv obj
      else case find_condition (rv_env rv) (so_conditions obj) ConditionReady of
        None \<Rightarrow> ensureSnapshotReady rv obj
      | Some ready \<Rightarrow>
          if co_status ready = ConditionFalse \<and> IsReasonDegraded (co_reason ready) then None
          else ensureSnapshotReady rv obj)"

definition snapshot_ref :: "string \<Rightarrow> string \<Rightarrow> string \<Rightarrow> string \<Rightarrow> subject_ref" where
  "snapshot_ref apiVersion kind name namespace =
     \<lparr>sr_apiVersion = apiVersion, sr_kind = kind, sr_name = name, sr_namespace = namespace, sr_uid = ''''\<rparr>"

definition domainRestoreNode :: "string \<Rightarrow> string \<Rightarrow> string \<Rightarrow> string \<Rightarrow> restore_node" where
  "domainRestoreNode apiVersion kind name namespace = RestoreNode (snapshot_ref apiVersion kind name namespace) '''' [] [] True []"

definition resolveVolumeSnapshotLeaf :: "resolver \<Rightarrow> string \<Rightarrow> string \<Rightarrow> restore_err + string \<times> string \<times> string" where
  "resolveVolumeSnapshotLeaf rv namespace vsName =
     (case rv_volume_snapshot rv namespace vsName of
        NotFound \<Rightarrow> Inl (RContract (''VolumeSnapshot leaf '' @ vsName @ '' not found''))
      | GetErr x \<Rightarrow> Inl (RFailed x)
      | Found vs \<Rightarrow>
          if vn_deleting vs then Inl (RContract (''VolumeSnapshot leaf '' @ vsName @ '' is being deleted''))
          else if vn_ready vs = NBadType then Inl (RContract ''readyToUse unreadable'')
          else if \<not> nval False (vn_ready vs) then Inl (RNotReady (''VolumeSnapshot leaf '' @ vsName))
          else if vn_bound_vsc vs = NBadType then Inl (RContract ''boundVolumeSnapshotContentName unreadable'')
          else if nval '''' (vn_bound_vsc vs) = '''' then Inl (RNotReady (''VolumeSnapshot leaf '' @ vsName))
          else if vn_bound vs = NBadType then Inl (RContract ''boundSnapshotContentName unreadable'')
          else Inr (nval '''' (vn_bound_vsc vs), nval '''' (vn_bound vs), vn_uid vs))"

definition verifyOrphanContentSnapshotRef :: "snapshot_content \<Rightarrow> string \<Rightarrow> string \<Rightarrow> string \<Rightarrow> restore_err option" where
  "verifyOrphanContentSnapshotRef content namespace vsName vsUID =
     (if snapshotRefMismatch content CSISnapshotAPIVersion KindVolumeSnapshot namespace vsName vsUID
      then Some (RContract (''orphan child SnapshotContent '' @ ct_name content)) else None)"

definition resolveOrphanVolumeChildNode :: "resolver \<Rightarrow> string \<Rightarrow> string \<Rightarrow> restore_err + restore_node" where
  "resolveOrphanVolumeChildNode rv namespace vsName =
     (case resolveVolumeSnapshotLeaf rv namespace vsName of
        Inl x \<Rightarrow> Inl x
      | Inr (boundVSC, childContentName, vsUID) \<Rightarrow>
          if childContentName = '''' then Inl (RNotReady (''orphan VolumeSnapshot '' @ vsName))
          else (case e_content (rv_env rv) childContentName of
             NotFound \<Rightarrow> Inl (RContract (''orphan child SnapshotContent '' @ childContentName @ '' not found''))
           | GetErr x \<Rightarrow> Inl (RFailed x)
           | Found content \<Rightarrow>
               (case ensureReady rv content of
                  Some x \<Rightarrow> Inl x
                | None \<Rightarrow> (case verifyOrphanContentSnapshotRef content namespace vsName vsUID of
                    Some x \<Rightarrow> Inl x
                  | None \<Rightarrow>
                      let mcpName = nval '''' (ct_mcp_name content) in
                      if mcpName = '''' then Inl (RContract ''manifestCheckpointName is empty'')
                      else Inr (RestoreNode (snapshot_ref CSISnapshotAPIVersion KindVolumeSnapshot vsName namespace) mcpName
                        (GetStatusDataRefs content) [(boundVSC, vsName)] False [])))))"

definition ResolveVolumeSnapshotRestoreNode :: "resolver \<Rightarrow> string \<Rightarrow> string \<Rightarrow> restore_err + restore_node" where
  "ResolveVolumeSnapshotRestoreNode rv namespace vsName =
     (case rv_volume_snapshot rv namespace vsName of
        NotFound \<Rightarrow> Inl (RNotFound (''VolumeSnapshot '' @ vsName))
      | GetErr x \<Rightarrow> Inl (RFailed x)
      | Found _ \<Rightarrow> resolveOrphanVolumeChildNode rv namespace vsName)"

text \<open>The checks of a node and what it takes from its content, without its children.\<close>

definition own_node :: "resolver \<Rightarrow> snapshot_obj \<Rightarrow> string \<Rightarrow> bool \<Rightarrow> bool \<Rightarrow> restore_err + restore_node" where
  "own_node rv obj namespace isRoot descend =
     (let apiVersion = gv_string (rv_env rv) (so_gvk obj); kind = g_kind (so_gvk obj) in
      case ensureSnapshotReadyOrDegraded rv obj (isRoot \<and> \<not> descend) of
        Some x \<Rightarrow> Inl x
      | None \<Rightarrow>
          let boundName = nval '''' (so_bound obj) in
          if boundName = '''' then Inl (RNotReady (''snapshot '' @ so_name obj @ '' has empty boundSnapshotContentName''))
          else (case e_content (rv_env rv) boundName of
             NotFound \<Rightarrow> Inl (RContract (''bound SnapshotContent '' @ boundName @ '' not found''))
           | GetErr x \<Rightarrow> Inl (RFailed x)
           | Found content \<Rightarrow>
               (case ensureReady rv content of
                  Some x \<Rightarrow> Inl x
                | None \<Rightarrow>
                    if snapshotRefMismatch content apiVersion kind namespace (so_name obj) (so_uid obj)
                    then (if isRoot then Inl (RForbidden boundName) else Inl (RContract (''bound SnapshotContent '' @ boundName)))
                    else let mcpName = nval '''' (ct_mcp_name content) in
                      if mcpName = '''' then Inl (RContract (''manifestCheckpointName is empty for SnapshotContent '' @ boundName))
                      else Inr (RestoreNode (snapshot_ref apiVersion kind (so_name obj) namespace) mcpName
                        (GetStatusDataRefs content) [] False []))))"

definition node_key :: "resolver \<Rightarrow> snapshot_obj \<Rightarrow> string" where
  "node_key rv obj = gv_string (rv_env rv) (so_gvk obj) @ ''/'' @ g_kind (so_gvk obj) @ ''/'' @ so_name obj"

definition child_less :: "snapshot_child_ref \<Rightarrow> snapshot_child_ref \<Rightarrow> bool" where
  "child_less a b = (if cr_kind a = cr_kind b then cr_name a < cr_name b else cr_kind a < cr_kind b)"

function (sequential) buildRestoreNode ::
    "nat \<Rightarrow> resolver \<Rightarrow> snapshot_obj \<Rightarrow> string \<Rightarrow> string set \<Rightarrow> bool \<Rightarrow> bool \<Rightarrow> (restore_err + restore_node) \<times> string set"
  and build_children ::
    "nat \<Rightarrow> resolver \<Rightarrow> snapshot_child_ref list \<Rightarrow> string \<Rightarrow> string set \<Rightarrow> (restore_err + restore_node list) \<times> string set" where
  "buildRestoreNode 0 rv obj namespace visited isRoot descend = (Inl ROutOfFuel, visited)"
| "buildRestoreNode (Suc n) rv obj namespace visited isRoot descend =
     (let key = node_key rv obj in
      if key \<in> visited then (Inl (RContract (''snapshot run-tree cycle at '' @ key)), visited)
      else case own_node rv obj namespace isRoot descend of
        Inl x \<Rightarrow> (Inl x, insert key visited)
      | Inr node \<Rightarrow>
          if \<not> descend then (Inr node, insert key visited)
          else (case build_children n rv (sort_slice child_less (childSnapshotRefs obj)) namespace (insert key visited) of
             (Inl x, visited) \<Rightarrow> (Inl x, visited)
           | (Inr children, visited) \<Rightarrow>
               (Inr (RestoreNode (rn_ref node) (rn_mcp node) (rn_bindings node) (rn_vsc node) False children), visited)))"
| "build_children n rv [] namespace visited = (Inr [], visited)"
| "build_children n rv (ref # refs) namespace visited =
     (if cr_name ref = '''' then build_children n rv refs namespace visited
      else case (if rv_domain rv (cr_kind ref)
            then (Inr (domainRestoreNode (cr_apiVersion ref) (cr_kind ref) (cr_name ref) namespace), visited)
            else if isVolumeSnapshotLeaf ref then (resolveOrphanVolumeChildNode rv namespace (cr_name ref), visited)
            else (case e_snapshot (rv_env rv) (cr_apiVersion ref) (cr_kind ref) namespace (cr_name ref) of
               NotFound \<Rightarrow> (Inl (RContract (''child snapshot '' @ cr_name ref @ '' not found'')), visited)
             | GetErr x \<Rightarrow> (Inl (RFailed x), visited)
             | Found obj \<Rightarrow> buildRestoreNode n rv obj namespace visited False True)) of
        (Inl x, visited) \<Rightarrow> (Inl x, visited)
      | (Inr node, visited) \<Rightarrow> (case build_children n rv refs namespace visited of
          (Inl x, visited) \<Rightarrow> (Inl x, visited)
        | (Inr nodes, visited) \<Rightarrow> (Inr (node # nodes), visited)))"
  by pat_completeness auto
termination
  by (relation "inv_image (less_than <*lex*> less_than)
    (case_sum (\<lambda>(n, _). (n, 0)) (\<lambda>(n, _, refs, _). (n, Suc (length refs))))") auto

definition resolveFromRoot :: "nat \<Rightarrow> resolver \<Rightarrow> gvk \<Rightarrow> string \<Rightarrow> string \<Rightarrow> bool \<Rightarrow> restore_err + restore_node" where
  "resolveFromRoot fuel rv k namespace name descend =
     (if rv_domain rv (g_kind k) then Inr (domainRestoreNode (gv_string (rv_env rv) k) (g_kind k) name namespace)
      else case e_snapshot (rv_env rv) (gv_string (rv_env rv) k) (g_kind k) namespace name of
        NotFound \<Rightarrow> Inl (RNotFound (''snapshot '' @ name))
      | GetErr x \<Rightarrow> Inl (RFailed x)
      | Found obj \<Rightarrow> fst (buildRestoreNode fuel rv obj namespace {} True descend))"

abbreviation root_gvk :: gvk where
  "root_gvk \<equiv> \<lparr>g_group = ''state-snapshotter.deckhouse.io'', g_version = ''v1alpha1'', g_kind = ''Snapshot''\<rparr>"

definition ResolveRestoreTree :: "nat \<Rightarrow> resolver \<Rightarrow> string \<Rightarrow> string \<Rightarrow> restore_err + restore_node" where
  "ResolveRestoreTree fuel rv namespace name = resolveFromRoot fuel rv root_gvk namespace name True"

definition ResolveRestoreNodeOnlyRoot :: "nat \<Rightarrow> resolver \<Rightarrow> string \<Rightarrow> string \<Rightarrow> restore_err + restore_node" where
  "ResolveRestoreNodeOnlyRoot fuel rv namespace name = resolveFromRoot fuel rv root_gvk namespace name False"

section \<open>The manifests of a node\<close>

text \<open>The reads of a request for the manifests of a checkpoint, and the cache it finds.\<close>

record ('t, 'g, 'd) manifest_source =
  ms_codec :: "('t, 'g, 'd) codec"
  ms_env :: env
  ms_hash :: "'t \<Rightarrow> string"
  ms_time :: int
  ms_schedule :: "chunk_info list \<Rightarrow> chunk_info list"
  ms_checkpoint :: "string \<Rightarrow> checkpoint get_res"
  ms_chunk :: "string \<Rightarrow> 'd chunk get_res"
  ms_cache :: "'t archive_cache"

definition archive_of :: "('t, 'g, 'd) manifest_source \<Rightarrow> checkpoint \<Rightarrow> string \<Rightarrow> archive_error + 't" where
  "archive_of ms cp name =
     (case fst (GetArchiveFromCheckpoint (ms_codec ms) (ms_hash ms) (ms_env ms) (ms_time ms) (ms_schedule ms) (ms_chunk ms)
        cp name (mc_uid cp) (ms_cache ms)) of Inl x \<Rightarrow> Inl x | Inr (data, _) \<Rightarrow> Inr data)"

text \<open>\<open>json.Unmarshal\<close> of an archive into a list of maps; a \<open>null\<close> item is a nil map.\<close>

definition unmarshal_objects :: "('t, 'g, 'd) codec \<Rightarrow> 't \<Rightarrow> json list option" where
  "unmarshal_objects c t = (case raw_array c t of None \<Rightarrow> None | Some raws \<Rightarrow> decode_objects c raws)"

definition LoadManifests :: "('t, 'g, 'd) manifest_source \<Rightarrow> string \<Rightarrow> restore_err + json list" where
  "LoadManifests ms checkpointName =
     (case ms_checkpoint ms checkpointName of
        NotFound \<Rightarrow> Inl (RFailed (''checkpoint '' @ checkpointName @ '' not found''))
      | GetErr x \<Rightarrow> Inl (RFailed x)
      | Found cp \<Rightarrow> (case archive_of ms cp checkpointName of
          Inl _ \<Rightarrow> Inl (RFailed ''failed to get archive'')
        | Inr data \<Rightarrow> (case unmarshal_objects (ms_codec ms) data of
            None \<Rightarrow> Inl (RFailed ''failed to decode archive'')
          | Some objects \<Rightarrow> Inr objects)))"

section \<open>The transform\<close>

definition bindingMatchesPVCIdentity :: "json \<Rightarrow> data_binding \<Rightarrow> bool" where
  "bindingMatchesPVCIdentity pvc b =
     (sr_apiVersion (SourceRef b) = GetAPIVersion pvc \<and> sr_kind (SourceRef b) = GetKind pvc \<and>
      sr_namespace (SourceRef b) = GetNamespace pvc \<and> sr_name (SourceRef b) = GetName pvc)"

definition findDataBindingForPVC :: "json \<Rightarrow> data_binding list \<Rightarrow> data_binding option" where
  "findDataBindingForPVC pvc bindings =
     (if GetUID pvc \<noteq> '''' then List.find (\<lambda>b. sr_uid (SourceRef b) = GetUID pvc) bindings
      else List.find (bindingMatchesPVCIdentity pvc) bindings)"

definition isCorePVC :: "json \<Rightarrow> bool" where
  "isCorePVC obj = (GetKind obj = pvcKind \<and> GetAPIVersion obj = ''v1'')"

fun orphan_loop ::
  "restore_node \<Rightarrow> json list \<Rightarrow> string set \<Rightarrow> (string \<rightharpoonup> string) \<Rightarrow> restore_err + (string \<rightharpoonup> string)" where
  "orphan_loop node [] covered result = Inr result"
| "orphan_loop node (r # raw) covered result =
     (if \<not> isCorePVC r then orphan_loop node raw covered result
      else if GetName r \<in> covered then orphan_loop node raw covered result
      else case findDataBindingForPVC r (rn_bindings node) of
        None \<Rightarrow> orphan_loop node raw covered result
      | Some b \<Rightarrow>
          if ar_kind (ArtifactRef b) \<noteq> KindVolumeSnapshotContent then Inl (RContract (''PVC data artifact is '' @ ar_kind (ArtifactRef b)))
          else let vsName = (case map_of (rn_vsc node) (ar_name (ArtifactRef b)) of None \<Rightarrow> '''' | Some n \<Rightarrow> n) in
            if vsName = '''' then Inl (RContract (''no VolumeSnapshot leaf for PVC '' @ GetName r))
            else orphan_loop node raw covered (result(GetName r \<mapsto> vsName)))"

definition resolveOrphanPVCVolumeSnapshots ::
  "restore_node \<Rightarrow> json list \<Rightarrow> string set \<Rightarrow> restore_err + (string \<rightharpoonup> string)" where
  "resolveOrphanPVCVolumeSnapshots node raw covered = orphan_loop node raw covered Map.empty"

definition source_ref :: "string \<Rightarrow> json" where
  "source_ref volumeSnapshotName = JMap [(''apiGroup'', JStr ''snapshot.storage.k8s.io''), (''kind'', JStr KindVolumeSnapshot),
     (''name'', JStr volumeSnapshotName)]"

definition setPVCDataSourceRef :: "string \<Rightarrow> json \<Rightarrow> json" where
  "setPVCDataSourceRef volumeSnapshotName pvc = set_nested [''spec'', ''dataSourceRef''] (source_ref volumeSnapshotName) pvc"

fun transform_loop :: "string \<Rightarrow> (string \<rightharpoonup> string) \<Rightarrow> json list \<Rightarrow> restore_err + json list" where
  "transform_loop targetNamespace orphanVS [] = Inr []"
| "transform_loop targetNamespace orphanVS (r # raw) =
     (case sanitizeForRestore targetNamespace r of
        None \<Rightarrow> transform_loop targetNamespace orphanVS raw
      | Some sanitized \<Rightarrow>
          if isCorePVC sanitized then
            (case orphanVS (GetName sanitized) of
               None \<Rightarrow> Inl (RContract (''PVC '' @ GetName sanitized @ '' has no data binding''))
             | Some vs \<Rightarrow> (case transform_loop targetNamespace orphanVS raw of
                 Inl x \<Rightarrow> Inl x | Inr out \<Rightarrow> Inr (setPVCDataSourceRef vs sanitized # out)))
          else (case transform_loop targetNamespace orphanVS raw of Inl x \<Rightarrow> Inl x | Inr out \<Rightarrow> Inr (sanitized # out)))"

definition transformNodeObjects :: "restore_node \<Rightarrow> json list \<Rightarrow> string \<Rightarrow> restore_err + json list" where
  "transformNodeObjects node raw targetNamespace =
     (case resolveOrphanPVCVolumeSnapshots node raw {} of
        Inl x \<Rightarrow> Inl x
      | Inr orphanVS \<Rightarrow> transform_loop targetNamespace orphanVS raw)"

section \<open>The service\<close>

type_synonym delegate = "gvk \<Rightarrow> string \<Rightarrow> string \<Rightarrow> string \<Rightarrow> restore_err + json list"

definition compileDomainNode :: "(string \<Rightarrow> string \<Rightarrow> gvk) \<Rightarrow> delegate option \<Rightarrow> subject_ref \<Rightarrow> string \<Rightarrow> restore_err + json list" where
  "compileDomainNode to_gvk domain ref targetNamespace =
     (case domain of
        None \<Rightarrow> Inl (RContract (''domain snapshot '' @ sr_name ref @ '' requires the domain restore delegate''))
      | Some restorer \<Rightarrow> restorer (to_gvk (sr_apiVersion ref) (sr_kind ref)) (sr_namespace ref) (sr_name ref) targetNamespace)"

fun compileNode ::
    "(string \<Rightarrow> string \<Rightarrow> gvk) \<Rightarrow> delegate option \<Rightarrow> (string \<Rightarrow> restore_err + json list) \<Rightarrow> string \<Rightarrow> restore_node \<Rightarrow> restore_err + json list"
  and compile_children ::
    "(string \<Rightarrow> string \<Rightarrow> gvk) \<Rightarrow> delegate option \<Rightarrow> (string \<Rightarrow> restore_err + json list) \<Rightarrow> string \<Rightarrow> restore_node list \<Rightarrow> restore_err + json list" where
  "compileNode to_gvk domain load targetNamespace (RestoreNode ref mcp bindings vsc is_domain children) =
     (if is_domain then compileDomainNode to_gvk domain ref targetNamespace
      else case compile_children to_gvk domain load targetNamespace children of
        Inl x \<Rightarrow> Inl x
      | Inr childObjects \<Rightarrow> (case load mcp of
          Inl x \<Rightarrow> Inl x
        | Inr raw \<Rightarrow> (case transformNodeObjects (RestoreNode ref mcp bindings vsc is_domain children) raw targetNamespace of
            Inl x \<Rightarrow> Inl x
          | Inr nodeObjects \<Rightarrow> Inr (childObjects @ nodeObjects))))"
| "compile_children to_gvk domain load targetNamespace [] = Inr []"
| "compile_children to_gvk domain load targetNamespace (child # children) =
     (case compileNode to_gvk domain load targetNamespace child of
        Inl x \<Rightarrow> Inl x
      | Inr objects \<Rightarrow> (case compile_children to_gvk domain load targetNamespace children of
          Inl x \<Rightarrow> Inl x | Inr rest \<Rightarrow> Inr (objects @ rest)))"

definition apiVersionMatches :: "env \<Rightarrow> string \<Rightarrow> string \<Rightarrow> bool" where
  "apiVersionMatches e objAPIVersion filterAPIVersion =
     (if objAPIVersion = filterAPIVersion then True
      else if parse_gv_error e objAPIVersion \<noteq> None then False
      else g_group (gvk_of e objAPIVersion '''') \<noteq> '''' \<and> g_group (gvk_of e objAPIVersion '''') = filterAPIVersion)"

record options =
  op_name :: string
  op_namespace :: string
  op_target :: string
  op_node_only :: bool
  op_filter_kind :: string
  op_filter_name :: string
  op_filter_apiVersion :: string

definition filter_matches :: "env \<Rightarrow> options \<Rightarrow> json \<Rightarrow> bool" where
  "filter_matches e opts obj =
     (if GetKind obj \<noteq> op_filter_kind opts \<or> GetName obj \<noteq> op_filter_name opts then False
      else if op_filter_apiVersion opts \<noteq> '''' \<and> \<not> apiVersionMatches e (GetAPIVersion obj) (op_filter_apiVersion opts) then False
      else True)"

definition filterSingleObject :: "env \<Rightarrow> options \<Rightarrow> json list \<Rightarrow> restore_err + json list" where
  "filterSingleObject e opts objects =
     (case filter (filter_matches e opts) objects of
        [m] \<Rightarrow> Inr [m]
      | [] \<Rightarrow> Inl (RNotFound (''object '' @ op_filter_name opts))
      | _ \<Rightarrow> Inl (RBadRequest (''object filter '' @ op_filter_name opts @ '' is ambiguous'')))"

definition object_identity :: "json \<Rightarrow> string" where
  "object_identity obj =
     (let namespace = (if GetNamespace obj = '''' then ''_cluster'' else GetNamespace obj)
      in GetAPIVersion obj @ ''|'' @ GetKind obj @ ''|'' @ namespace @ ''|'' @ GetName obj)"

fun first_duplicate :: "json list \<Rightarrow> string set \<Rightarrow> string option" where
  "first_duplicate [] seen = None"
| "first_duplicate (obj # objects) seen =
     (if object_identity obj \<in> seen then Some (object_identity obj)
      else first_duplicate objects (insert (object_identity obj) seen))"

definition marshalObjects :: "('t, 'g, 'd) codec \<Rightarrow> json list \<Rightarrow> restore_err + 't" where
  "marshalObjects c objects =
     (case first_duplicate objects {} of
        Some key \<Rightarrow> Inl (RContract (''duplicate object '' @ key))
      | None \<Rightarrow> (case cd_encode c (JList objects) of
          None \<Rightarrow> Inl (RFailed ''failed to serialize manifests'') | Some t \<Rightarrow> Inr t))"

definition buildRestore ::
  "('t, 'g, 'd) manifest_source \<Rightarrow> delegate option \<Rightarrow> options \<Rightarrow> restore_err + restore_node \<Rightarrow> restore_err + 't" where
  "buildRestore ms domain opts resolved =
     (let targetNamespace = (if op_target opts = '''' then op_namespace opts else op_target opts) in
      case resolved of
        Inl x \<Rightarrow> Inl x
      | Inr root \<Rightarrow> (case compileNode (gvk_of (ms_env ms)) domain (LoadManifests ms) targetNamespace root of
          Inl x \<Rightarrow> Inl x
        | Inr objects \<Rightarrow>
            (case (if op_filter_kind opts \<noteq> '''' then filterSingleObject (ms_env ms) opts objects else Inr objects) of
               Inl x \<Rightarrow> Inl x
             | Inr objects \<Rightarrow> marshalObjects (ms_codec ms) objects)))"

definition BuildManifestsWithDataRestoration ::
  "nat \<Rightarrow> resolver \<Rightarrow> ('t, 'g, 'd) manifest_source \<Rightarrow> delegate option \<Rightarrow> options \<Rightarrow> restore_err + 't" where
  "BuildManifestsWithDataRestoration fuel rv ms domain opts = buildRestore ms domain opts
     (if op_node_only opts then ResolveRestoreNodeOnlyRoot fuel rv (op_namespace opts) (op_name opts)
      else ResolveRestoreTree fuel rv (op_namespace opts) (op_name opts))"

definition BuildManifestsWithDataRestorationForVolumeSnapshot ::
  "resolver \<Rightarrow> ('t, 'g, 'd) manifest_source \<Rightarrow> delegate option \<Rightarrow> string \<Rightarrow> string \<Rightarrow> options \<Rightarrow> restore_err + 't" where
  "BuildManifestsWithDataRestorationForVolumeSnapshot rv ms domain namespace vsName opts =
     buildRestore ms domain opts (ResolveVolumeSnapshotRestoreNode rv namespace vsName)"

end
