(* ===== verification/Graph_Walk.thy ===== *)
theory Graph_Walk
  imports Prelude
begin

text \<open>
  Depth-first walks over objects of the cluster. A step looks at one key: it fails, or returns the keys to
  descend into and the new state, which holds the set of the keys visited so far. The fuel bounds the depth.
  The locales show what a shared visited set gives: any fuel above the number of keys that can be entered
  is enough, and a walk that succeeds has visited exactly what can be reached.
\<close>

datatype 'e stop = OutOfFuel | Stopped (reason_of: 'e)

function (sequential) walk :: "nat \<Rightarrow> ('k \<Rightarrow> 's \<Rightarrow> 'e + 'k list \<times> 's) \<Rightarrow> 'k \<Rightarrow> 's \<Rightarrow> 'e stop + 's"
  and walk_all :: "nat \<Rightarrow> ('k \<Rightarrow> 's \<Rightarrow> 'e + 'k list \<times> 's) \<Rightarrow> 'k list \<Rightarrow> 's \<Rightarrow> 'e stop + 's" where
  "walk 0 step k s = Inl OutOfFuel"
| "walk (Suc n) step k s = (case step k s of Inl x \<Rightarrow> Inl (Stopped x) | Inr (ks, s') \<Rightarrow> walk_all n step ks s')"
| "walk_all n step [] s = Inr s"
| "walk_all n step (k # ks) s = (case walk n step k s of Inl x \<Rightarrow> Inl x | Inr s' \<Rightarrow> walk_all n step ks s')"
  by pat_completeness auto
termination
  by (relation "inv_image (less_than <*lex*> less_than)
    (case_sum (\<lambda>(n, _). (n, 0)) (\<lambda>(n, _, ks, _). (n, Suc (length ks))))") auto

lemma walk_more:
  "walk n step k s \<noteq> Inl OutOfFuel \<Longrightarrow> n \<le> m \<Longrightarrow> walk m step k s = walk n step k s"
  "walk_all n step ks s \<noteq> Inl OutOfFuel \<Longrightarrow> n \<le> m \<Longrightarrow> walk_all m step ks s = walk_all n step ks s"
proof (induction n step k s and n step ks s arbitrary: m and m rule: walk_walk_all.induct)
  case (2 n step k s)
  obtain m' where m: "m = Suc m'" "n \<le> m'" using 2(3) by (cases m) auto
  show ?case
  proof (cases "step k s")
    case (Inr p)
    obtain ks t where p: "p = (ks, t)" by (cases p)
    have "walk_all n step ks t \<noteq> Inl OutOfFuel" using 2(2) Inr p by simp
    from 2(1) [OF Inr p [symmetric] this m(2)] show ?thesis using Inr p m(1) by simp
  qed (use m(1) in simp)
next
  case (4 n step k ks s)
  have "walk n step k s \<noteq> Inl OutOfFuel" using 4(3) by auto
  note same = 4(1) [OF this 4(4)]
  show ?case
  proof (cases "walk n step k s")
    case (Inr t)
    have "walk_all n step ks t \<noteq> Inl OutOfFuel" using 4(3) Inr by simp
    from 4(2) [OF Inr this 4(4)] show ?thesis using Inr same by simp
  qed (use same in simp)
qed simp_all

text \<open>The induction of a walk with one step function.\<close>

lemma walk_induct [case_names zero step nil cons]:
  assumes "\<And>k s. P 0 k s"
    and "\<And>n k s. (\<And>ks s'. step k s = Inr (ks, s') \<Longrightarrow> Q n ks s') \<Longrightarrow> P (Suc n) k s"
    and "\<And>n s. Q n [] s"
    and "\<And>n k ks s. P n k s \<Longrightarrow> (\<And>s'. walk n step k s = Inr s' \<Longrightarrow> Q n ks s') \<Longrightarrow> Q n (k # ks) s"
  shows "P n k s" "Q n ks s"
proof -
  have "(step' = step \<longrightarrow> P n k s) \<and> (step'' = step \<longrightarrow> Q m ks t)" for step' step'' m t
    by (rule conjI; rule walk_walk_all.induct
        [where P = "\<lambda>n st k s. st = step \<longrightarrow> P n k s" and Q = "\<lambda>n st ks s. st = step \<longrightarrow> Q n ks s"])
      (use assms in auto)
  then show "P n k s" "Q n ks s" by blast+
qed

text \<open>What every step keeps holds at the end; R restricts the keys that are met.\<close>

lemma walk_keeps:
  fixes step :: "'k \<Rightarrow> 's \<Rightarrow> 'e + 'k list \<times> 's"
  assumes "\<And>k s ks s'. step k s = Inr (ks, s') \<Longrightarrow> R k \<Longrightarrow> I s \<Longrightarrow> I s' \<and> (\<forall>k'\<in>set ks. R k')"
  shows "walk n step k s = Inr s' \<Longrightarrow> R k \<Longrightarrow> I s \<Longrightarrow> I s'"
    "walk_all n step ks s = Inr s' \<Longrightarrow> \<forall>k\<in>set ks. R k \<Longrightarrow> I s \<Longrightarrow> I s'"
proof (induction n k s and n ks s arbitrary: s' and s' rule: walk_induct [where step = step])
  case (step n k s)
  then show ?case using assms [of k s] by (auto split: sum.splits)
qed (auto split: sum.splits)

section \<open>Walks that mark what they enter\<close>

locale marked_walk =
  fixes step :: "'k \<Rightarrow> 's \<Rightarrow> 'e + 'k list \<times> 's"
    and marks :: "'s \<Rightarrow> 'm set"
    and universe :: "'m set"
  assumes marks_grow: "step k s = Inr (ks, s') \<Longrightarrow> marks s \<subseteq> marks s'"
    and marks_new: "step k s = Inr (ks, s') \<Longrightarrow> ks \<noteq> [] \<Longrightarrow> \<exists>m\<in>universe. m \<notin> marks s \<and> m \<in> marks s'"
begin

lemma walk_grows:
  "walk n step k s = Inr s' \<Longrightarrow> marks s \<subseteq> marks s'"
  "walk_all n step ks s = Inr s' \<Longrightarrow> marks s \<subseteq> marks s'"
  using walk_keeps [of step "\<lambda>_. True" "\<lambda>t. marks s \<subseteq> marks t"] marks_grow by blast+

text \<open>The universe has to be finite only where a bound is asked for.\<close>

lemma fuel_enough:
  "finite universe \<Longrightarrow> card (universe - marks s) < n \<Longrightarrow> walk n step k s \<noteq> Inl OutOfFuel"
  "finite universe \<Longrightarrow> card (universe - marks s) < n \<Longrightarrow> walk_all n step ks s \<noteq> Inl OutOfFuel"
proof (induction n k s and n ks s rule: walk_induct [where step = step])
  case (step n k s)
  have "walk_all n step ks t \<noteq> Inl OutOfFuel" if t: "step k s = Inr (ks, t)" for ks t
  proof (cases "ks = []")
    case False
    then obtain m where "m \<in> universe" "m \<notin> marks s" "m \<in> marks t" using marks_new [OF t] by blast
    then have "card (universe - marks t) < card (universe - marks s)"
      using marks_grow [OF t] step(2) by (intro psubset_card_mono) auto
    then show ?thesis using step(1) [OF t step(2)] step(3) by simp
  qed simp
  then show ?case by (auto split: sum.splits)
next
  case (cons n k ks s)
  have "walk_all n step ks t \<noteq> Inl OutOfFuel" if t: "walk n step k s = Inr t" for t
  proof -
    have "card (universe - marks t) \<le> card (universe - marks s)"
      using walk_grows(1) [OF t] cons(3) by (intro card_mono) auto
    then show ?thesis using cons(2) [OF t cons(3)] cons(4) by simp
  qed
  then show ?case using cons(1) [OF cons(3,4)] by (auto split: sum.splits)
qed auto

lemma walk_terminates:
  assumes "finite universe" "card (universe - marks s) < n"
  shows "walk n step k s \<noteq> Inl OutOfFuel \<and> (\<forall>m\<ge>n. walk m step k s = walk n step k s)"
  by (intro conjI allI impI walk_more(1) fuel_enough(1) assms)

lemma walk_all_terminates:
  assumes "finite universe" "card (universe - marks s) < n"
  shows "walk_all n step ks s \<noteq> Inl OutOfFuel \<and> (\<forall>m\<ge>n. walk_all m step ks s = walk_all n step ks s)"
  by (intro conjI allI impI walk_more(2) fuel_enough(2) assms)

end

text \<open>A step that marks the key it is given, once, and descends into its successors.\<close>

locale graph_walk =
  fixes step :: "'k \<Rightarrow> 's \<Rightarrow> 'e + 'k list \<times> 's"
    and marks :: "'s \<Rightarrow> 'k set"
    and nodes :: "'k set"
    and succs :: "'k \<Rightarrow> 'k set"
  assumes visit: "step k s = Inr (ks, s') \<Longrightarrow>
      k \<in> marks s \<and> ks = [] \<and> marks s' = marks s \<or>
      k \<notin> marks s \<and> k \<in> nodes \<and> set ks = succs k \<and> marks s' = insert k (marks s)"
begin

abbreviation edges :: "('k \<times> 'k) set" where
  "edges \<equiv> {(k, k'). k' \<in> succs k}"

end

sublocale graph_walk \<subseteq> marked_walk step marks nodes
  by unfold_locales (use visit in blast)+

context graph_walk
begin

lemma walk_closed:
  "walk n step k s = Inr s' \<Longrightarrow> k \<in> marks s' \<and> (\<forall>m\<in>marks s' - marks s. succs m \<subseteq> marks s')"
  "walk_all n step ks s = Inr s' \<Longrightarrow> set ks \<subseteq> marks s' \<and> (\<forall>m\<in>marks s' - marks s. succs m \<subseteq> marks s')"
proof (induction n k s and n ks s arbitrary: s' and s' rule: walk_induct [where step = step])
  case (step n k s)
  then obtain ks t where t: "step k s = Inr (ks, t)" "walk_all n step ks t = Inr s'" by (auto split: sum.splits)
  have c: "set ks \<subseteq> marks s'" "\<forall>m\<in>marks s' - marks t. succs m \<subseteq> marks s'" using step(1) [OF t] by auto
  have g: "marks t \<subseteq> marks s'" by (rule walk_grows(2) [OF t(2)])
  show ?case
  proof (cases "k \<in> marks s")
    case True
    then have "marks s' = marks s" using visit [OF t(1)] t(2) by auto
    then show ?thesis using True by simp
  next
    case False
    then have m: "set ks = succs k" "marks t = insert k (marks s)" using visit [OF t(1)] by auto
    have "succs j \<subseteq> marks s'" if "j \<in> marks s' - marks s" for j
      using that c m by (cases "j = k") auto
    then show ?thesis using g m(2) by simp
  qed
next
  case (cons n k ks s)
  then obtain t where t: "walk n step k s = Inr t" "walk_all n step ks t = Inr s'" by (auto split: sum.splits)
  have c: "k \<in> marks t" "\<forall>m\<in>marks t - marks s. succs m \<subseteq> marks t" using cons(1) [OF t(1)] by auto
  have d: "set ks \<subseteq> marks s'" "\<forall>m\<in>marks s' - marks t. succs m \<subseteq> marks s'" using cons(2) [OF t] by auto
  have g: "marks t \<subseteq> marks s'" by (rule walk_grows(2) [OF t(2)])
  have "succs j \<subseteq> marks s'" if "j \<in> marks s' - marks s" for j
    using that c(2) d(2) g by (cases "j \<in> marks t") auto
  then show ?case using c(1) d(1) g by auto
qed auto

lemma walk_visits:
  assumes "walk n step k s = Inr s'" "marks s = {}"
  shows "marks s' = edges\<^sup>* `` {k}" "edges\<^sup>* `` {k} \<subseteq> nodes"
proof -
  have c: "k \<in> marks s'" "\<forall>m\<in>marks s'. succs m \<subseteq> marks s'" using walk_closed(1) [OF assms(1)] assms(2) by auto
  have "m \<in> marks s'" if "(k, m) \<in> edges\<^sup>*" for m
    using that by (induction rule: rtrancl_induct) (use c in auto)
  moreover have "marks s' \<subseteq> edges\<^sup>* `` {k} \<and> marks s' \<subseteq> nodes"
  proof (rule walk_keeps(1) [of step "\<lambda>j. (k, j) \<in> edges\<^sup>*" "\<lambda>t. marks t \<subseteq> edges\<^sup>* `` {k} \<and> marks t \<subseteq> nodes", OF _ assms(1)])
    fix j t ks t'
    assume "step j t = Inr (ks, t')" "(k, j) \<in> edges\<^sup>*" "marks t \<subseteq> edges\<^sup>* `` {k} \<and> marks t \<subseteq> nodes"
    note step = this
    have "\<forall>i\<in>succs j. (k, i) \<in> edges\<^sup>*" using step(2) by (meson CollectI case_prodI rtrancl_into_rtrancl)
    with visit [OF step(1)] step(2,3)
    show "(marks t' \<subseteq> edges\<^sup>* `` {k} \<and> marks t' \<subseteq> nodes) \<and> (\<forall>i\<in>set ks. (k, i) \<in> edges\<^sup>*)"
      by (elim disjE conjE) simp_all
  qed (use assms(2) in auto)
  ultimately show "marks s' = edges\<^sup>* `` {k}" "edges\<^sup>* `` {k} \<subseteq> nodes" by auto
qed

end

text \<open>A step that descends into the same successors whatever the state; what it finds out about a key is kept.\<close>

locale tree_walk =
  fixes step :: "'k \<Rightarrow> 's \<Rightarrow> 'e + 'k list \<times> 's"
    and succs :: "'k \<Rightarrow> 'k list"
    and known :: "'k \<Rightarrow> 's \<Rightarrow> bool"
  assumes enters: "step k s = Inr (ks, s') \<Longrightarrow> ks = succs k \<and> known k s'"
    and kept: "step j s = Inr (ks, s') \<Longrightarrow> known k s \<Longrightarrow> known k s'"
begin

abbreviation descends :: "('k \<times> 'k) set" where
  "descends \<equiv> {(k, k'). k' \<in> set (succs k)}"

lemma walk_kept: "walk_all n step ks s = Inr s' \<Longrightarrow> known k s \<Longrightarrow> known k s'"
  by (rule walk_keeps(2) [of step "\<lambda>_. True" "known k"]) (use kept in auto)

lemma walk_knows:
  "walk n step k s = Inr s' \<Longrightarrow> \<forall>j. (k, j) \<in> descends\<^sup>* \<longrightarrow> known j s'"
  "walk_all n step ks s = Inr s' \<Longrightarrow> \<forall>k\<in>set ks. \<forall>j. (k, j) \<in> descends\<^sup>* \<longrightarrow> known j s'"
proof (induction n k s and n ks s arbitrary: s' and s' rule: walk_induct [where step = step])
  case (step n k s)
  then obtain ks t where t: "step k s = Inr (ks, t)" "walk_all n step ks t = Inr s'" by (auto split: sum.splits)
  have k: "ks = succs k" "known k t" using enters [OF t(1)] by auto
  have below: "\<forall>i\<in>set ks. \<forall>j. (i, j) \<in> descends\<^sup>* \<longrightarrow> known j s'" by (rule step(1) [OF t])
  show ?case
  proof (intro allI impI)
    fix j assume "(k, j) \<in> descends\<^sup>*"
    then show "known j s'"
    proof (cases rule: converse_rtranclE)
      case (step i)
      then show ?thesis using below k(1) by auto
    qed (use walk_kept [OF t(2) k(2)] in simp)
  qed
next
  case (cons n k ks s)
  then obtain t where t: "walk n step k s = Inr t" "walk_all n step ks t = Inr s'" by (auto split: sum.splits)
  have "known j s'" if "(k, j) \<in> descends\<^sup>*" for j
    using walk_kept [OF t(2)] cons(1) [OF t(1)] that by blast
  then show ?case using cons(2) [OF t] by simp
qed auto

end

end
