(* ===== verification/Node_Manifests.thy ===== *)
theory Node_Manifests
  imports Restore_Compiler Graph_Walk
begin

text \<open>
  The manifests of one node and the identities of a whole content tree, as the aggregated API server reads
  them (\<open>usecase/per_cr_manifests.go\<close>, \<open>aggregated_namespace_manifests.go\<close>,
  \<open>subtree_manifest_identities.go\<close>, \<open>snapshot_content_graph.go\<close>).

  A status error keeps its HTTP code; its message is dropped. The objects collected so far and the sets of
  seen keys and visited contents are shared by all calls of a walk, so they are its state; what they hold
  after an error is never read.
\<close>

datatype read_err = ReadStatus nat | ReadFailed string | ReadPanic string

section \<open>Which content a snapshot has\<close>

record object_keeper =
  ok_name :: string
  ok_uid :: string
  ok_follow :: "subject_ref option"

text \<open>The two lists a lookup of a retained content makes.\<close>

record lists =
  ls_keepers :: "string + object_keeper list"
  ls_contents :: "string + snapshot_content list"

definition follows_snapshot :: "string \<Rightarrow> string \<Rightarrow> object_keeper \<Rightarrow> bool" where
  "follows_snapshot namespace snapshotName k =
     (case ok_follow k of
        None \<Rightarrow> False
      | Some ref \<Rightarrow> sr_apiVersion ref = storageGroupVersion \<and> sr_kind ref = ''Snapshot'' \<and> sr_namespace ref = namespace \<and>
          sr_name ref = snapshotName)"

definition controlled_by_keeper :: "object_keeper \<Rightarrow> snapshot_content \<Rightarrow> bool" where
  "controlled_by_keeper k content =
     list_ex (\<lambda>ref. or_apiVersion ref = ''deckhouse.io/v1alpha1'' \<and> or_kind ref = ''ObjectKeeper'' \<and> or_name ref = ok_name k \<and>
       or_uid ref = ok_uid k \<and> or_controller ref = Some True) (ct_owner_refs content)"

text \<open>The result None is the NotFound of the missing keeper.\<close>

definition retainedRootContentForSnapshot :: "lists \<Rightarrow> string \<Rightarrow> string \<Rightarrow> read_err + string option" where
  "retainedRootContentForSnapshot ls namespace snapshotName =
     (case ls_keepers ls of
        Inl x \<Rightarrow> Inl (ReadFailed x)
      | Inr keepers \<Rightarrow>
          (case List.find (follows_snapshot namespace snapshotName) keepers of
             None \<Rightarrow> Inr None
           | Some k \<Rightarrow>
               (case ls_contents ls of
                  Inl x \<Rightarrow> Inl (ReadFailed x)
                | Inr contents \<Rightarrow>
                    (case map ct_name (filter (controlled_by_keeper k) contents) of
                       [] \<Rightarrow> Inl (ReadStatus 404)
                     | [n] \<Rightarrow> Inr (Some n)
                     | _ \<Rightarrow> Inl (ReadStatus 409)))))"

definition resolveRootContentName :: "env \<Rightarrow> lists \<Rightarrow> string \<Rightarrow> string \<Rightarrow> read_err + string \<times> string \<times> bool" where
  "resolveRootContentName e ls namespace snapshotName =
     (case e_snapshot e storageGroupVersion ''Snapshot'' namespace snapshotName of
        Found s \<Rightarrow>
          if nval '''' (so_bound s) = '''' then Inl (ReadStatus 409)
          else Inr (nval '''' (so_bound s), so_uid s, True)
      | GetErr x \<Rightarrow> Inl (ReadFailed x)
      | NotFound \<Rightarrow>
          (case retainedRootContentForSnapshot ls namespace snapshotName of
             Inr (Some bound) \<Rightarrow> Inr (bound, '''', False)
           | Inl x \<Rightarrow> Inl x
           | Inr None \<Rightarrow> Inl (ReadStatus 404)))"

definition resolveContentNameFromSnapshot :: "env \<Rightarrow> gvk \<Rightarrow> string \<Rightarrow> string \<Rightarrow> read_err + string \<times> string" where
  "resolveContentNameFromSnapshot e snapshotGVK namespace snapshotName =
     (if snapshotName = '''' \<or> namespace = '''' \<or>
        (g_group snapshotGVK = '''' \<and> g_version snapshotGVK = '''' \<and> g_kind snapshotGVK = '''') then Inl (ReadStatus 400)
      else case e_snapshot e (gv_string e snapshotGVK) (g_kind snapshotGVK) namespace snapshotName of
        NotFound \<Rightarrow> Inl (ReadStatus 404)
      | GetErr x \<Rightarrow> Inl (ReadFailed x)
      | Found s \<Rightarrow>
          if so_bound s = NBadType then Inl (ReadStatus 500)
          else if nval '''' (so_bound s) = '''' then Inl (ReadStatus 400)
          else Inr (nval '''' (so_bound s), so_uid s))"

section \<open>The objects of a checkpoint\<close>

text \<open>The identity of a decoded object; None is the error of an incomplete one.\<close>

definition aggregatedObjectIdentityKey :: "json \<Rightarrow> string option" where
  "aggregatedObjectIdentityKey obj =
     (let apiVersion = jstring [''apiVersion''] obj; kind = jstring [''kind''] obj in
      case jpath [''metadata''] obj of
        Some (JMap m) \<Rightarrow>
          let name = jstring [''name''] (JMap m); ns = jstring [''namespace''] (JMap m) in
          if apiVersion = '''' \<or> kind = '''' \<or> name = '''' then None
          else Some (apiVersion @ ''|'' @ kind @ ''|'' @ (if ns = '''' then ''_cluster'' else ns) @ ''|'' @ name)
      | _ \<Rightarrow> None)"

definition classifyAggregatedArchiveError :: "archive_error \<Rightarrow> read_err" where
  "classifyAggregatedArchiveError x =
     (case x of NotReady \<Rightarrow> ReadStatus 409 | NilItemPanic c \<Rightarrow> ReadPanic c | _ \<Rightarrow> ReadStatus 500)"

fun append_objects :: "json list \<Rightarrow> json list \<Rightarrow> string set \<Rightarrow> read_err + json list \<times> string set" where
  "append_objects [] objects seenKeys = Inr (objects, seenKeys)"
| "append_objects (obj # arr) objects seenKeys =
     (case aggregatedObjectIdentityKey obj of
        None \<Rightarrow> Inl (ReadStatus 500)
      | Some key \<Rightarrow>
          if key \<in> seenKeys then Inl (ReadStatus 409)
          else append_objects arr (objects @ [obj]) (insert key seenKeys))"

definition appendObjectsFromManifestCheckpoint ::
  "('t, 'g, 'd) manifest_source \<Rightarrow> string \<Rightarrow> json list \<Rightarrow> string set \<Rightarrow> read_err + json list \<times> string set" where
  "appendObjectsFromManifestCheckpoint ms mcpName objects seenKeys =
     (case ms_checkpoint ms mcpName of
        NotFound \<Rightarrow> Inl (ReadStatus 404)
      | GetErr x \<Rightarrow> Inl (ReadFailed x)
      | Found mcp \<Rightarrow>
          (case archive_of ms mcp mcpName of
             Inl x \<Rightarrow> Inl (classifyAggregatedArchiveError x)
           | Inr raw \<Rightarrow>
               (case unmarshal_objects (ms_codec ms) raw of
                  None \<Rightarrow> Inl (ReadStatus 500)
                | Some arr \<Rightarrow> append_objects arr objects seenKeys)))"

section \<open>One node\<close>

definition buildSingleNodeJSONFromContentObject :: "('t, 'g, 'd) manifest_source \<Rightarrow> snapshot_content \<Rightarrow> read_err + 't" where
  "buildSingleNodeJSONFromContentObject ms content =
     (let mcpName = nval '''' (ct_mcp_name content) in
      if mcpName = '''' then Inl (ReadStatus 409)
      else case appendObjectsFromManifestCheckpoint ms mcpName [] {} of
        Inl x \<Rightarrow> Inl x
      | Inr (objects, _) \<Rightarrow>
          (case cd_encode (ms_codec ms) (JList objects) of None \<Rightarrow> Inl (ReadStatus 500) | Some out \<Rightarrow> Inr out))"

definition get_content :: "env \<Rightarrow> string \<Rightarrow> read_err + snapshot_content" where
  "get_content e contentName =
     (case e_content e contentName of
        NotFound \<Rightarrow> Inl (ReadStatus 404) | GetErr x \<Rightarrow> Inl (ReadFailed x) | Found content \<Rightarrow> Inr content)"

definition BuildSingleNodeJSON :: "('t, 'g, 'd) manifest_source \<Rightarrow> string \<Rightarrow> read_err + 't" where
  "BuildSingleNodeJSON ms contentName =
     (if contentName = '''' then Inl (ReadStatus 400)
      else case get_content (ms_env ms) contentName of
        Inl x \<Rightarrow> Inl x | Inr content \<Rightarrow> buildSingleNodeJSONFromContentObject ms content)"

definition owned_node :: "('t, 'g, 'd) manifest_source \<Rightarrow> string \<Rightarrow> string \<Rightarrow> string \<Rightarrow> string \<Rightarrow> string \<Rightarrow> string \<Rightarrow> read_err + 't" where
  "owned_node ms contentName apiVersion kind namespace snapshotName snapshotUID =
     (case get_content (ms_env ms) contentName of
        Inl x \<Rightarrow> Inl x
      | Inr content \<Rightarrow>
          if verifyContentSnapshotRef (ct_snapshot_ref content) apiVersion kind namespace snapshotName snapshotUID \<noteq> None
          then Inl (ReadStatus 403)
          else buildSingleNodeJSONFromContentObject ms content)"

definition BuildSingleNodeJSONForRootSnapshot ::
  "('t, 'g, 'd) manifest_source \<Rightarrow> lists \<Rightarrow> string \<Rightarrow> string \<Rightarrow> read_err + 't" where
  "BuildSingleNodeJSONForRootSnapshot ms ls namespace snapshotName =
     (case resolveRootContentName (ms_env ms) ls namespace snapshotName of
        Inl x \<Rightarrow> Inl x
      | Inr (rootContent, snapshotUID, fromLiveCR) \<Rightarrow>
          if \<not> fromLiveCR then BuildSingleNodeJSON ms rootContent
          else owned_node ms rootContent storageGroupVersion ''Snapshot'' namespace snapshotName snapshotUID)"

definition BuildSingleNodeJSONFromSnapshot ::
  "('t, 'g, 'd) manifest_source \<Rightarrow> gvk \<Rightarrow> string \<Rightarrow> string \<Rightarrow> read_err + 't" where
  "BuildSingleNodeJSONFromSnapshot ms snapshotGVK namespace snapshotName =
     (case resolveContentNameFromSnapshot (ms_env ms) snapshotGVK namespace snapshotName of
        Inl x \<Rightarrow> Inl x
      | Inr (contentName, snapshotUID) \<Rightarrow>
          owned_node ms contentName (gv_string (ms_env ms) snapshotGVK) (g_kind snapshotGVK) namespace snapshotName snapshotUID)"

section \<open>The content tree\<close>

definition content_children :: "snapshot_content \<Rightarrow> string list" where
  "content_children content = List.map_filter id (nval [] (ct_edges content))"

text \<open>\<open>WalkSnapshotContentSubtree\<close>: a content that is met again is an error; children in the order of their names.\<close>

datatype 'e graph_err = GraphCycle string | GraphNotFound string | GraphErr string | VisitErr 'e

definition graph_step ::
  "env \<Rightarrow> (snapshot_content \<Rightarrow> 's \<Rightarrow> 'e + 's) \<Rightarrow> string \<Rightarrow> string set \<times> 's \<Rightarrow> 'e graph_err + string list \<times> string set \<times> 's" where
  "graph_step e visit contentName st =
     (case st of (visited, s) \<Rightarrow>
      if contentName \<in> visited then Inl (GraphCycle contentName)
      else case e_content e contentName of
        NotFound \<Rightarrow> Inl (GraphNotFound contentName)
      | GetErr x \<Rightarrow> Inl (GraphErr x)
      | Found content \<Rightarrow>
          (case visit content s of
             Inl x \<Rightarrow> Inl (VisitErr x)
           | Inr s' \<Rightarrow> Inr (filter (\<lambda>n. n \<noteq> '''') (sort_strings (content_children content)), insert contentName visited, s')))"

definition WalkSnapshotContentSubtree ::
  "nat \<Rightarrow> env \<Rightarrow> string \<Rightarrow> (snapshot_content \<Rightarrow> 's \<Rightarrow> 'e + 's) \<Rightarrow> 's \<Rightarrow> 'e graph_err stop + 's" where
  "WalkSnapshotContentSubtree fuel e rootContentName visit s =
     (case walk fuel (graph_step e visit) rootContentName ({}, s) of Inl x \<Rightarrow> Inl x | Inr (_, s') \<Rightarrow> Inr s')"

text \<open>\<open>collectSubtreeObjects\<close>: a content that is met again adds nothing.\<close>

record collected =
  cl_objects :: "json list"
  cl_seen :: "string set"
  cl_visited :: "string set"

definition collect_node ::
  "('t, 'g, 'd) manifest_source \<Rightarrow> string \<Rightarrow> collected \<Rightarrow> read_err + string list \<times> collected" where
  "collect_node ms contentName s =
     (if contentName = '''' then Inl (ReadStatus 409)
      else if contentName \<in> cl_visited s then Inr ([], s)
      else case get_content (ms_env ms) contentName of
        Inl x \<Rightarrow> Inl x
      | Inr content \<Rightarrow>
          let mcpName = nval '''' (ct_mcp_name content) in
          if mcpName = '''' then Inl (ReadStatus 409)
          else (case appendObjectsFromManifestCheckpoint ms mcpName (cl_objects s) (cl_seen s) of
             Inl x \<Rightarrow> Inl x
           | Inr (objects, seenKeys) \<Rightarrow>
               Inr (content_children content,
                 \<lparr>cl_objects = objects, cl_seen = seenKeys, cl_visited = insert contentName (cl_visited s)\<rparr>)))"

definition collectSubtreeObjects ::
  "nat \<Rightarrow> ('t, 'g, 'd) manifest_source \<Rightarrow> string \<Rightarrow> collected \<Rightarrow> read_err stop + collected" where
  "collectSubtreeObjects fuel ms contentName s = walk fuel (collect_node ms) contentName s"

record identity =
  id_apiVersion :: string
  id_kind :: string
  id_namespace :: string
  id_name :: string
  id_uid :: string

definition subtreeManifestIdentityFrom :: "json \<Rightarrow> identity option" where
  "subtreeManifestIdentityFrom obj =
     (let apiVersion = jstring [''apiVersion''] obj; kind = jstring [''kind''] obj in
      case jpath [''metadata''] obj of
        Some (JMap m) \<Rightarrow>
          let name = jstring [''name''] (JMap m) in
          if apiVersion = '''' \<or> kind = '''' \<or> name = '''' then None
          else Some \<lparr>id_apiVersion = apiVersion, id_kind = kind, id_namespace = jstring [''namespace''] (JMap m),
            id_name = name, id_uid = jstring [''uid''] (JMap m)\<rparr>
      | _ \<Rightarrow> None)"

fun identities_of :: "json list \<Rightarrow> read_err + identity list" where
  "identities_of [] = Inr []"
| "identities_of (obj # objects) =
     (case subtreeManifestIdentityFrom obj of
        None \<Rightarrow> Inl (ReadStatus 500)
      | Some i \<Rightarrow> (case identities_of objects of Inl x \<Rightarrow> Inl x | Inr is \<Rightarrow> Inr (i # is)))"

definition no_objects :: collected where
  "no_objects = \<lparr>cl_objects = [], cl_seen = {}, cl_visited = {}\<rparr>"

definition BuildSubtreeManifestIdentities ::
  "nat \<Rightarrow> ('t, 'g, 'd) manifest_source \<Rightarrow> string \<Rightarrow> read_err stop + identity list" where
  "BuildSubtreeManifestIdentities fuel ms contentName =
     (if contentName = '''' then Inl (Stopped (ReadStatus 400))
      else case collectSubtreeObjects fuel ms contentName no_objects of
        Inl x \<Rightarrow> Inl x
      | Inr s \<Rightarrow> (case identities_of (cl_objects s) of Inl x \<Rightarrow> Inl (Stopped x) | Inr is \<Rightarrow> Inr is))"

section \<open>The registry of a request\<close>

text \<open>A live reader: what it holds, what a refresh returns, and what it holds afterwards.\<close>

datatype refresh = Refreshed | RefreshNotConfigured | RefreshFailed string

record registry_reader =
  rr_current :: "registry option"
  rr_refresh :: refresh
  rr_refreshed :: "registry option"

definition currentAggregatedRegistry :: "registry_reader option \<Rightarrow> read_err + registry" where
  "currentAggregatedRegistry graphLive =
     (case graphLive of
        None \<Rightarrow> Inl (ReadStatus 503)
      | Some live \<Rightarrow>
          (case rr_current live of
             Some reg \<Rightarrow> Inr reg
           | None \<Rightarrow>
               (case rr_refresh live of
                  RefreshFailed x \<Rightarrow> Inl (ReadFailed x)
                | _ \<Rightarrow> (case rr_refreshed live of None \<Rightarrow> Inl (ReadStatus 503) | Some reg \<Rightarrow> Inr reg))))"

definition IsRegisteredSnapshotGVK :: "registry_reader option \<Rightarrow> gvk \<Rightarrow> read_err + bool" where
  "IsRegisteredSnapshotGVK graphLive snapshotGVK =
     (if g_group snapshotGVK = '''' \<and> g_version snapshotGVK = '''' \<and> g_kind snapshotGVK = '''' then Inr False
      else case currentAggregatedRegistry graphLive of Inl x \<Rightarrow> Inl x | Inr reg \<Rightarrow> Inr (HasSnapshotGVK snapshotGVK reg))"

end
