(* ===== verification/Pvc_Coverage.thy ===== *)
theory Pvc_Coverage
  imports Volume_Capture Node_Manifests
begin

text \<open>
  Which claims and which manifests are left to the root of a run (\<open>usecase/volumecapture\<close>,
  \<open>usecase/root_capture_run_exclude.go\<close>): the uids covered by the descendants, through the snapshots or
  through the contents, the residual claims, and the targets of the root's capture request.

  The code keeps the covered uids and, for its error, the node each is covered by; the two maps have the
  same keys, so the second is the state here. A nil test for data-bearing kinds is None.
\<close>

datatype cover_err = CoverCycle string | CoverMissing string | CoverPending string | CoverDuplicate string | CoverFailed string

type_synonym coverage = "string \<rightharpoonup> string"

record claim_item =
  cm_uid :: string
  cm_name :: string
  cm_namespace :: string
  cm_labels :: "string \<rightharpoonup> string"

type_synonym claim_list = "string \<Rightarrow> string + claim_item list"

section \<open>What a node covers\<close>

text \<open>The typed client has decoded \<open>data\<close>; it is at most one binding.\<close>

definition pvcUIDsFromSnapshotContentDataRefs :: "snapshot_content \<Rightarrow> cover_err + string list" where
  "pvcUIDsFromSnapshotContentDataRefs content =
     (let uids = map (\<lambda>b. sr_uid (SourceRef b)) (GetStatusDataRefs content) in
      if '''' \<in> set uids then Inl (CoverFailed ''empty source uid'') else Inr uids)"

definition pvcUIDsFromNamedVCR :: "env \<Rightarrow> string \<Rightarrow> string \<Rightarrow> cover_err + string list" where
  "pvcUIDsFromNamedVCR e namespace name =
     (if name = '''' then Inr []
      else case e_vcr e namespace name of
        NotFound \<Rightarrow> Inr []
      | GetErr x \<Rightarrow> Inl (CoverFailed x)
      | Found vcr \<Rightarrow>
          (case ParseVolumeCaptureTargets vcr of
             Inl _ \<Rightarrow> Inl (CoverFailed ''spec.target'')
           | Inr targets \<Rightarrow> Inr (filter (\<lambda>uid. uid \<noteq> '''') (map tg_uid targets))))"

definition coveredPVCUIDsFromOwnerObject :: "env \<Rightarrow> string \<Rightarrow> snapshot_obj \<Rightarrow> cover_err + string list" where
  "coveredPVCUIDsFromOwnerObject e namespace owner =
     (let ownerNS = (if so_namespace owner = '''' then namespace else so_namespace owner);
          vcrName = nval '''' (so_vcr_name owner) in
      if vcrName \<noteq> '''' then pvcUIDsFromNamedVCR e ownerNS vcrName
      else if gv_string e (so_gvk owner) = CSISnapshotAPIVersion \<and> g_kind (so_gvk owner) = KindVolumeSnapshot \<and>
         sr_uid (so_source_ref owner) \<noteq> '''' then Inr [sr_uid (so_source_ref owner)]
      else Inr [])"

definition coveredPVCUIDsForSnapshotNode :: "env \<Rightarrow> string \<Rightarrow> snapshot_obj \<Rightarrow> string \<Rightarrow> cover_err + string list \<times> string" where
  "coveredPVCUIDsForSnapshotNode e namespace node nodeKey =
     (if so_bound node = NBadType then Inl (CoverFailed ''status.boundSnapshotContentName'')
      else
        let contentName = nval '''' (so_bound node);
            ownerLabel = (if contentName = '''' then ''Snapshot '' @ nodeKey else ''SnapshotContent '' @ contentName);
            owner = (case coveredPVCUIDsFromOwnerObject e namespace node of
                Inl x \<Rightarrow> Inl x
              | Inr fromOwner \<Rightarrow> if fromOwner \<noteq> [] then Inr (fromOwner, ownerLabel) else Inl (CoverPending nodeKey)) in
        if contentName = '''' then owner
        else case e_content e contentName of
          NotFound \<Rightarrow> Inl (CoverMissing contentName)
        | GetErr x \<Rightarrow> Inl (CoverFailed x)
        | Found content \<Rightarrow>
            (case pvcUIDsFromSnapshotContentDataRefs content of
               Inl x \<Rightarrow> Inl x
             | Inr fromData \<Rightarrow> if fromData \<noteq> [] then Inr (fromData, ownerLabel) else owner))"

text \<open>The loop that claims uids for a node; a uid of another node is an error.\<close>

fun claim_uids :: "string list \<Rightarrow> string \<Rightarrow> coverage \<Rightarrow> cover_err + coverage" where
  "claim_uids [] label uidOwner = Inr uidOwner"
| "claim_uids (uid # uids) label uidOwner =
     (if uid = '''' then claim_uids uids label uidOwner
      else case uidOwner uid of
        Some prev \<Rightarrow> Inl (CoverDuplicate uid)
      | None \<Rightarrow> claim_uids uids label (uidOwner(uid \<mapsto> label)))"

definition data_bearing :: "(string \<Rightarrow> bool) option \<Rightarrow> string \<Rightarrow> bool" where
  "data_bearing dataBearing kind = (case dataBearing of None \<Rightarrow> False | Some p \<Rightarrow> p kind)"

definition addCoverageFromChildBoundContent ::
  "env \<Rightarrow> string \<Rightarrow> (string \<Rightarrow> bool) option \<Rightarrow> snapshot_obj \<Rightarrow> string \<Rightarrow> coverage \<Rightarrow> cover_err + coverage" where
  "addCoverageFromChildBoundContent e namespace dataBearing child childKey uidOwner =
     (if \<not> data_bearing dataBearing (g_kind (so_gvk child)) then Inr uidOwner
      else case coveredPVCUIDsForSnapshotNode e namespace child childKey of
        Inl x \<Rightarrow> Inl x
      | Inr (uids, ownerLabel) \<Rightarrow> claim_uids uids ownerLabel uidOwner)"

section \<open>The walk over the snapshots\<close>

text \<open>Children are sorted by their names; the order of two with the same name is unspecified in the code.\<close>

definition name_less :: "snapshot_child_ref \<Rightarrow> snapshot_child_ref \<Rightarrow> bool" where
  "name_less a b = (cr_name a < cr_name b)"

interpretation name_order: slice_weak_order name_less
  by unfold_locales (auto simp: name_less_def)

definition ref_key :: "snapshot_child_ref \<Rightarrow> string" where
  "ref_key ref = cr_apiVersion ref @ ''/'' @ cr_kind ref @ ''/'' @ cr_name ref"

definition childSnapshotChildRefs :: "snapshot_obj \<Rightarrow> cover_err + snapshot_child_ref list" where
  "childSnapshotChildRefs obj =
     (if so_children obj = NBadType then Inl (CoverFailed ''status.childrenSnapshotRefs'')
      else Inr (List.map_filter id (nval [] (so_children obj))))"

definition cover_ref ::
  "env \<Rightarrow> string \<Rightarrow> (string \<Rightarrow> bool) option \<Rightarrow> snapshot_child_ref \<Rightarrow> string set \<times> coverage \<Rightarrow>
   cover_err + snapshot_child_ref list \<times> string set \<times> coverage" where
  "cover_ref e namespace dataBearing ref st =
     (case st of (visited, uidOwner) \<Rightarrow>
      if cr_name ref = '''' then Inr ([], visited, uidOwner)
      else if ref_key ref \<in> visited then Inl (CoverCycle (ref_key ref))
      else case e_snapshot e (cr_apiVersion ref) (cr_kind ref) namespace (cr_name ref) of
        NotFound \<Rightarrow>
          if isVolumeSnapshotLeaf ref then Inr ([], insert (ref_key ref) visited, uidOwner) else Inl (CoverMissing (ref_key ref))
      | GetErr x \<Rightarrow> Inl (CoverFailed x)
      | Found child \<Rightarrow>
          (case addCoverageFromChildBoundContent e namespace dataBearing child (ref_key ref) uidOwner of
             Inl x \<Rightarrow> Inl x
           | Inr uidOwner \<Rightarrow>
               (case childSnapshotChildRefs child of
                  Inl x \<Rightarrow> Inl x
                | Inr grandRefs \<Rightarrow> Inr (sort_slice name_less grandRefs, insert (ref_key ref) visited, uidOwner))))"

definition walkSnapshotChildRefsForCoverage ::
  "nat \<Rightarrow> env \<Rightarrow> string \<Rightarrow> (string \<Rightarrow> bool) option \<Rightarrow> snapshot_child_ref list \<Rightarrow> string set \<times> coverage \<Rightarrow>
   cover_err stop + string set \<times> coverage" where
  "walkSnapshotChildRefsForCoverage fuel e namespace dataBearing refs st =
     walk_all fuel (cover_ref e namespace dataBearing) (sort_slice name_less refs) st"

definition CollectSubtreeCoveredPVCUIDsFromSnapshot ::
  "nat \<Rightarrow> env \<Rightarrow> (string \<Rightarrow> bool) option \<Rightarrow> snapshot_obj \<Rightarrow> cover_err stop + coverage" where
  "CollectSubtreeCoveredPVCUIDsFromSnapshot fuel e dataBearing snap =
     (if so_namespace snap = '''' then Inl (Stopped (CoverFailed ''namespace is required''))
      else case walkSnapshotChildRefsForCoverage fuel e (so_namespace snap) dataBearing
          (List.map_filter id (nval [] (so_children snap))) ({}, Map.empty) of
        Inl x \<Rightarrow> Inl x
      | Inr (_, uidOwner) \<Rightarrow> Inr uidOwner)"

section \<open>The walk over the contents\<close>

definition coveredPVCUIDsForContent ::
  "env \<Rightarrow> string \<Rightarrow> (string \<Rightarrow> bool) option \<Rightarrow> snapshot_content \<Rightarrow> cover_err + string list" where
  "coveredPVCUIDsForContent e namespace dataBearing content =
     (let ref = ct_snapshot_ref content in
      if \<not> data_bearing dataBearing (sr_kind ref) then Inr []
      else case pvcUIDsFromSnapshotContentDataRefs content of
        Inl x \<Rightarrow> Inl x
      | Inr fromDataRefs \<Rightarrow>
          if fromDataRefs \<noteq> [] then Inr fromDataRefs
          else if sr_name ref = '''' then Inl (CoverPending (ct_name content))
          else let ownerNS = (if sr_namespace ref = '''' then namespace else sr_namespace ref) in
            (case e_snapshot e (sr_apiVersion ref) (sr_kind ref) ownerNS (sr_name ref) of
               GetErr x \<Rightarrow> Inl (CoverFailed x)
             | NotFound \<Rightarrow> Inl (CoverPending (ct_name content))
             | Found owner \<Rightarrow>
                 (case coveredPVCUIDsFromOwnerObject e ownerNS owner of
                    Inl x \<Rightarrow> Inl x
                  | Inr fromOwner \<Rightarrow> if fromOwner \<noteq> [] then Inr fromOwner else Inl (CoverPending (ct_name content)))))"

definition cover_content ::
  "env \<Rightarrow> string \<Rightarrow> (string \<Rightarrow> bool) option \<Rightarrow> string \<Rightarrow> snapshot_content \<Rightarrow> coverage \<Rightarrow> cover_err + coverage" where
  "cover_content e namespace dataBearing rootName content uidOwner =
     (if ct_name content = rootName then Inr uidOwner
      else case coveredPVCUIDsForContent e namespace dataBearing content of
        Inl x \<Rightarrow> Inl x
      | Inr uids \<Rightarrow> claim_uids uids (ct_name content) uidOwner)"

text \<open>The package has its own copy of the walk over the contents, to avoid an import cycle.\<close>

definition walkSnapshotContentSubtree ::
  "nat \<Rightarrow> env \<Rightarrow> string \<Rightarrow> (snapshot_content \<Rightarrow> 's \<Rightarrow> 'e + 's) \<Rightarrow> 's \<Rightarrow> 'e graph_err stop + 's" where
  "walkSnapshotContentSubtree fuel e rootContentName visit s =
     (case walk fuel (graph_step e visit) rootContentName ({}, s) of Inl x \<Rightarrow> Inl x | Inr (_, s') \<Rightarrow> Inr s')"

definition CollectSubtreeCoveredPVCUIDs ::
  "nat \<Rightarrow> env \<Rightarrow> string \<Rightarrow> (string \<Rightarrow> bool) option \<Rightarrow> snapshot_content \<Rightarrow> cover_err graph_err stop + coverage" where
  "CollectSubtreeCoveredPVCUIDs fuel e namespace dataBearing rootContent =
     (if namespace = '''' then Inl (Stopped (VisitErr (CoverFailed ''namespace is required'')))
      else walkSnapshotContentSubtree fuel e (ct_name rootContent)
        (cover_content e namespace dataBearing (ct_name rootContent)) Map.empty)"

section \<open>The residual claims\<close>

abbreviation "ExcludeLabelKey \<equiv> ''state-snapshotter.deckhouse.io/exclude''"

definition ExcludeVetoSelector :: "(string \<rightharpoonup> string) \<Rightarrow> bool" where
  "ExcludeVetoSelector labels = (labels ExcludeLabelKey = None)"

definition uid_less :: "capture_target \<Rightarrow> capture_target \<Rightarrow> bool" where
  "uid_less a b = (tg_uid a < tg_uid b)"

definition candidate_less :: "capture_target \<Rightarrow> capture_target \<Rightarrow> bool" where
  "candidate_less a b = (if tg_uid a \<noteq> tg_uid b then tg_uid a < tg_uid b else tg_name a < tg_name b)"

interpretation uid_order: slice_weak_order uid_less
  by unfold_locales (auto simp: uid_less_def)

interpretation candidate_order: slice_weak_order candidate_less
  by unfold_locales (auto simp: candidate_less_def split: if_splits)

definition claim_target :: "claim_item \<Rightarrow> capture_target" where
  "claim_target pvc = \<lparr>tg_uid = cm_uid pvc, tg_apiVersion = ''v1'', tg_kind = ''PersistentVolumeClaim'', tg_name = cm_name pvc,
     tg_namespace = cm_namespace pvc\<rparr>"

text \<open>The labels are found by uid, the last claim of the list winning.\<close>

definition listNamespacePVCTargetsWithLabels ::
  "claim_list \<Rightarrow> string \<Rightarrow> cover_err + capture_target list \<times> (string \<Rightarrow> string \<rightharpoonup> string)" where
  "listNamespacePVCTargetsWithLabels claims namespace =
     (if namespace = '''' then Inl (CoverFailed ''namespace is required to list PVC candidates'')
      else case claims namespace of
        Inl x \<Rightarrow> Inl (CoverFailed x)
      | Inr items \<Rightarrow>
          if list_ex (\<lambda>pvc. cm_uid pvc = '''') items then Inl (CoverFailed ''PVC has empty uid'')
          else Inr (sort_slice candidate_less (map claim_target items),
            \<lambda>uid. case map_of (rev (map (\<lambda>pvc. (cm_uid pvc, cm_labels pvc)) items)) uid of
              None \<Rightarrow> Map.empty | Some labels \<Rightarrow> labels))"

definition filterPVCTargetsBySelector ::
  "((string \<rightharpoonup> string) \<Rightarrow> bool) option \<Rightarrow> capture_target list \<Rightarrow> (string \<Rightarrow> string \<rightharpoonup> string) \<Rightarrow> capture_target list" where
  "filterPVCTargetsBySelector selector candidates labelsByUID =
     (case selector of
        None \<Rightarrow> candidates
      | Some matches \<Rightarrow> filter (\<lambda>t. matches (labelsByUID (tg_uid t))) candidates)"

definition residualPVCTargets :: "capture_target list \<Rightarrow> coverage \<Rightarrow> capture_target list" where
  "residualPVCTargets candidates covered = filter (\<lambda>t. covered (tg_uid t) = None) candidates"

definition listResidualRootOwnedPVCTargets ::
  "nat \<Rightarrow> env \<Rightarrow> claim_list \<Rightarrow> (string \<Rightarrow> bool) option \<Rightarrow> string \<Rightarrow> snapshot_obj \<Rightarrow> cover_err stop + capture_target list" where
  "listResidualRootOwnedPVCTargets fuel e claims dataBearing namespace snap =
     (case CollectSubtreeCoveredPVCUIDsFromSnapshot fuel e dataBearing snap of
        Inl x \<Rightarrow> Inl x
      | Inr covered \<Rightarrow>
          (case listNamespacePVCTargetsWithLabels claims namespace of
             Inl x \<Rightarrow> Inl (Stopped x)
           | Inr (candidates, labelsByUID) \<Rightarrow>
               Inr (residualPVCTargets (filterPVCTargetsBySelector (Some ExcludeVetoSelector) candidates labelsByUID) covered)))"

definition IsResidualRootPVCCaptureScope :: "snapshot_obj \<Rightarrow> bool" where
  "IsResidualRootPVCCaptureScope snap = (if nval [] (so_children snap) \<noteq> [] then True else so_name snap \<noteq> '''')"

definition volumeTargetForPVCUID :: "claim_list \<Rightarrow> string \<Rightarrow> string \<Rightarrow> cover_err + capture_target option" where
  "volumeTargetForPVCUID claims namespace uid =
     (if uid = '''' then Inr None
      else case claims namespace of
        Inl x \<Rightarrow> Inl (CoverFailed x)
      | Inr items \<Rightarrow> Inr (map_option claim_target (List.find (\<lambda>pvc. cm_uid pvc = uid) items)))"

fun volume_targets :: "claim_list \<Rightarrow> string \<Rightarrow> string list \<Rightarrow> cover_err + capture_target list" where
  "volume_targets claims namespace [] = Inr []"
| "volume_targets claims namespace (uid # uids) =
     (case volumeTargetForPVCUID claims namespace uid of
        Inl x \<Rightarrow> Inl x
      | Inr t \<Rightarrow> (case volume_targets claims namespace uids of
          Inl x \<Rightarrow> Inl x
        | Inr ts \<Rightarrow> Inr (case t of None \<Rightarrow> ts | Some t \<Rightarrow> t # ts)))"

definition volumeTargetsFromContentDataRefs :: "claim_list \<Rightarrow> string \<Rightarrow> snapshot_content \<Rightarrow> cover_err + capture_target list" where
  "volumeTargetsFromContentDataRefs claims namespace content =
     (case pvcUIDsFromSnapshotContentDataRefs content of
        Inl x \<Rightarrow> Inl x | Inr uids \<Rightarrow> volume_targets claims namespace uids)"

definition pvcUIDsFromPendingVCR :: "(string \<Rightarrow> string) \<Rightarrow> env \<Rightarrow> string \<Rightarrow> string \<Rightarrow> cover_err + string list" where
  "pvcUIDsFromPendingVCR digest e namespace contentUID =
     (if contentUID = '''' then Inr [] else pvcUIDsFromNamedVCR e namespace (VolumeCaptureRequestName digest contentUID))"

definition pendingVolumeCaptureTargetsForContent ::
  "(string \<Rightarrow> string) \<Rightarrow> env \<Rightarrow> claim_list \<Rightarrow> string \<Rightarrow> string \<Rightarrow> cover_err + capture_target list" where
  "pendingVolumeCaptureTargetsForContent digest e claims namespace contentUID =
     (case pvcUIDsFromPendingVCR digest e namespace contentUID of
        Inl x \<Rightarrow> Inl x | Inr uids \<Rightarrow> volume_targets claims namespace uids)"

text \<open>The targets are collected in a map by uid, a later one replacing an earlier one.\<close>

definition listDomainNodeOwnedPVCTargets ::
  "(string \<Rightarrow> string) \<Rightarrow> env \<Rightarrow> claim_list \<Rightarrow> string \<Rightarrow> snapshot_content option \<Rightarrow> cover_err + capture_target list" where
  "listDomainNodeOwnedPVCTargets digest e claims namespace content =
     (case content of
        None \<Rightarrow> Inr []
      | Some content \<Rightarrow>
          (case volumeTargetsFromContentDataRefs claims namespace content of
             Inl x \<Rightarrow> Inl x
           | Inr fromRefs \<Rightarrow>
               (case pendingVolumeCaptureTargetsForContent digest e claims namespace (ct_uid content) of
                  Inl x \<Rightarrow> Inl x
                | Inr fromVCR \<Rightarrow>
                    Inr (sort_slice uid_less (map snd
                      (fold (\<lambda>t m. AList.update (tg_uid t) t m) (fromRefs @ fromVCR) []))))))"

definition ListOwnedPVCTargetsForLogicalContent ::
  "nat \<Rightarrow> (string \<Rightarrow> string) \<Rightarrow> env \<Rightarrow> claim_list \<Rightarrow> (string \<Rightarrow> bool) option \<Rightarrow> snapshot_obj \<Rightarrow> snapshot_content option \<Rightarrow>
   cover_err stop + capture_target list" where
  "ListOwnedPVCTargetsForLogicalContent fuel digest e claims dataBearing snap content =
     (if so_namespace snap = '''' then Inl (Stopped (CoverFailed ''namespace is required to resolve owned PVC targets''))
      else case (if IsResidualRootPVCCaptureScope snap
          then listResidualRootOwnedPVCTargets fuel e claims dataBearing (so_namespace snap) snap
          else map_sum Stopped id (listDomainNodeOwnedPVCTargets digest e claims (so_namespace snap) content)) of
        Inl x \<Rightarrow> Inl x
      | Inr out \<Rightarrow> Inr (sort_slice uid_less out))"

section \<open>The targets of the root\<close>

definition volume_of :: "capture_target \<Rightarrow> volume_target" where
  "volume_of t = \<lparr>vt_apiVersion = tg_apiVersion t, vt_kind = tg_kind t, vt_name = tg_name t, vt_namespace = tg_namespace t\<rparr>"

definition OwnedPVCManifestTargetsForSnapshot ::
  "nat \<Rightarrow> (string \<Rightarrow> string) \<Rightarrow> env \<Rightarrow> claim_list \<Rightarrow> (string \<Rightarrow> bool) option \<Rightarrow> snapshot_obj \<Rightarrow> snapshot_content option \<Rightarrow>
   cover_err stop + manifest_target list" where
  "OwnedPVCManifestTargetsForSnapshot fuel digest e claims dataBearing snap content =
     (case ListOwnedPVCTargetsForLogicalContent fuel digest e claims dataBearing snap content of
        Inl x \<Rightarrow> Inl x | Inr vol \<Rightarrow> Inr (ManifestTargetsFromVolumeTargets (map volume_of vol)))"

definition subtreeIdentityExcludeKey :: "identity \<Rightarrow> string" where
  "subtreeIdentityExcludeKey i = id_apiVersion i @ ''|'' @ id_kind i @ ''|'' @
     (if id_namespace i = '''' then ''_cluster'' else id_namespace i) @ ''|'' @ id_name i"

datatype root_err = RootContent string | RootClaims "cover_err stop" | RootTargets targets_error

text \<open>The base list of the namespace is the result of \<open>BuildManifestCaptureTargets\<close> with the veto selector.\<close>

definition BuildRootNamespaceManifestCaptureTargets ::
  "nat \<Rightarrow> (string \<Rightarrow> string) \<Rightarrow> env \<Rightarrow> claim_list \<Rightarrow> (string \<Rightarrow> bool) option \<Rightarrow> snapshot_obj \<Rightarrow> string \<Rightarrow>
   (((string \<rightharpoonup> string) \<Rightarrow> bool) option \<Rightarrow> (targets_error + manifest_target list) \<times> gvr list) \<Rightarrow>
   identity list \<Rightarrow> (root_err + manifest_target list) \<times> gvr list" where
  "BuildRootNamespaceManifestCaptureTargets fuel digest e claims dataBearing rootNS rootContentName sweep subtreeExclude =
     (let targetNamespace = so_namespace rootNS in
      case e_content e rootContentName of
        NotFound \<Rightarrow> (Inl (RootContent ''not found''), [])
      | GetErr x \<Rightarrow> (Inl (RootContent x), [])
      | Found rootContent \<Rightarrow>
          (case OwnedPVCManifestTargetsForSnapshot fuel digest e claims dataBearing rootNS (Some rootContent) of
             Inl x \<Rightarrow> (Inl (RootClaims x), [])
           | Inr ownedPVC \<Rightarrow>
               (case sweep (Some ExcludeVetoSelector) of
                  (Inl x, unreadable) \<Rightarrow> (Inl (RootTargets x), unreadable)
                | (Inr base, unreadable) \<Rightarrow>
                    let base = base @ [\<lparr>mt_apiVersion = ''v1'', mt_kind = ''Namespace'', mt_name = targetNamespace\<rparr>];
                        exclude = ManifestTargetDedupKey targetNamespace ` set ownedPVC \<union> subtreeIdentityExcludeKey ` set subtreeExclude
                    in (Inr (FilterManifestTargets base exclude targetNamespace), unreadable))))"

end
