(* ===== verification/Subtree_Identities.thy ===== *)
theory Subtree_Identities
  imports Pvc_Coverage
begin

text \<open>
  The identities below a snapshot as an aggregator computes them from its children
  (\<open>pkg/snapshotsdk/subtree_identities.go\<close>): each child is resolved to its content, whose identities are
  asked from the aggregated API server.
\<close>

datatype sdk_err = IdentitiesPending | SdkErr string

text \<open>What the subresource answers.\<close>

datatype rest_answer = RestConflict | RestErr string | RestUndecodable | RestBody "identity list"

definition resolveChildContentName :: "env \<Rightarrow> string \<Rightarrow> snapshot_child_ref \<Rightarrow> sdk_err + string" where
  "resolveChildContentName e namespace child =
     (case parse_gv_error e (cr_apiVersion child) of
        Some x \<Rightarrow> Inl (SdkErr x)
      | None \<Rightarrow>
          (case e_snapshot e (cr_apiVersion child) (cr_kind child) namespace (cr_name child) of
             NotFound \<Rightarrow> Inl IdentitiesPending
           | GetErr x \<Rightarrow> Inl (SdkErr x)
           | Found u \<Rightarrow> if so_bound u = NBadType then Inl (SdkErr ''boundSnapshotContentName'') else Inr (nval '''' (so_bound u))))"

definition fetchSubtreeManifestIdentities :: "(string \<Rightarrow> rest_answer) \<Rightarrow> string \<Rightarrow> sdk_err + identity list" where
  "fetchSubtreeManifestIdentities rest contentName =
     (case rest contentName of
        RestConflict \<Rightarrow> Inl IdentitiesPending
      | RestErr x \<Rightarrow> Inl (SdkErr x)
      | RestUndecodable \<Rightarrow> Inl (SdkErr ''decode subtree identities'')
      | RestBody ids \<Rightarrow> Inr ids)"

definition identity_key :: "identity \<Rightarrow> string" where
  "identity_key i = id_apiVersion i @ ''|'' @ id_kind i @ ''|'' @ id_namespace i @ ''|'' @ id_name i"

fun add_identities :: "identity list \<Rightarrow> string set \<times> identity list \<Rightarrow> string set \<times> identity list" where
  "add_identities [] acc = acc"
| "add_identities (i # ids) (seen, out) =
     (if identity_key i \<in> seen then add_identities ids (seen, out)
      else add_identities ids (insert (identity_key i) seen, out @ [i]))"

fun identities_below ::
  "env \<Rightarrow> (string \<Rightarrow> rest_answer) \<Rightarrow> string \<Rightarrow> snapshot_child_ref list \<Rightarrow> string set \<times> identity list \<Rightarrow> sdk_err + identity list" where
  "identities_below e rest namespace [] acc = Inr (snd acc)"
| "identities_below e rest namespace (child # children) acc =
     (case resolveChildContentName e namespace child of
        Inl x \<Rightarrow> Inl x
      | Inr contentName \<Rightarrow>
          if contentName = '''' then Inl IdentitiesPending
          else (case fetchSubtreeManifestIdentities rest contentName of
             Inl x \<Rightarrow> Inl x
           | Inr ids \<Rightarrow> identities_below e rest namespace children (add_identities ids acc)))"

definition SubtreeManifestIdentities ::
  "env \<Rightarrow> (string \<Rightarrow> rest_answer) option \<Rightarrow> string \<Rightarrow> snapshot_child_ref list \<Rightarrow> bool option \<Rightarrow> sdk_err + identity list" where
  "SubtreeManifestIdentities e rest namespace children childSubtreesManifestsPersisted =
     (if children = [] then Inr []
      else if childSubtreesManifestsPersisted = Some False then Inl IdentitiesPending
      else case rest of
        None \<Rightarrow> Inl (SdkErr ''requires a subresource REST client'')
      | Some rest \<Rightarrow> identities_below e rest namespace children ({}, []))"

text \<open>The subresource as this repository serves it: a 409 is a conflict, the body is the list of identities.\<close>

definition served :: "nat \<Rightarrow> ('t, 'g, 'd) manifest_source \<Rightarrow> string \<Rightarrow> rest_answer" where
  "served fuel ms contentName =
     (case BuildSubtreeManifestIdentities fuel ms contentName of
        Inr ids \<Rightarrow> RestBody ids
      | Inl x \<Rightarrow> if x = Stopped (ReadStatus 409) then RestConflict else RestErr ''request failed'')"

end
