(* ===== verification/Restore_Guarantees.thy ===== *)
theory Restore_Guarantees
  imports Restore_Compiler Manifest_Capture_Runs
begin

text \<open>
  What the restore compiler guarantees: the resolution of a run tree ends, each node it returns is vouched for
  by its content, every restorable captured object is emitted, and what is emitted can be applied in the
  target namespace, no claim without its data.
\<close>

section \<open>The fuel of a resolution\<close>

lemma own_node_fuel: "own_node rv obj namespace isRoot descend \<noteq> Inl ROutOfFuel"
  by (auto simp: own_node_def ensureSnapshotReadyOrDegraded_def ensureSnapshotReady_def ensureReady_def Let_def
      split: option.splits get_res.splits if_splits)

lemma orphan_fuel: "resolveOrphanVolumeChildNode rv namespace n \<noteq> Inl ROutOfFuel"
  by (auto simp: resolveOrphanVolumeChildNode_def resolveVolumeSnapshotLeaf_def ensureReady_def verifyOrphanContentSnapshotRef_def
      Let_def split: option.splits get_res.splits if_splits sum.splits)

lemma visited_grows:
  "buildRestoreNode n rv obj namespace visited isRoot descend = (r, v) \<Longrightarrow> visited \<subseteq> v"
  "build_children n rv refs namespace visited = (rs, v') \<Longrightarrow> visited \<subseteq> v'"
proof (induction n rv obj namespace visited isRoot descend and n rv refs namespace visited
    arbitrary: r v and rs v' rule: buildRestoreNode_build_children.induct)
  case (4 n rv ref refs namespace visited)
  then show ?case
    by (auto split: if_splits get_res.splits sum.splits prod.splits) blast+
qed (auto simp: Let_def split: if_splits sum.splits prod.splits)

text \<open>The keys of the snapshots that can be read in a namespace.\<close>

definition readable_keys :: "resolver \<Rightarrow> string \<Rightarrow> string set" where
  "readable_keys rv namespace = {node_key rv obj |obj. \<exists>av k n. e_snapshot (rv_env rv) av k namespace n = Found obj}"

lemma restore_fuel_enough:
  "finite K \<Longrightarrow> readable_keys rv namespace \<subseteq> K \<Longrightarrow> node_key rv obj \<in> K \<Longrightarrow> card (K - visited) < n \<Longrightarrow>
    fst (buildRestoreNode n rv obj namespace visited isRoot descend) \<noteq> Inl ROutOfFuel"
  "finite K \<Longrightarrow> readable_keys rv namespace \<subseteq> K \<Longrightarrow> card (K - visited) < n \<Longrightarrow>
    fst (build_children n rv refs namespace visited) \<noteq> Inl ROutOfFuel"
proof (induction n rv obj namespace visited isRoot descend and n rv refs namespace visited
    rule: buildRestoreNode_build_children.induct)
  case (2 n rv obj namespace visited isRoot descend)
  show ?case
  proof (cases "node_key rv obj \<in> visited")
    case False
    then have "card (K - insert (node_key rv obj) visited) < card (K - visited)"
      using 2(2,4) by (intro psubset_card_mono) auto
    then have "card (K - insert (node_key rv obj) visited) < n" using 2(5) by simp
    note IH = 2(1) [OF refl False _ _ 2(2,3) this]
    show ?thesis using False own_node_fuel [of rv obj namespace isRoot descend] IH
      by (auto simp: Let_def split: sum.splits prod.splits)
  qed simp
next
  case (4 n rv ref refs namespace visited)
  show ?case
  proof (cases "cr_name ref = ''''")
    case False
    let ?r = "if rv_domain rv (cr_kind ref)
            then (Inr (domainRestoreNode (cr_apiVersion ref) (cr_kind ref) (cr_name ref) namespace), visited)
            else if isVolumeSnapshotLeaf ref then (resolveOrphanVolumeChildNode rv namespace (cr_name ref), visited)
            else (case e_snapshot (rv_env rv) (cr_apiVersion ref) (cr_kind ref) namespace (cr_name ref) of
               NotFound \<Rightarrow> (Inl (RContract (''child snapshot '' @ cr_name ref @ '' not found'')), visited)
             | GetErr x \<Rightarrow> (Inl (RFailed x), visited)
             | Found obj \<Rightarrow> buildRestoreNode n rv obj namespace visited False True)"
    have node: "fst ?r \<noteq> Inl ROutOfFuel"
    proof (cases "e_snapshot (rv_env rv) (cr_apiVersion ref) (cr_kind ref) namespace (cr_name ref)")
      case (Found obj)
      then have "node_key rv obj \<in> K" using 4(5) unfolding readable_keys_def by blast
      then show ?thesis using 4(2) [OF False _ _ Found 4(4,5) _ 4(6)] orphan_fuel Found by simp
    qed (use orphan_fuel in auto)
    obtain r v where rv: "?r = (r, v)" by (cases ?r)
    have "visited \<subseteq> v"
      using rv visited_grows(1) by (auto split: if_splits get_res.splits)
    then have "card (K - v) \<le> card (K - visited)" using 4(4) by (intro card_mono) auto
    then have "card (K - v) < n" using 4(6) by simp
    have "fst (build_children n rv refs namespace v) \<noteq> Inl ROutOfFuel" if "r = Inr node" for node
      by (rule 4(3) [OF False rv [symmetric] that 4(4,5) \<open>card (K - v) < n\<close>])
    then show ?thesis using False node unfolding rv build_children.simps if_not_P [OF False]
      by (auto split: sum.splits prod.splits)
  qed (use 4 in simp)
qed simp_all

lemma fuel_more:
  "fst (buildRestoreNode n rv obj namespace visited isRoot descend) \<noteq> Inl ROutOfFuel \<Longrightarrow> n \<le> m \<Longrightarrow>
    buildRestoreNode m rv obj namespace visited isRoot descend = buildRestoreNode n rv obj namespace visited isRoot descend"
  "fst (build_children n rv refs namespace visited) \<noteq> Inl ROutOfFuel \<Longrightarrow> n \<le> m \<Longrightarrow>
    build_children m rv refs namespace visited = build_children n rv refs namespace visited"
proof (induction n rv obj namespace visited isRoot descend and n rv refs namespace visited
    arbitrary: m and m rule: buildRestoreNode_build_children.induct)
  case (2 n rv obj namespace visited isRoot descend)
  obtain m' where m: "m = Suc m'" "n \<le> m'" using 2(3) by (cases m) auto
  show ?case
  proof (cases "node_key rv obj \<in> visited")
    case False
    show ?thesis
    proof (cases "own_node rv obj namespace isRoot descend")
      case (Inr node)
      show ?thesis
      proof (cases descend)
        case True
        have "fst (build_children n rv (sort_slice child_less (childSnapshotRefs obj)) namespace (insert (node_key rv obj) visited)) \<noteq>
            Inl ROutOfFuel"
          using 2(2) False Inr True by (auto simp: Let_def split: prod.splits sum.splits)
        from 2(1) [OF refl False Inr _ this m(2)] show ?thesis using False Inr True m(1) by (simp add: Let_def)
      qed (use False Inr m(1) in \<open>simp add: Let_def\<close>)
    qed (use False m(1) in \<open>simp add: Let_def\<close>)
  qed (use m(1) in \<open>simp add: Let_def\<close>)
next
  case (4 n rv ref refs namespace visited)
  show ?case
  proof (cases "cr_name ref = ''''")
    case False
    let ?r = "\<lambda>n. if rv_domain rv (cr_kind ref)
            then (Inr (domainRestoreNode (cr_apiVersion ref) (cr_kind ref) (cr_name ref) namespace), visited)
            else if isVolumeSnapshotLeaf ref then (resolveOrphanVolumeChildNode rv namespace (cr_name ref), visited)
            else (case e_snapshot (rv_env rv) (cr_apiVersion ref) (cr_kind ref) namespace (cr_name ref) of
               NotFound \<Rightarrow> (Inl (RContract (''child snapshot '' @ cr_name ref @ '' not found'')), visited)
             | GetErr x \<Rightarrow> (Inl (RFailed x), visited)
             | Found obj \<Rightarrow> buildRestoreNode n rv obj namespace visited False True)"
    obtain r v where rv: "?r n = (r, v)" by (cases "?r n")
    have eq: "build_children n rv (ref # refs) namespace visited = (case (r, v) of
        (Inl x, visited) \<Rightarrow> (Inl x, visited)
      | (Inr node, visited) \<Rightarrow> (case build_children n rv refs namespace visited of
          (Inl x, visited) \<Rightarrow> (Inl x, visited)
        | (Inr nodes, visited) \<Rightarrow> (Inr (node # nodes), visited)))"
      unfolding build_children.simps if_not_P [OF False] rv ..
    have "r \<noteq> Inl ROutOfFuel" using 4(4) unfolding eq by auto
    then have same: "?r m = ?r n"
      using rv 4(2) [OF False _ _ _ _ 4(5)] by (auto split: if_splits get_res.splits)
    have eqm: "build_children m rv (ref # refs) namespace visited = (case (r, v) of
        (Inl x, visited) \<Rightarrow> (Inl x, visited)
      | (Inr node, visited) \<Rightarrow> (case build_children m rv refs namespace visited of
          (Inl x, visited) \<Rightarrow> (Inl x, visited)
        | (Inr nodes, visited) \<Rightarrow> (Inr (node # nodes), visited)))"
      unfolding build_children.simps if_not_P [OF False] same rv ..
    show ?thesis
    proof (cases r)
      case (Inr node)
      have "fst (build_children n rv refs namespace v) \<noteq> Inl ROutOfFuel" using 4(4) Inr unfolding eq by (auto split: prod.splits sum.splits)
      from 4(3) [OF False rv [symmetric] Inr this 4(5)] show ?thesis unfolding eq eqm Inr by simp
    next
      case (Inl x)
      show ?thesis unfolding eq eqm Inl by simp
    qed
  next
    case True
    have "fst (build_children n rv refs namespace visited) \<noteq> Inl ROutOfFuel" using 4(4) True by simp
    from 4(1) [OF True this 4(5)] show ?thesis using True by simp
  qed
qed simp_all

text \<open>
  C19: The resolution of a restore tree ends: however the snapshots of a namespace refer to each other, fuel
  above the number of snapshots that can be read there is never used up, and more fuel changes nothing, so a
  cycle ends in an error of the resolver and not in a recursion without end.
\<close>

theorem restore_tree_terminates:
  assumes "finite (readable_keys rv namespace)" "card (readable_keys rv namespace) < fuel"
  shows "ResolveRestoreTree fuel rv namespace name \<noteq> Inl ROutOfFuel \<and>
     (\<forall>more\<ge>fuel. ResolveRestoreTree more rv namespace name = ResolveRestoreTree fuel rv namespace name)"
proof (cases "e_snapshot (rv_env rv) (gv_string (rv_env rv) root_gvk) ''Snapshot'' namespace name")
  case (Found obj)
  then have k: "node_key rv obj \<in> readable_keys rv namespace" unfolding readable_keys_def by blast
  have "card (readable_keys rv namespace - {}) < fuel" using assms(2) by simp
  note f = restore_fuel_enough(1) [OF assms(1) subset_refl k this, of True True]
  have e: "ResolveRestoreTree n rv namespace name =
      (if rv_domain rv ''Snapshot'' then Inr (domainRestoreNode (gv_string (rv_env rv) root_gvk) ''Snapshot'' name namespace)
       else fst (buildRestoreNode n rv obj namespace {} True True))" for n
    using Found by (simp add: ResolveRestoreTree_def resolveFromRoot_def)
  show ?thesis
  proof (intro conjI allI impI)
    show "ResolveRestoreTree fuel rv namespace name \<noteq> Inl ROutOfFuel" unfolding e using f by simp
    fix more assume "fuel \<le> more"
    from fuel_more(1) [OF f this]
    show "ResolveRestoreTree more rv namespace name = ResolveRestoreTree fuel rv namespace name" unfolding e by (rule arg_cong)
  qed
qed (auto simp: ResolveRestoreTree_def resolveFromRoot_def)

section \<open>Nodes and their contents\<close>

text \<open>The nodes that are compiled here: a domain node is left to its controller, with all below it.\<close>

fun own_nodes :: "restore_node \<Rightarrow> restore_node list" where
  "own_nodes (RestoreNode ref mcp bindings vsc is_domain children) =
     (if is_domain then [] else RestoreNode ref mcp bindings vsc is_domain children # concat (map own_nodes children))"

text \<open>The snapshot or VolumeSnapshot of a node, its uid and the content it names.\<close>

definition subject_of :: "resolver \<Rightarrow> string \<Rightarrow> subject_ref \<Rightarrow> string \<Rightarrow> string \<Rightarrow> bool" where
  "subject_of rv namespace ref uid bound \<longleftrightarrow>
     (\<exists>obj av k n. e_snapshot (rv_env rv) av k namespace n = Found obj \<and> so_uid obj = uid \<and> nval '''' (so_bound obj) = bound \<and>
        ref = snapshot_ref (gv_string (rv_env rv) (so_gvk obj)) (g_kind (so_gvk obj)) (so_name obj) namespace) \<or>
     (\<exists>vs n. rv_volume_snapshot rv namespace n = Found vs \<and> vn_uid vs = uid \<and> nval '''' (vn_bound vs) = bound \<and>
        nval False (vn_ready vs) \<and> \<not> vn_deleting vs \<and> ref = snapshot_ref CSISnapshotAPIVersion KindVolumeSnapshot n namespace)"

text \<open>The content names the subject in turn, is Ready, and is where the node has its checkpoint and its binding from.\<close>

definition vouched :: "resolver \<Rightarrow> string \<Rightarrow> restore_node \<Rightarrow> bool" where
  "vouched rv namespace node \<longleftrightarrow> (\<exists>uid bound content. subject_of rv namespace (rn_ref node) uid bound \<and>
     e_content (rv_env rv) bound = Found content \<and> IsReady (rv_env rv) (ct_conditions content) \<and>
     (ct_snapshot_ref content)\<lparr>sr_uid := ''''\<rparr> = rn_ref node \<and>
     (sr_uid (ct_snapshot_ref content) = uid \<or> sr_uid (ct_snapshot_ref content) = '''' \<or> uid = '''') \<and>
     rn_mcp node = nval '''' (ct_mcp_name content) \<and> rn_mcp node \<noteq> '''' \<and> rn_bindings node = GetStatusDataRefs content)"

lemma no_mismatch:
  "\<not> snapshotRefMismatch content av k ns n uid \<Longrightarrow> (ct_snapshot_ref content)\<lparr>sr_uid := ''''\<rparr> = snapshot_ref av k n ns \<and>
   (sr_uid (ct_snapshot_ref content) = uid \<or> sr_uid (ct_snapshot_ref content) = '''' \<or> uid = '''')"
  by (auto simp: snapshotRefMismatch_def snapshot_ref_def Let_def split: if_splits)

lemma ensureReady_None: "ensureReady rv content = None \<longleftrightarrow> IsReady (rv_env rv) (ct_conditions content)"
  by (auto simp: ensureReady_def IsReady_def HasCondition_def split: option.splits)

lemma own_node_vouched:
  assumes "own_node rv obj namespace isRoot descend = Inr node" "e_snapshot (rv_env rv) av k namespace n = Found obj"
  shows "vouched rv namespace node \<and> \<not> rn_domain node \<and> rn_children node = []"
proof -
  let ?av = "gv_string (rv_env rv) (so_gvk obj)" and ?k = "g_kind (so_gvk obj)"
  obtain content where c: "e_content (rv_env rv) (nval '''' (so_bound obj)) = Found content" "ensureReady rv content = None"
    "\<not> snapshotRefMismatch content ?av ?k namespace (so_name obj) (so_uid obj)" "nval '''' (ct_mcp_name content) \<noteq> ''''"
    "node = RestoreNode (snapshot_ref ?av ?k (so_name obj) namespace) (nval '''' (ct_mcp_name content)) (GetStatusDataRefs content) [] False []"
    using assms(1) by (auto simp: own_node_def Let_def split: option.splits get_res.splits if_splits)
  have "subject_of rv namespace (rn_ref node) (so_uid obj) (nval '''' (so_bound obj))"
    using assms(2) unfolding subject_of_def c(5) by auto
  then show ?thesis using c no_mismatch [OF c(3)] unfolding vouched_def ensureReady_None by auto
qed

lemma orphan_vouched:
  assumes "resolveOrphanVolumeChildNode rv namespace n = Inr node"
  shows "vouched rv namespace node \<and> \<not> rn_domain node \<and> rn_children node = []"
proof -
  obtain vsc bound uid content where c: "resolveVolumeSnapshotLeaf rv namespace n = Inr (vsc, bound, uid)"
    "e_content (rv_env rv) bound = Found content" "ensureReady rv content = None"
    "verifyOrphanContentSnapshotRef content namespace n uid = None" "nval '''' (ct_mcp_name content) \<noteq> ''''"
    "node = RestoreNode (snapshot_ref CSISnapshotAPIVersion KindVolumeSnapshot n namespace) (nval '''' (ct_mcp_name content))
       (GetStatusDataRefs content) [(vsc, n)] False []"
    using assms by (auto simp: resolveOrphanVolumeChildNode_def Let_def split: option.splits get_res.splits if_splits sum.splits)
  have "subject_of rv namespace (rn_ref node) uid bound"
    using c(1) unfolding subject_of_def c(6)
    by (auto simp: resolveVolumeSnapshotLeaf_def split: get_res.splits if_splits)
  moreover have m: "\<not> snapshotRefMismatch content CSISnapshotAPIVersion KindVolumeSnapshot namespace n uid"
    using c(4) by (auto simp: verifyOrphanContentSnapshotRef_def split: if_splits)
  ultimately show ?thesis using c no_mismatch [OF m] unfolding vouched_def ensureReady_None by auto
qed

lemma own_nodes_root: "\<not> rn_domain node \<Longrightarrow> rn_children node = [] \<Longrightarrow> own_nodes node = [node]"
  by (cases node) auto

lemma own_nodes_with:
  "own_nodes (RestoreNode (rn_ref node) (rn_mcp node) (rn_bindings node) (rn_vsc node) False cs) =
   RestoreNode (rn_ref node) (rn_mcp node) (rn_bindings node) (rn_vsc node) False cs # concat (map own_nodes cs)"
  by simp

lemma vouched_with:
  "vouched rv namespace node \<Longrightarrow> vouched rv namespace (RestoreNode (rn_ref node) (rn_mcp node) (rn_bindings node) (rn_vsc node) False cs)"
  by (simp add: vouched_def)

lemma tree_vouched:
  "buildRestoreNode n rv obj namespace visited isRoot descend = (Inr node, v) \<Longrightarrow>
    e_snapshot (rv_env rv) av k namespace m = Found obj \<Longrightarrow> \<forall>x\<in>set (own_nodes node). vouched rv namespace x"
  "build_children n rv refs namespace visited = (Inr nodes, v') \<Longrightarrow> \<forall>node\<in>set nodes. \<forall>x\<in>set (own_nodes node). vouched rv namespace x"
proof (induction n rv obj namespace visited isRoot descend and n rv refs namespace visited
    arbitrary: node v av k m and nodes v' rule: buildRestoreNode_build_children.induct)
  case (2 n rv obj namespace visited isRoot descend)
  obtain own where own: "node_key rv obj \<notin> visited" "own_node rv obj namespace isRoot descend = Inr own"
    using 2(2) by (auto simp: Let_def split: if_splits sum.splits)
  note vo = own_node_vouched [OF own(2) 2(3)]
  show ?case
  proof (cases descend)
    case True
    obtain cs where cs: "build_children n rv (sort_slice child_less (childSnapshotRefs obj)) namespace (insert (node_key rv obj) visited) = (Inr cs, v)"
      "node = RestoreNode (rn_ref own) (rn_mcp own) (rn_bindings own) (rn_vsc own) False cs"
      using 2(2) own True by (auto simp: Let_def split: prod.splits sum.splits)
    from 2(1) [OF refl own(1,2) _ cs(1)] True have "\<forall>node\<in>set cs. \<forall>x\<in>set (own_nodes node). vouched rv namespace x" by blast
    then show ?thesis using vouched_with vo unfolding cs(2) own_nodes_with by auto
  next
    case False
    then have "node = own" using 2(2) own by (simp add: Let_def)
    then show ?thesis using vo own_nodes_root [of own] by simp
  qed
next
  case (4 n rv ref refs namespace visited)
  show ?case
  proof (cases "cr_name ref = ''''")
    case True
    then show ?thesis using 4(1) [OF True] 4(4) by simp
  next
    case False
    let ?r = "if rv_domain rv (cr_kind ref)
            then (Inr (domainRestoreNode (cr_apiVersion ref) (cr_kind ref) (cr_name ref) namespace), visited)
            else if isVolumeSnapshotLeaf ref then (resolveOrphanVolumeChildNode rv namespace (cr_name ref), visited)
            else (case e_snapshot (rv_env rv) (cr_apiVersion ref) (cr_kind ref) namespace (cr_name ref) of
               NotFound \<Rightarrow> (Inl (RContract (''child snapshot '' @ cr_name ref @ '' not found'')), visited)
             | GetErr x \<Rightarrow> (Inl (RFailed x), visited)
             | Found obj \<Rightarrow> buildRestoreNode n rv obj namespace visited False True)"
    obtain first w rest where r: "?r = (Inr first, w)" "build_children n rv refs namespace w = (Inr rest, v')" "nodes = first # rest"
      using 4(4) unfolding build_children.simps if_not_P [OF False] by (auto split: prod.splits sum.splits)
    have "\<forall>x\<in>set (own_nodes first). vouched rv namespace x"
    proof (cases "rv_domain rv (cr_kind ref)")
      case True
      then show ?thesis using r(1) by (auto simp: domainRestoreNode_def)
    next
      case nd: False
      show ?thesis
      proof (cases "isVolumeSnapshotLeaf ref")
        case True
        then have "resolveOrphanVolumeChildNode rv namespace (cr_name ref) = Inr first" using r(1) nd by simp
        from orphan_vouched [OF this] show ?thesis using own_nodes_root [of first] by simp
      next
        case nl: False
        then obtain obj where o: "e_snapshot (rv_env rv) (cr_apiVersion ref) (cr_kind ref) namespace (cr_name ref) = Found obj"
          "buildRestoreNode n rv obj namespace visited False True = (Inr first, w)"
          using r(1) nd by (auto split: get_res.splits)
        show ?thesis by (rule 4(2) [OF False nd nl o(1) o(2,1)])
      qed
    qed
    moreover have "\<forall>node\<in>set rest. \<forall>x\<in>set (own_nodes node). vouched rv namespace x"
      by (rule 4(3) [OF False r(1) [symmetric] refl r(2)])
    ultimately show ?thesis using r(3) by simp
  qed
qed simp_all

section \<open>The objects of a node\<close>

text \<open>The spec of an object is a map or missing; below any other spec nothing can be set.\<close>

definition open_spec :: "json \<Rightarrow> bool" where
  "open_spec r \<longleftrightarrow> jpath [''spec''] r = None \<or> (\<exists>m. jpath [''spec''] r = Some (JMap m))"

text \<open>What can be applied in a namespace.\<close>

definition placed :: "string \<Rightarrow> json \<Rightarrow> bool" where
  "placed namespace obj \<longleftrightarrow> GetNamespace obj = namespace \<and> \<not> isControlPlaneKind (GetKind obj) \<and>
     jpath [''status''] obj = None \<and> (\<forall>f\<in>set runtime_fields. jpath [''metadata'', f] obj = None) \<and>
     (\<forall>a\<in>set restoreBreakingAnnotations. jpath [''metadata'', ''annotations'', a] obj = None)"

text \<open>
  The volume snapshot that holds the data of the claim \<open>n\<close> of a node: the node has a data binding for a claim of that
  name in its checkpoint, and the artifact of the binding belongs to that volume snapshot.
\<close>

definition holds_data :: "restore_node \<Rightarrow> json list \<Rightarrow> string \<Rightarrow> string \<Rightarrow> bool" where
  "holds_data node raw n vs \<longleftrightarrow> vs \<noteq> '''' \<and> (\<exists>r\<in>set raw. \<exists>b. isCorePVC r \<and> GetName r = n \<and>
     findDataBindingForPVC r (rn_bindings node) = Some b \<and> ar_kind (ArtifactRef b) = KindVolumeSnapshotContent \<and>
     map_of (rn_vsc node) (ar_name (ArtifactRef b)) = Some vs)"

text \<open>A captured object and what the restore makes of it: the same outside the paths the restore rewrites.\<close>

definition restored_as :: "json \<Rightarrow> json \<Rightarrow> bool" where
  "restored_as r obj \<longleftrightarrow> GetKind obj = GetKind r \<and> GetAPIVersion obj = GetAPIVersion r \<and> GetName obj = GetName r \<and>
     frame (touched r @ (if isCorePVC r then [[''spec'', ''dataSourceRef'']] else [])) r obj"

definition restorable :: "json \<Rightarrow> bool" where
  "restorable r \<longleftrightarrow> GetNamespace r \<noteq> '''' \<and> \<not> isControlPlaneKind (GetKind r)"

lemma spec_kept: "frame qs x y \<Longrightarrow> \<forall>q\<in>set qs. apart [''spec''] q \<Longrightarrow> jpath [''spec''] y = jpath [''spec''] x"
  by (rule frame_path)

lemma spec_removes: "canonical x \<Longrightarrow> open_spec (fold (\<lambda>f. remove_nested [''spec'', f]) fs x) = open_spec x"
proof (induction fs arbitrary: x)
  case (Cons f fs)
  have "open_spec (remove_nested [''spec'', f] x) = open_spec x"
    using Cons.prems by (cases x) (auto simp: open_spec_def split: option.splits json.splits simp del: canonical.simps)
  then show ?case using Cons.IH [OF canonical_remove [OF Cons.prems(1)]] by simp
qed simp

lemma sanitized_spec:
  assumes "canonical r" "namespace \<noteq> ''''" "sanitizeForRestore namespace r = Some s" "isCorePVC r"
  shows "open_spec s = open_spec r"
proof -
  let ?x1 = "stripRuntimeMetadata r"
  let ?x3 = "remove_nested [''status''] (stripRestoreBreakingAnnotations ?x1)"
  let ?x4 = "SetNamespace namespace ?x3"
  have f1: "frame (map (\<lambda>f. [''metadata'', f]) runtime_fields) r ?x1"
    unfolding stripRuntimeMetadata_def by (rule frame_removes [OF assms(1)])
  note f2 = annotations_frame [OF frame_canonical [OF f1]]
  have f3: "frame [[''status'']] (stripRestoreBreakingAnnotations ?x1) ?x3" by (rule frame_remove [OF frame_canonical [OF f2]])
  note f13 = frame_trans [OF f1 frame_trans [OF f2 f3]]
  have cp: "GetNamespace r \<noteq> ''''" "\<not> isControlPlaneKind (GetKind r)" using sanitized(3,4) [OF assms(1-3)] by auto
  have "GetNamespace ?x3 \<noteq> ''''"
    using cp(1) frame_string [OF f13, of "[''metadata'', ''namespace'']"] by (auto simp: runtime_fields_def)
  note f14 = frame_trans [OF f13 namespace_set(1) [OF frame_canonical [OF f13] this assms(2)]]
  have "jpath [''spec''] ?x4 = jpath [''spec''] r" by (rule spec_kept [OF f14]) auto
  moreover have k: "GetKind ?x4 = pvcKind" "GetAPIVersion ?x4 = ''v1''"
    using frame_string [OF f14] assms(4) by (simp_all add: isCorePVC_def runtime_fields_def)
  moreover have "s = fold (\<lambda>f. remove_nested [''spec'', f]) pvc_fields ?x4"
  proof -
    have "stripKindSpecificFields ?x4 = fold (\<lambda>f. remove_nested [''spec'', f]) pvc_fields ?x4"
      using k by (simp add: stripKindSpecificFields_def pvc_fields_def)
    moreover have "GetKind (fold (\<lambda>f. remove_nested [''spec'', f]) pvc_fields ?x4) = pvcKind"
      using frame_string [OF frame_removes [OF frame_canonical [OF f14], of "''spec''" pvc_fields], of "[''kind'']"] k by simp
    ultimately show ?thesis using assms(3) cp by (simp add: sanitizeForRestore_def rewriteInSpecNamespaces_def)
  qed
  moreover have "open_spec ?x4 = open_spec r" using calculation(1) by (simp only: open_spec_def)
  ultimately show ?thesis using spec_removes [OF frame_canonical [OF f14]] by simp
qed

lemma source_ref_canonical: "canonical (source_ref vs)"
proof -
  have "''apiGroup'' < (''kind'' :: string)" "''apiGroup'' < (''name'' :: string)" "''kind'' < (''name'' :: string)" by code_simp+
  then show ?thesis by (simp add: source_ref_def)
qed

lemma source_ref_set:
  assumes "canonical (JMap m)" "open_spec (JMap m)"
  shows "jpath [''spec'', ''dataSourceRef''] (setPVCDataSourceRef vs (JMap m)) = Some (source_ref vs)"
proof (cases "map_of m ''spec''")
  case None
  then show ?thesis using assms(1) by (simp add: setPVCDataSourceRef_def del: canonical.simps)
next
  case (Some v)
  then obtain m' where v: "v = JMap m'" using assms(2) by (auto simp: open_spec_def)
  then have "canonical (JMap m')" using Some assms(1) canonical_lookup by blast
  then show ?thesis using assms(1) Some v by (simp add: setPVCDataSourceRef_def del: canonical.simps)
qed

lemma source_ref_closed:
  assumes "\<not> open_spec (JMap m)"
  shows "jpath [''spec'', ''dataSourceRef''] (setPVCDataSourceRef vs (JMap m)) = None"
  using assms by (auto simp: open_spec_def setPVCDataSourceRef_def split: option.splits json.splits)

text \<open>One object of a node: what \<open>transform_loop\<close> makes of it.\<close>

definition emitted :: "string \<Rightarrow> (string \<rightharpoonup> string) \<Rightarrow> json \<Rightarrow> json \<Rightarrow> bool" where
  "emitted namespace orphanVS r obj \<longleftrightarrow> (\<exists>s. sanitizeForRestore namespace r = Some s \<and>
     (if isCorePVC s then \<exists>vs. orphanVS (GetName s) = Some vs \<and> obj = setPVCDataSourceRef vs s else obj = s))"

lemma transform_emits:
  "transform_loop namespace orphanVS raw = Inr out \<Longrightarrow>
   (\<forall>obj\<in>set out. \<exists>r\<in>set raw. emitted namespace orphanVS r obj) \<and>
   (\<forall>r\<in>set raw. sanitizeForRestore namespace r \<noteq> None \<longrightarrow> (\<exists>obj\<in>set out. emitted namespace orphanVS r obj))"
proof (induction raw arbitrary: out)
  case (Cons r raw)
  show ?case
  proof (cases "sanitizeForRestore namespace r")
    case None
    then show ?thesis using Cons by auto
  next
    case (Some s)
    then obtain obj rest where o: "transform_loop namespace orphanVS raw = Inr rest" "out = obj # rest" "emitted namespace orphanVS r obj"
      using Cons.prems by (auto simp: emitted_def split: if_splits option.splits sum.splits)
    show ?thesis using Cons.IH [OF o(1)] o(2,3) by auto
  qed
qed simp

text \<open>The volume snapshot a claim is bound to comes from a binding of the node that is about this claim.\<close>

lemma orphan_loop_result:
  "orphan_loop node raw covered result = Inr out \<Longrightarrow> out n = Some vs \<Longrightarrow>
   result n = Some vs \<or> holds_data node raw n vs"
  unfolding holds_data_def
proof (induction raw arbitrary: result)
  case (Cons r raw)
  show ?case
  proof (cases "isCorePVC r \<and> GetName r \<notin> covered \<and> findDataBindingForPVC r (rn_bindings node) \<noteq> None")
    case False
    then have "orphan_loop node raw covered result = Inr out" using Cons.prems(1) by (auto split: if_splits option.splits)
    from Cons.IH [OF this Cons.prems(2)] show ?thesis by auto
  next
    case True
    then obtain b v where b: "findDataBindingForPVC r (rn_bindings node) = Some b" "map_of (rn_vsc node) (ar_name (ArtifactRef b)) = Some v"
      "v \<noteq> ''''" "orphan_loop node raw covered (result(GetName r \<mapsto> v)) = Inr out" "ar_kind (ArtifactRef b) = KindVolumeSnapshotContent"
      using Cons.prems(1) by (auto simp: Let_def split: if_splits option.splits)
    from Cons.IH [OF b(4) Cons.prems(2)] show ?thesis using b(1-3,5) True by (auto split: if_splits)
  qed
qed simp

text \<open>An object of a node, restored: a claim names the volume snapshot of its data unless its spec is no map.\<close>

definition restored_from :: "string \<Rightarrow> restore_node \<Rightarrow> json list \<Rightarrow> json \<Rightarrow> json \<Rightarrow> bool" where
  "restored_from namespace node raw r obj \<longleftrightarrow> restored_as r obj \<and> placed namespace obj \<and>
     (isCorePVC r \<longrightarrow> (\<exists>vs. holds_data node raw (GetName r) vs \<and>
        jpath [''spec'', ''dataSourceRef''] obj = (if open_spec r then Some (source_ref vs) else None)))"

lemma emitted_facts:
  assumes "canonical r" "namespace \<noteq> ''''" "emitted namespace orphanVS r obj"
    and "\<And>n vs. orphanVS n = Some vs \<Longrightarrow> holds_data node raw n vs"
  shows "restored_from namespace node raw r obj"
proof -
  obtain s where s: "sanitizeForRestore namespace r = Some s"
    "if isCorePVC s then \<exists>vs. orphanVS (GetName s) = Some vs \<and> obj = setPVCDataSourceRef vs s else obj = s"
    using assms(3) unfolding emitted_def by blast
  note c = sanitized [OF assms(1,2) s(1)] and i = sanitized_identity [OF assms(1,2) s(1)]
  have pvc: "isCorePVC s = isCorePVC r" using i by (simp add: isCorePVC_def)
  show ?thesis
  proof (cases "isCorePVC s")
    case False
    then have "obj = s" using s(2) by simp
    moreover have "restored_as r s" using i c(1) False pvc by (simp add: restored_as_def)
    ultimately show ?thesis using c i False pvc unfolding restored_from_def placed_def by auto
  next
    case True
    then obtain vs where vs: "orphanVS (GetName s) = Some vs" "obj = setPVCDataSourceRef vs s" using s(2) by auto
    have f: "frame [[''spec'', ''dataSourceRef'']] s obj"
      unfolding vs(2) setPVCDataSourceRef_def by (rule frame_set [OF i(4) source_ref_canonical])
    have same: "jpath (''metadata'' # p) obj = jpath (''metadata'' # p) s" "jpath [''status''] obj = jpath [''status''] s"
      "jstring [''kind''] obj = jstring [''kind''] s" "jstring [''apiVersion''] obj = jstring [''apiVersion''] s" for p
      using frame_path [OF f] frame_string [OF f] by simp_all
    then have names: "GetName obj = GetName s" "GetNamespace obj = GetNamespace s" by (simp_all add: jstring_def)
    obtain m where m: "s = JMap m" using True by (cases s) (auto simp: isCorePVC_def jstring_def)
    have "open_spec s = open_spec r" using sanitized_spec [OF assms(1,2) s(1)] True pvc by simp
    then have "jpath [''spec'', ''dataSourceRef''] obj = (if open_spec r then Some (source_ref vs) else None)"
      using source_ref_set [of m vs] source_ref_closed [of m vs] i(4) unfolding vs(2) m by simp
    moreover have "restored_as r obj"
      using i same names frame_trans [OF c(1) f] True pvc by (simp add: restored_as_def)
    moreover have "holds_data node raw (GetName r) vs" using assms(4) [OF vs(1)] i by simp
    ultimately show ?thesis using c i same names unfolding restored_from_def placed_def by auto
  qed
qed

section \<open>The objects of a tree\<close>

definition delegated :: "delegate option \<Rightarrow> string \<Rightarrow> json \<Rightarrow> bool" where
  "delegated domain namespace obj \<longleftrightarrow>
     (\<exists>restorer k ns n objs. domain = Some restorer \<and> restorer k ns n namespace = Inr objs \<and> obj \<in> set objs)"

definition node_emits :: "(string \<Rightarrow> restore_err + json list) \<Rightarrow> string \<Rightarrow> restore_node \<Rightarrow> json \<Rightarrow> json \<Rightarrow> bool" where
  "node_emits load namespace node r obj \<longleftrightarrow> (\<exists>raw orphanVS. load (rn_mcp node) = Inr raw \<and> r \<in> set raw \<and>
     resolveOrphanPVCVolumeSnapshots node raw {} = Inr orphanVS \<and> emitted namespace orphanVS r obj)"

definition origin ::
  "delegate option \<Rightarrow> (string \<Rightarrow> restore_err + json list) \<Rightarrow> string \<Rightarrow> restore_node list \<Rightarrow> json \<Rightarrow> bool" where
  "origin domain load namespace nodes obj \<longleftrightarrow>
     (\<exists>node\<in>set nodes. \<exists>r. node_emits load namespace node r obj) \<or> delegated domain namespace obj"

definition covers :: "(string \<Rightarrow> restore_err + json list) \<Rightarrow> string \<Rightarrow> json list \<Rightarrow> restore_node \<Rightarrow> bool" where
  "covers load namespace objs node \<longleftrightarrow> (\<exists>raw. load (rn_mcp node) = Inr raw \<and>
     (\<forall>r\<in>set raw. sanitizeForRestore namespace r \<noteq> None \<longrightarrow> (\<exists>obj\<in>set objs. node_emits load namespace node r obj)))"

definition compiled_from ::
  "delegate option \<Rightarrow> (string \<Rightarrow> restore_err + json list) \<Rightarrow> string \<Rightarrow> restore_node list \<Rightarrow> json list \<Rightarrow> bool" where
  "compiled_from domain load namespace nodes objs \<longleftrightarrow>
     (\<forall>obj\<in>set objs. origin domain load namespace nodes obj) \<and> (\<forall>node\<in>set nodes. covers load namespace objs node)"

lemma origin_mono: "origin domain load namespace ns obj \<Longrightarrow> set ns \<subseteq> set ms \<Longrightarrow> origin domain load namespace ms obj"
  unfolding origin_def by blast

lemma covers_mono: "covers load namespace xs node \<Longrightarrow> set xs \<subseteq> set ys \<Longrightarrow> covers load namespace ys node"
  unfolding covers_def by blast

lemma compiled_append:
  "compiled_from domain load namespace ns xs \<Longrightarrow> compiled_from domain load namespace ms ys \<Longrightarrow>
   compiled_from domain load namespace (ns @ ms) (xs @ ys)"
  unfolding compiled_from_def using origin_mono [of _ _ _ _ _ "ns @ ms"] covers_mono [of _ _ _ _ "xs @ ys"] by auto

lemma compiled_swap:
  "compiled_from domain load namespace (ns @ ms) objs \<Longrightarrow> compiled_from domain load namespace (ms @ ns) objs"
  unfolding compiled_from_def using origin_mono [of _ _ _ "ns @ ms" _ "ms @ ns"] by auto

lemma transform_compiles:
  assumes "load (rn_mcp node) = Inr raw" "transformNodeObjects node raw namespace = Inr out"
  shows "compiled_from domain load namespace [node] out"
proof -
  obtain orphanVS where o: "resolveOrphanPVCVolumeSnapshots node raw {} = Inr orphanVS" "transform_loop namespace orphanVS raw = Inr out"
    using assms(2) by (auto simp: transformNodeObjects_def split: sum.splits)
  note t = transform_emits [OF o(2)]
  have e: "node_emits load namespace node r obj" if "r \<in> set raw" "emitted namespace orphanVS r obj" for r obj
    using assms(1) o(1) that unfolding node_emits_def by blast
  have "origin domain load namespace [node] obj" if "obj \<in> set out" for obj
    using t that e unfolding origin_def by (metis list.set_intros(1))
  moreover have "covers load namespace out node" using t e assms(1) unfolding covers_def by blast
  ultimately show ?thesis by (simp add: compiled_from_def)
qed

lemma compile_compiles:
  "compileNode g domain load namespace node = Inr objs \<Longrightarrow> compiled_from domain load namespace (own_nodes node) objs"
  "compile_children g domain load namespace nodes = Inr objss \<Longrightarrow>
     compiled_from domain load namespace (concat (map own_nodes nodes)) objss"
proof (induction g domain load namespace node and g domain load namespace nodes
    arbitrary: objs and objss rule: compileNode_compile_children.induct)
  case (1 g domain load namespace ref mcp bindings vsc is_domain children)
  show ?case
  proof (cases is_domain)
    case True
    then have "\<forall>obj\<in>set objs. delegated domain namespace obj"
      using 1(2) by (auto simp: compileDomainNode_def delegated_def split: option.splits)
    then show ?thesis using True by (simp add: compiled_from_def origin_def)
  next
    case False
    let ?node = "RestoreNode ref mcp bindings vsc is_domain children"
    obtain cs raw out where c: "compile_children g domain load namespace children = Inr cs" "load (rn_mcp ?node) = Inr raw"
      "transformNodeObjects ?node raw namespace = Inr out" "objs = cs @ out"
      using 1(2) False by (auto split: sum.splits)
    show ?thesis
      using compiled_swap [OF compiled_append [OF 1(1) [OF False c(1)] transform_compiles [where domain = domain and load = load and node = ?node, OF c(2,3)]]]
      unfolding c(4) using False by simp
  qed
next
  case (3 g domain load namespace child children)
  then obtain xs ys where "compileNode g domain load namespace child = Inr xs" "compile_children g domain load namespace children = Inr ys"
    "objss = xs @ ys" by (auto split: sum.splits)
  then show ?case using compiled_append 3 by simp
qed (simp add: compiled_from_def)

lemma first_duplicate_None:
  "first_duplicate objs seen = None \<longleftrightarrow> distinct (map object_identity objs) \<and> set (map object_identity objs) \<inter> seen = {}"
  by (induction objs arbitrary: seen) auto

definition parses_canonical :: "('t, 'g, 'd) codec \<Rightarrow> bool" where
  "parses_canonical c \<longleftrightarrow> (\<forall>t v. cd_parse c t = Some v \<longrightarrow> canonical v)"

lemma decode_canonical: "decode_objects c raws = Some objs \<Longrightarrow> \<forall>x\<in>set raws. canonical x \<Longrightarrow> \<forall>x\<in>set objs. canonical x"
proof (induction raws arbitrary: objs)
  case (Cons x raws)
  obtain y rest where y: "decode_objects c raws = Some rest" "objs = y # rest" "y = renumber (cd_renum c) x \<or> y = JNull"
    using Cons.prems(1) by (auto split: json.splits)
  then have "canonical y" using Cons.prems(2) canonical_renumber by auto
  then show ?case using Cons.IH [OF y(1)] Cons.prems(2) y(2) by simp
qed simp

lemma loaded_canonical:
  assumes "parses_canonical (ms_codec ms)" "LoadManifests ms n = Inr raw"
  shows "\<forall>x\<in>set raw. canonical x"
proof -
  obtain data raws where d: "raw_array (ms_codec ms) data = Some raws" "decode_objects (ms_codec ms) raws = Some raw"
    using assms(2) by (auto simp: LoadManifests_def unmarshal_objects_def split: get_res.splits sum.splits option.splits)
  have "\<forall>x\<in>set raws. canonical x"
    using d(1) assms(1) by (auto simp: raw_array_def parses_canonical_def split: option.splits json.splits dest!: spec)
  then show ?thesis by (rule decode_canonical [OF d(2)])
qed

lemma orphan_data:
  "resolveOrphanPVCVolumeSnapshots node raw {} = Inr orphanVS \<Longrightarrow> orphanVS n = Some vs \<Longrightarrow> holds_data node raw n vs"
  using orphan_loop_result [of node raw "{}" Map.empty orphanVS n vs] unfolding resolveOrphanPVCVolumeSnapshots_def by auto

lemma node_emits_facts:
  assumes "parses_canonical (ms_codec ms)" "namespace \<noteq> ''''" "node_emits (LoadManifests ms) namespace node r obj"
  shows "\<exists>raw. LoadManifests ms (rn_mcp node) = Inr raw \<and> r \<in> set raw \<and> restored_from namespace node raw r obj"
proof -
  obtain raw orphanVS where o: "LoadManifests ms (rn_mcp node) = Inr raw" "r \<in> set raw"
    "resolveOrphanPVCVolumeSnapshots node raw {} = Inr orphanVS" "emitted namespace orphanVS r obj"
    using assms(3) unfolding node_emits_def by blast
  have "restored_from namespace node raw r obj"
    by (rule emitted_facts [OF _ assms(2) o(4)]) (use loaded_canonical [OF assms(1) o(1)] o(2) orphan_data [OF o(3)] in blast)+
  then show ?thesis using o(1,2) by blast
qed

section \<open>Properties\<close>

definition target_of :: "options \<Rightarrow> string" where
  "target_of opts = (if op_target opts = '''' then op_namespace opts else op_target opts)"

lemma restore_result:
  assumes "BuildManifestsWithDataRestoration fuel rv ms domain opts = Inr text"
  shows "\<exists>root all objs. resolveFromRoot fuel rv root_gvk (op_namespace opts) (op_name opts) (\<not> op_node_only opts) = Inr root \<and>
    compileNode (gvk_of (ms_env ms)) domain (LoadManifests ms) (target_of opts) root = Inr all \<and> set objs \<subseteq> set all \<and>
    (op_filter_kind opts = '''' \<longrightarrow> objs = all) \<and> distinct (map object_identity objs) \<and> cd_encode (ms_codec ms) (JList objs) = Some text"
proof -
  let ?r = "if op_node_only opts then ResolveRestoreNodeOnlyRoot fuel rv (op_namespace opts) (op_name opts)
      else ResolveRestoreTree fuel rv (op_namespace opts) (op_name opts)"
  obtain root all objs where o: "?r = Inr root"
    "compileNode (gvk_of (ms_env ms)) domain (LoadManifests ms) (target_of opts) root = Inr all"
    "(if op_filter_kind opts \<noteq> '''' then filterSingleObject (ms_env ms) opts all else Inr all) = Inr objs"
    "marshalObjects (ms_codec ms) objs = Inr text"
    using assms unfolding BuildManifestsWithDataRestoration_def buildRestore_def Let_def target_of_def
    by (auto split: sum.splits)
  have "set objs \<subseteq> set all"
  proof (cases "op_filter_kind opts = ''''")
    case False
    then have "objs = filter (filter_matches (ms_env ms) opts) all"
      using o(3) by (auto simp: filterSingleObject_def split: list.splits)
    then show ?thesis by auto
  qed (use o(3) in simp)
  moreover have "distinct (map object_identity objs) \<and> cd_encode (ms_codec ms) (JList objs) = Some text"
    using o(4) first_duplicate_None [of objs "{}"] by (auto simp: marshalObjects_def split: option.splits)
  moreover have "resolveFromRoot fuel rv root_gvk (op_namespace opts) (op_name opts) (\<not> op_node_only opts) = Inr root"
    using o(1) by (auto simp: ResolveRestoreNodeOnlyRoot_def ResolveRestoreTree_def split: if_splits)
  ultimately show ?thesis using o(2,3) by (intro exI [of _ root] exI [of _ all] exI [of _ objs]) auto
qed


text \<open>
  C17: A restore loses nothing: the result of an unfiltered restore contains, for every node of the resolved
  tree that is not left to another controller, every object of its checkpoint that has a namespace and is no
  machinery of the snapshotter, with its kind, version and name, and changed only at the paths the restore
  rewrites.
\<close>

theorem restore_complete:
  assumes "parses_canonical (ms_codec ms)" and "op_namespace opts \<noteq> ''''" "op_filter_kind opts = ''''"
    and "BuildManifestsWithDataRestoration fuel rv ms domain opts = Inr text"
  shows "\<exists>root objs. resolveFromRoot fuel rv root_gvk (op_namespace opts) (op_name opts) (\<not> op_node_only opts) = Inr root \<and>
     cd_encode (ms_codec ms) (JList objs) = Some text \<and>
     (\<forall>node\<in>set (own_nodes root). \<exists>raw. LoadManifests ms (rn_mcp node) = Inr raw \<and>
       (\<forall>r\<in>set raw. restorable r \<longrightarrow> (\<exists>obj\<in>set objs. restored_as r obj)))"
proof -
  obtain root objs where o: "resolveFromRoot fuel rv root_gvk (op_namespace opts) (op_name opts) (\<not> op_node_only opts) = Inr root"
    "compileNode (gvk_of (ms_env ms)) domain (LoadManifests ms) (target_of opts) root = Inr objs"
    "cd_encode (ms_codec ms) (JList objs) = Some text"
    using restore_result [OF assms(4)] assms(3) by blast
  have t: "target_of opts \<noteq> ''''" using assms(2) by (simp add: target_of_def)
  have "\<exists>raw. LoadManifests ms (rn_mcp node) = Inr raw \<and> (\<forall>r\<in>set raw. restorable r \<longrightarrow> (\<exists>obj\<in>set objs. restored_as r obj))"
    if n: "node \<in> set (own_nodes root)" for node
  proof -
    obtain raw where raw: "LoadManifests ms (rn_mcp node) = Inr raw"
      "\<forall>r\<in>set raw. sanitizeForRestore (target_of opts) r \<noteq> None \<longrightarrow>
        (\<exists>obj\<in>set objs. node_emits (LoadManifests ms) (target_of opts) node r obj)"
      using compile_compiles(1) [OF o(2)] n unfolding compiled_from_def covers_def by blast
    have "sanitizeForRestore (target_of opts) r \<noteq> None" if "restorable r" for r
      using that by (simp add: sanitizeForRestore_def restorable_def)
    then show ?thesis using raw node_emits_facts [OF assms(1) t] unfolding restored_from_def by blast
  qed
  then show ?thesis using o(1,3) by blast
qed

text \<open>
  C18: A restore reads only what belongs to the tree: every node that is compiled has a snapshot of the
  namespace whose content exists, is Ready, names this very snapshot back (and its uid where both are known),
  and gives the node its checkpoint and its data binding.
\<close>

theorem restore_tree_vouched:
  assumes "resolveFromRoot fuel rv k namespace name descend = Inr root" "node \<in> set (own_nodes root)"
  shows "vouched rv namespace node"
proof (cases "rv_domain rv (g_kind k)")
  case True
  then show ?thesis using assms by (auto simp: resolveFromRoot_def domainRestoreNode_def)
next
  case False
  then obtain obj v where o: "e_snapshot (rv_env rv) (gv_string (rv_env rv) k) (g_kind k) namespace name = Found obj"
    "buildRestoreNode fuel rv obj namespace {} True descend = (Inr root, v)"
    using assms(1) by (auto simp: resolveFromRoot_def fst_def split: get_res.splits prod.splits)
  show ?thesis using tree_vouched(1) [OF o(2,1)] assms(2) by blast
qed

section \<open>An instance\<close>

text \<open>
  A snapshot with a Secret of its own and one volume snapshot, whose content holds the claim \<open>pvc\<close>. The
  archives of both checkpoints are in the cache.
\<close>

definition checked_codec :: "(json, json, json) codec" where
  "checked_codec = demo_codec\<lparr>cd_parse := (\<lambda>v. if canonical v then Some v else None)\<rparr>"

definition demo_ready :: condition where
  "demo_ready = \<lparr>co_type = ''Ready'', co_status = ''True'', co_reason = '''', co_message = '''', co_gen = 1, co_time = ''t''\<rparr>"

definition demo_snapshot :: "snapshot_child_ref list \<Rightarrow> snapshot_obj" where
  "demo_snapshot children = \<lparr>so_gvk = root_gvk, so_namespace = ''ns'', so_name = ''s'', so_uid = ''su'', so_generation = 1,
     so_deleting = False, so_import_mode = False, so_children = NVal (map Some children), so_bound = NVal ''c1'',
     so_conditions = [demo_ready], so_phase = '''', so_phase_reason = '''', so_phase_message = '''', so_mcr_name = NAbsent,
     so_vcr_name = NAbsent, so_bound_vsc = NAbsent, so_source_ref = zero_subject_ref, so_manifest_captured = True, so_excluded = []\<rparr>"

definition demo_claim_binding :: data_binding where
  "demo_claim_binding = \<lparr>SourceRef = \<lparr>sr_apiVersion = ''v1'', sr_kind = pvcKind, sr_name = ''pvc'', sr_namespace = ''old'', sr_uid = ''pu''\<rparr>,
     ArtifactRef = \<lparr>ar_apiVersion = ''snapshot.storage.k8s.io/v1'', ar_kind = KindVolumeSnapshotContent, ar_name = ''vsc'', ar_uid = ''vu''\<rparr>,
     VolumeMode = '''', FsType = '''', StorageClassName = '''', Size = ''''\<rparr>"

definition demo_resolver :: "snapshot_child_ref list \<Rightarrow> resolver" where
  "demo_resolver children = \<lparr>rv_env = sample_env\<lparr>
       e_snapshot := (\<lambda>av k ns n. if k = ''Snapshot'' \<and> ns = ''ns'' \<and> n = ''s'' then Found (demo_snapshot children) else NotFound),
       e_content := (\<lambda>n. if n = ''c1'' then Found (sample_content\<lparr>ct_snapshot_ref := snapshot_ref storageGroupVersion ''Snapshot'' ''s'' ''ns'',
             ct_conditions := [demo_ready], ct_mcp_name := NVal ''m1''\<rparr>)
         else if n = ''c2'' then Found (sample_content\<lparr>ct_snapshot_ref := snapshot_ref CSISnapshotAPIVersion KindVolumeSnapshot ''vs'' ''ns'',
             ct_conditions := [demo_ready], ct_mcp_name := NVal ''m2'', ct_data := Some demo_claim_binding\<rparr>)
         else NotFound)\<rparr>,
     rv_volume_snapshot = (\<lambda>ns n. if n = ''vs'' then Found \<lparr>vn_uid = ''vsu'', vn_deleting = False, vn_ready = NVal True,
         vn_bound_vsc = NVal ''vsc'', vn_bound = NVal ''c2''\<rparr> else NotFound),
     rv_domain = (\<lambda>_. False)\<rparr>"

definition demo_secret :: json where
  "demo_secret = JMap [(''apiVersion'', JStr ''v1''), (''kind'', JStr ''Secret''),
     (''metadata'', JMap [(''name'', JStr ''a''), (''namespace'', JStr ''old''), (''uid'', JStr ''x'')])]"

definition demo_claim :: json where
  "demo_claim = JMap [(''apiVersion'', JStr ''v1''), (''kind'', JStr pvcKind),
     (''metadata'', JMap [(''name'', JStr ''pvc''), (''namespace'', JStr ''old''), (''uid'', JStr ''pu'')]),
     (''spec'', JMap [(''volumeName'', JStr ''pv'')])]"

definition demo_archive :: "string \<Rightarrow> json list" where
  "demo_archive n = (if n = ''m1'' then [demo_secret] else [demo_claim])"

definition demo_source :: "(json, json, json) manifest_source" where
  "demo_source = \<lparr>ms_codec = checked_codec, ms_env = sample_env, ms_hash = (\<lambda>_. ''''), ms_time = 0, ms_schedule = rev,
     ms_checkpoint = (\<lambda>n. if n = ''m1'' \<or> n = ''m2'' then Found (imported_checkpoint n []) else NotFound),
     ms_chunk = (\<lambda>_. NotFound),
     ms_cache = (\<lambda>key. if key = ''m1:'' then Some \<lparr>it_data = JList (demo_archive ''m1''), it_checksum = '''', it_created = 0, it_ttl = 300\<rparr>
       else if key = ''m2:'' then Some \<lparr>it_data = JList (demo_archive ''m2''), it_checksum = '''', it_created = 0, it_ttl = 300\<rparr> else None)\<rparr>"

definition demo_options :: options where
  "demo_options = \<lparr>op_name = ''s'', op_namespace = ''ns'', op_target = ''new'', op_node_only = False, op_filter_kind = '''',
     op_filter_name = '''', op_filter_apiVersion = ''''\<rparr>"

definition demo_leaf :: snapshot_child_ref where
  "demo_leaf = \<lparr>cr_apiVersion = CSISnapshotAPIVersion, cr_kind = KindVolumeSnapshot, cr_name = ''vs''\<rparr>"

definition demo_self :: snapshot_child_ref where
  "demo_self = \<lparr>cr_apiVersion = storageGroupVersion, cr_kind = ''Snapshot'', cr_name = ''s''\<rparr>"

lemma demo_restore_runs:
  "isl (BuildManifestsWithDataRestoration 2 (demo_resolver [demo_leaf]) demo_source None demo_options) = False"
  by code_simp

lemma demo_cycle:
  "ResolveRestoreTree 2 (demo_resolver [demo_self]) ''ns'' ''s'' =
   Inl (RContract ''snapshot run-tree cycle at state-snapshotter.deckhouse.io/v1alpha1/Snapshot/s'')"
  by code_simp

lemma demo_parses: "parses_canonical (ms_codec demo_source)"
  by (simp add: parses_canonical_def demo_source_def checked_codec_def)



lemma demo_load:
  "LoadManifests demo_source ''m1'' = Inr [demo_secret]" "LoadManifests demo_source ''m2'' = Inr [demo_claim]"
  by code_simp+



lemma demo_text: "\<exists>text. BuildManifestsWithDataRestoration 2 (demo_resolver [demo_leaf]) demo_source None demo_options = Inr text"
  using demo_restore_runs by (auto simp: isl_def split: sum.splits) (metis sum.exhaust)

lemma demo_option_fields: "op_namespace demo_options \<noteq> ''''" "op_filter_kind demo_options = ''''" "target_of demo_options = ''new''"
  by (simp_all add: demo_options_def target_of_def)

lemma demo_keys: "readable_keys (demo_resolver [demo_self]) ''ns'' \<subseteq> {node_key (demo_resolver [demo_self]) (demo_snapshot [demo_self])}"
  by (auto simp: readable_keys_def demo_resolver_def split: if_splits)

lemma restore_tree_terminates_witness:
  "ResolveRestoreTree 7 (demo_resolver [demo_self]) ''ns'' ''s'' =
   Inl (RContract ''snapshot run-tree cycle at state-snapshotter.deckhouse.io/v1alpha1/Snapshot/s'')"
proof -
  have "finite (readable_keys (demo_resolver [demo_self]) ''ns'')" using demo_keys by (rule finite_subset) simp
  moreover have "card (readable_keys (demo_resolver [demo_self]) ''ns'') < 2"
    using card_mono [OF _ demo_keys] by simp
  ultimately have "\<forall>n\<ge>2. ResolveRestoreTree n (demo_resolver [demo_self]) ''ns'' ''s'' =
      ResolveRestoreTree 2 (demo_resolver [demo_self]) ''ns'' ''s''"
    using restore_tree_terminates by blast
  then have "ResolveRestoreTree 7 (demo_resolver [demo_self]) ''ns'' ''s'' =
      ResolveRestoreTree 2 (demo_resolver [demo_self]) ''ns'' ''s''" by (elim allE impE) simp_all
  then show ?thesis unfolding demo_cycle .
qed



lemma map_two: "map f xs = [a, b] \<Longrightarrow> \<exists>x y. xs = [x, y] \<and> f x = a \<and> f y = b"
  by auto

lemma demo_root: "\<exists>root. resolveFromRoot 2 (demo_resolver [demo_leaf]) root_gvk ''ns'' ''s'' True = Inr root \<and>
    map rn_mcp (own_nodes root) = [''m1'', ''m2'']"
proof -
  have "(case resolveFromRoot 2 (demo_resolver [demo_leaf]) root_gvk ''ns'' ''s'' True of Inl _ \<Rightarrow> False
    | Inr root \<Rightarrow> map rn_mcp (own_nodes root) = [''m1'', ''m2''])"
    by code_simp
  then show ?thesis by (auto split: sum.splits)
qed

lemma demo_encoded: "cd_encode checked_codec (JList objs) = Some (JList objs)"
  by (simp add: checked_codec_def demo_codec_def)

lemma demo_result:
  "BuildManifestsWithDataRestoration 2 (demo_resolver [demo_leaf]) demo_source None demo_options = Inr (JList objs) \<Longrightarrow>
   length objs = 2"
proof -
  have "(case BuildManifestsWithDataRestoration 2 (demo_resolver [demo_leaf]) demo_source None demo_options of
     Inr (JList objs) \<Rightarrow> length objs = 2 | _ \<Rightarrow> True)" by code_simp
  then show "BuildManifestsWithDataRestoration 2 (demo_resolver [demo_leaf]) demo_source None demo_options = Inr (JList objs) \<Longrightarrow>
     length objs = 2" by simp
qed


lemma restorable_secret: "restorable demo_secret" "restorable demo_claim"
  by code_simp+

lemma restore_complete_witness:
  "\<exists>text objs obj claim. BuildManifestsWithDataRestoration 2 (demo_resolver [demo_leaf]) demo_source None demo_options = Inr text \<and>
     text = JList objs \<and> obj \<in> set objs \<and> restored_as demo_secret obj \<and> claim \<in> set objs \<and> restored_as demo_claim claim"
proof -
  obtain out where t: "BuildManifestsWithDataRestoration 2 (demo_resolver [demo_leaf]) demo_source None demo_options = Inr out"
    using demo_text by blast
  obtain root objs where o: "resolveFromRoot 2 (demo_resolver [demo_leaf]) root_gvk ''ns'' ''s'' True = Inr root"
    "cd_encode (ms_codec demo_source) (JList objs) = Some out"
    "\<forall>node\<in>set (own_nodes root). \<exists>raw. LoadManifests demo_source (rn_mcp node) = Inr raw \<and>
       (\<forall>r\<in>set raw. restorable r \<longrightarrow> (\<exists>obj\<in>set objs. restored_as r obj))"
    using restore_complete [OF demo_parses demo_option_fields(1,2) t] by (auto simp: demo_options_def)
  have m: "map rn_mcp (own_nodes root) = [''m1'', ''m2'']" using demo_root o(1) by auto
  then obtain a b where n: "own_nodes root = [a, b]" "rn_mcp a = ''m1''" "rn_mcp b = ''m2''" using map_two by blast
  have "\<exists>obj\<in>set objs. restored_as demo_secret obj" "\<exists>obj\<in>set objs. restored_as demo_claim obj"
    using o(3) n demo_load restorable_secret by auto
  then show ?thesis using t o(2) by (auto simp: demo_source_def checked_codec_def demo_codec_def)
qed

lemma restore_tree_vouched_witness:
  "\<exists>root node. resolveFromRoot 2 (demo_resolver [demo_leaf]) root_gvk ''ns'' ''s'' True = Inr root \<and>
     node \<in> set (own_nodes root) \<and> rn_mcp node = ''m2'' \<and> vouched (demo_resolver [demo_leaf]) ''ns'' node"
proof -
  obtain root where r: "resolveFromRoot 2 (demo_resolver [demo_leaf]) root_gvk ''ns'' ''s'' True = Inr root"
    "map rn_mcp (own_nodes root) = [''m1'', ''m2'']" using demo_root by (elim exE conjE)
  obtain a b where n: "own_nodes root = [a, b]" "rn_mcp b = ''m2''" using map_two [OF r(2)] by blast
  then have b: "b \<in> set (own_nodes root)" by simp
  have v: "vouched (demo_resolver [demo_leaf]) ''ns'' b" by (rule restore_tree_vouched [OF r(1) b])
  show ?thesis using r(1) b n(2) v by (intro exI conjI)
qed

end
