(* ===== verification/Subtree_Guarantees.thy ===== *)
theory Subtree_Guarantees
  imports Subtree_Identities Restore_Guarantees
begin

text \<open>
  What the walks over a snapshot tree guarantee: they end, they miss no descendant, and the root of a run
  is left with exactly what no descendant captures.
\<close>

section \<open>The collected objects\<close>

definition readable_contents :: "env \<Rightarrow> string set" where
  "readable_contents e = {n. \<exists>content. e_content e n = Found content}"

definition content_edges :: "env \<Rightarrow> string \<Rightarrow> string list" where
  "content_edges e n = (case e_content e n of Found content \<Rightarrow> content_children content | _ \<Rightarrow> [])"

lemma collect_node_Inr:
  "collect_node ms n s = Inr (ks, s') \<longleftrightarrow> n \<noteq> '''' \<and>
     (n \<in> cl_visited s \<and> ks = [] \<and> s' = s \<or>
      n \<notin> cl_visited s \<and> (\<exists>content objects seenKeys. e_content (ms_env ms) n = Found content \<and> nval '''' (ct_mcp_name content) \<noteq> '''' \<and>
        appendObjectsFromManifestCheckpoint ms (nval '''' (ct_mcp_name content)) (cl_objects s) (cl_seen s) = Inr (objects, seenKeys) \<and>
        ks = content_children content \<and>
        s' = \<lparr>cl_objects = objects, cl_seen = seenKeys, cl_visited = insert n (cl_visited s)\<rparr>))"
  by (auto simp: collect_node_def Let_def get_content_def split: sum.splits get_res.splits)

interpretation collecting: graph_walk "collect_node ms" cl_visited "readable_contents (ms_env ms)"
    "\<lambda>n. set (content_edges (ms_env ms) n)" for ms :: "('t, 'g, 'd) manifest_source"
  by unfold_locales (auto simp: collect_node_Inr readable_contents_def content_edges_def)

text \<open>The objects of a node are those the restore loads from its checkpoint.\<close>

definition node_objects :: "('t, 'g, 'd) manifest_source \<Rightarrow> string \<Rightarrow> json list option" where
  "node_objects ms n =
     (case e_content (ms_env ms) n of
        Found content \<Rightarrow>
          if nval '''' (ct_mcp_name content) = '''' then None
          else (case LoadManifests ms (nval '''' (ct_mcp_name content)) of Inr objects \<Rightarrow> Some objects | Inl _ \<Rightarrow> None)
      | _ \<Rightarrow> None)"

lemma append_objects_Inr:
  "append_objects arr objects seen = Inr (objects', seen') \<Longrightarrow>
     objects' = objects @ arr \<and> (\<exists>keys. map aggregatedObjectIdentityKey arr = map Some keys \<and> distinct keys \<and>
       seen' = seen \<union> set keys \<and> set keys \<inter> seen = {})"
proof (induction arr arbitrary: objects seen)
  case (Cons obj arr)
  then obtain key where k: "aggregatedObjectIdentityKey obj = Some key" "key \<notin> seen"
    "append_objects arr (objects @ [obj]) (insert key seen) = Inr (objects', seen')"
    by (auto split: option.splits if_splits)
  obtain keys where keys: "map aggregatedObjectIdentityKey arr = map Some keys" "distinct keys"
    "seen' = insert key seen \<union> set keys" "set keys \<inter> insert key seen = {}" "objects' = (objects @ [obj]) @ arr"
    using Cons.IH [OF k(3)] by blast
  show ?case using k keys by (intro conjI exI [of _ "key # keys"]) auto
qed simp

lemma append_loads:
  assumes "appendObjectsFromManifestCheckpoint ms mcpName objects seen = Inr (objects', seen')"
  shows "\<exists>arr. LoadManifests ms mcpName = Inr arr \<and> append_objects arr objects seen = Inr (objects', seen')"
  using assms by (auto simp: appendObjectsFromManifestCheckpoint_def LoadManifests_def split: get_res.splits sum.splits option.splits)

text \<open>What a collection has at any time: the objects of what it has visited, each identity once.\<close>

definition collected_ok :: "('t, 'g, 'd) manifest_source \<Rightarrow> collected \<Rightarrow> bool" where
  "collected_ok ms s \<longleftrightarrow> (\<exists>keys. map aggregatedObjectIdentityKey (cl_objects s) = map Some keys \<and> distinct keys \<and> set keys = cl_seen s) \<and>
     (\<forall>n\<in>cl_visited s. \<exists>objects. node_objects ms n = Some objects \<and> set objects \<subseteq> set (cl_objects s)) \<and>
     (\<forall>obj\<in>set (cl_objects s). \<exists>n\<in>cl_visited s. \<exists>objects. node_objects ms n = Some objects \<and> obj \<in> set objects)"

lemma collect_node_ok:
  assumes "collect_node ms n s = Inr (ks, s')" "collected_ok ms s"
  shows "collected_ok ms s'"
proof (cases "n \<in> cl_visited s")
  case True
  then show ?thesis using assms unfolding collect_node_Inr by blast
next
  case False
  obtain content objects' seen' where c: "e_content (ms_env ms) n = Found content" "nval '''' (ct_mcp_name content) \<noteq> ''''"
    "appendObjectsFromManifestCheckpoint ms (nval '''' (ct_mcp_name content)) (cl_objects s) (cl_seen s) = Inr (objects', seen')"
    "s' = \<lparr>cl_objects = objects', cl_seen = seen', cl_visited = insert n (cl_visited s)\<rparr>"
    using assms(1) False unfolding collect_node_Inr by blast
  obtain arr where arr: "LoadManifests ms (nval '''' (ct_mcp_name content)) = Inr arr"
    "append_objects arr (cl_objects s) (cl_seen s) = Inr (objects', seen')"
    using append_loads [OF c(3)] by blast
  obtain keys where keys: "objects' = cl_objects s @ arr" "map aggregatedObjectIdentityKey arr = map Some keys" "distinct keys"
    "seen' = cl_seen s \<union> set keys" "set keys \<inter> cl_seen s = {}"
    using append_objects_Inr [OF arr(2)] by blast
  obtain old where old: "map aggregatedObjectIdentityKey (cl_objects s) = map Some old" "distinct old" "set old = cl_seen s"
    using assms(2) unfolding collected_ok_def by blast
  have mine: "node_objects ms n = Some arr" using c(1,2) arr(1) by (simp add: node_objects_def)
  have "map aggregatedObjectIdentityKey objects' = map Some (old @ keys)" "distinct (old @ keys)" "set (old @ keys) = seen'"
    using keys old by auto
  then show ?thesis using assms(2) mine keys(1) unfolding collected_ok_def c(4)
    by (intro conjI) (fastforce simp del: map_append)+
qed

definition contents_below :: "env \<Rightarrow> string \<Rightarrow> string set" where
  "contents_below e root = {(n, n'). n' \<in> set (content_edges e n)}\<^sup>* `` {root}"

lemma collected_exactly:
  assumes "collectSubtreeObjects fuel ms root no_objects = Inr s"
  shows "collected_ok ms s \<and> cl_visited s = contents_below (ms_env ms) root"
proof
  have w: "walk fuel (collect_node ms) root no_objects = Inr s" using assms by (simp add: collectSubtreeObjects_def)
  have "collected_ok ms no_objects" by (simp add: collected_ok_def no_objects_def)
  with walk_keeps(1) [of "collect_node ms" "\<lambda>_. True" "collected_ok ms", OF _ w] collect_node_ok
  show "collected_ok ms s" by blast
  show "cl_visited s = contents_below (ms_env ms) root"
    using collecting.walk_visits(1) [OF w] by (simp add: contents_below_def no_objects_def)
qed

lemma identities_of_Inr: "identities_of objects = Inr ids \<Longrightarrow> map subtreeManifestIdentityFrom objects = map Some ids"
  by (induction objects arbitrary: ids) (auto split: option.splits sum.splits)

text \<open>The identity of an object determines its key; \<open>|\<close> occurs in no API version, kind or namespace.\<close>

lemma identity_key_of:
  "subtreeManifestIdentityFrom obj = Some i \<Longrightarrow> aggregatedObjectIdentityKey obj = Some (subtreeIdentityExcludeKey i)"
  by (auto simp: subtreeManifestIdentityFrom_def aggregatedObjectIdentityKey_def subtreeIdentityExcludeKey_def Let_def
      split: option.splits json.splits if_splits)

lemma collected_identities:
  assumes "BuildSubtreeManifestIdentities fuel ms root = Inr ids"
  obtains s where "collected_ok ms s" "cl_visited s = contents_below (ms_env ms) root"
    "map subtreeManifestIdentityFrom (cl_objects s) = map Some ids"
proof -
  obtain s where s: "collectSubtreeObjects fuel ms root no_objects = Inr s" "identities_of (cl_objects s) = Inr ids"
    using assms unfolding BuildSubtreeManifestIdentities_def by (auto split: if_splits sum.splits)
  show thesis using that collected_exactly [OF s(1)] identities_of_Inr [OF s(2)] by blast
qed

lemma identities_complete:
  assumes "BuildSubtreeManifestIdentities fuel ms root = Inr ids"
  shows "(\<forall>n\<in>contents_below (ms_env ms) root. node_objects ms n \<noteq> None) \<and>
     Some ` set ids = (\<Union>n\<in>contents_below (ms_env ms) root. subtreeManifestIdentityFrom ` set (the (node_objects ms n)))"
proof -
  obtain s where s: "collected_ok ms s" "cl_visited s = contents_below (ms_env ms) root"
    "map subtreeManifestIdentityFrom (cl_objects s) = map Some ids"
    by (rule collected_identities [OF assms])
  have "Some ` set ids = subtreeManifestIdentityFrom ` set (cl_objects s)" using s(3) by (metis list.set_map)
  moreover have "set (cl_objects s) = (\<Union>n\<in>contents_below (ms_env ms) root. set (the (node_objects ms n)))"
    using s(1,2) unfolding collected_ok_def by fastforce
  moreover have "\<forall>n\<in>contents_below (ms_env ms) root. node_objects ms n \<noteq> None" using s(1,2) unfolding collected_ok_def by auto
  ultimately show ?thesis by (auto simp: image_UN)
qed

lemma identities_distinct:
  assumes "BuildSubtreeManifestIdentities fuel ms root = Inr ids"
  shows "distinct (map subtreeIdentityExcludeKey ids)"
proof -
  obtain s where s: "collected_ok ms s" "map subtreeManifestIdentityFrom (cl_objects s) = map Some ids"
    by (rule collected_identities [OF assms])
  obtain keys where keys: "map aggregatedObjectIdentityKey (cl_objects s) = map Some keys" "distinct keys"
    using s(1) unfolding collected_ok_def by blast
  have "map aggregatedObjectIdentityKey (cl_objects s) = map (Some \<circ> subtreeIdentityExcludeKey) ids"
  proof (rule nth_equalityI)
    show len: "length (map aggregatedObjectIdentityKey (cl_objects s)) = length (map (Some \<circ> subtreeIdentityExcludeKey) ids)"
      using s(2) by (metis length_map)
    fix i assume "i < length (map aggregatedObjectIdentityKey (cl_objects s))"
    then have i: "i < length (cl_objects s)" "i < length ids" using len by auto
    then have "subtreeManifestIdentityFrom (cl_objects s ! i) = Some (ids ! i)" using s(2) by (metis nth_map)
    from identity_key_of [OF this] i
    show "map aggregatedObjectIdentityKey (cl_objects s) ! i = map (Some \<circ> subtreeIdentityExcludeKey) ids ! i" by simp
  qed
  then have "map Some (map subtreeIdentityExcludeKey ids) = map Some keys" using keys(1) by simp
  then show ?thesis using keys(2) by (simp only: inj_map_eq_map [OF inj_Some])
qed

text \<open>
  C21: The identities of a subtree are complete and free of duplicates, and nothing is returned of a subtree
  that is not: the answer is the set of the identities of the manifests of exactly the contents that can be
  reached over the child references, all of them readable with a checkpoint whose archive can be loaded, and
  no two of them have the same key, so no object is captured by two nodes.
\<close>

theorem subtree_identities_exact:
  assumes "BuildSubtreeManifestIdentities fuel ms root = Inr ids"
  shows "(\<forall>n\<in>contents_below (ms_env ms) root. node_objects ms n \<noteq> None) \<and>
     Some ` set ids = (\<Union>n\<in>contents_below (ms_env ms) root. subtreeManifestIdentityFrom ` set (the (node_objects ms n))) \<and>
     distinct (map subtreeIdentityExcludeKey ids)"
  using identities_complete [OF assms] identities_distinct [OF assms] by blast

section \<open>The identities below a snapshot\<close>

lemma add_identities_facts:
  "add_identities ids (identity_key ` set out, out) = (seen', out') \<Longrightarrow> distinct (map identity_key out) \<Longrightarrow>
     seen' = identity_key ` set out' \<and> distinct (map identity_key out') \<and> set out \<subseteq> set out' \<and> set out' \<subseteq> set out \<union> set ids \<and>
     identity_key ` set out' = identity_key ` set out \<union> identity_key ` set ids"
proof (induction ids arbitrary: out)
  case (Cons i ids)
  show ?case
  proof (cases "identity_key i \<in> identity_key ` set out")
    case True
    then show ?thesis using Cons.IH [of out] Cons.prems by auto
  next
    case False
    have "add_identities ids (identity_key ` set (out @ [i]), out @ [i]) = (seen', out')"
      using Cons.prems(1) False by simp
    from Cons.IH [OF this] Cons.prems(2) False show ?thesis by auto
  qed
qed simp

text \<open>The answer for one child.\<close>

definition child_answer :: "env \<Rightarrow> (string \<Rightarrow> rest_answer) \<Rightarrow> string \<Rightarrow> snapshot_child_ref \<Rightarrow> identity list option" where
  "child_answer e rest namespace child =
     (case resolveChildContentName e namespace child of
        Inr contentName \<Rightarrow> if contentName = '''' then None
          else (case rest contentName of RestBody ids \<Rightarrow> Some ids | _ \<Rightarrow> None)
      | Inl _ \<Rightarrow> None)"

lemma identities_below_facts:
  "identities_below e rest namespace children (identity_key ` set out, out) = Inr ids \<Longrightarrow> distinct (map identity_key out) \<Longrightarrow>
     distinct (map identity_key ids) \<and> set out \<subseteq> set ids \<and> (\<forall>child\<in>set children. child_answer e rest namespace child \<noteq> None) \<and>
     set ids \<subseteq> set out \<union> (\<Union>child\<in>set children. set (the (child_answer e rest namespace child))) \<and>
     identity_key ` set ids = identity_key ` set out \<union> (\<Union>child\<in>set children. identity_key ` set (the (child_answer e rest namespace child)))"
proof (induction children arbitrary: out)
  case (Cons child children)
  obtain contentName mine where c: "resolveChildContentName e namespace child = Inr contentName" "contentName \<noteq> ''''"
    "rest contentName = RestBody mine" "identities_below e rest namespace children (add_identities mine (identity_key ` set out, out)) = Inr ids"
    using Cons.prems(1)
    by (auto simp: fetchSubtreeManifestIdentities_def split: sum.splits if_splits rest_answer.splits)
  obtain seen' out' where a: "add_identities mine (identity_key ` set out, out) = (seen', out')" by fastforce
  note f = add_identities_facts [OF a Cons.prems(2)]
  have ans: "child_answer e rest namespace child = Some mine" using c by (simp add: child_answer_def)
  have rec: "identities_below e rest namespace children (identity_key ` set out', out') = Inr ids" using c(4) a f by simp
  have "distinct (map identity_key out')" using f by blast
  from Cons.IH [OF rec this] f ans show ?case by (auto simp: image_Un)
qed auto

section \<open>Coverage\<close>

definition child_refs :: "env \<Rightarrow> string \<Rightarrow> snapshot_child_ref \<Rightarrow> snapshot_child_ref list" where
  "child_refs e namespace ref =
     (if cr_name ref = '''' then []
      else case e_snapshot e (cr_apiVersion ref) (cr_kind ref) namespace (cr_name ref) of
        Found child \<Rightarrow> sort_slice name_less (List.map_filter id (nval [] (so_children child)))
      | _ \<Rightarrow> [])"

definition covers :: "env \<Rightarrow> string \<Rightarrow> (string \<Rightarrow> bool) option \<Rightarrow> snapshot_child_ref \<Rightarrow> string set" where
  "covers e namespace dataBearing ref =
     (if cr_name ref = '''' then {}
      else case e_snapshot e (cr_apiVersion ref) (cr_kind ref) namespace (cr_name ref) of
        Found child \<Rightarrow>
          if data_bearing dataBearing (g_kind (so_gvk child))
          then (case coveredPVCUIDsForSnapshotNode e namespace child (ref_key ref) of Inr (uids, _) \<Rightarrow> set uids - {''''} | Inl _ \<Rightarrow> {})
          else {}
      | _ \<Rightarrow> {})"

lemma claim_uids_dom:
  "claim_uids uids label uidOwner = Inr uidOwner' \<Longrightarrow> dom uidOwner' = dom uidOwner \<union> (set uids - {''''})"
  by (induction uids arbitrary: uidOwner) (auto split: if_splits option.splits)

lemma cover_ref_facts:
  assumes "cover_ref e namespace dataBearing ref (visited, uidOwner) = Inr (ks, visited', uidOwner')"
  shows "ks = child_refs e namespace ref \<and> dom uidOwner' = dom uidOwner \<union> covers e namespace dataBearing ref \<and>
     visited \<subseteq> visited' \<and> (ks \<noteq> [] \<longrightarrow> ref_key ref \<notin> visited \<and> ref_key ref \<in> visited')"
proof (cases "cr_name ref = '''' \<or> (\<forall>child. e_snapshot e (cr_apiVersion ref) (cr_kind ref) namespace (cr_name ref) \<noteq> Found child)")
  case True
  then show ?thesis using assms
    by (auto simp: cover_ref_def child_refs_def covers_def split: if_splits get_res.splits)
next
  case False
  then obtain child where c: "cr_name ref \<noteq> ''''" "e_snapshot e (cr_apiVersion ref) (cr_kind ref) namespace (cr_name ref) = Found child" by blast
  then have v: "ref_key ref \<notin> visited" "addCoverageFromChildBoundContent e namespace dataBearing child (ref_key ref) uidOwner = Inr uidOwner'"
    "ks = child_refs e namespace ref" "visited' = insert (ref_key ref) visited"
    using assms by (auto simp: cover_ref_def child_refs_def childSnapshotChildRefs_def split: if_splits sum.splits)
  have "dom uidOwner' = dom uidOwner \<union> covers e namespace dataBearing ref"
    using v(2) c claim_uids_dom
    by (auto simp: addCoverageFromChildBoundContent_def covers_def split: if_splits sum.splits prod.splits)
  then show ?thesis using v by auto
qed

interpretation covering: tree_walk "cover_ref e namespace dataBearing" "child_refs e namespace"
    "\<lambda>ref st. covers e namespace dataBearing ref \<subseteq> dom (snd st)" for e namespace dataBearing
proof unfold_locales
  fix ref st ks st'
  assume "cover_ref e namespace dataBearing ref st = Inr (ks, st')"
  then show "ks = child_refs e namespace ref \<and> covers e namespace dataBearing ref \<subseteq> dom (snd st')"
    using cover_ref_facts by (cases st, cases st') fastforce
next
  fix ref st ks st' other
  assume "cover_ref e namespace dataBearing ref st = Inr (ks, st')" "covers e namespace dataBearing other \<subseteq> dom (snd st)"
  then show "covers e namespace dataBearing other \<subseteq> dom (snd st')"
    using cover_ref_facts by (cases st, cases st') fastforce
qed

text \<open>The references below a snapshot, and what they cover.\<close>

definition refs_below :: "env \<Rightarrow> string \<Rightarrow> snapshot_child_ref list \<Rightarrow> snapshot_child_ref set" where
  "refs_below e namespace refs = {(k, k'). k' \<in> set (child_refs e namespace k)}\<^sup>* `` set refs"

definition covered_below :: "env \<Rightarrow> (string \<Rightarrow> bool) option \<Rightarrow> snapshot_obj \<Rightarrow> string set" where
  "covered_below e dataBearing snap =
     (\<Union>ref\<in>refs_below e (so_namespace snap) (List.map_filter id (nval [] (so_children snap))). covers e (so_namespace snap) dataBearing ref)"

lemma coverage_exact:
  assumes "CollectSubtreeCoveredPVCUIDsFromSnapshot fuel e dataBearing snap = Inr covered"
  shows "dom covered = covered_below e dataBearing snap"
proof -
  let ?refs = "List.map_filter id (nval [] (so_children snap))" and ?ns = "so_namespace snap"
  obtain visited where w: "walk_all fuel (cover_ref e ?ns dataBearing) (sort_slice name_less ?refs) ({}, Map.empty) = Inr (visited, covered)"
    using assms unfolding CollectSubtreeCoveredPVCUIDsFromSnapshot_def walkSnapshotChildRefsForCoverage_def
    by (auto split: if_splits sum.splits prod.splits)
  have all: "covered_below e dataBearing snap \<subseteq> dom covered"
    using covering.walk_knows(2) [OF w] unfolding covered_below_def refs_below_def by fastforce
  let ?R = "\<lambda>ref. ref \<in> refs_below e ?ns ?refs" and ?I = "\<lambda>st. dom (snd st) \<subseteq> covered_below e dataBearing snap"
  have step: "?I st' \<and> (\<forall>ref'\<in>set ks. ?R ref')"
    if "cover_ref e ?ns dataBearing ref st = Inr (ks, st')" "?R ref" "?I st" for ref st ks st'
  proof -
    obtain v o1 v' o2 where st: "st = (v, o1)" "st' = (v', o2)" by (cases st, cases st')
    note f = cover_ref_facts [OF that(1) [unfolded st]]
    have "covers e ?ns dataBearing ref \<subseteq> covered_below e dataBearing snap" using that(2) by (auto simp: covered_below_def)
    then have "?I st'" using f that(3) st by auto
    moreover have "\<forall>ref'\<in>set ks. ?R ref'"
      using f that(2) unfolding refs_below_def by (auto intro: rtrancl_into_rtrancl)
    ultimately show ?thesis ..
  qed
  have "?I (visited, covered)"
    by (rule walk_keeps(2) [of _ ?R ?I, OF _ w]) (use step in \<open>auto simp: refs_below_def\<close>)
  then show ?thesis using all by simp
qed

section \<open>The residual claims\<close>

text \<open>What a claim has to be to fall to the root.\<close>

definition residual_claim :: "env \<Rightarrow> (string \<Rightarrow> bool) option \<Rightarrow> snapshot_obj \<Rightarrow> claim_item \<Rightarrow> bool" where
  "residual_claim e dataBearing snap pvc \<longleftrightarrow> cm_labels pvc ExcludeLabelKey = None \<and> cm_uid pvc \<notin> covered_below e dataBearing snap"

lemma labels_by_uid:
  "distinct (map cm_uid items) \<Longrightarrow> pvc \<in> set items \<Longrightarrow>
     map_of (rev (map (\<lambda>pvc. (cm_uid pvc, cm_labels pvc)) items)) (cm_uid pvc) = Some (cm_labels pvc)"
  by (intro map_of_is_SomeI) (simp_all add: comp_def rev_map [symmetric])

lemma residual_facts:
  assumes "ListOwnedPVCTargetsForLogicalContent fuel digest e claims dataBearing snap content = Inr ts" "so_name snap \<noteq> ''''"
    and "\<forall>items. claims (so_namespace snap) = Inr items \<longrightarrow> distinct (map cm_uid items)"
  shows "\<exists>items. claims (so_namespace snap) = Inr items \<and> in_order uid_less ts \<and>
     set ts = claim_target ` {pvc \<in> set items. residual_claim e dataBearing snap pvc}"
proof -
  have scope: "IsResidualRootPVCCaptureScope snap" using assms(2) by (simp add: IsResidualRootPVCCaptureScope_def)
  obtain covered candidates labels where o: "CollectSubtreeCoveredPVCUIDsFromSnapshot fuel e dataBearing snap = Inr covered"
    "listNamespacePVCTargetsWithLabels claims (so_namespace snap) = Inr (candidates, labels)"
    "ts = sort_slice uid_less (residualPVCTargets (filterPVCTargetsBySelector (Some ExcludeVetoSelector) candidates labels) covered)"
    using assms(1) scope unfolding ListOwnedPVCTargetsForLogicalContent_def listResidualRootOwnedPVCTargets_def
    by (auto split: if_splits sum.splits)
  obtain items where items: "claims (so_namespace snap) = Inr items" "set candidates = claim_target ` set items"
    "labels = (\<lambda>uid. case map_of (rev (map (\<lambda>pvc. (cm_uid pvc, cm_labels pvc)) items)) uid of
       None \<Rightarrow> Map.empty | Some labels \<Rightarrow> labels)"
    using o(2) unfolding listNamespacePVCTargetsWithLabels_def by (auto split: if_splits sum.splits)
  have lab: "labels (cm_uid pvc) = cm_labels pvc" if "pvc \<in> set items" for pvc
    using labels_by_uid [OF _ that] assms(3) items(1) by (simp add: items(3))
  have cov: "covered u = None \<longleftrightarrow> u \<notin> covered_below e dataBearing snap" for u
    using coverage_exact [OF o(1)] by auto
  have uid [simp]: "tg_uid (claim_target pvc) = cm_uid pvc" for pvc by (simp add: claim_target_def)
  have "set ts = claim_target ` {pvc \<in> set items. residual_claim e dataBearing snap pvc}"
    unfolding o(3) residualPVCTargets_def filterPVCTargetsBySelector_def residual_claim_def ExcludeVetoSelector_def
    using items(2) lab cov by auto
  then show ?thesis using items(1) uid_order.sort_slice_in_order o(3) by blast
qed

text \<open>
  C22: Every claim of the namespace is captured by one node: the claims left to the root are exactly those that
  carry no veto label and that no data-bearing snapshot below the root covers, by the data of its content or,
  before that is published, by its volume request or its source; where the coverage of a descendant cannot be
  read the root gets no claims at all.
\<close>

theorem residual_claims_exact:
  assumes "ListOwnedPVCTargetsForLogicalContent fuel digest e claims dataBearing snap content = Inr ts" "so_name snap \<noteq> ''''"
    and "\<forall>items. claims (so_namespace snap) = Inr items \<longrightarrow> distinct (map cm_uid items)"
  shows "(\<exists>items. claims (so_namespace snap) = Inr items \<and>
       set ts = claim_target ` {pvc \<in> set items. residual_claim e dataBearing snap pvc}) \<and>
     (\<exists>covered. CollectSubtreeCoveredPVCUIDsFromSnapshot fuel e dataBearing snap = Inr covered \<and>
       dom covered = covered_below e dataBearing snap)"
proof -
  have scope: "IsResidualRootPVCCaptureScope snap" using assms(2) by (simp add: IsResidualRootPVCCaptureScope_def)
  obtain covered where c: "CollectSubtreeCoveredPVCUIDsFromSnapshot fuel e dataBearing snap = Inr covered"
    using assms(1) scope unfolding ListOwnedPVCTargetsForLogicalContent_def listResidualRootOwnedPVCTargets_def
    by (auto split: if_splits sum.splits)
  show ?thesis
  proof (intro conjI)
    show "\<exists>covered. CollectSubtreeCoveredPVCUIDsFromSnapshot fuel e dataBearing snap = Inr covered \<and>
        dom covered = covered_below e dataBearing snap"
      using c coverage_exact [OF c] by (intro exI conjI)
  qed (use residual_facts [OF assms] in \<open>elim exE conjE, intro exI conjI\<close>)
qed

section \<open>Termination\<close>

definition snapshot_keys :: "env \<Rightarrow> string \<Rightarrow> string set" where
  "snapshot_keys e namespace =
     {ref_key ref |ref. \<exists>child. e_snapshot e (cr_apiVersion ref) (cr_kind ref) namespace (cr_name ref) = Found child}"

interpretation cover_marks: marked_walk "cover_ref e namespace dataBearing" fst "snapshot_keys e namespace"
  for e namespace dataBearing
proof unfold_locales
  fix ref st ks st'
  assume s: "cover_ref e namespace dataBearing ref st = Inr (ks, st')"
  obtain v o1 v' o2 where st: "st = (v, o1)" "st' = (v', o2)" by (cases st, cases st')
  note f = cover_ref_facts [OF s [unfolded st]]
  show "fst st \<subseteq> fst st'" using f st by simp
  assume "ks \<noteq> []"
  moreover have "ref_key ref \<in> snapshot_keys e namespace" if "ks \<noteq> []"
    using f that unfolding child_refs_def snapshot_keys_def by (auto split: if_splits get_res.splits)
  ultimately show "\<exists>m\<in>snapshot_keys e namespace. m \<notin> fst st \<and> m \<in> fst st'" using f st by auto
qed

lemma identities_fuel:
  assumes "walk fuel (collect_node ms) root no_objects \<noteq> Inl OutOfFuel \<and>
    (\<forall>m\<ge>fuel. walk m (collect_node ms) root no_objects = walk fuel (collect_node ms) root no_objects)"
  shows "BuildSubtreeManifestIdentities fuel ms root \<noteq> Inl OutOfFuel \<and>
    (\<forall>m\<ge>fuel. BuildSubtreeManifestIdentities m ms root = BuildSubtreeManifestIdentities fuel ms root)"
proof -
  have "BuildSubtreeManifestIdentities fuel ms root \<noteq> Inl OutOfFuel"
    using conjunct1 [OF assms] by (auto simp: BuildSubtreeManifestIdentities_def collectSubtreeObjects_def split: sum.splits)
  moreover have "BuildSubtreeManifestIdentities m ms root = BuildSubtreeManifestIdentities fuel ms root" if "fuel \<le> m" for m
    using conjunct2 [OF assms, rule_format, OF that] by (simp add: BuildSubtreeManifestIdentities_def collectSubtreeObjects_def)
  ultimately show ?thesis by blast
qed

abbreviation root_refs :: "snapshot_obj \<Rightarrow> snapshot_child_ref list" where
  "root_refs snap \<equiv> sort_slice name_less (List.map_filter id (nval [] (so_children snap)))"

lemma coverage_fuel:
  assumes "walk_all fuel (cover_ref e (so_namespace snap) dataBearing) (root_refs snap) ({}, Map.empty) \<noteq> Inl OutOfFuel \<and>
    (\<forall>m\<ge>fuel. walk_all m (cover_ref e (so_namespace snap) dataBearing) (root_refs snap) ({}, Map.empty) =
      walk_all fuel (cover_ref e (so_namespace snap) dataBearing) (root_refs snap) ({}, Map.empty))"
  shows "CollectSubtreeCoveredPVCUIDsFromSnapshot fuel e dataBearing snap \<noteq> Inl OutOfFuel \<and>
    (\<forall>m\<ge>fuel. CollectSubtreeCoveredPVCUIDsFromSnapshot m e dataBearing snap =
      CollectSubtreeCoveredPVCUIDsFromSnapshot fuel e dataBearing snap)"
proof -
  have "CollectSubtreeCoveredPVCUIDsFromSnapshot fuel e dataBearing snap \<noteq> Inl OutOfFuel"
    using conjunct1 [OF assms]
    by (auto simp: CollectSubtreeCoveredPVCUIDsFromSnapshot_def walkSnapshotChildRefsForCoverage_def split: sum.splits)
  moreover have "CollectSubtreeCoveredPVCUIDsFromSnapshot m e dataBearing snap =
      CollectSubtreeCoveredPVCUIDsFromSnapshot fuel e dataBearing snap" if "fuel \<le> m" for m
    using conjunct2 [OF assms, rule_format, OF that]
    by (simp add: CollectSubtreeCoveredPVCUIDsFromSnapshot_def walkSnapshotChildRefsForCoverage_def)
  ultimately show ?thesis by blast
qed

text \<open>
  C30: The walks below a snapshot end: with fuel above the number of contents that can be read, the
  identities of a subtree are an answer of the code, and with fuel above the number of snapshots that can be
  read, so is the coverage of its claims; more fuel does not change either, whatever cycles the references have.
\<close>

theorem tree_walks_terminate:
  assumes "finite (readable_contents (ms_env ms))" "card (readable_contents (ms_env ms)) < fuel"
    and "finite (snapshot_keys e (so_namespace snap))" "card (snapshot_keys e (so_namespace snap)) < fuel"
  shows "BuildSubtreeManifestIdentities fuel ms root \<noteq> Inl OutOfFuel \<and>
     CollectSubtreeCoveredPVCUIDsFromSnapshot fuel e dataBearing snap \<noteq> Inl OutOfFuel \<and>
     (\<forall>more\<ge>fuel. BuildSubtreeManifestIdentities more ms root = BuildSubtreeManifestIdentities fuel ms root \<and>
       CollectSubtreeCoveredPVCUIDsFromSnapshot more e dataBearing snap = CollectSubtreeCoveredPVCUIDsFromSnapshot fuel e dataBearing snap)"
proof -
  have "card (readable_contents (ms_env ms) - cl_visited no_objects) < fuel" using assms(2) by (simp add: no_objects_def)
  note c = collecting.walk_terminates [OF assms(1) this, of root]
  have "card (snapshot_keys e (so_namespace snap) - fst ({}, Map.empty :: coverage)) < fuel" using assms(4) by simp
  note s = cover_marks.walk_all_terminates [OF assms(3) this, where dataBearing = dataBearing]
  show ?thesis using identities_fuel [OF c] coverage_fuel [OF s] by blast
qed

section \<open>The root and its descendants\<close>

lemma filter_targets_set: "set (FilterManifestTargets ts X namespace) = {t \<in> set ts. ManifestTargetDedupKey namespace t \<notin> X}"
  by (auto simp: FilterManifestTargets_def sortManifestTargets_def)

definition claim_manifest :: "claim_item \<Rightarrow> manifest_target" where
  "claim_manifest pvc = \<lparr>mt_apiVersion = ''v1'', mt_kind = ''PersistentVolumeClaim'', mt_name = cm_name pvc\<rparr>"

lemma owned_targets_facts:
  assumes "OwnedPVCManifestTargetsForSnapshot fuel digest e claims dataBearing snap content = Inr owned" "so_name snap \<noteq> ''''"
    and "\<forall>items. claims (so_namespace snap) = Inr items \<longrightarrow> distinct (map cm_uid items)"
  shows "\<exists>items. claims (so_namespace snap) = Inr items \<and>
     set owned = claim_manifest ` {pvc \<in> set items. residual_claim e dataBearing snap pvc}"
proof -
  obtain vol where vol: "ListOwnedPVCTargetsForLogicalContent fuel digest e claims dataBearing snap content = Inr vol"
    "owned = ManifestTargetsFromVolumeTargets (map volume_of vol)"
    using assms(1) unfolding OwnedPVCManifestTargetsForSnapshot_def by (auto split: sum.splits)
  obtain items where items: "claims (so_namespace snap) = Inr items"
    "set vol = claim_target ` {pvc \<in> set items. residual_claim e dataBearing snap pvc}"
    using residual_facts [OF vol(1) assms(2,3)] by blast
  have "set owned = claim_manifest ` {pvc \<in> set items. residual_claim e dataBearing snap pvc}"
    unfolding vol(2) ManifestTargetsFromVolumeTargets_def sortManifestTargets_def set_sort_slice
    by (auto simp: items(2) volume_of_def claim_target_def claim_manifest_def image_iff)
  then show ?thesis using items(1) by blast
qed

text \<open>A manifest with the key of the target is in the checkpoint of a content below one of the children.\<close>

definition captured_below :: "('t, 'g, 'd) manifest_source \<Rightarrow> string \<Rightarrow> snapshot_child_ref list \<Rightarrow> manifest_target \<Rightarrow> bool" where
  "captured_below ms namespace children t \<longleftrightarrow>
     (\<exists>child\<in>set children. \<exists>root. resolveChildContentName (ms_env ms) namespace child = Inr root \<and>
       (\<exists>n\<in>contents_below (ms_env ms) root. \<exists>objects obj. node_objects ms n = Some objects \<and> obj \<in> set objects \<and>
         aggregatedObjectIdentityKey obj = Some (ManifestTargetDedupKey namespace t)))"

definition plain_identity :: "identity \<Rightarrow> bool" where
  "plain_identity i \<longleftrightarrow> CHR ''|'' \<notin> set (id_apiVersion i) \<union> set (id_kind i) \<union> set (id_namespace i)"

lemma plain_identity_keys:
  assumes "plain_identity i" "plain_identity j" "identity_key i = identity_key j"
  shows "subtreeIdentityExcludeKey i = subtreeIdentityExcludeKey j"
  using assms by (auto simp: plain_identity_def identity_key_def subtreeIdentityExcludeKey_def append_sep_eq)

definition plain_manifests :: "('t, 'g, 'd) manifest_source \<Rightarrow> bool" where
  "plain_manifests ms \<longleftrightarrow> (\<forall>n objects obj i. node_objects ms n = Some objects \<longrightarrow> obj \<in> set objects \<longrightarrow>
     subtreeManifestIdentityFrom obj = Some i \<longrightarrow> plain_identity i)"

lemma child_answer_served:
  assumes "child_answer e (served fuel ms) namespace child = Some mine"
  shows "\<exists>root. resolveChildContentName e namespace child = Inr root \<and> BuildSubtreeManifestIdentities fuel ms root = Inr mine"
  using assms by (auto simp: child_answer_def served_def split: sum.splits if_splits)

lemma answer_keys:
  assumes "BuildSubtreeManifestIdentities fuel ms root = Inr mine"
  shows "key \<in> subtreeIdentityExcludeKey ` set mine \<longleftrightarrow>
     (\<exists>n\<in>contents_below (ms_env ms) root. \<exists>objects obj. node_objects ms n = Some objects \<and> obj \<in> set objects \<and>
       aggregatedObjectIdentityKey obj = Some key)"
proof
  note c = identities_complete [OF assms]
  {
    assume "key \<in> subtreeIdentityExcludeKey ` set mine"
    then obtain i where i: "i \<in> set mine" "key = subtreeIdentityExcludeKey i" by blast
    then have "Some i \<in> (\<Union>n\<in>contents_below (ms_env ms) root. subtreeManifestIdentityFrom ` set (the (node_objects ms n)))"
      using c by blast
    then obtain n obj where n: "n \<in> contents_below (ms_env ms) root" "obj \<in> set (the (node_objects ms n))"
      "subtreeManifestIdentityFrom obj = Some i" by force
    moreover obtain objects where "node_objects ms n = Some objects" using c n(1) by blast
    ultimately show "\<exists>n\<in>contents_below (ms_env ms) root. \<exists>objects obj. node_objects ms n = Some objects \<and> obj \<in> set objects \<and>
        aggregatedObjectIdentityKey obj = Some key"
      using identity_key_of i(2) by (metis option.sel)
  next
    assume "\<exists>n\<in>contents_below (ms_env ms) root. \<exists>objects obj. node_objects ms n = Some objects \<and> obj \<in> set objects \<and>
        aggregatedObjectIdentityKey obj = Some key"
    then obtain n objects obj where n: "n \<in> contents_below (ms_env ms) root" "node_objects ms n = Some objects" "obj \<in> set objects"
      "aggregatedObjectIdentityKey obj = Some key" by blast
    then have "subtreeManifestIdentityFrom obj \<in> Some ` set mine" using c by force
    then obtain i where "i \<in> set mine" "subtreeManifestIdentityFrom obj = Some i" by force
    then show "key \<in> subtreeIdentityExcludeKey ` set mine" using identity_key_of n(4) by fastforce
  }
qed

lemma subtree_keys:
  assumes "SubtreeManifestIdentities (ms_env ms) (Some (served fuel ms)) namespace children latch = Inr ids" "plain_manifests ms"
  shows "ManifestTargetDedupKey namespace t \<in> subtreeIdentityExcludeKey ` set ids \<longleftrightarrow> captured_below ms namespace children t"
proof (cases "children = []")
  case True
  then show ?thesis using assms(1) by (simp add: SubtreeManifestIdentities_def captured_below_def)
next
  case False
  let ?answer = "\<lambda>child. the (child_answer (ms_env ms) (served fuel ms) namespace child)"
  have "identities_below (ms_env ms) (served fuel ms) namespace children (identity_key ` set [], []) = Inr ids"
    using assms(1) False by (auto simp: SubtreeManifestIdentities_def split: if_splits)
  note f = identities_below_facts [OF this, simplified]
  have ans: "\<exists>root. resolveChildContentName (ms_env ms) namespace child = Inr root \<and>
      BuildSubtreeManifestIdentities fuel ms root = Inr (?answer child)" if "child \<in> set children" for child
    using f that child_answer_served by fastforce
  have plain: "plain_identity i" if i: "i \<in> set (?answer child)" and c: "child \<in> set children" for i child
  proof -
    obtain root where r: "BuildSubtreeManifestIdentities fuel ms root = Inr (?answer child)" using ans [OF c] by blast
    have "Some i \<in> (\<Union>n\<in>contents_below (ms_env ms) root. subtreeManifestIdentityFrom ` set (the (node_objects ms n)))"
      using identities_complete [OF r] i by blast
    then show ?thesis using assms(2) identities_complete [OF r] unfolding plain_manifests_def by force
  qed
  have "subtreeIdentityExcludeKey ` set ids = (\<Union>child\<in>set children. subtreeIdentityExcludeKey ` set (?answer child))"
  proof
    show "subtreeIdentityExcludeKey ` set ids \<subseteq> (\<Union>child\<in>set children. subtreeIdentityExcludeKey ` set (?answer child))"
      using f by fastforce
    show "(\<Union>child\<in>set children. subtreeIdentityExcludeKey ` set (?answer child)) \<subseteq> subtreeIdentityExcludeKey ` set ids"
    proof clarify
      fix child i assume i: "child \<in> set children" "i \<in> set (?answer child)"
      then have "identity_key i \<in> identity_key ` set ids" using f by auto
      then obtain j where j: "j \<in> set ids" "identity_key i = identity_key j" by blast
      then obtain child' where "child' \<in> set children" "j \<in> set (?answer child')" using f by auto
      then have "plain_identity j" using plain by blast
      then show "subtreeIdentityExcludeKey i \<in> subtreeIdentityExcludeKey ` set ids"
        using plain_identity_keys [OF plain [OF i(2,1)] _ j(2)] j(1) by auto
    qed
  qed
  moreover have "ManifestTargetDedupKey namespace t \<in> subtreeIdentityExcludeKey ` set (?answer child) \<longleftrightarrow>
      (\<exists>root. resolveChildContentName (ms_env ms) namespace child = Inr root \<and>
       (\<exists>n\<in>contents_below (ms_env ms) root. \<exists>objects obj. node_objects ms n = Some objects \<and> obj \<in> set objects \<and>
         aggregatedObjectIdentityKey obj = Some (ManifestTargetDedupKey namespace t)))" if "child \<in> set children" for child
    using ans [OF that] answer_keys by (metis sum.inject(2))
  ultimately show ?thesis unfolding captured_below_def by auto
qed

text \<open>
  C20: The root of a run captures exactly what is left: with the identities its children report, its targets are
  the objects of the namespace and the Namespace itself, less those whose manifest is in a checkpoint below a
  child and less the claims that are captured as volumes of their own; so no manifest is captured twice and
  none is lost between the root and its descendants.
\<close>

theorem root_captures_the_rest:
  assumes "SubtreeManifestIdentities (ms_env ms) (Some (served fuel ms)) (so_namespace root) children latch = Inr ids"
    and "BuildRootNamespaceManifestCaptureTargets fuel digest (ms_env ms) claims dataBearing root rootContentName sweep ids = (Inr ts, un)"
    and "so_name root \<noteq> ''''" "plain_manifests ms"
    and "\<forall>items. claims (so_namespace root) = Inr items \<longrightarrow> distinct (map cm_uid items)"
  shows "\<exists>base items. sweep (Some ExcludeVetoSelector) = (Inr base, un) \<and> claims (so_namespace root) = Inr items \<and>
     set ts = {t \<in> insert \<lparr>mt_apiVersion = ''v1'', mt_kind = ''Namespace'', mt_name = so_namespace root\<rparr> (set base).
       \<not> captured_below ms (so_namespace root) children t \<and>
       ManifestTargetDedupKey (so_namespace root) t \<notin> (ManifestTargetDedupKey (so_namespace root) \<circ> claim_manifest) `
         {pvc \<in> set items. residual_claim (ms_env ms) dataBearing root pvc}}"
proof -
  obtain rootContent owned base where o: "sweep (Some ExcludeVetoSelector) = (Inr base, un)"
    "OwnedPVCManifestTargetsForSnapshot fuel digest (ms_env ms) claims dataBearing root (Some rootContent) = Inr owned"
    "ts = FilterManifestTargets (base @ [\<lparr>mt_apiVersion = ''v1'', mt_kind = ''Namespace'', mt_name = so_namespace root\<rparr>])
       (ManifestTargetDedupKey (so_namespace root) ` set owned \<union> subtreeIdentityExcludeKey ` set ids) (so_namespace root)"
    using assms(2) unfolding BuildRootNamespaceManifestCaptureTargets_def Let_def
    by (auto split: get_res.splits sum.splits prod.splits)
  obtain items where items: "claims (so_namespace root) = Inr items"
    "set owned = claim_manifest ` {pvc \<in> set items. residual_claim (ms_env ms) dataBearing root pvc}"
    using owned_targets_facts [OF o(2) assms(3,5)] by blast
  show ?thesis
    by (rule exI [of _ base], rule exI [of _ items])
      (auto simp: o items filter_targets_set subtree_keys [OF assms(1,4)] image_comp)
qed

section \<open>The download of a node\<close>

lemma append_all:
  assumes "appendObjectsFromManifestCheckpoint ms mcpName [] {} = Inr (objects, seen)"
  shows "LoadManifests ms mcpName = Inr objects \<and> (\<exists>keys. map aggregatedObjectIdentityKey objects = map Some keys \<and> distinct keys)"
  using append_loads [OF assms] append_objects_Inr by fastforce

text \<open>
  C29: A download shows only manifests of the snapshot it is addressed to: the content the snapshot is bound to
  names that very snapshot, and its uid where both are known; the manifests are all those of its checkpoint,
  with pairwise different identities.
\<close>

theorem download_vouched:
  assumes "BuildSingleNodeJSONFromSnapshot ms k namespace n = Inr out"
  shows "\<exists>s content objects keys. e_snapshot (ms_env ms) (gv_string (ms_env ms) k) (g_kind k) namespace n = Found s \<and>
     e_content (ms_env ms) (nval '''' (so_bound s)) = Found content \<and>
     (ct_snapshot_ref content)\<lparr>sr_uid := ''''\<rparr> = snapshot_ref (gv_string (ms_env ms) k) (g_kind k) n namespace \<and>
     (sr_uid (ct_snapshot_ref content) = so_uid s \<or> sr_uid (ct_snapshot_ref content) = '''' \<or> so_uid s = '''') \<and>
     LoadManifests ms (nval '''' (ct_mcp_name content)) = Inr objects \<and>
     map aggregatedObjectIdentityKey objects = map Some keys \<and> distinct keys \<and> cd_encode (ms_codec ms) (JList objects) = Some out"
proof -
  obtain s where s: "e_snapshot (ms_env ms) (gv_string (ms_env ms) k) (g_kind k) namespace n = Found s"
    "owned_node ms (nval '''' (so_bound s)) (gv_string (ms_env ms) k) (g_kind k) namespace n (so_uid s) = Inr out"
    using assms unfolding BuildSingleNodeJSONFromSnapshot_def resolveContentNameFromSnapshot_def
    by (auto split: sum.splits prod.splits if_splits get_res.splits)
  obtain content where c: "e_content (ms_env ms) (nval '''' (so_bound s)) = Found content"
    "verifyContentSnapshotRef (ct_snapshot_ref content) (gv_string (ms_env ms) k) (g_kind k) namespace n (so_uid s) = None"
    "buildSingleNodeJSONFromContentObject ms content = Inr out"
    using s(2) unfolding owned_node_def get_content_def by (auto split: sum.splits get_res.splits if_splits)
  obtain objects seen where o: "appendObjectsFromManifestCheckpoint ms (nval '''' (ct_mcp_name content)) [] {} = Inr (objects, seen)"
    "cd_encode (ms_codec ms) (JList objects) = Some out"
    using c(3) unfolding buildSingleNodeJSONFromContentObject_def Let_def
    by (auto split: sum.splits prod.splits if_splits option.splits)
  have r: "(ct_snapshot_ref content)\<lparr>sr_uid := ''''\<rparr> = snapshot_ref (gv_string (ms_env ms) k) (g_kind k) n namespace \<and>
     (sr_uid (ct_snapshot_ref content) = so_uid s \<or> sr_uid (ct_snapshot_ref content) = '''' \<or> so_uid s = '''')"
    using c(2) unfolding verifyContentSnapshotRef_def snapshot_ref_def by (auto split: if_splits)
  obtain keys where k: "LoadManifests ms (nval '''' (ct_mcp_name content)) = Inr objects"
    "map aggregatedObjectIdentityKey objects = map Some keys" "distinct keys"
    using append_all [OF o(1)] by blast
  show ?thesis
    by (rule exI [of _ s], rule exI [of _ content], rule exI [of _ objects], rule exI [of _ keys]) (use s(1) c(1) r k o(2) in simp)
qed

section \<open>An instance\<close>

text \<open>
  The root \<open>run\<close> of the namespace \<open>old\<close> has the child \<open>vm\<close> with the content \<open>c1\<close>, below which the
  snapshot \<open>disk\<close> with the content \<open>c2\<close> covers the claim \<open>pvc\<close>; the Secret \<open>b\<close> and the claim \<open>left\<close> are
  captured nowhere.
\<close>

definition tree_ref :: "string \<Rightarrow> string \<Rightarrow> snapshot_child_ref" where
  "tree_ref kind name = \<lparr>cr_apiVersion = ''demo/v1'', cr_kind = kind, cr_name = name\<rparr>"

definition tree_snapshot :: "string \<Rightarrow> string \<Rightarrow> string \<Rightarrow> snapshot_child_ref list \<Rightarrow> snapshot_obj" where
  "tree_snapshot kind name content children = demo_snapshot children\<lparr>so_gvk := \<lparr>g_group = ''demo'', g_version = ''v1'', g_kind = kind\<rparr>,
     so_namespace := ''old'', so_name := name, so_bound := NVal content\<rparr>"

definition tree_env :: env where
  "tree_env = sample_env\<lparr>
     e_snapshot := (\<lambda>av k ns n.
       if av = ''demo/v1'' \<and> k = ''Vm'' \<and> ns = ''old'' \<and> n = ''vm'' then Found (tree_snapshot ''Vm'' ''vm'' ''c1'' [tree_ref ''Disk'' ''disk''])
       else if av = ''demo/v1'' \<and> k = ''Disk'' \<and> ns = ''old'' \<and> n = ''disk'' then Found (tree_snapshot ''Disk'' ''disk'' ''c2'' [])
       else NotFound),
     e_content := (\<lambda>n.
       if n = ''c1'' then Found (sample_content\<lparr>ct_snapshot_ref := snapshot_ref ''demo/v1'' ''Vm'' ''vm'' ''old'', ct_mcp_name := NVal ''m1'',
         ct_edges := NVal [Some ''c2'']\<rparr>)
       else if n = ''c2'' then Found (sample_content\<lparr>ct_snapshot_ref := snapshot_ref ''demo/v1'' ''Disk'' ''disk'' ''old'',
         ct_mcp_name := NVal ''m2'', ct_data := Some demo_claim_binding\<rparr>)
       else NotFound)\<rparr>"

definition tree_source :: "(json, json, json) manifest_source" where
  "tree_source = demo_source\<lparr>ms_env := tree_env\<rparr>"

definition tree_root :: snapshot_obj where
  "tree_root = tree_snapshot ''Snapshot'' ''run'' ''c0'' [tree_ref ''Vm'' ''vm'']"

definition tree_claims :: claim_list where
  "tree_claims ns = Inr [\<lparr>cm_uid = ''pu'', cm_name = ''pvc'', cm_namespace = ''old'', cm_labels = Map.empty\<rparr>,
     \<lparr>cm_uid = ''lu'', cm_name = ''left'', cm_namespace = ''old'', cm_labels = Map.empty\<rparr>]"

definition tree_data :: "(string \<Rightarrow> bool) option" where
  "tree_data = Some (\<lambda>k. k = ''Disk'')"

definition tree_target :: "string \<Rightarrow> string \<Rightarrow> manifest_target" where
  "tree_target kind name = \<lparr>mt_apiVersion = ''v1'', mt_kind = kind, mt_name = name\<rparr>"

definition tree_base :: "manifest_target list" where
  "tree_base = [tree_target ''Secret'' ''a'', tree_target pvcKind ''pvc'', tree_target pvcKind ''left'', tree_target ''Secret'' ''b'']"

definition tree_identities :: "identity list" where
  "tree_identities = [\<lparr>id_apiVersion = ''v1'', id_kind = ''Secret'', id_namespace = ''old'', id_name = ''a'', id_uid = ''x''\<rparr>,
     \<lparr>id_apiVersion = ''v1'', id_kind = pvcKind, id_namespace = ''old'', id_name = ''pvc'', id_uid = ''pu''\<rparr>]"

lemma tree_walks:
  "BuildSubtreeManifestIdentities 3 tree_source ''c1'' = Inr tree_identities"
  "SubtreeManifestIdentities tree_env (Some (served 3 tree_source)) ''old'' [tree_ref ''Vm'' ''vm''] None = Inr tree_identities"
  by code_simp+

lemma tree_owned: "ListOwnedPVCTargetsForLogicalContent 3 id tree_env tree_claims tree_data tree_root None =
    Inr [\<lparr>tg_uid = ''lu'', tg_apiVersion = ''v1'', tg_kind = pvcKind, tg_name = ''left'', tg_namespace = ''old''\<rparr>]"
  by code_simp

lemma tree_root_targets:
  "BuildRootNamespaceManifestCaptureTargets 3 id tree_env tree_claims tree_data tree_root ''c1'' (\<lambda>_. (Inr tree_base, [])) tree_identities =
   (Inr [tree_target ''Namespace'' ''old'', tree_target ''Secret'' ''b''], [])"
  by code_simp

lemma tree_download:
  "BuildSingleNodeJSONFromSnapshot tree_source \<lparr>g_group = ''demo'', g_version = ''v1'', g_kind = ''Disk''\<rparr> ''old'' ''disk'' = Inr (JList [demo_claim])"
  by code_simp

lemma subtree_identities_exact_witness:
  "BuildSubtreeManifestIdentities 3 tree_source ''c1'' = Inr tree_identities \<and>
   Some ` set tree_identities = (\<Union>n\<in>contents_below (ms_env tree_source) ''c1''. subtreeManifestIdentityFrom ` set (the (node_objects tree_source n))) \<and>
   distinct (map subtreeIdentityExcludeKey tree_identities)"
  using subtree_identities_exact [OF tree_walks(1)] tree_walks(1) by blast

lemma tree_uids: "\<forall>items. tree_claims (so_namespace tree_root) = Inr items \<longrightarrow> distinct (map cm_uid items)"
  by (simp add: tree_claims_def)

lemma tree_root_name: "so_name tree_root \<noteq> ''''" "so_namespace tree_root = ''old''" "ms_env tree_source = tree_env"
  by (simp_all add: tree_root_def tree_snapshot_def tree_source_def)

lemma residual_claims_exact_witness:
  "\<exists>items. tree_claims ''old'' = Inr items \<and> length items = 2 \<and>
     set [\<lparr>tg_uid = ''lu'', tg_apiVersion = ''v1'', tg_kind = pvcKind, tg_name = ''left'', tg_namespace = ''old''\<rparr>] =
       claim_target ` {pvc \<in> set items. residual_claim tree_env tree_data tree_root pvc}"
proof -
  obtain items where i: "tree_claims ''old'' = Inr items"
    "set [\<lparr>tg_uid = ''lu'', tg_apiVersion = ''v1'', tg_kind = pvcKind, tg_name = ''left'', tg_namespace = ''old''\<rparr>] =
       claim_target ` {pvc \<in> set items. residual_claim tree_env tree_data tree_root pvc}"
    using conjunct1 [OF residual_claims_exact [OF tree_owned tree_root_name(1) tree_uids]] unfolding tree_root_name(2)
    by (elim exE conjE)
  have "length items = 2" using i(1) unfolding tree_claims_def by clarsimp
  then show ?thesis using i by (intro exI conjI)
qed

lemma tree_contents: "readable_contents tree_env \<subseteq> {''c1'', ''c2''}"
  by (auto simp: readable_contents_def tree_env_def split: if_splits)

lemma tree_keys: "snapshot_keys tree_env ''old'' \<subseteq> {ref_key (tree_ref ''Vm'' ''vm''), ref_key (tree_ref ''Disk'' ''disk'')}"
  by (auto simp: snapshot_keys_def tree_env_def tree_ref_def ref_key_def split: if_splits)

lemma small_set: "A \<subseteq> {x, y} \<Longrightarrow> finite A \<and> card A < 3"
proof -
  assume "A \<subseteq> {x, y}"
  then have "card A \<le> card {x, y}" "finite A" by (auto intro: card_mono finite_subset)
  moreover have "card {x, y} \<le> 2" by (simp add: card_insert_if)
  ultimately show ?thesis by simp
qed

lemma tree_walks_terminate_witness:
  "BuildSubtreeManifestIdentities 9 tree_source ''c1'' = Inr tree_identities \<and>
   CollectSubtreeCoveredPVCUIDsFromSnapshot 9 tree_env tree_data tree_root \<noteq> Inl OutOfFuel"
proof -
  have c: "finite (readable_contents (ms_env tree_source))" "card (readable_contents (ms_env tree_source)) < 3"
    "finite (snapshot_keys tree_env (so_namespace tree_root))" "card (snapshot_keys tree_env (so_namespace tree_root)) < 3"
    using small_set [OF tree_contents] small_set [OF tree_keys] by (simp_all add: tree_root_name)
  note t = tree_walks_terminate [OF c, of "''c1''" tree_data]
  note m = conjunct2 [OF conjunct2 [OF t], THEN spec, THEN mp, of 9]
  have "(3::nat) \<le> 9" by simp
  note m = m [OF this]
  show ?thesis unfolding conjunct1 [OF m] conjunct2 [OF m] by (intro conjI tree_walks(1) conjunct1 [OF conjunct2 [OF t]])
qed

lemma tree_load:
  "LoadManifests tree_source ''m1'' = Inr [demo_secret]" "LoadManifests tree_source ''m2'' = Inr [demo_claim]"
  by code_simp+

lemma tree_plain: "plain_manifests tree_source"
proof -
  have "objects = [demo_secret] \<or> objects = [demo_claim]" if "node_objects tree_source n = Some objects" for n objects
    using that tree_load by (auto simp: node_objects_def tree_root_name tree_env_def split: if_splits)
  moreover have "subtreeManifestIdentityFrom demo_secret = Some i \<Longrightarrow> plain_identity i"
    "subtreeManifestIdentityFrom demo_claim = Some i \<Longrightarrow> plain_identity i" for i
    by (auto simp: subtreeManifestIdentityFrom_def demo_secret_def demo_claim_def jstring_def plain_identity_def)
  ultimately show ?thesis unfolding plain_manifests_def by fastforce
qed

lemma root_captures_the_rest_witness:
  "\<exists>items. tree_claims ''old'' = Inr items \<and>
     set [tree_target ''Namespace'' ''old'', tree_target ''Secret'' ''b''] =
     {t \<in> insert (tree_target ''Namespace'' ''old'') (set tree_base). \<not> captured_below tree_source ''old'' [tree_ref ''Vm'' ''vm''] t \<and>
       ManifestTargetDedupKey ''old'' t \<notin> (ManifestTargetDedupKey ''old'' \<circ> claim_manifest) `
         {pvc \<in> set items. residual_claim tree_env tree_data tree_root pvc}}"
proof -
  have i: "SubtreeManifestIdentities (ms_env tree_source) (Some (served 3 tree_source)) (so_namespace tree_root)
      [tree_ref ''Vm'' ''vm''] None = Inr tree_identities"
    using tree_walks(2) by (simp only: tree_root_name)
  have b: "BuildRootNamespaceManifestCaptureTargets 3 id (ms_env tree_source) tree_claims tree_data tree_root ''c1''
      (\<lambda>_. (Inr tree_base, [])) tree_identities = (Inr [tree_target ''Namespace'' ''old'', tree_target ''Secret'' ''b''], [])"
    using tree_root_targets by (simp only: tree_root_name)
  from root_captures_the_rest [OF i b tree_root_name(1) tree_plain tree_uids] show ?thesis
    unfolding tree_root_name by (elim exE conjE) (simp only: prod.inject sum.inject tree_target_def; blast)
qed

lemma download_vouched_witness:
  "\<exists>content. e_content tree_env ''c2'' = Found content \<and>
     (ct_snapshot_ref content)\<lparr>sr_uid := ''''\<rparr> = snapshot_ref ''demo/v1'' ''Disk'' ''disk'' ''old'' \<and>
     LoadManifests tree_source (nval '''' (ct_mcp_name content)) = Inr [demo_claim]"
  using download_vouched [OF tree_download]
  by (auto simp: tree_root_name tree_env_def tree_snapshot_def sample_env_def demo_snapshot_def tree_source_def demo_source_def
      checked_codec_def demo_codec_def split: if_splits)

end
