(* ===== verification/Snapshot_Binding.thy ===== *)
theory Snapshot_Binding
  imports Import_Checkpoint Excluded_Refs Data_Leg_Projection
begin

text \<open>
  The generic binding controller (\<open>controllers/genericbinder\<close>, \<open>snapshotbinding/binding.go\<close>, \<open>snaphelpers/lifecycle_ownerrefs.go\<close>):
  it creates the SnapshotContent of a snapshot, anchors it to the content of the parent snapshot or to a root
  ObjectKeeper, binds the snapshot to it and copies the descriptive fields of the content back.

  A pass works on a \<open>cluster\<close>: the snapshots by kind, namespace and name, the contents by kind and name, the
  root keepers, and the \<open>world\<close> of \<open>Manifest_Capture\<close> for the checkpoints. The \<open>n\<close>-th call of a pass fails when
  \<open>os_fault\<close> says so; \<open>ErrNotFound\<close> for an object that exists is a stale cache. A failed write has no effect,
  and a function that \<open>retry.RetryOnConflict\<close> repeats is its last run.
\<close>

section \<open>State\<close>

record bound_snapshot = snapshot_obj +
  bs_owner_refs :: "owner_ref list"
  bs_claimed :: bool
  bs_data :: "json option"

record bound_content = snapshot_content +
  bc_policy :: string
  bc_protected :: bool

record root_keeper =
  rk_name :: string
  rk_uid :: string
  rk_mode :: string
  rk_follow :: "subject_ref option"
  rk_ttl :: "int option"
  rk_protected :: bool

record 'd cluster =
  cl_snapshots :: "gvk \<Rightarrow> string \<Rightarrow> string \<Rightarrow> bound_snapshot option"
  cl_contents :: "gvk \<Rightarrow> string \<Rightarrow> bound_content option"
  cl_keepers :: "string \<Rightarrow> root_keeper option"
  cl_capture :: "'d world"

text \<open>
  The controller: its registry, the kinds in the order of registration, the active watches and the kinds
  that a domain controller plans. \<open>cfg_ttl\<close> is \<open>Config.SnapshotTTLAfterDelete\<close>, None for a nil \<open>Config\<close>.
\<close>

record controller =
  bn_registry :: registry
  bn_kinds :: "gvk list"
  bn_active :: "string list"
  bn_domain_kinds :: "string list"
  bn_ttl :: "int option"

datatype bind_err = CallErr api_err | RegistryErr registry_error | RefErr err | BindErr string

datatype pass = PassDone | PassRequeue | PassAfter nat | PassErr bind_err

type_synonym ('d, 'a) bound = "(bind_err + 'a) \<times> 'd cluster"

section \<open>Calls\<close>

definition kind_of_storage :: "string \<Rightarrow> gvk" where
  "kind_of_storage kind = parseGVK kind storageGroupVersion"

abbreviation "storageContentGVK \<equiv> kind_of_storage kindSnapshotContent"

definition call :: "('t, 'g, 'd) outside \<Rightarrow> 'd cluster \<Rightarrow> api_err option \<times> 'd cluster" where
  "call os w = (case served os (cl_capture w) of (x, cw) \<Rightarrow> (x, w\<lparr>cl_capture := cw\<rparr>))"

definition read_call :: "('t, 'g, 'd) outside \<Rightarrow> ('d cluster \<Rightarrow> 'a option) \<Rightarrow> 'd cluster \<Rightarrow> (api_err + 'a) \<times> 'd cluster" where
  "read_call os look w = (case call os w of
     (Some x, w') \<Rightarrow> (Inl x, w')
   | (None, w') \<Rightarrow> ((case look w of None \<Rightarrow> Inl ErrNotFound | Some a \<Rightarrow> Inr a), w'))"

definition read_snapshot :: "('t, 'g, 'd) outside \<Rightarrow> gvk \<Rightarrow> string \<Rightarrow> string \<Rightarrow> 'd cluster \<Rightarrow> (api_err + bound_snapshot) \<times> 'd cluster" where
  "read_snapshot os k ns n = read_call os (\<lambda>w. cl_snapshots w k ns n)"

definition read_content :: "('t, 'g, 'd) outside \<Rightarrow> gvk \<Rightarrow> string \<Rightarrow> 'd cluster \<Rightarrow> (api_err + bound_content) \<times> 'd cluster" where
  "read_content os k n = read_call os (\<lambda>w. cl_contents w k n)"

definition read_keeper :: "('t, 'g, 'd) outside \<Rightarrow> string \<Rightarrow> 'd cluster \<Rightarrow> (api_err + root_keeper) \<times> 'd cluster" where
  "read_keeper os n = read_call os (\<lambda>w. cl_keepers w n)"

definition store_snapshot :: "bound_snapshot \<Rightarrow> 'd cluster \<Rightarrow> 'd cluster" where
  "store_snapshot s w = w\<lparr>cl_snapshots := (cl_snapshots w)(so_gvk s :=
     (cl_snapshots w (so_gvk s))(so_namespace s := (cl_snapshots w (so_gvk s) (so_namespace s))(so_name s \<mapsto> s)))\<rparr>"

definition store_content :: "gvk \<Rightarrow> bound_content \<Rightarrow> 'd cluster \<Rightarrow> 'd cluster" where
  "store_content k c w = w\<lparr>cl_contents := (cl_contents w)(k := (cl_contents w k)(ct_name c \<mapsto> c))\<rparr>"

definition store_keeper :: "root_keeper \<Rightarrow> 'd cluster \<Rightarrow> 'd cluster" where
  "store_keeper kp w = w\<lparr>cl_keepers := (cl_keepers w)(rk_name kp \<mapsto> kp)\<rparr>"

text \<open>A write of an object that was read in the same pass.\<close>

definition write_call :: "('t, 'g, 'd) outside \<Rightarrow> ('d cluster \<Rightarrow> 'd cluster) \<Rightarrow> 'd cluster \<Rightarrow> api_err option \<times> 'd cluster" where
  "write_call os f w = (case call os w of (Some x, w') \<Rightarrow> (Some x, w') | (None, w') \<Rightarrow> (None, f w'))"

definition create_content :: "('t, 'g, 'd) outside \<Rightarrow> gvk \<Rightarrow> bound_content \<Rightarrow> 'd cluster \<Rightarrow> api_err option \<times> 'd cluster" where
  "create_content os k c w = (case call os w of
     (Some x, w') \<Rightarrow> (Some x, w')
   | (None, w') \<Rightarrow> if cl_contents w k (ct_name c) \<noteq> None then (Some AlreadyExists, w')
       else (None, store_content k (c\<lparr>ct_uid := os_uid os (ct_name c)\<rparr>) w'))"

definition create_root_keeper :: "('t, 'g, 'd) outside \<Rightarrow> root_keeper \<Rightarrow> 'd cluster \<Rightarrow> api_err option \<times> 'd cluster" where
  "create_root_keeper os kp w = (case call os w of
     (Some x, w') \<Rightarrow> (Some x, w')
   | (None, w') \<Rightarrow> if cl_keepers w (rk_name kp) \<noteq> None then (Some AlreadyExists, w')
       else (None, store_keeper (kp\<lparr>rk_uid := os_uid os (rk_name kp)\<rparr>) w'))"

section \<open>References\<close>

definition SnapshotSubjectRefFromObject :: "env \<Rightarrow> bound_snapshot \<Rightarrow> subject_ref" where
  "SnapshotSubjectRefFromObject e s = \<lparr>sr_apiVersion = gv_string e (so_gvk s), sr_kind = g_kind (so_gvk s),
     sr_name = so_name s, sr_namespace = so_namespace s, sr_uid = so_uid s\<rparr>"

definition StableContentName :: "(string \<Rightarrow> string) \<Rightarrow> string \<Rightarrow> string \<Rightarrow> string" where
  "StableContentName H snapshotName snapshotUID = ContentName H snapshotUID"

abbreviation content_name_of :: "('t, 'g, 'd) outside \<Rightarrow> bound_snapshot \<Rightarrow> string" where
  "content_name_of os s \<equiv> StableContentName (cd_digest (os_codec os)) (so_name s) (so_uid s)"

definition RootObjectKeeperName :: "(string \<Rightarrow> string) \<Rightarrow> string \<Rightarrow> string" where
  "RootObjectKeeperName H snapshotUID = ObjectKeeperName H snapshotUID"

definition snapshot_owner :: "owner_ref \<Rightarrow> bool" where
  "snapshot_owner ref = has_suffix (or_kind ref) ''Snapshot''"

definition IsRootSnapshot :: "bound_snapshot \<Rightarrow> bool" where
  "IsRootSnapshot s = (\<not> list_ex snapshot_owner (bs_owner_refs s))"

definition SnapshotParentOwnerRef :: "bound_snapshot \<Rightarrow> owner_ref option" where
  "SnapshotParentOwnerRef s = List.find snapshot_owner (bs_owner_refs s)"

definition RootObjectKeeperOwnerReference :: "root_keeper \<Rightarrow> owner_ref" where
  "RootObjectKeeperOwnerReference kp = \<lparr>or_apiVersion = ''deckhouse.io/v1alpha1'', or_kind = ''ObjectKeeper'',
     or_name = rk_name kp, or_uid = rk_uid kp, or_controller = Some True\<rparr>"

definition content_owner_reference :: "bound_content \<Rightarrow> owner_ref" where
  "content_owner_reference c = SnapshotContentOwnerReference (snapshot_content.truncate c)"

definition bound_name :: "bound_snapshot \<Rightarrow> string" where
  "bound_name s = nval '''' (so_bound s)"

section \<open>The root keeper\<close>

definition DefaultSnapshotTTLAfterDelete :: int where
  "DefaultSnapshotTTLAfterDelete = 30 * 24 * 3600 * 1000000000"

definition RootObjectKeeperTTL :: "int option \<Rightarrow> int" where
  "RootObjectKeeperTTL cfg = (case cfg of None \<Rightarrow> DefaultSnapshotTTLAfterDelete
     | Some t \<Rightarrow> if t > 0 then t else DefaultSnapshotTTLAfterDelete)"

definition wanted_keeper :: "('t, 'g, 'd) outside \<Rightarrow> controller \<Rightarrow> bound_snapshot \<Rightarrow> root_keeper" where
  "wanted_keeper os b s = \<lparr>rk_name = RootObjectKeeperName (cd_digest (os_codec os)) (so_uid s), rk_uid = '''',
     rk_mode = ''FollowObjectWithTTL'', rk_follow = Some (SnapshotSubjectRefFromObject (os_env os) s),
     rk_ttl = Some (RootObjectKeeperTTL (bn_ttl b)), rk_protected = True\<rparr>"

definition validateRootObjectKeeper :: "root_keeper \<Rightarrow> root_keeper \<Rightarrow> bind_err option" where
  "validateRootObjectKeeper kp want =
     (case (rk_follow kp, rk_follow want) of
        (Some got, Some wr) \<Rightarrow> if got \<noteq> wr then Some (BindErr ''belongs to another snapshot-run'') else None
      | _ \<Rightarrow> Some (BindErr ''has no FollowObjectRef''))"

definition rootObjectKeeperSpecMatches :: "root_keeper \<Rightarrow> root_keeper \<Rightarrow> bool" where
  "rootObjectKeeperSpecMatches want got =
     (if rk_mode got \<noteq> rk_mode want then False
      else case (rk_follow got, rk_follow want) of
        (Some g, Some wr) \<Rightarrow>
          if g \<noteq> wr then False
          else (case (rk_ttl got, rk_ttl want) of
            (Some t, Some u) \<Rightarrow> t = u | (None, None) \<Rightarrow> True | _ \<Rightarrow> False)
      | _ \<Rightarrow> False)"

definition reread_keeper :: "('t, 'g, 'd) outside \<Rightarrow> string \<Rightarrow> 'd cluster \<Rightarrow> ((root_keeper + pass) \<times> 'd cluster)" where
  "reread_keeper os name w = (case read_keeper os name w of
     (Inl _, w) \<Rightarrow> (Inr (PassAfter 200), w) | (Inr kp, w) \<Rightarrow> (Inl kp, w))"

text \<open>The keeper, or the outcome that ends the pass.\<close>

definition EnsureRootObjectKeeperWithTTL ::
  "('t, 'g, 'd) outside \<Rightarrow> controller \<Rightarrow> bound_snapshot \<Rightarrow> 'd cluster \<Rightarrow> (root_keeper + pass) \<times> 'd cluster" where
  "EnsureRootObjectKeeperWithTTL os b s w =
     (if so_uid s = '''' then (Inr PassRequeue, w)
      else let want = wanted_keeper os b s; name = rk_name want in
        case read_keeper os name w of
          (Inr kp, w) \<Rightarrow>
            (case validateRootObjectKeeper kp want of
               Some x \<Rightarrow> (Inr (PassErr x), w)
             | None \<Rightarrow>
                 if \<not> rootObjectKeeperSpecMatches want kp
                 then (case write_call os (store_keeper (kp\<lparr>rk_mode := rk_mode want, rk_follow := rk_follow want,
                           rk_ttl := rk_ttl want\<rparr>)) w of
                     (Some x, w) \<Rightarrow> (Inr (PassErr (CallErr x)), w)
                   | (None, w) \<Rightarrow> reread_keeper os name w)
                 else (Inl kp, w))
        | (Inl x, w) \<Rightarrow>
            if x \<noteq> ErrNotFound then (Inr (PassErr (CallErr x)), w)
            else (case create_root_keeper os want w of
                (Some x, w) \<Rightarrow> (Inr (PassErr (CallErr x)), w)
              | (None, w) \<Rightarrow> reread_keeper os name w))"

section \<open>The content of the parent\<close>

definition parent_content_name :: "owner_ref \<Rightarrow> bound_snapshot \<Rightarrow> bool \<Rightarrow> bind_err + string" where
  "parent_content_name ref parent typed =
     (if or_uid ref \<noteq> '''' \<and> so_uid parent \<noteq> or_uid ref then Inl (BindErr ''UID mismatch'')
      else if typed then Inr (bound_name parent)
      else case nested_or_fail ''status.boundSnapshotContentName'' '''' (so_bound parent) of
        Inl x \<Rightarrow> Inl (RefErr x) | Inr name \<Rightarrow> Inr name)"

text \<open>The reference, and whether the parent is still unbound.\<close>

definition ResolveParentSnapshotContentOwnerRef ::
  "('t, 'g, 'd) outside \<Rightarrow> bound_snapshot \<Rightarrow> 'd cluster \<Rightarrow> ('d, owner_ref option \<times> bool) bound" where
  "ResolveParentSnapshotContentOwnerRef os child w =
     (case SnapshotParentOwnerRef child of
        None \<Rightarrow> (Inr (None, False), w)
      | Some ref \<Rightarrow>
        let typed = (or_apiVersion ref = storageGroupVersion \<and> or_kind ref = ''Snapshot'');
            kind = (if typed then kind_of_storage ''Snapshot'' else gvk_of (os_env os) (or_apiVersion ref) (or_kind ref))
        in if \<not> typed \<and> parse_gv_error (os_env os) (or_apiVersion ref) \<noteq> None
           then (Inl (BindErr ''unexpected GroupVersion string''), w)
           else case read_snapshot os kind (so_namespace child) (or_name ref) w of
             (Inl x, w) \<Rightarrow> (Inl (CallErr x), w)
           | (Inr parent, w) \<Rightarrow>
             (case parent_content_name ref parent typed of
                Inl x \<Rightarrow> (Inl x, w)
              | Inr name \<Rightarrow>
                  if name = '''' then (Inr (None, True), w)
                  else (case read_content os storageContentGVK name w of
                      (Inl x, w) \<Rightarrow> (Inl (CallErr x), w)
                    | (Inr c, w) \<Rightarrow> (Inr (Some (content_owner_reference c), False), w))))"

text \<open>The owner references of a content; the patch replaces the whole list.\<close>

definition EnsureLifecycleOwnerRef ::
  "('t, 'g, 'd) outside \<Rightarrow> gvk \<Rightarrow> bound_content \<Rightarrow> owner_ref \<Rightarrow> 'd cluster \<Rightarrow> ('d, bool) bound" where
  "EnsureLifecycleOwnerRef os k c desired w =
     (case lifecycleOwnerRefs (ct_owner_refs c) desired of
        Inl x \<Rightarrow> (Inl (RefErr (Wrap (ct_name c) x)), w)
      | Inr (refs, changed) \<Rightarrow>
          if \<not> changed then (Inr False, w)
          else (case write_call os (store_content k (c\<lparr>ct_owner_refs := refs\<rparr>)) w of
              (Some x, w) \<Rightarrow> (Inl (CallErr x), w)
            | (None, w) \<Rightarrow> (Inr True, w)))"

section \<open>Binding\<close>

definition PatchUnstructuredBoundContentName ::
  "('t, 'g, 'd) outside \<Rightarrow> string \<Rightarrow> string \<Rightarrow> gvk \<Rightarrow> string \<Rightarrow> 'd cluster \<Rightarrow> bind_err option \<times> 'd cluster" where
  "PatchUnstructuredBoundContentName os ns n k contentName w =
     (case read_snapshot os k ns n w of
        (Inl x, w) \<Rightarrow> (Some (CallErr x), w)
      | (Inr s, w) \<Rightarrow>
        (case nested_or_fail ''status.boundSnapshotContentName'' '''' (so_bound s) of
           Inl x \<Rightarrow> (Some (RefErr x), w)
         | Inr current \<Rightarrow>
             if current = contentName then (None, w)
             else (case write_call os (store_snapshot (s\<lparr>so_bound := NVal contentName\<rparr>)) w of
                 (Some x, w) \<Rightarrow> (Some (CallErr x), w) | (None, w) \<Rightarrow> (None, w))))"

text \<open>A content without \<open>spec.snapshotRef\<close> has \<open>zero_subject_ref\<close>.\<close>

definition contentSnapshotRefMatchesSnapshot :: "env \<Rightarrow> bound_content \<Rightarrow> gvk \<Rightarrow> bound_snapshot \<Rightarrow> bool" where
  "contentSnapshotRefMatchesSnapshot e c k s =
     (let r = ct_snapshot_ref c in
      if r = zero_subject_ref then False
      else if sr_uid r \<noteq> '''' \<and> sr_uid r \<noteq> so_uid s then False
      else sr_apiVersion r = gv_string e k \<and> sr_kind r = g_kind k \<and> sr_name r = so_name s \<and>
           sr_namespace r = so_namespace s)"

definition new_content :: "string \<Rightarrow> string \<Rightarrow> subject_ref \<Rightarrow> owner_ref \<Rightarrow> bound_content" where
  "new_content name policy ref owner =
     \<lparr>ct_name = name, ct_uid = '''', ct_generation = 1, ct_deleting = False, ct_finalizers = [],
      ct_owner_refs = [owner], ct_snapshot_ref = ref, ct_conditions = [], ct_mcp_name = NAbsent, ct_data = None,
      ct_edges = NAbsent, ct_subtree_persisted = False, ct_excluded = [], ct_bound_deleted = False, ct_status_present = False,
      bc_policy = policy, bc_protected = True\<rparr>"

definition content_gvk :: "controller \<Rightarrow> gvk \<Rightarrow> bind_err + gvk" where
  "content_gvk b k = (case ResolveSnapshotContentGVK (g_kind k) (bn_registry b) of
     Inl x \<Rightarrow> Inl (RegistryErr x) | Inr ck \<Rightarrow> Inr ck)"

section \<open>Conditions and mirrors\<close>

definition same_ready :: "env \<Rightarrow> bound_snapshot \<Rightarrow> string \<Rightarrow> string \<Rightarrow> bool" where
  "same_ready e s reason message = (case find_condition e (so_conditions s) ConditionReady of
     None \<Rightarrow> False
   | Some c \<Rightarrow> co_status c = ConditionFalse \<and> co_reason c = reason \<and> co_message c = message \<and> co_gen c = so_generation s)"

definition with_not_ready :: "env \<Rightarrow> string \<Rightarrow> string \<Rightarrow> bound_snapshot \<Rightarrow> bound_snapshot" where
  "with_not_ready e reason message s = s\<lparr>so_conditions :=
     map (stamp_generation ConditionReady (so_generation s))
       (SetCondition e (so_conditions s) ConditionReady ConditionFalse reason message)\<rparr>"

definition patchSnapshotNotReadyFromContent ::
  "('t, 'g, 'd) outside \<Rightarrow> bound_snapshot \<Rightarrow> string \<Rightarrow> string \<Rightarrow> 'd cluster \<Rightarrow> bind_err option \<times> 'd cluster" where
  "patchSnapshotNotReadyFromContent os s reason message w =
     (if same_ready (os_env os) s reason message then (None, w)
      else case read_snapshot os (so_gvk s) (so_namespace s) (so_name s) w of
        (Inl x, w) \<Rightarrow> (Some (CallErr x), w)
      | (Inr fresh, w) \<Rightarrow>
          if same_ready (os_env os) fresh reason message then (None, w)
          else (case write_call os (store_snapshot (with_not_ready (os_env os) reason message fresh)) w of
              (Some x, w) \<Rightarrow> (Some (CallErr x), w) | (None, w) \<Rightarrow> (None, w)))"

definition mirrorExcludedRefsFromContent ::
  "('t, 'g, 'd) outside \<Rightarrow> bound_snapshot \<Rightarrow> bound_content \<Rightarrow> 'd cluster \<Rightarrow> bind_err option \<times> 'd cluster" where
  "mirrorExcludedRefsFromContent os s c w =
     (let desired = sortExcludedObjectRefs (ct_excluded c) in
      if excludedObjectRefsEqualIgnoreOrder (so_excluded s) desired then (None, w)
      else case read_snapshot os (so_gvk s) (so_namespace s) (so_name s) w of
        (Inl x, w) \<Rightarrow> (Some (CallErr x), w)
      | (Inr fresh, w) \<Rightarrow>
          if excludedObjectRefsEqualIgnoreOrder (so_excluded fresh) desired then (None, w)
          else (case write_call os (store_snapshot (fresh\<lparr>so_excluded := desired\<rparr>)) w of
              (Some x, w) \<Rightarrow> (Some (CallErr x), w) | (None, w) \<Rightarrow> (None, w)))"

definition opt_field :: "string \<Rightarrow> string \<Rightarrow> jmap \<Rightarrow> jmap" where
  "opt_field k v m = (if v \<noteq> '''' then jput k (JStr v) m else m)"

definition SnapshotDataBindingToUnstructuredMap :: "data_binding \<Rightarrow> json" where
  "SnapshotDataBindingToUnstructuredMap d =
     (let src = SourceRef d; art = ArtifactRef d;
          sourceRef = opt_field ''uid'' (sr_uid src) (opt_field ''namespace'' (sr_namespace src)
            (jput ''apiVersion'' (JStr (sr_apiVersion src)) (jput ''kind'' (JStr (sr_kind src))
              (jput ''name'' (JStr (sr_name src)) []))));
          artifactRef = opt_field ''uid'' (ar_uid art) (jput ''apiVersion'' (JStr (ar_apiVersion art))
            (jput ''kind'' (JStr (ar_kind art)) (jput ''name'' (JStr (ar_name art)) [])))
      in JMap (opt_field ''size'' (Size d) (opt_field ''storageClassName'' (StorageClassName d)
           (opt_field ''fsType'' (FsType d) (opt_field ''volumeMode'' (VolumeMode d)
             (jput ''sourceRef'' (JMap sourceRef) (jput ''artifactRef'' (JMap artifactRef) [])))))))"

definition mirrorDataToLeaf ::
  "('t, 'g, 'd) outside \<Rightarrow> bound_snapshot \<Rightarrow> data_binding \<Rightarrow> 'd cluster \<Rightarrow> bind_err option \<times> 'd cluster" where
  "mirrorDataToLeaf os s d w =
     (let desired = SnapshotDataBindingToUnstructuredMap d in
      case read_snapshot os (so_gvk s) (so_namespace s) (so_name s) w of
        (Inl x, w) \<Rightarrow> (Some (CallErr x), w)
      | (Inr fresh, w) \<Rightarrow>
          if bs_data fresh = Some desired then (None, w)
          else (case write_call os (store_snapshot (fresh\<lparr>bs_data := Some desired\<rparr>)) w of
              (Some x, w) \<Rightarrow> (Some (CallErr x), w) | (None, w) \<Rightarrow> (None, w)))"

definition mirrorLeafDataFromContent ::
  "('t, 'g, 'd) outside \<Rightarrow> bound_snapshot \<Rightarrow> string \<Rightarrow> 'd cluster \<Rightarrow> bind_err option \<times> 'd cluster" where
  "mirrorLeafDataFromContent os s contentName w =
     (case read_content os storageContentGVK contentName w of
        (Inl x, w) \<Rightarrow> (Some (CallErr x), w)
      | (Inr c, w) \<Rightarrow> (case ct_data c of None \<Rightarrow> (None, w) | Some d \<Rightarrow> mirrorDataToLeaf os s d w))"

definition checkConsistencyAndSetReady ::
  "('t, 'g, 'd) outside \<Rightarrow> controller \<Rightarrow> bound_snapshot \<Rightarrow> 'd cluster \<Rightarrow> bind_err option \<times> 'd cluster" where
  "checkConsistencyAndSetReady os b s w =
     (let contentName = bound_name s in
      if contentName = '''' then patchSnapshotNotReadyFromContent os s ReasonContentMissing ''SnapshotContent is not bound'' w
      else case content_gvk b (so_gvk s) of
        Inl x \<Rightarrow> (Some x, w)
      | Inr k \<Rightarrow>
        (case read_content os k contentName w of
           (Inl x, w) \<Rightarrow>
             if x = ErrNotFound
             then patchSnapshotNotReadyFromContent os s ReasonContentMissing (''SnapshotContent '' @ contentName @ '' not found'') w
             else (Some (CallErr x), w)
         | (Inr c, w) \<Rightarrow>
             if ct_deleting c
             then patchSnapshotNotReadyFromContent os s ''Deleting'' (''SnapshotContent '' @ contentName @ '' is being deleted'') w
             else (None, snd (mirrorExcludedRefsFromContent os s c w))))"

section \<open>The deletion of a snapshot\<close>

definition markBoundSnapshotDeletedOnContent ::
  "('t, 'g, 'd) outside \<Rightarrow> controller \<Rightarrow> bound_snapshot \<Rightarrow> 'd cluster \<Rightarrow> bind_err option \<times> 'd cluster" where
  "markBoundSnapshotDeletedOnContent os b s w =
     (let contentName = bound_name s;
          contentName = (if contentName = '''' \<and> so_uid s \<noteq> '''' then content_name_of os s else contentName)
      in if contentName = '''' then (None, w)
         else case content_gvk b (so_gvk s) of
           Inl x \<Rightarrow> (Some x, w)
         | Inr k \<Rightarrow>
           (case read_content os k contentName w of
              (Inl x, w) \<Rightarrow> (if x = ErrNotFound then None else Some (CallErr x), w)
            | (Inr c, w) \<Rightarrow>
                if ct_bound_deleted c then (None, w)
                else (case write_call os (store_content k (c\<lparr>ct_bound_deleted := True\<rparr>)) w of
                    (Some x, w) \<Rightarrow> (Some (CallErr x), w) | (None, w) \<Rightarrow> (None, w))))"

text \<open>The checkpoint of an import is deleted before the content is bound; the three steps ignore errors.\<close>

definition delete_unbound_import ::
  "('t, 'g, 'd) outside \<Rightarrow> bound_snapshot \<Rightarrow> 'd cluster \<Rightarrow> 'd cluster" where
  "delete_unbound_import os s w =
     (if so_import_mode s \<and> bound_name s = ''''
      then w\<lparr>cl_capture := snd (DeleteReconstructedManifestCheckpoint os (so_uid s) (cl_capture w))\<rparr> else w)"

definition reconcile_deleted ::
  "('t, 'g, 'd) outside \<Rightarrow> controller \<Rightarrow> bound_snapshot \<Rightarrow> 'd cluster \<Rightarrow> pass \<times> 'd cluster" where
  "reconcile_deleted os b s w =
     (let w = delete_unbound_import os s w;
          w = snd (patchSnapshotNotReadyFromContent os s ''Deleting'' ''this snapshot is being deleted'' w);
          w = snd (markBoundSnapshotDeletedOnContent os b s w)
      in (PassDone, w))"

section \<open>The import of a snapshot\<close>

abbreviation pollInterval :: nat where "pollInterval \<equiv> 5000"

text \<open>The owner of the content and whether the snapshot is a root, or the outcome that ends the pass.\<close>

definition import_owner ::
  "('t, 'g, 'd) outside \<Rightarrow> controller \<Rightarrow> bound_snapshot \<Rightarrow> 'd cluster \<Rightarrow> (owner_ref \<times> bool + pass) \<times> 'd cluster" where
  "import_owner os b s w =
     (case ResolveParentSnapshotContentOwnerRef os s w of
        (Inl x, w) \<Rightarrow> (Inr (PassErr x), w)
      | (Inr (Some ref, _), w) \<Rightarrow> (Inl (ref, False), w)
      | (Inr (None, pending), w) \<Rightarrow>
          if pending then (Inr (PassAfter pollInterval), w)
          else if \<not> IsRootSnapshot s then (Inr PassDone, w)
          else (case EnsureRootObjectKeeperWithTTL os b s w of
              (Inr p, w) \<Rightarrow> (Inr p, w)
            | (Inl kp, w) \<Rightarrow> (Inl (RootObjectKeeperOwnerReference kp, True), w)))"

definition import_create ::
  "('t, 'g, 'd) outside \<Rightarrow> bound_snapshot \<Rightarrow> owner_ref \<Rightarrow> 'd cluster \<Rightarrow> pass \<times> 'd cluster" where
  "import_create os s ownerRef w =
     (let contentName = content_name_of os s in
      case create_content os storageContentGVK
          (new_content contentName ''Delete'' (SnapshotSubjectRefFromObject (os_env os) s) ownerRef) w of
        (x, w) \<Rightarrow>
          if x \<noteq> None \<and> x \<noteq> Some AlreadyExists then (PassErr (CallErr (the x)), w)
          else (case PatchUnstructuredBoundContentName os (so_namespace s) (so_name s) (so_gvk s) contentName w of
              (Some e, w) \<Rightarrow> (PassErr e, w)
            | (None, w) \<Rightarrow> (PassRequeue, w)))"

definition import_finish ::
  "('t, 'g, 'd) outside \<Rightarrow> controller \<Rightarrow> bound_snapshot \<Rightarrow> 'd cluster \<Rightarrow> pass \<times> 'd cluster" where
  "import_finish os b s w =
     (let w = snd (checkConsistencyAndSetReady os b s w)
      in (if \<not> IsReady (os_env os) (so_conditions s) then PassAfter pollInterval else PassDone, w))"

text \<open>The co-written failure of an import; the messages name the offending objects.\<close>

definition import_failed ::
  "('t, 'g, 'd) outside \<Rightarrow> bound_snapshot \<Rightarrow> string \<Rightarrow> string \<Rightarrow> 'd cluster \<Rightarrow> pass \<times> 'd cluster" where
  "import_failed os s reason message w =
     (case patchSnapshotNotReadyFromContent os s reason message w of
        (Some x, w) \<Rightarrow> (PassErr x, w) | (None, w) \<Rightarrow> (PassDone, w))"

definition ambiguous_message :: "env \<Rightarrow> bound_snapshot \<Rightarrow> string" where
  "ambiguous_message e s = ''found '' @ show_nat (case e_data_imports e (so_namespace s) of Inl _ \<Rightarrow> 0
       | Inr items \<Rightarrow> length (filter (di_matches e (snapshot_obj.truncate s)) items)) @
     '' DataImports targeting '' @ g_kind (so_gvk s) @ '' '' @ so_namespace s @ ''/'' @ so_name s @
     ''; exactly one is required''"

definition artifact_message :: "data_import \<Rightarrow> string" where
  "artifact_message d = ''DataImport '' @ di_name d @ '' produced a '' @ [CHR 0x22] @ ar_kind (di_artifact d) @ [CHR 0x22] @
     '' data artifact; import dataRef currently supports VolumeSnapshotContent only''"

definition import_data ::
  "('t, 'g, 'd) outside \<Rightarrow> controller \<Rightarrow> bound_snapshot \<Rightarrow> bound_content \<Rightarrow> 'd cluster \<Rightarrow> pass \<times> 'd cluster" where
  "import_data os b s c w =
     (case FindDataImportForLeaf (os_env os) (snapshot_obj.truncate s) of
        Inl x \<Rightarrow> (PassErr (RefErr x), w)
      | Inr (di, treason) \<Rightarrow>
          if treason \<noteq> '''' then import_failed os s treason (ambiguous_message (os_env os) s) w
          else if di = None \<and> ct_data c = None then (PassAfter pollInterval, w)
          else let dtreason = (case di of None \<Rightarrow> ''''
                 | Some d \<Rightarrow> snd (snd (BuildImportDataBinding (os_env os) d (snapshot_obj.truncate s))))
            in if dtreason \<noteq> '''' then import_failed os s dtreason (artifact_message (the di)) w
               else (case mirrorLeafDataFromContent os s (bound_name s) w of
                   (Some x, w) \<Rightarrow> if x \<noteq> CallErr ErrNotFound then (PassErr x, w) else import_finish os b s w
                 | (None, w) \<Rightarrow> import_finish os b s w))"

definition import_leaf ::
  "('t, 'g, 'd) outside \<Rightarrow> controller \<Rightarrow> bound_snapshot \<Rightarrow> bound_content \<Rightarrow> 'd cluster \<Rightarrow> pass \<times> 'd cluster" where
  "import_leaf os b s c w =
     (let mcpName = ReconstructedManifestCheckpointName (cd_digest (os_codec os)) (so_uid s) '''' in
      case read_call os (\<lambda>w. wd_checkpoints (cl_capture w) mcpName) w of
        (Inl x, w) \<Rightarrow> (if x = ErrNotFound then PassAfter pollInterval else PassErr (CallErr x), w)
      | (Inr _, w) \<Rightarrow>
          if RequiresDataArtifact (g_kind (so_gvk s)) (bn_registry b) then import_data os b s c w
          else import_finish os b s w)"

definition reconcileGenericImport ::
  "('t, 'g, 'd) outside \<Rightarrow> controller \<Rightarrow> bound_snapshot \<Rightarrow> 'd cluster \<Rightarrow> pass \<times> 'd cluster" where
  "reconcileGenericImport os b s w =
     (case import_owner os b s w of
        (Inr p, w) \<Rightarrow> (p, w)
      | (Inl (ownerRef, isRoot), w) \<Rightarrow>
          if bound_name s = '''' then import_create os s ownerRef w
          else (case read_content os storageContentGVK (bound_name s) w of
              (Inl x, w) \<Rightarrow>
                if isRoot \<or> x \<noteq> ErrNotFound then (PassErr (CallErr x), w)
                else (case checkConsistencyAndSetReady os b s w of
                    (Some e, w) \<Rightarrow> (PassErr e, w) | (None, w) \<Rightarrow> (PassDone, w))
            | (Inr c, w) \<Rightarrow>
                (case EnsureLifecycleOwnerRef os storageContentGVK c ownerRef w of
                   (Inl e, w) \<Rightarrow> (PassErr e, w)
                 | (Inr changed, w) \<Rightarrow>
                     if changed then (PassRequeue, w)
                     else if isRoot then (PassDone, w)
                     else import_leaf os b s c w)))"

section \<open>The capture of a snapshot\<close>

definition domainCaptureAtLeastPlanned :: "bound_snapshot \<Rightarrow> bool" where
  "domainCaptureAtLeastPlanned s = (so_phase s \<in> {PhasePlanned, PhaseFinished})"

definition isDomainCaptureKind :: "(gvk \<Rightarrow> string) \<Rightarrow> controller \<Rightarrow> gvk \<Rightarrow> bool" where
  "isDomainCaptureKind key b k = (key k \<in> set (bn_domain_kinds b))"

definition domainHasClaimed :: "bound_snapshot \<Rightarrow> bool" where
  "domainHasClaimed s = bs_claimed s"

definition capture_owner ::
  "('t, 'g, 'd) outside \<Rightarrow> controller \<Rightarrow> bound_snapshot \<Rightarrow> 'd cluster \<Rightarrow> (owner_ref option + pass) \<times> 'd cluster" where
  "capture_owner os b s w =
     (if IsRootSnapshot s then
        (case EnsureRootObjectKeeperWithTTL os b s w of
           (Inr p, w) \<Rightarrow> (Inr p, w)
         | (Inl kp, w) \<Rightarrow> (Inl (Some (RootObjectKeeperOwnerReference kp)), w))
      else (case ResolveParentSnapshotContentOwnerRef os s w of
          (Inl x, w) \<Rightarrow> (Inr (PassErr x), w)
        | (Inr (ref, pending), w) \<Rightarrow> if pending then (Inr (PassAfter pollInterval), w) else (Inl ref, w)))"

text \<open>The alignment of the owner of a bound content: None when the pass goes on.\<close>

definition align_owner ::
  "('t, 'g, 'd) outside \<Rightarrow> controller \<Rightarrow> bound_snapshot \<Rightarrow> owner_ref option \<Rightarrow> 'd cluster \<Rightarrow> pass option \<times> 'd cluster" where
  "align_owner os b s owner w =
     (case owner of
        None \<Rightarrow> (None, w)
      | Some ref \<Rightarrow>
          if bound_name s = '''' then (None, w)
          else case content_gvk b (so_gvk s) of
            Inl x \<Rightarrow> (Some (PassErr x), w)
          | Inr k \<Rightarrow>
            (case read_content os k (bound_name s) w of
               (Inl _, w) \<Rightarrow> (None, w)
             | (Inr c, w) \<Rightarrow>
               (case EnsureLifecycleOwnerRef os k c ref w of
                  (Inl x, w) \<Rightarrow> (Some (PassErr x), w)
                | (Inr changed, w) \<Rightarrow> (if changed then Some PassRequeue else None, w))))"

text \<open>A content that exists already is adopted when it points back at the snapshot.\<close>

definition create_or_adopt ::
  "('t, 'g, 'd) outside \<Rightarrow> bound_snapshot \<Rightarrow> gvk \<Rightarrow> owner_ref \<Rightarrow> 'd cluster \<Rightarrow> bind_err option \<times> 'd cluster" where
  "create_or_adopt os s k ownerRef w =
     (let contentName = content_name_of os s in
      case create_content os k (new_content contentName ''Retain'' (SnapshotSubjectRefFromObject (os_env os) s) ownerRef) w of
        (None, w) \<Rightarrow> (None, w)
      | (Some x, w) \<Rightarrow>
          if x \<noteq> AlreadyExists then (Some (CallErr x), w)
          else (case read_content os k contentName w of
              (Inl y, w) \<Rightarrow> (Some (CallErr y), w)
            | (Inr existing, w) \<Rightarrow>
                if \<not> contentSnapshotRefMatchesSnapshot (os_env os) existing (so_gvk s) s
                then (Some (BindErr ''refusing to adopt''), w) else (None, w)))"

definition create_and_bind ::
  "('t, 'g, 'd) outside \<Rightarrow> controller \<Rightarrow> bound_snapshot \<Rightarrow> owner_ref option \<Rightarrow> 'd cluster \<Rightarrow> pass \<times> 'd cluster" where
  "create_and_bind os b s owner w =
     (if g_kind (so_gvk s) = '''' then (PassErr (BindErr ''cannot determine Snapshot Kind''), w)
      else case content_gvk b (so_gvk s) of
        Inl x \<Rightarrow> (PassErr x, w)
      | Inr k \<Rightarrow>
        (case owner of
           None \<Rightarrow> (PassAfter pollInterval, w)
         | Some ref \<Rightarrow>
           (case create_or_adopt os s k ref w of
              (Some x, w) \<Rightarrow> (PassErr x, w)
            | (None, w) \<Rightarrow>
              (case PatchUnstructuredBoundContentName os (so_namespace s) (so_name s) (so_gvk s) (content_name_of os s) w of
                 (Some x, w) \<Rightarrow> (PassErr x, w)
               | (None, w) \<Rightarrow> (PassRequeue, w)))))"

definition mirror_bound ::
  "('t, 'g, 'd) outside \<Rightarrow> controller \<Rightarrow> bound_snapshot \<Rightarrow> 'd cluster \<Rightarrow> pass \<times> 'd cluster" where
  "mirror_bound os b s w =
     (case (if RequiresDataArtifact (g_kind (so_gvk s)) (bn_registry b)
            then mirrorLeafDataFromContent os s (bound_name s) w else (None, w)) of
        (x, w) \<Rightarrow>
          if x \<noteq> None \<and> x \<noteq> Some (CallErr ErrNotFound) then (PassErr (the x), w)
          else let w = snd (checkConsistencyAndSetReady os b s w)
            in (if \<not> IsReady (os_env os) (so_conditions s) then PassAfter pollInterval else PassDone, w))"

definition reconcile_capture ::
  "('t, 'g, 'd) outside \<Rightarrow> controller \<Rightarrow> bound_snapshot \<Rightarrow> 'd cluster \<Rightarrow> pass \<times> 'd cluster" where
  "reconcile_capture os b s w =
     (case capture_owner os b s w of
        (Inr p, w) \<Rightarrow> (p, w)
      | (Inl owner, w) \<Rightarrow>
        (case align_owner os b s owner w of
           (Some p, w) \<Rightarrow> (p, w)
         | (None, w) \<Rightarrow>
             if bound_name s = '''' then create_and_bind os b s owner w
             else if \<not> domainCaptureAtLeastPlanned s then (PassDone, w)
             else mirror_bound os b s w))"

section \<open>The pass\<close>

text \<open>The object of a request is looked up under every registered kind in turn.\<close>

fun lookup_kinds ::
  "('t, 'g, 'd) outside \<Rightarrow> gvk list \<Rightarrow> string \<Rightarrow> string \<Rightarrow> 'd cluster \<Rightarrow> (api_err + bound_snapshot option) \<times> 'd cluster" where
  "lookup_kinds os [] ns n w = (Inr None, w)"
| "lookup_kinds os (k # ks) ns n w =
     (case read_snapshot os k ns n w of
        (Inr s, w) \<Rightarrow> (Inr (Some s), w)
      | (Inl x, w) \<Rightarrow> if x = ErrNotFound then lookup_kinds os ks ns n w else (Inl x, w))"

definition reconcile_found ::
  "('t, 'g, 'd) outside \<Rightarrow> (gvk \<Rightarrow> string) \<Rightarrow> controller \<Rightarrow> bound_snapshot \<Rightarrow> 'd cluster \<Rightarrow> pass \<times> 'd cluster" where
  "reconcile_found os key b s w =
     (if so_deleting s then reconcile_deleted os b s w
      else if so_import_mode s then reconcileGenericImport os b s w
      else if isDomainCaptureKind key b (so_gvk s) \<and> \<not> domainHasClaimed s then (PassDone, w)
      else reconcile_capture os b s w)"

definition Reconcile_snapshot ::
  "('t, 'g, 'd) outside \<Rightarrow> (gvk \<Rightarrow> string) \<Rightarrow> controller \<Rightarrow> string \<Rightarrow> string \<Rightarrow> 'd cluster \<Rightarrow> pass \<times> 'd cluster" where
  "Reconcile_snapshot os key b ns n w =
     (case lookup_kinds os (bn_kinds b) ns n w of
        (Inl x, w) \<Rightarrow> (PassErr (CallErr x), w)
      | (Inr None, w) \<Rightarrow> (PassDone, w)
      | (Inr (Some s), w) \<Rightarrow> reconcile_found os key b s w)"

section \<open>Wake-ups\<close>

text \<open>The items are the answer of a List of the watched kind in all namespaces.\<close>

definition request_of :: "bound_snapshot \<Rightarrow> string \<times> string" where
  "request_of s = (so_namespace s, so_name s)"

definition mapBoundContentToSnapshots :: "string + bound_snapshot list \<Rightarrow> string \<Rightarrow> (string \<times> string) list" where
  "mapBoundContentToSnapshots items contentName =
     (if contentName = '''' then []
      else case items of Inl _ \<Rightarrow> []
      | Inr ss \<Rightarrow> map request_of (filter (\<lambda>s. bound_name s \<noteq> '''' \<and> bound_name s = contentName) ss))"

definition names_parent :: "subject_ref \<Rightarrow> owner_ref \<Rightarrow> bool" where
  "names_parent parent ref = (if \<not> snapshot_owner ref \<or> or_name ref \<noteq> sr_name parent then False
     else sr_uid parent = '''' \<or> or_uid ref = sr_uid parent)"

definition mapParentContentToChildSnapshots :: "string + bound_snapshot list \<Rightarrow> bound_content \<Rightarrow> (string \<times> string) list" where
  "mapParentContentToChildSnapshots items c =
     (let parent = ct_snapshot_ref c in
      if sr_name parent = '''' then []
      else case items of Inl _ \<Rightarrow> []
      | Inr ss \<Rightarrow> map request_of (filter (\<lambda>s. list_ex (names_parent parent) (bs_owner_refs s))
          (filter (\<lambda>s. sr_namespace parent = '''' \<or> so_namespace s = sr_namespace parent) ss)))"

section \<open>Kinds\<close>

definition gvs_of :: "env \<Rightarrow> gv_string" where
  "gvs_of e = (\<lambda>g v. gv_string e \<lparr>g_group = g, g_version = v, g_kind = ''''\<rparr>)"

definition api_version :: "env \<Rightarrow> gvk \<Rightarrow> string" where
  "api_version e k = gvs_of e (g_group k) (g_version k)"

fun register_kinds :: "env \<Rightarrow> gvk list \<Rightarrow> registry \<Rightarrow> registry_error + registry" where
  "register_kinds e [] r = Inr r"
| "register_kinds e (k # ks) r =
     (case RegisterSnapshotGVK (g_kind k) (api_version e k) r of
        (_, Some x) \<Rightarrow> Inl x
      | (r, None) \<Rightarrow>
        (case RegisterSnapshotContentGVK (gvs_of e) (g_kind k @ ''Content'') (api_version e k) r of
           (_, Some x) \<Rightarrow> Inl x
         | (r, None) \<Rightarrow> register_kinds e ks r))"

definition NewGenericSnapshotController :: "env \<Rightarrow> gvk list \<Rightarrow> int option \<Rightarrow> registry_error + controller" where
  "NewGenericSnapshotController e kinds ttl =
     (case register_kinds e kinds NewGVKRegistry of
        Inl x \<Rightarrow> Inl x
      | Inr r \<Rightarrow> Inr \<lparr>bn_registry = r, bn_kinds = kinds, bn_active = [], bn_domain_kinds = [], bn_ttl = ttl\<rparr>)"

definition MarkDomainCaptureKind :: "(gvk \<Rightarrow> string) \<Rightarrow> gvk \<Rightarrow> controller \<Rightarrow> controller" where
  "MarkDomainCaptureKind key k b = b\<lparr>bn_domain_kinds := List.insert (key k) (bn_domain_kinds b)\<rparr>"

definition mark_data_kind :: "string \<Rightarrow> bool \<Rightarrow> controller \<Rightarrow> controller" where
  "mark_data_kind kind flag b = b\<lparr>bn_registry := MarkRequiresDataArtifact kind flag (bn_registry b)\<rparr>"

text \<open>\<open>complete\<close> is the answer of \<open>builder.Complete\<close>.\<close>

definition registerSnapshotWatch :: "(gvk \<Rightarrow> gvk \<Rightarrow> string option) \<Rightarrow> gvk \<Rightarrow> gvk \<Rightarrow> bind_err option" where
  "registerSnapshotWatch complete k ck =
     (if g_kind ck = '''' then Some (BindErr ''empty SnapshotContent GVK'')
      else map_option BindErr (complete k ck))"

definition AddWatchForPair ::
  "env \<Rightarrow> (gvk \<Rightarrow> string) \<Rightarrow> (gvk \<Rightarrow> gvk \<Rightarrow> string option) \<Rightarrow> gvk \<Rightarrow> gvk \<Rightarrow> controller \<Rightarrow> controller \<times> bind_err option" where
  "AddWatchForPair e key complete k ck b =
     (if key k \<in> set (bn_active b) then (b, None)
      else case RegisterSnapshotContentMapping (gvs_of e) (g_kind k) (api_version e k) (g_kind ck) (api_version e ck) (bn_registry b) of
        (r, Some x) \<Rightarrow> (b\<lparr>bn_registry := r\<rparr>, Some (RegistryErr x))
      | (r, None) \<Rightarrow>
        let needAppend = (k \<notin> set (bn_kinds b));
            b' = b\<lparr>bn_registry := r, bn_kinds := (if needAppend then bn_kinds b @ [k] else bn_kinds b)\<rparr>
        in (case registerSnapshotWatch complete k ck of
              Some x \<Rightarrow>
                (if needAppend
                 then b'\<lparr>bn_kinds := butlast (bn_kinds b'), bn_registry := RevertSnapshotRegistrationIfExact (g_kind k) k ck r\<rparr>
                 else b', Some x)
            | None \<Rightarrow> (b'\<lparr>bn_active := List.insert (key k) (bn_active b)\<rparr>, None)))"

fun setup_kinds :: "(gvk \<Rightarrow> string) \<Rightarrow> (gvk \<Rightarrow> gvk \<Rightarrow> string option) \<Rightarrow> gvk list \<Rightarrow> controller \<Rightarrow> controller \<times> bind_err option" where
  "setup_kinds key complete [] b = (b, None)"
| "setup_kinds key complete (k # ks) b =
     (if key k \<in> set (bn_active b) then setup_kinds key complete ks b
      else case content_gvk b k of
        Inl x \<Rightarrow> (b, Some x)
      | Inr ck \<Rightarrow>
        (case registerSnapshotWatch complete k ck of
           Some x \<Rightarrow> (b, Some x)
         | None \<Rightarrow> setup_kinds key complete ks (b\<lparr>bn_active := key k # bn_active b\<rparr>)))"

definition SetupWithManager :: "(gvk \<Rightarrow> string) \<Rightarrow> (gvk \<Rightarrow> gvk \<Rightarrow> string option) \<Rightarrow> controller \<Rightarrow> controller \<times> bind_err option" where
  "SetupWithManager key complete b = setup_kinds key complete (bn_kinds b) b"

section \<open>The parent of a snapshot\<close>

definition SnapshotOwnerReference :: "string \<Rightarrow> string \<Rightarrow> string \<Rightarrow> string \<Rightarrow> owner_ref" where
  "SnapshotOwnerReference apiVersion kind name uid = \<lparr>or_apiVersion = apiVersion, or_kind = kind, or_name = name,
     or_uid = uid, or_controller = Some True\<rparr>"

fun snapshot_owner_loop :: "owner_ref \<Rightarrow> owner_ref list \<Rightarrow> owner_ref list \<Rightarrow> bool \<Rightarrow> (owner_ref list \<times> bool) res" where
  "snapshot_owner_loop desired [] out desiredSet = Inr (out, desiredSet)"
| "snapshot_owner_loop desired (ref # refs) out desiredSet =
     (if ownerRefSameIdentity ref desired then
        (if \<not> desiredSet then snapshot_owner_loop desired refs (out @ [desired]) True
         else snapshot_owner_loop desired refs out desiredSet)
      else if snapshot_owner ref then Inl (Errorf (''is already owned by '' @ or_kind ref @ ''/'' @ or_name ref))
      else if is_controller ref then Inl (Errorf (''already has controller ownerRef '' @ or_kind ref @ ''/'' @ or_name ref))
      else snapshot_owner_loop desired refs (out @ [ref]) desiredSet)"

definition EnsureSnapshotOwnerRef :: "bound_snapshot \<Rightarrow> owner_ref \<Rightarrow> bound_snapshot res" where
  "EnsureSnapshotOwnerRef s desired =
     (case snapshot_owner_loop desired (bs_owner_refs s) [] False of
        Inl x \<Rightarrow> Inl x
      | Inr (out, desiredSet) \<Rightarrow>
          let refs = (if \<not> desiredSet then out @ [desired] else out)
          in Inr (if \<not> OwnerReferencesEqual (bs_owner_refs s) refs then s\<lparr>bs_owner_refs := refs\<rparr> else s))"

end
