(* ===== verification/Binding_Guarantees.thy ===== *)
theory Binding_Guarantees
  imports Snapshot_Binding Manifest_Capture_Runs
begin

text \<open>
  What the binding controller guarantees. \<open>cluster_invariant\<close> is the interface between the controller and an
  invariant of the cluster: an invariant that survives each kind of write the controller makes survives
  every pass, with any answers of the API server.
\<close>

section \<open>Calls\<close>

lemma call_D: "call os w = (x, w') \<Longrightarrow> \<exists>cw. w' = w\<lparr>cl_capture := cw\<rparr>"
  by (auto simp: call_def split: prod.splits)

lemma read_call_D:
  "read_call os look w = (r, w') \<Longrightarrow> \<exists>cw. w' = w\<lparr>cl_capture := cw\<rparr> \<and>
     (\<forall>a. r = Inr a \<longrightarrow> (\<exists>cw'. look (w\<lparr>cl_capture := cw'\<rparr>) = Some a) \<or> look w = Some a)"
  by (auto simp: read_call_def split: prod.splits option.splits dest: call_D)

lemma read_snapshot_D:
  "read_snapshot os k ns n w = (r, w') \<Longrightarrow> \<exists>cw. w' = w\<lparr>cl_capture := cw\<rparr> \<and> (\<forall>s. r = Inr s \<longrightarrow> cl_snapshots w k ns n = Some s)"
  unfolding read_snapshot_def by (drule read_call_D) auto

lemma read_content_D:
  "read_content os k n w = (r, w') \<Longrightarrow> \<exists>cw. w' = w\<lparr>cl_capture := cw\<rparr> \<and> (\<forall>c. r = Inr c \<longrightarrow> cl_contents w k n = Some c)"
  unfolding read_content_def by (drule read_call_D) auto

lemma read_keeper_D:
  "read_keeper os n w = (r, w') \<Longrightarrow> \<exists>cw. w' = w\<lparr>cl_capture := cw\<rparr> \<and> (\<forall>kp. r = Inr kp \<longrightarrow> cl_keepers w n = Some kp)"
  unfolding read_keeper_def by (drule read_call_D) auto

lemma write_call_D:
  "write_call os f w = (x, w') \<Longrightarrow> \<exists>cw. w' = (if x = None then f (w\<lparr>cl_capture := cw\<rparr>) else w\<lparr>cl_capture := cw\<rparr>)"
  by (auto simp: write_call_def split: prod.splits option.splits dest: call_D)

lemma create_content_D:
  "create_content os k c w = (x, w') \<Longrightarrow> \<exists>cw. w' = (if x = None
      then store_content k (c\<lparr>ct_uid := os_uid os (ct_name c)\<rparr>) (w\<lparr>cl_capture := cw\<rparr>) else w\<lparr>cl_capture := cw\<rparr>) \<and>
     (x = None \<longrightarrow> cl_contents w k (ct_name c) = None)"
  by (auto simp: create_content_def split: prod.splits option.splits if_splits dest: call_D)

lemma create_root_keeper_D:
  "create_root_keeper os kp w = (x, w') \<Longrightarrow> \<exists>cw. w' = (if x = None
      then store_keeper (kp\<lparr>rk_uid := os_uid os (rk_name kp)\<rparr>) (w\<lparr>cl_capture := cw\<rparr>) else w\<lparr>cl_capture := cw\<rparr>)"
  by (auto simp: create_root_keeper_def split: prod.splits option.splits if_splits dest: call_D)

section \<open>Objects under their own keys\<close>

definition keyed :: "'d cluster \<Rightarrow> bool" where
  "keyed w = ((\<forall>k ns n s. cl_snapshots w k ns n = Some s \<longrightarrow> so_gvk s = k \<and> so_namespace s = ns \<and> so_name s = n) \<and>
     (\<forall>k n c. cl_contents w k n = Some c \<longrightarrow> ct_name c = n) \<and>
     (\<forall>n kp. cl_keepers w n = Some kp \<longrightarrow> rk_name kp = n))"

text \<open>What a pass knows about its snapshot stays true of the object in the cluster.\<close>

definition same_subject :: "bound_snapshot \<Rightarrow> bound_snapshot \<Rightarrow> bool" where
  "same_subject s s' = (so_gvk s' = so_gvk s \<and> so_namespace s' = so_namespace s \<and> so_name s' = so_name s \<and>
     so_uid s' = so_uid s \<and> so_import_mode s' = so_import_mode s)"

definition present :: "'d cluster \<Rightarrow> bound_snapshot \<Rightarrow> bool" where
  "present w s = (cl_snapshots w (so_gvk s) (so_namespace s) (so_name s) = Some s)"

definition tracked :: "bound_snapshot \<Rightarrow> 'd cluster \<Rightarrow> bool" where
  "tracked s w = (\<exists>s'. cl_snapshots w (so_gvk s) (so_namespace s) (so_name s) = Some s' \<and> same_subject s s')"

lemma keyed_simps [simp]:
  "keyed (w\<lparr>cl_capture := cw\<rparr>) = keyed w" "tracked s (w\<lparr>cl_capture := cw\<rparr>) = tracked s w"
  "tracked s (store_keeper kp w) = tracked s w"
  "tracked s (store_content k c w) = tracked s w"
  by (simp_all add: keyed_def tracked_def store_keeper_def store_content_def)

lemma keyed_store_keeper: "keyed w \<Longrightarrow> keyed (store_keeper kp w)"
  by (auto simp: keyed_def store_keeper_def)

lemma keyed_store_content: "keyed w \<Longrightarrow> keyed (store_content k c w)"
  by (auto simp: keyed_def store_content_def)

lemma keyed_store_snapshot: "keyed w \<Longrightarrow> keyed (store_snapshot s w)"
  by (auto simp: keyed_def store_snapshot_def)

lemma tracked_store_snapshot:
  assumes "tracked s w" and "present w s0" and "same_subject s0 s1"
  shows "tracked s (store_snapshot s1 w)"
proof (cases "so_gvk s1 = so_gvk s \<and> so_namespace s1 = so_namespace s \<and> so_name s1 = so_name s")
  case True
  then have "cl_snapshots w (so_gvk s) (so_namespace s) (so_name s) = Some s0"
    using assms(2,3) by (simp add: present_def same_subject_def)
  then have "same_subject s s1" using assms(1,3) by (auto simp: tracked_def same_subject_def)
  moreover have "cl_snapshots (store_snapshot s1 w) (so_gvk s) (so_namespace s) (so_name s) = Some s1"
    using True by (simp add: store_snapshot_def)
  ultimately show ?thesis unfolding tracked_def by blast
next
  case False
  then have "cl_snapshots (store_snapshot s1 w) (so_gvk s) (so_namespace s) (so_name s) =
      cl_snapshots w (so_gvk s) (so_namespace s) (so_name s)"
    by (auto simp: store_snapshot_def)
  then show ?thesis using assms(1) unfolding tracked_def by simp
qed

lemma keyed_stored: "keyed w \<Longrightarrow> cl_snapshots w k ns n = Some s \<Longrightarrow> present w s"
  by (auto simp: keyed_def present_def)

lemma tracked_key: "tracked s w \<Longrightarrow> keyed w \<Longrightarrow> cl_snapshots w (so_gvk s) (so_namespace s) (so_name s) = Some s0 \<Longrightarrow>
   present w s0 \<and> same_subject s s0"
  by (auto simp: tracked_def intro: keyed_stored)

section \<open>Invariants of the cluster\<close>

definition status_write :: "bound_snapshot \<Rightarrow> bound_snapshot \<Rightarrow> bool" where
  "status_write s s' = (\<exists>cs ex d. s' = s\<lparr>so_conditions := cs, so_excluded := ex, bs_data := d\<rparr>)"

definition content_write :: "bound_content \<Rightarrow> bound_content \<Rightarrow> bool" where
  "content_write c c' = (\<exists>refs d. c' = c\<lparr>ct_owner_refs := refs, ct_bound_deleted := d\<rparr>)"

locale cluster_invariant =
  fixes os :: "('t, 'g, 'd) outside" and b :: controller and serves :: "bound_snapshot \<Rightarrow> bool" and P :: "'d cluster \<Rightarrow> bool"
  assumes serves_same: "serves s \<Longrightarrow> same_subject s s' \<Longrightarrow> serves s'"
    and called: "P w \<Longrightarrow> P (w\<lparr>cl_capture := cw\<rparr>)"
    and keeper_written: "P w \<Longrightarrow> keyed w \<Longrightarrow> present w s \<Longrightarrow> serves s \<Longrightarrow>
      rk_name kp = RootObjectKeeperName (cd_digest (os_codec os)) (so_uid s) \<Longrightarrow>
      rk_follow kp = Some (SnapshotSubjectRefFromObject (os_env os) s) \<Longrightarrow> P (store_keeper kp w)"
    and status_written: "P w \<Longrightarrow> keyed w \<Longrightarrow> present w s \<Longrightarrow> serves s \<Longrightarrow> status_write s s' \<Longrightarrow> P (store_snapshot s' w)"
    and content_written: "P w \<Longrightarrow> keyed w \<Longrightarrow> cl_contents w k (ct_name c) = Some c \<Longrightarrow> content_write c c' \<Longrightarrow> P (store_content k c' w)"
    and content_created: "P w \<Longrightarrow> keyed w \<Longrightarrow> present w s \<Longrightarrow> serves s \<Longrightarrow> cl_contents w k (content_name_of os s) = None \<Longrightarrow>
      P (store_content k ((new_content (content_name_of os s) policy (SnapshotSubjectRefFromObject (os_env os) s) owner)
        \<lparr>ct_uid := u\<rparr>) w)"
    and capture_bound: "P w \<Longrightarrow> keyed w \<Longrightarrow> present w s \<Longrightarrow> serves s \<Longrightarrow> \<not> so_import_mode s \<Longrightarrow> content_gvk b (so_gvk s) = Inr k \<Longrightarrow>
      cl_contents w k (content_name_of os s) = Some c \<Longrightarrow> contentSnapshotRefMatchesSnapshot (os_env os) c (so_gvk s) s \<Longrightarrow>
      P (store_snapshot (s\<lparr>so_bound := NVal (content_name_of os s)\<rparr>) w)"
    and import_bound: "P w \<Longrightarrow> keyed w \<Longrightarrow> present w s \<Longrightarrow> serves s \<Longrightarrow> so_import_mode s \<Longrightarrow>
      P (store_snapshot (s\<lparr>so_bound := NVal (content_name_of os s)\<rparr>) w)"
begin

definition good :: "bound_snapshot \<Rightarrow> 'd cluster \<Rightarrow> bool" where
  "good s w = (P w \<and> keyed w \<and> tracked s w \<and> serves s)"

lemma good_called [simp]: "good s w \<Longrightarrow> good s (w\<lparr>cl_capture := cw\<rparr>)"
  by (simp add: good_def called)

lemma good_call: "call os w = (x, w') \<Longrightarrow> good s w \<Longrightarrow> good s w'"
  by (auto dest: call_D)

lemma good_read_snapshot:
  "read_snapshot os k ns n w = (r, w') \<Longrightarrow> good s w \<Longrightarrow> good s w' \<and> (\<forall>s0. r = Inr s0 \<longrightarrow> cl_snapshots w' k ns n = Some s0)"
  by (auto dest!: read_snapshot_D)

lemma good_read_content:
  "read_content os k n w = (r, w') \<Longrightarrow> good s w \<Longrightarrow> good s w' \<and> (\<forall>c. r = Inr c \<longrightarrow> cl_contents w' k n = Some c)"
  by (auto dest!: read_content_D)

lemma good_write_status:
  assumes "write_call os (store_snapshot s1) w = (x, w')" "good s w" "present w s0 \<and> same_subject s s0" "status_write s0 s1"
  shows "good s w'"
proof -
  from write_call_D [OF assms(1)] obtain cw where
    w': "w' = (if x = None then store_snapshot s1 (w\<lparr>cl_capture := cw\<rparr>) else w\<lparr>cl_capture := cw\<rparr>)" by blast
  let ?w = "w\<lparr>cl_capture := cw\<rparr>"
  have g: "good s ?w" using assms(2) by simp
  have st: "present ?w s0" using assms(3) by (simp add: present_def)
  have sub: "same_subject s0 s1" using assms(4) by (auto simp: status_write_def same_subject_def)
  have sv: "serves s0" using assms(2,3) serves_same unfolding good_def by blast
  have "good s (store_snapshot s1 ?w)"
    using g status_written [OF _ _ st sv assms(4)] keyed_store_snapshot tracked_store_snapshot [OF _ st sub]
    unfolding good_def by blast
  with g show ?thesis unfolding w' by (cases x) auto
qed

lemma good_write_content:
  assumes "write_call os (store_content k c') w = (x, w')" "good s w" "cl_contents w k n = Some c" "content_write c c'"
  shows "good s w'"
proof -
  from write_call_D [OF assms(1)] obtain cw where
    w': "w' = (if x = None then store_content k c' (w\<lparr>cl_capture := cw\<rparr>) else w\<lparr>cl_capture := cw\<rparr>)" by blast
  let ?w = "w\<lparr>cl_capture := cw\<rparr>"
  have g: "good s ?w" using assms(2) by simp
  have "cl_contents ?w k (ct_name c) = Some c" using assms(2,3) by (auto simp: good_def keyed_def)
  then have "good s (store_content k c' ?w)"
    using g content_written [of ?w k c c'] keyed_store_content [of ?w k c'] assms(4) unfolding good_def by simp
  with g show ?thesis unfolding w' by (cases x) auto
qed

end

context cluster_invariant
begin

lemma good_stored:
  "good s w \<Longrightarrow> cl_snapshots w (so_gvk s) (so_namespace s) (so_name s) = Some s0 \<Longrightarrow> present w s0 \<and> same_subject s s0"
  unfolding good_def using tracked_key by blast

text \<open>A status write of the snapshot itself: read it, compare, write the changed copy.\<close>

lemma good_update_status:
  assumes "(case read_snapshot os (so_gvk s) (so_namespace s) (so_name s) w of
        (Inl x, w) \<Rightarrow> (Some (CallErr x), w)
      | (Inr fresh, w) \<Rightarrow>
          if same fresh then (None, w)
          else (case write_call os (store_snapshot (upd fresh)) w of
              (Some x, w) \<Rightarrow> (Some (CallErr x), w) | (None, w) \<Rightarrow> (None, w))) = (r, w')"
    and "\<And>s0. status_write s0 (upd s0)" and "good s w"
  shows "good s w'"
proof -
  obtain r1 w1 where rd: "read_snapshot os (so_gvk s) (so_namespace s) (so_name s) w = (r1, w1)" by fastforce
  note g = good_read_snapshot [OF rd assms(3)]
  show ?thesis
  proof (cases r1)
    case (Inl x)
    then show ?thesis using assms(1) g rd by auto
  next
    case (Inr fresh)
    note f = good_stored [OF conjunct1 [OF g]] g
    show ?thesis
    proof (cases "same fresh")
      case True
      then show ?thesis using assms(1) g rd Inr by auto
    next
      case False
      obtain x w2 where wr: "write_call os (store_snapshot (upd fresh)) w1 = (x, w2)" by fastforce
      have "w' = w2" using assms(1) rd Inr False wr by (auto split: option.splits)
      then show ?thesis using good_write_status [OF wr conjunct1 [OF g] _ assms(2)] f Inr by blast
    qed
  qed
qed

lemma good_not_ready: "patchSnapshotNotReadyFromContent os s reason message w = (r, w') \<Longrightarrow> good s w \<Longrightarrow> good s w'"
proof -
  assume a: "patchSnapshotNotReadyFromContent os s reason message w = (r, w')" "good s w"
  have "status_write s0 (with_not_ready (os_env os) reason message s0)" for s0
    unfolding status_write_def with_not_ready_def
    by (rule exI, rule exI [of _ "so_excluded s0"], rule exI [of _ "bs_data s0"]) simp
  from good_update_status [OF _ this a(2)] a show ?thesis
    unfolding patchSnapshotNotReadyFromContent_def by (simp split: if_splits)
qed

lemma good_excluded: "mirrorExcludedRefsFromContent os s c w = (r, w') \<Longrightarrow> good s w \<Longrightarrow> good s w'"
proof -
  assume a: "mirrorExcludedRefsFromContent os s c w = (r, w')" "good s w"
  have "status_write s0 (s0\<lparr>so_excluded := ex\<rparr>)" for s0 :: bound_snapshot and ex
    unfolding status_write_def
    by (rule exI [of _ "so_conditions s0"], rule exI [of _ ex], rule exI [of _ "bs_data s0"]) simp
  from good_update_status [OF _ this a(2)] a show ?thesis
    unfolding mirrorExcludedRefsFromContent_def Let_def by (simp split: if_splits)
qed

lemma good_data: "mirrorDataToLeaf os s d w = (r, w') \<Longrightarrow> good s w \<Longrightarrow> good s w'"
proof -
  assume a: "mirrorDataToLeaf os s d w = (r, w')" "good s w"
  have "status_write s0 (s0\<lparr>bs_data := d\<rparr>)" for s0 :: bound_snapshot and d
    unfolding status_write_def
    by (rule exI [of _ "so_conditions s0"], rule exI [of _ "so_excluded s0"], rule exI [of _ d]) simp
  from good_update_status [OF _ this a(2)] a show ?thesis
    unfolding mirrorDataToLeaf_def Let_def by simp
qed

lemma good_leaf_data: "mirrorLeafDataFromContent os s n w = (r, w') \<Longrightarrow> good s w \<Longrightarrow> good s w'"
  unfolding mirrorLeafDataFromContent_def
  by (auto split: prod.splits sum.splits option.splits dest!: good_read_content dest: good_data)

lemma good_check: "checkConsistencyAndSetReady os b s w = (r, w') \<Longrightarrow> good s w \<Longrightarrow> good s w'"
  unfolding checkConsistencyAndSetReady_def Let_def
  by (auto split: prod.splits sum.splits option.splits if_splits dest!: good_read_content
      dest: good_not_ready good_excluded [OF surjective_pairing])

lemma good_owner: "EnsureLifecycleOwnerRef os k c d w = (r, w') \<Longrightarrow> cl_contents w k n = Some c \<Longrightarrow> good s w \<Longrightarrow> good s w'"
proof -
  assume a: "EnsureLifecycleOwnerRef os k c d w = (r, w')" "cl_contents w k n = Some c" "good s w"
  have "content_write c (c\<lparr>ct_owner_refs := refs\<rparr>)" for refs
    unfolding content_write_def by (rule exI [of _ refs], rule exI [of _ "ct_bound_deleted c"]) simp
  note wr = good_write_content [OF _ a(3,2) this]
  show ?thesis using a(1,3) unfolding EnsureLifecycleOwnerRef_def
    by (auto split: prod.splits sum.splits option.splits if_splits dest: wr)
qed

lemma good_mark: "markBoundSnapshotDeletedOnContent os b s w = (r, w') \<Longrightarrow> good s w \<Longrightarrow> good s w'"
proof -
  assume a: "markBoundSnapshotDeletedOnContent os b s w = (r, w')" "good s w"
  have cw: "content_write c (c\<lparr>ct_bound_deleted := d\<rparr>)" for c d
    unfolding content_write_def by (rule exI [of _ "ct_owner_refs c"], rule exI [of _ d]) simp
  have wr: "write_call os (store_content k (c\<lparr>ct_bound_deleted := True\<rparr>)) w1 = (x, w2) \<Longrightarrow> good s w1 \<Longrightarrow>
      cl_contents w1 k n = Some c \<Longrightarrow> good s w2" for k c w1 x w2 n
    by (rule good_write_content [OF _ _ _ cw])
  show ?thesis using a unfolding markBoundSnapshotDeletedOnContent_def Let_def
    by (auto split: prod.splits sum.splits option.splits if_splits dest!: good_read_content dest: wr)
qed

lemma good_keeper: "EnsureRootObjectKeeperWithTTL os b s w = (r, w') \<Longrightarrow> good s w \<Longrightarrow> good s w'"
proof -
  have rd: "reread_keeper os n w1 = (x, w2) \<Longrightarrow> good s w1 \<Longrightarrow> good s w2" for n w1 x w2
    unfolding reread_keeper_def by (auto split: prod.splits sum.splits dest!: read_keeper_D)
  have gs: "good s w1 \<Longrightarrow> rk_name kp = RootObjectKeeperName (cd_digest (os_codec os)) (so_uid s) \<Longrightarrow>
      rk_follow kp = Some (SnapshotSubjectRefFromObject (os_env os) s) \<Longrightarrow> good s (store_keeper kp w1)" for kp w1
  proof -
    assume g: "good s w1" and kp: "rk_name kp = RootObjectKeeperName (cd_digest (os_codec os)) (so_uid s)"
      "rk_follow kp = Some (SnapshotSubjectRefFromObject (os_env os) s)"
    obtain s0 where s0: "present w1 s0" "same_subject s s0"
      using g good_stored unfolding good_def tracked_def by blast
    have "serves s0" using serves_same [OF _ s0(2)] g unfolding good_def by blast
    then have "P (store_keeper kp w1)"
      using keeper_written [OF _ _ s0(1)] g kp s0(2) unfolding good_def
      by (simp add: same_subject_def SnapshotSubjectRefFromObject_def)
    then show ?thesis using g keyed_store_keeper [of w1 kp] unfolding good_def by simp
  qed
  have wr: "write_call os (store_keeper kp) w1 = (x, w2) \<Longrightarrow> good s w1 \<Longrightarrow>
      rk_name kp = RootObjectKeeperName (cd_digest (os_codec os)) (so_uid s) \<Longrightarrow>
      rk_follow kp = Some (SnapshotSubjectRefFromObject (os_env os) s) \<Longrightarrow> good s w2" for kp w1 x w2
    by (drule write_call_D) (auto simp: gs split: if_splits)
  have cr: "create_root_keeper os (wanted_keeper os b s) w1 = (x, w2) \<Longrightarrow> good s w1 \<Longrightarrow> good s w2" for w1 x w2
    by (drule create_root_keeper_D) (auto simp: gs wanted_keeper_def split: if_splits)
  have nm: "read_keeper os n w1 = (Inr kp, w2) \<Longrightarrow> good s w1 \<Longrightarrow> rk_name kp = n" for n w1 kp w2
    by (auto simp: good_def keyed_def dest!: read_keeper_D)

  have gr: "read_keeper os n w1 = (x, w2) \<Longrightarrow> good s w1 \<Longrightarrow> good s w2" for n w1 x w2
    by (auto dest!: read_keeper_D)
  assume a: "EnsureRootObjectKeeperWithTTL os b s w = (r, w')" "good s w"
  let ?want = "wanted_keeper os b s"
  have want: "rk_name ?want = RootObjectKeeperName (cd_digest (os_codec os)) (so_uid s)"
    "rk_follow ?want = Some (SnapshotSubjectRefFromObject (os_env os) s)" by (simp_all add: wanted_keeper_def)
  obtain r1 w1 where rk: "read_keeper os (rk_name ?want) w = (r1, w1)" by fastforce
  note g1 = gr [OF rk a(2)]
  show ?thesis
  proof (cases r1)
    case (Inl x)
    then show ?thesis using a rk g1 unfolding EnsureRootObjectKeeperWithTTL_def Let_def
      by (auto split: prod.splits option.splits if_splits dest: rd cr)
  next
    case (Inr kp)
    have "rk_name kp = RootObjectKeeperName (cd_digest (os_codec os)) (so_uid s)"
      using nm [of "rk_name ?want" w kp w1] rk a(2) want(1) Inr by simp
    then show ?thesis using a rk g1 Inr want(2) unfolding EnsureRootObjectKeeperWithTTL_def Let_def
      by (auto split: prod.splits option.splits if_splits dest: rd wr)
  qed
qed

lemma good_parent: "ResolveParentSnapshotContentOwnerRef os s w = (r, w') \<Longrightarrow> good s w \<Longrightarrow> good s w'"
  unfolding ResolveParentSnapshotContentOwnerRef_def Let_def
  by (auto split: prod.splits sum.splits option.splits if_splits dest!: good_read_content good_read_snapshot)

end

lemma same_subject_name: "same_subject s s0 \<Longrightarrow> content_name_of os s0 = content_name_of os s"
  by (simp add: same_subject_def StableContentName_def)

lemma same_subject_ref: "same_subject s s0 \<Longrightarrow> SnapshotSubjectRefFromObject e s0 = SnapshotSubjectRefFromObject e s"
  by (simp add: same_subject_def SnapshotSubjectRefFromObject_def)

lemma same_subject_matches:
  "same_subject s s0 \<Longrightarrow> contentSnapshotRefMatchesSnapshot e c (so_gvk s0) s0 = contentSnapshotRefMatchesSnapshot e c (so_gvk s) s"
  by (simp add: same_subject_def contentSnapshotRefMatchesSnapshot_def Let_def)

lemma fresh_content_matches:
  "contentSnapshotRefMatchesSnapshot e (new_content n p (SnapshotSubjectRefFromObject e s) r\<lparr>ct_uid := u\<rparr>) (so_gvk s) s \<longleftrightarrow>
   SnapshotSubjectRefFromObject e s \<noteq> zero_subject_ref"
  by (auto simp: contentSnapshotRefMatchesSnapshot_def new_content_def SnapshotSubjectRefFromObject_def Let_def)

text \<open>The bind of a capture: the content is there and points back.\<close>

definition backed :: "('t, 'g, 'd) outside \<Rightarrow> bound_snapshot \<Rightarrow> gvk \<Rightarrow> 'd cluster \<Rightarrow> bool" where
  "backed os s k w = (\<exists>c. cl_contents w k (content_name_of os s) = Some c \<and>
     contentSnapshotRefMatchesSnapshot (os_env os) c (so_gvk s) s)"

lemma backed_called [simp]: "backed os s k (w\<lparr>cl_capture := cw\<rparr>) = backed os s k w"
  by (simp add: backed_def)

context cluster_invariant
begin

lemma good_bind:
  assumes "PatchUnstructuredBoundContentName os (so_namespace s) (so_name s) (so_gvk s) (content_name_of os s) w = (r, w')"
    and "good s w" and "so_import_mode s \<or> (\<exists>k. content_gvk b (so_gvk s) = Inr k \<and> backed os s k w)"
  shows "good s w'"
proof -
  obtain r1 w1 where rd: "read_snapshot os (so_gvk s) (so_namespace s) (so_name s) w = (r1, w1)" by fastforce
  from read_snapshot_D [OF rd] obtain cw where cw: "w1 = w\<lparr>cl_capture := cw\<rparr>" by blast
  note g = good_read_snapshot [OF rd assms(2)]
  show ?thesis
  proof (cases r1)
    case (Inl x)
    then show ?thesis using assms(1) g rd by (auto simp: PatchUnstructuredBoundContentName_def)
  next
    case (Inr s0)
    then have st: "present w1 s0" "same_subject s s0" using good_stored g by blast+
    note nm = same_subject_name [OF st(2), where os = os]
    show ?thesis
    proof (cases "so_bound s0 = NBadType \<or> nval '''' (so_bound s0) = content_name_of os s")
      case True
      then show ?thesis using assms(1) g rd Inr
        by (cases "so_bound s0") (auto simp: PatchUnstructuredBoundContentName_def)
    next
      case False
      obtain x w2 where wr: "write_call os (store_snapshot (s0\<lparr>so_bound := NVal (content_name_of os s)\<rparr>)) w1 = (x, w2)" by fastforce
      have w2: "w' = w2" using assms(1) rd Inr False wr
        by (cases "so_bound s0") (auto simp: PatchUnstructuredBoundContentName_def split: option.splits)
      from write_call_D [OF wr] obtain cw2 where cw2: "w2 = (if x = None
          then store_snapshot (s0\<lparr>so_bound := NVal (content_name_of os s)\<rparr>) (w1\<lparr>cl_capture := cw2\<rparr>) else w1\<lparr>cl_capture := cw2\<rparr>)" by blast
      let ?w = "w1\<lparr>cl_capture := cw2\<rparr>"
      have gw: "P ?w" "keyed ?w" "tracked s ?w" "serves s" using good_called [OF conjunct1 [OF g]] unfolding good_def by blast+
      have stw: "present ?w s0" using st(1) by (simp add: present_def)
      have sv: "serves s0" using serves_same [OF gw(4) st(2)] .
      have "P (store_snapshot (s0\<lparr>so_bound := NVal (content_name_of os s)\<rparr>) ?w)"
      proof (cases "so_import_mode s")
        case True
        then show ?thesis using import_bound [OF gw(1,2) stw sv] nm st(2) by (simp add: same_subject_def)
      next
        case False
        with assms(3) obtain k c where k: "content_gvk b (so_gvk s) = Inr k"
          "cl_contents w k (content_name_of os s) = Some c" "contentSnapshotRefMatchesSnapshot (os_env os) c (so_gvk s) s"
          by (auto simp: backed_def)
        have "cl_contents ?w k (content_name_of os s0) = Some c" using k(2) nm cw by simp
        from capture_bound [OF gw(1,2) stw sv _ _ this] show ?thesis
          using k False st(2) nm same_subject_matches [OF st(2)] by (simp add: same_subject_def)
      qed
      moreover have "tracked s (store_snapshot (s0\<lparr>so_bound := NVal (content_name_of os s)\<rparr>) ?w)"
        by (rule tracked_store_snapshot [OF gw(3) stw]) (simp add: same_subject_def)
      ultimately have "good s (store_snapshot (s0\<lparr>so_bound := NVal (content_name_of os s)\<rparr>) ?w)"
        using keyed_store_snapshot [OF gw(2)] gw(4) by (simp add: good_def)
      then show ?thesis using gw cw2 w2 by (cases x) (auto simp: good_def)
    qed
  qed
qed

lemma good_create:
  assumes "create_content os k (new_content (content_name_of os s) policy (SnapshotSubjectRefFromObject (os_env os) s) owner) w = (x, w')"
    and "good s w"
  shows "good s w' \<and> (x = None \<longrightarrow> SnapshotSubjectRefFromObject (os_env os) s \<noteq> zero_subject_ref \<longrightarrow> backed os s k w')"
proof -
  let ?c = "new_content (content_name_of os s) policy (SnapshotSubjectRefFromObject (os_env os) s) owner"
  have nm: "ct_name ?c = content_name_of os s" by (simp add: new_content_def)
  from create_content_D [OF assms(1)] obtain cw where w': "w' = (if x = None
      then store_content k (?c\<lparr>ct_uid := os_uid os (content_name_of os s)\<rparr>) (w\<lparr>cl_capture := cw\<rparr>) else w\<lparr>cl_capture := cw\<rparr>)"
      and free: "x = None \<Longrightarrow> cl_contents w k (content_name_of os s) = None" unfolding nm by blast
  let ?w = "w\<lparr>cl_capture := cw\<rparr>"
  have gw: "good s ?w" using assms(2) by simp
  show ?thesis
  proof (cases x)
    case (Some y)
    then show ?thesis using gw w' by simp
  next
    case None
    obtain s0 where s0: "present ?w s0" "same_subject s s0"
      using gw good_stored unfolding good_def tracked_def by blast
    have sv: "serves s0" using serves_same [OF _ s0(2)] gw unfolding good_def by blast
    note eq = same_subject_name [OF s0(2), where os = os] same_subject_ref [OF s0(2), where e = "os_env os"]
    have "P (store_content k (?c\<lparr>ct_uid := os_uid os (content_name_of os s)\<rparr>) ?w)"
      using content_created [OF _ _ s0(1) sv, where k = k and policy = policy and owner = owner and u = "os_uid os (content_name_of os s)"] gw free None
      unfolding good_def eq by simp
    then have "good s w'" using gw keyed_store_content [of ?w] None w' unfolding good_def by auto
    moreover have "cl_contents w' k (content_name_of os s) = Some (?c\<lparr>ct_uid := os_uid os (content_name_of os s)\<rparr>)"
      using None w' by (simp add: store_content_def new_content_def)
    ultimately show ?thesis unfolding backed_def using fresh_content_matches by blast
  qed
qed

end

context cluster_invariant
begin

lemma good_create_or_adopt:
  assumes "create_or_adopt os s k owner w = (r, w')" and "good s w" and "g_kind (so_gvk s) \<noteq> ''''"
  shows "good s w' \<and> (r = None \<longrightarrow> backed os s k w')"
proof -
  obtain x w1 where cr: "create_content os k (new_content (content_name_of os s) ''Retain''
      (SnapshotSubjectRefFromObject (os_env os) s) owner) w = (x, w1)" by fastforce
  have nz: "SnapshotSubjectRefFromObject (os_env os) s \<noteq> zero_subject_ref"
    using assms(3) by (simp add: SnapshotSubjectRefFromObject_def zero_subject_ref_def)
  note g = good_create [OF cr assms(2)]
  show ?thesis
  proof (cases x)
    case None
    then show ?thesis using assms(1) cr g nz by (simp add: create_or_adopt_def)
  next
    case (Some y)
    obtain r2 w2 where rd: "read_content os k (content_name_of os s) w1 = (r2, w2)" by fastforce
    note g2 = good_read_content [OF rd conjunct1 [OF g]]
    show ?thesis using assms(1) cr Some rd g g2
      by (cases r2) (auto simp: create_or_adopt_def backed_def split: if_splits)
  qed
qed

lemma good_create_and_bind:
  assumes "create_and_bind os b s owner w = (r, w')" and "good s w" and "\<not> so_import_mode s"
  shows "good s w'"
proof (cases "g_kind (so_gvk s) = ''''")
  case True
  then show ?thesis using assms by (simp add: create_and_bind_def)
next
  case ne: False
  show ?thesis
  proof (cases "content_gvk b (so_gvk s)")
    case (Inl x)
    then show ?thesis using assms ne by (simp add: create_and_bind_def)
  next
    case (Inr k)
    show ?thesis
    proof (cases owner)
      case None
      then show ?thesis using assms ne Inr by (simp add: create_and_bind_def)
    next
      case (Some ref)
      obtain x w1 where ca: "create_or_adopt os s k ref w = (x, w1)" by fastforce
      obtain y w2 where pa: "PatchUnstructuredBoundContentName os (so_namespace s) (so_name s) (so_gvk s) (content_name_of os s) w1 = (y, w2)"
        by fastforce
      note g = good_create_or_adopt [OF ca assms(2) ne]
      have "x = None \<Longrightarrow> good s w2" using good_bind [OF pa] g Inr by blast
      then show ?thesis using assms(1) ne Inr Some ca pa g
        by (cases x; cases y) (auto simp: create_and_bind_def)
    qed
  qed
qed

lemma good_capture_owner: "capture_owner os b s w = (r, w') \<Longrightarrow> good s w \<Longrightarrow> good s w'"
  unfolding capture_owner_def
  by (auto split: prod.splits sum.splits if_splits dest: good_keeper good_parent)

lemma good_align: "align_owner os b s owner w = (r, w') \<Longrightarrow> good s w \<Longrightarrow> good s w'"
  unfolding align_owner_def
  by (auto split: prod.splits sum.splits option.splits if_splits dest!: good_read_content dest: good_owner)

lemma good_mirror: "mirror_bound os b s w = (r, w') \<Longrightarrow> good s w \<Longrightarrow> good s w'"
  unfolding mirror_bound_def Let_def
  by (auto split: prod.splits if_splits dest!: good_leaf_data dest: good_check [OF surjective_pairing])

lemma good_capture: "reconcile_capture os b s w = (r, w') \<Longrightarrow> good s w \<Longrightarrow> \<not> so_import_mode s \<Longrightarrow> good s w'"
  unfolding reconcile_capture_def
  by (auto split: prod.splits sum.splits option.splits if_splits dest!: good_capture_owner good_align
      dest: good_mirror good_create_and_bind)

lemma good_deleted: "reconcile_deleted os b s w = (r, w') \<Longrightarrow> good s w \<Longrightarrow> good s w'"
proof -
  assume a: "reconcile_deleted os b s w = (r, w')" "good s w"
  have "good s (delete_unbound_import os s w)" using a(2) by (simp add: delete_unbound_import_def)
  then show ?thesis using a(1) unfolding reconcile_deleted_def Let_def
    by (auto intro: good_mark [OF surjective_pairing] good_not_ready [OF surjective_pairing])
qed

lemma good_import_owner: "import_owner os b s w = (r, w') \<Longrightarrow> good s w \<Longrightarrow> good s w'"
  unfolding import_owner_def
  by (auto split: prod.splits sum.splits option.splits if_splits dest!: good_parent dest: good_keeper)

lemma good_import_create: "import_create os s owner w = (r, w') \<Longrightarrow> good s w \<Longrightarrow> so_import_mode s \<Longrightarrow> good s w'"
  unfolding import_create_def Let_def
  by (auto split: prod.splits sum.splits option.splits if_splits dest!: good_create dest: good_bind)

lemma good_import_finish: "import_finish os b s w = (r, w') \<Longrightarrow> good s w \<Longrightarrow> good s w'"
  unfolding import_finish_def Let_def by (auto dest: good_check [OF surjective_pairing])

lemma good_import_failed: "import_failed os s reason message w = (r, w') \<Longrightarrow> good s w \<Longrightarrow> good s w'"
  unfolding import_failed_def by (auto split: prod.splits option.splits dest: good_not_ready)

lemma good_import_data: "import_data os b s c w = (r, w') \<Longrightarrow> good s w \<Longrightarrow> good s w'"
  unfolding import_data_def Let_def
  by (auto split: prod.splits sum.splits option.splits if_splits dest!: good_leaf_data dest: good_import_finish good_import_failed)

lemma good_import_leaf: "import_leaf os b s c w = (r, w') \<Longrightarrow> good s w \<Longrightarrow> good s w'"
  unfolding import_leaf_def Let_def
  by (auto split: prod.splits sum.splits if_splits dest!: read_call_D dest: good_import_data good_import_finish)

lemma good_import: "reconcileGenericImport os b s w = (r, w') \<Longrightarrow> good s w \<Longrightarrow> so_import_mode s \<Longrightarrow> good s w'"
  unfolding reconcileGenericImport_def
  by (auto split: prod.splits sum.splits option.splits if_splits dest!: good_import_owner good_read_content
      dest: good_owner good_import_create good_check good_import_leaf)

lemma good_found: "reconcile_found os key b s w = (r, w') \<Longrightarrow> good s w \<Longrightarrow> good s w'"
  unfolding reconcile_found_def
  by (auto split: if_splits dest: good_deleted good_import good_capture)

end

lemma lookup_kinds_D:
  "lookup_kinds os ks ns n w = (r, w') \<Longrightarrow> \<exists>cw. w' = w\<lparr>cl_capture := cw\<rparr> \<and>
     (\<forall>s. r = Inr (Some s) \<longrightarrow> (\<exists>k\<in>set ks. cl_snapshots w k ns n = Some s))"
proof (induction ks arbitrary: w)
  case (Cons k ks)
  obtain r1 w1 where rd: "read_snapshot os k ns n w = (r1, w1)" by fastforce
  from read_snapshot_D [OF rd] obtain cw where cw: "w1 = w\<lparr>cl_capture := cw\<rparr>"
    "\<And>s. r1 = Inr s \<Longrightarrow> cl_snapshots w k ns n = Some s" by blast
  show ?case
  proof (cases r1)
    case (Inl x)
    show ?thesis
    proof (cases "x = ErrNotFound")
      case True
      with Cons.prems rd Inl have "lookup_kinds os ks ns n w1 = (r, w')" by simp
      from Cons.IH [OF this] cw(1) show ?thesis by auto
    next
      case False
      with Cons.prems rd Inl cw show ?thesis by auto
    qed
  next
    case (Inr s)
    with Cons.prems rd cw show ?thesis by auto
  qed
next
  case Nil
  then show ?case by (auto intro: exI [of _ "cl_capture w"])
qed

text \<open>The invariant survives a pass for any request.\<close>


context cluster_invariant
begin

theorem pass_keeps:
  assumes "Reconcile_snapshot os key b ns n w = (r, w')" and "P w" and "keyed w"
    and "\<And>s w1. lookup_kinds os (bn_kinds b) ns n w = (Inr (Some s), w1) \<Longrightarrow> serves s"
  shows "P w' \<and> keyed w'"
proof -
  obtain r1 w1 where lk: "lookup_kinds os (bn_kinds b) ns n w = (r1, w1)" by fastforce
  from lookup_kinds_D [OF lk] obtain cw where cw: "w1 = w\<lparr>cl_capture := cw\<rparr>"
    "\<And>s. r1 = Inr (Some s) \<Longrightarrow> \<exists>k. cl_snapshots w k ns n = Some s" by blast
  have w1: "P w1 \<and> keyed w1" using assms(2,3) cw(1) called by simp
  show ?thesis
  proof (cases "\<exists>s. r1 = Inr (Some s)")
    case True
    then obtain s where s: "r1 = Inr (Some s)" ..
    from cw(2) [OF this] obtain k where "cl_snapshots w k ns n = Some s" ..
    then have "present w1 s" using keyed_stored [OF assms(3)] cw(1) by (simp add: present_def)
    then have "good s w1" using w1 assms(4) lk s by (auto simp: good_def tracked_def present_def same_subject_def)
    then show ?thesis using good_found assms(1) lk s unfolding good_def by (auto simp: Reconcile_snapshot_def)
  next
    case False
    then show ?thesis using assms(1) lk w1
      by (cases r1) (auto simp: Reconcile_snapshot_def split: option.splits)
  qed
qed

end

section \<open>A captured snapshot is bound to the content that names it\<close>

text \<open>
  A snapshot is bound to the content named by its own uid. That content points back at a captured snapshot, if its name
  is in \<open>K\<close>: these are the names under which nobody else provides a content while a snapshot is bound to it.
\<close>

definition answers_to :: "string set \<Rightarrow> ('t, 'g, 'd) outside \<Rightarrow> controller \<Rightarrow> bound_snapshot \<Rightarrow> 'd cluster \<Rightarrow> bool" where
  "answers_to K os b s w = (bound_name s = content_name_of os s \<and> (\<not> so_import_mode s \<longrightarrow> bound_name s \<in> K \<longrightarrow>
     (\<forall>k c. content_gvk b (so_gvk s) = Inr k \<longrightarrow> cl_contents w k (bound_name s) = Some c \<longrightarrow>
        contentSnapshotRefMatchesSnapshot (os_env os) c (so_gvk s) s)))"

definition back_referenced :: "string set \<Rightarrow> ('t, 'g, 'd) outside \<Rightarrow> controller \<Rightarrow> 'd cluster \<Rightarrow> bool" where
  "back_referenced K os b w = (\<forall>s. present w s \<longrightarrow> bound_name s \<noteq> '''' \<longrightarrow> answers_to K os b s w)"

lemma stored_store_snapshot:
  "present (store_snapshot s1 w) s \<longleftrightarrow>
   (if so_gvk s = so_gvk s1 \<and> so_namespace s = so_namespace s1 \<and> so_name s = so_name s1 then s = s1 else present w s)"
  by (auto simp: present_def store_snapshot_def)

lemma stored_simps [simp]:
  "present (w\<lparr>cl_capture := cw\<rparr>) s = present w s" "present (store_keeper kp w) s = present w s"
  "present (store_content k c w) s = present w s"
  by (simp_all add: present_def store_keeper_def store_content_def)

lemma contents_simps [simp]:
  "cl_contents (store_keeper kp w) = cl_contents w" "cl_contents (store_snapshot s w) = cl_contents w"
  by (simp_all add: store_keeper_def store_snapshot_def)

lemma contents_store_content:
  "cl_contents (store_content k c w) k' n = (if k' = k \<and> n = ct_name c then Some c else cl_contents w k' n)"
  by (auto simp: store_content_def)

lemma answers_to_cong:
  "cl_contents w' = cl_contents w \<Longrightarrow> bound_name s' = bound_name s \<Longrightarrow> so_gvk s' = so_gvk s \<Longrightarrow> so_uid s' = so_uid s \<Longrightarrow>
   so_name s' = so_name s \<Longrightarrow> so_namespace s' = so_namespace s \<Longrightarrow> so_import_mode s' = so_import_mode s \<Longrightarrow> answers_to K os b s' w' = answers_to K os b s w"
  by (simp add: answers_to_def contentSnapshotRefMatchesSnapshot_def StableContentName_def)

lemma ref_matches:
  "contentSnapshotRefMatchesSnapshot e c' k s = contentSnapshotRefMatchesSnapshot e c k s" if "ct_snapshot_ref c' = ct_snapshot_ref c"
  using that by (simp add: contentSnapshotRefMatchesSnapshot_def)

text \<open>
  Different snapshots have different content names: uids are unique and their digests do not collide. A
  stored object has a name.
\<close>

definition names_apart :: "('t, 'g, 'd) outside \<Rightarrow> 'd cluster \<Rightarrow> bool" where
  "names_apart os w = ((\<forall>s. present w s \<longrightarrow> so_name s \<noteq> '''') \<and>
     (\<forall>s s'. present w s \<longrightarrow> present w s' \<longrightarrow> content_name_of os s = content_name_of os s' \<longrightarrow> s = s'))"

definition binding_safe :: "string set \<Rightarrow> ('t, 'g, 'd) outside \<Rightarrow> controller \<Rightarrow> 'd cluster \<Rightarrow> bool" where
  "binding_safe K os b w = (names_apart os w \<and> back_referenced K os b w)"

lemma names_apart_update:
  assumes "names_apart os w" and "present w s" and "same_subject s s'"
  shows "names_apart os (store_snapshot s' w)"
  unfolding names_apart_def
proof (intro conjI allI impI)
  fix t assume "present (store_snapshot s' w) t"
  then show "so_name t \<noteq> ''''"
    using assms by (auto simp: names_apart_def stored_store_snapshot same_subject_def split: if_splits)
next
  fix t t' assume t: "present (store_snapshot s' w) t" "present (store_snapshot s' w) t'"
    and n: "content_name_of os t = content_name_of os t'"
  have key: "present w u \<Longrightarrow> so_gvk u = so_gvk s \<Longrightarrow> so_namespace u = so_namespace s \<Longrightarrow> so_name u = so_name s \<Longrightarrow> u = s" for u
    using assms(2) by (simp add: present_def)
  have nm: "content_name_of os s' = content_name_of os s"
    using assms(3) by (simp add: same_subject_def StableContentName_def)
  have apart: "present w u \<Longrightarrow> present w v \<Longrightarrow> content_name_of os u = content_name_of os v \<Longrightarrow> u = v" for u v
    using assms(1) by (simp add: names_apart_def)
  show "t = t'"
  proof (cases "t = s'"; cases "t' = s'")
    assume e: "t = s'" and ne: "t' \<noteq> s'"
    have p: "present w t'" using t(2) ne by (simp add: stored_store_snapshot split: if_splits)
    have "content_name_of os t' = content_name_of os s" using n nm unfolding e by (simp only:)
    with apart assms(2) p have "t' = s" by blast
    then show ?thesis using t(2) ne assms(3) by (simp add: stored_store_snapshot same_subject_def)
  next
    assume ne: "t \<noteq> s'" and e: "t' = s'"
    have p: "present w t" using t(1) ne by (simp add: stored_store_snapshot split: if_splits)
    have "content_name_of os t = content_name_of os s" using n nm unfolding e by (simp only:)
    with apart assms(2) p have "t = s" by blast
    then show ?thesis using t(1) ne assms(3) by (simp add: stored_store_snapshot same_subject_def)
  next

    assume "t \<noteq> s'" "t' \<noteq> s'"
    then have "present w t" "present w t'" using t by (simp_all add: stored_store_snapshot split: if_splits)
    then show ?thesis using n apart by blast
  qed simp
qed

lemma back_referenced_update:
  assumes "back_referenced K os b w" and "present w s" and "same_subject s s'"
    and "so_bound s' = so_bound s \<or> answers_to K os b s' (store_snapshot s' w)"
  shows "back_referenced K os b (store_snapshot s' w)"
  unfolding back_referenced_def
proof (intro allI impI)
  fix t assume t: "present (store_snapshot s' w) t" "bound_name t \<noteq> ''''"
  show "answers_to K os b t (store_snapshot s' w)"
  proof (cases "t = s'")
    case True
    show ?thesis
    proof (cases "so_bound s' = so_bound s")
      case eq: True
      then have "answers_to K os b s w"
        using assms(1-3) t True by (simp add: back_referenced_def same_subject_def bound_name_def)
      then show ?thesis using True eq assms(3) answers_to_cong [of "store_snapshot s' w" w s' s K os b]
        by (simp add: same_subject_def bound_name_def)
    next
      case False
      then show ?thesis using assms(3,4) True t(2) by (simp add: same_subject_def)
    qed
  next
    case False
    then have "present w t" using t(1) by (simp add: stored_store_snapshot split: if_splits)
    then have "answers_to K os b t w" using assms(1) t(2) by (simp add: back_referenced_def)
    then show ?thesis using answers_to_cong [of "store_snapshot s' w" w t t K os b] by simp
  qed
qed

lemma binding_safe_update:
  "binding_safe K os b w \<Longrightarrow> present w s \<Longrightarrow> same_subject s s' \<Longrightarrow>
   so_bound s' = so_bound s \<or> answers_to K os b s' (store_snapshot s' w) \<Longrightarrow> binding_safe K os b (store_snapshot s' w)"
  unfolding binding_safe_def using names_apart_update back_referenced_update by blast

lemma answers_to_content:
  assumes "answers_to K os b s w" and "\<not> so_import_mode s \<Longrightarrow> bound_name s \<in> K \<Longrightarrow> bound_name s = ct_name c \<Longrightarrow> content_gvk b (so_gvk s) = Inr k \<Longrightarrow>
      contentSnapshotRefMatchesSnapshot (os_env os) c (so_gvk s) s"
  shows "answers_to K os b s (store_content k c w)"
  using assms by (auto simp: answers_to_def contents_store_content)

lemma names_apart_simps [simp]:
  "names_apart os (w\<lparr>cl_capture := cw\<rparr>) = names_apart os w" "names_apart os (store_keeper kp w) = names_apart os w"
  "names_apart os (store_content k c w) = names_apart os w"
  by (simp_all add: names_apart_def)

lemma answers_to_simps [simp]:
  "answers_to K os b s (w\<lparr>cl_capture := cw\<rparr>) = answers_to K os b s w" "answers_to K os b s (store_keeper kp w) = answers_to K os b s w"
  by (simp_all add: answers_to_def)

lemma back_referenced_content:
  assumes "back_referenced K os b w"
    and "\<And>s. present w s \<Longrightarrow> answers_to K os b s w \<Longrightarrow> \<not> so_import_mode s \<Longrightarrow> bound_name s \<in> K \<Longrightarrow> bound_name s = ct_name c \<Longrightarrow> content_gvk b (so_gvk s) = Inr k \<Longrightarrow>
      contentSnapshotRefMatchesSnapshot (os_env os) c (so_gvk s) s"
  shows "back_referenced K os b (store_content k c w)"
  unfolding back_referenced_def
proof (intro allI impI)
  fix s assume "present (store_content k c w) s" and s: "bound_name s \<noteq> ''''"
  then have p: "present w s" by simp
  then have a: "answers_to K os b s w" using assms(1) s by (simp add: back_referenced_def)
  show "answers_to K os b s (store_content k c w)"
    by (rule answers_to_content [OF a]) (rule assms(2) [OF p a])
qed

interpretation binding: cluster_invariant os b "\<lambda>_. True" "binding_safe K os b" for K and os :: "('t, 'g, 'd) outside" and b
proof unfold_locales
  fix w :: "'d cluster" and s s' assume "binding_safe K os b w" "present w s" "status_write s s'"
  then show "binding_safe K os b (store_snapshot s' w)"
    by (intro binding_safe_update [of K os b w s s']) (auto simp: status_write_def same_subject_def)
next
  fix w :: "'d cluster" and k c c' assume a: "binding_safe K os b w" "cl_contents w k (ct_name c) = Some c" "content_write c c'"
  then have c: "ct_name c' = ct_name c" "ct_snapshot_ref c' = ct_snapshot_ref c" by (auto simp: content_write_def)
  have "back_referenced K os b (store_content k c' w)"
    using a(1,2) c(1) ref_matches [OF c(2)]
    by (intro back_referenced_content) (auto simp: binding_safe_def answers_to_def)
  then show "binding_safe K os b (store_content k c' w)" using a(1) by (simp add: binding_safe_def)
next
  fix w :: "'d cluster" and s k policy owner u
  assume a: "binding_safe K os b w" "present w s" "cl_contents w k (content_name_of os s) = None"
  let ?c = "new_content (content_name_of os s) policy (SnapshotSubjectRefFromObject (os_env os) s) owner\<lparr>ct_uid := u\<rparr>"
  have nz: "SnapshotSubjectRefFromObject (os_env os) s \<noteq> zero_subject_ref"
    using a(1,2) by (auto simp: binding_safe_def names_apart_def SnapshotSubjectRefFromObject_def zero_subject_ref_def)
  have "back_referenced K os b (store_content k ?c w)"
  proof (intro back_referenced_content)
    fix t assume t: "present w t" "answers_to K os b t w" "bound_name t = ct_name ?c"
    then have "content_name_of os t = content_name_of os s" by (simp add: answers_to_def new_content_def)
    then have "t = s" using a(1,2) t(1) unfolding binding_safe_def names_apart_def by blast
    then show "contentSnapshotRefMatchesSnapshot (os_env os) ?c (so_gvk t) t" using nz fresh_content_matches by blast
  qed (use a(1) in \<open>simp add: binding_safe_def\<close>)
  then show "binding_safe K os b (store_content k ?c w)" using a(1) by (simp add: binding_safe_def)
next
  fix w :: "'d cluster" and s k c
  assume a: "binding_safe K os b w" "present w s" "content_gvk b (so_gvk s) = Inr k" "cl_contents w k (content_name_of os s) = Some c"
    "contentSnapshotRefMatchesSnapshot (os_env os) c (so_gvk s) s"
  let ?s = "s\<lparr>so_bound := NVal (content_name_of os s)\<rparr>"
  have "answers_to K os b ?s (store_snapshot ?s w)"
    using a(3-5) same_subject_matches [of s ?s "os_env os" c] same_subject_name [of s ?s os]
    by (simp add: answers_to_def bound_name_def same_subject_def)
  then show "binding_safe K os b (store_snapshot ?s w)"
    by (intro binding_safe_update [OF a(1,2)]) (simp_all add: same_subject_def)
next
  fix w :: "'d cluster" and s assume a: "binding_safe K os b w" "present w s" "so_import_mode s"
  show "binding_safe K os b (store_snapshot (s\<lparr>so_bound := NVal (content_name_of os s)\<rparr>) w)"
    by (intro binding_safe_update [OF a(1,2)]) (simp_all add: same_subject_def a(3) answers_to_def bound_name_def StableContentName_def)
qed (auto simp: binding_safe_def back_referenced_def)

section \<open>Runs\<close>

definition same_naming :: "('t, 'g, 'd) outside \<Rightarrow> ('t, 'g, 'd) outside \<Rightarrow> bool" where
  "same_naming os os' = (cd_digest (os_codec os') = cd_digest (os_codec os) \<and> gv_string (os_env os') = gv_string (os_env os))"

lemma binding_safe_naming: "same_naming os os' \<Longrightarrow> binding_safe K os' b w = binding_safe K os b w"
  by (simp add: same_naming_def binding_safe_def names_apart_def back_referenced_def answers_to_def StableContentName_def
      contentSnapshotRefMatchesSnapshot_def)

text \<open>
  What happens to the cluster: passes for any request with any answers of the API server, and the steps of
  users and other controllers. A user creates a snapshot unbound, with a uid that no other snapshot has, and
  may delete it; other controllers leave its identity and its binding alone, and keep the back reference of a
  content (it is immutable). Anybody may provide a content under any name, in place of the one there too, except under a name
  in \<open>K\<close> that a snapshot is bound to.
\<close>

inductive binding_run :: "string set \<Rightarrow> ('t, 'g, 'd) outside \<Rightarrow> (gvk \<Rightarrow> string) \<Rightarrow> controller \<Rightarrow> 'd cluster \<Rightarrow> 'd cluster \<Rightarrow> bool"
  for K os key b w0 where
  start: "binding_run K os key b w0 w0"
| pass: "binding_run K os key b w0 w \<Longrightarrow> same_naming os os' \<Longrightarrow> Reconcile_snapshot os' key b ns n w = (r, w') \<Longrightarrow>
    binding_run K os key b w0 w'"
| snapshot_created: "binding_run K os key b w0 w \<Longrightarrow> cl_snapshots w (so_gvk s) (so_namespace s) (so_name s) = None \<Longrightarrow>
    so_name s \<noteq> '''' \<Longrightarrow> bound_name s = '''' \<Longrightarrow>
    \<forall>t. present w t \<longrightarrow> content_name_of os t \<noteq> content_name_of os s \<Longrightarrow> binding_run K os key b w0 (store_snapshot s w)"
| snapshot_changed: "binding_run K os key b w0 w \<Longrightarrow> present w s \<Longrightarrow> same_subject s s' \<Longrightarrow> so_bound s' = so_bound s \<Longrightarrow>
    binding_run K os key b w0 (store_snapshot s' w)"
| snapshot_deleted: "binding_run K os key b w0 w \<Longrightarrow>
    binding_run K os key b w0 (w\<lparr>cl_snapshots := (cl_snapshots w)(k := (cl_snapshots w k)(ns := (cl_snapshots w k ns)(n := None)))\<rparr>)"
| content_provided: "binding_run K os key b w0 w \<Longrightarrow> ct_name c \<in> K \<longrightarrow> (\<forall>s. present w s \<longrightarrow> bound_name s \<noteq> ct_name c) \<Longrightarrow>
    binding_run K os key b w0 (store_content k c w)"
| content_changed: "binding_run K os key b w0 w \<Longrightarrow> cl_contents w k (ct_name c') = Some c \<Longrightarrow> ct_snapshot_ref c' = ct_snapshot_ref c \<Longrightarrow>
    binding_run K os key b w0 (store_content k c' w)"
| content_deleted: "binding_run K os key b w0 w \<Longrightarrow>
    binding_run K os key b w0 (w\<lparr>cl_contents := (cl_contents w)(k := (cl_contents w k)(n := None))\<rparr>)"

lemma names_apart_created:
  assumes "names_apart os w" and "so_name s \<noteq> ''''" and "\<forall>t. present w t \<longrightarrow> content_name_of os t \<noteq> content_name_of os s"
  shows "names_apart os (store_snapshot s w)"
  using assms unfolding names_apart_def stored_store_snapshot by metis

lemma back_referenced_created:
  assumes "back_referenced K os b w" and "bound_name s = ''''"
  shows "back_referenced K os b (store_snapshot s w)"
  unfolding back_referenced_def
proof (intro allI impI)
  fix t assume t: "present (store_snapshot s w) t" "bound_name t \<noteq> ''''"
  then have "t \<noteq> s" using assms(2) by auto
  then have "present w t" using t(1) by (simp add: stored_store_snapshot split: if_splits)
  then have "answers_to K os b t w" using assms(1) t by (simp add: back_referenced_def)
  then show "answers_to K os b t (store_snapshot s w)"
    using answers_to_cong [of "store_snapshot s w" w t t K os b] by simp
qed

lemma present_deleted:
  "present (w\<lparr>cl_snapshots := (cl_snapshots w)(k := (cl_snapshots w k)(ns := (cl_snapshots w k ns)(n := None)))\<rparr>) s \<Longrightarrow> present w s"
  by (auto simp: present_def split: if_splits)

lemma binding_run_safe:
  "binding_run K os key b w0 w \<Longrightarrow> binding_safe K os b w0 \<Longrightarrow> keyed w0 \<Longrightarrow> binding_safe K os b w \<and> keyed w"
proof (induction rule: binding_run.induct)
  case (pass w os' ns n r w')
  then have "binding_safe K os' b w" "keyed w" using binding_safe_naming by blast+
  from binding.pass_keeps [OF pass.hyps(3) this TrueI] binding_safe_naming [OF pass.hyps(2)] show ?case by blast
next
  case (snapshot_created w s)
  then show ?case using names_apart_created back_referenced_created keyed_store_snapshot
    unfolding binding_safe_def by blast
next
  case (snapshot_changed w s s')
  then show ?case using binding_safe_update keyed_store_snapshot by blast
next
  case (snapshot_deleted w k ns n)
  let ?w = "w\<lparr>cl_snapshots := (cl_snapshots w)(k := (cl_snapshots w k)(ns := (cl_snapshots w k ns)(n := None)))\<rparr>"
  have IH: "binding_safe K os b w" "keyed w" using snapshot_deleted by blast+
  have p: "present ?w s \<Longrightarrow> present w s" for s by (rule present_deleted)
  have "names_apart os ?w" using IH(1) p unfolding binding_safe_def names_apart_def by blast
  moreover have "answers_to K os b s w \<Longrightarrow> answers_to K os b s ?w" for s by (simp add: answers_to_def)
  then have "back_referenced K os b ?w" using IH(1) p unfolding binding_safe_def back_referenced_def by blast
  moreover have "keyed ?w" using IH(2) by (auto simp: keyed_def)
  ultimately show ?case by (simp add: binding_safe_def)
next
  case (content_provided w c k)
  then have "back_referenced K os b (store_content k c w)"
    by (intro back_referenced_content) (auto simp: binding_safe_def)
  with content_provided show ?case by (auto simp: binding_safe_def intro: keyed_store_content)
next
  case (content_changed w k c' c)
  then have "back_referenced K os b (store_content k c' w)"
    using ref_matches [of c' c] by (intro back_referenced_content) (auto simp: binding_safe_def answers_to_def)
  with content_changed show ?case by (auto simp: binding_safe_def intro: keyed_store_content)
next
  case (content_deleted w k n)
  let ?w = "w\<lparr>cl_contents := (cl_contents w)(k := (cl_contents w k)(n := None))\<rparr>"
  have IH: "binding_safe K os b w" "keyed w" using content_deleted by blast+
  have p: "present ?w s = present w s" for s by (simp add: present_def)
  have "names_apart os ?w" using IH(1) p unfolding binding_safe_def names_apart_def by blast
  moreover have "answers_to K os b s w \<Longrightarrow> answers_to K os b s ?w" for s by (auto simp: answers_to_def)
  then have "back_referenced K os b ?w" using IH(1) p unfolding binding_safe_def back_referenced_def by blast
  moreover have "keyed ?w" using IH(2) by (auto simp: keyed_def)
  ultimately show ?case by (simp add: binding_safe_def)
qed simp

end
