(* ===== verification/Binding_Outcomes.thy ===== *)
theory Binding_Outcomes
  imports Binding_Guarantees
begin

text \<open>
  The outcomes of the passes of the binding controller: what binds a tree of snapshots, what keeps a snapshot
  unbound, and how an import differs from a capture.
\<close>

section \<open>Calls that are answered\<close>

definition calm :: "('t, 'g, 'd) outside \<Rightarrow> bool" where
  "calm os = (\<forall>n. os_fault os n = None)"

definition tick :: "'d cluster \<Rightarrow> 'd cluster" where
  "tick w = w\<lparr>cl_capture := (cl_capture w)\<lparr>wd_calls := Suc (wd_calls (cl_capture w))\<rparr>\<rparr>"

lemma tick_simps [simp]:
  "cl_snapshots (tick w) = cl_snapshots w" "cl_contents (tick w) = cl_contents w" "cl_keepers (tick w) = cl_keepers w"
  "wd_checkpoints (cl_capture (tick w)) = wd_checkpoints (cl_capture w)"
  by (simp_all add: tick_def)

lemma snapshots_simps [simp]:
  "cl_snapshots (store_keeper kp w) = cl_snapshots w" "cl_snapshots (store_content k c w) = cl_snapshots w"
  "cl_keepers (store_content k c w) = cl_keepers w" "cl_keepers (store_snapshot s w) = cl_keepers w"
  "cl_keepers (store_keeper kp w) = (cl_keepers w)(rk_name kp \<mapsto> kp)"
  by (simp_all add: store_keeper_def store_content_def store_snapshot_def)

lemma calm_call: "calm os \<Longrightarrow> call os w = (None, tick w)"
  by (simp add: calm_def call_def served_def tick_def)

lemma calm_read_snapshot:
  "calm os \<Longrightarrow> read_snapshot os k ns n w = ((case cl_snapshots w k ns n of None \<Rightarrow> Inl ErrNotFound | Some s \<Rightarrow> Inr s), tick w)"
  by (simp add: read_snapshot_def read_call_def calm_call)

lemma calm_read_content:
  "calm os \<Longrightarrow> read_content os k n w = ((case cl_contents w k n of None \<Rightarrow> Inl ErrNotFound | Some c \<Rightarrow> Inr c), tick w)"
  by (simp add: read_content_def read_call_def calm_call)

lemma calm_read_keeper:
  "calm os \<Longrightarrow> read_keeper os n w = ((case cl_keepers w n of None \<Rightarrow> Inl ErrNotFound | Some kp \<Rightarrow> Inr kp), tick w)"
  by (simp add: read_keeper_def read_call_def calm_call)

lemma calm_write: "calm os \<Longrightarrow> write_call os f w = (None, f (tick w))"
  by (simp add: write_call_def calm_call)

lemma calm_create_content:
  "calm os \<Longrightarrow> create_content os k c w = (if cl_contents w k (ct_name c) \<noteq> None then (Some AlreadyExists, tick w)
     else (None, store_content k (c\<lparr>ct_uid := os_uid os (ct_name c)\<rparr>) (tick w)))"
  by (simp add: create_content_def calm_call)

lemma calm_create_keeper:
  "calm os \<Longrightarrow> create_root_keeper os kp w = (if cl_keepers w (rk_name kp) \<noteq> None then (Some AlreadyExists, tick w)
     else (None, store_keeper (kp\<lparr>rk_uid := os_uid os (rk_name kp)\<rparr>) (tick w)))"
  by (simp add: create_root_keeper_def calm_call)

lemmas calm_calls = calm_call calm_read_snapshot calm_read_content calm_read_keeper calm_write calm_create_content calm_create_keeper

text \<open>The object of a request: the first registered kind that has one.\<close>

definition found_first :: "controller \<Rightarrow> bound_snapshot \<Rightarrow> 'd cluster \<Rightarrow> bool" where
  "found_first b s w = (present w s \<and> (\<exists>ks ks'. bn_kinds b = ks @ so_gvk s # ks' \<and>
     (\<forall>k\<in>set ks. cl_snapshots w k (so_namespace s) (so_name s) = None)))"

lemma calm_lookup:
  assumes "calm os" and "found_first b s w"
  shows "\<exists>cw. lookup_kinds os (bn_kinds b) (so_namespace s) (so_name s) w = (Inr (Some s), w\<lparr>cl_capture := cw\<rparr>)"
proof -
  have "\<forall>k\<in>set ks. cl_snapshots v k ns n = None \<Longrightarrow> cl_snapshots v k ns n = Some s \<Longrightarrow>
      \<exists>cw. lookup_kinds os (ks @ k # ks') ns n v = (Inr (Some s), v\<lparr>cl_capture := cw\<rparr>)" for ks k ks' ns n v
  proof (induction ks arbitrary: v)
    case Nil
    then show ?case by (auto simp: calm_read_snapshot [OF assms(1)] tick_def)
  next
    case (Cons k' ks)
    then have "lookup_kinds os ((k' # ks) @ k # ks') ns n v = lookup_kinds os (ks @ k # ks') ns n (tick v)"
      by (simp add: calm_read_snapshot [OF assms(1)])
    with Cons.IH [of "tick v"] Cons.prems show ?case by (auto simp: tick_def)
  qed
  then show ?thesis using assms(2) by (fastforce simp: found_first_def present_def)
qed

lemma found_first_calls [simp]: "found_first b s (w\<lparr>cl_capture := cw\<rparr>) = found_first b s w"
  by (simp add: found_first_def)

section \<open>Binding in one pass\<close>

definition capturable :: "(gvk \<Rightarrow> string) \<Rightarrow> controller \<Rightarrow> bound_snapshot \<Rightarrow> bool" where
  "capturable key b s = (\<not> so_deleting s \<and> \<not> so_import_mode s \<and> (isDomainCaptureKind key b (so_gvk s) \<longrightarrow> domainHasClaimed s) \<and>
     so_uid s \<noteq> '''' \<and> g_kind (so_gvk s) \<noteq> '''' \<and> so_bound s \<noteq> NBadType \<and> bound_name s = '''')"

definition created_content :: "('t, 'g, 'd) outside \<Rightarrow> bound_snapshot \<Rightarrow> string \<Rightarrow> owner_ref \<Rightarrow> bound_content" where
  "created_content os s policy owner = (new_content (content_name_of os s) policy (SnapshotSubjectRefFromObject (os_env os) s) owner)
     \<lparr>ct_uid := os_uid os (content_name_of os s)\<rparr>"

abbreviation bound_to_own :: "('t, 'g, 'd) outside \<Rightarrow> bound_snapshot \<Rightarrow> bound_snapshot" where
  "bound_to_own os s \<equiv> s\<lparr>so_bound := NVal (content_name_of os s)\<rparr>"

lemma content_name_nonempty: "content_name_of os s \<noteq> ''''"
  by (simp add: StableContentName_def ContentName_def)

lemma calm_bind:
  assumes "calm os" and "present w s" and "so_bound s \<noteq> NBadType" and "bound_name s = ''''"
  shows "\<exists>cw. PatchUnstructuredBoundContentName os (so_namespace s) (so_name s) (so_gvk s) (content_name_of os s) w =
     (None, store_snapshot (bound_to_own os s) (w\<lparr>cl_capture := cw\<rparr>))"
proof -
  have nf: "nested_or_fail ''status.boundSnapshotContentName'' '''' (so_bound s) = Inr ''''"
    using assms(3,4) by (cases "so_bound s") (auto simp: bound_name_def)
  have "PatchUnstructuredBoundContentName os (so_namespace s) (so_name s) (so_gvk s) (content_name_of os s) w =
     (None, store_snapshot (bound_to_own os s) (tick (tick w)))"
    using assms(2) content_name_nonempty [of os s]
    by (simp add: PatchUnstructuredBoundContentName_def calm_calls [OF assms(1)] present_def nf)
  then show ?thesis unfolding tick_def by auto
qed

text \<open>A content under the name of the snapshot is adopted, otherwise one is created.\<close>

definition slot_ok :: "('t, 'g, 'd) outside \<Rightarrow> bound_snapshot \<Rightarrow> gvk \<Rightarrow> 'd cluster \<Rightarrow> bool" where
  "slot_ok os s k w = (\<forall>c. cl_contents w k (content_name_of os s) = Some c \<longrightarrow>
     contentSnapshotRefMatchesSnapshot (os_env os) c (so_gvk s) s)"

definition with_content :: "('t, 'g, 'd) outside \<Rightarrow> bound_snapshot \<Rightarrow> gvk \<Rightarrow> owner_ref \<Rightarrow> 'd cluster \<Rightarrow> 'd cluster" where
  "with_content os s k owner w = (if cl_contents w k (content_name_of os s) = None
     then store_content k (created_content os s ''Retain'' owner) w else w)"

lemma calm_create_or_adopt:
  assumes "calm os" and "slot_ok os s k w"
  shows "\<exists>cw. create_or_adopt os s k owner w = (None, with_content os s k owner (w\<lparr>cl_capture := cw\<rparr>))"
proof (cases "cl_contents w k (content_name_of os s)")
  case None
  then have "create_or_adopt os s k owner w = (None, store_content k (created_content os s ''Retain'' owner) (tick w))"
    by (simp add: create_or_adopt_def Let_def calm_calls [OF assms(1)] created_content_def new_content_def)
  then show ?thesis using None unfolding with_content_def tick_def by auto
next
  case (Some c)
  then have "create_or_adopt os s k owner w = (None, tick (tick w))"
    using assms(2)
    by (simp add: create_or_adopt_def Let_def calm_calls [OF assms(1)] slot_ok_def new_content_def)
  then show ?thesis using Some unfolding with_content_def tick_def by auto
qed

lemma calm_capture:
  assumes "calm os" and "capturable key b s" and "found_first b s w" and "content_gvk b (so_gvk s) = Inr k"
    and "capture_owner os b s (w\<lparr>cl_capture := cw0\<rparr>) = (Inl (Some owner), w1)"
    and "lookup_kinds os (bn_kinds b) (so_namespace s) (so_name s) w = (Inr (Some s), w\<lparr>cl_capture := cw0\<rparr>)"
    and "slot_ok os s k w1" and "present w1 s"
  shows "\<exists>cw. Reconcile_snapshot os key b (so_namespace s) (so_name s) w =
     (PassRequeue, store_snapshot (bound_to_own os s) ((with_content os s k owner w1)\<lparr>cl_capture := cw\<rparr>))"
proof -
  from calm_create_or_adopt [OF assms(1,7)] obtain cw1 where
    ca: "create_or_adopt os s k owner w1 = (None, with_content os s k owner (w1\<lparr>cl_capture := cw1\<rparr>))" by blast
  let ?w = "with_content os s k owner (w1\<lparr>cl_capture := cw1\<rparr>)"
  have "present ?w s" using assms(8) by (simp add: with_content_def)
  from calm_bind [OF assms(1) this, of] assms(2) obtain cw2 where
    pa: "PatchUnstructuredBoundContentName os (so_namespace s) (so_name s) (so_gvk s) (content_name_of os s) ?w =
      (None, store_snapshot (bound_to_own os s) (?w\<lparr>cl_capture := cw2\<rparr>))" by (auto simp: capturable_def)
  have eq: "?w\<lparr>cl_capture := cw2\<rparr> = (with_content os s k owner w1)\<lparr>cl_capture := cw2\<rparr>"
    by (simp add: with_content_def store_content_def)
  have "reconcile_found os key b s (w\<lparr>cl_capture := cw0\<rparr>) =
      (PassRequeue, store_snapshot (bound_to_own os s) ((with_content os s k owner w1)\<lparr>cl_capture := cw2\<rparr>))"
    using assms(2,4,5) ca pa unfolding eq
    by (auto simp: reconcile_found_def capturable_def reconcile_capture_def align_owner_def create_and_bind_def)
  then show ?thesis by (auto simp: Reconcile_snapshot_def assms(6))
qed

section \<open>The anchor of a content\<close>

definition keeper_name :: "('t, 'g, 'd) outside \<Rightarrow> bound_snapshot \<Rightarrow> string" where
  "keeper_name os s = RootObjectKeeperName (cd_digest (os_codec os)) (so_uid s)"

definition keeper_slot_ok :: "('t, 'g, 'd) outside \<Rightarrow> bound_snapshot \<Rightarrow> 'd cluster \<Rightarrow> bool" where
  "keeper_slot_ok os s w = (\<forall>kp. cl_keepers w (keeper_name os s) = Some kp \<longrightarrow>
     rk_name kp = keeper_name os s \<and> rk_follow kp = Some (SnapshotSubjectRefFromObject (os_env os) s))"

definition anchoring_keeper :: "('t, 'g, 'd) outside \<Rightarrow> controller \<Rightarrow> bound_snapshot \<Rightarrow> 'd cluster \<Rightarrow> root_keeper" where
  "anchoring_keeper os b s w = (case cl_keepers w (keeper_name os s) of
     None \<Rightarrow> wanted_keeper os b s\<lparr>rk_uid := os_uid os (keeper_name os s)\<rparr>
   | Some kp \<Rightarrow> kp\<lparr>rk_mode := rk_mode (wanted_keeper os b s), rk_follow := rk_follow (wanted_keeper os b s),
       rk_ttl := rk_ttl (wanted_keeper os b s)\<rparr>)"

lemma wanted_keeper_name: "rk_name (wanted_keeper os b s) = keeper_name os s"
  by (simp add: wanted_keeper_def keeper_name_def)

lemma calm_keeper:
  assumes "calm os" and "so_uid s \<noteq> ''''" and "keeper_slot_ok os s w"
  shows "\<exists>w'. EnsureRootObjectKeeperWithTTL os b s w = (Inl (anchoring_keeper os b s w), w') \<and>
     cl_snapshots w' = cl_snapshots w \<and> cl_contents w' = cl_contents w \<and>
     cl_keepers w' = (cl_keepers w)(keeper_name os s \<mapsto> anchoring_keeper os b s w)"
proof (cases "cl_keepers w (keeper_name os s)")
  case None
  then show ?thesis using assms(2)
    by (simp add: EnsureRootObjectKeeperWithTTL_def Let_def calm_calls [OF assms(1)] wanted_keeper_name
        reread_keeper_def anchoring_keeper_def)
next
  case (Some kp)
  have kp: "rk_name kp = keeper_name os s" "rk_follow kp = rk_follow (wanted_keeper os b s)"
    using Some assms(3) by (simp_all add: keeper_slot_ok_def wanted_keeper_def)
  have v: "validateRootObjectKeeper kp (wanted_keeper os b s) = None"
    using kp(2) by (simp add: validateRootObjectKeeper_def wanted_keeper_def)
  show ?thesis
  proof (cases "rootObjectKeeperSpecMatches (wanted_keeper os b s) kp")
    case True
    then have "rk_mode kp = rk_mode (wanted_keeper os b s)" "rk_ttl kp = rk_ttl (wanted_keeper os b s)"
      by (auto simp: rootObjectKeeperSpecMatches_def wanted_keeper_def split: if_splits option.splits)
    then have "anchoring_keeper os b s w = kp" using Some kp(2) by (simp add: anchoring_keeper_def)
    then show ?thesis using True Some v assms(2)
      by (simp add: EnsureRootObjectKeeperWithTTL_def Let_def calm_calls [OF assms(1)] wanted_keeper_name fun_upd_idem)
  next
    case False
    then show ?thesis using Some v kp assms(2)
      by (simp add: EnsureRootObjectKeeperWithTTL_def Let_def calm_calls [OF assms(1)] wanted_keeper_name
          reread_keeper_def anchoring_keeper_def)
  qed
qed

definition parent_kind :: "('t, 'g, 'd) outside \<Rightarrow> owner_ref \<Rightarrow> gvk" where
  "parent_kind os ref = (if or_apiVersion ref = storageGroupVersion \<and> or_kind ref = ''Snapshot'' then kind_of_storage ''Snapshot''
     else gvk_of (os_env os) (or_apiVersion ref) (or_kind ref))"

definition resolves :: "('t, 'g, 'd) outside \<Rightarrow> bound_snapshot \<Rightarrow> 'd cluster \<Rightarrow> bound_snapshot \<Rightarrow> bool" where
  "resolves os s w p = (\<exists>ref. SnapshotParentOwnerRef s = Some ref \<and>
     (or_apiVersion ref = storageGroupVersion \<and> or_kind ref = ''Snapshot'' \<or> parse_gv_error (os_env os) (or_apiVersion ref) = None) \<and>
     cl_snapshots w (parent_kind os ref) (so_namespace s) (or_name ref) = Some p \<and>
     (or_uid ref = '''' \<or> so_uid p = or_uid ref))"

definition content_of :: "'d cluster \<Rightarrow> bound_snapshot \<Rightarrow> bound_content \<Rightarrow> bool" where
  "content_of w p c = (\<exists>n. so_bound p = NVal n \<and> n \<noteq> '''' \<and> cl_contents w storageContentGVK n = Some c)"

lemma root_iff_no_parent: "IsRootSnapshot s \<longleftrightarrow> SnapshotParentOwnerRef s = None"
  by (auto simp: IsRootSnapshot_def SnapshotParentOwnerRef_def find_None_iff list_ex_iff)

lemma calm_parent:
  assumes "calm os" and "resolves os s w p" and "content_of w p c"
  shows "ResolveParentSnapshotContentOwnerRef os s w = (Inr (Some (content_owner_reference c), False), tick (tick w))"
proof -
  from assms(2) obtain ref where ref: "SnapshotParentOwnerRef s = Some ref"
    "or_apiVersion ref = storageGroupVersion \<and> or_kind ref = ''Snapshot'' \<or> parse_gv_error (os_env os) (or_apiVersion ref) = None"
    "cl_snapshots w (parent_kind os ref) (so_namespace s) (or_name ref) = Some p" "or_uid ref = '''' \<or> so_uid p = or_uid ref"
    unfolding resolves_def by blast
  from assms(3) obtain n where n: "so_bound p = NVal n" "n \<noteq> ''''" "cl_contents w storageContentGVK n = Some c"
    unfolding content_of_def by blast
  have pn: "parent_content_name ref p typed = Inr n" for typed
    using ref(4) n(1) by (auto simp: parent_content_name_def bound_name_def)
  show ?thesis
    using ref n pn
    by (auto simp: ResolveParentSnapshotContentOwnerRef_def Let_def calm_calls [OF assms(1)] parent_kind_def)
qed

text \<open>The owner of the content of a snapshot: the content of its parent, or the root keeper.\<close>

definition anchor :: "('t, 'g, 'd) outside \<Rightarrow> controller \<Rightarrow> bound_snapshot \<Rightarrow> 'd cluster \<Rightarrow> owner_ref \<Rightarrow> bool" where
  "anchor os b s w owner = (if IsRootSnapshot s
     then keeper_slot_ok os s w \<and> owner = RootObjectKeeperOwnerReference (anchoring_keeper os b s w)
     else \<exists>p c. resolves os s w p \<and> content_of w p c \<and> owner = content_owner_reference c)"

definition only_keeper_of :: "('t, 'g, 'd) outside \<Rightarrow> bound_snapshot \<Rightarrow> 'd cluster \<Rightarrow> 'd cluster \<Rightarrow> bool" where
  "only_keeper_of os s w w' = (\<forall>n. n \<noteq> keeper_name os s \<longrightarrow> cl_keepers w' n = cl_keepers w n)"

lemma calm_owner:
  assumes "calm os" and "so_uid s \<noteq> ''''" and "anchor os b s w owner"
  shows "\<exists>w'. capture_owner os b s w = (Inl (Some owner), w') \<and> cl_snapshots w' = cl_snapshots w \<and>
     cl_contents w' = cl_contents w \<and> only_keeper_of os s w w'"
proof (cases "IsRootSnapshot s")
  case True
  then show ?thesis using calm_keeper [OF assms(1,2), of w b] assms(3)
    by (auto simp: anchor_def capture_owner_def only_keeper_of_def)
next
  case False
  then show ?thesis using calm_parent [OF assms(1), of s w] assms(3)
    by (auto simp: anchor_def capture_owner_def only_keeper_of_def)
qed

lemma anchor_calls [simp]: "anchor os b s (w\<lparr>cl_capture := cw\<rparr>) owner = anchor os b s w owner"
  by (simp add: anchor_def resolves_def content_of_def keeper_slot_ok_def anchoring_keeper_def)

text \<open>One pass binds a snapshot whose anchor is there.\<close>

lemma binds_in_one_pass:
  assumes "calm os" and "capturable key b s" and "found_first b s w" and "content_gvk b (so_gvk s) = Inr k"
    and "slot_ok os s k w" and "anchor os b s w owner"
  shows "\<exists>w'. Reconcile_snapshot os key b (so_namespace s) (so_name s) w = (PassRequeue, w') \<and>
     cl_snapshots w' = cl_snapshots (store_snapshot (bound_to_own os s) w) \<and>
     cl_contents w' = cl_contents (with_content os s k owner w) \<and> only_keeper_of os s w w'"
proof -
  from calm_lookup [OF assms(1,3)] obtain cw0 where
    lk: "lookup_kinds os (bn_kinds b) (so_namespace s) (so_name s) w = (Inr (Some s), w\<lparr>cl_capture := cw0\<rparr>)" by blast
  have "so_uid s \<noteq> ''''" using assms(2) by (simp add: capturable_def)
  from calm_owner [OF assms(1) this, of b "w\<lparr>cl_capture := cw0\<rparr>" owner] assms(6) obtain w1 where
    w1: "capture_owner os b s (w\<lparr>cl_capture := cw0\<rparr>) = (Inl (Some owner), w1)" "cl_snapshots w1 = cl_snapshots w"
      "cl_contents w1 = cl_contents w" "only_keeper_of os s w w1" by (auto simp: only_keeper_of_def)
  have s: "slot_ok os s k w1" "present w1 s" using assms(3,5) w1(2,3) by (simp_all add: slot_ok_def found_first_def present_def)
  from calm_capture [OF assms(1-4) w1(1) lk s] obtain cw where
    r: "Reconcile_snapshot os key b (so_namespace s) (so_name s) w =
      (PassRequeue, store_snapshot (bound_to_own os s) ((with_content os s k owner w1)\<lparr>cl_capture := cw\<rparr>))" by blast
  let ?w = "store_snapshot (bound_to_own os s) ((with_content os s k owner w1)\<lparr>cl_capture := cw\<rparr>)"
  have "cl_snapshots ?w = cl_snapshots (store_snapshot (bound_to_own os s) w)"
    using w1(2) by (simp add: store_snapshot_def with_content_def)
  moreover have "cl_contents ?w = cl_contents (with_content os s k owner w)"
    using w1(3) by (simp add: with_content_def store_content_def)
  moreover have "only_keeper_of os s w ?w"
    using w1(4) by (simp add: only_keeper_of_def with_content_def)
  ultimately show ?thesis using r by blast
qed

section \<open>Binding a tree from the root down\<close>

fun bind_passes :: "('t, 'g, 'd) outside \<Rightarrow> (gvk \<Rightarrow> string) \<Rightarrow> controller \<Rightarrow> bound_snapshot list \<Rightarrow> 'd cluster \<Rightarrow> 'd cluster" where
  "bind_passes os key b [] w = w"
| "bind_passes os key b (s # ss) w =
     bind_passes os key b ss (snd (Reconcile_snapshot os key b (so_namespace s) (so_name s) w))"

definition awaiting :: "('t, 'g, 'd) outside \<Rightarrow> (gvk \<Rightarrow> string) \<Rightarrow> controller \<Rightarrow> 'd cluster \<Rightarrow> bound_snapshot \<Rightarrow> bool" where
  "awaiting os key b w s = (capturable key b s \<and> found_first b s w \<and> content_gvk b (so_gvk s) = Inr storageContentGVK \<and>
     slot_ok os s storageContentGVK w \<and> (IsRootSnapshot s \<longrightarrow> keeper_slot_ok os s w))"

text \<open>Every snapshot of the list is a root, or its parent is bound or comes earlier.\<close>

fun top_down :: "('t, 'g, 'd) outside \<Rightarrow> 'd cluster \<Rightarrow> bound_snapshot list \<Rightarrow> bound_snapshot list \<Rightarrow> bool" where
  "top_down os w earlier [] = True"
| "top_down os w earlier (s # ss) =
     ((IsRootSnapshot s \<or> (\<exists>p. resolves os s w p \<and> ((\<exists>c. content_of w p c) \<or> p \<in> set earlier))) \<and>
      top_down os w (s # earlier) ss)"

definition owned_as_planned :: "('t, 'g, 'd) outside \<Rightarrow> bound_snapshot \<Rightarrow> 'd cluster \<Rightarrow> owner_ref \<Rightarrow> bool" where
  "owned_as_planned os s w owner = (if IsRootSnapshot s
     then or_kind owner = ''ObjectKeeper'' \<and> or_name owner = keeper_name os s
     else or_kind owner = kindSnapshotContent \<and> (\<exists>p. resolves os s w p \<and> so_bound p = NVal (or_name owner)))"

definition settled :: "('t, 'g, 'd) outside \<Rightarrow> 'd cluster \<Rightarrow> 'd cluster \<Rightarrow> bound_snapshot \<Rightarrow> bool" where
  "settled os w w' s = (cl_snapshots w' (so_gvk s) (so_namespace s) (so_name s) = Some (bound_to_own os s) \<and>
     (\<exists>c. cl_contents w' storageContentGVK (content_name_of os s) = Some c \<and>
        contentSnapshotRefMatchesSnapshot (os_env os) c (so_gvk s) s \<and>
        (cl_contents w storageContentGVK (content_name_of os s) = None \<longrightarrow>
           bc_protected c \<and> bc_policy c = ''Retain'' \<and> (\<exists>owner. ct_owner_refs c = [owner] \<and> owned_as_planned os s w' owner))))"

definition same_key :: "bound_snapshot \<Rightarrow> bound_snapshot \<Rightarrow> bool" where
  "same_key s t = (so_gvk s = so_gvk t \<and> so_namespace s = so_namespace t \<and> so_name s = so_name t)"

text \<open>What a pass for \<open>s\<close> changes: the binding of \<open>s\<close>, and its own keeper and content when they are missing.\<close>

definition one_bound :: "('t, 'g, 'd) outside \<Rightarrow> bound_snapshot \<Rightarrow> owner_ref \<Rightarrow> 'd cluster \<Rightarrow> 'd cluster \<Rightarrow> bool" where
  "one_bound os s owner w w' = (cl_snapshots w' = cl_snapshots (store_snapshot (bound_to_own os s) w) \<and>
     cl_contents w' = cl_contents (with_content os s storageContentGVK owner w) \<and> only_keeper_of os s w w')"

lemma with_content_keeps:
  "cl_contents w k n = Some c \<Longrightarrow> cl_contents (with_content os s k' owner w) k n = Some c"
  by (auto simp: with_content_def contents_store_content created_content_def new_content_def)

lemma with_content_own:
  assumes "slot_ok os s k w" and "so_name s \<noteq> '''' \<or> g_kind (so_gvk s) \<noteq> ''''"
  shows "\<exists>c. cl_contents (with_content os s k owner w) k (content_name_of os s) = Some c \<and>
     contentSnapshotRefMatchesSnapshot (os_env os) c (so_gvk s) s \<and>
     (cl_contents w k (content_name_of os s) = None \<longrightarrow> bc_protected c \<and> bc_policy c = ''Retain'' \<and> ct_owner_refs c = [owner])"
proof (cases "cl_contents w k (content_name_of os s)")
  case None
  have "SnapshotSubjectRefFromObject (os_env os) s \<noteq> zero_subject_ref"
    using assms(2) by (auto simp: SnapshotSubjectRefFromObject_def zero_subject_ref_def)
  then have "contentSnapshotRefMatchesSnapshot (os_env os) (created_content os s ''Retain'' owner) (so_gvk s) s"
    unfolding created_content_def fresh_content_matches .
  then show ?thesis using None
    by (simp add: with_content_def contents_store_content) (simp add: created_content_def new_content_def)
qed (use assms(1) in \<open>simp add: with_content_def slot_ok_def\<close>)

lemma names_of_keepers: "keeper_name os s = keeper_name os t \<longleftrightarrow> content_name_of os s = content_name_of os t"
  by (simp add: keeper_name_def RootObjectKeeperName_def ObjectKeeperName_def StableContentName_def ContentName_def)

lemma one_bound_keys:
  "one_bound os s owner w w' \<Longrightarrow> cl_snapshots w' k ns n =
     (if k = so_gvk s \<and> ns = so_namespace s \<and> n = so_name s then Some (bound_to_own os s) else cl_snapshots w k ns n)"
  by (auto simp: one_bound_def store_snapshot_def)

text \<open>The other snapshots still wait, and a parent is found where it was.\<close>

lemma awaiting_after:
  assumes "one_bound os s owner w w'" and "awaiting os key b w t" and "present w s" and "\<not> same_key s t"
    and "content_name_of os t \<noteq> content_name_of os s"
  shows "awaiting os key b w' t"
proof -
  have same: "cl_snapshots w' (so_gvk t) (so_namespace t) (so_name t) = cl_snapshots w (so_gvk t) (so_namespace t) (so_name t)"
    using assms(4) one_bound_keys [OF assms(1)] by (auto simp: same_key_def)
  have none: "cl_snapshots w k ns n = None \<Longrightarrow> cl_snapshots w' k ns n = None" for k ns n
    using one_bound_keys [OF assms(1), of k ns n] assms(3) by (auto simp: present_def split: if_splits)
  have "found_first b t w'"
  proof -
    from assms(2) obtain ks ks' where k: "present w t" "bn_kinds b = ks @ so_gvk t # ks'"
      "\<forall>k\<in>set ks. cl_snapshots w k (so_namespace t) (so_name t) = None" unfolding awaiting_def found_first_def by blast
    have "present w' t" using k(1) same by (simp add: present_def)
    moreover have "\<forall>k\<in>set ks. cl_snapshots w' k (so_namespace t) (so_name t) = None" using k(3) none by blast
    ultimately show ?thesis using k(2) unfolding found_first_def by blast
  qed
  moreover have "cl_contents w' storageContentGVK (content_name_of os t) = cl_contents w storageContentGVK (content_name_of os t)"
    using assms(1,5) by (auto simp: one_bound_def with_content_def contents_store_content created_content_def new_content_def)
  moreover have "cl_keepers w' (keeper_name os t) = cl_keepers w (keeper_name os t)"
    using assms(1,5) names_of_keepers [of os t s] unfolding one_bound_def only_keeper_of_def by blast
  ultimately show ?thesis using assms(2) by (simp add: awaiting_def slot_ok_def keeper_slot_ok_def)
qed

lemma resolves_after:
  assumes "one_bound os s owner w w'" and "resolves os t w p" and "present w s" and "keyed w"
  shows "resolves os t w' (if same_key p s then bound_to_own os s else p) \<and> (same_key p s \<longrightarrow> p = s)"
proof -
  from assms(2) obtain ref where ref: "SnapshotParentOwnerRef t = Some ref"
    "or_apiVersion ref = storageGroupVersion \<and> or_kind ref = ''Snapshot'' \<or> parse_gv_error (os_env os) (or_apiVersion ref) = None"
    "cl_snapshots w (parent_kind os ref) (so_namespace t) (or_name ref) = Some p" "or_uid ref = '''' \<or> so_uid p = or_uid ref"
    unfolding resolves_def by blast
  have key: "so_gvk p = parent_kind os ref" "so_namespace p = so_namespace t" "so_name p = or_name ref"
    using ref(3) assms(4) by (auto simp: keyed_def)
  have eq: "same_key p s \<longrightarrow> p = s"
  proof
    assume "same_key p s"
    then have "cl_snapshots w (so_gvk s) (so_namespace s) (so_name s) = Some p"
      using ref(3) unfolding same_key_def key by simp
    then show "p = s" using assms(3) by (simp add: present_def)
  qed
  have "cl_snapshots w' (parent_kind os ref) (so_namespace t) (or_name ref) = Some (if same_key p s then bound_to_own os s else p)"
    using ref(3) unfolding one_bound_keys [OF assms(1)] same_key_def key by simp
  moreover have "or_uid ref = '''' \<or> so_uid (if same_key p s then bound_to_own os s else p) = or_uid ref"
    using ref(4) eq by (cases "same_key p s") auto
  ultimately show ?thesis using ref(1,2) eq unfolding resolves_def by blast
qed

interpretation keys: cluster_invariant os b "\<lambda>_. True" "\<lambda>_. True" for os :: "('t, 'g, 'd) outside" and b
  by unfold_locales simp_all

lemma keyed_after: "Reconcile_snapshot os key b ns n w = (r, w') \<Longrightarrow> keyed w \<Longrightarrow> keyed w'"
  using keys.pass_keeps [of os key b ns n w r w'] by simp

lemma slots_after:
  assumes "one_bound os s owner w w'" and "content_name_of os t \<noteq> content_name_of os s"
  shows "cl_contents w' k (content_name_of os t) = cl_contents w k (content_name_of os t)"
  using assms by (auto simp: one_bound_def with_content_def contents_store_content created_content_def new_content_def)

lemma bound_parent_after:
  assumes "one_bound os s owner w w'" and "present w s" and "slot_ok os s storageContentGVK w"
    and "so_name s \<noteq> '''' \<or> g_kind (so_gvk s) \<noteq> ''''"
  shows "\<exists>c. content_of w' (bound_to_own os s) c"
proof -
  from with_content_own [OF assms(3,4), of owner] obtain c where
    "cl_contents (with_content os s storageContentGVK owner w) storageContentGVK (content_name_of os s) = Some c" by blast
  then have "cl_contents w' storageContentGVK (content_name_of os s) = Some c" using assms(1) by (simp add: one_bound_def)
  then show ?thesis using content_name_nonempty [of os s] by (auto simp: content_of_def)
qed

lemma top_down_after:
  assumes "one_bound os s owner w w'" and "present w s" and "keyed w" and "slot_ok os s storageContentGVK w"
    and "g_kind (so_gvk s) \<noteq> ''''" and "so_bound s \<noteq> NBadType" and "bound_name s = ''''"
  shows "top_down os w earlier ss \<Longrightarrow> set earlier \<subseteq> insert s (set earlier') \<Longrightarrow> \<forall>t\<in>set earlier \<union> set ss. t \<noteq> s \<longrightarrow> \<not> same_key t s \<Longrightarrow>
    top_down os w' earlier' ss"
proof (induction ss arbitrary: earlier earlier')
  case (Cons t ss)
  have "IsRootSnapshot t \<or> (\<exists>p. resolves os t w' p \<and> ((\<exists>c. content_of w' p c) \<or> p \<in> set earlier'))"
  proof (cases "IsRootSnapshot t")
    case False
    with Cons.prems(1) obtain p where p: "resolves os t w p" "(\<exists>c. content_of w p c) \<or> p \<in> set earlier" by auto
    note r = resolves_after [OF assms(1) p(1) assms(2,3)]
    show ?thesis
    proof (cases "same_key p s")
      case True
      with r have "resolves os t w' (bound_to_own os s)" by simp
      then show ?thesis using bound_parent_after [OF assms(1,2,4)] assms(5) by blast
    next
      case ns: False
      with r have r': "resolves os t w' p" by simp
      have "(\<exists>c. content_of w' p c) \<or> p \<in> set earlier'"
      proof (cases "\<exists>c. content_of w p c")
        case True
        then obtain c n where c: "so_bound p = NVal n" "n \<noteq> ''''" "cl_contents w storageContentGVK n = Some c"
          unfolding content_of_def by blast
        from with_content_keeps [OF c(3), of os s storageContentGVK owner]
        have "cl_contents w' storageContentGVK n = Some c" using assms(1) by (simp add: one_bound_def)
        then show ?thesis using c unfolding content_of_def by blast
      next
        case False
        then have "p \<in> set earlier" using p(2) by blast
        moreover have "p \<noteq> s" using ns by (auto simp: same_key_def)
        ultimately show ?thesis using Cons.prems(2) by blast
      qed
      with r' show ?thesis by blast
    qed
  qed simp
  moreover have "top_down os w' (t # earlier') ss"
    using Cons.prems by (intro Cons.IH [of "t # earlier"]) auto
  ultimately show ?case by simp
qed simp

lemma anchored_pass:
  assumes "calm os" and "awaiting os key b w s" and "keyed w" and "top_down os w [] (s # ss)"
  shows "\<exists>owner w'. Reconcile_snapshot os key b (so_namespace s) (so_name s) w = (PassRequeue, w') \<and>
     one_bound os s owner w w' \<and>
     (if IsRootSnapshot s then or_kind owner = ''ObjectKeeper'' \<and> or_name owner = keeper_name os s
      else or_kind owner = kindSnapshotContent \<and> (\<exists>p c. resolves os s w p \<and> content_of w p c \<and> so_bound p = NVal (or_name owner)))"
proof -
  have aw: "capturable key b s" "found_first b s w" "content_gvk b (so_gvk s) = Inr storageContentGVK"
    "slot_ok os s storageContentGVK w" "IsRootSnapshot s \<longrightarrow> keeper_slot_ok os s w"
    using assms(2) by (simp_all add: awaiting_def)
  note one = binds_in_one_pass [OF assms(1) aw(1-4)]
  show ?thesis
  proof (cases "IsRootSnapshot s")
    case True
    let ?o = "RootObjectKeeperOwnerReference (anchoring_keeper os b s w)"
    have "anchor os b s w ?o" using True aw(5) by (simp add: anchor_def)
    moreover have "or_name ?o = keeper_name os s"
      using aw(5) True by (auto simp: RootObjectKeeperOwnerReference_def anchoring_keeper_def wanted_keeper_name
        keeper_slot_ok_def split: option.splits)
    moreover have "or_kind ?o = ''ObjectKeeper''" by (simp add: RootObjectKeeperOwnerReference_def)
    ultimately show ?thesis using one [of ?o] True by (auto simp: one_bound_def)
  next
    case False
    with assms(4) obtain p c where p: "resolves os s w p" "content_of w p c" by auto
    let ?o = "content_owner_reference c"
    have "anchor os b s w ?o" using False p unfolding anchor_def by auto
    moreover have "so_bound p = NVal (or_name ?o)"
    proof -
      from p(2) obtain n where n: "so_bound p = NVal n" "cl_contents w storageContentGVK n = Some c" unfolding content_of_def by blast
      then have "ct_name c = n" using assms(3) unfolding keyed_def by blast
      then show ?thesis using n(1)
        by (simp add: content_owner_reference_def SnapshotContentOwnerReference_def snapshot_content.truncate_def)
    qed
    moreover have "or_kind ?o = kindSnapshotContent"
      by (simp add: content_owner_reference_def SnapshotContentOwnerReference_def)
    ultimately have "\<exists>w'. Reconcile_snapshot os key b (so_namespace s) (so_name s) w = (PassRequeue, w') \<and> one_bound os s ?o w w'"
      using one [of ?o] unfolding one_bound_def by blast
    then show ?thesis using p False \<open>so_bound p = NVal (or_name ?o)\<close> \<open>or_kind ?o = kindSnapshotContent\<close> by auto
  qed
qed

lemma distinct_keys_of_present:
  assumes "present w s" and "present w t" and "same_key s t"
  shows "s = t"
proof -
  have "Some s = cl_snapshots w (so_gvk s) (so_namespace s) (so_name s)" using assms(1) by (simp only: present_def)
  also have "\<dots> = cl_snapshots w (so_gvk t) (so_namespace t) (so_name t)" using assms(3) by (simp only: same_key_def)
  also have "\<dots> = Some t" using assms(2) by (simp only: present_def)
  finally show ?thesis by (rule option.inject [THEN iffD1])
qed

text \<open>What the passes for a list leave alone, and what they settle.\<close>

definition kept_contents :: "'d cluster \<Rightarrow> 'd cluster \<Rightarrow> bool" where
  "kept_contents w w' = (\<forall>k n c. cl_contents w k n = Some c \<longrightarrow> cl_contents w' k n = Some c)"

definition kept_others :: "bound_snapshot list \<Rightarrow> 'd cluster \<Rightarrow> 'd cluster \<Rightarrow> bool" where
  "kept_others ss w w' = (\<forall>t. (\<forall>s\<in>set ss. \<not> same_key s t) \<longrightarrow>
     cl_snapshots w' (so_gvk t) (so_namespace t) (so_name t) = cl_snapshots w (so_gvk t) (so_namespace t) (so_name t))"

lemma one_bound_keeps:
  assumes "one_bound os s owner w w1" and "kept_contents w1 w'" and "kept_others ss w1 w'"
  shows "kept_contents w w' \<and> kept_others (s # ss) w w'"
proof
  have "kept_contents w w1"
    using assms(1) with_content_keeps [of w _ _ _ os s storageContentGVK owner] by (auto simp: kept_contents_def one_bound_def)
  then show "kept_contents w w'" using assms(2) by (simp add: kept_contents_def)
  show "kept_others (s # ss) w w'"
    using assms(3) one_bound_keys [OF assms(1)] by (auto simp: kept_others_def same_key_def)
qed

lemma resolves_kept:
  assumes "resolves os s w p" and "keyed w" and "kept_others ss w w'" and "\<forall>t\<in>set ss. \<not> same_key t p"
  shows "resolves os s w' p"
proof -
  from assms(1) obtain ref where ref: "SnapshotParentOwnerRef s = Some ref"
    "or_apiVersion ref = storageGroupVersion \<and> or_kind ref = ''Snapshot'' \<or> parse_gv_error (os_env os) (or_apiVersion ref) = None"
    "cl_snapshots w (parent_kind os ref) (so_namespace s) (or_name ref) = Some p" "or_uid ref = '''' \<or> so_uid p = or_uid ref"
    unfolding resolves_def by blast
  have key: "so_gvk p = parent_kind os ref" "so_namespace p = so_namespace s" "so_name p = or_name ref"
    using ref(3) assms(2) by (auto simp: keyed_def)
  have "cl_snapshots w' (so_gvk p) (so_namespace p) (so_name p) = cl_snapshots w (so_gvk p) (so_namespace p) (so_name p)"
    using assms(3,4) unfolding kept_others_def by blast
  then have "cl_snapshots w' (parent_kind os ref) (so_namespace s) (or_name ref) = Some p"
    using ref(3) unfolding key by simp
  with ref(1,2,4) show ?thesis unfolding resolves_def by blast
qed

lemma settled_first:
  assumes "one_bound os s owner w w1" and "awaiting os key b w s" and "keyed w"
    and "kept_contents w1 w'" and "kept_others ss w1 w'" and "\<forall>t\<in>set ss. \<not> same_key t s"
    and "owned_as_planned os s w' owner"
  shows "settled os w w' s"
proof -
  have aw: "g_kind (so_gvk s) \<noteq> ''''" "slot_ok os s storageContentGVK w"
    using assms(2) by (simp_all add: awaiting_def capturable_def)
  have "cl_snapshots w1 (so_gvk s) (so_namespace s) (so_name s) = Some (bound_to_own os s)"
    using one_bound_keys [OF assms(1)] by simp
  moreover have "cl_snapshots w' (so_gvk s) (so_namespace s) (so_name s) = cl_snapshots w1 (so_gvk s) (so_namespace s) (so_name s)"
    using assms(5,6) unfolding kept_others_def by blast
  ultimately have bound: "cl_snapshots w' (so_gvk s) (so_namespace s) (so_name s) = Some (bound_to_own os s)" by (simp only:)
  from with_content_own [OF aw(2) disjI2 [OF aw(1)], of owner] obtain c where
    c: "cl_contents (with_content os s storageContentGVK owner w) storageContentGVK (content_name_of os s) = Some c"
      "contentSnapshotRefMatchesSnapshot (os_env os) c (so_gvk s) s"
      "cl_contents w storageContentGVK (content_name_of os s) = None \<longrightarrow> bc_protected c \<and> bc_policy c = ''Retain'' \<and> ct_owner_refs c = [owner]"
    by (elim exE conjE)
  have "cl_contents w1 storageContentGVK (content_name_of os s) = Some c" using c(1) assms(1) by (simp add: one_bound_def)
  then have "cl_contents w' storageContentGVK (content_name_of os s) = Some c" using assms(4) unfolding kept_contents_def by blast
  note there = this
  have "cl_contents w storageContentGVK (content_name_of os s) = None \<Longrightarrow>
      bc_protected c \<and> bc_policy c = ''Retain'' \<and> (\<exists>owner. ct_owner_refs c = [owner] \<and> owned_as_planned os s w' owner)"
    using c(3) assms(7) by simp
  with bound there c(2) show ?thesis unfolding settled_def by simp
qed

lemma settled_later:
  assumes "settled os w1 w' t" and "one_bound os s owner w w1" and "content_name_of os t \<noteq> content_name_of os s"
  shows "settled os w w' t"
  using assms(1) slots_after [OF assms(2,3)] unfolding settled_def by simp

lemma unbound_key:
  assumes "awaiting os key b w s" and "resolves os t w p" and "keyed w" and "content_of w p c"
  shows "\<not> same_key s p"
proof
  assume k: "same_key s p"
  from assms(2,3) have "present w p" by (auto simp: resolves_def keyed_def present_def)
  moreover have "present w s" using assms(1) by (simp add: awaiting_def found_first_def)
  ultimately have "s = p" using k distinct_keys_of_present by blast
  have u: "bound_name s = ''''" using assms(1) by (simp add: awaiting_def capturable_def)
  show False using assms(4) u unfolding \<open>s = p\<close> content_of_def bound_name_def by auto
qed

lemma tree_binds:
  assumes "calm os"
  shows "\<forall>s\<in>set ss. awaiting os key b w s \<Longrightarrow> distinct (map (content_name_of os) ss) \<Longrightarrow> keyed w \<Longrightarrow> top_down os w [] ss \<Longrightarrow>
    kept_contents w (bind_passes os key b ss w) \<and> kept_others ss w (bind_passes os key b ss w) \<and>
    (\<forall>s\<in>set ss. settled os w (bind_passes os key b ss w) s)"
proof (induction ss arbitrary: w)
  case Nil
  then show ?case by (simp add: kept_contents_def kept_others_def)
next
  case (Cons s ss)
  have aw: "awaiting os key b w s" using Cons.prems(1) by simp
  have all: "\<forall>t\<in>set (s # ss). present w t" using Cons.prems(1) by (auto simp: awaiting_def found_first_def)
  have names: "\<forall>t\<in>set ss. content_name_of os t \<noteq> content_name_of os s"
  proof (intro ballI notI)
    fix t assume "t \<in> set ss" "content_name_of os t = content_name_of os s"
    then have "content_name_of os s \<in> set (map (content_name_of os) ss)" by (metis (mono_tags, lifting) imageI list.set_map)
    then show False using Cons.prems(2) by simp
  qed
  have keys: "\<forall>t\<in>set ss. \<not> same_key s t"
  proof
    fix t assume "t \<in> set ss"
    then have "present w s" "present w t" "content_name_of os t \<noteq> content_name_of os s" using all names by simp_all
    then show "\<not> same_key s t" using distinct_keys_of_present by blast
  qed
  have keys': "\<forall>t\<in>set ss. \<not> same_key t s" using keys by (auto simp: same_key_def)
  from anchored_pass [OF assms aw Cons.prems(3,4)] obtain owner w1 where
    r: "Reconcile_snapshot os key b (so_namespace s) (so_name s) w = (PassRequeue, w1)" and one: "one_bound os s owner w w1"
    and own: "if IsRootSnapshot s then or_kind owner = ''ObjectKeeper'' \<and> or_name owner = keeper_name os s
      else or_kind owner = kindSnapshotContent \<and> (\<exists>p c. resolves os s w p \<and> content_of w p c \<and> so_bound p = NVal (or_name owner))"
    by blast
  let ?w = "bind_passes os key b ss w1"
  have ps: "present w s" using all by simp
  have td: "top_down os w1 [] ss"
    using top_down_after [OF one ps Cons.prems(3), of "[s]" ss "[]"] Cons.prems(4) aw keys'
    by (auto simp: awaiting_def capturable_def)
  have aw1: "\<forall>t\<in>set ss. awaiting os key b w1 t"
    using awaiting_after [OF one _ ps] Cons.prems(1) keys names by auto
  from Cons.IH [OF aw1 _ keyed_after [OF r Cons.prems(3)] td] Cons.prems(2)
  have IH: "kept_contents w1 ?w" "kept_others ss w1 ?w" "\<forall>t\<in>set ss. settled os w1 ?w t" by simp_all
  note kept = one_bound_keeps [OF one IH(1,2)]
  have "owned_as_planned os s ?w owner"
  proof (cases "IsRootSnapshot s")
    case False
    with own obtain p c where p: "or_kind owner = kindSnapshotContent" "resolves os s w p" "content_of w p c" "so_bound p = NVal (or_name owner)"
      by auto
    have "\<forall>t\<in>set (s # ss). \<not> same_key t p" using unbound_key [OF _ p(2) Cons.prems(3) p(3)] Cons.prems(1) by blast
    from resolves_kept [OF p(2) Cons.prems(3) conjunct2 [OF kept] this] have "resolves os s ?w p" .
    then show ?thesis using p False by (auto simp: owned_as_planned_def)
  qed (use own in \<open>simp add: owned_as_planned_def\<close>)
  note first = settled_first [OF one aw Cons.prems(3) IH(1,2) keys' this]
  have "\<forall>t\<in>set ss. settled os w ?w t" using settled_later [OF _ one] IH(3) names by blast
  with first kept r show ?case by simp
qed

section \<open>Interrupted passes\<close>

text \<open>No other registered kind has an object of the same namespace and name.\<close>

definition found_alone :: "controller \<Rightarrow> bound_snapshot \<Rightarrow> 'd cluster \<Rightarrow> bool" where
  "found_alone b s w = (found_first b s w \<and>
     (\<forall>k\<in>set (bn_kinds b). k \<noteq> so_gvk s \<longrightarrow> cl_snapshots w k (so_namespace s) (so_name s) = None))"

lemma found_alone_simps [simp]:
  "found_alone b s (w\<lparr>cl_capture := cw\<rparr>) = found_alone b s w"
  "found_alone b s (store_content k c w) = found_alone b s w" "found_alone b s (store_keeper kp w) = found_alone b s w"
  by (simp_all add: found_alone_def found_first_def)

text \<open>The snapshot as passes for it leave it: its status changes, its binding at most to its own content.\<close>

definition status_of :: "('t, 'g, 'd) outside \<Rightarrow> bound_snapshot \<Rightarrow> bound_snapshot \<Rightarrow> bool" where
  "status_of os s s' = (\<exists>cs ex d bd. bd \<in> {so_bound s, NVal (content_name_of os s)} \<and>
     s' = s\<lparr>so_conditions := cs, so_excluded := ex, bs_data := d, so_bound := bd\<rparr>)"

definition recoverable :: "('t, 'g, 'd) outside \<Rightarrow> controller \<Rightarrow> bound_snapshot \<Rightarrow> 'd cluster \<Rightarrow> bool" where
  "recoverable os b s w = (g_kind (so_gvk s) \<noteq> '''' \<and> (\<exists>s'. status_of os s s' \<and> found_alone b s' w) \<and>
     (\<forall>k. slot_ok os s k w \<or> content_gvk b (so_gvk s) \<noteq> Inr k) \<and>
     (if IsRootSnapshot s then keeper_slot_ok os s w
      else \<exists>p c. resolves os s w p \<and> content_of w p c \<and> \<not> same_key p s))"

lemma status_of_subject: "status_of os s s' \<Longrightarrow> same_subject s s' \<and> same_key s' s"
  by (auto simp: status_of_def same_subject_def same_key_def)

lemma found_alone_store:
  assumes "found_alone b s' w" and "same_key t s'"
  shows "found_alone b t (store_snapshot t w)"
proof -
  from assms(1) obtain ks ks' where k: "bn_kinds b = ks @ so_gvk s' # ks'" "present w s'"
    "\<forall>k\<in>set ks. cl_snapshots w k (so_namespace s') (so_name s') = None"
    and others: "\<forall>k\<in>set (bn_kinds b). k \<noteq> so_gvk s' \<longrightarrow> cl_snapshots w k (so_namespace s') (so_name s') = None"
    unfolding found_alone_def found_first_def by blast
  have eq: "so_gvk t = so_gvk s'" "so_namespace t = so_namespace s'" "so_name t = so_name s'"
    using assms(2) by (simp_all add: same_key_def)
  have "so_gvk s' \<notin> set ks" using k(2,3) by (auto simp: present_def)
  then have "\<forall>k\<in>set ks. cl_snapshots (store_snapshot t w) k (so_namespace t) (so_name t) = None"
    using k(3) unfolding store_snapshot_def by (auto simp: eq)
  moreover have "present (store_snapshot t w) t" by (simp add: stored_store_snapshot)
  ultimately have "found_first b t (store_snapshot t w)" using k(1) unfolding found_first_def eq by metis
  moreover have "\<forall>k\<in>set (bn_kinds b). k \<noteq> so_gvk t \<longrightarrow> cl_snapshots (store_snapshot t w) k (so_namespace t) (so_name t) = None"
    using others unfolding store_snapshot_def by (simp add: eq)
  ultimately show ?thesis unfolding found_alone_def by blast
qed

lemma resolves_store:
  assumes "resolves os s w p" and "keyed w" and "\<not> same_key p t"
  shows "resolves os s (store_snapshot t w) p"
proof -
  from assms(1) obtain ref where ref: "SnapshotParentOwnerRef s = Some ref"
    "or_apiVersion ref = storageGroupVersion \<and> or_kind ref = ''Snapshot'' \<or> parse_gv_error (os_env os) (or_apiVersion ref) = None"
    "cl_snapshots w (parent_kind os ref) (so_namespace s) (or_name ref) = Some p" "or_uid ref = '''' \<or> so_uid p = or_uid ref"
    unfolding resolves_def by blast
  have key: "so_gvk p = parent_kind os ref" "so_namespace p = so_namespace s" "so_name p = or_name ref"
    using ref(3) assms(2) by (auto simp: keyed_def)
  have "cl_snapshots (store_snapshot t w) (parent_kind os ref) (so_namespace s) (or_name ref) = Some p"
    using ref(3) assms(3) unfolding same_key_def key by (auto simp: store_snapshot_def)
  with ref(1,2,4) show ?thesis unfolding resolves_def by blast
qed

lemma recoverable_store:
  assumes "recoverable os b s w" and "keyed w" and "status_of os s t"
  shows "recoverable os b s (store_snapshot t w)"
proof -
  from assms(1) obtain s' where s': "status_of os s s'" "found_alone b s' w" unfolding recoverable_def by blast
  have k: "same_key t s'" using status_of_subject [OF assms(3)] status_of_subject [OF s'(1)] by (simp add: same_key_def)
  have "found_alone b t (store_snapshot t w)" by (rule found_alone_store [OF s'(2) k])
  moreover have "IsRootSnapshot s \<or> (\<exists>p c. resolves os s (store_snapshot t w) p \<and> content_of (store_snapshot t w) p c \<and> \<not> same_key p s)"
  proof (cases "IsRootSnapshot s")
    case False
    with assms(1) obtain p c where p: "resolves os s w p" "content_of w p c" "\<not> same_key p s" unfolding recoverable_def by auto
    have "\<not> same_key p t" using p(3) status_of_subject [OF assms(3)] by (auto simp: same_key_def)
    from resolves_store [OF p(1) assms(2) this] p(2,3) show ?thesis unfolding content_of_def by auto
  qed simp
  ultimately show ?thesis using assms(1,3) unfolding recoverable_def by (auto simp: slot_ok_def keeper_slot_ok_def)
qed

lemma recoverable_content:
  assumes "recoverable os b s w" and "keyed w" and "cl_contents w k (ct_name c) = Some c \<and> ct_snapshot_ref c' = ct_snapshot_ref c \<and> ct_name c' = ct_name c \<or>
      cl_contents w k (ct_name c') = None \<and> contentSnapshotRefMatchesSnapshot (os_env os) c' (so_gvk s) s"
  shows "recoverable os b s (store_content k c' w)"
proof -
  have slot: "slot_ok os s k' w \<Longrightarrow> slot_ok os s k' (store_content k c' w)" for k'
    using assms(3) ref_matches [of c' c] by (auto simp: slot_ok_def contents_store_content)
  have ff: "found_alone b t (store_content k c' w) = found_alone b t w" for t by simp
  have res: "resolves os s (store_content k c' w) p = resolves os s w p" for p by (simp add: resolves_def)
  have con: "content_of w p c0 \<Longrightarrow> \<exists>c. content_of (store_content k c' w) p c" for p c0
    unfolding content_of_def contents_store_content by metis
  show ?thesis
  proof (cases "IsRootSnapshot s")
    case True
    then show ?thesis using assms(1) slot unfolding recoverable_def ff by (auto simp: keeper_slot_ok_def)
  next
    case False
    with assms(1) obtain p c where p: "resolves os s w p" "content_of w p c" "\<not> same_key p s" unfolding recoverable_def by auto
    with False con [OF p(2)] show ?thesis using assms(1) slot unfolding recoverable_def ff res by auto
  qed
qed

lemma served_is_stored:
  "recoverable os b s w \<Longrightarrow> present w t \<Longrightarrow> same_subject s t \<Longrightarrow> status_of os s t"
proof -
  assume r: "recoverable os b s w" and t: "present w t" "same_subject s t"
  from r obtain s' where s': "status_of os s s'" "found_alone b s' w" unfolding recoverable_def by blast
  have "present w s'" using s'(2) unfolding found_alone_def found_first_def by blast
  moreover have "same_key t s'" using t(2) status_of_subject [OF s'(1)] by (simp add: same_key_def same_subject_def)
  ultimately have "t = s'" using distinct_keys_of_present t(1) by blast
  then show ?thesis using s'(1) by simp
qed

lemma status_of_write: "status_of os s t \<Longrightarrow> status_write t t' \<Longrightarrow> status_of os s t'"
proof -
  assume a: "status_of os s t" "status_write t t'"
  from a(1) obtain cs ex d bd where t: "bd \<in> {so_bound s, NVal (content_name_of os s)}"
    "t = s\<lparr>so_conditions := cs, so_excluded := ex, bs_data := d, so_bound := bd\<rparr>" unfolding status_of_def by blast
  from a(2) obtain cs' ex' d' where "t' = t\<lparr>so_conditions := cs', so_excluded := ex', bs_data := d'\<rparr>"
    unfolding status_write_def by blast
  then have "t' = s\<lparr>so_conditions := cs', so_excluded := ex', bs_data := d', so_bound := bd\<rparr>" using t(2) by simp
  with t(1) show ?thesis unfolding status_of_def by blast
qed

lemma status_of_bind: "status_of os s t \<Longrightarrow> status_of os s (t\<lparr>so_bound := NVal (content_name_of os s)\<rparr>)"
proof -
  assume "status_of os s t"
  then obtain cs ex d bd where "t = s\<lparr>so_conditions := cs, so_excluded := ex, bs_data := d, so_bound := bd\<rparr>"
    unfolding status_of_def by blast
  then have "t\<lparr>so_bound := NVal (content_name_of os s)\<rparr> =
      s\<lparr>so_conditions := cs, so_excluded := ex, bs_data := d, so_bound := NVal (content_name_of os s)\<rparr>" by simp
  then show ?thesis unfolding status_of_def by blast
qed

lemma recoverable_called: "recoverable os b s (w\<lparr>cl_capture := cw\<rparr>) = recoverable os b s w"
proof -
  have "resolves os s (w\<lparr>cl_capture := cw\<rparr>) p = resolves os s w p" for p by (simp add: resolves_def)
  moreover have "content_of (w\<lparr>cl_capture := cw\<rparr>) p c = content_of w p c" for p c by (simp add: content_of_def)
  moreover have "slot_ok os s k (w\<lparr>cl_capture := cw\<rparr>) = slot_ok os s k w" for k by (simp add: slot_ok_def)
  moreover have "keeper_slot_ok os s (w\<lparr>cl_capture := cw\<rparr>) = keeper_slot_ok os s w" by (simp add: keeper_slot_ok_def)
  ultimately show ?thesis unfolding recoverable_def by simp
qed

lemma recoverable_keeper:
  assumes "recoverable os b s w" and "rk_name kp = keeper_name os s" and "rk_follow kp = Some (SnapshotSubjectRefFromObject (os_env os) s)"
  shows "recoverable os b s (store_keeper kp w)"
proof -
  have "resolves os s (store_keeper kp w) p = resolves os s w p" for p by (simp add: resolves_def)
  moreover have "content_of (store_keeper kp w) p c = content_of w p c" for p c by (simp add: content_of_def)
  moreover have "slot_ok os s k (store_keeper kp w) = slot_ok os s k w" for k by (simp add: slot_ok_def)
  moreover have "found_alone b t (store_keeper kp w) = found_alone b t w" for t by simp
  moreover have "keeper_slot_ok os s (store_keeper kp w)" using assms(2,3) by (simp add: keeper_slot_ok_def)
  ultimately show ?thesis using assms(1) unfolding recoverable_def by (cases "IsRootSnapshot s") auto
qed

lemma recoverable_invariant:
  assumes "same_naming os os'"
  shows "cluster_invariant os' b (same_subject s) (recoverable os b s)"
proof
  have nm: "content_name_of os' t = content_name_of os t" for t using assms by (simp add: same_naming_def StableContentName_def)
  have sr: "SnapshotSubjectRefFromObject (os_env os') t = SnapshotSubjectRefFromObject (os_env os) t" for t
    using assms by (simp add: same_naming_def SnapshotSubjectRefFromObject_def)
  fix w :: "'c cluster"
  show "same_subject s t \<Longrightarrow> same_subject t t' \<Longrightarrow> same_subject s t'" for t t' by (simp add: same_subject_def)
  show "recoverable os b s w \<Longrightarrow> recoverable os b s (w\<lparr>cl_capture := cw\<rparr>)" for cw
    by (simp add: recoverable_called)
  show "recoverable os b s (store_keeper kp w)" if "recoverable os b s w" "same_subject s t"
    "rk_name kp = RootObjectKeeperName (cd_digest (os_codec os')) (so_uid t)"
    "rk_follow kp = Some (SnapshotSubjectRefFromObject (os_env os') t)" for t kp
  proof -
    have "rk_name kp = keeper_name os s" "rk_follow kp = Some (SnapshotSubjectRefFromObject (os_env os) s)"
      using that assms same_subject_ref [OF that(2), of "os_env os"] sr
      by (simp_all add: same_naming_def keeper_name_def same_subject_def)
    then show ?thesis by (rule recoverable_keeper [OF that(1)])
  qed
  show "recoverable os b s (store_snapshot t' w)" if "recoverable os b s w" "keyed w" "present w t" "same_subject s t" "status_write t t'"
    for t t'
    using recoverable_store [OF that(1,2) status_of_write [OF served_is_stored [OF that(1,3,4)] that(5)]] .
  show "recoverable os b s (store_content k c' w)" if "recoverable os b s w" "keyed w" "cl_contents w k (ct_name c) = Some c" "content_write c c'"
    for k c c'
    using that(3,4) by (intro recoverable_content [OF that(1,2), of k c c']) (auto simp: content_write_def)
  show "recoverable os b s (store_content k (new_content (content_name_of os' t) policy (SnapshotSubjectRefFromObject (os_env os') t) owner
      \<lparr>ct_uid := u\<rparr>) w)" if "recoverable os b s w" "keyed w" "same_subject s t" "cl_contents w k (content_name_of os' t) = None"
    for t k policy owner u
  proof (rule recoverable_content [OF that(1,2)], rule disjI2, rule conjI)
    let ?c = "new_content (content_name_of os' t) policy (SnapshotSubjectRefFromObject (os_env os') t) owner\<lparr>ct_uid := u\<rparr>"
    show "cl_contents w k (ct_name ?c) = None" using that(4) by (simp add: new_content_def)
    have "g_kind (so_gvk s) \<noteq> ''''" using that(1) by (simp add: recoverable_def)
    then have "SnapshotSubjectRefFromObject (os_env os) s \<noteq> zero_subject_ref"
      by (auto simp: SnapshotSubjectRefFromObject_def zero_subject_ref_def)
    then show "contentSnapshotRefMatchesSnapshot (os_env os) ?c (so_gvk s) s"
      using same_subject_ref [OF that(3), of "os_env os"] unfolding sr by (simp add: fresh_content_matches)
  qed
  show "recoverable os b s (store_snapshot (t\<lparr>so_bound := NVal (content_name_of os' t)\<rparr>) w)"
    if "recoverable os b s w" "keyed w" "present w t" "same_subject s t" for t
    using recoverable_store [OF that(1,2) status_of_bind [OF served_is_stored [OF that(1,3,4)]]] same_subject_name [OF that(4), of os]
    unfolding nm by simp
  show "recoverable os b s (store_snapshot (t\<lparr>so_bound := NVal (content_name_of os' t)\<rparr>) w)"
    if "recoverable os b s w" "keyed w" "present w t" "same_subject s t" for t
    using recoverable_store [OF that(1,2) status_of_bind [OF served_is_stored [OF that(1,3,4)]]] same_subject_name [OF that(4), of os]
    unfolding nm by simp
qed

text \<open>Passes for one request, each with its own answers of the API server.\<close>

fun retried :: "(gvk \<Rightarrow> string) \<Rightarrow> controller \<Rightarrow> string \<Rightarrow> string \<Rightarrow> ('t, 'g, 'd) outside list \<Rightarrow> 'd cluster \<Rightarrow> 'd cluster" where
  "retried key b ns n [] w = w"
| "retried key b ns n (os # oss) w = retried key b ns n oss (snd (Reconcile_snapshot os key b ns n w))"

end
