(* ===== verification/Binding_Properties.thy ===== *)
theory Binding_Properties
  imports Binding_Outcomes
begin

text \<open>
  The properties of the binding controller, with a cluster on which they apply: a namespace snapshot and the
  disk snapshot under it, bound to SnapshotContents.
\<close>

section \<open>A snapshot behind another kind\<close>

definition no_miss :: "('t, 'g, 'd) outside \<Rightarrow> bool" where
  "no_miss os = (\<forall>n. os_fault os n \<noteq> Some ErrNotFound)"

fun passes :: "(gvk \<Rightarrow> string) \<Rightarrow> controller \<Rightarrow> (('t, 'g, 'd) outside \<times> string \<times> string) list \<Rightarrow> 'd cluster \<Rightarrow> 'd cluster" where
  "passes key b [] w = w"
| "passes key b ((os, ns, n) # rs) w = passes key b rs (snd (Reconcile_snapshot os key b ns n w))"

lemma no_miss_read:
  "no_miss os \<Longrightarrow> cl_snapshots w k ns n \<noteq> None \<Longrightarrow> fst (read_snapshot os k ns n w) \<noteq> Inl ErrNotFound"
  by (auto simp: no_miss_def read_snapshot_def read_call_def call_def served_def split: prod.splits option.splits)

lemma lookup_stops:
  "no_miss os \<Longrightarrow> cl_snapshots w k ns n \<noteq> None \<Longrightarrow> lookup_kinds os (ks @ k # ks') ns n w = (Inr (Some s), w1) \<Longrightarrow>
   \<exists>k'\<in>insert k (set ks). cl_snapshots w k' ns n = Some s"
proof (induction ks arbitrary: w)
  case Nil
  obtain r1 w2 where rd: "read_snapshot os k ns n w = (r1, w2)" by fastforce
  with no_miss_read [OF Nil.prems(1,2)] Nil.prems(3) read_snapshot_D [OF rd] show ?case
    by (cases r1) (auto split: if_splits)
next
  case (Cons k' ks)
  obtain r1 w2 where rd: "read_snapshot os k' ns n w = (r1, w2)" by fastforce
  from read_snapshot_D [OF rd] obtain cw where cw: "w2 = w\<lparr>cl_capture := cw\<rparr>"
    "\<And>s. r1 = Inr s \<Longrightarrow> cl_snapshots w k' ns n = Some s" by blast
  show ?case
  proof (cases r1)
    case (Inl x)
    then have "lookup_kinds os (ks @ k # ks') ns n w2 = (Inr (Some s), w1)" using Cons.prems(3) rd by (auto split: if_splits)
    from Cons.IH [OF Cons.prems(1) _ this] Cons.prems(2) cw(1) show ?thesis by auto
  next
    case (Inr s')
    then show ?thesis using Cons.prems(3) rd cw(2) by auto
  qed
qed

definition hiding :: "gvk \<Rightarrow> bound_snapshot \<Rightarrow> 'd cluster \<Rightarrow> bool" where
  "hiding k s w = (present w s \<and> cl_snapshots w k (so_namespace s) (so_name s) \<noteq> None)"

lemma hiding_store: "hiding k s w \<Longrightarrow> \<not> same_key t s \<Longrightarrow> hiding k s (store_snapshot t w)"
  by (auto simp: hiding_def present_def store_snapshot_def same_key_def)

lemma hiding_invariant: "cluster_invariant os b (\<lambda>t. \<not> same_key t s) (hiding k s)"
proof
  fix w :: "'d cluster"
  show "\<not> same_key t s \<Longrightarrow> same_subject t t' \<Longrightarrow> \<not> same_key t' s" for t t'
    by (auto simp: same_key_def same_subject_def)
  show "hiding k s w \<Longrightarrow> hiding k s (w\<lparr>cl_capture := cw\<rparr>)" for cw by (simp add: hiding_def)
  show "hiding k s w \<Longrightarrow> hiding k s (store_keeper kp w)" for kp by (simp add: hiding_def)
  show "hiding k s (store_snapshot t' w)" if "hiding k s w" "\<not> same_key t s" "status_write t t'" for t t'
    using that by (intro hiding_store) (auto simp: status_write_def same_key_def)
  show "hiding k s w \<Longrightarrow> hiding k s (store_content k' c' w)" for k' c' by (simp add: hiding_def)
  show "hiding k s w \<Longrightarrow> hiding k s (store_content k' c' w)" for k' c' by (simp add: hiding_def)
  show "hiding k s (store_snapshot (t\<lparr>so_bound := v\<rparr>) w)" if "hiding k s w" "\<not> same_key t s" for t v
    using that by (intro hiding_store) (auto simp: same_key_def)
  show "hiding k s (store_snapshot (t\<lparr>so_bound := v\<rparr>) w)" if "hiding k s w" "\<not> same_key t s" for t v
    using that by (intro hiding_store) (auto simp: same_key_def)
qed

lemma hidden_pass:
  assumes "no_miss os" and "bn_kinds b = ks @ k # ks'" and "so_gvk s \<notin> insert k (set ks)" and "hiding k s w" and "keyed w"
    and "Reconcile_snapshot os key b ns n w = (r, w')"
  shows "hiding k s w' \<and> keyed w'"
proof (rule cluster_invariant.pass_keeps [OF hiding_invariant assms(6,4,5)])
  fix t w1 assume lk: "lookup_kinds os (bn_kinds b) ns n w = (Inr (Some t), w1)"
  from lookup_kinds_D [OF lk] obtain k0 where k0: "cl_snapshots w k0 ns n = Some t" by blast
  then have key: "so_gvk t = k0" "so_namespace t = ns" "so_name t = n" using assms(5) by (auto simp: keyed_def)
  show "\<not> same_key t s"
  proof
    assume "same_key t s"
    then have at: "ns = so_namespace s" "n = so_name s" "so_gvk t = so_gvk s" using key by (simp_all add: same_key_def)
    have "cl_snapshots w k ns n \<noteq> None" using assms(4) at by (simp add: hiding_def)
    from lookup_stops [OF assms(1) this] lk assms(2) obtain k' where
      "k' \<in> insert k (set ks)" "cl_snapshots w k' ns n = Some t" by metis
    then show False using assms(3,5) at(3) by (auto simp: keyed_def)
  qed
qed

section \<open>A cluster\<close>

definition demo_kinds :: "gvk list" where
  "demo_kinds = [kind_of_storage ''Snapshot'', \<lparr>g_group = ''demo'', g_version = ''v1'', g_kind = ''DiskSnapshot''\<rparr>]"

definition demo_control :: controller where
  "demo_control = \<lparr>bn_registry = NewGVKRegistry\<lparr>contentGVKBySnapshotKind :=
       [(''Snapshot'', storageContentGVK), (''DiskSnapshot'', storageContentGVK)]\<rparr>,
     bn_kinds = demo_kinds, bn_active = [], bn_domain_kinds = [], bn_ttl = None\<rparr>"

definition plain_snapshot :: "gvk \<Rightarrow> string \<Rightarrow> string \<Rightarrow> owner_ref list \<Rightarrow> bound_snapshot" where
  "plain_snapshot k n u refs = \<lparr>so_gvk = k, so_namespace = ''ns'', so_name = n, so_uid = u, so_generation = 1, so_deleting = False,
     so_import_mode = False, so_children = NAbsent, so_bound = NAbsent, so_conditions = [], so_phase = '''', so_phase_reason = '''',
     so_phase_message = '''', so_mcr_name = NAbsent, so_vcr_name = NAbsent, so_bound_vsc = NAbsent, so_source_ref = zero_subject_ref,
     so_manifest_captured = False, so_excluded = [], bs_owner_refs = refs, bs_claimed = False, bs_data = None\<rparr>"

definition demo_top :: bound_snapshot where
  "demo_top = plain_snapshot (kind_of_storage ''Snapshot'') ''top'' ''u1'' []"

definition demo_disk :: bound_snapshot where
  "demo_disk = plain_snapshot \<lparr>g_group = ''demo'', g_version = ''v1'', g_kind = ''DiskSnapshot''\<rparr> ''disk'' ''u2''
     [SnapshotOwnerReference storageGroupVersion ''Snapshot'' ''top'' ''u1'']"

definition no_snapshots :: "json cluster" where
  "no_snapshots = \<lparr>cl_snapshots = (\<lambda>_ _ _. None), cl_contents = (\<lambda>_ _. None), cl_keepers = (\<lambda>_. None), cl_capture = demo_world ''s''\<rparr>"

definition demo_cluster :: "json cluster" where
  "demo_cluster = store_snapshot demo_disk (store_snapshot demo_top no_snapshots)"

lemmas demo_snapshots = demo_cluster_def no_snapshots_def demo_top_def demo_disk_def plain_snapshot_def

abbreviation "calm_outside \<equiv> demo_outside no_faults"

lemma demo_calm: "calm calm_outside"
  by (simp add: calm_def demo_outside_def)

lemma demo_keyed: "keyed no_snapshots" "keyed demo_cluster"
  by (auto simp: keyed_def no_snapshots_def demo_cluster_def store_snapshot_def)

lemma storage_kinds:
  "kind_of_storage k = \<lparr>g_group = ''state-snapshotter.deckhouse.io'', g_version = ''v1alpha1'', g_kind = k\<rparr>"
  by (simp add: kind_of_storage_def parseGVK_def)

lemma demo_first: "found_first demo_control demo_top demo_cluster" "found_first demo_control demo_disk demo_cluster"
proof -
  show "found_first demo_control demo_top demo_cluster"
    unfolding found_first_def
    by (intro conjI exI [of _ "[]"] exI [of _ "tl demo_kinds"])
      (simp_all add: present_def demo_snapshots store_snapshot_def demo_control_def demo_kinds_def storage_kinds)
  show "found_first demo_control demo_disk demo_cluster"
    unfolding found_first_def
    by (intro conjI exI [of _ "[kind_of_storage ''Snapshot'']"] exI [of _ "[]"])
      (simp_all add: present_def demo_snapshots store_snapshot_def demo_control_def demo_kinds_def storage_kinds)
qed

lemma demo_stable_names:
  "content_name_of (demo_outside f) demo_top = ''nss-content-u1''" "content_name_of (demo_outside f) demo_disk = ''nss-content-u2''"
  by (simp_all add: demo_outside_def demo_codec_def StableContentName_def ContentName_def h16_def hashHex_def demo_top_def demo_disk_def
      plain_snapshot_def)

lemma demo_content_gvk: "content_gvk demo_control (so_gvk demo_top) = Inr storageContentGVK"
  "content_gvk demo_control (so_gvk demo_disk) = Inr storageContentGVK"
  by (simp_all add: content_gvk_def demo_control_def ResolveSnapshotContentGVK_def demo_top_def demo_disk_def plain_snapshot_def storage_kinds)

lemma demo_capturable: "capturable g_kind demo_control demo_top" "capturable g_kind demo_control demo_disk"
  by (simp_all add: capturable_def isDomainCaptureKind_def demo_control_def demo_top_def demo_disk_def plain_snapshot_def
      bound_name_def storage_kinds)

lemma demo_empty: "cl_contents demo_cluster = (\<lambda>_ _. None)" "cl_keepers demo_cluster = (\<lambda>_. None)"
  by (simp_all add: demo_cluster_def no_snapshots_def)

lemma demo_roots: "IsRootSnapshot demo_top" "\<not> IsRootSnapshot demo_disk"
  by (simp_all add: IsRootSnapshot_def demo_top_def demo_disk_def plain_snapshot_def SnapshotOwnerReference_def snapshot_owner_def
      has_suffix_def)

lemma demo_parent: "resolves calm_outside demo_disk demo_cluster demo_top"
  unfolding resolves_def
  by (intro exI [of _ "SnapshotOwnerReference storageGroupVersion ''Snapshot'' ''top'' ''u1''"])
    (simp add: SnapshotParentOwnerRef_def demo_snapshots SnapshotOwnerReference_def snapshot_owner_def has_suffix_def parent_kind_def
      store_snapshot_def storage_kinds)

lemma demo_awaiting: "\<forall>s\<in>set [demo_top, demo_disk]. awaiting calm_outside g_kind demo_control demo_cluster s"
  using demo_first demo_content_gvk demo_capturable
  by (simp add: awaiting_def slot_ok_def keeper_slot_ok_def demo_empty)

lemma demo_top_down: "top_down calm_outside demo_cluster [] [demo_top, demo_disk]"
  using demo_roots demo_parent by auto

section \<open>Properties\<close>

text \<open>
  C23: The passes bind a whole tree of snapshots from the root down: one undisturbed pass per snapshot, parents
  first, binds every snapshot to the content named by its uid; the content points back at the snapshot, a
  new one is protected, has the policy Retain and one owner (the ObjectKeeper of a root, the content of the
  parent otherwise), and no content that existed is touched.
\<close>

theorem tree_binds_top_down:
  assumes "calm os" and "keyed w" and "\<forall>s\<in>set ss. awaiting os key b w s" and "distinct (map (content_name_of os) ss)"
    and "top_down os w [] ss"
  shows "kept_contents w (bind_passes os key b ss w) \<and> (\<forall>s\<in>set ss. settled os w (bind_passes os key b ss w) s)"
  using tree_binds [OF assms(1,3,4,2,5)] by blast

lemma tree_binds_top_down_witness:
  "\<exists>c owner. cl_contents (bind_passes calm_outside g_kind demo_control [demo_top, demo_disk] demo_cluster) storageContentGVK
      ''nss-content-u2'' = Some c \<and> ct_owner_refs c = [owner] \<and> or_kind owner = kindSnapshotContent"
proof -
  let ?w = "bind_passes calm_outside g_kind demo_control [demo_top, demo_disk] demo_cluster"
  have d: "distinct (map (content_name_of calm_outside) [demo_top, demo_disk])" by (simp add: demo_stable_names)
  have "settled calm_outside demo_cluster ?w demo_disk"
    using tree_binds_top_down [OF demo_calm demo_keyed(2) demo_awaiting d demo_top_down] by simp
  then obtain c where c: "cl_contents ?w storageContentGVK ''nss-content-u2'' = Some c"
    "cl_contents demo_cluster storageContentGVK ''nss-content-u2'' = None \<longrightarrow>
       bc_protected c \<and> bc_policy c = ''Retain'' \<and> (\<exists>owner. ct_owner_refs c = [owner] \<and> owned_as_planned calm_outside demo_disk ?w owner)"
    unfolding settled_def demo_stable_names by (elim exE conjE)
  have "cl_contents demo_cluster storageContentGVK ''nss-content-u2'' = None" by (simp add: demo_empty)
  with c(2) obtain owner where "ct_owner_refs c = [owner]" "owned_as_planned calm_outside demo_disk ?w owner" by blast
  with c(1) demo_roots(2) show ?thesis
    by (intro exI [of _ c] exI [of _ owner]) (simp add: owned_as_planned_def)
qed


lemma demo_run: "binding_run UNIV calm_outside g_kind demo_control no_snapshots
    (bind_passes calm_outside g_kind demo_control [demo_top, demo_disk] demo_cluster)"
proof -
  let ?run = "binding_run UNIV calm_outside g_kind demo_control no_snapshots"
  have no: "\<not> present no_snapshots t" for t by (simp add: present_def no_snapshots_def)
  have "?run (store_snapshot demo_top no_snapshots)"
    by (rule binding_run.snapshot_created [OF binding_run.start])
      (use no in \<open>simp_all add: no_snapshots_def demo_top_def plain_snapshot_def bound_name_def\<close>)
  then have "?run demo_cluster"
    unfolding demo_cluster_def
  proof (rule binding_run.snapshot_created)
    show "\<forall>t. present (store_snapshot demo_top no_snapshots) t \<longrightarrow> content_name_of calm_outside t \<noteq> content_name_of calm_outside demo_disk"
      using no demo_stable_names by (auto simp: stored_store_snapshot split: if_splits)
  qed (simp_all add: demo_snapshots store_snapshot_def bound_name_def storage_kinds)
  moreover have "?run w \<Longrightarrow> ?run (snd (Reconcile_snapshot calm_outside g_kind demo_control ns n w))" for ns n w
    by (rule binding_run.pass [OF _ _ surjective_pairing]) (simp_all add: same_naming_def)
  ultimately show ?thesis by simp
qed

lemma demo_settled: "settled calm_outside demo_cluster (bind_passes calm_outside g_kind demo_control [demo_top, demo_disk] demo_cluster) demo_disk"
proof -
  have "distinct (map (content_name_of calm_outside) [demo_top, demo_disk])" by (simp add: demo_stable_names)
  from tree_binds [OF demo_calm demo_awaiting this demo_keyed(2) demo_top_down] show ?thesis by simp
qed


text \<open>
  C26: A pass only ever serves the first registered kind that has an object under the requested namespace and
  name. While that object exists, no pass for any request, with any faults but a false NotFound, touches a
  snapshot of a later kind with the same name: it is never bound.
\<close>

theorem hidden_snapshot_never_served:
  assumes "bn_kinds b = ks @ k # ks'" and "so_gvk s \<notin> insert k (set ks)" and "present w s"
    and "cl_snapshots w k (so_namespace s) (so_name s) \<noteq> None" and "keyed w" and "\<forall>(os, ns, n)\<in>set rs. no_miss os"
  shows "cl_snapshots (passes key b rs w) (so_gvk s) (so_namespace s) (so_name s) = Some s"
proof -
  have "hiding k s w" using assms(3,4) by (simp add: hiding_def)
  with assms(5,6) have "hiding k s (passes key b rs w)"
  proof (induction rs arbitrary: w)
    case (Cons r rs)
    obtain os ns n where r: "r = (os, ns, n)" by (cases r)
    obtain x w1 where p: "Reconcile_snapshot os key b ns n w = (x, w1)" by fastforce
    have "no_miss os" using Cons.prems(2) r by simp
    from hidden_pass [OF this assms(1,2) Cons.prems(3,1) p] Cons.IH [of w1] Cons.prems(2) show ?case by (simp add: r p)
  qed simp
  then show ?thesis by (simp add: hiding_def present_def)
qed

definition demo_shadow :: bound_snapshot where
  "demo_shadow = plain_snapshot \<lparr>g_group = ''demo'', g_version = ''v1'', g_kind = ''DiskSnapshot''\<rparr> ''top'' ''u3'' []"

lemma hidden_snapshot_never_served_witness:
  "cl_snapshots (passes g_kind demo_control (replicate 5 (calm_outside, ''ns'', ''top'')) (store_snapshot demo_shadow demo_cluster))
     (so_gvk demo_shadow) ''ns'' ''top'' = Some demo_shadow \<and> bound_name demo_shadow = ''''"
proof -
  have "cl_snapshots (passes g_kind demo_control (replicate 5 (calm_outside, ''ns'', ''top'')) (store_snapshot demo_shadow demo_cluster))
     (so_gvk demo_shadow) (so_namespace demo_shadow) (so_name demo_shadow) = Some demo_shadow"
  proof (rule hidden_snapshot_never_served [where ks = "[]" and k = "kind_of_storage ''Snapshot''" and ks' = "tl demo_kinds"])
    show "bn_kinds demo_control = [] @ kind_of_storage ''Snapshot'' # tl demo_kinds" by (simp add: demo_control_def demo_kinds_def)
    show "so_gvk demo_shadow \<notin> insert (kind_of_storage ''Snapshot'') (set [])" by (simp add: demo_shadow_def plain_snapshot_def storage_kinds)
    show "present (store_snapshot demo_shadow demo_cluster) demo_shadow" by (simp add: stored_store_snapshot)
    show "cl_snapshots (store_snapshot demo_shadow demo_cluster) (kind_of_storage ''Snapshot'') (so_namespace demo_shadow)
        (so_name demo_shadow) \<noteq> None"
      by (simp add: demo_shadow_def demo_snapshots store_snapshot_def storage_kinds)
    show "keyed (store_snapshot demo_shadow demo_cluster)" using demo_keyed(2) by (rule keyed_store_snapshot)
    show "\<forall>(os, ns, n)\<in>set (replicate 5 (calm_outside, ''ns'', ''top'')). no_miss os"
      by (simp add: no_miss_def demo_outside_def)
  qed
  then show ?thesis by (simp add: demo_shadow_def plain_snapshot_def bound_name_def)
qed

lemma retried_recoverable:
  "\<forall>os'\<in>set oss. same_naming os os' \<Longrightarrow> recoverable os b s w \<Longrightarrow> keyed w \<Longrightarrow>
   recoverable os b s (retried key b (so_namespace s) (so_name s) oss w) \<and> keyed (retried key b (so_namespace s) (so_name s) oss w)"
proof (induction oss arbitrary: w)
  case (Cons o1 oss)
  obtain r w1 where p: "Reconcile_snapshot o1 key b (so_namespace s) (so_name s) w = (r, w1)" by fastforce
  have "recoverable os b s w1 \<and> keyed w1"
  proof (rule cluster_invariant.pass_keeps [OF recoverable_invariant p Cons.prems(2,3)])
    show "same_naming os o1" using Cons.prems(1) by simp
    fix t w2 assume "lookup_kinds o1 (bn_kinds b) (so_namespace s) (so_name s) w = (Inr (Some t), w2)"
    from lookup_kinds_D [OF this] obtain k where k: "k \<in> set (bn_kinds b)" "cl_snapshots w k (so_namespace s) (so_name s) = Some t" by blast
    from Cons.prems(2) obtain s' where s': "status_of os s s'" "found_alone b s' w" unfolding recoverable_def by blast
    have key: "same_subject s s'" using status_of_subject [OF s'(1)] by blast
    have "k = so_gvk s'" using s'(2) k key unfolding found_alone_def same_subject_def by (metis option.distinct(1))
    then have "t = s'" using s'(2) k(2) key by (simp add: found_alone_def found_first_def present_def same_subject_def)
    then show "same_subject s t" using key by simp
  qed
  with Cons show ?case by (simp add: p)
qed simp

text \<open>A snapshot whose passes were interrupted waits as the original did.\<close>

lemma recovered_anchor:
  assumes "recoverable os b s w" and "status_of os s s'"
  shows "\<exists>owner. anchor os b s' w owner"
proof -
  have same: "IsRootSnapshot s' = IsRootSnapshot s" "SnapshotParentOwnerRef s' = SnapshotParentOwnerRef s" "so_namespace s' = so_namespace s"
    "keeper_name os s' = keeper_name os s" "SnapshotSubjectRefFromObject (os_env os) s' = SnapshotSubjectRefFromObject (os_env os) s"
    using assms(2)
    by (auto simp: status_of_def IsRootSnapshot_def SnapshotParentOwnerRef_def keeper_name_def SnapshotSubjectRefFromObject_def)
  have res: "resolves os s' w p = resolves os s w p" for p unfolding resolves_def same(2,3) ..
  show ?thesis
  proof (cases "IsRootSnapshot s")
    case True
    then have "keeper_slot_ok os s' w" using assms(1) same(4,5) by (simp add: recoverable_def keeper_slot_ok_def)
    then show ?thesis using True same(1) by (auto simp: anchor_def)
  next
    case False
    with assms(1) obtain p c where "resolves os s w p" "content_of w p c" unfolding recoverable_def by auto
    then show ?thesis using False same(1) unfolding anchor_def res by auto
  qed
qed

text \<open>
  C25: A bind survives interruption: after any number of passes that may each fail at any call, the snapshot is
  bound to its own content or one undisturbed pass binds it, adopting the content that an interrupted pass
  left behind.
\<close>

theorem interrupted_bind_recovers:
  assumes "calm os" and "\<forall>os'\<in>set oss. same_naming os os'" and "capturable key b s" and "found_alone b s w"
    and "content_gvk b (so_gvk s) = Inr k" and "slot_ok os s k w" and "keyed w" and "anchor os b s w owner"
    and "w1 = retried key b (so_namespace s) (so_name s) oss w"
    and "w2 = snd (Reconcile_snapshot os key b (so_namespace s) (so_name s) w1)"
  shows "\<exists>s1 s2. cl_snapshots w1 (so_gvk s) (so_namespace s) (so_name s) = Some s1 \<and>
     cl_snapshots w2 (so_gvk s) (so_namespace s) (so_name s) = Some s2 \<and>
     (bound_name s1 = content_name_of os s \<or> bound_name s2 = content_name_of os s \<and> cl_contents w2 k (content_name_of os s) \<noteq> None)"
proof -
  have cap: "g_kind (so_gvk s) \<noteq> ''''" "bound_name s = ''''" using assms(3) by (simp_all add: capturable_def)
  have "status_of os s s" unfolding status_of_def
    by (rule exI [of _ "so_conditions s"], rule exI [of _ "so_excluded s"], rule exI [of _ "bs_data s"], rule exI [of _ "so_bound s"]) simp
  moreover have "IsRootSnapshot s \<or> (\<exists>p c. resolves os s w p \<and> content_of w p c \<and> \<not> same_key p s)"
  proof (cases "IsRootSnapshot s")
    case False
    with assms(8) obtain p c where p: "resolves os s w p" "content_of w p c" unfolding anchor_def by auto
    have "present w p" using p(1) assms(7) by (auto simp: resolves_def keyed_def present_def)
    moreover have "present w s" using assms(4) by (simp add: found_alone_def found_first_def)
    ultimately have "same_key p s \<Longrightarrow> p = s" by (rule distinct_keys_of_present)
    moreover have "p \<noteq> s" using p(2) cap(2) by (auto simp: content_of_def bound_name_def)
    ultimately show ?thesis using p by blast
  qed simp
  ultimately have "recoverable os b s w"
    using assms(4-6,8) cap(1) unfolding recoverable_def anchor_def by (auto split: if_splits)
  from retried_recoverable [OF assms(2) this assms(7)] have rec: "recoverable os b s w1" "keyed w1" using assms(9) by simp_all
  then obtain s1 where s1: "status_of os s s1" "found_alone b s1 w1" unfolding recoverable_def by blast
  note key = status_of_subject [OF s1(1)]
  have st1: "cl_snapshots w1 (so_gvk s) (so_namespace s) (so_name s) = Some s1"
    using s1(2) key by (simp add: found_alone_def found_first_def present_def same_subject_def)
  have nm: "content_name_of os s1 = content_name_of os s" using key by (simp add: same_subject_def StableContentName_def)
  have rec2: "recoverable os b s w2"
    using retried_recoverable [of "[os]" os b s w1 key] rec assms(10) by (simp add: same_naming_def)
  then obtain s2 where s2: "status_of os s s2" "found_alone b s2 w2" unfolding recoverable_def by blast
  have st2: "cl_snapshots w2 (so_gvk s) (so_namespace s) (so_name s) = Some s2"
    using s2(2) status_of_subject [OF s2(1)] by (simp add: found_alone_def found_first_def present_def same_subject_def)
  show ?thesis
  proof (cases "bound_name s1 = content_name_of os s")
    case False
    then have b1: "so_bound s1 = so_bound s" using s1(1) by (auto simp: status_of_def bound_name_def)
    have "capturable key b s1"
      using assms(3) s1(1) b1 by (auto simp: status_of_def capturable_def domainHasClaimed_def bound_name_def)
    moreover obtain owner' where "anchor os b s1 w1 owner'" using recovered_anchor [OF rec(1) s1(1)] ..
    moreover have "slot_ok os s1 k w1"
      using rec(1) assms(5) nm same_subject_matches [OF conjunct1 [OF key], of "os_env os"] by (auto simp: recoverable_def slot_ok_def)
    ultimately obtain w2' where w2': "Reconcile_snapshot os key b (so_namespace s1) (so_name s1) w1 = (PassRequeue, w2')"
      "cl_snapshots w2' = cl_snapshots (store_snapshot (bound_to_own os s1) w1)" "cl_contents w2' = cl_contents (with_content os s1 k owner' w1)"
      using binds_in_one_pass [OF assms(1), of key b s1 w1 k owner'] s1(2) assms(5) key
      by (auto simp: found_alone_def same_subject_def)
    have w2: "w2 = w2'" using w2'(1) assms(10) key by (simp add: same_subject_def)
    have "s2 = bound_to_own os s1" using st2 w2'(2) key unfolding w2 by (simp add: store_snapshot_def same_subject_def)
    moreover have "cl_contents w2 k (content_name_of os s) \<noteq> None"
      unfolding w2 w2'(3) using nm by (simp add: with_content_def contents_store_content created_content_def new_content_def)
    ultimately show ?thesis using st1 st2 nm by (simp add: bound_name_def)
  qed (use st1 st2 in simp)
qed

definition demo_interrupted :: "json cluster" where
  "demo_interrupted = retried g_kind demo_control (so_namespace demo_top) (so_name demo_top)
     [demo_outside (\<lambda>_. Some (ApiErr ''down'')), demo_outside (\<lambda>n. if n = 4 then Some (ApiErr ''down'') else None)] demo_cluster"

lemma interrupted_bind_recovers_witness:
  "\<exists>s1 s2. cl_snapshots demo_interrupted (so_gvk demo_top) (so_namespace demo_top) (so_name demo_top) = Some s1 \<and>
     cl_snapshots (snd (Reconcile_snapshot calm_outside g_kind demo_control (so_namespace demo_top) (so_name demo_top) demo_interrupted))
       (so_gvk demo_top) (so_namespace demo_top) (so_name demo_top) = Some s2 \<and>
     (bound_name s1 = ''nss-content-u1'' \<or> bound_name s2 = ''nss-content-u1'')"
proof -
  let ?oss = "[demo_outside (\<lambda>_. Some (ApiErr ''down'')), demo_outside (\<lambda>n. if n = 4 then Some (ApiErr ''down'') else None)]"
  have n: "\<forall>os'\<in>set ?oss. same_naming calm_outside os'" by (simp add: same_naming_def demo_outside_def)
  have alone: "found_alone demo_control demo_top demo_cluster"
    using demo_first(1) unfolding found_alone_def
    by (simp add: demo_control_def demo_kinds_def demo_snapshots store_snapshot_def storage_kinds)
  have slot: "slot_ok calm_outside demo_top storageContentGVK demo_cluster" by (simp add: slot_ok_def demo_empty)
  have "\<exists>owner. anchor calm_outside demo_control demo_top demo_cluster owner"
    using demo_roots(1) by (simp add: anchor_def keeper_slot_ok_def demo_empty)
  then obtain owner where a: "anchor calm_outside demo_control demo_top demo_cluster owner" ..
  from interrupted_bind_recovers [OF demo_calm n demo_capturable(1) alone demo_content_gvk(1) slot demo_keyed(2) a demo_interrupted_def refl]
  show ?thesis unfolding demo_stable_names by (elim exE conjE) (intro exI conjI, assumption, assumption, blast)
qed

section \<open>Owners and contents that are already there\<close>

lemma calm_import_owner:
  assumes "calm os" and "resolves os s w p" and "content_of w p c"
  shows "import_owner os b s w = (Inl (content_owner_reference c, False), tick (tick w))"
  by (simp add: import_owner_def calm_parent [OF assms])

lemma tick_calls: "\<exists>cw. tick w = w\<lparr>cl_capture := cw\<rparr>"
  unfolding tick_def by blast

text \<open>
  C27: A content with the name of a snapshot but another back reference is refused by a capture, as the
  back reference is there to ensure: the snapshot stays unbound. An import of the same snapshot accepts it:
  \<open>AlreadyExists\<close> counts as success and the snapshot is bound to the foreign content.
\<close>

theorem foreign_content_bound_by_import:
  assumes "calm os" and "found_first b s w" and "\<not> so_deleting s" and "isDomainCaptureKind key b (so_gvk s) \<longrightarrow> domainHasClaimed s"
    and "g_kind (so_gvk s) \<noteq> ''''" and "so_bound s \<noteq> NBadType" and "bound_name s = ''''"
    and "resolves os s w p" and "content_of w p pc" and "content_gvk b (so_gvk s) = Inr storageContentGVK"
    and "cl_contents w storageContentGVK (content_name_of os s) = Some c" and "\<not> contentSnapshotRefMatchesSnapshot (os_env os) c (so_gvk s) s"
  shows "\<exists>r w'. Reconcile_snapshot os key b (so_namespace s) (so_name s) w = (r, w') \<and> cl_contents w' = cl_contents w \<and>
     (if so_import_mode s then r = PassRequeue \<and> cl_snapshots w' = cl_snapshots (store_snapshot (bound_to_own os s) w)
      else r = PassErr (BindErr ''refusing to adopt'') \<and> cl_snapshots w' = cl_snapshots w)"
proof -
  from calm_lookup [OF assms(1,2)] obtain cw where
    lk: "lookup_kinds os (bn_kinds b) (so_namespace s) (so_name s) w = (Inr (Some s), w\<lparr>cl_capture := cw\<rparr>)" by blast
  let ?w = "w\<lparr>cl_capture := cw\<rparr>"
  have par: "resolves os s ?w p" "content_of ?w p pc" using assms(8,9) by (simp_all add: resolves_def content_of_def)
  have root: "\<not> IsRootSnapshot s" using assms(8) by (auto simp: root_iff_no_parent resolves_def)
  have P: "Reconcile_snapshot os key b (so_namespace s) (so_name s) w = reconcile_found os key b s ?w"
    by (simp add: Reconcile_snapshot_def lk)
  show ?thesis
  proof (cases "so_import_mode s")
    case True
    let ?v = "tick (tick (tick ?w))"
    have "present ?v s" using assms(2) by (simp add: found_first_def present_def)
    from calm_bind [OF assms(1) this assms(6,7)] obtain cw2 where
      pa: "PatchUnstructuredBoundContentName os (so_namespace s) (so_name s) (so_gvk s) (content_name_of os s) ?v =
        (None, store_snapshot (bound_to_own os s) (?v\<lparr>cl_capture := cw2\<rparr>))" by blast
    have "reconcile_found os key b s ?w = (PassRequeue, store_snapshot (bound_to_own os s) (?v\<lparr>cl_capture := cw2\<rparr>))"
      using True assms(3,7,11) pa
      by (simp add: reconcile_found_def reconcileGenericImport_def calm_import_owner [OF assms(1) par] import_create_def
          calm_create_content [OF assms(1)] new_content_def)
    then show ?thesis using True P by (simp add: store_snapshot_def)
  next
    case False
    have "reconcile_found os key b s ?w = (PassErr (BindErr ''refusing to adopt''), tick (tick (tick (tick ?w))))"
      using False root assms(3,4,5,7,10,11,12)
      by (simp add: reconcile_found_def reconcile_capture_def capture_owner_def calm_parent [OF assms(1) par] align_owner_def
          create_and_bind_def create_or_adopt_def calm_calls [OF assms(1)] new_content_def)
    then show ?thesis using False P by simp
  qed
qed

definition demo_import :: bound_snapshot where
  "demo_import = demo_disk\<lparr>so_import_mode := True\<rparr>"

definition demo_bound_top :: bound_snapshot where
  "demo_bound_top = demo_top\<lparr>so_bound := NVal ''pc''\<rparr>"

definition demo_foreign :: "json cluster" where
  "demo_foreign = store_content storageContentGVK (new_content ''nss-content-u2'' ''Retain'' (zero_subject_ref\<lparr>sr_name := ''other''\<rparr>) demo_owner)
     (store_content storageContentGVK (new_content ''pc'' ''Retain'' (zero_subject_ref\<lparr>sr_name := ''top''\<rparr>) demo_owner)
       (store_snapshot demo_import (store_snapshot demo_bound_top no_snapshots)))"

lemmas demo_import_defs = demo_import_def demo_bound_top_def demo_top_def demo_disk_def plain_snapshot_def

lemma new_content_name: "ct_name (new_content n policy ref owner) = n"
  by (simp add: new_content_def)

lemma demo_foreign_contents:
  "cl_contents demo_foreign storageContentGVK n = (if n = ''nss-content-u2''
     then Some (new_content ''nss-content-u2'' ''Retain'' (zero_subject_ref\<lparr>sr_name := ''other''\<rparr>) demo_owner)
     else if n = ''pc'' then Some (new_content ''pc'' ''Retain'' (zero_subject_ref\<lparr>sr_name := ''top''\<rparr>) demo_owner) else None)"
  unfolding demo_foreign_def contents_store_content new_content_name contents_simps by (simp add: no_snapshots_def)

lemma demo_import_first: "found_first demo_control demo_import demo_foreign"
  unfolding found_first_def
  by (intro conjI exI [of _ "[kind_of_storage ''Snapshot'']"] exI [of _ "[]"])
    (simp_all add: present_def demo_foreign_def no_snapshots_def demo_import_defs store_snapshot_def demo_control_def demo_kinds_def storage_kinds)

lemma demo_import_parent: "resolves calm_outside demo_import demo_foreign demo_bound_top"
  unfolding resolves_def
  by (intro exI [of _ "SnapshotOwnerReference storageGroupVersion ''Snapshot'' ''top'' ''u1''"])
    (simp add: SnapshotParentOwnerRef_def demo_foreign_def no_snapshots_def demo_import_defs SnapshotOwnerReference_def
      snapshot_owner_def has_suffix_def parent_kind_def store_snapshot_def storage_kinds)

lemma foreign_content_bound_by_import_witness:
  "\<exists>w'. Reconcile_snapshot calm_outside g_kind demo_control ''ns'' ''disk'' demo_foreign = (PassRequeue, w') \<and>
     cl_contents w' = cl_contents demo_foreign \<and> cl_snapshots w' = cl_snapshots (store_snapshot (bound_to_own calm_outside demo_import) demo_foreign)"
proof -
  have nm: "content_name_of calm_outside demo_import = ''nss-content-u2''"
    by (simp add: demo_outside_def demo_codec_def StableContentName_def ContentName_def h16_def hashHex_def demo_import_defs)
  let ?c = "new_content ''nss-content-u2'' ''Retain'' (zero_subject_ref\<lparr>sr_name := ''other''\<rparr>) demo_owner"
  have c: "cl_contents demo_foreign storageContentGVK (content_name_of calm_outside demo_import) = Some ?c"
    unfolding nm demo_foreign_contents by simp
  have pc: "\<exists>pc. content_of demo_foreign demo_bound_top pc"
    unfolding content_of_def demo_foreign_contents by (simp add: demo_bound_top_def)
  then obtain pc where pc: "content_of demo_foreign demo_bound_top pc" ..
  have nomatch: "\<not> contentSnapshotRefMatchesSnapshot (os_env calm_outside) ?c (so_gvk demo_import) demo_import"
    by (simp add: contentSnapshotRefMatchesSnapshot_def new_content_def zero_subject_ref_def demo_import_defs)
  have d: "isDomainCaptureKind g_kind demo_control (so_gvk demo_import) \<longrightarrow> domainHasClaimed demo_import"
    by (simp add: isDomainCaptureKind_def demo_control_def)
  have f: "\<not> so_deleting demo_import" "g_kind (so_gvk demo_import) \<noteq> ''''" "so_bound demo_import \<noteq> NBadType" "bound_name demo_import = ''''"
    "so_namespace demo_import = ''ns''" "so_name demo_import = ''disk''" "so_import_mode demo_import"
    by (simp_all add: demo_import_defs bound_name_def)
  have g: "content_gvk demo_control (so_gvk demo_import) = Inr storageContentGVK"
    using demo_content_gvk(2) by (simp add: demo_import_def)
  from foreign_content_bound_by_import [OF demo_calm demo_import_first f(1) d f(2-4) demo_import_parent pc g c nomatch]
  show ?thesis unfolding f(5,6) using f(7) by auto
qed

lemma lifecycle_conflict:
  "r \<in> set refs \<Longrightarrow> isLifecycleOwnerRef r \<Longrightarrow> \<not> ownerRefSameIdentity r d \<Longrightarrow> \<exists>x. lifecycleOwnerRefs refs d = Inl x"
proof -
  assume "r \<in> set refs" "isLifecycleOwnerRef r" "\<not> ownerRefSameIdentity r d"
  then have "\<exists>r\<in>set refs. isLifecycleOwnerRef r \<and> \<not> ownerRefSameIdentity r d" by blast
  from lifecycle_loop_conflict [OF this, of "[]" False] show ?thesis by (auto simp: lifecycleOwnerRefs_def)
qed

text \<open>A bound import whose content has another lifecycle owner than its parent's content.\<close>

definition misowned :: "('t, 'g, 'd) outside \<Rightarrow> controller \<Rightarrow> bound_snapshot \<Rightarrow> 'd cluster \<Rightarrow> bool" where
  "misowned os b s w = (found_first b s w \<and> (\<exists>p pc c. resolves os s w p \<and> content_of w p pc \<and> content_of w s c \<and>
     (\<exists>r\<in>set (ct_owner_refs c). isLifecycleOwnerRef r \<and> \<not> ownerRefSameIdentity r (content_owner_reference pc))))"

lemma misowned_cong:
  assumes "cl_snapshots w' = cl_snapshots w" and "cl_contents w' = cl_contents w"
  shows "misowned os b s w' = misowned os b s w"
  by (simp add: misowned_def found_first_def present_def resolves_def content_of_def assms)

lemma misowned_pass:
  assumes "calm os" and "misowned os b s w" and "\<not> so_deleting s" and "so_import_mode s"
  shows "\<exists>x w'. Reconcile_snapshot os key b (so_namespace s) (so_name s) w = (PassErr (RefErr x), w') \<and>
     cl_snapshots w' = cl_snapshots w \<and> cl_contents w' = cl_contents w"
proof -
  from assms(2) obtain p pc c r where m: "found_first b s w" "resolves os s w p" "content_of w p pc" "content_of w s c"
    "r \<in> set (ct_owner_refs c)" "isLifecycleOwnerRef r" "\<not> ownerRefSameIdentity r (content_owner_reference pc)"
    unfolding misowned_def by blast
  from m(4) obtain n where n: "so_bound s = NVal n" "n \<noteq> ''''" "cl_contents w storageContentGVK n = Some c" unfolding content_of_def by blast
  from calm_lookup [OF assms(1) m(1)] obtain cw where
    lk: "lookup_kinds os (bn_kinds b) (so_namespace s) (so_name s) w = (Inr (Some s), w\<lparr>cl_capture := cw\<rparr>)" by blast
  let ?w = "w\<lparr>cl_capture := cw\<rparr>"
  have par: "resolves os s ?w p" "content_of ?w p pc" using m(2,3) by (simp_all add: resolves_def content_of_def)
  from lifecycle_conflict [OF m(5-7)] obtain x where x: "lifecycleOwnerRefs (ct_owner_refs c) (content_owner_reference pc) = Inl x" ..
  have "reconcile_found os key b s ?w = (PassErr (RefErr (Wrap (ct_name c) x)), tick (tick (tick ?w)))"
    using assms(3,4) n x
    by (simp add: reconcile_found_def reconcileGenericImport_def calm_import_owner [OF assms(1) par] bound_name_def
        calm_read_content [OF assms(1)] EnsureLifecycleOwnerRef_def)
  then show ?thesis by (simp add: Reconcile_snapshot_def lk)
qed

text \<open>An import without parent is anchored to a root keeper.\<close>

lemma calm_import_root:
  assumes "calm os" and "found_first b s w" and "\<not> so_deleting s" and "so_import_mode s" and "so_uid s \<noteq> ''''" and "so_bound s \<noteq> NBadType"
    and "bound_name s = ''''" and "IsRootSnapshot s" and "keeper_slot_ok os s w" and "cl_contents w storageContentGVK (content_name_of os s) = None"
  shows "\<exists>w' owner. Reconcile_snapshot os key b (so_namespace s) (so_name s) w = (PassRequeue, w') \<and>
     cl_snapshots w' = cl_snapshots (store_snapshot (bound_to_own os s) w) \<and>
     cl_contents w' = cl_contents (store_content storageContentGVK (created_content os s ''Delete'' owner) w) \<and>
     or_kind owner = ''ObjectKeeper'' \<and> or_name owner = keeper_name os s"
proof -
  from calm_lookup [OF assms(1,2)] obtain cw where
    lk: "lookup_kinds os (bn_kinds b) (so_namespace s) (so_name s) w = (Inr (Some s), w\<lparr>cl_capture := cw\<rparr>)" by blast
  let ?w = "w\<lparr>cl_capture := cw\<rparr>" let ?o = "RootObjectKeeperOwnerReference (anchoring_keeper os b s ?w)"
  have ks: "keeper_slot_ok os s ?w" using assms(9) by (simp add: keeper_slot_ok_def)
  from calm_keeper [OF assms(1,5) ks, of b] obtain w1 where
    w1: "EnsureRootObjectKeeperWithTTL os b s ?w = (Inl (anchoring_keeper os b s ?w), w1)" "cl_snapshots w1 = cl_snapshots w"
      "cl_contents w1 = cl_contents w" by auto
  have io: "import_owner os b s ?w = (Inl (?o, True), w1)"
    using assms(8) w1(1) by (simp add: import_owner_def ResolveParentSnapshotContentOwnerRef_def root_iff_no_parent)
  let ?v = "store_content storageContentGVK (created_content os s ''Delete'' ?o) (tick w1)"
  have "present ?v s" using assms(2) w1(2) by (simp add: found_first_def present_def)
  from calm_bind [OF assms(1) this assms(6,7)] obtain cw2 where
    pa: "PatchUnstructuredBoundContentName os (so_namespace s) (so_name s) (so_gvk s) (content_name_of os s) ?v =
      (None, store_snapshot (bound_to_own os s) (?v\<lparr>cl_capture := cw2\<rparr>))" by blast
  have "reconcile_found os key b s ?w = (PassRequeue, store_snapshot (bound_to_own os s) (?v\<lparr>cl_capture := cw2\<rparr>))"
    using assms(3,4,7,10) pa w1(3)
    by (simp add: reconcile_found_def reconcileGenericImport_def io import_create_def calm_create_content [OF assms(1)]
        new_content_def created_content_def Let_def)
  moreover have "or_name ?o = keeper_name os s"
    using ks by (auto simp: RootObjectKeeperOwnerReference_def anchoring_keeper_def wanted_keeper_name keeper_slot_ok_def split: option.splits)
  moreover have "or_kind ?o = ''ObjectKeeper''" by (simp add: RootObjectKeeperOwnerReference_def)
  ultimately show ?thesis
    by (intro exI [of _ "store_snapshot (bound_to_own os s) (?v\<lparr>cl_capture := cw2\<rparr>)"] exI [of _ ?o])
      (simp add: Reconcile_snapshot_def lk store_snapshot_def store_content_def w1(2,3))
qed

lemma misowned_forever:
  assumes "calm os" and "misowned os b s w" and "\<not> so_deleting s" and "so_import_mode s"
  shows "cl_snapshots (((\<lambda>v. snd (Reconcile_snapshot os key b (so_namespace s) (so_name s) v)) ^^ m) w) = cl_snapshots w \<and>
     cl_contents (((\<lambda>v. snd (Reconcile_snapshot os key b (so_namespace s) (so_name s) v)) ^^ m) w) = cl_contents w"
proof (induction m)
  case (Suc m)
  let ?v = "((\<lambda>v. snd (Reconcile_snapshot os key b (so_namespace s) (so_name s) v)) ^^ m) w"
  have "misowned os b s ?v" using misowned_cong [of ?v w os b s] Suc assms(2) by simp
  from misowned_pass [OF assms(1) this assms(3,4), of key] Suc show ?case by auto
qed simp

text \<open>
  C28: An import leaf that is reconciled before its parent reference arrives is not left alone as misconfigured:
  it is anchored to a root ObjectKeeper and bound. When the reference arrives, every later pass fails on the
  conflicting lifecycle owner and changes neither the snapshot nor its content, so the leaf never proceeds.
\<close>

theorem late_parent_wedges_import:
  assumes "calm os" and "found_first b s w" and "\<not> so_deleting s" and "so_import_mode s" and "so_uid s \<noteq> ''''" and "so_bound s \<noteq> NBadType"
    and "bound_name s = ''''" and "IsRootSnapshot s" and "keeper_slot_ok os s w" and "cl_contents w storageContentGVK (content_name_of os s) = None"
    and "w1 = snd (Reconcile_snapshot os key b (so_namespace s) (so_name s) w)" and "s1 = (bound_to_own os s)\<lparr>bs_owner_refs := refs\<rparr>"
    and "w2 = store_snapshot s1 w1" and "resolves os s1 w2 p" and "content_of w2 p pc"
  shows "present w1 (bound_to_own os s) \<and>
     (\<exists>c owner. content_of w1 (bound_to_own os s) c \<and> ct_owner_refs c = [owner] \<and> or_kind owner = ''ObjectKeeper'') \<and>
     (\<forall>m. \<exists>x v. Reconcile_snapshot os key b (so_namespace s) (so_name s)
          (((\<lambda>v. snd (Reconcile_snapshot os key b (so_namespace s) (so_name s) v)) ^^ m) w2) = (PassErr (RefErr x), v) \<and>
        cl_snapshots v = cl_snapshots w2 \<and> cl_contents v = cl_contents w2)"
proof -
  from calm_import_root [OF assms(1-10), of key] obtain owner where
    r: "cl_snapshots w1 = cl_snapshots (store_snapshot (bound_to_own os s) w)"
      "cl_contents w1 = cl_contents (store_content storageContentGVK (created_content os s ''Delete'' owner) w)"
      "or_kind owner = ''ObjectKeeper''" using assms(11) by auto
  let ?c = "created_content os s ''Delete'' owner"
  have cn: "ct_name ?c = content_name_of os s" "ct_owner_refs ?c = [owner]" by (simp_all add: created_content_def new_content_def)
  have at: "cl_contents w1 storageContentGVK (content_name_of os s) = Some ?c"
    unfolding r(2) contents_store_content cn(1) by simp
  have p1: "present w1 (bound_to_own os s)" unfolding present_def r(1) by (simp add: store_snapshot_def)
  have ff: "found_first b (bound_to_own os s) w1"
  proof -
    from assms(2) obtain ks ks' where k: "bn_kinds b = ks @ so_gvk s # ks'" "present w s"
      "\<forall>k\<in>set ks. cl_snapshots w k (so_namespace s) (so_name s) = None" unfolding found_first_def by blast
    have ns: "so_gvk s \<notin> set ks" using k(2,3) by (auto simp: present_def)
    have "\<forall>k\<in>set ks. cl_snapshots w1 k (so_namespace s) (so_name s) = None"
      using k(3) ns unfolding r(1) by (auto simp: store_snapshot_def)
    then show ?thesis using p1 k(1) unfolding found_first_def by auto
  qed
  have key: "so_gvk s1 = so_gvk s" "so_namespace s1 = so_namespace s" "so_name s1 = so_name s" by (simp_all add: assms(12))
  have ff1: "found_first b s1 w2"
  proof -
    from ff obtain ks ks' where k: "bn_kinds b = ks @ so_gvk s # ks'"
      "\<forall>k\<in>set ks. cl_snapshots w1 k (so_namespace s) (so_name s) = None" unfolding found_first_def by auto
    have ns: "so_gvk s \<notin> set ks" using k(2) p1 by (auto simp: present_def)
    have "\<forall>k\<in>set ks. cl_snapshots w2 k (so_namespace s) (so_name s) = None"
      using k(2) ns unfolding assms(13) by (auto simp: store_snapshot_def key)
    moreover have "present w2 s1" unfolding assms(13) by (simp add: stored_store_snapshot)
    ultimately show ?thesis using k(1) unfolding found_first_def key by blast
  qed
  have ne: "content_name_of os s \<noteq> ''''" by (rule content_name_nonempty)
  have c1: "content_of w1 (bound_to_own os s) ?c" using at ne by (simp add: content_of_def)
  have c2: "content_of w2 s1 ?c" using at ne by (simp add: content_of_def assms(12,13))
  have life: "isLifecycleOwnerRef owner" using r(3) by (simp add: isLifecycleOwnerRef_def)
  have diff: "\<not> ownerRefSameIdentity owner (content_owner_reference pc)"
    using r(3) by (simp add: ownerRefSameIdentity_def content_owner_reference_def SnapshotContentOwnerReference_def)
  have mis: "misowned os b s1 w2"
    using ff1 assms(14,15) c2 cn(2) life diff unfolding misowned_def by (metis list.set_intros(1))
  have mode: "\<not> so_deleting s1" "so_import_mode s1" using assms(3,4,12) by simp_all
  have "\<exists>x v. Reconcile_snapshot os key b (so_namespace s) (so_name s)
          (((\<lambda>v. snd (Reconcile_snapshot os key b (so_namespace s) (so_name s) v)) ^^ m) w2) = (PassErr (RefErr x), v) \<and>
        cl_snapshots v = cl_snapshots w2 \<and> cl_contents v = cl_contents w2" for m
  proof -
    let ?v = "((\<lambda>v. snd (Reconcile_snapshot os key b (so_namespace s) (so_name s) v)) ^^ m) w2"
    note same = misowned_forever [OF assms(1) mis mode, where key = key and m = m, unfolded key]
    have "misowned os b s1 ?v" using misowned_cong [of ?v w2 os b s1] same mis by simp
    from misowned_pass [OF assms(1) this mode, where key = key, unfolded key] same show ?thesis by auto
  qed
  then show ?thesis using p1 c1 cn(2) r(3) by blast
qed

definition demo_orphan :: bound_snapshot where
  "demo_orphan = demo_import\<lparr>bs_owner_refs := []\<rparr>"

definition demo_late :: "json cluster" where
  "demo_late = store_content storageContentGVK (new_content ''pc'' ''Retain'' (zero_subject_ref\<lparr>sr_name := ''top''\<rparr>) demo_owner)
     (store_snapshot demo_orphan (store_snapshot demo_bound_top no_snapshots))"

lemma late_parent_wedges_import_witness:
  "\<exists>w1 s1 x v. Reconcile_snapshot calm_outside g_kind demo_control ''ns'' ''disk'' (store_snapshot s1 w1) = (PassErr (RefErr x), v) \<and>
     present w1 (bound_to_own calm_outside demo_orphan) \<and> bound_name s1 = ''nss-content-u2''"
proof -
  let ?w1 = "snd (Reconcile_snapshot calm_outside g_kind demo_control (so_namespace demo_orphan) (so_name demo_orphan) demo_late)"
  let ?refs = "[SnapshotOwnerReference storageGroupVersion ''Snapshot'' ''top'' ''u1'']"
  let ?s1 = "(bound_to_own calm_outside demo_orphan)\<lparr>bs_owner_refs := ?refs\<rparr>"
  let ?w2 = "store_snapshot ?s1 ?w1"
  note defs = demo_orphan_def demo_import_defs
  have nm: "content_name_of calm_outside demo_orphan = ''nss-content-u2''"
    by (simp add: demo_outside_def demo_codec_def StableContentName_def ContentName_def h16_def hashHex_def defs)
  have f: "\<not> so_deleting demo_orphan" "so_import_mode demo_orphan" "so_uid demo_orphan \<noteq> ''''" "so_bound demo_orphan \<noteq> NBadType"
    "bound_name demo_orphan = ''''" "IsRootSnapshot demo_orphan" "so_namespace demo_orphan = ''ns''" "so_name demo_orphan = ''disk''"
    by (simp_all add: defs bound_name_def IsRootSnapshot_def)
  have first: "found_first demo_control demo_orphan demo_late"
    unfolding found_first_def
    by (intro conjI exI [of _ "[kind_of_storage ''Snapshot'']"] exI [of _ "[]"])
      (simp_all add: present_def demo_late_def no_snapshots_def defs store_snapshot_def demo_control_def demo_kinds_def storage_kinds)
  have ks: "keeper_slot_ok calm_outside demo_orphan demo_late" by (simp add: keeper_slot_ok_def demo_late_def no_snapshots_def)
  have free: "cl_contents demo_late storageContentGVK (content_name_of calm_outside demo_orphan) = None"
    unfolding nm demo_late_def contents_store_content new_content_name contents_simps by (simp add: no_snapshots_def)
  from calm_import_root [OF demo_calm first f(1-6) ks free, of g_kind] obtain owner where
    r: "cl_snapshots ?w1 = cl_snapshots (store_snapshot (bound_to_own calm_outside demo_orphan) demo_late)"
      "cl_contents ?w1 = cl_contents (store_content storageContentGVK (created_content calm_outside demo_orphan ''Delete'' owner) demo_late)"
    by (elim exE conjE) simp
  have "cl_snapshots ?w1 (kind_of_storage ''Snapshot'') ''ns'' ''top'' = Some demo_bound_top"
    unfolding r(1) by (simp add: store_snapshot_def demo_late_def no_snapshots_def defs storage_kinds)
  moreover have "so_gvk ?s1 \<noteq> kind_of_storage ''Snapshot''" by (simp add: defs storage_kinds)
  ultimately have top: "cl_snapshots ?w2 (kind_of_storage ''Snapshot'') ''ns'' ''top'' = Some demo_bound_top"
    by (simp add: store_snapshot_def)
  have par: "resolves calm_outside ?s1 ?w2 demo_bound_top"
    unfolding resolves_def
  proof (intro exI conjI)
    show "SnapshotParentOwnerRef ?s1 = Some (SnapshotOwnerReference storageGroupVersion ''Snapshot'' ''top'' ''u1'')"
      by (simp add: SnapshotParentOwnerRef_def SnapshotOwnerReference_def snapshot_owner_def has_suffix_def)
    show "cl_snapshots ?w2 (parent_kind calm_outside (SnapshotOwnerReference storageGroupVersion ''Snapshot'' ''top'' ''u1''))
        (so_namespace ?s1) (or_name (SnapshotOwnerReference storageGroupVersion ''Snapshot'' ''top'' ''u1'')) = Some demo_bound_top"
      using top f(7) by (simp add: parent_kind_def SnapshotOwnerReference_def)
  qed (simp_all add: SnapshotOwnerReference_def demo_bound_top_def demo_top_def plain_snapshot_def)
  have late: "cl_contents demo_late storageContentGVK ''pc'' =
      Some (new_content ''pc'' ''Retain'' (zero_subject_ref\<lparr>sr_name := ''top''\<rparr>) demo_owner)"
    unfolding demo_late_def contents_store_content new_content_name by simp
  have cn: "ct_name (created_content calm_outside demo_orphan ''Delete'' owner) = ''nss-content-u2''"
    unfolding nm [symmetric] by (simp add: created_content_def new_content_name)
  have "cl_contents ?w2 storageContentGVK ''pc'' = Some (new_content ''pc'' ''Retain'' (zero_subject_ref\<lparr>sr_name := ''top''\<rparr>) demo_owner)"
    unfolding contents_simps r(2) contents_store_content cn using late by simp
  then have "\<exists>pc. content_of ?w2 demo_bound_top pc" by (simp add: content_of_def demo_bound_top_def)
  then obtain pc where pc: "content_of ?w2 demo_bound_top pc" ..
  from late_parent_wedges_import [OF demo_calm first f(1-6) ks free refl refl refl par pc, THEN conjunct2, THEN conjunct2, THEN spec, of 0]
    late_parent_wedges_import [OF demo_calm first f(1-6) ks free refl refl refl par pc, THEN conjunct1]
  obtain x v where "Reconcile_snapshot calm_outside g_kind demo_control ''ns'' ''disk'' ?w2 = (PassErr (RefErr x), v)"
    "present ?w1 (bound_to_own calm_outside demo_orphan)" unfolding f(7,8) by auto
  then show ?thesis
    by (intro exI [of _ ?w1] exI [of _ ?s1] exI [of _ x] exI [of _ v]) (simp add: bound_name_def nm)
qed

end
