(* ===== verification/Capture_Protocol.thy ===== *)
theory Capture_Protocol
  imports Capture_Release Content_Children
begin

text \<open>
  The shared state of the capture of a snapshot and the calls that work on it. Two controllers take part: the
  domain controller, through the SDK (\<open>Domain_Capture\<close>), and the SnapshotContent controller (\<open>Capture_Legs\<close>).
  They run concurrently, so their code is modelled as a \<open>prog\<close>: a tree of API calls, whose next call depends
  on the answers so far. A \<open>store\<close> is what the API server holds; a status patch carries the version it was
  computed from and is refused with a conflict when the object has changed since.

  \<open>advance\<close> performs one call of one program. A live read answers from the server; a read through the cache
  answers from any state the server has been in. Any read may fail. A write may be refused, or be performed
  while its answer is lost. \<open>Observe\<close> stands for the reads of contents, checkpoints and artifacts by the
  decisions of other theories, whose answers are an \<open>env\<close>. \<open>run\<close> interleaves any number of programs with the
  other writers of the same objects.
\<close>

section \<open>Objects\<close>

record domain_capture =
  ManifestCaptureRequestName_of :: string
  VolumeCaptureRequestName_of :: string
  ExcludedRefs_of :: "excluded_ref list"
  Phase_of :: string
  Reason_of :: string
  Message_of :: string

text \<open>
  A snapshot: \<open>cn_domain\<close> is \<open>status.captureState.domainSpecificController\<close>, \<open>cn_latches\<close> the booleans of
  \<open>status.captureState.commonController\<close>, and \<open>cn_children\<close> is \<open>status.childrenSnapshotRefs\<close>.
\<close>

record capture_node =
  cn_gvk :: gvk
  cn_namespace :: string
  cn_name :: string
  cn_uid :: string
  cn_owner_refs :: "owner_ref list"
  cn_protected :: bool
  cn_version :: nat
  cn_bound :: string
  cn_conditions :: "condition list"
  cn_source :: "subject_ref option"
  cn_children :: "snapshot_child_ref option list nested"
  cn_latches :: "string \<Rightarrow> bool option"
  cn_domain :: domain_capture

record manifest_request =
  mq_owner_refs :: "owner_ref list"
  mq_targets :: "manifest_target list"

record volume_request =
  vq_namespace :: string
  vq_owner_refs :: "owner_ref list"
  vq_target :: "capture_target option nested"

type_synonym snap_key = "gvk \<times> string \<times> string"

definition snap_key :: "capture_node \<Rightarrow> snap_key" where
  "snap_key n = (cn_gvk n, cn_namespace n, cn_name n)"

section \<open>Programs\<close>

datatype api_write =
    PatchStatus capture_node
  | PatchOwners capture_node "owner_ref list"
  | CreateNode capture_node
  | CreateRequest string string manifest_request
  | DeleteRequest string string
  | CreateVolume string string volume_request
  | PatchVolumeOwners string string "owner_ref list"
  | DeleteVolume string string

datatype 'a prog =
    Return 'a
  | Node bool snap_key "capture_node get_res \<Rightarrow> 'a prog"
  | Request string string "manifest_request get_res \<Rightarrow> 'a prog"
  | Volume string string "volume_request get_res \<Rightarrow> 'a prog"
  | Observe "env \<Rightarrow> 'a prog"
  | Write api_write "api_err option \<Rightarrow> 'a prog"

primrec and_then :: "'a prog \<Rightarrow> ('a \<Rightarrow> 'b prog) \<Rightarrow> 'b prog" where
  "and_then (Return x) g = g x"
| "and_then (Node live k f) g = Node live k (\<lambda>r. and_then (f r) g)"
| "and_then (Request ns n f) g = Request ns n (\<lambda>r. and_then (f r) g)"
| "and_then (Volume ns n f) g = Volume ns n (\<lambda>r. and_then (f r) g)"
| "and_then (Observe f) g = Observe (\<lambda>e. and_then (f e) g)"
| "and_then (Write w f) g = Write w (\<lambda>x. and_then (f x) g)"

datatype proto_err =
    ApiFault api_err | ReadFault string | FieldFault err | SchemeFault string
  | ChildrenSetFrozen | EmptyManifest | ManifestTargetsDrift | OwnedByAnother string | VolumeTargetDiffers | CacheBehind

text \<open>The early return on an error.\<close>

definition if_ok :: "(proto_err + 'a) prog \<Rightarrow> ('a \<Rightarrow> (proto_err + 'b) prog) \<Rightarrow> (proto_err + 'b) prog" where
  "if_ok p g = and_then p (\<lambda>r. case r of Inl x \<Rightarrow> Return (Inl x) | Inr a \<Rightarrow> g a)"

section \<open>The server\<close>

record store =
  st_nodes :: "snap_key \<Rightarrow> capture_node option"
  st_requests :: "string \<Rightarrow> string \<Rightarrow> manifest_request option"
  st_volumes :: "string \<Rightarrow> string \<Rightarrow> volume_request option"
  st_uid :: "snap_key \<Rightarrow> string"

abbreviation conflict :: api_err where
  "conflict \<equiv> ApiErr ''Conflict''"

definition blank_domain :: domain_capture where
  "blank_domain = \<lparr>ManifestCaptureRequestName_of = '''', VolumeCaptureRequestName_of = '''', ExcludedRefs_of = [], Phase_of = '''',
     Reason_of = '''', Message_of = ''''\<rparr>"

definition put_node :: "capture_node \<Rightarrow> store \<Rightarrow> store" where
  "put_node n s = s\<lparr>st_nodes := (st_nodes s)(snap_key n \<mapsto> n)\<rparr>"

definition put_request :: "string \<Rightarrow> string \<Rightarrow> manifest_request option \<Rightarrow> store \<Rightarrow> store" where
  "put_request ns n q s = s\<lparr>st_requests := (st_requests s)(ns := (st_requests s ns)(n := q))\<rparr>"

definition put_volume :: "string \<Rightarrow> string \<Rightarrow> volume_request option \<Rightarrow> store \<Rightarrow> store" where
  "put_volume ns n q s = s\<lparr>st_volumes := (st_volumes s)(ns := (st_volumes s ns)(n := q))\<rparr>"

text \<open>A status patch replaces the status of the stored object; a create drops the status and assigns uid and version.\<close>

definition patched :: "capture_node \<Rightarrow> capture_node \<Rightarrow> capture_node" where
  "patched m n = n\<lparr>cn_version := Suc (cn_version n), cn_bound := cn_bound m, cn_conditions := cn_conditions m,
     cn_source := cn_source m, cn_children := cn_children m, cn_latches := cn_latches m, cn_domain := cn_domain m\<rparr>"

definition created_node :: "store \<Rightarrow> capture_node \<Rightarrow> capture_node" where
  "created_node s n = n\<lparr>cn_uid := st_uid s (snap_key n), cn_version := 1, cn_bound := '''', cn_conditions := [],
     cn_source := None, cn_children := NAbsent, cn_latches := (\<lambda>_. None), cn_domain := blank_domain\<rparr>"

fun perform :: "api_write \<Rightarrow> store \<Rightarrow> api_err option \<times> store" where
  "perform (PatchStatus m) s =
     (case st_nodes s (snap_key m) of
        None \<Rightarrow> (Some ErrNotFound, s)
      | Some n \<Rightarrow> if cn_version n \<noteq> cn_version m then (Some conflict, s) else (None, put_node (patched m n) s))"
| "perform (PatchOwners m refs) s =
     (case st_nodes s (snap_key m) of
        None \<Rightarrow> (Some ErrNotFound, s)
      | Some n \<Rightarrow> (None, put_node (n\<lparr>cn_owner_refs := refs, cn_version := Suc (cn_version n)\<rparr>) s))"
| "perform (CreateNode m) s =
     (if st_nodes s (snap_key m) \<noteq> None then (Some AlreadyExists, s) else (None, put_node (created_node s m) s))"
| "perform (CreateRequest ns n q) s =
     (if st_requests s ns n \<noteq> None then (Some AlreadyExists, s) else (None, put_request ns n (Some q) s))"
| "perform (DeleteRequest ns n) s =
     (if st_requests s ns n = None then (Some ErrNotFound, s) else (None, put_request ns n None s))"
| "perform (CreateVolume ns n q) s =
     (if st_volumes s ns n \<noteq> None then (Some AlreadyExists, s) else (None, put_volume ns n (Some q) s))"
| "perform (PatchVolumeOwners ns n refs) s =
     (case st_volumes s ns n of
        None \<Rightarrow> (Some ErrNotFound, s)
      | Some q \<Rightarrow> (None, put_volume ns n (Some (q\<lparr>vq_owner_refs := refs\<rparr>)) s))"
| "perform (DeleteVolume ns n) s =
     (if st_volumes s ns n = None then (Some ErrNotFound, s) else (None, put_volume ns n None s))"

definition found :: "'a option \<Rightarrow> 'a get_res" where
  "found r = (case r of None \<Rightarrow> NotFound | Some x \<Rightarrow> Found x)"

section \<open>Interleaving\<close>

text \<open>An error that says nothing about the object.\<close>

definition outage :: "api_err \<Rightarrow> bool" where
  "outage x = (\<exists>m. x = ApiErr m \<and> m \<noteq> ''Conflict'')"

text \<open>The states of the server, the current one first.\<close>

type_synonym history = "store list"

inductive advance :: "env set \<Rightarrow> 'a prog \<times> history \<Rightarrow> 'a prog \<times> history \<Rightarrow> bool" for E where
  live: "advance E (Node True k f, s # H) (f (found (st_nodes s k)), s # H)"
| cached: "s \<in> set H \<Longrightarrow> advance E (Node False k f, H) (f (found (st_nodes s k)), H)"
| node_fails: "advance E (Node live k f, H) (f (GetErr x), H)"
| request: "s \<in> set H \<Longrightarrow> advance E (Request ns n f, H) (f (found (st_requests s ns n)), H)"
| request_fails: "advance E (Request ns n f, H) (f (GetErr x), H)"
| volume: "s \<in> set H \<Longrightarrow> advance E (Volume ns n f, H) (f (found (st_volumes s ns n)), H)"
| volume_fails: "advance E (Volume ns n f, H) (f (GetErr x), H)"
| observe: "e \<in> E \<Longrightarrow> advance E (Observe f, H) (f e, H)"
| served: "perform w s = (x, s') \<Longrightarrow> advance E (Write w f, s # H) (f x, s' # s # H)"
| refused: "outage x \<Longrightarrow> advance E (Write w f, H) (f (Some x), H)"
| answer_lost: "perform w s = (None, s') \<Longrightarrow> outage x \<Longrightarrow> advance E (Write w f, s # H) (f (Some x), s' # s # H)"

inductive_cases advance_cases:
  "advance E (Return x, H) c" "advance E (Node live k f, H) c" "advance E (Request ns n f, H) c"
  "advance E (Volume ns n f, H) c" "advance E (Observe f, H) c" "advance E (Write w f, H) c"

text \<open>
  The other writers: the binding controller and the mirrors (content name, conditions, owners), the upload of an
  import is not one of them; a capture request may expire.
\<close>

inductive others :: "store \<Rightarrow> store \<Rightarrow> bool" where
  updated: "st_nodes s (snap_key n) = Some n \<Longrightarrow>
     others s (put_node (n\<lparr>cn_bound := b, cn_conditions := cs, cn_owner_refs := refs, cn_version := Suc (cn_version n)\<rparr>) s)"
| expired: "others s (put_request ns n None s)"
| volume_expired: "others s (put_volume ns n None s)"

inductive run :: "env set \<Rightarrow> (unit prog \<Rightarrow> bool) \<Rightarrow> history \<times> unit prog list \<Rightarrow> history \<times> unit prog list \<Rightarrow> bool"
  for E starts C where
  here: "run E starts C C"
| spawn: "run E starts C (H, ps) \<Longrightarrow> starts p \<Longrightarrow> run E starts C (H, ps @ [p])"
| step: "run E starts C (H, ps) \<Longrightarrow> i < length ps \<Longrightarrow> advance E (ps ! i, H) (p', H') \<Longrightarrow> run E starts C (H', ps[i := p'])"
| other: "run E starts C (s # H, ps) \<Longrightarrow> others s s' \<Longrightarrow> run E starts C (s' # s # H, ps)"

text \<open>A program whose result nobody reads.\<close>

definition quiet :: "'a prog \<Rightarrow> unit prog" where
  "quiet p = and_then p (\<lambda>_. Return ())"

section \<open>A run without interference\<close>

text \<open>Every call of the program alone is answered, caches are current, the other reads answer from \<open>e\<close>.\<close>

primrec alone :: "env \<Rightarrow> 'a prog \<Rightarrow> store \<Rightarrow> 'a \<times> store" where
  "alone e (Return x) s = (x, s)"
| "alone e (Node live k f) s = alone e (f (found (st_nodes s k))) s"
| "alone e (Request ns n f) s = alone e (f (found (st_requests s ns n))) s"
| "alone e (Volume ns n f) s = alone e (f (found (st_volumes s ns n))) s"
| "alone e (Observe f) s = alone e (f e) s"
| "alone e (Write w f) s = alone e (f (fst (perform w s))) (snd (perform w s))"

lemma alone_and_then: "alone e (and_then p g) s = (case alone e p s of (x, s') \<Rightarrow> alone e (g x) s')"
  by (induction p arbitrary: s) auto

lemma and_then_Return [simp]: "and_then p Return = p"
  by (induction p) auto

lemma and_then_assoc: "and_then (and_then p g) h = and_then p (\<lambda>x. and_then (g x) h)"
  by (induction p) auto

lemma put_node_simps [simp]:
  "st_requests (put_node n s) = st_requests s" "st_volumes (put_node n s) = st_volumes s" "st_uid (put_node n s) = st_uid s"
  "st_nodes (put_node n s) = (st_nodes s)(snap_key n \<mapsto> n)"
  by (simp_all add: put_node_def)

lemma put_request_simps [simp]:
  "st_nodes (put_request ns n q s) = st_nodes s" "st_volumes (put_request ns n q s) = st_volumes s"
  "st_uid (put_request ns n q s) = st_uid s"
  "st_requests (put_request ns n q s) ns' n' = (if ns' = ns \<and> n' = n then q else st_requests s ns' n')"
  by (simp_all add: put_request_def)

lemma put_volume_simps [simp]:
  "st_nodes (put_volume ns n q s) = st_nodes s" "st_requests (put_volume ns n q s) = st_requests s"
  "st_uid (put_volume ns n q s) = st_uid s"
  "st_volumes (put_volume ns n q s) ns' n' = (if ns' = ns \<and> n' = n then q else st_volumes s ns' n')"
  by (simp_all add: put_volume_def)

lemma found_simps [simp]: "found None = NotFound" "found (Some x) = Found x"
  by (simp_all add: found_def)

lemma found_eq [simp]: "found r = Found x \<longleftrightarrow> r = Some x" "found r = NotFound \<longleftrightarrow> r = None" "found r \<noteq> GetErr y"
  by (auto simp: found_def split: option.splits)

end
