(* ===== verification/Domain_Capture.thy ===== *)
theory Domain_Capture
  imports Capture_Protocol Excluded_Refs Names
begin

text \<open>
  The capture side of the SDK that a domain controller drives (\<open>pkg/snapshotsdk\<close>): the children, the volume
  request and the manifest request of a snapshot, and the phase its controller reports. An operation takes the
  snapshot as the controller holds it and returns it as the last read or write left it.
\<close>

section \<open>The adapter\<close>

text \<open>\<open>DomainCaptureState\<close> is what the adapter of the namespace snapshot bridges.\<close>

record domain_state = domain_capture +
  ChildrenSnapshotRefs_of :: "snapshot_child_ref list"

definition GetDomainCaptureState :: "capture_node \<Rightarrow> domain_state" where
  "GetDomainCaptureState t =
     domain_capture.extend (cn_domain t) (domain_state.fields (List.map_filter id (nval [] (cn_children t))))"

definition SetDomainCaptureState :: "domain_state \<Rightarrow> capture_node \<Rightarrow> capture_node" where
  "SetDomainCaptureState st t =
     t\<lparr>cn_children := NVal (map Some (ChildrenSnapshotRefs_of st)), cn_domain := domain_capture.truncate st\<rparr>"

record core_state =
  ManifestCaptured :: "bool option"
  DataCaptured :: "bool option"
  ChildrenSettled :: "bool option"
  ChildSubtreesManifestsPersisted :: "bool option"

definition CoreCaptureState :: "capture_node \<Rightarrow> core_state" where
  "CoreCaptureState t = \<lparr>ManifestCaptured = cn_latches t ''manifestCaptured'', DataCaptured = cn_latches t ''dataCaptured'',
     ChildrenSettled = cn_latches t ''childrenSettled'',
     ChildSubtreesManifestsPersisted = cn_latches t ''childSubtreesManifestsPersisted''\<rparr>"

definition manifestCaptured :: "core_state \<Rightarrow> bool" where
  "manifestCaptured c = (ManifestCaptured c = Some True)"

definition dataCaptured :: "core_state \<Rightarrow> bool" where
  "dataCaptured c = (DataCaptured c = Some True)"

definition childrenSettled :: "core_state \<Rightarrow> bool" where
  "childrenSettled c = (ChildrenSettled c = Some True)"

definition AllLegsCaptured :: "core_state \<Rightarrow> bool" where
  "AllLegsCaptured c =
     (if ManifestCaptured c = Some False \<or> DataCaptured c = Some False then False
      else ManifestCaptured c \<noteq> None \<or> DataCaptured c \<noteq> None)"

definition ready_field :: "env \<Rightarrow> (condition \<Rightarrow> string) \<Rightarrow> capture_node \<Rightarrow> string" where
  "ready_field e f t = (case find_condition e (cn_conditions t) ConditionReady of None \<Rightarrow> '''' | Some c \<Rightarrow> f c)"

datatype capture_outcome = Capturing | Captured | CaptureFailed string string

definition CoreCaptureOutcome :: "env \<Rightarrow> capture_node \<Rightarrow> capture_outcome" where
  "CoreCaptureOutcome e t =
     (if IsReasonTerminal (ready_field e co_reason t) then CaptureFailed (ready_field e co_reason t) (ready_field e co_message t)
      else if AllLegsCaptured (CoreCaptureState t) then Captured else Capturing)"

definition ManifestCaptureNeeded :: "capture_node \<Rightarrow> bool" where
  "ManifestCaptureNeeded t =
     (ManifestCaptureRequestName_of (cn_domain t) = '''' \<and> \<not> manifestCaptured (CoreCaptureState t))"

section \<open>Patches\<close>

text \<open>
  \<open>retry.DefaultRetry\<close> makes five attempts while the answer is a conflict. \<open>mutate\<close> returns None when there is
  nothing to write.
\<close>

abbreviation retry_steps :: nat where "retry_steps \<equiv> 5"

type_synonym 'a op = "('a \<times> capture_node) prog"

definition attempt ::
  "(capture_node \<Rightarrow> proto_err option op) \<Rightarrow> (capture_node \<Rightarrow> capture_node option) \<Rightarrow> capture_node \<Rightarrow> proto_err option op" where
  "attempt again mutate t =
     (case mutate t of
        None \<Rightarrow> Return (None, t)
      | Some m \<Rightarrow> Write (PatchStatus m) (\<lambda>x. case x of
          None \<Rightarrow> Return (None, m\<lparr>cn_version := Suc (cn_version m)\<rparr>)
        | Some c \<Rightarrow> if c = conflict then again m else Return (Some (ApiFault c), m)))"

primrec status_attempts ::
  "nat \<Rightarrow> (capture_node \<Rightarrow> capture_node option) \<Rightarrow> capture_node \<Rightarrow> proto_err option op" where
  "status_attempts 0 mutate t = Return (Some (ApiFault conflict), t)"
| "status_attempts (Suc n) mutate t = Node True (snap_key t) (\<lambda>r. case r of
     NotFound \<Rightarrow> Return (Some (ApiFault ErrNotFound), t)
   | GetErr x \<Rightarrow> Return (Some (ReadFault x), t)
   | Found fresh \<Rightarrow> attempt (status_attempts n mutate) mutate fresh)"

definition patch_Status :: "(capture_node \<Rightarrow> capture_node option) \<Rightarrow> capture_node \<Rightarrow> proto_err option op" where
  "patch_Status mutate t = status_attempts retry_steps mutate t"

definition StatusFromCurrent :: "(capture_node \<Rightarrow> capture_node option) \<Rightarrow> capture_node \<Rightarrow> proto_err option op" where
  "StatusFromCurrent mutate t = attempt (status_attempts (retry_steps - 1) mutate) mutate t"

record sdk =
  sd_digest :: "string \<Rightarrow> string"
  sd_env :: env
  sd_scheme :: "gvk \<Rightarrow> string option"

definition group_version :: "sdk \<Rightarrow> gvk \<Rightarrow> string" where
  "group_version sd k = gv_string (sd_env sd) (k\<lparr>g_kind := ''''\<rparr>)"

text \<open>\<open>apiutil.GVKForObject\<close> fails for a type the scheme does not know.\<close>

definition sdk_ownerRef :: "sdk \<Rightarrow> capture_node \<Rightarrow> proto_err + owner_ref" where
  "sdk_ownerRef sd t =
     (case sd_scheme sd (cn_gvk t) of
        Some m \<Rightarrow> Inl (SchemeFault m)
      | None \<Rightarrow> Inr \<lparr>or_apiVersion = group_version sd (cn_gvk t), or_kind = g_kind (cn_gvk t), or_name = cn_name t,
          or_uid = cn_uid t, or_controller = Some True\<rparr>)"

definition sdk_refresh :: "capture_node \<Rightarrow> 'a \<Rightarrow> (proto_err \<Rightarrow> 'a) \<Rightarrow> (capture_node \<Rightarrow> 'a op) \<Rightarrow> 'a op" where
  "sdk_refresh t gone failed f = Node True (snap_key t) (\<lambda>r. case r of
     NotFound \<Rightarrow> Return (gone, t) | GetErr x \<Rightarrow> Return (failed (ReadFault x), t) | Found fresh \<Rightarrow> f fresh)"

section \<open>The manifest request\<close>

definition target_key :: "manifest_target \<Rightarrow> string" where
  "target_key t = mt_apiVersion t @ ''|'' @ mt_kind t @ ''|'' @ mt_name t"

definition manifest_less :: "manifest_target \<Rightarrow> manifest_target \<Rightarrow> bool" where
  "manifest_less a b =
     (if mt_apiVersion a \<noteq> mt_apiVersion b then mt_apiVersion a < mt_apiVersion b
      else if mt_kind a \<noteq> mt_kind b then mt_kind a < mt_kind b
      else mt_name a < mt_name b)"

fun dedup_targets :: "string list \<Rightarrow> manifest_target list \<Rightarrow> manifest_target list" where
  "dedup_targets seen [] = []"
| "dedup_targets seen (t # ts) =
     (if target_key t \<in> set seen then dedup_targets seen ts else t # dedup_targets (target_key t # seen) ts)"

definition request_targets :: "manifest_target list \<Rightarrow> manifest_target list" where
  "request_targets declared = sort_slice manifest_less (dedup_targets [] declared)"

definition SameSet :: "manifest_target list \<Rightarrow> manifest_target list \<Rightarrow> bool" where
  "SameSet a b = (let sa = remdups (map target_key a); sb = remdups (map target_key b) in
     length sa = length sb \<and> list_all (\<lambda>k. k \<in> set sa) sb)"

definition name_request :: "string \<Rightarrow> capture_node \<Rightarrow> capture_node option" where
  "name_request mcrName t =
     (let st = GetDomainCaptureState t in
      if ManifestCaptureRequestName_of st = mcrName then None
      else Some (SetDomainCaptureState (st\<lparr>ManifestCaptureRequestName_of := mcrName\<rparr>) t))"

text \<open>The request exists: its name is published, then the declared targets are compared with its frozen ones.\<close>

definition adopt_request ::
  "string \<Rightarrow> bool \<Rightarrow> manifest_request option \<Rightarrow> manifest_target list \<Rightarrow> capture_node \<Rightarrow> proto_err option op" where
  "adopt_request mcrName refreshed existing targets t =
     (let drift = (\<lambda>t. Return (case existing of None \<Rightarrow> None
            | Some q \<Rightarrow> if SameSet (mq_targets q) targets then None else Some ManifestTargetsDrift, t))
      in if ManifestCaptureRequestName_of (GetDomainCaptureState t) = mcrName then drift t
         else and_then (if refreshed then StatusFromCurrent (name_request mcrName) t else patch_Status (name_request mcrName) t)
           (\<lambda>(x, t). if x \<noteq> None then Return (x, t) else drift t))"

definition EnsureManifestCapture :: "sdk \<Rightarrow> manifest_target list \<Rightarrow> capture_node \<Rightarrow> proto_err option op" where
  "EnsureManifestCapture sd targets t =
     (if manifestCaptured (CoreCaptureState t) then Return (None, t)
      else if targets = [] then Return (Some EmptyManifest, t)
      else let mcrName = ManifestCaptureRequestName (sd_digest sd) (cn_uid t) in
        Request (cn_namespace t) mcrName (\<lambda>r. case r of
          GetErr x \<Rightarrow> Return (Some (ReadFault x), t)
        | Found q \<Rightarrow> adopt_request mcrName False (Some q) targets t
        | NotFound \<Rightarrow> sdk_refresh t None Some (\<lambda>t.
            if manifestCaptured (CoreCaptureState t) then Return (None, t)
            else case sdk_ownerRef sd t of
              Inl x \<Rightarrow> Return (Some x, t)
            | Inr owner \<Rightarrow>
                Write (CreateRequest (cn_namespace t) mcrName \<lparr>mq_owner_refs = [owner], mq_targets = request_targets targets\<rparr>)
                  (\<lambda>x. if x \<noteq> None \<and> x \<noteq> Some AlreadyExists then Return (Some (ApiFault (the x)), t)
                       else adopt_request mcrName True None targets t))))"

section \<open>The volume request\<close>

definition parseTargets :: "volume_request \<Rightarrow> proto_err + capture_target list" where
  "parseTargets q =
     (case vq_target q of
        NBadType \<Rightarrow> Inl (FieldFault (FieldError ''spec.target''))
      | NAbsent \<Rightarrow> Inr []
      | NVal None \<Rightarrow> Inr []
      | NVal (Some m) \<Rightarrow> Inr [m\<lparr>tg_namespace := (if tg_namespace m = '''' then vq_namespace q else tg_namespace m)\<rparr>])"

definition target_uid_less :: "capture_target \<Rightarrow> capture_target \<Rightarrow> bool" where
  "target_uid_less a b = (tg_uid a < tg_uid b)"

definition targetsEqual :: "capture_target list \<Rightarrow> capture_target list \<Rightarrow> bool" where
  "targetsEqual a b = (if length a \<noteq> length b then False else sort_slice target_uid_less a = sort_slice target_uid_less b)"

definition hasOwnerRef :: "owner_ref list \<Rightarrow> owner_ref \<Rightarrow> bool" where
  "hasOwnerRef refs desired = list_ex (\<lambda>ref. or_apiVersion ref = or_apiVersion desired \<and> or_kind ref = or_kind desired \<and>
     or_name ref = or_name desired \<and> (or_uid desired = '''' \<or> or_uid ref = '''' \<or> or_uid ref = or_uid desired)) refs"

definition newVolumeCaptureRequestObject :: "string \<Rightarrow> owner_ref \<Rightarrow> capture_target list \<Rightarrow> volume_request" where
  "newVolumeCaptureRequestObject ns owner targets =
     \<lparr>vq_namespace = ns, vq_owner_refs = [owner],
      vq_target = (case targets of [] \<Rightarrow> NAbsent | t # _ \<Rightarrow> NVal (Some (t\<lparr>tg_namespace := ''''\<rparr>)))\<rparr>"

definition OwnedPVCTarget ::
  "string \<Rightarrow> string \<Rightarrow> (proto_err + capture_target option) prog" where
  "OwnedPVCTarget ns n =
     (if n = '''' then Return (Inr None)
      else Volume ns n (\<lambda>r. case r of
        NotFound \<Rightarrow> Return (Inr None)
      | GetErr x \<Rightarrow> Return (Inl (ReadFault x))
      | Found q \<Rightarrow> (case parseTargets q of
            Inl x \<Rightarrow> Return (Inl x)
          | Inr ts \<Rightarrow> Return (Inr (case ts of [] \<Rightarrow> None | t # _ \<Rightarrow> Some t)))))"

text \<open>
  \<open>EnsureVCR\<close> starts again when the create finds a request that the cache does not show, without a bound in
  the code; \<open>CacheBehind\<close> is the result of a program that has met that \<open>fuel\<close> times.
\<close>

definition check_volume :: "string \<Rightarrow> string \<Rightarrow> owner_ref \<Rightarrow> capture_target \<Rightarrow> volume_request \<Rightarrow> proto_err option prog" where
  "check_volume ns n owner dataRef q =
     (let finish = (case parseTargets q of
            Inl x \<Rightarrow> Some x | Inr ts \<Rightarrow> if targetsEqual ts [dataRef] then None else Some VolumeTargetDiffers)
      in if hasOwnerRef (vq_owner_refs q) owner then Return finish
         else Write (PatchVolumeOwners ns n (vq_owner_refs q @ [owner]))
           (\<lambda>x. Return (case x of Some c \<Rightarrow> Some (ApiFault c) | None \<Rightarrow> finish)))"

primrec EnsureVCR :: "nat \<Rightarrow> string \<Rightarrow> string \<Rightarrow> owner_ref \<Rightarrow> capture_target \<Rightarrow> proto_err option prog" where
  "EnsureVCR 0 ns n owner dataRef = Return (Some CacheBehind)"
| "EnsureVCR (Suc fuel) ns n owner dataRef = Volume ns n (\<lambda>r. case r of
     GetErr x \<Rightarrow> Return (Some (ReadFault x))
   | Found q \<Rightarrow> check_volume ns n owner dataRef q
   | NotFound \<Rightarrow> Write (CreateVolume ns n (newVolumeCaptureRequestObject ns owner [dataRef]))
       (\<lambda>x. case x of
          None \<Rightarrow> Return None
        | Some c \<Rightarrow> if c = AlreadyExists then EnsureVCR fuel ns n owner dataRef else Return (Some (ApiFault c))))"

definition name_volume :: "string \<Rightarrow> capture_node \<Rightarrow> capture_node option" where
  "name_volume vcrName t =
     (let st = GetDomainCaptureState t in
      if VolumeCaptureRequestName_of st = vcrName then None
      else Some (SetDomainCaptureState (st\<lparr>VolumeCaptureRequestName_of := vcrName\<rparr>) t))"

definition publish_volume ::
  "sdk \<Rightarrow> nat \<Rightarrow> capture_target \<Rightarrow> string \<Rightarrow> bool \<Rightarrow> capture_node \<Rightarrow> proto_err option op" where
  "publish_volume sd fuel dataRef vcrName refreshed t =
     (case sdk_ownerRef sd t of
        Inl x \<Rightarrow> Return (Some x, t)
      | Inr owner \<Rightarrow> and_then (EnsureVCR fuel (cn_namespace t) vcrName owner dataRef) (\<lambda>x.
          if x \<noteq> None then Return (x, t)
          else if VolumeCaptureRequestName_of (GetDomainCaptureState t) = vcrName then Return (None, t)
          else if refreshed then StatusFromCurrent (name_volume vcrName) t else patch_Status (name_volume vcrName) t))"

definition EnsureVolumeCapture :: "sdk \<Rightarrow> nat \<Rightarrow> capture_target option \<Rightarrow> capture_node \<Rightarrow> proto_err option op" where
  "EnsureVolumeCapture sd fuel dataRef t =
     (case dataRef of
        None \<Rightarrow> Return (None, t)
      | Some target \<Rightarrow>
        if dataCaptured (CoreCaptureState t) then Return (None, t)
        else let vcrName = VolumeCaptureRequestName (sd_digest sd) (cn_uid t) in
          and_then (OwnedPVCTarget (cn_namespace t) vcrName) (\<lambda>r. case r of
            Inl x \<Rightarrow> Return (Some x, t)
          | Inr (Some _) \<Rightarrow> publish_volume sd fuel target vcrName False t
          | Inr None \<Rightarrow> sdk_refresh t None Some (\<lambda>t.
              if dataCaptured (CoreCaptureState t) then Return (None, t)
              else publish_volume sd fuel target vcrName True t)))"

section \<open>The children\<close>

definition ref_less :: "snapshot_child_ref \<Rightarrow> snapshot_child_ref \<Rightarrow> bool" where
  "ref_less a b =
     (if cr_apiVersion a \<noteq> cr_apiVersion b then cr_apiVersion a < cr_apiVersion b
      else if cr_kind a \<noteq> cr_kind b then cr_kind a < cr_kind b
      else cr_name a < cr_name b)"

abbreviation "SortRefs \<equiv> sort_slice ref_less"

definition UnionRefs :: "snapshot_child_ref list \<Rightarrow> snapshot_child_ref list \<Rightarrow> snapshot_child_ref list" where
  "UnionRefs existing added = SortRefs (rev (remdups (rev (existing @ added))))"

definition RefsEqualIgnoreOrder :: "snapshot_child_ref list \<Rightarrow> snapshot_child_ref list \<Rightarrow> bool" where
  "RefsEqualIgnoreOrder a b = (if length a \<noteq> length b then False else SortRefs a = SortRefs b)"

definition normalizeExcludedRefs :: "excluded_ref list \<Rightarrow> excluded_ref list" where
  "normalizeExcludedRefs refs = sortExcludedObjectRefs (rev (remdups (rev refs)))"

definition excludedRefsEqualIgnoreOrder :: "excluded_ref list \<Rightarrow> excluded_ref list \<Rightarrow> bool" where
  "excludedRefsEqualIgnoreOrder a b =
     (if length a \<noteq> length b then False else normalizeExcludedRefs a = normalizeExcludedRefs b)"

text \<open>Labels are those of the source objects a domain partitions.\<close>

definition IsExcluded :: "(string \<Rightarrow> string option) option \<Rightarrow> bool" where
  "IsExcluded labels = (case labels of None \<Rightarrow> False | Some m \<Rightarrow> m ''state-snapshotter.deckhouse.io/exclude'' \<noteq> None)"

definition PartitionExcluded :: "('a \<Rightarrow> (string \<Rightarrow> string option) option) \<Rightarrow> 'a option list \<Rightarrow> 'a list \<times> 'a list" where
  "PartitionExcluded labels objs =
     (let present = List.map_filter id objs in
      (filter (\<lambda>x. \<not> IsExcluded (labels x)) present, filter (\<lambda>x. IsExcluded (labels x)) present))"

definition phaseRank :: "string \<Rightarrow> nat" where
  "phaseRank p = (if p = PhasePlanning then 1 else if p = PhasePlanned then 2 else if p = PhaseFinished then 3 else 0)"

definition phaseCanAdvance :: "string \<Rightarrow> string \<Rightarrow> bool" where
  "phaseCanAdvance a b =
     (if a = PhaseFailed then b = PhaseFailed else if b = PhaseFailed then True else phaseRank a \<le> phaseRank b)"

definition childrenSetFrozen :: "string \<Rightarrow> bool" where
  "childrenSetFrozen p = (if p = PhaseFailed then True else phaseRank PhasePlanned \<le> phaseRank p)"

definition owner_matches :: "owner_ref \<Rightarrow> owner_ref \<Rightarrow> bool" where
  "owner_matches ref desired = (or_apiVersion ref = or_apiVersion desired \<and> or_kind ref = or_kind desired \<and> or_name ref = or_name desired)"

fun ensure_owner_loop :: "owner_ref \<Rightarrow> owner_ref list \<Rightarrow> owner_ref list \<Rightarrow> bool \<Rightarrow> proto_err + owner_ref list" where
  "ensure_owner_loop desired [] out seen = Inr (if seen then out else out @ [desired])"
| "ensure_owner_loop desired (ref # refs) out seen =
     (if owner_matches ref desired then ensure_owner_loop desired refs (out @ [desired]) True
      else if or_apiVersion ref = or_apiVersion desired \<and> or_kind ref = or_kind desired then Inl (OwnedByAnother (or_name ref))
      else if or_controller ref = Some True then Inl (OwnedByAnother (or_name ref))
      else ensure_owner_loop desired refs (out @ [ref]) seen)"

definition ownerref_Ensure :: "owner_ref list \<Rightarrow> owner_ref \<Rightarrow> proto_err + owner_ref list" where
  "ownerref_Ensure refs desired = ensure_owner_loop desired refs [] False"

definition ownerRefsEqual :: "owner_ref list \<Rightarrow> owner_ref list \<Rightarrow> bool" where
  "ownerRefsEqual left right = (if length left \<noteq> length right then False
     else list_all2 (\<lambda>a b. or_apiVersion a = or_apiVersion b \<and> or_kind a = or_kind b \<and> or_name a = or_name b \<and>
       or_uid a = or_uid b \<and> (or_controller a = Some True) = (or_controller b = Some True)) left right)"

definition ensureChild :: "owner_ref \<Rightarrow> capture_node \<Rightarrow> proto_err option prog" where
  "ensureChild owner desired = Node False (snap_key desired) (\<lambda>r. case r of
     GetErr x \<Rightarrow> Return (Some (ReadFault x))
   | NotFound \<Rightarrow> (case ownerref_Ensure (cn_owner_refs desired) owner of
         Inl x \<Rightarrow> Return (Some x)
       | Inr refs \<Rightarrow> Write (CreateNode (desired\<lparr>cn_owner_refs := refs, cn_protected := True\<rparr>))
           (\<lambda>x. Return (map_option ApiFault x)))
   | Found existing \<Rightarrow> (case ownerref_Ensure (cn_owner_refs existing) owner of
         Inl x \<Rightarrow> Return (Some x)
       | Inr refs \<Rightarrow> if ownerRefsEqual (cn_owner_refs existing) refs then Return None
           else Write (PatchOwners existing refs) (\<lambda>x. Return (map_option ApiFault x))))"

definition child_ref_of :: "sdk \<Rightarrow> capture_node \<Rightarrow> snapshot_child_ref" where
  "child_ref_of sd d = \<lparr>cr_apiVersion = group_version sd (cn_gvk d), cr_kind = g_kind (cn_gvk d), cr_name = cn_name d\<rparr>"

primrec reconcile_children :: "sdk \<Rightarrow> owner_ref \<Rightarrow> capture_node list \<Rightarrow> (proto_err + snapshot_child_ref list) prog" where
  "reconcile_children sd owner [] = Return (Inr [])"
| "reconcile_children sd owner (d # ds) =
     (case sd_scheme sd (cn_gvk d) of
        Some m \<Rightarrow> Return (Inl (SchemeFault m))
      | None \<Rightarrow> and_then (ensureChild owner d) (\<lambda>x. case x of
          Some c \<Rightarrow> Return (Inl c)
        | None \<Rightarrow> and_then (reconcile_children sd owner ds) (\<lambda>r. Return (map_sum id ((#) (child_ref_of sd d)) r))))"

definition children_Reconcile :: "sdk \<Rightarrow> owner_ref \<Rightarrow> capture_node list \<Rightarrow> (proto_err + snapshot_child_ref list) prog" where
  "children_Reconcile sd owner desired =
     and_then (reconcile_children sd owner desired) (\<lambda>r. Return (map_sum id SortRefs r))"

primrec childRefsForSpecs :: "sdk \<Rightarrow> capture_node list \<Rightarrow> proto_err + snapshot_child_ref list" where
  "childRefsForSpecs sd [] = Inr []"
| "childRefsForSpecs sd (d # ds) =
     (case sd_scheme sd (cn_gvk d) of
        Some m \<Rightarrow> Inl (SchemeFault m)
      | None \<Rightarrow> map_sum id ((#) (child_ref_of sd d)) (childRefsForSpecs sd ds))"

text \<open>The mutation of the publish: the union of the children, refused after the plan is frozen.\<close>

definition publish_children :: "snapshot_child_ref list \<Rightarrow> excluded_ref list \<Rightarrow> capture_node \<Rightarrow> capture_node option" where
  "publish_children newRefs newExcluded t =
     (let st = GetDomainCaptureState t;
          mergedRefs = UnionRefs (ChildrenSnapshotRefs_of st) newRefs;
          refsGrew = (\<not> RefsEqualIgnoreOrder (ChildrenSnapshotRefs_of st) mergedRefs);
          excludedChanged = (\<not> excludedRefsEqualIgnoreOrder (ExcludedRefs_of st) newExcluded)
      in if childrenSetFrozen (Phase_of st) \<and> (refsGrew \<or> excludedChanged) then None
         else if \<not> refsGrew \<and> \<not> excludedChanged then None
         else Some (SetDomainCaptureState (st\<lparr>ChildrenSnapshotRefs_of := mergedRefs, ExcludedRefs_of := newExcluded\<rparr>) t))"

definition plan_grows :: "snapshot_child_ref list \<Rightarrow> excluded_ref list \<Rightarrow> capture_node \<Rightarrow> bool" where
  "plan_grows desiredRefs newExcluded t =
     (let st = GetDomainCaptureState t in
      childrenSetFrozen (Phase_of st) \<and>
        (\<not> RefsEqualIgnoreOrder (ChildrenSnapshotRefs_of st) (UnionRefs (ChildrenSnapshotRefs_of st) desiredRefs) \<or>
         \<not> excludedRefsEqualIgnoreOrder (ExcludedRefs_of st) newExcluded))"

definition EnsureChildren :: "sdk \<Rightarrow> capture_node list \<Rightarrow> excluded_ref list \<Rightarrow> capture_node \<Rightarrow> proto_err option op" where
  "EnsureChildren sd desired excluded t =
     (case childRefsForSpecs sd desired of
        Inl x \<Rightarrow> Return (Some x, t)
      | Inr desiredRefs \<Rightarrow>
        let newExcluded = normalizeExcludedRefs excluded in
        sdk_refresh t None Some (\<lambda>t.
          if plan_grows desiredRefs newExcluded t then Return (Some ChildrenSetFrozen, t)
          else case sdk_ownerRef sd t of
            Inl x \<Rightarrow> Return (Some x, t)
          | Inr owner \<Rightarrow> and_then (children_Reconcile sd owner desired) (\<lambda>r. case r of
              Inl x \<Rightarrow> Return (Some x, t)
            | Inr newRefs \<Rightarrow> StatusFromCurrent (publish_children newRefs newExcluded) t)))"

section \<open>The source and the phase\<close>

definition publish_source :: "subject_ref \<Rightarrow> capture_node \<Rightarrow> capture_node option" where
  "publish_source src t = (if cn_source t = Some src then None else Some (t\<lparr>cn_source := Some src\<rparr>))"

definition PublishSnapshotSource :: "subject_ref \<Rightarrow> capture_node \<Rightarrow> proto_err option op" where
  "PublishSnapshotSource src t =
     (if sr_apiVersion src = '''' \<and> sr_kind src = '''' \<and> sr_name src = '''' then Return (None, t)
      else if cn_source t = Some src then Return (None, t)
      else patch_Status (publish_source src) t)"

definition phase_settled :: "string \<Rightarrow> string \<Rightarrow> string \<Rightarrow> domain_state \<Rightarrow> bool" where
  "phase_settled phase reason message st =
     (\<not> phaseCanAdvance (Phase_of st) phase \<or> (Phase_of st = phase \<and> Reason_of st = reason \<and> Message_of st = message))"

definition advance_phase :: "string \<Rightarrow> string \<Rightarrow> string \<Rightarrow> capture_node \<Rightarrow> capture_node option" where
  "advance_phase phase reason message t =
     (let st = GetDomainCaptureState t in
      if phase_settled phase reason message st then None
      else Some (SetDomainCaptureState (st\<lparr>Phase_of := phase, Reason_of := reason, Message_of := message\<rparr>) t))"

definition setPhase :: "string \<Rightarrow> string \<Rightarrow> string \<Rightarrow> capture_node \<Rightarrow> proto_err option op" where
  "setPhase phase reason message t =
     (if phase_settled phase reason message (GetDomainCaptureState t) then Return (None, t)
      else patch_Status (advance_phase phase reason message) t)"

text \<open>The status writer: a success phase that is entered starts without reason and message.\<close>

definition DomainCaptureStatus_Apply :: "string \<Rightarrow> string \<Rightarrow> string \<Rightarrow> capture_node \<Rightarrow> proto_err option op" where
  "DomainCaptureStatus_Apply phase reason message t =
     (if phase \<in> {PhasePlanned, PhaseFinished} \<and> Phase_of (GetDomainCaptureState t) \<noteq> phase then setPhase phase '''' '''' t
      else setPhase phase reason message t)"

section \<open>Inspection\<close>

record child_state =
  child_ref :: snapshot_child_ref
  child_ready :: "string \<times> string \<times> string"
  child_captured :: bool

definition childReadyCondition :: "capture_node \<Rightarrow> string \<times> string \<times> string" where
  "childReadyCondition u = (case find (\<lambda>c. co_type c = ConditionReady) (cn_conditions u) of
     None \<Rightarrow> ('''', '''', '''') | Some c \<Rightarrow> (co_status c, co_reason c, co_message c))"

definition childCoreCaptureState :: "capture_node \<Rightarrow> core_state" where
  "childCoreCaptureState u = (CoreCaptureState u)\<lparr>ChildrenSettled := None, ChildSubtreesManifestsPersisted := None\<rparr>"

primrec capture_states :: "sdk \<Rightarrow> string \<Rightarrow> snapshot_child_ref list \<Rightarrow> (proto_err + child_state list) prog" where
  "capture_states sd ns [] = Return (Inr [])"
| "capture_states sd ns (ref # refs) = Node False (gvk_of (sd_env sd) (cr_apiVersion ref) (cr_kind ref), ns, cr_name ref) (\<lambda>r. case r of
     GetErr x \<Rightarrow> Return (Inl (ReadFault x))
   | NotFound \<Rightarrow> and_then (capture_states sd ns refs) (\<lambda>q. Return (map_sum id
       ((#) \<lparr>child_ref = ref, child_ready = ('''', '''', ''''), child_captured = False\<rparr>) q))
   | Found u \<Rightarrow> and_then (capture_states sd ns refs) (\<lambda>q. Return (map_sum id
       ((#) \<lparr>child_ref = ref, child_ready = childReadyCondition u, child_captured = AllLegsCaptured (childCoreCaptureState u)\<rparr>) q)))"

definition ChildrenCaptureStates :: "sdk \<Rightarrow> capture_node \<Rightarrow> (proto_err + child_state list) prog" where
  "ChildrenCaptureStates sd t = capture_states sd (cn_namespace t) (ChildrenSnapshotRefs_of (GetDomainCaptureState t))"

end
