(* ===== verification/Capture_Legs.thy ===== *)
theory Capture_Legs
  imports Capture_Protocol Domain_Phase Volume_Capture
begin

text \<open>
  The legs of a capture as the SnapshotContent controller drives them on the owning snapshot
  (\<open>snapshotcontent/capture_legs.go\<close>): it declares the legs, latches a leg once its result is durable, deletes
  the request of a latched leg, and latches what holds for the children. The error of a field that cannot be
  read ends the pass, as does any failed call.
\<close>

record legs =
  lg_env :: env
  lg_registry :: registry
  lg_domain_kinds :: "string list"
  lg_key :: "gvk \<Rightarrow> string"

type_synonym 'a attempt_at = "(proto_err + 'a) prog"

section \<open>Reading the owner\<close>

definition ownerCommonLegCaptured :: "capture_node \<Rightarrow> string \<Rightarrow> bool" where
  "ownerCommonLegCaptured n leg = (cn_latches n leg = Some True)"

definition node_phase :: "capture_node \<Rightarrow> string" where
  "node_phase n = Phase_of (cn_domain n)"

definition ownerDomainCaptureAtLeastPlanned :: "capture_node \<Rightarrow> bool" where
  "ownerDomainCaptureAtLeastPlanned n = (node_phase n \<in> {PhasePlanned, PhaseFinished})"

text \<open>\<open>usecase.CurrentReadyCondition\<close>: the first condition of the type.\<close>

definition CurrentReadyCondition :: "capture_node \<Rightarrow> condition option" where
  "CurrentReadyCondition n = find (\<lambda>c. co_type c = ConditionReady) (cn_conditions n)"

definition childSnapshotSettled :: "capture_node \<Rightarrow> bool" where
  "childSnapshotSettled child =
     (if node_phase child \<in> {PhaseFinished, PhaseFailed} then True
      else case CurrentReadyCondition child of
        None \<Rightarrow> False
      | Some rc \<Rightarrow> if co_status rc = ConditionTrue then True
          else co_status rc = ConditionFalse \<and> IsReasonTerminal (co_reason rc))"

section \<open>Latches\<close>

definition live_node :: "snap_key \<Rightarrow> (capture_node \<Rightarrow> 'a attempt_at) \<Rightarrow> 'a attempt_at" where
  "live_node k f = Node True k (\<lambda>r. case r of
     NotFound \<Rightarrow> Return (Inl (ApiFault ErrNotFound)) | GetErr x \<Rightarrow> Return (Inl (ReadFault x)) | Found n \<Rightarrow> f n)"

text \<open>Read, change, patch; five attempts while the patch conflicts.\<close>

primrec latch_attempts ::
  "nat \<Rightarrow> snap_key \<Rightarrow> (capture_node \<Rightarrow> capture_node option) \<Rightarrow> unit attempt_at" where
  "latch_attempts 0 k change = Return (Inl (ApiFault conflict))"
| "latch_attempts (Suc n) k change = live_node k (\<lambda>fresh. case change fresh of
     None \<Rightarrow> Return (Inr ())
   | Some m \<Rightarrow> Write (PatchStatus m) (\<lambda>x. case x of
       None \<Rightarrow> Return (Inr ())
     | Some c \<Rightarrow> if c = conflict then latch_attempts n k change else Return (Inl (ApiFault c))))"

definition set_latch :: "string \<Rightarrow> bool \<Rightarrow> capture_node \<Rightarrow> capture_node" where
  "set_latch leg v n = n\<lparr>cn_latches := (cn_latches n)(leg \<mapsto> v)\<rparr>"

definition declare_legs :: "bool \<Rightarrow> capture_node \<Rightarrow> capture_node option" where
  "declare_legs requiresDataArtifact fresh =
     (let n1 = (if cn_latches fresh ''manifestCaptured'' = None then set_latch ''manifestCaptured'' False fresh else fresh);
          n2 = (if requiresDataArtifact \<and> cn_latches n1 ''dataCaptured'' = None then set_latch ''dataCaptured'' False n1 else n1)
      in if cn_latches fresh ''manifestCaptured'' = None \<or> (requiresDataArtifact \<and> cn_latches fresh ''dataCaptured'' = None)
         then Some n2 else None)"

definition eagerInitOwnerCaptureLegs :: "legs \<Rightarrow> capture_node \<Rightarrow> unit attempt_at" where
  "eagerInitOwnerCaptureLegs lg owner =
     latch_attempts 5 (snap_key owner) (declare_legs (RequiresDataArtifact (g_kind (cn_gvk owner)) (lg_registry lg)))"

definition capture_leg :: "string \<Rightarrow> capture_node \<Rightarrow> capture_node option" where
  "capture_leg leg fresh = (if ownerCommonLegCaptured fresh leg then None else Some (set_latch leg True fresh))"

definition setOwnerCaptureLegCaptured :: "capture_node \<Rightarrow> string \<Rightarrow> unit attempt_at" where
  "setOwnerCaptureLegCaptured owner leg = latch_attempts 5 (snap_key owner) (capture_leg leg)"

definition declare_persisted :: "bool \<Rightarrow> capture_node \<Rightarrow> capture_node option" where
  "declare_persisted persisted fresh =
     (case cn_latches fresh ''childSubtreesManifestsPersisted'' of
        Some cur \<Rightarrow> if cur then None else if cur = persisted then None
          else Some (set_latch ''childSubtreesManifestsPersisted'' persisted fresh)
      | None \<Rightarrow> Some (set_latch ''childSubtreesManifestsPersisted'' persisted fresh))"

definition setOwnerChildSubtreesManifestsPersisted :: "capture_node \<Rightarrow> bool \<Rightarrow> unit attempt_at" where
  "setOwnerChildSubtreesManifestsPersisted owner persisted = latch_attempts 5 (snap_key owner) (declare_persisted persisted)"

section \<open>Requests\<close>

definition reapManifestCaptureRequest :: "string \<Rightarrow> string \<Rightarrow> unit attempt_at" where
  "reapManifestCaptureRequest ns n = Write (DeleteRequest ns n) (\<lambda>x.
     if x \<noteq> None \<and> x \<noteq> Some ErrNotFound then Return (Inl (ApiFault (the x))) else Return (Inr ()))"

definition reapVolumeCaptureRequest :: "string \<Rightarrow> string \<Rightarrow> unit attempt_at" where
  "reapVolumeCaptureRequest ns n = Write (DeleteVolume ns n) (\<lambda>x.
     if x \<noteq> None \<and> x \<noteq> Some ErrNotFound then Return (Inl (ApiFault (the x))) else Return (Inr ()))"

definition observed :: "(env \<Rightarrow> 'a res) \<Rightarrow> 'a attempt_at" where
  "observed d = Observe (\<lambda>e. Return (map_sum FieldFault id (d e)))"

definition observeOwnerDataLegVCR :: "env \<Rightarrow> string \<Rightarrow> string \<Rightarrow> string \<Rightarrow> bool res" where
  "observeOwnerDataLegVCR e ns vcrName contentName =
     (case e_vcr e ns vcrName of
        NotFound \<Rightarrow> Inr False
      | GetErr x \<Rightarrow> Inl (ClientError x)
      | Found vcr \<Rightarrow>
        (case ParseVolumeCaptureTargets vcr of
           Inl x \<Rightarrow> Inl x
         | Inr expectedTargets \<Rightarrow>
           (case live_content e contentName of
              NotFound \<Rightarrow> Inl (NotFoundError contentName)
            | GetErr x \<Rightarrow> Inl (ClientError x)
            | Found c \<Rightarrow> Inr (ContentDataRefsCoverExpectedTargets (GetStatusDataRefs c) expectedTargets))))"

definition contentHasPublishedData :: "env \<Rightarrow> string \<Rightarrow> bool res" where
  "contentHasPublishedData e contentName =
     (case live_content e contentName of
        NotFound \<Rightarrow> Inl (NotFoundError contentName)
      | GetErr x \<Rightarrow> Inl (ClientError x)
      | Found c \<Rightarrow> Inr (ct_data c \<noteq> None))"

section \<open>The legs\<close>

text \<open>The manifest leg; a latched leg only removes a request that is still there.\<close>

definition owner_manifest_leg :: "string \<Rightarrow> string \<Rightarrow> capture_node \<Rightarrow> unit attempt_at" where
  "owner_manifest_leg ns contentName owner =
     (let mcrName = ManifestCaptureRequestName_of (cn_domain owner) in
      if mcrName = '''' then Return (Inr ())
      else if \<not> ownerCommonLegCaptured owner ''manifestCaptured'' then
        if_ok (observed (\<lambda>e. ManifestCaptureRequestSafeToDelete e ns mcrName contentName)) (\<lambda>safe.
          if \<not> safe then Return (Inr ())
          else if_ok (setOwnerCaptureLegCaptured owner ''manifestCaptured'') (\<lambda>_. reapManifestCaptureRequest ns mcrName))
      else Request ns mcrName (\<lambda>r. case r of
        NotFound \<Rightarrow> Return (Inr ())
      | GetErr x \<Rightarrow> Return (Inl (ReadFault x))
      | Found _ \<Rightarrow> reapManifestCaptureRequest ns mcrName))"

text \<open>The data leg; True asks for another pass.\<close>

definition owner_volume_leg :: "string \<Rightarrow> string \<Rightarrow> gvk \<Rightarrow> capture_node \<Rightarrow> bool attempt_at" where
  "owner_volume_leg ns contentName ownerGVK owner =
     (let vcrName = VolumeCaptureRequestName_of (cn_domain owner) in
      if \<not> ownerCommonLegCaptured owner ''dataCaptured'' then
        if vcrName \<noteq> '''' then
          if_ok (observed (\<lambda>e. observeOwnerDataLegVCR e ns vcrName contentName)) (\<lambda>done.
            if \<not> done then Return (Inr True)
            else if_ok (observed (\<lambda>e. VolumeCaptureRequestSafeToDeleteWithHandoff e ns vcrName contentName)) (\<lambda>safe.
              if \<not> safe then Return (Inr True)
              else if_ok (setOwnerCaptureLegCaptured owner ''dataCaptured'') (\<lambda>_.
                if_ok (reapVolumeCaptureRequest ns vcrName) (\<lambda>_. Return (Inr False)))))
        else if g_kind ownerGVK = ''VolumeSnapshot'' then
          if_ok (observed (\<lambda>e. contentHasPublishedData e contentName)) (\<lambda>hasData.
            if hasData then if_ok (setOwnerCaptureLegCaptured owner ''dataCaptured'') (\<lambda>_. Return (Inr False))
            else Return (Inr True))
        else Return (Inr False)
      else if vcrName \<noteq> '''' then
        Volume ns vcrName (\<lambda>r. case r of
          NotFound \<Rightarrow> Return (Inr False)
        | GetErr x \<Rightarrow> Return (Inl (ReadFault x))
        | Found _ \<Rightarrow> if_ok (reapVolumeCaptureRequest ns vcrName) (\<lambda>_. Return (Inr False)))
      else Return (Inr False))"

definition persisted_leg :: "snapshot_content \<Rightarrow> capture_node \<Rightarrow> unit attempt_at" where
  "persisted_leg c owner =
     (if ownerCommonLegCaptured owner ''childSubtreesManifestsPersisted'' then Return (Inr ())
      else if_ok (if ct_subtree_persisted c then Return (Inr True)
          else observed (\<lambda>e. map_sum id fst (aggregateChildrenSubtreeManifestsPersisted e c)))
        (\<lambda>persisted. setOwnerChildSubtreesManifestsPersisted owner persisted))"

section \<open>The children\<close>

text \<open>The declared children in turn, read live, until one fails the test.\<close>

primrec each_child :: "env \<Rightarrow> (capture_node \<Rightarrow> bool) \<Rightarrow> string \<Rightarrow> snapshot_child_ref option list \<Rightarrow> bool attempt_at" where
  "each_child e good ns [] = Return (Inr True)"
| "each_child e good ns (raw # rest) =
     (case raw of
        None \<Rightarrow> Return (Inl (FieldFault (Errorf ''malformed childrenSnapshotRefs entry'')))
      | Some m \<Rightarrow>
        if cr_apiVersion m = '''' \<or> cr_kind m = '''' \<or> cr_name m = ''''
        then Return (Inl (FieldFault (Errorf ''incomplete childrenSnapshotRefs entry'')))
        else case parse_gv_error e (cr_apiVersion m) of
          Some x \<Rightarrow> Return (Inl (FieldFault (ClientError x)))
        | None \<Rightarrow> Node True (gvk_of e (cr_apiVersion m) (cr_kind m), ns, cr_name m) (\<lambda>r. case r of
            NotFound \<Rightarrow> Return (Inr False)
          | GetErr x \<Rightarrow> Return (Inl (ReadFault x))
          | Found child \<Rightarrow> if \<not> good child then Return (Inr False) else each_child e good ns rest))"

definition allDirectChildrenSubtreePlanned :: "legs \<Rightarrow> capture_node \<Rightarrow> bool attempt_at" where
  "allDirectChildrenSubtreePlanned lg owner =
     (case cn_children owner of
        NBadType \<Rightarrow> Return (Inl (FieldFault (FieldError ''status.childrenSnapshotRefs'')))
      | NAbsent \<Rightarrow> Return (Inr True)
      | NVal refs \<Rightarrow> each_child (lg_env lg) (\<lambda>child. ownerCommonLegCaptured child ''subtreePlanned'') (cn_namespace owner) refs)"

text \<open>The pair is settled and whether there are children.\<close>

definition allDirectChildrenSettled :: "legs \<Rightarrow> capture_node \<Rightarrow> (bool \<times> bool) attempt_at" where
  "allDirectChildrenSettled lg owner =
     (case cn_children owner of
        NBadType \<Rightarrow> Return (Inl (FieldFault (FieldError ''status.childrenSnapshotRefs'')))
      | NAbsent \<Rightarrow> Return (Inr (False, False))
      | NVal refs \<Rightarrow>
          if refs = [] then Return (Inr (False, False))
          else if_ok (each_child (lg_env lg) childSnapshotSettled (cn_namespace owner) refs)
            (\<lambda>settled. Return (Inr (settled, True))))"

definition planned_leg :: "legs \<Rightarrow> capture_node \<Rightarrow> bool attempt_at" where
  "planned_leg lg owner =
     (if ownerCommonLegCaptured owner ''subtreePlanned'' then Return (Inr False)
      else if_ok (allDirectChildrenSubtreePlanned lg owner) (\<lambda>allPlanned.
        if allPlanned then if_ok (setOwnerCaptureLegCaptured owner ''subtreePlanned'') (\<lambda>_. Return (Inr False))
        else Return (Inr True)))"

definition settled_leg :: "legs \<Rightarrow> capture_node \<Rightarrow> bool attempt_at" where
  "settled_leg lg owner =
     (if ownerCommonLegCaptured owner ''childrenSettled'' then Return (Inr False)
      else if_ok (allDirectChildrenSettled lg owner) (\<lambda>(settled, hasChildren).
        if \<not> hasChildren then Return (Inr False)
        else if settled then if_ok (setOwnerCaptureLegCaptured owner ''childrenSettled'') (\<lambda>_. Return (Inr False))
        else Return (Inr True)))"

section \<open>The pass\<close>

definition owner_legs :: "legs \<Rightarrow> string \<Rightarrow> gvk \<Rightarrow> snapshot_content \<Rightarrow> capture_node \<Rightarrow> bool attempt_at" where
  "owner_legs lg ns ownerGVK c owner =
     if_ok (eagerInitOwnerCaptureLegs lg owner) (\<lambda>_.
     if_ok (owner_manifest_leg ns (ct_name c) owner) (\<lambda>_.
     if_ok (owner_volume_leg ns (ct_name c) ownerGVK owner) (\<lambda>r1.
     if_ok (persisted_leg c owner) (\<lambda>_.
     if_ok (planned_leg lg owner) (\<lambda>r2.
     if_ok (settled_leg lg owner) (\<lambda>r3. Return (Inr (r1 \<or> r2 \<or> r3))))))))"

definition isDomainCaptureKind_content :: "legs \<Rightarrow> gvk \<Rightarrow> bool" where
  "isDomainCaptureKind_content lg k = (lg_key lg k \<in> set (lg_domain_kinds lg))"

definition reconcileOwnerCaptureLegs :: "legs \<Rightarrow> snapshot_content \<Rightarrow> bool attempt_at" where
  "reconcileOwnerCaptureLegs lg c =
     (let r = ct_snapshot_ref c in
      if sr_apiVersion r = '''' \<or> sr_kind r = '''' \<or> sr_name r = '''' then Return (Inr False)
      else case parse_gv_error (lg_env lg) (sr_apiVersion r) of
        Some x \<Rightarrow> Return (Inl (FieldFault (ClientError x)))
      | None \<Rightarrow>
        let ownerGVK = gvk_of (lg_env lg) (sr_apiVersion r) (sr_kind r) in
        if \<not> isDomainCaptureKind_content lg ownerGVK then Return (Inr False)
        else Node True (ownerGVK, sr_namespace r, sr_name r) (\<lambda>q. case q of
            NotFound \<Rightarrow> Return (Inr False)
          | GetErr x \<Rightarrow> Return (Inl (ReadFault x))
          | Found owner \<Rightarrow>
              if cn_bound owner \<noteq> ct_name c then Return (Inr False)
              else if \<not> ownerDomainCaptureAtLeastPlanned owner then Return (Inr False)
              else owner_legs lg (sr_namespace r) ownerGVK c owner))"

end
