(* ===== verification/Protocol_Guarantees.thy ===== *)
theory Protocol_Guarantees
  imports Domain_Capture Capture_Legs
begin

text \<open>
  Rely and guarantee for the programs of the capture. A snapshot only moves up in the order \<open>node_le\<close>, whoever
  writes it, so what a program has read of it stays a lower bound: \<open>conforms\<close> follows a program with the set of
  the snapshots it has read, demands that each patch moves up from a version the program knows and that each
  write is permitted by what it knows. The locale \<open>protocol\<close> turns this into an invariant of every interleaving;
  the operations of the SDK and the pass of the controller conform.
\<close>

section \<open>How a snapshot evolves\<close>

abbreviation "latched n leg \<equiv> ownerCommonLegCaptured n leg"

definition declared :: "capture_node \<Rightarrow> snapshot_child_ref list" where
  "declared n = List.map_filter id (nval [] (cn_children n))"

abbreviation "mcr_name n \<equiv> ManifestCaptureRequestName_of (cn_domain n)"
abbreviation "vcr_name n \<equiv> VolumeCaptureRequestName_of (cn_domain n)"

definition node_le :: "capture_node \<Rightarrow> capture_node \<Rightarrow> bool" where
  "node_le n n' \<longleftrightarrow> snap_key n' = snap_key n \<and> (n' = n \<or> cn_version n < cn_version n') \<and>
     (\<forall>leg. latched n leg \<longrightarrow> latched n' leg) \<and>
     (mcr_name n \<noteq> '''' \<longrightarrow> mcr_name n' = mcr_name n) \<and> (vcr_name n \<noteq> '''' \<longrightarrow> vcr_name n' = vcr_name n) \<and>
     phaseCanAdvance (node_phase n) (node_phase n') \<and>
     (childrenSetFrozen (node_phase n) \<longrightarrow>
        declared n' = declared n \<and> ExcludedRefs_of (cn_domain n') = ExcludedRefs_of (cn_domain n))"

lemma phase_refl [simp]: "phaseCanAdvance p p"
  by (simp add: phaseCanAdvance_def)

lemma phase_trans: "phaseCanAdvance a b \<Longrightarrow> phaseCanAdvance b c \<Longrightarrow> phaseCanAdvance a c"
  by (auto simp: phaseCanAdvance_def phaseRank_def split: if_splits)

lemma frozen_stays: "childrenSetFrozen a \<Longrightarrow> phaseCanAdvance a b \<Longrightarrow> childrenSetFrozen b"
  by (auto simp: phaseCanAdvance_def childrenSetFrozen_def phaseRank_def split: if_splits)

lemma node_le_refl [simp]: "node_le n n"
  by (simp add: node_le_def)

lemma node_le_trans: "node_le a b \<Longrightarrow> node_le b c \<Longrightarrow> node_le a c"
  unfolding node_le_def by (auto intro: phase_trans dest: frozen_stays)

lemma node_le_key: "node_le a b \<Longrightarrow> snap_key b = snap_key a"
  by (simp add: node_le_def)

lemma node_le_same: "node_le a b \<Longrightarrow> cn_version a = cn_version b \<Longrightarrow> b = a"
  by (auto simp: node_le_def)

lemma node_le_latched: "node_le a b \<Longrightarrow> latched a leg \<Longrightarrow> latched b leg"
  by (simp add: node_le_def)

definition evolves :: "store \<Rightarrow> store \<Rightarrow> bool" where
  "evolves s s' \<longleftrightarrow> (\<forall>k n. st_nodes s k = Some n \<longrightarrow> (\<exists>n'. st_nodes s' k = Some n' \<and> node_le n n'))"

lemma evolves_refl [simp]: "evolves s s"
  by (auto simp: evolves_def)

lemma evolves_trans: "evolves s t \<Longrightarrow> evolves t u \<Longrightarrow> evolves s u"
  unfolding evolves_def by (meson node_le_trans)

text \<open>Uids are a function of the key: the model deletes no snapshot. The requests are named after the uid.\<close>

type_synonym naming = "(snap_key \<Rightarrow> string) \<times> (string \<Rightarrow> string)"

definition request_name :: "naming \<Rightarrow> snap_key \<Rightarrow> string" where
  "request_name N k = ManifestCaptureRequestName (snd N) (fst N k)"

definition volume_name :: "naming \<Rightarrow> snap_key \<Rightarrow> string" where
  "volume_name N k = VolumeCaptureRequestName (snd N) (fst N k)"

definition node_ok :: "naming \<Rightarrow> capture_node \<Rightarrow> bool" where
  "node_ok N n \<longleftrightarrow> cn_uid n = fst N (snap_key n) \<and> mcr_name n \<in> {'''', request_name N (snap_key n)} \<and>
     vcr_name n \<in> {'''', volume_name N (snap_key n)}"

definition store_ok :: "naming \<Rightarrow> store \<Rightarrow> bool" where
  "store_ok N s \<longleftrightarrow> st_uid s = fst N \<and> (\<forall>k n. st_nodes s k = Some n \<longrightarrow> snap_key n = k \<and> node_ok N n)"

lemma store_okD: "store_ok N s \<Longrightarrow> st_nodes s k = Some n \<Longrightarrow> snap_key n = k \<and> node_ok N n"
  unfolding store_ok_def by blast

definition history_ok :: "naming \<Rightarrow> history \<Rightarrow> bool" where
  "history_ok N H \<longleftrightarrow> H \<noteq> [] \<and> (\<forall>s\<in>set H. store_ok N s \<and> evolves s (hd H))"

definition holds :: "store \<Rightarrow> capture_node set \<Rightarrow> bool" where
  "holds s K \<longleftrightarrow> (\<forall>m\<in>K. \<exists>n. st_nodes s (snap_key m) = Some n \<and> node_le m n)"

lemma holds_evolves: "holds s K \<Longrightarrow> evolves s s' \<Longrightarrow> holds s' K"
  unfolding holds_def evolves_def by (meson node_le_trans)

lemma holds_insert: "holds s K \<Longrightarrow> st_nodes s (snap_key n) = Some n' \<Longrightarrow> node_le n n' \<Longrightarrow> holds s (insert n K)"
  by (auto simp: holds_def)

section \<open>Programs that conform\<close>

record rules =
  ru_answers :: "env set"
  ru_naming :: naming
  ru_permit :: "capture_node set \<Rightarrow> api_write \<Rightarrow> bool"

text \<open>A patch moves up from a version that was read.\<close>

definition basis :: "capture_node set \<Rightarrow> capture_node \<Rightarrow> capture_node set" where
  "basis K m = {n \<in> K. snap_key n = snap_key m \<and> cn_version n = cn_version m}"

fun lawful :: "naming \<Rightarrow> capture_node set \<Rightarrow> api_write \<Rightarrow> bool" where
  "lawful N K (PatchStatus m) = (\<exists>n\<in>basis K m. node_le n (patched m n) \<and> node_ok N (patched m n))"
| "lawful N K _ = True"

fun learned :: "capture_node set \<Rightarrow> api_write \<Rightarrow> api_err option \<Rightarrow> capture_node set" where
  "learned K (PatchStatus m) None = K \<union> patched m ` basis K m"
| "learned K _ _ = K"

primrec conforms :: "rules \<Rightarrow> (capture_node set \<Rightarrow> 'a \<Rightarrow> bool) \<Rightarrow> capture_node set \<Rightarrow> 'a prog \<Rightarrow> bool" where
  "conforms ru Q K (Return x) = Q K x"
| "conforms ru Q K (Node live k f) =
     ((\<forall>n. snap_key n = k \<and> node_ok (ru_naming ru) n \<and> (live \<longrightarrow> (\<forall>m\<in>K. snap_key m = k \<longrightarrow> node_le m n)) \<longrightarrow>
         conforms ru Q (insert n K) (f (Found n))) \<and>
      conforms ru Q K (f NotFound) \<and> (\<forall>x. conforms ru Q K (f (GetErr x))))"
| "conforms ru Q K (Request ns n f) = (\<forall>r. conforms ru Q K (f r))"
| "conforms ru Q K (Volume ns n f) = (\<forall>r. conforms ru Q K (f r))"
| "conforms ru Q K (Observe f) = (\<forall>e\<in>ru_answers ru. conforms ru Q K (f e))"
| "conforms ru Q K (Write w f) =
     (lawful (ru_naming ru) K w \<and> ru_permit ru K w \<and> (\<forall>x. conforms ru Q (learned K w x) (f x)))"

lemma learned_grows: "K \<subseteq> learned K w x"
  by (cases "(K, w, x)" rule: learned.cases) auto

lemma conforms_and_then:
  "conforms ru P K p \<Longrightarrow> (\<And>K' x. K \<subseteq> K' \<Longrightarrow> P K' x \<Longrightarrow> conforms ru Q K' (g x)) \<Longrightarrow> conforms ru Q K (and_then p g)"
proof (induction p arbitrary: K)
  case (Node live k f)
  have ih: "conforms ru Q K' (and_then (f r) g)" if "conforms ru P K' (f r)" "K \<subseteq> K'" for K' r
    by (rule Node.IH [OF rangeI that(1)]) (use Node.prems(2) that(2) in blast)
  show ?case using Node.prems(1) by (simp add: ih subset_insertI)
next
  case (Request ns n f)
  then show ?case by simp
next
  case (Volume ns n f)
  then show ?case by simp
next
  case (Observe f)
  then show ?case by simp
next
  case (Write w f)
  have "conforms ru Q (learned K w x) (and_then (f x) g)" for x
  proof (rule Write.IH [OF rangeI])
    show "conforms ru P (learned K w x) (f x)" using Write.prems(1) by simp
    show "conforms ru Q K' (g y)" if "learned K w x \<subseteq> K'" "P K' y" for K' y
      using Write.prems(2) that learned_grows by blast
  qed
  then show ?case using Write.prems(1) by simp
qed simp

lemma conforms_weaken: "conforms ru P K p \<Longrightarrow> (\<And>K' x. K \<subseteq> K' \<Longrightarrow> P K' x \<Longrightarrow> Q K' x) \<Longrightarrow> conforms ru Q K p"
  using conforms_and_then [of ru P K p Q Return] by simp

lemma conforms_if_ok:
  "conforms ru P K p \<Longrightarrow> (\<And>K' x. K \<subseteq> K' \<Longrightarrow> P K' (Inl x) \<Longrightarrow> Q K' (Inl x)) \<Longrightarrow>
   (\<And>K' x. K \<subseteq> K' \<Longrightarrow> P K' (Inr x) \<Longrightarrow> conforms ru Q K' (g x)) \<Longrightarrow> conforms ru Q K (if_ok p g)"
  unfolding if_ok_def by (rule conforms_and_then [where P = P]) (auto split: sum.splits)

section \<open>One call\<close>

lemma perform_PatchStatus_D:
  assumes "perform (PatchStatus m) s = (x, s')" and "lawful N K (PatchStatus m)" and "holds s K" and "store_ok N s"
  shows "(x \<noteq> None \<and> s' = s) \<or> (x = None \<and> (\<exists>n. st_nodes s (snap_key m) = Some n \<and> snap_key n = snap_key m \<and> basis K m = {n} \<and>
     s' = put_node (patched m n) s \<and> node_le n (patched m n) \<and> node_ok N (patched m n)))"
proof (cases x)
  case None
  then obtain n where n: "st_nodes s (snap_key m) = Some n" "cn_version n = cn_version m" "s' = put_node (patched m n) s"
    using assms(1) by (auto split: option.splits if_splits)
  have b: "n' = n" if "n' \<in> basis K m" for n'
  proof -
    from that assms(3) obtain c where c: "st_nodes s (snap_key n') = Some c" "node_le n' c" unfolding basis_def holds_def by blast
    then have "c = n" using n(1) that by (simp add: basis_def)
    then show ?thesis using node_le_same [OF c(2)] that n(2) by (simp add: basis_def)
  qed
  obtain n' where "n' \<in> basis K m" "node_le n' (patched m n')" "node_ok N (patched m n')" using assms(2) by auto
  then have "basis K m = {n}" "node_le n (patched m n)" "node_ok N (patched m n)" using b by blast+
  moreover then have "snap_key n = snap_key m" by (auto simp: basis_def)
  ultimately show ?thesis using None n by blast
qed (use assms(1) in \<open>auto split: option.splits if_splits\<close>)

lemma patched_key [simp]: "snap_key (patched m n) = snap_key n"
  by (simp add: snap_key_def patched_def)

lemma touched_le:
  "cn_latches n' = cn_latches n \<Longrightarrow> cn_domain n' = cn_domain n \<Longrightarrow> cn_children n' = cn_children n \<Longrightarrow> snap_key n' = snap_key n \<Longrightarrow>
   cn_version n < cn_version n' \<Longrightarrow> node_le n n'"
  by (simp add: node_le_def ownerCommonLegCaptured_def node_phase_def declared_def)

lemma put_node_evolves: "st_nodes s (snap_key n') = Some n \<Longrightarrow> node_le n n' \<Longrightarrow> evolves s (put_node n' s)"
  by (auto simp: evolves_def)

lemma put_node_ok: "store_ok N s \<Longrightarrow> node_ok N n \<Longrightarrow> store_ok N (put_node n s)"
  by (auto simp: store_ok_def)

lemma perform_evolves:
  assumes "perform w s = (x, s')" and "lawful N K w" and "holds s K" and "store_ok N s"
  shows "evolves s s' \<and> store_ok N s'"
proof (cases w)
  case (PatchStatus m)
  from perform_PatchStatus_D [OF assms(1) [unfolded PatchStatus] assms(2) [unfolded PatchStatus] assms(3,4)] assms(4)
  show ?thesis by (auto intro: put_node_evolves put_node_ok)
next
  case (PatchOwners m refs)
  show ?thesis
  proof (cases "st_nodes s (snap_key m)")
    case (Some n)
    let ?n = "n\<lparr>cn_owner_refs := refs, cn_version := Suc (cn_version n)\<rparr>"
    have k: "snap_key n = snap_key m" "node_ok N n" using store_okD [OF assms(4) Some] by auto
    have "node_ok N ?n" using k(2) by (simp add: node_ok_def snap_key_def)
    moreover have "snap_key ?n = snap_key m" using k(1) by (simp add: snap_key_def)
    moreover have "node_le n ?n" by (rule touched_le) (simp_all add: snap_key_def)
    ultimately show ?thesis using assms(1,4) Some unfolding PatchOwners
      by (auto intro: put_node_evolves put_node_ok)
  qed (use assms in \<open>auto simp: PatchOwners\<close>)
next
  case (CreateNode m)
  have "node_ok N (created_node s m)" using assms(4)
    by (simp add: node_ok_def created_node_def store_ok_def snap_key_def blank_domain_def)
  moreover have "snap_key (created_node s m) = snap_key m" by (simp add: created_node_def snap_key_def)
  ultimately show ?thesis using assms(1,4) unfolding CreateNode
    by (auto simp: evolves_def intro: put_node_ok split: if_splits)
qed (use assms(1,4) in \<open>auto simp: evolves_def store_ok_def split: if_splits option.splits\<close>)

lemma perform_learned:
  assumes "perform w s = (x, s')" and "lawful N K w" and "holds s K" and "store_ok N s"
  shows "holds s' (learned K w x)"
proof -
  have h: "holds s' K" using holds_evolves [OF assms(3)] perform_evolves [OF assms] by blast
  show ?thesis
  proof (cases "\<exists>m. w = PatchStatus m \<and> x = None")
    case True
    then obtain m where m: "w = PatchStatus m" "x = None" by blast
    from perform_PatchStatus_D [OF assms(1) [unfolded m(1)] assms(2) [unfolded m(1)] assms(3,4)] m(2)
    obtain n where "basis K m = {n}" "s' = put_node (patched m n) s" by auto
    then show ?thesis using h m by (auto simp: holds_def)
  next
    case False
    then have "learned K w x = K" by (cases "(K, w, x)" rule: learned.cases) auto
    then show ?thesis using h by simp
  qed
qed

lemma history_push: "history_ok N (s # H) \<Longrightarrow> store_ok N s' \<Longrightarrow> evolves s s' \<Longrightarrow> history_ok N (s' # s # H)"
  by (auto simp: history_ok_def intro: evolves_trans)

lemma others_ok:
  assumes "others s s'" and "store_ok N s"
  shows "evolves s s' \<and> store_ok N s'"
  using assms
proof (cases rule: others.cases)
  case (updated n refs cs b)
  let ?n = "n\<lparr>cn_bound := b, cn_conditions := cs, cn_owner_refs := refs, cn_version := Suc (cn_version n)\<rparr>"
  have k: "snap_key ?n = snap_key n" by (simp add: snap_key_def)
  have "node_ok N n" using updated assms(2) store_okD by blast
  then have "node_ok N ?n" by (simp add: node_ok_def snap_key_def)
  moreover have "node_le n ?n" by (rule touched_le) (simp_all add: snap_key_def)
  ultimately show ?thesis using updated assms(2) k
    by (auto intro!: put_node_evolves [of s ?n n] put_node_ok)
qed (auto simp: evolves_def store_ok_def)

lemma stale_read:
  assumes "history_ok N H" and "s \<in> set H" and "st_nodes s k = Some n" and "holds (hd H) K"
  shows "snap_key n = k \<and> node_ok N n \<and> holds (hd H) (insert n K)"
proof -
  have ok: "store_ok N s" "evolves s (hd H)" using assms(1,2) unfolding history_ok_def by blast+
  then obtain n' where "st_nodes (hd H) k = Some n'" "node_le n n'" using assms(3) unfolding evolves_def by blast
  then show ?thesis using store_okD [OF ok(1) assms(3)] assms(4) by (auto intro: holds_insert)
qed

lemma live_read:
  assumes "st_nodes s k = Some n" and "holds s K" and "m \<in> K" and "snap_key m = k"
  shows "node_le m n"
proof -
  from assms(2,3) obtain n' where "st_nodes s (snap_key m) = Some n'" "node_le m n'" unfolding holds_def by blast
  then show ?thesis using assms(1,4) by simp
qed

text \<open>One call of a program that conforms keeps what the program knows.\<close>

lemma advance_conforms:
  assumes "advance (ru_answers ru) (p, H) (p', H')" and "conforms ru Q K p" and "holds (hd H) K" and "history_ok (ru_naming ru) H"
  shows "history_ok (ru_naming ru) H' \<and> evolves (hd H) (hd H') \<and> (\<exists>K'. K \<subseteq> K' \<and> conforms ru Q K' p' \<and> holds (hd H') K')"
  using assms(1)
proof (cases rule: advance.cases)
  case (live k f s rest)
  show ?thesis
  proof (cases "st_nodes s k")
    case (Some n)
    have h: "s \<in> set H" "hd H = s" using live by simp_all
    note r = stale_read [OF assms(4) h(1) Some assms(3)]
    have "\<forall>m\<in>K. snap_key m = k \<longrightarrow> node_le m n"
      using live_read [OF Some assms(3) [unfolded h(2)]] by blast
    then show ?thesis using assms(2,4) r live Some by (intro conjI exI [of _ "insert n K"]) auto
  qed (use assms live in \<open>auto intro: exI [of _ K]\<close>)
next
  case (cached s k f)
  show ?thesis
  proof (cases "st_nodes s k")
    case (Some n)
    have h: "s \<in> set H" using cached by simp
    note r = stale_read [OF assms(4) h Some assms(3)]
    then show ?thesis using assms(2,4) cached Some by (intro conjI exI [of _ "insert n K"]) auto
  qed (use assms cached in \<open>auto intro: exI [of _ K]\<close>)
next
  case (served w s x s' f rest)
  have s: "holds s K" "store_ok (ru_naming ru) s" "lawful (ru_naming ru) K w"
    using assms served by (auto simp: history_ok_def)
  have pf: "perform w s = (x, s')" using served by simp
  from perform_evolves [OF pf s(3,1,2)] have ev: "evolves s s'" "store_ok (ru_naming ru) s'" by auto
  have "history_ok (ru_naming ru) (s' # s # rest)" using assms(4) served ev by (auto intro!: history_push)
  moreover have "conforms ru Q (learned K w x) (f x)" using assms(2) served by simp
  ultimately show ?thesis using served ev perform_learned [OF pf s(3,1,2)] learned_grows [of K w x] by auto
next
  case (answer_lost w s s' x f rest)
  have s: "holds s K" "store_ok (ru_naming ru) s" "lawful (ru_naming ru) K w"
    using assms answer_lost by (auto simp: history_ok_def)
  have "learned K w (Some x) = K" by (cases w) simp_all
  moreover have "\<forall>x. conforms ru Q (learned K w x) (f x)" using assms(2) answer_lost by simp
  then have "conforms ru Q (learned K w (Some x)) (f (Some x))" ..
  moreover have pf: "perform w s = (None, s')" using answer_lost by simp
  from perform_evolves [OF pf s(3,1,2)] have ev: "evolves s s'" "store_ok (ru_naming ru) s'" by auto
  have "history_ok (ru_naming ru) (s' # s # rest)" using assms(4) answer_lost ev by (auto intro!: history_push)
  moreover have "holds s' K" by (rule holds_evolves [OF s(1) ev(1)])
  ultimately show ?thesis using ev answer_lost by auto
next
  case (refused x w f)
  have "learned K w (Some x) = K" by (cases w) simp_all
  moreover have "\<forall>x. conforms ru Q (learned K w x) (f x)" using assms(2) refused by simp
  then have "conforms ru Q (learned K w (Some x)) (f (Some x))" ..
  ultimately show ?thesis using assms(3,4) refused by auto
qed (use assms in \<open>auto intro: exI [of _ K]\<close>)

end
