(* ===== verification/Protocol_Conformance.thy ===== *)
theory Protocol_Conformance
  imports Protocol_Guarantees
begin

text \<open>
  The rules of the capture protocol and the two kinds of program that obey them: the pass of the content
  controller over any content, and the pass of a domain controller that reads its snapshot and then makes SDK
  calls, each chosen after the result of the previous one.
\<close>

section \<open>Domain controllers\<close>

datatype sdk_call =
    CallChildren "capture_node list" "excluded_ref list"
  | CallVolume "capture_target option"
  | CallManifest "manifest_target list"
  | CallSource subject_ref
  | CallPhase string string string

fun sdk_exec :: "sdk \<Rightarrow> nat \<Rightarrow> sdk_call \<Rightarrow> capture_node \<Rightarrow> proto_err option op" where
  "sdk_exec sd fuel (CallChildren desired excluded) t = EnsureChildren sd desired excluded t"
| "sdk_exec sd fuel (CallVolume dataRef) t = EnsureVolumeCapture sd fuel dataRef t"
| "sdk_exec sd fuel (CallManifest targets) t = EnsureManifestCapture sd targets t"
| "sdk_exec sd fuel (CallSource src) t = PublishSnapshotSource src t"
| "sdk_exec sd fuel (CallPhase phase reason message) t = DomainCaptureStatus_Apply phase reason message t"

datatype script = Stop | Make sdk_call "proto_err option \<Rightarrow> capture_node \<Rightarrow> script"

primrec follow :: "sdk \<Rightarrow> nat \<Rightarrow> script \<Rightarrow> capture_node \<Rightarrow> unit prog" where
  "follow sd fuel Stop = (\<lambda>t. Return ())"
| "follow sd fuel (Make call cont) =
     (\<lambda>t. and_then (sdk_exec sd fuel call t) (\<lambda>r. ((\<circ>) ((\<circ>) (follow sd fuel)) cont) (fst r) (snd r) (snd r)))"

definition domain_pass :: "sdk \<Rightarrow> nat \<Rightarrow> snap_key \<Rightarrow> (capture_node \<Rightarrow> script) \<Rightarrow> unit prog" where
  "domain_pass sd fuel k strategy = Node False k (\<lambda>r. case r of
     Found t \<Rightarrow> follow sd fuel (strategy t) t | _ \<Rightarrow> Return ())"

text \<open>The programs of a cluster: any content, and the snapshots \<open>W\<close> that domain controllers drive.\<close>

definition capture_programs :: "legs \<Rightarrow> sdk \<Rightarrow> snap_key set \<Rightarrow> unit prog \<Rightarrow> bool" where
  "capture_programs lg sd W p \<longleftrightarrow> (\<exists>c. p = quiet (reconcileOwnerCaptureLegs lg c)) \<or>
     (\<exists>fuel. \<exists>k\<in>W. \<exists>strategy. p = domain_pass sd fuel k strategy)"

section \<open>The rules\<close>

definition manifest_evidence :: "env set \<Rightarrow> capture_node \<Rightarrow> bool" where
  "manifest_evidence E n \<longleftrightarrow> mcr_name n \<noteq> '''' \<and>
     (\<exists>e\<in>E. \<exists>contentName. ManifestCaptureRequestSafeToDelete e (cn_namespace n) (mcr_name n) contentName = Inr True)"

definition data_evidence :: "env set \<Rightarrow> capture_node \<Rightarrow> bool" where
  "data_evidence E n \<longleftrightarrow> (\<exists>e\<in>E. \<exists>contentName. contentHasPublishedData e contentName = Inr True) \<or>
     vcr_name n \<noteq> '''' \<and> (\<exists>contentName.
       (\<exists>e\<in>E. observeOwnerDataLegVCR e (cn_namespace n) (vcr_name n) contentName = Inr True) \<and>
       (\<exists>e\<in>E. VolumeCaptureRequestSafeToDeleteWithHandoff e (cn_namespace n) (vcr_name n) contentName = Inr True))"

definition child_key :: "env \<Rightarrow> capture_node \<Rightarrow> snapshot_child_ref \<Rightarrow> snap_key" where
  "child_key e n ref = (gvk_of e (cr_apiVersion ref) (cr_kind ref), cn_namespace n, cr_name ref)"

definition planned_evidence :: "env \<Rightarrow> (snap_key \<Rightarrow> bool) \<Rightarrow> capture_node \<Rightarrow> bool" where
  "planned_evidence e known n \<longleftrightarrow> childrenSetFrozen (node_phase n) \<and> (\<forall>ref\<in>set (declared n). known (child_key e n ref))"

definition knows_planned :: "capture_node set \<Rightarrow> snap_key \<Rightarrow> bool" where
  "knows_planned K k \<longleftrightarrow> (\<exists>c\<in>K. snap_key c = k \<and> latched c ''subtreePlanned'')"

definition fresh_latch :: "string \<Rightarrow> capture_node \<Rightarrow> capture_node \<Rightarrow> bool" where
  "fresh_latch leg n m \<longleftrightarrow> latched m leg \<and> \<not> latched n leg"

text \<open>
  A latch is set on evidence, a request is deleted when its leg is latched, and the request of the watched
  snapshot is created only where no read has shown the leg latched.
\<close>

fun permit :: "env set \<Rightarrow> naming \<Rightarrow> env \<Rightarrow> snap_key option \<Rightarrow> capture_node set \<Rightarrow> api_write \<Rightarrow> bool" where
  "permit E N e watched K (PatchStatus m) = (\<exists>n\<in>basis K m.
     (fresh_latch ''manifestCaptured'' n m \<longrightarrow> manifest_evidence E m) \<and>
     (fresh_latch ''dataCaptured'' n m \<longrightarrow> data_evidence E m) \<and>
     (fresh_latch ''subtreePlanned'' n m \<longrightarrow> planned_evidence e (knows_planned K) m))"
| "permit E N e watched K (DeleteRequest ns r) = (\<exists>m\<in>K. latched m ''manifestCaptured'' \<and> cn_namespace m = ns \<and> mcr_name m = r \<and> r \<noteq> '''')"
| "permit E N e watched K (DeleteVolume ns r) = (\<exists>m\<in>K. latched m ''dataCaptured'' \<and> cn_namespace m = ns \<and> vcr_name m = r \<and> r \<noteq> '''')"
| "permit E N e watched K (CreateRequest ns r q) = (\<forall>m\<in>K. watched = Some (snap_key m) \<and> cn_namespace m = ns \<and>
     request_name N (snap_key m) = r \<longrightarrow> \<not> latched m ''manifestCaptured'')"
| "permit E N e watched K _ = True"

definition capture_rules :: "env set \<Rightarrow> naming \<Rightarrow> env \<Rightarrow> snap_key option \<Rightarrow> rules" where
  "capture_rules E N e watched = \<lparr>ru_answers = E, ru_naming = N, ru_permit = permit E N e watched\<rparr>"

lemma capture_rules_simps [simp]:
  "ru_answers (capture_rules E N e watched) = E" "ru_naming (capture_rules E N e watched) = N"
  "ru_permit (capture_rules E N e watched) = permit E N e watched"
  by (simp_all add: capture_rules_def)

section \<open>The SDK\<close>

definition moves :: "naming \<Rightarrow> capture_node \<Rightarrow> capture_node \<Rightarrow> bool" where
  "moves N t m \<longleftrightarrow> snap_key m = snap_key t \<and> cn_version m = cn_version t \<and> cn_latches m = cn_latches t \<and>
     node_le t (patched m t) \<and> node_ok N (patched m t) \<and> node_ok N m"

lemma map_filter_Some [simp]: "List.map_filter id (map Some xs) = xs"
  by (induction xs) (simp_all add: List.map_filter_simps)

lemma declared_set [simp]: "declared (SetDomainCaptureState st t) = ChildrenSnapshotRefs_of st"
  by (simp add: declared_def SetDomainCaptureState_def)

lemma domain_state_simps [simp]:
  "ManifestCaptureRequestName_of (GetDomainCaptureState t) = mcr_name t"
  "VolumeCaptureRequestName_of (GetDomainCaptureState t) = vcr_name t"
  "ExcludedRefs_of (GetDomainCaptureState t) = ExcludedRefs_of (cn_domain t)"
  "Phase_of (GetDomainCaptureState t) = node_phase t"
  "ChildrenSnapshotRefs_of (GetDomainCaptureState t) = declared t"
  by (simp_all add: GetDomainCaptureState_def domain_capture.extend_def domain_state.fields_def node_phase_def declared_def)

lemma set_domain_simps [simp]:
  "snap_key (SetDomainCaptureState st t) = snap_key t" "cn_version (SetDomainCaptureState st t) = cn_version t"
  "cn_latches (SetDomainCaptureState st t) = cn_latches t" "cn_uid (SetDomainCaptureState st t) = cn_uid t"
  "mcr_name (SetDomainCaptureState st t) = ManifestCaptureRequestName_of st"
  "vcr_name (SetDomainCaptureState st t) = VolumeCaptureRequestName_of st"
  "ExcludedRefs_of (cn_domain (SetDomainCaptureState st t)) = ExcludedRefs_of st"
  "node_phase (SetDomainCaptureState st t) = Phase_of st"
  by (simp_all add: SetDomainCaptureState_def snap_key_def domain_capture.truncate_def node_phase_def)

lemma patched_simps [simp]:
  "mcr_name (patched m n) = mcr_name m" "vcr_name (patched m n) = vcr_name m" "cn_uid (patched m n) = cn_uid n"
  "ExcludedRefs_of (cn_domain (patched m n)) = ExcludedRefs_of (cn_domain m)" "node_phase (patched m n) = node_phase m"
  "declared (patched m n) = declared m" "latched (patched m n) leg = latched m leg" "cn_version (patched m n) = Suc (cn_version n)"
  "cn_namespace (patched m n) = cn_namespace n" "cn_latches (patched m n) = cn_latches m"
  by (simp_all add: patched_def node_phase_def declared_def ownerCommonLegCaptured_def)

lemma set_domain_moves:
  assumes "node_ok N t" and "ManifestCaptureRequestName_of st \<in> {mcr_name t, request_name N (snap_key t)}"
    and "VolumeCaptureRequestName_of st \<in> {vcr_name t, volume_name N (snap_key t)}"
    and "phaseCanAdvance (node_phase t) (Phase_of st)"
    and "childrenSetFrozen (node_phase t) \<longrightarrow> ChildrenSnapshotRefs_of st = declared t \<and> ExcludedRefs_of st = ExcludedRefs_of (cn_domain t)"
  shows "moves N t (SetDomainCaptureState st t)"
  using assms unfolding moves_def node_le_def node_ok_def
  by (auto simp: ownerCommonLegCaptured_def)

lemma name_request_moves: "node_ok N t \<Longrightarrow> name_request (request_name N (snap_key t)) t = Some m \<Longrightarrow> moves N t m"
  by (auto simp: name_request_def Let_def split: if_splits intro!: set_domain_moves)

lemma name_volume_moves: "node_ok N t \<Longrightarrow> name_volume (volume_name N (snap_key t)) t = Some m \<Longrightarrow> moves N t m"
  by (auto simp: name_volume_def Let_def split: if_splits intro!: set_domain_moves)

lemma publish_children_moves: "node_ok N t \<Longrightarrow> publish_children refs excluded t = Some m \<Longrightarrow> moves N t m"
  by (auto simp: publish_children_def Let_def split: if_splits intro!: set_domain_moves)

lemma advance_phase_moves: "node_ok N t \<Longrightarrow> advance_phase p r msg t = Some m \<Longrightarrow> moves N t m"
  by (auto simp: advance_phase_def phase_settled_def Let_def split: if_splits intro!: set_domain_moves)

lemma publish_source_moves: "node_ok N t \<Longrightarrow> publish_source src t = Some m \<Longrightarrow> moves N t m"
  by (auto simp: publish_source_def moves_def node_ok_def node_le_def snap_key_def node_phase_def declared_def
      ownerCommonLegCaptured_def patched_def split: if_splits)

lemma moves_permitted:
  assumes "moves N t m" and "t \<in> K"
  shows "lawful N K (PatchStatus m) \<and> permit E N e watched K (PatchStatus m)"
proof -
  have "t \<in> basis K m" using assms by (simp add: basis_def moves_def)
  then show ?thesis using assms(1) by (auto simp: moves_def fresh_latch_def ownerCommonLegCaptured_def)
qed

abbreviation at_node :: "naming \<Rightarrow> snap_key \<Rightarrow> capture_node set \<Rightarrow> 'a \<times> capture_node \<Rightarrow> bool" where
  "at_node N k \<equiv> (\<lambda>K r. snap_key (snd r) = k \<and> node_ok N (snd r))"

text \<open>The mutation of a status patch moves up from every snapshot it is applied to.\<close>

definition mutation_ok :: "naming \<Rightarrow> snap_key \<Rightarrow> (capture_node \<Rightarrow> capture_node option) \<Rightarrow> bool" where
  "mutation_ok N k mutate \<longleftrightarrow> (\<forall>t m. snap_key t = k \<longrightarrow> node_ok N t \<longrightarrow> mutate t = Some m \<longrightarrow> moves N t m)"

lemma mutation_name_request [intro]: "r = request_name N k \<Longrightarrow> mutation_ok N k (name_request r)"
  unfolding mutation_ok_def using name_request_moves by blast

lemma mutation_name_volume [intro]: "r = volume_name N k \<Longrightarrow> mutation_ok N k (name_volume r)"
  unfolding mutation_ok_def using name_volume_moves by blast

lemma mutation_rest [intro, simp]:
  "mutation_ok N k (publish_children refs excluded)" "mutation_ok N k (advance_phase p reason msg)" "mutation_ok N k (publish_source src)"
  unfolding mutation_ok_def by (simp_all add: publish_children_moves advance_phase_moves publish_source_moves)


lemma conforms_attempt:
  assumes "mutation_ok N k mutate" and "snap_key t = k" and "node_ok N t" and "t \<in> K"
    and "\<And>m K'. K \<subseteq> K' \<Longrightarrow> snap_key m = k \<Longrightarrow> node_ok N m \<Longrightarrow> conforms (capture_rules E N e watched) (at_node N k) K' (again m)"
  shows "conforms (capture_rules E N e watched) (at_node N k) K (attempt again mutate t)"
proof (cases "mutate t")
  case (Some m)
  then have mv: "moves N t m" using assms(1-3) by (simp add: mutation_ok_def)
  have m: "snap_key m = k" "node_ok N m" using mv assms(2) by (simp_all add: moves_def)
  have m': "snap_key (m\<lparr>cn_version := v\<rparr>) = k" "node_ok N (m\<lparr>cn_version := v\<rparr>)" for v
    using m by (simp_all add: snap_key_def node_ok_def)
  show ?thesis using moves_permitted [OF mv assms(4)] assms(5) [OF _ m] m m' Some
    by (auto simp: attempt_def split: option.splits)
qed (use assms in \<open>simp add: attempt_def\<close>)

lemma conforms_status:
  assumes "mutation_ok N k mutate"
  shows "snap_key t = k \<Longrightarrow> node_ok N t \<Longrightarrow> conforms (capture_rules E N e watched) (at_node N k) K (status_attempts j mutate t)"
proof (induction j arbitrary: t K)
  case (Suc j)
  have "conforms (capture_rules E N e watched) (at_node N k) (insert n K) (attempt (status_attempts j mutate) mutate n)"
    if "snap_key n = k" "node_ok N n" for n
    by (rule conforms_attempt [OF assms that]) (simp_all add: Suc.IH)
  then show ?case using Suc.prems by simp
qed simp

lemma conforms_from_current:
  "mutation_ok N k mutate \<Longrightarrow> snap_key t = k \<Longrightarrow> node_ok N t \<Longrightarrow> t \<in> K \<Longrightarrow>
   conforms (capture_rules E N e watched) (at_node N k) K (StatusFromCurrent mutate t)"
  unfolding StatusFromCurrent_def by (rule conforms_attempt) (auto intro: conforms_status)

lemma conforms_patch:
  "mutation_ok N k mutate \<Longrightarrow> snap_key t = k \<Longrightarrow> node_ok N t \<Longrightarrow>
   conforms (capture_rules E N e watched) (at_node N k) K (patch_Status mutate t)"
  unfolding patch_Status_def by (rule conforms_status)

lemma conforms_refresh:
  assumes "snap_key t = k" and "node_ok N t"
    and "\<And>n. snap_key n = k \<Longrightarrow> node_ok N n \<Longrightarrow> \<forall>m\<in>K. snap_key m = k \<longrightarrow> node_le m n \<Longrightarrow>
       conforms (capture_rules E N e watched) (at_node N k) (insert n K) (f n)"
  shows "conforms (capture_rules E N e watched) (at_node N k) K (sdk_refresh t gone failed f)"
  using assms by (auto simp: sdk_refresh_def)

lemma conforms_adopt:
  assumes "snap_key t = k" and "node_ok N t" and "refreshed \<longrightarrow> t \<in> K" and "r = request_name N k"
  shows "conforms (capture_rules E N e watched) (at_node N k) K (adopt_request r refreshed existing targets t)"
proof -
  have patch: "conforms (capture_rules E N e watched) (at_node N k) K
      (if refreshed then StatusFromCurrent (name_request r) t else patch_Status (name_request r) t)"
    using assms by (auto intro: conforms_from_current conforms_patch)
  show ?thesis
  proof (cases "mcr_name t = r")
    case False
    then show ?thesis unfolding adopt_request_def Let_def domain_state_simps
      by (simp only: if_False) (rule conforms_and_then [OF patch], auto split: option.splits prod.splits)
  qed (use assms(1,2) in \<open>auto simp: adopt_request_def Let_def split: option.splits\<close>)
qed

text \<open>No other snapshot that is driven in the namespace has the request name of the watched one.\<close>

definition unrivalled :: "naming \<Rightarrow> snap_key option \<Rightarrow> snap_key \<Rightarrow> bool" where
  "unrivalled N watched k \<longleftrightarrow> (\<forall>w. watched = Some w \<longrightarrow> k = w \<or> fst (snd k) \<noteq> fst (snd w) \<or> request_name N k \<noteq> request_name N w)"

lemma key_namespace: "fst (snd (snap_key n)) = cn_namespace n"
  by (simp add: snap_key_def)

lemma conforms_manifest:
  assumes "snap_key t = k" and "node_ok N t" and "sd_digest sd = snd N" and "unrivalled N watched k"
  shows "conforms (capture_rules E N e watched) (at_node N k) K (EnsureManifestCapture sd targets t)"
proof -
  let ?ru = "capture_rules E N e watched"
  have r: "ManifestCaptureRequestName (sd_digest sd) (cn_uid t) = request_name N k"
    using assms(1-3) by (simp add: request_name_def node_ok_def)
  have create: "permit E N e watched (insert n K) (CreateRequest (cn_namespace n) (request_name N k) q)"
    if n: "snap_key n = k" "\<not> latched n ''manifestCaptured''" and le: "\<forall>m\<in>K. snap_key m = k \<longrightarrow> node_le m n" for n q
  proof -
    have "\<not> latched m ''manifestCaptured''" if m: "m \<in> insert n K" "watched = Some (snap_key m)" "cn_namespace m = cn_namespace n"
      "request_name N (snap_key m) = request_name N k" for m
    proof -
      have "k = snap_key m" using assms(4) m n(1) key_namespace unfolding unrivalled_def by metis
      then show ?thesis using m(1) n(2) le node_le_latched by auto
    qed
    then show ?thesis by auto
  qed
  have nc: "\<not> manifestCaptured (CoreCaptureState n) \<longleftrightarrow> \<not> latched n ''manifestCaptured''" for n
    by (simp add: manifestCaptured_def CoreCaptureState_def ownerCommonLegCaptured_def)
  have go: "conforms ?ru (at_node N k) (insert n K) (if manifestCaptured (CoreCaptureState n) then Return (None, n)
      else case sdk_ownerRef sd n of Inl x \<Rightarrow> Return (Some x, n)
      | Inr owner \<Rightarrow> Write (CreateRequest (cn_namespace n) (request_name N k) \<lparr>mq_owner_refs = [owner], mq_targets = request_targets targets\<rparr>)
          (\<lambda>x. if x \<noteq> None \<and> x \<noteq> Some AlreadyExists then Return (Some (ApiFault (the x)), n)
               else adopt_request (request_name N k) True None targets n))"
    if n: "snap_key n = k" "node_ok N n" and le: "\<forall>m\<in>K. snap_key m = k \<longrightarrow> node_le m n" for n
  proof (cases "manifestCaptured (CoreCaptureState n)")
    case False
    then have "\<not> latched n ''manifestCaptured''" using nc by blast
    note c = create [OF n(1) this le]
    have "conforms ?ru (at_node N k) (insert n K) (adopt_request (request_name N k) True None targets n)"
      by (rule conforms_adopt [OF n]) simp_all
    then show ?thesis using False n c by (simp split: sum.split)
  qed (use n in simp)
  have adopt: "conforms ?ru (at_node N k) K (adopt_request (request_name N k) False (Some q) targets t)" for q
    by (rule conforms_adopt [OF assms(1,2)]) simp_all
  have refresh: "conforms ?ru (at_node N k) K (sdk_refresh t None Some (\<lambda>t. if manifestCaptured (CoreCaptureState t) then Return (None, t)
      else case sdk_ownerRef sd t of Inl x \<Rightarrow> Return (Some x, t)
      | Inr owner \<Rightarrow> Write (CreateRequest (cn_namespace t) (request_name N k) \<lparr>mq_owner_refs = [owner], mq_targets = request_targets targets\<rparr>)
          (\<lambda>x. if x \<noteq> None \<and> x \<noteq> Some AlreadyExists then Return (Some (ApiFault (the x)), t)
               else adopt_request (request_name N k) True None targets t)))"
    by (rule conforms_refresh [OF assms(1,2) go])
  show ?thesis
    unfolding EnsureManifestCapture_def Let_def r
    using assms(1,2) adopt refresh by (simp split: get_res.split)
qed

lemma conforms_free:
  "conforms ru Q K p \<Longrightarrow> snap_key t = k \<Longrightarrow> node_ok N t \<Longrightarrow>
   (\<And>x K'. K \<subseteq> K' \<Longrightarrow> conforms ru (at_node N k) K' (g x)) \<Longrightarrow> conforms ru (at_node N k) K (and_then p g)"
  by (rule conforms_and_then)

lemma conforms_ensure_volume:
  "conforms (capture_rules E N e watched) (\<lambda>_ _. True) K (EnsureVCR fuel ns r owner dataRef)"
proof (induction fuel arbitrary: K)
  case (Suc fuel)
  then show ?case by (auto simp: check_volume_def Let_def split: get_res.splits option.splits)
qed simp

lemma conforms_publish_volume:
  assumes "snap_key t = k" and "node_ok N t" and "refreshed \<longrightarrow> t \<in> K" and "r = volume_name N k"
  shows "conforms (capture_rules E N e watched) (at_node N k) K (publish_volume sd fuel dataRef r refreshed t)"
  using assms
  by (auto simp: publish_volume_def split: sum.splits
      intro!: conforms_free [OF conforms_ensure_volume] conforms_from_current conforms_patch)

lemma conforms_volume:
  assumes "snap_key t = k" and "node_ok N t" and "sd_digest sd = snd N"
  shows "conforms (capture_rules E N e watched) (at_node N k) K (EnsureVolumeCapture sd fuel dataRef t)"
proof -
  have r: "VolumeCaptureRequestName (sd_digest sd) (cn_uid t) = volume_name N k"
    using assms by (simp add: volume_name_def node_ok_def)
  have probe: "conforms (capture_rules E N e watched) (\<lambda>_ _. True) K (OwnedPVCTarget ns n)" for ns n
    by (auto simp: OwnedPVCTarget_def split: get_res.splits sum.splits)
  show ?thesis using assms(1,2)
    by (auto simp: EnsureVolumeCapture_def Let_def r split: option.splits sum.splits
        intro!: conforms_free [OF probe] conforms_publish_volume conforms_refresh)
qed

lemma conforms_ensureChild: "conforms (capture_rules E N e watched) (\<lambda>_ _. True) K (ensureChild owner d)"
  by (auto simp: ensureChild_def split: get_res.splits sum.splits)

lemma conforms_children: "conforms (capture_rules E N e watched) (\<lambda>_ _. True) K (reconcile_children sd owner ds)"
proof (induction ds arbitrary: K)
  case (Cons d ds)
  then show ?case
    by (auto split: option.splits intro!: conforms_and_then [OF conforms_ensureChild] conforms_and_then [OF Cons.IH])
qed simp

lemma conforms_EnsureChildren:
  assumes "snap_key t = k" and "node_ok N t"
  shows "conforms (capture_rules E N e watched) (at_node N k) K (EnsureChildren sd desired excluded t)"
proof -
  have rec: "conforms (capture_rules E N e watched) (\<lambda>_ _. True) K (children_Reconcile sd owner desired)" for owner K
    unfolding children_Reconcile_def by (rule conforms_and_then [OF conforms_children]) simp
  have go: "conforms (capture_rules E N e watched) (at_node N k) (insert n K) (if plan_grows refs ex n then Return (Some ChildrenSetFrozen, n)
      else case sdk_ownerRef sd n of Inl x \<Rightarrow> Return (Some x, n)
      | Inr owner \<Rightarrow> and_then (children_Reconcile sd owner desired) (\<lambda>r. case r of Inl x \<Rightarrow> Return (Some x, n)
          | Inr newRefs \<Rightarrow> StatusFromCurrent (publish_children newRefs ex) n))"
    if n: "snap_key n = k" "node_ok N n" for n refs ex
  proof -
    have "conforms (capture_rules E N e watched) (at_node N k) K' (StatusFromCurrent (publish_children newRefs ex) n)"
      if "insert n K \<subseteq> K'" for K' newRefs using that by (intro conforms_from_current n) auto
    then show ?thesis using n by (auto split: sum.split intro!: conforms_free [OF rec])
  qed
  show ?thesis unfolding EnsureChildren_def Let_def
    using conforms_refresh [OF assms go] assms by (simp split: sum.split)
qed

lemma conforms_phase:
  "snap_key t = k \<Longrightarrow> node_ok N t \<Longrightarrow> conforms (capture_rules E N e watched) (at_node N k) K (setPhase p r m t)"
  by (auto simp: setPhase_def intro!: conforms_patch)

lemma conforms_exec:
  assumes "snap_key t = k" and "node_ok N t" and "sd_digest sd = snd N" and "unrivalled N watched k"
  shows "conforms (capture_rules E N e watched) (at_node N k) K (sdk_exec sd fuel call t)"
  using assms
  by (cases call)
    (auto simp: DomainCaptureStatus_Apply_def PublishSnapshotSource_def
      intro!: conforms_manifest conforms_volume conforms_EnsureChildren conforms_phase conforms_patch)

lemma conforms_follow:
  assumes "sd_digest sd = snd N" and "unrivalled N watched k"
  shows "snap_key t = k \<Longrightarrow> node_ok N t \<Longrightarrow> conforms (capture_rules E N e watched) (\<lambda>_ _. True) K (follow sd fuel sc t)"
proof (induction sc arbitrary: t K)
  case (Make call cont)
  have "conforms (capture_rules E N e watched) (\<lambda>_ _. True) K' (follow sd fuel (cont x t') t')"
    if "snap_key t' = k" "node_ok N t'" for K' x t'
    using Make.IH [OF rangeI rangeI that] .
  then show ?case using conforms_exec [OF Make.prems assms]
    by (auto intro!: conforms_and_then [where P = "at_node N k"])
qed simp

lemma conforms_domain_pass:
  "sd_digest sd = snd N \<Longrightarrow> unrivalled N watched k \<Longrightarrow>
   conforms (capture_rules E N e watched) (\<lambda>_ _. True) K (domain_pass sd fuel k strategy)"
  by (simp add: domain_pass_def conforms_follow)

end
