(* ===== verification/Protocol_Runs.thy ===== *)
theory Protocol_Runs
  imports Protocol_Conformance
begin

text \<open>
  The pass of the content controller conforms as well. \<open>protocol\<close> is the contract of an invariant of the store:
  whoever shows that the permitted writes and the other writers keep it gets it for every interleaving.
\<close>

section \<open>The content controller\<close>

lemma set_latch_simps [simp]:
  "snap_key (set_latch leg v n) = snap_key n" "cn_version (set_latch leg v n) = cn_version n" "cn_domain (set_latch leg v n) = cn_domain n"
  "cn_namespace (set_latch leg v n) = cn_namespace n" "declared (set_latch leg v n) = declared n"
  "node_phase (set_latch leg v n) = node_phase n" "cn_uid (set_latch leg v n) = cn_uid n"
  "cn_latches (set_latch leg v n) = (cn_latches n)(leg \<mapsto> v)"
  by (simp_all add: set_latch_def snap_key_def declared_def node_phase_def)

lemma latched_set_latch [simp]: "latched (set_latch leg v n) leg' \<longleftrightarrow> (if leg' = leg then v else latched n leg')"
  by (simp add: ownerCommonLegCaptured_def)

text \<open>A change of the latches that clears none.\<close>

definition latching :: "capture_node \<Rightarrow> capture_node \<Rightarrow> bool" where
  "latching n m \<longleftrightarrow> (\<exists>f. m = n\<lparr>cn_latches := f\<rparr> \<and> (\<forall>leg. latched n leg \<longrightarrow> f leg = Some True))"

lemma latching_set: "v \<or> \<not> latched n leg \<Longrightarrow> latching n (set_latch leg v n)"
  unfolding latching_def set_latch_def by (intro exI conjI) (auto simp: ownerCommonLegCaptured_def)

lemma latching_refl [simp]: "latching n n"
  unfolding latching_def by (intro exI [of _ "cn_latches n"]) (simp add: ownerCommonLegCaptured_def)

lemma latching_trans: "latching n m \<Longrightarrow> latching m m' \<Longrightarrow> latching n m'"
  unfolding latching_def by (elim exE conjE) (auto simp: ownerCommonLegCaptured_def)

lemma latching_le:
  assumes "latching n m" and "node_ok N n"
  shows "snap_key m = snap_key n \<and> cn_version m = cn_version n \<and> node_le n (patched m n) \<and> node_ok N (patched m n)"
proof -
  obtain f where f: "m = n\<lparr>cn_latches := f\<rparr>" "\<forall>leg. latched n leg \<longrightarrow> f leg = Some True" using assms(1) unfolding latching_def by blast
  have "declared m = declared n" "node_phase m = node_phase n" "snap_key m = snap_key n" "cn_version m = cn_version n"
    "cn_domain m = cn_domain n" "\<And>leg. latched n leg \<Longrightarrow> latched m leg"
    using f by (simp_all add: declared_def node_phase_def snap_key_def ownerCommonLegCaptured_def)
  then show ?thesis using assms(2) by (simp add: node_le_def node_ok_def)
qed

lemma conforms_latch:
  assumes "owner \<in> K" and "snap_key owner = k"
    and change: "\<And>fresh m. node_le owner fresh \<Longrightarrow> change fresh = Some m \<Longrightarrow> latching fresh m \<and> good (patched m fresh)"
    and none: "\<And>fresh. node_le owner fresh \<Longrightarrow> change fresh = None \<Longrightarrow> good fresh"
    and permitted: "\<And>K' fresh m. K \<subseteq> K' \<Longrightarrow> fresh \<in> basis K' m \<Longrightarrow> node_le owner fresh \<Longrightarrow> change fresh = Some m \<Longrightarrow>
      permit E N e watched K' (PatchStatus m)"
  shows "conforms (capture_rules E N e watched) (\<lambda>K' r. r = Inr () \<longrightarrow> (\<exists>n\<in>K'. node_le owner n \<and> good n)) K (latch_attempts j k change)"
proof -
  have "conforms (capture_rules E N e watched) (\<lambda>K' r. r = Inr () \<longrightarrow> (\<exists>n\<in>K'. node_le owner n \<and> good n)) K' (latch_attempts j k change)"
    if "K \<subseteq> K'" for K' using that
  proof (induction j arbitrary: K')
    case (Suc j)
    have "conforms (capture_rules E N e watched) (\<lambda>K' r. r = Inr () \<longrightarrow> (\<exists>n\<in>K'. node_le owner n \<and> good n)) (insert fresh K')
        (case change fresh of None \<Rightarrow> Return (Inr ())
         | Some m \<Rightarrow> Write (PatchStatus m) (\<lambda>x. case x of None \<Rightarrow> Return (Inr ())
           | Some c \<Rightarrow> if c = conflict then latch_attempts j k change else Return (Inl (ApiFault c))))"
      if f: "snap_key fresh = k" "node_ok N fresh" "\<forall>m\<in>K'. snap_key m = k \<longrightarrow> node_le m fresh" for fresh
    proof -
      have le: "node_le owner fresh" using f(3) assms(1,2) Suc.prems by blast
      show ?thesis
      proof (cases "change fresh")
        case None
        then show ?thesis using le none [OF le] by auto
      next
        case (Some m)
        note c = change [OF le Some]
        note l = latching_le [OF conjunct1 [OF c] f(2)]
        have b: "fresh \<in> basis (insert fresh K') m" using l by (simp add: basis_def)
        have "K \<subseteq> insert fresh K'" using Suc.prems by blast
        from permitted [OF this b le Some] have p: "permit E N e watched (insert fresh K') (PatchStatus m)" .
        have "node_le owner (patched m fresh)" using l le node_le_trans by blast
        then have dn: "\<exists>n\<in>learned (insert fresh K') (PatchStatus m) None. node_le owner n \<and> good n" using b c by auto
        have again: "conforms (capture_rules E N e watched) (\<lambda>K' r. r = Inr () \<longrightarrow> (\<exists>n\<in>K'. node_le owner n \<and> good n)) (insert fresh K')
          (latch_attempts j k change)" using Suc.prems by (intro Suc.IH) blast
        show ?thesis using Some p b l dn again by (auto split: option.split)
      qed
    qed
    then show ?case by (simp add: live_node_def)
  qed simp
  then show ?thesis by blast
qed

abbreviation always :: "capture_node set \<Rightarrow> 'a \<Rightarrow> bool" where
  "always \<equiv> \<lambda>_ _. True"

lemma conforms_observed:
  "conforms (capture_rules E N e watched) (\<lambda>K' r. \<forall>a. r = Inr a \<longrightarrow> (\<exists>e\<in>E. d e = Inr a)) K (observed d)"
  by (auto simp: observed_def map_sum_def split: sum.splits)

lemma conforms_step:
  "conforms ru P K p \<Longrightarrow> (\<And>K' x. K \<subseteq> K' \<Longrightarrow> P K' (Inr x) \<Longrightarrow> conforms ru always K' (g x)) \<Longrightarrow> conforms ru always K (if_ok p g)"
  by (rule conforms_if_ok [where P = P]) auto

lemma permit_latch:
  assumes "fresh \<in> basis K m" and "\<And>leg. leg \<in> {''manifestCaptured'', ''dataCaptured'', ''subtreePlanned''} \<Longrightarrow> fresh_latch leg fresh m \<Longrightarrow>
    (leg = ''manifestCaptured'' \<longrightarrow> manifest_evidence E m) \<and> (leg = ''dataCaptured'' \<longrightarrow> data_evidence E m) \<and>
    (leg = ''subtreePlanned'' \<longrightarrow> planned_evidence e (knows_planned K) m)"
  shows "permit E N e watched K (PatchStatus m)"
  unfolding permit.simps
  by (intro bexI [OF _ assms(1)] conjI impI) (drule assms(2) [rotated], simp, simp)+

lemma conforms_eager:
  assumes "owner \<in> K"
  shows "conforms (capture_rules E N e watched) always K (eagerInitOwnerCaptureLegs lg owner)"
proof -
  have one: "latching n (if cn_latches n leg = None then set_latch leg False n else n) \<and>
      (\<forall>l. latched (if cn_latches n leg = None then set_latch leg False n else n) l = latched n l)" for n leg
    using latching_set [of False n leg] by (cases "cn_latches n leg") (auto simp: ownerCommonLegCaptured_def)
  have d: "latching fresh m \<and> (\<forall>leg. latched m leg \<longleftrightarrow> latched fresh leg)" if "declare_legs b fresh = Some m" for b fresh m
  proof -
    let ?n1 = "if cn_latches fresh ''manifestCaptured'' = None then set_latch ''manifestCaptured'' False fresh else fresh"
    let ?n2 = "if cn_latches ?n1 ''dataCaptured'' = None then set_latch ''dataCaptured'' False ?n1 else ?n1"
    have "m = (if b then ?n2 else ?n1)" using that unfolding declare_legs_def Let_def by (auto split: if_split_asm)
    then show ?thesis using one [where n = fresh and leg = "''manifestCaptured''"] one [where n = ?n1 and leg = "''dataCaptured''"]
        latching_trans [of fresh ?n1 ?n2] by presburger
  qed
  have "conforms (capture_rules E N e watched) (\<lambda>K' r. r = Inr () \<longrightarrow> (\<exists>n\<in>K'. node_le owner n \<and> True)) K
      (latch_attempts 5 (snap_key owner) (declare_legs b))" for b
  proof (rule conforms_latch [OF assms refl])
    show "permit E N e watched K' (PatchStatus m)" if "fresh \<in> basis K' m" "declare_legs b fresh = Some m" for K' fresh m
      by (rule permit_latch [OF that(1)]) (use d [OF that(2)] in \<open>auto simp: fresh_latch_def\<close>)
  qed (simp_all add: d)

  then show ?thesis unfolding eagerInitOwnerCaptureLegs_def by (rule conforms_weaken) simp
qed

lemma conforms_capture_leg:
  assumes "owner \<in> K"
    and "\<And>K' fresh. K \<subseteq> K' \<Longrightarrow> node_le owner fresh \<Longrightarrow> \<not> latched fresh leg \<Longrightarrow>
      (leg = ''manifestCaptured'' \<longrightarrow> manifest_evidence E (set_latch leg True fresh)) \<and>
      (leg = ''dataCaptured'' \<longrightarrow> data_evidence E (set_latch leg True fresh)) \<and>
      (leg = ''subtreePlanned'' \<longrightarrow> planned_evidence e (knows_planned K') (set_latch leg True fresh))"
  shows "conforms (capture_rules E N e watched) (\<lambda>K' r. r = Inr () \<longrightarrow> (\<exists>n\<in>K'. node_le owner n \<and> latched n leg)) K
    (setOwnerCaptureLegCaptured owner leg)"
  unfolding setOwnerCaptureLegCaptured_def
proof (rule conforms_latch [OF assms(1) refl])
  show "latching fresh m \<and> latched (patched m fresh) leg" if "capture_leg leg fresh = Some m" for fresh m
    using that latching_set [of True fresh leg] by (auto simp: capture_leg_def split: if_splits)
  show "latched fresh leg" if "capture_leg leg fresh = None" for fresh using that by (simp add: capture_leg_def split: if_splits)
  show "permit E N e watched K' (PatchStatus m)"
    if "K \<subseteq> K'" "fresh \<in> basis K' m" "node_le owner fresh" "capture_leg leg fresh = Some m" for K' fresh m
    using that assms(2) [OF that(1,3)] by (intro permit_latch [OF that(2)]) (auto simp: capture_leg_def fresh_latch_def split: if_splits)
qed

lemma conforms_persisted:
  assumes "owner \<in> K"
  shows "conforms (capture_rules E N e watched) always K (setOwnerChildSubtreesManifestsPersisted owner v)"
proof -
  have d: "latching fresh m \<and> (\<forall>leg. leg \<noteq> ''childSubtreesManifestsPersisted'' \<longrightarrow> latched m leg = latched fresh leg)"
    if "declare_persisted v fresh = Some m" for fresh m
    using that by (auto simp: declare_persisted_def ownerCommonLegCaptured_def split: option.splits if_splits intro!: latching_set)
  have "conforms (capture_rules E N e watched) (\<lambda>K' r. r = Inr () \<longrightarrow> (\<exists>n\<in>K'. node_le owner n \<and> True)) K
      (latch_attempts 5 (snap_key owner) (declare_persisted v))"
  proof (rule conforms_latch [OF assms refl])
    show "permit E N e watched K' (PatchStatus m)" if "fresh \<in> basis K' m" "declare_persisted v fresh = Some m" for K' fresh m
      by (rule permit_latch [OF that(1)]) (use d [OF that(2)] in \<open>auto simp: fresh_latch_def\<close>)
  qed (simp_all add: d)
  then show ?thesis unfolding setOwnerChildSubtreesManifestsPersisted_def by (rule conforms_weaken) simp
qed

lemma conforms_persisted_leg:
  "owner \<in> K \<Longrightarrow> conforms (capture_rules E N e watched) always K (persisted_leg c owner)"
proof -
  assume o: "owner \<in> K"
  have set: "conforms (capture_rules E N e watched) always K' (setOwnerChildSubtreesManifestsPersisted owner v)" if "K \<subseteq> K'" for K' v
    using o that by (intro conforms_persisted) blast
  have ask: "conforms (capture_rules E N e watched) always K (if ct_subtree_persisted c then Return (Inr True)
      else observed (\<lambda>e. map_sum id fst (aggregateChildrenSubtreeManifestsPersisted e c)))"
    by (simp add: observed_def)
  show ?thesis unfolding persisted_leg_def using conforms_step [OF ask set] by simp
qed

lemma node_le_namespace: "node_le a b \<Longrightarrow> cn_namespace b = cn_namespace a"
  by (auto simp: node_le_def snap_key_def)

lemma conforms_manifest_leg:
  assumes "owner \<in> K" and "ns = cn_namespace owner"
  shows "conforms (capture_rules E N e watched) always K (owner_manifest_leg ns contentName owner)"
proof -
  let ?n = "mcr_name owner"
  have reap: "conforms (capture_rules E N e watched) always K' (reapManifestCaptureRequest ns ?n)"
    if "n \<in> K'" "node_le owner n" "latched n ''manifestCaptured''" "?n \<noteq> ''''" for n K'
    using that node_le_namespace [OF that(2)] assms(2)
    by (auto simp: reapManifestCaptureRequest_def node_le_def intro!: bexI [of _ n])
  have latch: "conforms (capture_rules E N e watched) always K' (if_ok (setOwnerCaptureLegCaptured owner ''manifestCaptured'')
      (\<lambda>_. reapManifestCaptureRequest ns ?n))"
    if "K \<subseteq> K'" "f \<in> E" "ManifestCaptureRequestSafeToDelete f ns ?n contentName = Inr True" "?n \<noteq> ''''" for K' f
  proof (rule conforms_step [OF conforms_capture_leg])
    show "owner \<in> K'" using assms(1) that(1) by blast
    show "(''manifestCaptured'' = ''manifestCaptured'' \<longrightarrow> manifest_evidence E (set_latch ''manifestCaptured'' True fresh)) \<and>
      (''manifestCaptured'' = ''dataCaptured'' \<longrightarrow> data_evidence E (set_latch ''manifestCaptured'' True fresh)) \<and>
      (''manifestCaptured'' = ''subtreePlanned'' \<longrightarrow> planned_evidence e (knows_planned K'') (set_latch ''manifestCaptured'' True fresh))"
      if "node_le owner fresh" for K'' fresh
      using that node_le_namespace [OF that] \<open>f \<in> E\<close> \<open>ManifestCaptureRequestSafeToDelete f ns ?n contentName = Inr True\<close>
        \<open>?n \<noteq> ''''\<close> assms(2) by (auto simp: manifest_evidence_def node_le_def)
    show "conforms (capture_rules E N e watched) always K'' (reapManifestCaptureRequest ns ?n)"
      if "Inr u = (Inr () :: proto_err + unit) \<longrightarrow> (\<exists>n\<in>K''. node_le owner n \<and> latched n ''manifestCaptured'')" for K'' and u :: unit
      using that reap \<open>?n \<noteq> ''''\<close> by auto
  qed
  show ?thesis
    using latch reap [OF assms(1) node_le_refl]
    by (auto simp: owner_manifest_leg_def Let_def split: get_res.splits intro!: conforms_step [OF conforms_observed])
qed

lemma conforms_volume_leg:
  assumes "owner \<in> K" and "ns = cn_namespace owner"
  shows "conforms (capture_rules E N e watched) always K (owner_volume_leg ns contentName ownerGVK owner)"
proof -
  let ?n = "vcr_name owner"
  have reap: "conforms (capture_rules E N e watched) always K' (if_ok (reapVolumeCaptureRequest ns ?n) (\<lambda>_. Return (Inr False)))"
    if "n \<in> K'" "node_le owner n" "latched n ''dataCaptured''" "?n \<noteq> ''''" for n K'
    using that node_le_namespace [OF that(2)] assms(2)
    by (auto simp: reapVolumeCaptureRequest_def if_ok_def node_le_def intro!: bexI [of _ n] split: sum.splits)
  have latch: "conforms (capture_rules E N e watched) (\<lambda>K' r. r = Inr () \<longrightarrow> (\<exists>n\<in>K'. node_le owner n \<and> latched n ''dataCaptured'')) K'
      (setOwnerCaptureLegCaptured owner ''dataCaptured'')"
    if "K \<subseteq> K'" and ev: "\<And>fresh. node_le owner fresh \<Longrightarrow> data_evidence E (set_latch ''dataCaptured'' True fresh)" for K'
  proof (rule conforms_capture_leg)
    show "owner \<in> K'" using assms(1) that(1) by blast
    show "(''dataCaptured'' = ''manifestCaptured'' \<longrightarrow> manifest_evidence E (set_latch ''dataCaptured'' True fresh)) \<and>
      (''dataCaptured'' = ''dataCaptured'' \<longrightarrow> data_evidence E (set_latch ''dataCaptured'' True fresh)) \<and>
      (''dataCaptured'' = ''subtreePlanned'' \<longrightarrow> planned_evidence e (knows_planned K'') (set_latch ''dataCaptured'' True fresh))"
      if "node_le owner fresh" for K'' fresh using ev [OF that] by simp
  qed
  have vcr: "data_evidence E (set_latch ''dataCaptured'' True fresh)"
    if "node_le owner fresh" "?n \<noteq> ''''" "\<exists>f\<in>E. observeOwnerDataLegVCR f ns ?n contentName = Inr True"
      "\<exists>f\<in>E. VolumeCaptureRequestSafeToDeleteWithHandoff f ns ?n contentName = Inr True" for fresh
  proof -
    have "vcr_name fresh = ?n" using that(1,2) unfolding node_le_def by blast
    moreover have "cn_namespace fresh = ns" using node_le_namespace [OF that(1)] assms(2) by simp
    moreover note that(2-4)
    ultimately have "vcr_name fresh \<noteq> '''' \<and> (\<exists>contentName.
       (\<exists>e\<in>E. observeOwnerDataLegVCR e (cn_namespace fresh) (vcr_name fresh) contentName = Inr True) \<and>
       (\<exists>e\<in>E. VolumeCaptureRequestSafeToDeleteWithHandoff e (cn_namespace fresh) (vcr_name fresh) contentName = Inr True))"
      by (simp only:) blast
    then show ?thesis unfolding data_evidence_def set_latch_simps by (rule disjI2)
  qed
  have first: "conforms (capture_rules E N e watched) always K' (if_ok (setOwnerCaptureLegCaptured owner ''dataCaptured'')
      (\<lambda>_. if_ok (reapVolumeCaptureRequest ns ?n) (\<lambda>_. Return (Inr False))))"
    if "K \<subseteq> K'" "?n \<noteq> ''''" "\<exists>f\<in>E. observeOwnerDataLegVCR f ns ?n contentName = Inr True"
      "\<exists>f\<in>E. VolumeCaptureRequestSafeToDeleteWithHandoff f ns ?n contentName = Inr True" for K'
  proof (rule conforms_step [OF latch [OF that(1) vcr [OF _ that(2-4)]]])
    show "conforms (capture_rules E N e watched) always K'' (if_ok (reapVolumeCaptureRequest ns ?n) (\<lambda>_. Return (Inr False)))"
      if "Inr u = (Inr () :: proto_err + unit) \<longrightarrow> (\<exists>n\<in>K''. node_le owner n \<and> latched n ''dataCaptured'')" for K'' and u :: unit
      using that reap \<open>?n \<noteq> ''''\<close> by auto
  qed
  have native: "conforms (capture_rules E N e watched) always K' (if_ok (setOwnerCaptureLegCaptured owner ''dataCaptured'') (\<lambda>_. Return (Inr False)))"
    if "K \<subseteq> K'" "\<exists>f\<in>E. contentHasPublishedData f contentName = Inr True" for K'
  proof (rule conforms_step [OF latch [OF that(1)]])
    show "data_evidence E (set_latch ''dataCaptured'' True fresh)" for fresh unfolding data_evidence_def using that(2) by blast
  qed simp
  have handoff: "conforms (capture_rules E N e watched) always K'
      (if_ok (observed (\<lambda>e. VolumeCaptureRequestSafeToDeleteWithHandoff e ns ?n contentName)) (\<lambda>safe.
        if \<not> safe then Return (Inr True) else if_ok (setOwnerCaptureLegCaptured owner ''dataCaptured'')
          (\<lambda>_. if_ok (reapVolumeCaptureRequest ns ?n) (\<lambda>_. Return (Inr False)))))"
    if "K \<subseteq> K'" "?n \<noteq> ''''" "\<exists>f\<in>E. observeOwnerDataLegVCR f ns ?n contentName = Inr True" for K'
  proof (rule conforms_step [OF conforms_observed])
    show "conforms (capture_rules E N e watched) always K'' (if \<not> safe then Return (Inr True)
        else if_ok (setOwnerCaptureLegCaptured owner ''dataCaptured'') (\<lambda>_. if_ok (reapVolumeCaptureRequest ns ?n) (\<lambda>_. Return (Inr False))))"
      if "K' \<subseteq> K''" "\<forall>a. Inr safe = (Inr a :: proto_err + bool) \<longrightarrow> (\<exists>f\<in>E. VolumeCaptureRequestSafeToDeleteWithHandoff f ns ?n contentName = Inr a)"
      for K'' safe
    proof (cases safe)
      case True
      have "K \<subseteq> K''" using that(1) \<open>K \<subseteq> K'\<close> by blast
      from first [OF this \<open>?n \<noteq> ''''\<close>] that(2) True
        \<open>\<exists>f\<in>E. observeOwnerDataLegVCR f ns ?n contentName = Inr True\<close> show ?thesis by simp
    qed simp
  qed
  let ?leg = "owner_volume_leg ns contentName ownerGVK owner"
  consider (by_vcr) "\<not> latched owner ''dataCaptured''" "?n \<noteq> ''''"
    | (by_native) "\<not> latched owner ''dataCaptured''" "?n = ''''" "g_kind ownerGVK = ''VolumeSnapshot''"
    | (no_data) "\<not> latched owner ''dataCaptured''" "?n = ''''" "g_kind ownerGVK \<noteq> ''VolumeSnapshot''"
    | (left_over) "latched owner ''dataCaptured''" "?n \<noteq> ''''"
    | (over) "latched owner ''dataCaptured''" "?n = ''''" by blast
  then show ?thesis
  proof cases
    case by_vcr
    have "conforms (capture_rules E N e watched) always K
        (if_ok (observed (\<lambda>e. observeOwnerDataLegVCR e ns ?n contentName)) (\<lambda>finished.
          if \<not> finished then Return (Inr True)
          else if_ok (observed (\<lambda>e. VolumeCaptureRequestSafeToDeleteWithHandoff e ns ?n contentName)) (\<lambda>safe.
            if \<not> safe then Return (Inr True) else if_ok (setOwnerCaptureLegCaptured owner ''dataCaptured'')
              (\<lambda>_. if_ok (reapVolumeCaptureRequest ns ?n) (\<lambda>_. Return (Inr False))))))"
    proof (rule conforms_step [OF conforms_observed], goal_cases)
      case (1 K' finished)
      show ?case
      proof (cases finished)
        case True
        then have "\<exists>f\<in>E. observeOwnerDataLegVCR f ns ?n contentName = Inr True" using 1(2) [rule_format, of True] by simp
        from handoff [OF 1(1) by_vcr(2) this] True show ?thesis by (simp only: simp_thms if_False)
      qed simp
    qed
    moreover have "?leg = if_ok (observed (\<lambda>e. observeOwnerDataLegVCR e ns ?n contentName)) (\<lambda>finished.
          if \<not> finished then Return (Inr True)
          else if_ok (observed (\<lambda>e. VolumeCaptureRequestSafeToDeleteWithHandoff e ns ?n contentName)) (\<lambda>safe.
            if \<not> safe then Return (Inr True) else if_ok (setOwnerCaptureLegCaptured owner ''dataCaptured'')
              (\<lambda>_. if_ok (reapVolumeCaptureRequest ns ?n) (\<lambda>_. Return (Inr False)))))"
      unfolding owner_volume_leg_def Let_def by (simp only: by_vcr simp_thms if_True)
    ultimately show ?thesis by (simp only:)
  next
    case by_native
    have "conforms (capture_rules E N e watched) always K
        (if_ok (observed (\<lambda>e. contentHasPublishedData e contentName)) (\<lambda>hasData.
            if hasData then if_ok (setOwnerCaptureLegCaptured owner ''dataCaptured'') (\<lambda>_. Return (Inr False))
            else Return (Inr True)))"
    proof (rule conforms_step [OF conforms_observed], goal_cases)
      case (1 K' hasData)
      show ?case
      proof (cases hasData)
        case True
        then have "\<exists>f\<in>E. contentHasPublishedData f contentName = Inr True" using 1(2) [rule_format, of True] by simp
        from native [OF 1(1) this] True show ?thesis by (simp only: if_True)
      qed simp
    qed
    then show ?thesis unfolding owner_volume_leg_def Let_def by (simp only: by_native simp_thms if_True if_False)
  next
    case no_data
    then show ?thesis unfolding owner_volume_leg_def Let_def by (simp only: no_data simp_thms if_True if_False conforms.simps)
  next
    case left_over
    have "conforms (capture_rules E N e watched) always K (case r of NotFound \<Rightarrow> Return (Inr False)
        | GetErr x \<Rightarrow> Return (Inl (ReadFault x))
        | Found _ \<Rightarrow> if_ok (reapVolumeCaptureRequest ns ?n) (\<lambda>_. Return (Inr False)))" for r
      using reap [OF assms(1) node_le_refl left_over] by (cases r) simp_all
    then show ?thesis unfolding owner_volume_leg_def Let_def by (simp only: left_over simp_thms if_True if_False conforms.simps) blast
  next
    case over
    then show ?thesis unfolding owner_volume_leg_def Let_def by (simp only: over simp_thms if_True if_False conforms.simps)
  qed
qed

lemma conforms_each_child:
  "conforms (capture_rules E N e watched) (\<lambda>K' r. r = Inr True \<longrightarrow> (\<forall>raw\<in>set refs. \<exists>m. raw = Some m \<and>
     (\<exists>c\<in>K'. snap_key c = (gvk_of f (cr_apiVersion m) (cr_kind m), ns, cr_name m) \<and> good c))) K (each_child f good ns refs)"
proof (induction refs arbitrary: K)
  case (Cons raw rest)
  have "conforms (capture_rules E N e watched) (\<lambda>K' r. r = Inr True \<longrightarrow> (\<forall>raw\<in>set (Some m # rest). \<exists>m. raw = Some m \<and>
     (\<exists>c\<in>K'. snap_key c = (gvk_of f (cr_apiVersion m) (cr_kind m), ns, cr_name m) \<and> good c))) (insert child K) (each_child f good ns rest)"
    if "snap_key child = (gvk_of f (cr_apiVersion m) (cr_kind m), ns, cr_name m)" "good child" for m child
    by (rule conforms_weaken [OF Cons.IH]) (use that in auto)
  then show ?case by (cases raw) (auto split: option.splits)
qed simp

lemma declared_filter: "set (List.map_filter id xs) = {x. Some x \<in> set xs}"
  by (force simp: map_filter_def image_iff)

lemma conforms_planned_leg:
  assumes "owner \<in> K" and "childrenSetFrozen (node_phase owner)" and "lg_env lg = e"
  shows "conforms (capture_rules E N e watched) always K (planned_leg lg owner)"
proof -
  let ?P = "\<lambda>K' r. r = Inr True \<longrightarrow> (\<forall>ref\<in>set (declared owner). knows_planned K' (child_key e owner ref))"
  have all: "conforms (capture_rules E N e watched) ?P K (allDirectChildrenSubtreePlanned lg owner)"
  proof (cases "cn_children owner")
    case (NVal refs)
    show ?thesis unfolding allDirectChildrenSubtreePlanned_def NVal nested.case assms(3)
      by (rule conforms_weaken [OF conforms_each_child])
        (force simp: NVal declared_def declared_filter knows_planned_def child_key_def)
  qed (simp_all add: allDirectChildrenSubtreePlanned_def declared_def map_filter_def)
  have latch: "conforms (capture_rules E N e watched) always K' (if_ok (setOwnerCaptureLegCaptured owner ''subtreePlanned'') (\<lambda>_. Return (Inr False)))"
    if "K \<subseteq> K'" and known: "\<forall>ref\<in>set (declared owner). knows_planned K' (child_key e owner ref)" for K'
  proof (rule conforms_step [OF conforms_capture_leg])
    show "owner \<in> K'" using assms(1) that by blast
    show "(''subtreePlanned'' = ''manifestCaptured'' \<longrightarrow> manifest_evidence E (set_latch ''subtreePlanned'' True fresh)) \<and>
      (''subtreePlanned'' = ''dataCaptured'' \<longrightarrow> data_evidence E (set_latch ''subtreePlanned'' True fresh)) \<and>
      (''subtreePlanned'' = ''subtreePlanned'' \<longrightarrow> planned_evidence e (knows_planned K'') (set_latch ''subtreePlanned'' True fresh))"
      if "K' \<subseteq> K''" "node_le owner fresh" for K'' fresh
    proof -
      have "declared fresh = declared owner" "childrenSetFrozen (node_phase fresh)"
        using that(2) assms(2) by (auto simp: node_le_def intro: frozen_stays)
      moreover have "child_key e (set_latch ''subtreePlanned'' True fresh) ref = child_key e owner ref" for ref
        using node_le_namespace [OF that(2)] by (simp add: child_key_def)
      ultimately have "planned_evidence e (knows_planned K'') (set_latch ''subtreePlanned'' True fresh)"
        using known that(1) unfolding planned_evidence_def knows_planned_def set_latch_simps
        by (simp only: simp_thms) (meson subsetD)
      then show ?thesis by simp
    qed
  qed simp
  have "conforms (capture_rules E N e watched) always K (if_ok (allDirectChildrenSubtreePlanned lg owner) (\<lambda>allPlanned.
      if allPlanned then if_ok (setOwnerCaptureLegCaptured owner ''subtreePlanned'') (\<lambda>_. Return (Inr False)) else Return (Inr True)))"
  proof (rule conforms_step [OF all])
    show "conforms (capture_rules E N e watched) always K' (if x then if_ok (setOwnerCaptureLegCaptured owner ''subtreePlanned'')
        (\<lambda>_. Return (Inr False)) else Return (Inr True))"
      if "K \<subseteq> K'" "Inr x = (Inr True :: proto_err + bool) \<longrightarrow> (\<forall>ref\<in>set (declared owner). knows_planned K' (child_key e owner ref))" for K' x
      using that latch by (cases x) (simp_all only: if_True if_False simp_thms conforms.simps)
  qed
  then show ?thesis unfolding planned_leg_def by (simp only: conforms.simps simp_thms split: if_split)
qed

lemma conforms_settled_leg:
  assumes "owner \<in> K"
  shows "conforms (capture_rules E N e watched) always K (settled_leg lg owner)"
proof -
  have each: "conforms (capture_rules E N e watched) always K' (each_child f good ns refs)" for K' f good ns refs
    by (rule conforms_weaken [OF conforms_each_child]) simp
  have all: "conforms (capture_rules E N e watched) always K' (allDirectChildrenSettled lg owner)" for K'
    by (auto simp: allDirectChildrenSettled_def split: nested.splits intro!: conforms_step [OF each])
  have latch: "conforms (capture_rules E N e watched) always K' (if_ok (setOwnerCaptureLegCaptured owner ''childrenSettled'') (\<lambda>_. Return (Inr False)))"
    if "K \<subseteq> K'" for K' by (rule conforms_step [OF conforms_capture_leg]) (use assms that in auto)
  show ?thesis unfolding settled_leg_def using latch by (auto intro!: conforms_step [OF all])
qed

lemma conforms_legs:
  assumes "lg_env lg = e"
  shows "conforms (capture_rules E N e watched) always K (quiet (reconcileOwnerCaptureLegs lg c))"
proof -
  let ?ru = "capture_rules E N e watched"
  have legs: "conforms ?ru always K' (owner_legs lg (cn_namespace owner) k c owner)"
    if "owner \<in> K'" "childrenSetFrozen (node_phase owner)" for K' owner k
    unfolding owner_legs_def
    by (intro conforms_step [OF conforms_eager] conforms_step [OF conforms_manifest_leg] conforms_step [OF conforms_volume_leg]
        conforms_step [OF conforms_persisted_leg] conforms_step [OF conforms_planned_leg] conforms_step [OF conforms_settled_leg])
      (use that assms in \<open>auto, blast\<close>)
  have frozen: "childrenSetFrozen (node_phase n)" if "ownerDomainCaptureAtLeastPlanned n" for n
    using that by (auto simp: ownerDomainCaptureAtLeastPlanned_def childrenSetFrozen_def phaseRank_def)
  have found: "conforms ?ru always (insert owner K) (if cn_bound owner \<noteq> ct_name c then Return (Inr False)
      else if \<not> ownerDomainCaptureAtLeastPlanned owner then Return (Inr False) else owner_legs lg ns k c owner)"
    if "snap_key owner = (k, ns, n)" for owner k ns n
  proof -
    have "ns = cn_namespace owner" using that by (simp add: snap_key_def)
    then show ?thesis using legs [OF insertI1 frozen] by simp
  qed
  have "conforms ?ru always K (reconcileOwnerCaptureLegs lg c)"
    unfolding reconcileOwnerCaptureLegs_def Let_def using found by (simp split: option.split)
  then show ?thesis unfolding quiet_def by (rule conforms_and_then) simp
qed

section \<open>Invariants of every interleaving\<close>

text \<open>A program that conforms, with knowledge that holds and includes \<open>K0\<close>.\<close>

definition in_line :: "rules \<Rightarrow> capture_node set \<Rightarrow> store \<Rightarrow> unit prog \<Rightarrow> bool" where
  "in_line ru K0 s p \<longleftrightarrow> (\<exists>K. K0 \<subseteq> K \<and> conforms ru always K p \<and> holds s K)"

lemma in_line_evolves: "in_line ru K0 s p \<Longrightarrow> evolves s s' \<Longrightarrow> in_line ru K0 s' p"
  unfolding in_line_def using holds_evolves by blast

locale protocol =
  fixes E :: "env set" and N :: naming and e :: env and watched :: "snap_key option" and K0 :: "capture_node set"
    and inv :: "store \<Rightarrow> bool"
  assumes written: "inv s \<Longrightarrow> store_ok N s \<Longrightarrow> holds s K \<Longrightarrow> K0 \<subseteq> K \<Longrightarrow> lawful N K w \<Longrightarrow> permit E N e watched K w \<Longrightarrow>
      perform w s = (x, s') \<Longrightarrow> inv s'"
    and left_to_others: "inv s \<Longrightarrow> store_ok N s \<Longrightarrow> others s s' \<Longrightarrow> inv s'"
begin

abbreviation "ru \<equiv> capture_rules E N e watched"

lemma advance_keeps:
  assumes "advance E (p, H) (p', H')" and "in_line ru K0 (hd H) p" and "history_ok N H" and "inv (hd H)"
  shows "history_ok N H' \<and> evolves (hd H) (hd H') \<and> inv (hd H') \<and> in_line ru K0 (hd H') p'"
proof -
  obtain K where K: "K0 \<subseteq> K" "conforms ru always K p" "holds (hd H) K" using assms(2) unfolding in_line_def by blast
  have adv: "advance (ru_answers ru) (p, H) (p', H')" using assms(1) by simp
  note a = advance_conforms [OF adv K(2,3)]
  have "inv (hd H')"
    using assms(1)
  proof (cases rule: advance.cases)
    case (served w s x s' f rest)
    have "store_ok N s" using assms(3) served by (simp add: history_ok_def)
    with served K assms(4) written show ?thesis by auto
  next
    case (answer_lost w s s' x f rest)
    have "store_ok N s" using assms(3) answer_lost by (simp add: history_ok_def)
    with answer_lost K assms(4) written show ?thesis by auto
  qed (use assms(4) in auto)
  moreover have "history_ok N H'" "evolves (hd H) (hd H')" using a assms(3) by simp_all
  moreover have "in_line ru K0 (hd H') p'" using a assms(3) K(1) unfolding in_line_def by auto
  ultimately show ?thesis by blast
qed

lemma run_keeps:
  assumes "run E starts (H0, ps0) (H, ps)" and "history_ok N H0" and "holds (hd H0) K0" and "inv (hd H0)"
    and "\<And>p. p \<in> set ps0 \<Longrightarrow> in_line ru K0 (hd H0) p" and start: "\<And>p. starts p \<Longrightarrow> conforms ru always K0 p"
  shows "history_ok N H \<and> evolves (hd H0) (hd H) \<and> inv (hd H) \<and> (\<forall>p\<in>set ps. in_line ru K0 (hd H) p)"
  using assms(1)
proof (induction "(H, ps)" arbitrary: H ps rule: run.induct)
  case here
  then show ?case using assms(2,4,5) by simp
next
  case (spawn H ps p)
  then have "holds (hd H) K0" using holds_evolves [OF assms(3)] by blast
  then have "in_line ru K0 (hd H) p" unfolding in_line_def using start [OF spawn(3)] by blast
  then show ?case using spawn by auto
next
  case (step H ps i p' H')
  from step have ih: "history_ok N H" "evolves (hd H0) (hd H)" "inv (hd H)" "\<forall>p\<in>set ps. in_line ru K0 (hd H) p" by auto
  have "in_line ru K0 (hd H) (ps ! i)" using ih(4) step(3) by simp
  note a = advance_keeps [OF step(4) this ih(1,3)]
  have "in_line ru K0 (hd H') p" if "p \<in> set (ps[i := p'])" for p
    using set_update_subset_insert [of ps i p'] that a ih(4) in_line_evolves by blast
  then show ?case using a ih(2) evolves_trans by blast
next
  case (other s H ps s')
  from other have ih: "history_ok N (s # H)" "evolves (hd H0) s" "inv s" "\<forall>p\<in>set ps. in_line ru K0 s p" by auto
  have s: "store_ok N s" using ih(1) by (simp add: history_ok_def)
  note o = others_ok [OF other(3) s]
  have "history_ok N (s' # s # H)" using history_push [OF ih(1)] o by blast
  moreover have "inv s'" using left_to_others [OF ih(3) s other(3)] .
  moreover have "\<forall>p\<in>set ps. in_line ru K0 s' p" using ih(4) o in_line_evolves by blast
  moreover have "evolves (hd H0) s'" using ih(2) o evolves_trans by blast
  ultimately show ?case by simp
qed

end

text \<open>The programs of a cluster conform.\<close>

lemma conforms_programs:
  assumes "capture_programs lg sd W p" and "sd_digest sd = snd N" and "lg_env lg = e" and "\<forall>k\<in>W. unrivalled N watched k"
  shows "conforms (capture_rules E N e watched) always K p"
  using assms unfolding capture_programs_def by (auto intro: conforms_legs conforms_domain_pass)

end
