(* ===== verification/Protocol_Invariants.thy ===== *)
theory Protocol_Invariants
  imports Protocol_Runs
begin

text \<open>
  The invariants of the capture: a latch rests on evidence, the tree below a snapshot whose plan is latched is
  planned, and a request that is gone for a latched snapshot stays gone. Each is an instance of \<open>protocol\<close>.
\<close>

section \<open>What a call does to the snapshots\<close>

lemma touched_node:
  assumes "st_nodes s (snap_key t) = Some n" and "node_le n t" and "\<And>leg. latched t leg = latched n leg"
    and "st_nodes (put_node t s) k = Some n'"
  shows "\<exists>n. st_nodes s k = Some n \<and> node_le n n' \<and> (\<forall>leg. latched n' leg = latched n leg)"
proof (cases "k = snap_key t")
  case True
  then have "n' = t" using assms(4) by simp
  then show ?thesis using True assms(1-3) by blast
next
  case False
  then have "st_nodes s k = Some n'" using assms(4) by simp
  then show ?thesis using node_le_refl by blast
qed

lemma perform_node:
  assumes "perform w s = (x, s')" and "lawful N K w" and "holds s K" and "store_ok N s" and "st_nodes s' k = Some n'"
  shows "(\<exists>n. st_nodes s k = Some n \<and> node_le n n' \<and> (\<forall>leg. latched n' leg = latched n leg)) \<or>
    (\<exists>m n. w = PatchStatus m \<and> st_nodes s k = Some n \<and> node_le n n' \<and> n' = patched m n \<and> basis K m = {n}) \<or>
    (st_nodes s k = None \<and> (\<forall>leg. \<not> latched n' leg))"
proof (cases w)
  case (PatchStatus m)
  from perform_PatchStatus_D [OF assms(1) [unfolded PatchStatus] assms(2) [unfolded PatchStatus] assms(3,4)]
  show ?thesis
  proof (elim disjE conjE exE)
    assume "s' = s"
    then show ?thesis using assms(5) by auto
  next
    fix n
    assume n: "st_nodes s (snap_key m) = Some n" "snap_key n = snap_key m" "basis K m = {n}"
      "s' = put_node (patched m n) s" "node_le n (patched m n)"
    show ?thesis
    proof (cases "k = snap_key m")
      case True
      then have "n' = patched m n" using assms(5) n(2,4) by simp
      then show ?thesis using True n(1,3,5) PatchStatus by blast
    next
      case False
      then have "st_nodes s k = Some n'" using assms(5) n(2,4) by simp
      then show ?thesis using node_le_refl by blast
    qed
  qed
next
  case (PatchOwners m refs)
  show ?thesis
  proof (cases "st_nodes s (snap_key m)")
    case (Some n)
    let ?n = "n\<lparr>cn_owner_refs := refs, cn_version := Suc (cn_version n)\<rparr>"
    have k: "snap_key ?n = snap_key m" using store_okD [OF assms(4) Some] by (simp add: snap_key_def)
    have le: "node_le n ?n" by (rule touched_le) (simp_all add: snap_key_def)
    have "latched ?n leg = latched n leg" for leg by (simp add: ownerCommonLegCaptured_def)
    moreover have "s' = put_node ?n s" using assms(1) Some PatchOwners by simp
    moreover have "st_nodes s (snap_key ?n) = Some n" using k Some by simp
    ultimately have "\<exists>n. st_nodes s k = Some n \<and> node_le n n' \<and> (\<forall>leg. latched n' leg = latched n leg)"
      using touched_node [OF _ le] assms(5) by blast
    then show ?thesis by (rule disjI1)
  qed (use assms PatchOwners in auto)
next
  case (CreateNode m)
  have "snap_key (created_node s m) = snap_key m" "\<not> latched (created_node s m) leg" for leg
    by (simp_all add: created_node_def snap_key_def ownerCommonLegCaptured_def)
  moreover have "s' = s \<or> st_nodes s (snap_key m) = None \<and> s' = put_node (created_node s m) s"
    using assms(1) CreateNode by (simp split: if_splits)
  ultimately show ?thesis using assms(5) node_le_refl by (cases "k = snap_key m") fastforce+
qed (use assms(1,5) in \<open>auto split: if_splits option.splits\<close>)

lemma others_node:
  assumes "others s s'" and "st_nodes s' k = Some n'"
  shows "\<exists>n. st_nodes s k = Some n \<and> node_le n n' \<and> (\<forall>leg. latched n' leg = latched n leg)"
  using assms(1)
proof (cases rule: others.cases)
  case (updated n refs cs b)
  let ?n = "n\<lparr>cn_bound := b, cn_conditions := cs, cn_owner_refs := refs, cn_version := Suc (cn_version n)\<rparr>"
  have le: "node_le n ?n" by (rule touched_le) (simp_all add: snap_key_def)
  have "latched ?n leg = latched n leg" for leg by (simp add: ownerCommonLegCaptured_def)
  moreover have "st_nodes s (snap_key ?n) = Some n" using updated by (simp add: snap_key_def)
  ultimately show ?thesis using touched_node [OF _ le] updated(1) assms(2) by blast
qed (use assms(2) in auto)

lemma permit_fresh:
  assumes "permit E N e watched K (PatchStatus m)" and "basis K m = {n}" and "latched m leg" and "\<not> latched n leg"
  shows "(leg = ''manifestCaptured'' \<longrightarrow> manifest_evidence E m) \<and> (leg = ''dataCaptured'' \<longrightarrow> data_evidence E m) \<and>
    (leg = ''subtreePlanned'' \<longrightarrow> planned_evidence e (knows_planned K) m)"
  using assms by (auto simp: fresh_latch_def)

section \<open>Latches rest on evidence\<close>

definition evidenced :: "env set \<Rightarrow> store \<Rightarrow> bool" where
  "evidenced E s \<longleftrightarrow> (\<forall>k n. st_nodes s k = Some n \<longrightarrow>
     (latched n ''manifestCaptured'' \<longrightarrow> manifest_evidence E n) \<and> (latched n ''dataCaptured'' \<longrightarrow> data_evidence E n))"

lemma manifest_evidence_le: "manifest_evidence E n \<Longrightarrow> node_le n n' \<Longrightarrow> manifest_evidence E n'"
  using node_le_namespace [of n n'] by (auto simp: manifest_evidence_def node_le_def)

lemma data_evidence_le:
  assumes "data_evidence E n" and "node_le n n'"
  shows "data_evidence E n'"
proof -
  have "cn_namespace n' = cn_namespace n" by (rule node_le_namespace [OF assms(2)])
  moreover have "vcr_name n \<noteq> '''' \<Longrightarrow> vcr_name n' = vcr_name n" using assms(2) by (simp add: node_le_def)
  ultimately show ?thesis using assms(1) unfolding data_evidence_def by metis
qed

lemma evidence_patched:
  assumes "snap_key n = snap_key m"
  shows "manifest_evidence E (patched m n) = manifest_evidence E m" "data_evidence E (patched m n) = data_evidence E m"
proof -
  have "cn_namespace n = cn_namespace m" using assms by (simp add: snap_key_def)
  then show "manifest_evidence E (patched m n) = manifest_evidence E m" "data_evidence E (patched m n) = data_evidence E m"
    unfolding manifest_evidence_def data_evidence_def by (simp_all only: patched_simps)
qed

lemma basis_key: "basis K m = {n} \<Longrightarrow> snap_key n = snap_key m"
  by (auto simp: basis_def)

interpretation evidence: protocol E N e watched "{}" "evidenced E" for E N e watched
proof unfold_locales
  fix s K w x s'
  assume inv: "evidenced E s" and p: "store_ok N s" "holds s K" "lawful N K w" "permit E N e watched K w" "perform w s = (x, s')"
  show "evidenced E s'"
    unfolding evidenced_def
  proof (intro allI impI)
    fix k n' assume n': "st_nodes s' k = Some n'"
    from perform_node [OF p(5,3,2,1) n']
    show "(latched n' ''manifestCaptured'' \<longrightarrow> manifest_evidence E n') \<and> (latched n' ''dataCaptured'' \<longrightarrow> data_evidence E n')"
    proof (elim disjE exE conjE)
      fix n assume "st_nodes s k = Some n" "node_le n n'" "\<forall>leg. latched n' leg = latched n leg"
      then show ?thesis using inv manifest_evidence_le data_evidence_le unfolding evidenced_def by blast
    next
      fix m n assume c: "w = PatchStatus m" "st_nodes s k = Some n" "node_le n n'" "n' = patched m n" "basis K m = {n}"
      note f = permit_fresh [OF p(4) [unfolded c(1)] c(5)]
      note ev = evidence_patched [OF basis_key [OF c(5)]]
      have l: "latched m leg" if "latched n' leg" for leg using c(4) that by simp
      have i: "latched n ''manifestCaptured'' \<Longrightarrow> manifest_evidence E n" "latched n ''dataCaptured'' \<Longrightarrow> data_evidence E n"
        using inv c(2) unfolding evidenced_def by blast+
      have "manifest_evidence E n'" if "latched n' ''manifestCaptured''"
        using f [OF l [OF that]] i(1) manifest_evidence_le [OF _ c(3)] ev(1) c(4) by blast
      moreover have "data_evidence E n'" if "latched n' ''dataCaptured''"
        using f [OF l [OF that]] i(2) data_evidence_le [OF _ c(3)] ev(2) c(4) by blast
      ultimately show ?thesis by blast
    qed simp
  qed
next
  fix s s' assume inv: "evidenced E s" and ot: "others s s'"
  show "evidenced E s'"
    unfolding evidenced_def
  proof (intro allI impI)
    fix k n' assume "st_nodes s' k = Some n'"
    from others_node [OF ot this] obtain n where n: "st_nodes s k = Some n" "node_le n n'" "\<forall>leg. latched n' leg = latched n leg" by blast
    then show "(latched n' ''manifestCaptured'' \<longrightarrow> manifest_evidence E n') \<and> (latched n' ''dataCaptured'' \<longrightarrow> data_evidence E n')"
      using inv manifest_evidence_le data_evidence_le unfolding evidenced_def by blast
  qed
qed

section \<open>The planned tree\<close>

definition planned_at :: "store \<Rightarrow> snap_key \<Rightarrow> bool" where
  "planned_at s k \<longleftrightarrow> (\<exists>c. st_nodes s k = Some c \<and> latched c ''subtreePlanned'')"

definition planned_tree :: "env \<Rightarrow> store \<Rightarrow> bool" where
  "planned_tree e s \<longleftrightarrow> (\<forall>k n. st_nodes s k = Some n \<longrightarrow> latched n ''subtreePlanned'' \<longrightarrow> planned_evidence e (planned_at s) n)"

lemma planned_at_evolves: "planned_at s k \<Longrightarrow> evolves s s' \<Longrightarrow> planned_at s' k"
  unfolding planned_at_def evolves_def using node_le_latched by blast

lemma planned_evidence_mono: "planned_evidence e f n \<Longrightarrow> (\<And>k. f k \<Longrightarrow> g k) \<Longrightarrow> planned_evidence e g n"
  by (auto simp: planned_evidence_def)

lemma planned_evidence_le:
  assumes "planned_evidence e f n" and "node_le n n'"
  shows "planned_evidence e f n'"
proof -
  have "declared n' = declared n" "childrenSetFrozen (node_phase n')"
    using assms by (auto simp: planned_evidence_def node_le_def intro: frozen_stays)
  moreover have "child_key e n' ref = child_key e n ref" for ref
    using node_le_namespace [OF assms(2)] by (simp add: child_key_def)
  ultimately show ?thesis using assms(1) by (simp add: planned_evidence_def)
qed

lemma planned_evidence_patched:
  "snap_key n = snap_key m \<Longrightarrow> planned_evidence e f (patched m n) = planned_evidence e f m"
  by (simp add: planned_evidence_def child_key_def snap_key_def)

lemma knows_planned_at: "holds s K \<Longrightarrow> knows_planned K k \<Longrightarrow> planned_at s k"
  unfolding holds_def knows_planned_def planned_at_def using node_le_latched by blast

interpretation planned: protocol E N e watched "{}" "planned_tree e" for E N e watched
proof unfold_locales
  fix s K w x s'
  assume inv: "planned_tree e s" and p: "store_ok N s" "holds s K" "lawful N K w" "permit E N e watched K w" "perform w s = (x, s')"
  have ev: "evolves s s'" using perform_evolves [OF p(5,3,2,1)] by blast
  have old: "planned_evidence e (planned_at s') n'" if "st_nodes s k = Some n" "node_le n n'" "latched n ''subtreePlanned''" for k n n'
  proof -
    have "planned_evidence e (planned_at s) n" using inv that(1,3) unfolding planned_tree_def by blast
    from planned_evidence_mono [OF planned_evidence_le [OF this that(2)] planned_at_evolves [OF _ ev]] show ?thesis .
  qed
  show "planned_tree e s'"
    unfolding planned_tree_def
  proof (intro allI impI)
    fix k n' assume n': "st_nodes s' k = Some n'" and l: "latched n' ''subtreePlanned''"
    from perform_node [OF p(5,3,2,1) n']
    show "planned_evidence e (planned_at s') n'"
    proof (elim disjE exE conjE)
      fix n assume "st_nodes s k = Some n" "node_le n n'" "\<forall>leg. latched n' leg = latched n leg"
      then show ?thesis using old l by blast
    next
      fix m n assume c: "w = PatchStatus m" "st_nodes s k = Some n" "node_le n n'" "n' = patched m n" "basis K m = {n}"
      show ?thesis
      proof (cases "latched n ''subtreePlanned''")
        case False
        have "latched m ''subtreePlanned''" using l c(4) by simp
        then have "planned_evidence e (knows_planned K) m" using permit_fresh [OF p(4) [unfolded c(1)] c(5) _ False] by simp
        then have "planned_evidence e (planned_at s') m"
          by (rule planned_evidence_mono) (rule planned_at_evolves [OF knows_planned_at [OF p(2)] ev])
        then show ?thesis unfolding c(4) planned_evidence_patched [OF basis_key [OF c(5)]] .
      qed (use old c(2,3) in blast)
    qed (use l in simp)
  qed
next
  fix s s' assume inv: "planned_tree e s" and s: "store_ok N s" and ot: "others s s'"
  have ev: "evolves s s'" using others_ok [OF ot s] by blast
  show "planned_tree e s'"
    unfolding planned_tree_def
  proof (intro allI impI)
    fix k n' assume n': "st_nodes s' k = Some n'" "latched n' ''subtreePlanned''"
    from others_node [OF ot n'(1)] n'(2) obtain n where n: "st_nodes s k = Some n" "node_le n n'" "latched n ''subtreePlanned''" by blast
    then have "planned_evidence e (planned_at s) n" using inv unfolding planned_tree_def by blast
    from planned_evidence_mono [OF planned_evidence_le [OF this n(2)] planned_at_evolves [OF _ ev]]
    show "planned_evidence e (planned_at s') n'" .
  qed
qed

section \<open>A request that is gone\<close>

definition gone :: "string \<Rightarrow> string \<Rightarrow> store \<Rightarrow> bool" where
  "gone ns r s \<longleftrightarrow> st_requests s ns r = None"

text \<open>For a snapshot \<open>m\<close> that the programs have read with its manifest leg latched.\<close>

definition stays_gone :: "naming \<Rightarrow> capture_node \<Rightarrow> store \<Rightarrow> bool" where
  "stays_gone N m s \<longleftrightarrow> (latched m ''manifestCaptured'' \<longrightarrow> gone (cn_namespace m) (request_name N (snap_key m)) s)"

lemma perform_gone:
  assumes "gone ns r s" and "perform w s = (x, s')" and "\<And>q. w \<noteq> CreateRequest ns r q"
  shows "gone ns r s'"
proof (cases w)
  case (CreateRequest ns' r' q)
  have "ns' \<noteq> ns \<or> r' \<noteq> r" using assms(3) CreateRequest by blast
  then show ?thesis using assms(1,2) CreateRequest by (auto simp: gone_def split: if_splits)
qed (use assms(1,2) in \<open>auto simp: gone_def split: if_splits option.splits\<close>)

interpretation removal: protocol E N e "Some (snap_key m)" "{m}" "stays_gone N m" for E N e m
proof unfold_locales
  fix s K w x s'
  assume a: "stays_gone N m s" "{m} \<subseteq> K" "permit E N e (Some (snap_key m)) K w" "perform w s = (x, s')"
  have m: "m \<in> K" using a(2) by simp
  have w: "w \<noteq> CreateRequest (cn_namespace m) (request_name N (snap_key m)) q" if "latched m ''manifestCaptured''" for q
    using a(3) m that unfolding permit.simps by (metis permit.simps(4))
  show "stays_gone N m s'"
    using a(1) perform_gone [OF _ a(4) w] unfolding stays_gone_def by blast
next
  fix s s' assume a: "stays_gone N m s" and "others s s'"
  from this(2) show "stays_gone N m s'"
    using a by cases (simp_all add: stays_gone_def gone_def)
qed

end
