(* ===== verification/Protocol_Instances.thy ===== *)
theory Protocol_Instances
  imports Protocol_Invariants Data_Leg_Guarantees
begin

text \<open>
  Concrete snapshots, stores and reads on which the properties of the capture protocol are witnessed.
\<close>

section \<open>Instances\<close>

text \<open>
  A snapshot \<open>leaf\<close> with a checkpoint and a volume that are durable (\<open>demo_durable\<close>), in a store that may hold its
  requests, and a parent of it.
\<close>

definition demo_durable :: env where
  "demo_durable = (let c = (demo_content (Some (bare_binding demo_ref (demo_artifact ''vuid''))))\<lparr>ct_mcp_name := NVal ''mcp''\<rparr> in
     (demo_env None ''True'' ''Completed'' [])\<lparr>e_content := (\<lambda>_. Found c), live_content := (\<lambda>_. Found c),
       e_vsc := (\<lambda>_. Found (demo_vsc\<lparr>vs_owner_refs := [content_owner (demo_content None)]\<rparr>)),
       e_mcp := (\<lambda>_. Found \<lparr>mp_name = ''mcp'', mp_owner_refs = [content_owner (demo_content None)],
         mp_conditions = [\<lparr>co_type = ConditionReady, co_status = ConditionTrue, co_reason = '''', co_message = '''',
           co_gen = 0, co_time = ''''\<rparr>], mp_chunks = [], mp_finalizers = []\<rparr>)\<rparr>)"

definition demo_uids :: "snap_key \<Rightarrow> string" where
  "demo_uids = (\<lambda>_. ''luid'')"

definition demo_sdk :: sdk where
  "demo_sdk = \<lparr>sd_digest = (\<lambda>x. x), sd_env = sample_env, sd_scheme = (\<lambda>_. None)\<rparr>"

definition demo_legs :: legs where
  "demo_legs = \<lparr>lg_env = sample_env, lg_registry = NewGVKRegistry, lg_domain_kinds = [''disk''], lg_key = (\<lambda>_. ''disk'')\<rparr>"

definition demo_mcr :: string where
  "demo_mcr = ManifestCaptureRequestName (\<lambda>x. x) ''luid''"

definition demo_vcr_name :: string where
  "demo_vcr_name = VolumeCaptureRequestName (\<lambda>x. x) ''luid''"

definition demo_gvk :: gvk where
  "demo_gvk = gvk_of sample_env ''demo.io/v1'' ''DiskSnapshot''"

text \<open>A planned snapshot with the given name, version, children and latches.\<close>

definition demo_node :: "string \<Rightarrow> nat \<Rightarrow> snapshot_child_ref list \<Rightarrow> (string \<Rightarrow> bool option) \<Rightarrow> capture_node" where
  "demo_node nm ver refs latches = \<lparr>cn_gvk = demo_gvk, cn_namespace = ''ns'', cn_name = nm, cn_uid = ''luid'', cn_owner_refs = [],
     cn_protected = True, cn_version = ver, cn_bound = ''content'', cn_conditions = [], cn_source = None,
     cn_children = NVal (map Some refs), cn_latches = latches,
     cn_domain = \<lparr>ManifestCaptureRequestName_of = demo_mcr, VolumeCaptureRequestName_of = demo_vcr_name, ExcludedRefs_of = [],
       Phase_of = PhasePlanned, Reason_of = '''', Message_of = ''''\<rparr>\<rparr>"

definition demo_key :: "string \<Rightarrow> snap_key" where
  "demo_key nm = (demo_gvk, ''ns'', nm)"

definition demo_store :: "capture_node list \<Rightarrow> manifest_request option \<Rightarrow> volume_request option \<Rightarrow> store" where
  "demo_store ns q v = \<lparr>st_nodes = map_of (map (\<lambda>n. (snap_key n, n)) ns), st_requests = (\<lambda>_ _. q), st_volumes = (\<lambda>_ _. v),
     st_uid = demo_uids\<rparr>"

lemma demo_node_simps [simp]:
  "snap_key (demo_node nm ver refs l) = demo_key nm" "cn_namespace (demo_node nm ver refs l) = ''ns''"
  "cn_uid (demo_node nm ver refs l) = ''luid''" "mcr_name (demo_node nm ver refs l) = demo_mcr"
  "vcr_name (demo_node nm ver refs l) = demo_vcr_name" "node_phase (demo_node nm ver refs l) = PhasePlanned"
  "declared (demo_node nm ver refs l) = refs" "cn_latches (demo_node nm ver refs l) = l" "cn_gvk (demo_node nm ver refs l) = demo_gvk"
  "cn_bound (demo_node nm ver refs l) = ''content''" "cn_version (demo_node nm ver refs l) = ver"
  "ExcludedRefs_of (cn_domain (demo_node nm ver refs l)) = []"
  by (simp_all add: demo_node_def demo_key_def snap_key_def node_phase_def declared_def)

lemma demo_key_eq [simp]: "demo_key a = demo_key b \<longleftrightarrow> a = b"
  by (simp add: demo_key_def)

lemma demo_latched [simp]: "latched (demo_node nm ver refs l) leg \<longleftrightarrow> l leg = Some True"
  by (simp add: ownerCommonLegCaptured_def)

lemma demo_request_names [simp]: "demo_mcr \<noteq> ''''" "demo_vcr_name \<noteq> ''''"
  by (simp_all add: demo_mcr_def demo_vcr_name_def ManifestCaptureRequestName_def VolumeCaptureRequestName_def)

lemma demo_sdk_simps [simp]: "sd_digest demo_sdk = (\<lambda>x. x)" "sd_scheme demo_sdk k = None" "sd_env demo_sdk = sample_env"
  by (simp_all add: demo_sdk_def)

lemma demo_legs_simps [simp]:
  "lg_env demo_legs = sample_env" "isDomainCaptureKind_content demo_legs k" "RequiresDataArtifact kind (lg_registry demo_legs) = False"
  by (simp_all add: demo_legs_def isDomainCaptureKind_content_def RequiresDataArtifact_def NewGVKRegistry_def)

lemma demo_node_ok: "node_ok (demo_uids, \<lambda>x. x) (demo_node nm ver refs l)"
  by (simp add: node_ok_def demo_uids_def request_name_def volume_name_def demo_mcr_def demo_vcr_name_def)

lemma demo_store_simps [simp]:
  "st_requests (demo_store ns q v) = (\<lambda>_ _. q)" "st_volumes (demo_store ns q v) = (\<lambda>_ _. v)"
  "st_nodes (demo_store [] q v) = Map.empty" "st_nodes (demo_store (n # ns) q v) = (st_nodes (demo_store ns q v))(snap_key n \<mapsto> n)"
  by (simp_all add: demo_store_def)

lemma demo_store_ok:
  assumes "\<And>n. n \<in> set ns \<Longrightarrow> \<exists>nm ver refs l. n = demo_node nm ver refs l"
  shows "store_ok (demo_uids, \<lambda>x. x) (demo_store ns q v)"
proof -
  have "snap_key n = k \<and> n \<in> set ns" if "st_nodes (demo_store ns q v) k = Some n" for k n
    using map_of_SomeD [OF that [unfolded demo_store_def, simplified]] by auto
  moreover have "node_ok (demo_uids, \<lambda>x. x) n" if "n \<in> set ns" for n
    using assms [OF that] demo_node_ok by (elim exE) (simp only:)
  moreover have "st_uid (demo_store ns q v) = fst (demo_uids, \<lambda>x. x)" by (simp add: demo_store_def)
  ultimately show ?thesis unfolding store_ok_def by blast
qed

lemma demo_le: "ver < ver' \<Longrightarrow> (\<And>leg. l leg = Some True \<Longrightarrow> l' leg = Some True) \<Longrightarrow> node_le (demo_node nm ver refs l) (demo_node nm ver' refs l')"
  by (simp add: node_le_def)

lemma demo_safe:
  "ManifestCaptureRequestSafeToDelete demo_durable ns r ''content'' = Inr True"
  "observeOwnerDataLegVCR demo_durable ns v ''content'' = Inr True"
  "VolumeCaptureRequestSafeToDeleteWithHandoff demo_durable ns v ''content'' = Inr True"
  by (simp_all add: demo_durable_def ManifestCaptureRequestSafeToDelete_def isManifestCheckpointDurable_def
      content_ref_def demo_content_uid demo_defs observeOwnerDataLegVCR_def VolumeCaptureRequestSafeToDeleteWithHandoff_def
      ParseVolumeCaptureTargets_def ParseVolumeCaptureDataRefs_def GetStatusDataRefs_def isPublishedDataRefsComplete_def
      ContentDataRefsCoverExpectedTargets_def VolumeSnapshotContentOwnedByContent_def Let_def)

lemma latch_five:
  "latch_attempts 5 k change = live_node k (\<lambda>fresh. case change fresh of
     None \<Rightarrow> Return (Inr ())
   | Some m \<Rightarrow> Write (PatchStatus m) (\<lambda>x. case x of
       None \<Rightarrow> Return (Inr ())
     | Some c \<Rightarrow> if c = conflict then latch_attempts 4 k change else Return (Inl (ApiFault c))))"
proof -
  have "latch_attempts 5 k change = latch_attempts (Suc 4) k change" by (simp only: eval_nat_numeral)
  then show ?thesis by (simp only: latch_attempts.simps)
qed

text \<open>The content of the snapshot, and its manifest request.\<close>

definition demo_bound_content :: snapshot_content where
  "demo_bound_content = sample_content\<lparr>ct_snapshot_ref := \<lparr>sr_apiVersion = ''demo.io/v1'', sr_kind = ''DiskSnapshot'', sr_name = ''leaf'',
     sr_namespace = ''ns'', sr_uid = ''luid''\<rparr>\<rparr>"

lemma demo_bound_simps:
  "ct_name demo_bound_content = ''content''" "sr_apiVersion (ct_snapshot_ref demo_bound_content) = ''demo.io/v1''"
  "sr_kind (ct_snapshot_ref demo_bound_content) = ''DiskSnapshot''" "sr_name (ct_snapshot_ref demo_bound_content) = ''leaf''"
  "sr_namespace (ct_snapshot_ref demo_bound_content) = ''ns''"
  by (simp_all add: demo_bound_content_def sample_content_def)

lemma demo_capture_reads:
  "parse_gv_error sample_env av = None" "gvk_of sample_env ''demo.io/v1'' ''DiskSnapshot'' = demo_gvk"
  by (simp_all add: demo_gvk_def) (simp add: sample_env_def)

definition demo_manifest_request :: manifest_request where
  "demo_manifest_request = \<lparr>mq_owner_refs = [], mq_targets = []\<rparr>"

end
