(* ===== verification/Protocol_Properties.thy ===== *)
theory Protocol_Properties
  imports Protocol_Instances
begin

text \<open>
  What holds in every interleaving of the domain controllers, the content controller and the other writers, and
  what one undisturbed pass achieves. \<open>reached\<close> are the moments of the runs that start, with no pass in flight,
  from a store in which latches rest on evidence (a new cluster, where nothing is latched, is one).
\<close>

section \<open>Runs\<close>

definition starts_sound :: "env set \<Rightarrow> naming \<Rightarrow> env \<Rightarrow> store \<Rightarrow> bool" where
  "starts_sound E N e s \<longleftrightarrow> store_ok N s \<and> evidenced E s \<and> planned_tree e s"

definition reached :: "env set \<Rightarrow> legs \<Rightarrow> sdk \<Rightarrow> snap_key set \<Rightarrow> (snap_key \<Rightarrow> string) \<Rightarrow> history \<times> unit prog list \<Rightarrow> bool" where
  "reached E lg sd W uids C \<longleftrightarrow>
     (\<exists>s. starts_sound E (uids, sd_digest sd) (lg_env lg) s \<and> run E (capture_programs lg sd W) ([s], []) C)"

lemma nothing_latched_sound:
  "store_ok N s \<Longrightarrow> (\<And>k n leg. st_nodes s k = Some n \<Longrightarrow> \<not> latched n leg) \<Longrightarrow> starts_sound E N e s"
  unfolding starts_sound_def evidenced_def planned_tree_def by blast

lemma history_start: "store_ok N s \<Longrightarrow> history_ok N [s]"
  by (simp add: history_ok_def)

lemma reached_keeps:
  assumes "reached E lg sd W uids (H, ps)"
  shows "history_ok (uids, sd_digest sd) H \<and> evidenced E (hd H) \<and> planned_tree (lg_env lg) (hd H) \<and>
    (\<forall>p\<in>set ps. in_line (capture_rules E (uids, sd_digest sd) (lg_env lg) None) {} (hd H) p)"
proof -
  let ?N = "(uids, sd_digest sd)"
  obtain s where s: "store_ok ?N s" "evidenced E s" "planned_tree (lg_env lg) s" "run E (capture_programs lg sd W) ([s], []) (H, ps)"
    using assms unfolding reached_def starts_sound_def by blast
  have c: "conforms (capture_rules E ?N (lg_env lg) None) always {} p" if "capture_programs lg sd W p" for p
    using conforms_programs [OF that, of ?N "lg_env lg" None] by (simp add: unrivalled_def)
  have h: "holds (hd [s]) {}" by (simp add: holds_def)
  have i: "evidenced E (hd [s])" "planned_tree (lg_env lg) (hd [s])" using s(2,3) by simp_all
  from evidence.run_keeps [OF s(4) history_start [OF s(1)] h i(1) _ c] planned.run_keeps [OF s(4) history_start [OF s(1)] h i(2) _ c]
  show ?thesis by simp
qed

lemma continued:
  assumes "reached E lg sd W uids (H, ps)" and "run E (capture_programs lg sd W) (H, ps) (H', ps')"
  shows "evolves (hd H) (hd H') \<and> planned_tree (lg_env lg) (hd H') \<and> history_ok (uids, sd_digest sd) H'"
proof -
  let ?N = "(uids, sd_digest sd)"
  have k: "history_ok ?N H" "planned_tree (lg_env lg) (hd H)"
    "\<And>p. p \<in> set ps \<Longrightarrow> in_line (capture_rules E ?N (lg_env lg) None) {} (hd H) p" using reached_keeps [OF assms(1)] by blast+
  have c: "conforms (capture_rules E ?N (lg_env lg) None) always {} p" if "capture_programs lg sd W p" for p
    using conforms_programs [OF that, of ?N "lg_env lg" None] by (simp add: unrivalled_def)
  have h: "holds (hd H) {}" by (simp add: holds_def)
  from planned.run_keeps [OF assms(2) k(1) h k(2) k(3) c] show ?thesis by blast
qed

lemma run_trans: "run E starts C D \<Longrightarrow> run E starts D F \<Longrightarrow> run E starts C F"
proof (rotate_tac, induction rule: run.induct)
  case (spawn H ps p)
  then show ?case using run.spawn by blast
next
  case (step H ps i p' H')
  then show ?case using run.step by blast
next
  case (other s H ps s')
  then show ?case using run.other by blast
qed

lemma run_one:
  assumes "run E starts C (H, [p])" and "advance E (p, H) (p', H')"
  shows "run E starts C (H', [p'])"
  using run.step [OF assms(1), of 0 p' H'] assms(2) by simp

section \<open>The tree below a snapshot\<close>

inductive_set below :: "env \<Rightarrow> store \<Rightarrow> snap_key \<Rightarrow> snap_key set" for e s k where
  itself: "k \<in> below e s k"
| child: "j \<in> below e s k \<Longrightarrow> st_nodes s j = Some n \<Longrightarrow> ref \<in> set (declared n) \<Longrightarrow> child_key e n ref \<in> below e s k"

lemma below_planned:
  assumes "planned_tree e s" and "planned_at s k" and "j \<in> below e s k"
  shows "planned_at s j"
  using assms(3)
proof induction
  case (child j n ref)
  then have "latched n ''subtreePlanned''" by (simp add: planned_at_def)
  then have "planned_evidence e (planned_at s) n" using assms(1) child.hyps(2) unfolding planned_tree_def by blast
  then show ?case using child.hyps(3) unfolding planned_evidence_def by blast
qed (rule assms(2))

lemma planned_evolves:
  assumes "planned_tree e s" and "planned_at s j" and "evolves s s'"
  obtains n n' where "st_nodes s j = Some n" "st_nodes s' j = Some n'" "childrenSetFrozen (node_phase n)" "declared n' = declared n"
    "ExcludedRefs_of (cn_domain n') = ExcludedRefs_of (cn_domain n)" "cn_namespace n' = cn_namespace n"
    "latched n' ''subtreePlanned''"
proof -
  obtain n where n: "st_nodes s j = Some n" "latched n ''subtreePlanned''" using assms(2) unfolding planned_at_def by blast
  then have "planned_evidence e (planned_at s) n" using assms(1) unfolding planned_tree_def by blast
  then have f: "childrenSetFrozen (node_phase n)" by (simp add: planned_evidence_def)
  obtain n' where n': "st_nodes s' j = Some n'" "node_le n n'" using assms(3) n(1) unfolding evolves_def by blast
  have d: "declared n' = declared n" "ExcludedRefs_of (cn_domain n') = ExcludedRefs_of (cn_domain n)"
    using n'(2) f by (simp_all only: node_le_def simp_thms)
  show ?thesis by (rule that [OF n(1) n'(1) f d node_le_namespace [OF n'(2)] node_le_latched [OF n'(2) n(2)]])
qed

lemma below_final:
  assumes "planned_tree e s" and "planned_at s k" and "evolves s s'"
  shows "below e s' k = below e s k"
proof (rule antisym; rule subsetI)
  fix j assume "j \<in> below e s' k"
  then show "j \<in> below e s k"
  proof induction
    case (child j n' ref)
    from planned_evolves [OF assms(1) below_planned [OF assms(1,2) child.IH] assms(3)]
    obtain n m where n: "st_nodes s j = Some n" "st_nodes s' j = Some m" "declared m = declared n" "cn_namespace m = cn_namespace n"
      by metis
    then have "n' = m" using child.hyps(2) by simp
    then have "child_key e n' ref = child_key e n ref" "ref \<in> set (declared n)"
      using n(3,4) child.hyps(3) by (simp_all add: child_key_def)
    then show ?case using below.child [OF child.IH n(1)] by simp
  qed (rule below.itself)
next
  fix j assume "j \<in> below e s k"
  then show "j \<in> below e s' k"
  proof induction
    case (child j n ref)
    from planned_evolves [OF assms(1) below_planned [OF assms(1,2) child.hyps(1)] assms(3)]
    obtain m n' where n: "st_nodes s j = Some m" "st_nodes s' j = Some n'" "declared n' = declared m" "cn_namespace n' = cn_namespace m"
      by metis
    then have "n = m" using child.hyps(2) by simp
    then have "child_key e n ref = child_key e n' ref" "ref \<in> set (declared n')"
      using n(3,4) child.hyps(3) by (simp_all add: child_key_def)
    then show ?case using below.child [OF child.IH n(2)] by simp
  qed (rule below.itself)
qed

lemma node_le_names:
  "node_le a b \<Longrightarrow> mcr_name a = r \<Longrightarrow> r \<noteq> '''' \<Longrightarrow> mcr_name b = r"
  "node_le a b \<Longrightarrow> vcr_name a = r \<Longrightarrow> r \<noteq> '''' \<Longrightarrow> vcr_name b = r"
  unfolding node_le_def by blast+

section \<open>Properties of every interleaving\<close>











text \<open>
  C10: The volume request has a gap that the manifest request has not. The check that \<open>EnsureVolumeCapture\<close> makes
  on the fresh snapshot is skipped when the cache still shows the request; if the second read of the same call
  finds it gone, the call creates the request anew, although the data leg is latched and the request was deleted
  for good: for every such pair of an old state in the cache and the current one there is a run that ends so.
\<close>

theorem captured_volume_made_again:
  assumes "s = hd H" "H \<noteq> []" "old \<in> set H" "k \<in> W" "st_nodes old k = Some t" "snap_key t = k"
    "\<not> ownerCommonLegCaptured t ''dataCaptured''" "v = VolumeCaptureRequestName (sd_digest sd) (cn_uid t)" "vcr_name t = v"
    "st_volumes old (cn_namespace t) v = Some q" "parseTargets q = Inr (x # xs)" "sd_scheme sd (cn_gvk t) = None"
    "st_nodes s k = Some n" "ownerCommonLegCaptured n ''dataCaptured''" "st_volumes s (cn_namespace t) v = None"
  shows "\<exists>s'. run E (capture_programs lg sd W) (H, []) (s' # H, [Return ()]) \<and>
    st_nodes s' k = Some n \<and> ownerCommonLegCaptured n ''dataCaptured'' \<and> st_volumes s' (cn_namespace t) v \<noteq> None"
proof -
  let ?P = "capture_programs lg sd W" and ?ns = "cn_namespace t"
  let ?script = "Make (CallVolume (Some x)) (\<lambda>_ _. Stop)"
  let ?p0 = "domain_pass sd 1 k (\<lambda>_. ?script)"
  have H: "H = s # tl H" using assms(1,2) by simp
  have s: "s \<in> set H" by (subst H) simp
  obtain owner where o: "sdk_ownerRef sd t = Inr owner" using assms(12) by (simp add: sdk_ownerRef_def)
  have nc: "\<not> dataCaptured (CoreCaptureState t)"
    using assms(7) by (simp add: dataCaptured_def CoreCaptureState_def ownerCommonLegCaptured_def)
  have v: "v \<noteq> ''''" unfolding assms(8) by (simp add: VolumeCaptureRequestName_def)
  let ?q = "newVolumeCaptureRequestObject ?ns owner [x]"
  have "\<exists>g h f. follow sd 1 ?script t = Volume ?ns v g \<and> g (Found q) = Volume ?ns v h \<and>
      h NotFound = Write (CreateVolume ?ns v ?q) f \<and> f None = Return ()"
    using v nc o assms(9,11) by (simp add: EnsureVolumeCapture_def OwnedPVCTarget_def publish_volume_def assms(8) [symmetric] Let_def)
  then obtain g h f where p: "follow sd 1 ?script t = Volume ?ns v g" "g (Found q) = Volume ?ns v h"
    "h NotFound = Write (CreateVolume ?ns v ?q) f" "f None = Return ()" by blast
  let ?s' = "put_volume ?ns v (Some ?q) s"
  have "run E ?P (H, []) (H, [] @ [?p0])"
    by (rule run.spawn [OF run.here]) (use assms(4) in \<open>auto simp: capture_programs_def\<close>)
  then have "run E ?P (H, []) (H, [?p0])" by simp
  from run_one [OF this, unfolded domain_pass_def, OF advance.cached [OF assms(3)]]
  have "run E ?P (H, []) (H, [follow sd 1 ?script t])" using assms(5) by (simp only: found_simps get_res.case)
  from run_one [OF this [unfolded p(1)] advance.volume [OF assms(3)]]
  have "run E ?P (H, []) (H, [Volume ?ns v h])" using assms(10) p(2) by (simp only: found_simps)
  from run_one [OF this advance.volume [OF s]]
  have "run E ?P (H, []) (H, [Write (CreateVolume ?ns v ?q) f])" using assms(15) p(3) by (simp only: found_simps)
  then have "run E ?P (H, []) (s # tl H, [Write (CreateVolume ?ns v ?q) f])" using H by simp
  from run_one [OF this advance.served [where x = None and s' = ?s']]
  have "run E ?P (H, []) (?s' # s # tl H, [Return ()])" using assms(15) p(4) by simp
  then have "run E ?P (H, []) (?s' # H, [Return ()])" using H by simp
  then show ?thesis using assms(13,14) by (intro exI [of _ ?s']) simp
qed

lemma captured_volume_made_again_witness:
  "\<exists>s old s'. run {} (capture_programs demo_legs demo_sdk {demo_key ''leaf''}) ([s, old], []) ([s', s, old], [Return ()]) \<and>
    st_volumes s ''ns'' demo_vcr_name = None \<and> st_volumes s' ''ns'' demo_vcr_name \<noteq> None \<and>
    (\<exists>n. st_nodes s' (demo_key ''leaf'') = Some n \<and> ownerCommonLegCaptured n ''dataCaptured'')"
proof -
  let ?t = "demo_node ''leaf'' 1 [] Map.empty" and ?m = "demo_node ''leaf'' 2 [] [''dataCaptured'' \<mapsto> True]"
  let ?x = "\<lparr>tg_uid = ''puid'', tg_apiVersion = ''v1'', tg_kind = ''PersistentVolumeClaim'', tg_name = ''pvc'', tg_namespace = ''ns''\<rparr>"
  let ?q = "\<lparr>vq_namespace = ''ns'', vq_owner_refs = [], vq_target = NVal (Some ?x)\<rparr>"
  let ?s = "demo_store [?m] None None" and ?old = "demo_store [?t] None (Some ?q)"
  have "parseTargets ?q = Inr [?x]" by (simp add: parseTargets_def)
  from captured_volume_made_again [of ?s "[?s, ?old]" ?old "demo_key ''leaf''" "{demo_key ''leaf''}" ?t demo_vcr_name demo_sdk ?q ?x "[]" ?m "{}" demo_legs]
    this obtain s' where s': "run {} (capture_programs demo_legs demo_sdk {demo_key ''leaf''}) ([?s, ?old], []) (s' # [?s, ?old], [Return ()])"
      "st_nodes s' (demo_key ''leaf'') = Some ?m" "st_volumes s' ''ns'' demo_vcr_name \<noteq> None"
    by (auto simp: demo_vcr_name_def [symmetric])
  then show ?thesis by (intro exI [of _ ?s] exI [of _ ?old] exI [of _ s']) simp
qed

end
