(* ===== verification/Protocol_Progress.thy ===== *)
theory Protocol_Progress
  imports Protocol_Properties
begin

text \<open>
  What one pass of the content controller achieves when it runs alone: a leg whose result is durable is latched
  and its request deleted, and the domain controller that comes back leaves it so.
\<close>

section \<open>Programs alone\<close>

text \<open>A program alone is a run, so its guarantee holds of its result.\<close>

lemma alone_conforms:
  assumes "conforms ru Q K p" and "e \<in> ru_answers ru" and "holds s K" and "store_ok (ru_naming ru) s" and "alone e p s = (x, s')"
  shows "evolves s s' \<and> store_ok (ru_naming ru) s' \<and> (\<exists>K'. K \<subseteq> K' \<and> Q K' x \<and> holds s' K')"
  using assms(1,3-5)
proof (induction p arbitrary: K s)
  case (Node live k f)
  show ?case
  proof (cases "st_nodes s k")
    case None
    then show ?thesis using Node.IH [OF rangeI, of K NotFound s] Node.prems by simp
  next
    case (Some n)
    have n: "snap_key n = k" "node_ok (ru_naming ru) n" using store_okD [OF Node.prems(3) Some] by auto
    have "\<forall>m\<in>K. snap_key m = k \<longrightarrow> node_le m n" using live_read [OF Some Node.prems(2)] by blast
    then have "conforms ru Q (insert n K) (f (Found n))" using Node.prems(1) n by simp
    moreover have "holds s (insert n K)" by (rule holds_insert [OF Node.prems(2) _ node_le_refl]) (simp add: n(1) Some)
    moreover have "alone e (f (Found n)) s = (x, s')" using Node.prems(4) Some by simp
    ultimately show ?thesis using Node.IH [OF rangeI, of "insert n K" "Found n" s] Node.prems(3) by blast
  qed
next
  case (Request ns n f)
  show ?case by (rule Request.IH [OF rangeI]) (use Request.prems in auto)
next
  case (Volume ns n f)
  show ?case by (rule Volume.IH [OF rangeI]) (use Volume.prems in auto)
next
  case (Observe f)
  show ?case by (rule Observe.IH [OF rangeI]) (use Observe.prems assms(2) in auto)
next
  case (Write w f)
  obtain y s1 where w: "perform w s = (y, s1)" by fastforce
  have l: "lawful (ru_naming ru) K w" "conforms ru Q (learned K w y) (f y)" using Write.prems(1) by simp_all
  note a = perform_evolves [OF w l(1) Write.prems(2,3)] perform_learned [OF w l(1) Write.prems(2,3)]
  have "alone e (f y) s1 = (x, s')" using Write.prems(4) w by simp
  from Write.IH [OF rangeI l(2) a(2) conjunct2 [OF a(1)] this] show ?case
    using a(1) learned_grows [of K w y] evolves_trans by blast
qed auto

text \<open>Programs that only patch snapshots leave the requests alone.\<close>

primrec patches_only :: "'a prog \<Rightarrow> bool" where
  "patches_only (Return x) = True"
| "patches_only (Node live k f) = (\<forall>r. patches_only (f r))"
| "patches_only (Request ns n f) = (\<forall>r. patches_only (f r))"
| "patches_only (Volume ns n f) = (\<forall>r. patches_only (f r))"
| "patches_only (Observe f) = (\<forall>e. patches_only (f e))"
| "patches_only (Write w f) = ((\<exists>m. w = PatchStatus m) \<and> (\<forall>x. patches_only (f x)))"

lemma patches_only_requests:
  "patches_only p \<Longrightarrow> alone e p s = (x, s') \<Longrightarrow> st_requests s' = st_requests s \<and> st_volumes s' = st_volumes s"
proof (induction p arbitrary: s)
  case (Write w f)
  then obtain m where m: "w = PatchStatus m" by auto
  have "st_requests (snd (perform w s)) = st_requests s" "st_volumes (snd (perform w s)) = st_volumes s"
    by (simp_all add: m split: option.split)
  then show ?case using Write.IH [OF rangeI, of "fst (perform w s)" "snd (perform w s)"] Write.prems by simp
qed auto

lemma patches_only_and_then: "patches_only p \<Longrightarrow> (\<And>x. patches_only (g x)) \<Longrightarrow> patches_only (and_then p g)"
  by (induction p) auto

lemma patches_only_if_ok: "patches_only p \<Longrightarrow> (\<And>x. patches_only (g x)) \<Longrightarrow> patches_only (if_ok p g)"
  unfolding if_ok_def by (rule patches_only_and_then) (auto split: sum.split)

lemma patches_only_latch: "patches_only (latch_attempts j k change)"
  by (induction j) (auto simp: live_node_def split: get_res.splits option.splits)

lemma patches_only_observed: "patches_only (observed d)"
  by (simp add: observed_def)

lemma patches_only_each: "patches_only (each_child f good ns refs)"
  by (induction refs) (auto split: option.splits get_res.splits)

lemma patches_only_legs:
  "patches_only (eagerInitOwnerCaptureLegs lg owner)" "patches_only (persisted_leg c owner)" "patches_only (planned_leg lg owner)"
  "patches_only (settled_leg lg owner)" "patches_only (setOwnerCaptureLegCaptured owner leg)"
  by (auto simp: eagerInitOwnerCaptureLegs_def persisted_leg_def planned_leg_def settled_leg_def setOwnerCaptureLegCaptured_def
      setOwnerChildSubtreesManifestsPersisted_def allDirectChildrenSubtreePlanned_def allDirectChildrenSettled_def
      split: nested.splits prod.splits
      intro!: patches_only_if_ok patches_only_latch patches_only_observed patches_only_each)

lemma alone_if_ok:
  "alone e p s = (Inr a, s1) \<Longrightarrow> alone e (if_ok p g) s = alone e (g a) s1"
  by (simp add: if_ok_def alone_and_then)

lemma alone_latch:
  assumes "st_nodes s k = Some n" and "snap_key n = k" and "\<And>m. change n = Some m \<Longrightarrow> snap_key m = snap_key n \<and> cn_version m = cn_version n"
  shows "\<exists>s'. alone e (latch_attempts (Suc j) k change) s = (Inr (), s')"
  using assms by (cases "change n") (auto simp: live_node_def)

lemma alone_observed: "d e = Inr a \<Longrightarrow> alone e (observed d) s = (Inr a, s)"
  by (simp add: observed_def)

section \<open>The stages of a pass\<close>

lemma alone_capture_leg:
  assumes "st_nodes s (snap_key owner) = Some cur" and "snap_key cur = snap_key owner"
  shows "\<exists>s' n'. alone e (setOwnerCaptureLegCaptured owner leg) s = (Inr (), s') \<and> st_nodes s' (snap_key owner) = Some n' \<and>
    latched n' leg \<and> st_requests s' = st_requests s \<and> st_volumes s' = st_volumes s"
proof (cases "latched cur leg")
  case True
  then show ?thesis using assms
    by (simp add: setOwnerCaptureLegCaptured_def capture_leg_def eval_nat_numeral live_node_def)
next
  case False
  have "snap_key (patched (set_latch leg True cur) cur) = snap_key owner" using assms(2) by simp
  then show ?thesis using assms False
    by (simp add: setOwnerCaptureLegCaptured_def capture_leg_def eval_nat_numeral live_node_def)
qed

lemma alone_reap:
  "\<exists>s'. alone e (reapManifestCaptureRequest ns r) s = (Inr (), s') \<and> st_requests s' ns r = None \<and> st_nodes s' = st_nodes s \<and>
     st_volumes s' = st_volumes s"
  by (cases "st_requests s ns r") (simp_all add: reapManifestCaptureRequest_def)

lemma alone_reap_volume:
  "\<exists>s'. alone e (reapVolumeCaptureRequest ns r) s = (Inr (), s') \<and> st_volumes s' ns r = None \<and> st_nodes s' = st_nodes s \<and>
     st_requests s' = st_requests s"
  by (cases "st_volumes s ns r") (simp_all add: reapVolumeCaptureRequest_def)

text \<open>The two forms of a leg, of a durable result: latch and reap, or reap what is left over.\<close>

lemma alone_latch_reap:
  assumes "st_nodes s (snap_key owner) = Some cur" and "snap_key cur = snap_key owner"
  shows "\<exists>s' n'. alone e (if_ok (setOwnerCaptureLegCaptured owner leg) (\<lambda>_. reapManifestCaptureRequest ns r)) s = (Inr (), s') \<and>
    st_nodes s' (snap_key owner) = Some n' \<and> latched n' leg \<and> st_requests s' ns r = None \<and> st_volumes s' = st_volumes s"
proof -
  obtain s1 n1 where 1: "alone e (setOwnerCaptureLegCaptured owner leg) s = (Inr (), s1)" "st_nodes s1 (snap_key owner) = Some n1"
    "latched n1 leg" "st_volumes s1 = st_volumes s" using alone_capture_leg [OF assms] by blast
  obtain s2 where 2: "alone e (reapManifestCaptureRequest ns r) s1 = (Inr (), s2)" "st_requests s2 ns r = None" "st_nodes s2 = st_nodes s1"
    "st_volumes s2 = st_volumes s1" using alone_reap by blast
  have "alone e (if_ok (setOwnerCaptureLegCaptured owner leg) (\<lambda>_. reapManifestCaptureRequest ns r)) s = (Inr (), s2)"
    using 2(1) by (simp add: alone_if_ok [OF 1(1)])
  then show ?thesis using 1(2-4) 2(2-4) by (intro exI conjI) (assumption, simp_all)
qed

lemma alone_manifest:
  assumes "st_nodes s (snap_key owner) = Some cur" and "snap_key cur = snap_key owner" and "node_le owner cur"
    and "mcr_name owner = r" and "r \<noteq> ''''" and "ManifestCaptureRequestSafeToDelete e ns r contentName = Inr True"
  shows "\<exists>s' n'. alone e (owner_manifest_leg ns contentName owner) s = (Inr (), s') \<and> st_nodes s' (snap_key owner) = Some n' \<and>
    latched n' ''manifestCaptured'' \<and> st_requests s' ns r = None \<and> st_volumes s' = st_volumes s"
proof (cases "latched owner ''manifestCaptured''")
  case True
  have l: "latched cur ''manifestCaptured''" by (rule node_le_latched [OF assms(3) True])
  have leg: "alone e (owner_manifest_leg ns contentName owner) s = (case found (st_requests s ns r) of NotFound \<Rightarrow> (Inr (), s)
      | GetErr x \<Rightarrow> (Inl (ReadFault x), s) | Found _ \<Rightarrow> alone e (reapManifestCaptureRequest ns r) s)"
    using True assms(4,5) by (simp add: owner_manifest_leg_def Let_def split: get_res.split)
  obtain s2 where 2: "alone e (reapManifestCaptureRequest ns r) s = (Inr (), s2)" "st_requests s2 ns r = None" "st_nodes s2 = st_nodes s"
    "st_volumes s2 = st_volumes s" using alone_reap by blast
  show ?thesis
  proof (cases "st_requests s ns r")
    case None
    then show ?thesis using leg assms(1) l by simp
  next
    case (Some q)
    then show ?thesis using leg 2 assms(1) l by simp
  qed
next
  case False
  have "alone e (owner_manifest_leg ns contentName owner) s =
      alone e (if_ok (setOwnerCaptureLegCaptured owner ''manifestCaptured'') (\<lambda>_. reapManifestCaptureRequest ns r)) s"
    using False assms(4,5) by (simp add: owner_manifest_leg_def Let_def
        alone_if_ok [OF alone_observed [of "\<lambda>e. ManifestCaptureRequestSafeToDelete e ns r contentName", OF assms(6)]])
  then show ?thesis using alone_latch_reap [OF assms(1,2)] by simp
qed

lemma alone_volume:
  assumes "st_nodes s (snap_key owner) = Some cur" and "snap_key cur = snap_key owner" and "node_le owner cur"
    and "vcr_name owner = v" and "v \<noteq> ''''" and "observeOwnerDataLegVCR e ns v contentName = Inr True"
    and "VolumeCaptureRequestSafeToDeleteWithHandoff e ns v contentName = Inr True"
  shows "\<exists>s' n'. alone e (owner_volume_leg ns contentName ownerGVK owner) s = (Inr False, s') \<and> st_nodes s' (snap_key owner) = Some n' \<and>
    latched n' ''dataCaptured'' \<and> st_volumes s' ns v = None \<and> st_requests s' = st_requests s"
proof (cases "latched owner ''dataCaptured''")
  case True
  have l: "latched cur ''dataCaptured''" by (rule node_le_latched [OF assms(3) True])
  have leg: "alone e (owner_volume_leg ns contentName ownerGVK owner) s = (case found (st_volumes s ns v) of NotFound \<Rightarrow> (Inr False, s)
      | GetErr x \<Rightarrow> (Inl (ReadFault x), s) | Found _ \<Rightarrow> alone e (if_ok (reapVolumeCaptureRequest ns v) (\<lambda>_. Return (Inr False))) s)"
    using True assms(4,5) by (simp add: owner_volume_leg_def Let_def split: get_res.split)
  obtain s2 where 2: "alone e (reapVolumeCaptureRequest ns v) s = (Inr (), s2)" "st_volumes s2 ns v = None" "st_nodes s2 = st_nodes s"
    "st_requests s2 = st_requests s" using alone_reap_volume by blast
  show ?thesis
  proof (cases "st_volumes s ns v")
    case None
    then show ?thesis using leg assms(1) l by simp
  next
    case (Some q)
    then show ?thesis using leg 2 assms(1) l by (simp add: alone_if_ok [OF 2(1)])
  qed
next
  case False
  obtain s1 n1 where 1: "alone e (setOwnerCaptureLegCaptured owner ''dataCaptured'') s = (Inr (), s1)"
    "st_nodes s1 (snap_key owner) = Some n1" "latched n1 ''dataCaptured''" "st_requests s1 = st_requests s"
    using alone_capture_leg [OF assms(1,2)] by blast
  obtain s2 where 2: "alone e (reapVolumeCaptureRequest ns v) s1 = (Inr (), s2)" "st_volumes s2 ns v = None" "st_nodes s2 = st_nodes s1"
    "st_requests s2 = st_requests s1" using alone_reap_volume by blast
  have "alone e (owner_volume_leg ns contentName ownerGVK owner) s = (Inr False, s2)"
    using False assms(4,5) by (simp add: owner_volume_leg_def Let_def alone_if_ok [OF 1(1)] alone_if_ok [OF 2(1)]
        alone_if_ok [OF alone_observed [of "\<lambda>e. observeOwnerDataLegVCR e ns v contentName", OF assms(6)]]
        alone_if_ok [OF alone_observed [of "\<lambda>e. VolumeCaptureRequestSafeToDeleteWithHandoff e ns v contentName", OF assms(7)]])
  then show ?thesis using 1(2-4) 2(2-4) by simp
qed

text \<open>A stage that returns is followed by the rest; a stage that conforms lets the snapshots evolve.\<close>

lemma stage_evolves:
  assumes "\<And>K. n \<in> K \<Longrightarrow> conforms (capture_rules {e} N f None) always K p" and "alone e p s = (x, s')"
    and "store_ok N s" and "st_nodes s k = Some m" and "node_le n m" and "snap_key n = k"
  shows "store_ok N s' \<and> (\<exists>m'. st_nodes s' k = Some m' \<and> snap_key m' = k \<and> node_le m m' \<and> node_le n m')"
proof -
  have h: "holds s {n}" using assms(4-6) by (simp add: holds_def)
  have "evolves s s'" "store_ok N s'"
    using alone_conforms [OF assms(1) [of "{n}"], of e s x s'] h assms(2,3) by simp_all
  then show ?thesis using assms(4,5) store_okD node_le_trans unfolding evolves_def by blast
qed

definition last_legs :: "legs \<Rightarrow> snapshot_content \<Rightarrow> capture_node \<Rightarrow> bool \<Rightarrow> bool attempt_at" where
  "last_legs lg c owner r1 = if_ok (persisted_leg c owner) (\<lambda>_. if_ok (planned_leg lg owner) (\<lambda>r2.
     if_ok (settled_leg lg owner) (\<lambda>r3. Return (Inr (r1 \<or> r2 \<or> r3)))))"

lemma last_legs_conform:
  assumes "n \<in> K" and "childrenSetFrozen (node_phase n)" and "lg_env lg = f"
  shows "conforms (capture_rules {e} N f None) always K (last_legs lg c n r1)"
  unfolding last_legs_def
  by (intro conforms_step [OF conforms_persisted_leg] conforms_step [OF conforms_planned_leg] conforms_step [OF conforms_settled_leg])
    (use assms in auto)

lemma owner_legs_released:
  assumes s: "store_ok N s" "st_nodes s (snap_key n) = Some n" and ns: "ns = cn_namespace n"
    and f: "childrenSetFrozen (node_phase n)" "lg_env lg = f"
    and r: "mcr_name n = r" "r \<noteq> ''''" "ManifestCaptureRequestSafeToDelete e ns r (ct_name c) = Inr True"
    and v: "vcr_name n = v" "v \<noteq> ''''" "observeOwnerDataLegVCR e ns v (ct_name c) = Inr True"
      "VolumeCaptureRequestSafeToDeleteWithHandoff e ns v (ct_name c) = Inr True"
  shows "\<exists>res s' n'. alone e (owner_legs lg ns g c n) s = (res, s') \<and> st_nodes s' (snap_key n) = Some n' \<and> node_le n n' \<and>
    latched n' ''manifestCaptured'' \<and> latched n' ''dataCaptured'' \<and> st_requests s' ns r = None \<and> st_volumes s' ns v = None"
proof -
  let ?k = "snap_key n"
  obtain s1 where 1: "alone e (eagerInitOwnerCaptureLegs lg n) s = (Inr (), s1)"
  proof -
    have "snap_key m = snap_key n \<and> cn_version m = cn_version n" if "declare_legs b n = Some m" for b m
      using that by (auto simp: declare_legs_def Let_def split: if_splits)
    then have "\<exists>s1. alone e (latch_attempts (Suc 4) (snap_key n) (declare_legs b)) s = (Inr (), s1)" for b
      using alone_latch [OF s(2) refl] by blast
    then show ?thesis using that by (auto simp: eagerInitOwnerCaptureLegs_def eval_nat_numeral)
  qed
  from stage_evolves [OF conforms_eager 1 s node_le_refl refl]
  obtain n1 where n1: "store_ok N s1" "st_nodes s1 ?k = Some n1" "snap_key n1 = ?k" "node_le n n1" by blast
  obtain s2 n2 where 2: "alone e (owner_manifest_leg ns (ct_name c) n) s1 = (Inr (), s2)" "st_nodes s2 ?k = Some n2"
    "latched n2 ''manifestCaptured''" "st_requests s2 ns r = None"
    using alone_manifest [OF n1(2,3,4) r] by blast
  from stage_evolves [OF conforms_manifest_leg [OF _ ns] 2(1) n1(1,2,4) refl] 2(2)
  have n2: "store_ok N s2" "snap_key n2 = ?k" "node_le n n2" by auto
  obtain s3 n3 where 3: "alone e (owner_volume_leg ns (ct_name c) g n) s2 = (Inr False, s3)" "st_nodes s3 ?k = Some n3"
    "latched n3 ''dataCaptured''" "st_volumes s3 ns v = None" "st_requests s3 = st_requests s2"
    using alone_volume [OF 2(2) n2(2,3) v] by blast
  from stage_evolves [OF conforms_volume_leg [OF _ ns] 3(1) n2(1) 2(2) n2(3) refl] 3(2)
  have n3: "store_ok N s3" "node_le n2 n3" "node_le n n3" by auto
  obtain res s4 where 4: "alone e (last_legs lg c n False) s3 = (res, s4)" by fastforce
  from stage_evolves [OF last_legs_conform [OF _ f] 4 n3(1) 3(2) n3(3) refl]
  obtain n4 where n4: "st_nodes s4 ?k = Some n4" "node_le n3 n4" "node_le n n4" by blast
  have "patches_only (last_legs lg c n False)"
    unfolding last_legs_def by (intro patches_only_if_ok patches_only_legs) simp
  note q = patches_only_requests [OF this 4]
  have "alone e (owner_legs lg ns g c n) s = (res, s4)"
    using 4 by (simp add: owner_legs_def alone_if_ok [OF 1] alone_if_ok [OF 2(1)] alone_if_ok [OF 3(1)] last_legs_def)
  moreover have "latched n4 ''manifestCaptured''" "latched n4 ''dataCaptured''"
    using node_le_latched [OF n4(2)] node_le_latched [OF n3(2)] 2(3) 3(3) by blast+
  ultimately show ?thesis using n4(1,3) q 2(4) 3(4,5) by (intro exI conjI) (assumption, simp_all)
qed

section \<open>Property\<close>

text \<open>
  C9: A durable capture is released. One undisturbed pass of the content controller over the bound content of a
  planned snapshot, both of whose results are durable - the checkpoint Ready and handed over, the artifact of the
  volume request published and handed over - latches both legs and deletes both requests, whatever becomes of
  the later steps of the pass; and a domain controller that then asks again for the captures changes nothing.
\<close>

theorem durable_legs_released:
  assumes "store_ok N s" "ct_snapshot_ref c = ref" "sr_apiVersion ref \<noteq> ''''" "sr_kind ref \<noteq> ''''" "sr_name ref \<noteq> ''''"
    "parse_gv_error (lg_env lg) (sr_apiVersion ref) = None" "g = gvk_of (lg_env lg) (sr_apiVersion ref) (sr_kind ref)"
    "isDomainCaptureKind_content lg g" "st_nodes s (g, ns, sr_name ref) = Some n" "sr_namespace ref = ns"
    "cn_bound n = ct_name c" "node_phase n \<in> {PhasePlanned, PhaseFinished}"
    "mcr_name n \<noteq> ''''" "ManifestCaptureRequestSafeToDelete e ns (mcr_name n) (ct_name c) = Inr True"
    "vcr_name n \<noteq> ''''" "observeOwnerDataLegVCR e ns (vcr_name n) (ct_name c) = Inr True"
    "VolumeCaptureRequestSafeToDeleteWithHandoff e ns (vcr_name n) (ct_name c) = Inr True"
  shows "\<exists>res s' n'. alone e (reconcileOwnerCaptureLegs lg c) s = (res, s') \<and> st_nodes s' (g, ns, sr_name ref) = Some n' \<and>
    ownerCommonLegCaptured n' ''manifestCaptured'' \<and> ownerCommonLegCaptured n' ''dataCaptured'' \<and>
    st_requests s' ns (mcr_name n) = None \<and> st_volumes s' ns (vcr_name n) = None \<and>
    (\<forall>sd targets. alone e (EnsureManifestCapture sd targets n') s' = ((None, n'), s')) \<and>
    (\<forall>sd fuel dataRef. alone e (EnsureVolumeCapture sd fuel dataRef n') s' = ((None, n'), s'))"
proof -
  have key: "snap_key n = (g, ns, sr_name ref)" using store_okD [OF assms(1,9)] by blast
  then have ns: "ns = cn_namespace n" by (simp add: snap_key_def)
  have "childrenSetFrozen (node_phase n)" using assms(12) by (auto simp: childrenSetFrozen_def phaseRank_def)
  from owner_legs_released [OF assms(1) assms(9) [folded key] ns this refl refl assms(13,14) refl assms(15-17)]
  obtain res s' n' where w: "alone e (owner_legs lg ns g c n) s = (res, s')" "st_nodes s' (snap_key n) = Some n'"
    "latched n' ''manifestCaptured''" "latched n' ''dataCaptured''" "st_requests s' ns (mcr_name n) = None"
    "st_volumes s' ns (vcr_name n) = None" by blast
  have "alone e (reconcileOwnerCaptureLegs lg c) s = alone e (owner_legs lg ns g c n) s"
    unfolding reconcileOwnerCaptureLegs_def Let_def assms(2,10) assms(7) [symmetric]
    using assms(3-6,8,9,11,12) by (simp add: ownerDomainCaptureAtLeastPlanned_def)
  moreover have "alone e (EnsureManifestCapture sd targets n') s' = ((None, n'), s')" for sd targets
    using w(3) by (simp add: EnsureManifestCapture_def manifestCaptured_def CoreCaptureState_def ownerCommonLegCaptured_def)
  moreover have "alone e (EnsureVolumeCapture sd fuel dataRef n') s' = ((None, n'), s')" for sd fuel dataRef
    using w(4) by (cases dataRef) (simp_all add: EnsureVolumeCapture_def dataCaptured_def CoreCaptureState_def ownerCommonLegCaptured_def)
  ultimately show ?thesis using w key by (intro exI [of _ res] exI [of _ s'] exI [of _ n']) simp
qed

lemma durable_legs_released_witness:
  "\<exists>s res s'. st_requests s ''ns'' demo_mcr \<noteq> None \<and> st_volumes s ''ns'' demo_vcr_name \<noteq> None \<and>
    alone demo_durable (reconcileOwnerCaptureLegs demo_legs demo_bound_content) s = (res, s') \<and>
    st_requests s' ''ns'' demo_mcr = None \<and> st_volumes s' ''ns'' demo_vcr_name = None"
proof -
  let ?n = "demo_node ''leaf'' 1 [] Map.empty"
  let ?s = "demo_store [?n] (Some demo_manifest_request) (Some \<lparr>vq_namespace = ''ns'', vq_owner_refs = [], vq_target = NAbsent\<rparr>)"
  have ok: "store_ok (demo_uids, \<lambda>x. x) ?s" by (rule demo_store_ok) (simp, blast)
  have n: "st_nodes ?s (demo_gvk, ''ns'', sr_name (ct_snapshot_ref demo_bound_content)) = Some ?n"
    by (simp add: demo_key_def demo_bound_simps)
  have "\<exists>res s' n'. alone demo_durable (reconcileOwnerCaptureLegs demo_legs demo_bound_content) ?s = (res, s') \<and>
      st_requests s' ''ns'' (mcr_name ?n) = None \<and> st_volumes s' ''ns'' (vcr_name ?n) = None"
    using durable_legs_released [OF ok refl, of demo_bound_content demo_legs demo_gvk "''ns''" ?n demo_durable] n demo_safe
    by (simp add: demo_bound_simps demo_capture_reads) blast
  then show ?thesis by (intro exI [of _ ?s]) simp
qed

end
