(* ===== verification/Spec2Isabelle.thy ===== *)
theory Spec2Isabelle
  imports Dataleg Manifest_Targets Content_Ready Data_Leg_Guarantees Capture_Release Import_Guarantees Subtree_Guarantees Binding_Properties Protocol_Progress
begin

text \<open>
  Verification of the state snapshotter: a controller that captures the manifests and the volumes of a
  namespace into trees of SnapshotContents, and restores, downloads and imports such trees.

  The program and its parts. A Snapshot (or a snapshot of another kind) is bound to a SnapshotContent.
  A ManifestCaptureRequest lists the objects of one node of the tree; its controller packs their manifests
  into the chunks of a ManifestCheckpoint, which the SnapshotContent then owns. A VolumeCaptureRequest or a
  VolumeSnapshot is the other, the data leg of the node. The SnapshotContent controller follows both legs
  and the contents of the children, publishes what is durable in the status of the content, and derives its
  Ready condition, which climbs from the leaves to the root. The read side downloads the archive of a
  checkpoint, and the restore compiler turns the archives of a tree into manifests that can be applied.
  The binding controller makes the content of a snapshot and ties both together. While a snapshot is captured
  its domain controller (through the SDK of pkg/snapshotsdk) and the SnapshotContent controller write to it
  concurrently: the domain declares children, requests and phases, the other side latches what is durable and
  deletes the requests.

  Theories and code (paths below images/state-snapshotter-controller/ unless they begin with api/ or pkg/snapshotsdk).

    \<^item> Prelude: byte strings, Go's maps and slices, sort.Slice on a strict (weak) order as the locales
      slice_order and slice_weak_order; every comparison of the code that is sorted with is an interpretation.
    \<^item> Api_Types, Cluster_State: the types of api/storage/v1alpha1 and the objects the controllers read. A
      record has one field per field that the code reads; a field read through an accessor whose found flag or
      error the code looks at has the type nested. The record env holds the reads of a pass.
    \<^item> Json_Values: JSON as Go holds it (interface values, maps with sorted keys), with the laws of the
      association lists as the locale sorted_map.
    \<^item> Dataleg: the completeness contract of status.data (api/storage/v1alpha1/dataleg): scenario axis,
      matrix, validate, Check.
    \<^item> GVK_Registry: pkg/snapshot/gvk_registry.go. Names: api/names/names.go, over an arbitrary digest.
    \<^item> Manifest_Targets: which objects of a namespace are captured (pkg/namespacemanifest).
    \<^item> Conditions, Owner_Refs, Domain_Phase, Diagnostics: pkg/snapshot/conditions.go,
      snaphelpers/lifecycle_ownerrefs.go, the readers of the domain phase, the messages.
    \<^item> Data_Readiness, Content_Children, Excluded_Refs, Content_Status and Content_Ready: one aggregation
      pass of a SnapshotContent (controllers/snapshotcontent) and what it guarantees.
    \<^item> Volume_Capture, Data_Leg_Projection and Data_Leg_Guarantees: the VolumeCaptureRequest as the core
      reads it (controllers/volumecapture) and the projection of the data leg, native and imported.
    \<^item> Manifest_Chunks, Archive_Read and Archive_Guarantees: packing of manifests into chunks, resuming,
      and the read side (usecase/archive_service.go).
    \<^item> Manifest_Capture, Manifest_Capture_Guarantees, Manifest_Capture_Runs and Capture_Release: the
      controller of a ManifestCaptureRequest (controllers/manifestcapture), with the invariant of its cluster,
      whole runs of it, and the release of a request.
    \<^item> Import_Checkpoint and Import_Guarantees: the upload of manifests and the checkpoint that is
      reconstructed from them (usecase/import_upload.go, import_manifest_reconstruct.go).
    \<^item> Restore_Sanitizer, Restore_Compiler and Restore_Guarantees: usecase/restore.
    \<^item> Graph_Walk: the walk over a graph with a shared visited set that the next three have in common.
      Node_Manifests (usecase/aggregated_namespace_manifests.go, per_cr_manifests.go,
      subtree_manifest_identities.go), Pvc_Coverage (usecase/volumecapture, root_capture_run_exclude.go) and
      Subtree_Identities (pkg/snapshotsdk/subtree_identities.go): what a node and a subtree hold, and what is
      left to the root of a run; Subtree_Guarantees: that these fit together.
    \<^item> Snapshot_Binding: the passes of the binding controller (controllers/genericbinder) over an explicit
      cluster in which any call of a pass may fail; Binding_Guarantees, Binding_Outcomes, Binding_Properties: its runs.
    \<^item> Capture_Protocol: the objects of a capture, programs of API calls (prog) and their interleaving (run).
      Domain_Capture: the operations of the SDK (pkg/snapshotsdk/capture.go and its helpers) as programs;
      Capture_Legs: the pass of controllers/snapshotcontent/capture_legs.go as a program.
    \<^item> Protocol_Guarantees (the order in which a snapshot evolves and the programs that conform to it),
      Protocol_Conformance (the SDK conforms), Protocol_Runs (the controller conforms; the locale protocol, the
      contract of an invariant of all interleavings), Protocol_Invariants (its interpretations),
      Protocol_Instances (the concrete cluster of the witnesses), Protocol_Properties (what holds in every
      interleaving) and Protocol_Progress (what a pass alone achieves).

  A theory whose name ends in Guarantees, Outcomes, Properties, Ready, Runs, Release, Conformance, Invariants,
  Instances or Progress holds no operation that another part calls, but the properties of the operations,
  their lemmas and the concrete clusters their witnesses run on.

  How the code is rendered. Pure functions are functions. An operation that writes takes the state and
  returns its result and the new state; an error is a value of a sum type. A write that the API server
  refuses leaves the state as it is; a retry loop on conflicts is its last run. Calls to the API server, the
  codecs (JSON text, gzip, base64, checksums) and the parsers of group and version are arguments (env, codec,
  chunk_api and the like), since their code is not part of the repository; a property that needs a law of
  them names it as a hypothesis (codec_ok, parses_canonical), and its witness discharges it for a concrete
  codec. Log lines, events and metrics are left out.

  Concurrency. The interleaving of the capture is modelled call by call: a read through the cache answers from
  any earlier state of the server, a live read from the current one, a status patch fails when the object has
  changed since it was read, and the answer of any call can be lost. The decisions that read contents,
  checkpoints and artifacts are made on one view of them (an env) each. The other theories model one pass as
  one function, with failures as an argument.

  Fuel. Four recursions follow objects of the cluster or the answers of the API server. The fuel of the restore
  walk (buildRestoreNode) and of walk bounds the depth; the visited sets of the code make any fuel above the
  number of readable objects enough, which restore_tree_terminates and tree_walks_terminate prove, together with
  the independence of the result from more fuel. EnsureVCR calls itself when the create finds a request which
  the cache does not show, without a bound in the code; its fuel counts these encounters, and no property
  depends on it. Retries on conflicts are bounded by the five attempts of the code.

  What the lemmas show, by group: the laws of the data (sorting, maps, JSON paths and frames); the effect of
  every operation on every branch; invariants (the cluster of the capture controller, the subtree latch of a
  content); the composition of a capture with the release, the import and the download; and the findings,
  where a property states what the code does although a comment or its purpose says otherwise.

  Not modelled. The Helm chart, the tests and the tooling; the start-up code and the HTTP layer of the
  aggregated API server (routing and marshalling around the use cases); the strategy by which the namespace
  snapshot drives the SDK (controllers/snapshot; a domain controller is an arbitrary sequence of SDK calls
  here), the import of VolumeSnapshots, the webhooks and the hooks. Of the binding controller and of
  snapshot/parent_graph.go the functions that nothing calls are left out (ensureObjectKeeper,
  desiredUnifiedRootObjectKeeperSpec, checkChildSnapshotExists; reconcileParentOwnedChildGraph and its helpers).
\<close>

end
